(* ===== verification/Prelude.thy ===== *)
theory Prelude
  imports Main "HOL-Library.Word" "HOL-Library.Sublist"
    "HOL-Library.Multiset"
begin

text \<open>
  Shared vocabulary of the development.

  Rust's \<open>Result<T, E>\<close> is the datatype \<open>result\<close>; the \<open>?\<close> operator is \<open>rbind\<close>
  (with \<open>map_err\<close> where the source converts the error with \<open>From\<close>). An asynchronous
  operation that talks to a chain, a database or another service is a function of a world
  \<open>'w\<close> that returns its result and the next world (type \<open>io\<close>); \<open>.await?\<close> is \<open>io_bind\<close>.
  Loops that push the results of fallible calls are \<open>rmap\<close>, \<open>rfilter\<close> and \<open>rfold\<close>.

  The lemmas below invert successful runs (\<open>rbind_Ok_iff\<close> and its kin, collected in
  \<open>ok_iff\<close>) and are what most component proofs start from.
\<close>

section \<open>Results\<close>

named_theorems ok_iff \<open>inversion of successful runs\<close>

datatype ('a, 'e) result = Ok 'a | Err 'e

fun rbind :: "('a, 'e) result \<Rightarrow> ('a \<Rightarrow> ('b, 'e) result) \<Rightarrow> ('b, 'e) result" where
  "rbind (Ok x) f = f x"
| "rbind (Err e) f = Err e"

fun map_err :: "('e \<Rightarrow> 'e2) \<Rightarrow> ('a, 'e) result \<Rightarrow> ('a, 'e2) result" where
  "map_err g (Ok x) = Ok x"
| "map_err g (Err e) = Err (g e)"

fun ok_or :: "'a option \<Rightarrow> 'e \<Rightarrow> ('a, 'e) result" where
  "ok_or None e = Err e"
| "ok_or (Some x) e = Ok x"

fun is_ok :: "('a, 'e) result \<Rightarrow> bool" where
  "is_ok (Ok x) = True"
| "is_ok (Err e) = False"

fun unwrap_or :: "('a, 'e) result \<Rightarrow> 'a \<Rightarrow> 'a" where
  "unwrap_or (Ok x) d = x"
| "unwrap_or (Err e) d = d"

fun rmap :: "('a \<Rightarrow> ('b, 'e) result) \<Rightarrow> 'a list \<Rightarrow> ('b list, 'e) result" where
  "rmap f [] = Ok []"
| "rmap f (x # xs) = rbind (f x) (\<lambda>y. rbind (rmap f xs) (\<lambda>ys. Ok (y # ys)))"

fun rfilter :: "('a \<Rightarrow> (bool, 'e) result) \<Rightarrow> 'a list \<Rightarrow> ('a list, 'e) result" where
  "rfilter p [] = Ok []"
| "rfilter p (x # xs) =
     rbind (p x) (\<lambda>b. rbind (rfilter p xs) (\<lambda>ys. Ok (if b then x # ys else ys)))"

fun rfold :: "('a \<Rightarrow> 's \<Rightarrow> ('s, 'e) result) \<Rightarrow> 'a list \<Rightarrow> 's \<Rightarrow> ('s, 'e) result" where
  "rfold f [] s = Ok s"
| "rfold f (x # xs) s = rbind (f x s) (rfold f xs)"

lemma rbind_Ok_iff [ok_iff]: "rbind r f = Ok y \<longleftrightarrow> (\<exists>x. r = Ok x \<and> f x = Ok y)"
  by (cases r) auto

lemma rbind_Err_iff: "rbind r f = Err e \<longleftrightarrow> r = Err e \<or> (\<exists>x. r = Ok x \<and> f x = Err e)"
  by (cases r) auto

lemma map_err_Ok_iff [ok_iff, simp]: "map_err g r = Ok y \<longleftrightarrow> r = Ok y"
  by (cases r) auto

lemma map_err_Err_iff: "map_err g r = Err e \<longleftrightarrow> (\<exists>e'. r = Err e' \<and> e = g e')"
  by (cases r) auto

lemma ok_or_Ok_iff [ok_iff]: "ok_or m e = Ok y \<longleftrightarrow> m = Some y"
  by (cases m) auto

lemma rbind_assoc: "rbind (rbind r f) g = rbind r (\<lambda>x. rbind (f x) g)"
  by (cases r) auto

lemma rbind_Ok_right [simp]: "rbind r Ok = r"
  by (cases r) auto

lemma rbind_cong [fundef_cong]:
  "r = r' \<Longrightarrow> (\<And>x. r' = Ok x \<Longrightarrow> f x = f' x) \<Longrightarrow> rbind r f = rbind r' f'"
  by (cases r') auto

lemma rmap_Ok_length: "rmap f xs = Ok ys \<Longrightarrow> length ys = length xs"
  by (induction xs arbitrary: ys) (auto simp: ok_iff)

lemma rmap_total: "(\<And>x. x \<in> set xs \<Longrightarrow> f x = Ok (g x)) \<Longrightarrow> rmap f xs = Ok (map g xs)"
  by (induction xs) auto

lemma rmap_Ok_nth: "rmap f xs = Ok ys \<Longrightarrow> i < length xs \<Longrightarrow> f (xs ! i) = Ok (ys ! i)"
  by (induction xs arbitrary: ys i) (auto simp: ok_iff nth_Cons split: nat.splits)

lemma rfilter_total: "(\<And>x. x \<in> set xs \<Longrightarrow> p x = Ok (q x)) \<Longrightarrow> rfilter p xs = Ok (filter q xs)"
  by (induction xs) auto

lemma rfilter_Ok_filter:
  "rfilter p xs = Ok ys \<Longrightarrow> ys = filter (\<lambda>x. p x = Ok True) xs"
  by (induction xs arbitrary: ys) (auto simp: ok_iff)

lemma rfilter_Ok_set: "rfilter p xs = Ok ys \<Longrightarrow> x \<in> set ys \<Longrightarrow> x \<in> set xs \<and> p x = Ok True"
  by (auto dest: rfilter_Ok_filter)

section \<open>Effects\<close>

type_synonym ('a, 'e, 'w) io = "'w \<Rightarrow> ('a, 'e) result \<times> 'w"

definition io_return :: "'a \<Rightarrow> ('a, 'e, 'w) io" where
  "io_return x w = (Ok x, w)"

definition io_fail :: "'e \<Rightarrow> ('a, 'e, 'w) io" where
  "io_fail e w = (Err e, w)"

definition io_pure :: "('a, 'e) result \<Rightarrow> ('a, 'e, 'w) io" where
  "io_pure r w = (r, w)"

definition io_bind :: "('a, 'e, 'w) io \<Rightarrow> ('a \<Rightarrow> ('b, 'e, 'w) io) \<Rightarrow> ('b, 'e, 'w) io" where
  "io_bind m f w = (case m w of (Ok x, w') \<Rightarrow> f x w' | (Err e, w') \<Rightarrow> (Err e, w'))"

definition io_map_err :: "('e \<Rightarrow> 'e2) \<Rightarrow> ('a, 'e, 'w) io \<Rightarrow> ('a, 'e2, 'w) io" where
  "io_map_err g m w = (case m w of (r, w') \<Rightarrow> (map_err g r, w'))"

definition io_try :: "('a, 'e, 'w) io \<Rightarrow> (('a, 'e) result, 'e2, 'w) io" where
  \<comment> \<open>\<open>.await\<close> without \<open>?\<close>: the result is a value\<close>
  "io_try m w = (case m w of (r, w') \<Rightarrow> (Ok r, w'))"

lemmas io_defs = io_return_def io_fail_def io_pure_def io_bind_def io_map_err_def io_try_def

lemma io_bind_Ok_iff [ok_iff]:
  "io_bind m f w = (Ok y, w'') \<longleftrightarrow> (\<exists>x w'. m w = (Ok x, w') \<and> f x w' = (Ok y, w''))"
  by (auto simp: io_bind_def split: prod.splits result.splits)

lemma io_return_Ok_iff [ok_iff, simp]: "io_return x w = (Ok y, w') \<longleftrightarrow> y = x \<and> w' = w"
  by (auto simp: io_return_def)

lemma io_fail_Ok_iff [ok_iff, simp]: "io_fail e w = (Ok y, w') \<longleftrightarrow> False"
  by (auto simp: io_fail_def)

lemma io_pure_Ok_iff [ok_iff, simp]: "io_pure r w = (Ok y, w') \<longleftrightarrow> r = Ok y \<and> w' = w"
  by (auto simp: io_pure_def)

lemma io_map_err_Ok_iff [ok_iff, simp]:
  "io_map_err g m w = (Ok y, w') \<longleftrightarrow> m w = (Ok y, w')"
  by (auto simp: io_map_err_def split: prod.splits)

lemma io_try_Ok_iff [ok_iff, simp]: "io_try m w = (Ok r, w') \<longleftrightarrow> m w = (r, w')"
  by (auto simp: io_try_def split: prod.splits)

lemma io_bind_cong [fundef_cong]:
  assumes "m w = m' w'" "w = w'" "\<And>x v. m' w' = (Ok x, v) \<Longrightarrow> f x v = f' x v"
  shows "io_bind m f w = io_bind m' f' w'"
  using assms by (auto simp: io_bind_def split: prod.splits result.splits)

text \<open>
  A list of requests run one after another: \<open>io_mapM\<close> stops at the first error (\<open>try_collect\<close>),
  \<open>io_map_all\<close> runs them all and keeps every result (\<open>collect\<close> of a stream of results).
\<close>

fun io_mapM :: "('x \<Rightarrow> ('a, 'e, 'w) io) \<Rightarrow> 'x list \<Rightarrow> ('a list, 'e, 'w) io" where
  "io_mapM f [] w = (Ok [], w)"
| "io_mapM f (x # xs) w =
     (case f x w of
        (Err e, w1) \<Rightarrow> (Err e, w1)
      | (Ok y, w1) \<Rightarrow>
          (case io_mapM f xs w1 of (Err e, w2) \<Rightarrow> (Err e, w2) | (Ok ys, w2) \<Rightarrow> (Ok (y # ys), w2)))"

fun io_map_all :: "('x \<Rightarrow> ('a, 'e, 'w) io) \<Rightarrow> 'x list \<Rightarrow> 'w \<Rightarrow> ('a, 'e) result list \<times> 'w" where
  "io_map_all f [] w = ([], w)"
| "io_map_all f (x # xs) w =
     (case f x w of (r, w1) \<Rightarrow> (case io_map_all f xs w1 of (rs, w2) \<Rightarrow> (r # rs, w2)))"

fun oks :: "('a, 'e) result list \<Rightarrow> 'a list" where
  "oks [] = []"
| "oks (Ok x # rs) = x # oks rs"
| "oks (Err e # rs) = oks rs"

fun errs :: "('a, 'e) result list \<Rightarrow> 'e list" where
  "errs [] = []"
| "errs (Ok x # rs) = errs rs"
| "errs (Err e # rs) = e # errs rs"

lemma set_oks: "set (oks rs) = {x. Ok x \<in> set rs}"
  by (induction rs rule: oks.induct) auto

lemma set_errs: "set (errs rs) = {e. Err e \<in> set rs}"
  by (induction rs rule: errs.induct) auto

lemma mset_oks_errs:
  "image_mset f (mset (oks rs)) + image_mset g (mset (errs rs)) =
   mset (map (\<lambda>r. case r of Ok x \<Rightarrow> f x | Err e \<Rightarrow> g e) rs)"
  by (induction rs rule: oks.induct) auto

lemma io_mapM_Ok:
  "io_mapM f xs w = (Ok ys, w') \<Longrightarrow> list_all2 (\<lambda>x y. \<exists>w1 w2. f x w1 = (Ok y, w2)) xs ys"
  by (induction xs arbitrary: ys w) (fastforce split: prod.splits result.splits)+

lemma io_map_all_results:
  "io_map_all f xs w = (rs, w') \<Longrightarrow> list_all2 (\<lambda>x r. \<exists>w1 w2. f x w1 = (r, w2)) xs rs"
  by (induction xs arbitrary: rs w) (fastforce split: prod.splits)+

lemma rmap_id_Ok: "rmap (\<lambda>r. r) rs = Ok ys \<longleftrightarrow> rs = map Ok ys"
proof (induction rs arbitrary: ys)
  case (Cons r rs)
  then show ?case by (cases r; cases ys) (auto simp: ok_iff)
qed auto

section \<open>Machine values\<close>

type_synonym u8 = "8 word"
type_synonym u32 = "32 word"
type_synonym u64 = "64 word"
type_synonym u256 = "256 word"
type_synonym b256 = "256 word"
type_synonym address = "160 word"
type_synonym bytes = "8 word list"

text \<open>
  The errors of libraries (parsing, floats, contract calls) are represented by the text they
  display, the only thing the modelled code reads of them.
\<close>
type_synonym ext_error = string

definition saturating_sub :: "'n::len word \<Rightarrow> 'n word \<Rightarrow> 'n word" where
  "saturating_sub a b = (if b \<le> a then a - b else 0)"

definition saturating_add :: "'n::len word \<Rightarrow> 'n word \<Rightarrow> 'n word" where
  "saturating_add a b = (if unat a + unat b < 2 ^ LENGTH('n) then a + b else -1)"

definition saturating_mul :: "'n::len word \<Rightarrow> 'n word \<Rightarrow> 'n word" where
  "saturating_mul a b = (if unat a * unat b < 2 ^ LENGTH('n) then a * b else -1)"

lemma unat_saturating_sub: "unat (saturating_sub a b) = unat a - unat b"
  by (auto simp: saturating_sub_def unat_sub word_le_nat_alt)

lemma unat_minus_one_exp: "unat (-1 :: 'n::len word) = 2 ^ LENGTH('n) - 1"
  by (simp add: unsigned_minus_1_eq_mask mask_eq_exp_minus_1)

lemma unat_saturating_add:
  "unat (saturating_add a (b :: 'n::len word)) = min (unat a + unat b) (2 ^ LENGTH('n) - 1)"
  by (auto simp: saturating_add_def unat_word_ariths unat_minus_one_exp min_def)

lemma unat_saturating_mul:
  "unat (saturating_mul a (b :: 'n::len word)) = min (unat a * unat b) (2 ^ LENGTH('n) - 1)"
  by (simp add: saturating_mul_def unat_word_ariths unat_minus_one_exp min_def not_less)
    (metis Suc_pred less_Suc_eq_le not_le zero_less_numeral zero_less_power)

lemma unat_ucast_le:
  "LENGTH('a::len) \<le> LENGTH('b::len) \<Longrightarrow> unat (ucast (x :: 'a word) :: 'b word) = unat x"
  by transfer (simp add: take_bit_nat_eq_self_iff min_def)

section \<open>Decimal text\<close>

fun digit_char :: "nat \<Rightarrow> char" where
  "digit_char d = char_of (48 + d)"

fun show_nat :: "nat \<Rightarrow> string" where
  "show_nat n = (if n < 10 then [digit_char n] else show_nat (n div 10) @ [digit_char (n mod 10)])"

declare show_nat.simps [simp del]

abbreviation show_word :: "'n::len word \<Rightarrow> string" where
  "show_word w \<equiv> show_nat (unat w)"

text \<open>\<open>str::strip_prefix\<close> and \<open>str::contains\<close>.\<close>

fun strip_prefix :: "string \<Rightarrow> string \<Rightarrow> string option" where
  "strip_prefix [] s = Some s"
| "strip_prefix (p # ps) [] = None"
| "strip_prefix (p # ps) (c # cs) = (if p = c then strip_prefix ps cs else None)"

lemma strip_prefix_Some: "strip_prefix p s = Some r \<longleftrightarrow> s = p @ r"
  by (induction p s rule: strip_prefix.induct) auto

fun contains :: "string \<Rightarrow> string \<Rightarrow> bool" where
  "contains [] pat = (pat = [])"
| "contains (c # cs) pat = (strip_prefix pat (c # cs) \<noteq> None \<or> contains cs pat)"

text \<open>Trimming and case folding, on the characters up to 255.\<close>

definition hex_digit :: "nat \<Rightarrow> char" where
  "hex_digit n = ''0123456789abcdef'' ! n"

definition address_hex :: "address \<Rightarrow> string" where
  "address_hex a = ''0x'' @ map (\<lambda>i. hex_digit (unat a div 16 ^ i mod 16)) (rev [0..<40])"

definition is_whitespace :: "char \<Rightarrow> bool" where
  "is_whitespace c \<longleftrightarrow> (of_char c :: nat) \<in> {9, 10, 11, 12, 13, 32, 133, 160}"

definition trim_start :: "string \<Rightarrow> string" where
  "trim_start s = dropWhile is_whitespace s"

definition trim_end :: "string \<Rightarrow> string" where
  "trim_end s = rev (dropWhile is_whitespace (rev s))"

definition trim :: "string \<Rightarrow> string" where
  "trim s = trim_end (trim_start s)"

definition to_ascii_lowercase :: "char \<Rightarrow> char" where
  "to_ascii_lowercase c =
     (let n = (of_char c :: nat) in if 65 \<le> n \<and> n \<le> 90 then char_of (n + 32) else c)"

definition eq_ignore_ascii_case :: "string \<Rightarrow> string \<Rightarrow> bool" where
  "eq_ignore_ascii_case a b \<longleftrightarrow> map to_ascii_lowercase a = map to_ascii_lowercase b"

text \<open>\<open>String::replace\<close>: every occurrence from the left, not overlapping.\<close>

function replace_all :: "string \<Rightarrow> string \<Rightarrow> string \<Rightarrow> string" where
  "replace_all pat rep s =
     (if pat = [] then rep @ concat (map (\<lambda>c. c # rep) s)
      else case s of
        [] \<Rightarrow> []
      | c # cs \<Rightarrow>
          (case strip_prefix pat s of
             Some r \<Rightarrow> rep @ replace_all pat rep r
           | None \<Rightarrow> c # replace_all pat rep cs))"
  by pat_completeness auto

termination replace_all
  by (relation "measure (\<lambda>(p, r, s). length s)") (auto simp: strip_prefix_Some)

declare replace_all.simps [simp del]

text \<open>\<open>slice::join\<close>, \<open>str::find\<close> with the texts around the match, and \<open>str::split\<close>.\<close>

fun join :: "string \<Rightarrow> string list \<Rightarrow> string" where
  "join sep [] = []"
| "join sep [s] = s"
| "join sep (s # ss) = s @ sep @ join sep ss"

function split_once :: "string \<Rightarrow> string \<Rightarrow> (string \<times> string) option" where
  "split_once pat s =
     (case strip_prefix pat s of
        Some r \<Rightarrow> Some ([], r)
      | None \<Rightarrow> (case s of [] \<Rightarrow> None
          | c # cs \<Rightarrow> map_option (\<lambda>(before, after). (c # before, after)) (split_once pat cs)))"
  by pat_completeness auto

termination split_once
  by (relation "measure (\<lambda>(p, s). length s)") auto

declare split_once.simps [simp del]

lemma split_once_Some: "split_once pat s = Some (before, after) \<Longrightarrow> s = before @ pat @ after"
proof (induction pat s arbitrary: before rule: split_once.induct)
  case (1 pat s)
  then show ?case
    by (subst (asm) split_once.simps) (auto simp: strip_prefix_Some split: option.splits list.splits)
qed

function split_str :: "string \<Rightarrow> string \<Rightarrow> string list" where
  \<comment> \<open>by a pattern that is not empty\<close>
  "split_str pat s =
     (if pat = [] then [s]
      else case split_once pat s of
        None \<Rightarrow> [s]
      | Some (before, after) \<Rightarrow> before # split_str pat after)"
  by pat_completeness auto

termination split_str
  by (relation "measure (\<lambda>(p, s). length s)") (auto dest!: split_once_Some)

declare split_str.simps [simp del]

lemma split_once_char: "c \<notin> set before \<Longrightarrow> split_once [c] (before @ c # after) = Some (before, after)"
  by (induction before) (subst split_once.simps, force)+

lemma split_once_none: "c \<notin> set s \<Longrightarrow> split_once [c] s = None"
  by (induction s) (subst split_once.simps, force)+

lemma split_join:
  "\<forall>p \<in> set parts. c \<notin> set p \<Longrightarrow> parts \<noteq> [] \<Longrightarrow> split_str [c] (join [c] parts) = parts"
proof (induction "[c]" parts rule: join.induct)
  case (3 p q ps)
  then show ?case by (subst split_str.simps) (simp add: split_once_char)
qed (simp, subst split_str.simps, simp add: split_once_none)

text \<open>
  \<open>str::parse\<close> for an unsigned type: an optional \<open>+\<close>, then digits; a character that is no digit is
  reported before the overflow of the digits read up to it.
\<close>

definition digit_value :: "char \<Rightarrow> nat option" where
  "digit_value c = (let n = of_char c in if 48 \<le> n \<and> n \<le> 57 then Some (n - 48) else None)"

fun parse_digits :: "nat \<Rightarrow> nat \<Rightarrow> string \<Rightarrow> (nat, ext_error) result" where
  "parse_digits limit acc [] = Ok acc"
| "parse_digits limit acc (c # cs) =
     (case digit_value c of
        None \<Rightarrow> Err ''invalid digit found in string''
      | Some d \<Rightarrow>
          if limit \<le> acc * 10 + d then Err ''number too large to fit in target type''
          else parse_digits limit (acc * 10 + d) cs)"

definition parse_unsigned :: "nat \<Rightarrow> string \<Rightarrow> (nat, ext_error) result" where
  "parse_unsigned limit s =
     (case s of
        [] \<Rightarrow> Err ''cannot parse integer from empty string''
      | [c] \<Rightarrow> if c \<in> {CHR ''+'', CHR ''-''} then Err ''invalid digit found in string''
                else parse_digits limit 0 s
      | c # cs \<Rightarrow> if c = CHR ''+'' then parse_digits limit 0 cs else parse_digits limit 0 s)"

lemma digit_value_char: "d < 10 \<Longrightarrow> digit_value (digit_char d) = Some d"
  by (simp add: digit_value_def)

lemma parse_digits_append:
  "parse_digits limit acc (xs @ ys) = rbind (parse_digits limit acc xs) (\<lambda>n. parse_digits limit n ys)"
  by (induction xs arbitrary: acc) (auto split: option.splits)

lemma parse_digits_show: "n < limit \<Longrightarrow> parse_digits limit 0 (show_nat n) = Ok n"
proof (induction n rule: show_nat.induct)
  case (1 n)
  show ?case
  proof (cases "n < 10")
    case True
    with 1 show ?thesis by (subst show_nat.simps) (simp add: digit_value_char del: digit_char.simps)
  next
    case False
    with 1 have "parse_digits limit 0 (show_nat (n div 10)) = Ok (n div 10)" by simp
    with False 1(2) show ?thesis
      by (subst show_nat.simps) (simp add: parse_digits_append digit_value_char del: digit_char.simps)
  qed
qed

lemma show_nat_head: "\<exists>d cs. show_nat n = digit_char d # cs \<and> d < 10"
proof (induction n rule: show_nat.induct)
  case (1 n)
  then show ?case by (cases "n < 10") (subst show_nat.simps, force simp del: digit_char.simps)+
qed

lemma parse_unsigned_show: "n < limit \<Longrightarrow> parse_unsigned limit (show_nat n) = Ok n"
proof -
  assume n: "n < limit"
  obtain d cs where s: "show_nat n = digit_char d # cs" and d: "d < 10" using show_nat_head by blast
  have "digit_char d \<notin> {CHR ''+'', CHR ''-''}"
    using d by (auto dest!: arg_cong[where f = "of_char :: char \<Rightarrow> nat"])
  then show ?thesis
    using parse_digits_show[OF n] unfolding parse_unsigned_def s by (cases cs) auto
qed

section \<open>Lists\<close>

lemma subseq_sorted: "subseq xs ys \<Longrightarrow> sorted ys \<Longrightarrow> sorted (xs :: 'a::linorder list)"
  by (auto simp: subseq_conv_nths intro: sorted_nths)

lemma subseq_set: "subseq xs ys \<Longrightarrow> x \<in> set xs \<Longrightarrow> x \<in> set ys"
  by (auto simp: subseq_conv_nths dest: in_set_nthsD)

lemma sum_list_sort_key:
  "(\<Sum>x\<leftarrow>sort_key k xs. f x) = (\<Sum>x\<leftarrow>xs. (f x :: 'a::comm_monoid_add))"
  by (metis mset_map mset_sort sum_mset_sum_list)

text \<open>Counting: lists whose elements fall under exactly one of several filters.\<close>

lemma mset_concat_filters:
  assumes "\<And>x. x \<in> set xs \<Longrightarrow> length (filter (\<lambda>f. P f x) fs) = (if Q x then 1 else 0)"
  shows "mset (concat (map (\<lambda>f. filter (P f) xs) fs)) = mset (filter Q xs)"
  using assms
proof (induction xs)
  case Nil
  then show ?case by (induction fs) simp_all
next
  case (Cons x xs)
  have split: "mset (concat (map (\<lambda>f. filter (P f) (x # xs)) fs)) =
      replicate_mset (length (filter (\<lambda>f. P f x) fs)) x +
      mset (concat (map (\<lambda>f. filter (P f) xs) fs))"
    by (induction fs) auto
  from Cons show ?case unfolding split by auto
qed

lemma mset_concat_map:
  "mset (concat (map g xs)) = sum_mset (image_mset (\<lambda>x. mset (g x)) (mset xs))"
  by (induction xs) simp_all

lemma length_filter_count:
  assumes "\<And>f. f \<in> set fs \<Longrightarrow> distinct (g f)"
  shows "length (filter (\<lambda>f. b \<in> set (g f)) fs) = count (mset (concat (map g fs))) b"
  using assms by (induction fs) (auto simp: distinct_count_atmost_1 not_in_iff)

end
