(* ===== verification/Rust_Float.thy ===== *)
theory Rust_Float
  imports Complex_Main Prelude
begin

text \<open>
  The interface of the decimal float that the Rust crates import (\<open>rain_math_float::Float\<close>,
  a library outside this repository) and the repository's own comparison
  \<open>utils/float.rs::cmp_float\<close>.

  A float is a value of an arbitrary type \<open>'f\<close>; the operations the code calls are the fields
  of \<open>float_ops\<close>, each with the \<open>Result\<close> the library returns. \<open>float_order\<close> is what
  the code relies on for comparisons: they never fail and they order floats by the number they
  represent. \<open>float_exact\<close> adds that sums and differences are exact where the exact number fits a
  float (\<open>float_fits\<close>: a signed coefficient of 224 bits and an exponent of 32 bits, to the base ten);
  elsewhere they may lose digits, and nothing is assumed of them. \<open>int_floats\<close> is a concrete instance on which the
  properties that assume these laws are exercised.
\<close>

section \<open>Operations\<close>

record 'f float_ops =
  f_zero :: "('f, ext_error) result"
  f_parse :: "string \<Rightarrow> ('f, ext_error) result"
  f_format :: "'f \<Rightarrow> (string, ext_error) result"
  f_lt :: "'f \<Rightarrow> 'f \<Rightarrow> (bool, ext_error) result"
  f_gt :: "'f \<Rightarrow> 'f \<Rightarrow> (bool, ext_error) result"
  f_eq :: "'f \<Rightarrow> 'f \<Rightarrow> (bool, ext_error) result"
  f_lte :: "'f \<Rightarrow> 'f \<Rightarrow> (bool, ext_error) result"
  f_gte :: "'f \<Rightarrow> 'f \<Rightarrow> (bool, ext_error) result"
  f_is_zero :: "'f \<Rightarrow> (bool, ext_error) result"
  f_add :: "'f \<Rightarrow> 'f \<Rightarrow> ('f, ext_error) result"
  f_sub :: "'f \<Rightarrow> 'f \<Rightarrow> ('f, ext_error) result"
  f_mul :: "'f \<Rightarrow> 'f \<Rightarrow> ('f, ext_error) result"
  f_div :: "'f \<Rightarrow> 'f \<Rightarrow> ('f, ext_error) result"
  f_to_fixed_lossy :: "'f \<Rightarrow> u8 \<Rightarrow> (u256 \<times> bool, ext_error) result"
  f_from_fixed :: "u256 \<Rightarrow> u8 \<Rightarrow> ('f, ext_error) result"
  f_inner :: "'f \<Rightarrow> b256"

datatype ordering = Less | Equal | Greater

definition cmp_float :: "'f float_ops \<Rightarrow> 'f \<Rightarrow> 'f \<Rightarrow> (ordering, ext_error) result" where
  "cmp_float F a b =
     rbind (f_lt F a b) (\<lambda>lt.
       if lt then Ok Less
       else rbind (f_gt F a b) (\<lambda>gt. if gt then Ok Greater else Ok Equal))"

section \<open>Laws\<close>

definition float_order :: "'f float_ops \<Rightarrow> ('f \<Rightarrow> rat) \<Rightarrow> bool" where
  "float_order F v \<longleftrightarrow>
     (\<exists>z. f_zero F = Ok z \<and> v z = 0) \<and>
     (\<forall>a b. f_lt F a b = Ok (v a < v b) \<and> f_gt F a b = Ok (v b < v a) \<and>
            f_eq F a b = Ok (v a = v b) \<and> f_lte F a b = Ok (v a \<le> v b) \<and>
            f_gte F a b = Ok (v b \<le> v a))"

definition float_fits :: "rat \<Rightarrow> bool" where
  "float_fits q \<longleftrightarrow> (\<exists>(c :: int) (e :: int).
     \<bar>c\<bar> < 2 ^ 223 \<and> - (2 ^ 31) \<le> e \<and> e < 2 ^ 31 \<and> q = of_int c * 10 powi e)"

definition float_exact :: "'f float_ops \<Rightarrow> ('f \<Rightarrow> rat) \<Rightarrow> bool" where
  "float_exact F v \<longleftrightarrow>
     (\<forall>a b c. f_add F a b = Ok c \<longrightarrow> float_fits (v a + v b) \<longrightarrow> v c = v a + v b) \<and>
     (\<forall>a b c. f_sub F a b = Ok c \<longrightarrow> float_fits (v a - v b) \<longrightarrow> v c = v a - v b)"

lemma float_orderD:
  assumes "float_order F v"
  shows "\<exists>z. f_zero F = Ok z \<and> v z = 0" "f_lt F a b = Ok (v a < v b)"
    "f_gt F a b = Ok (v b < v a)" "f_eq F a b = Ok (v a = v b)" "f_lte F a b = Ok (v a \<le> v b)"
    "f_gte F a b = Ok (v b \<le> v a)"
  using assms by (auto simp: float_order_def)

lemma float_exactD:
  assumes "float_exact F v"
  shows "f_add F a b = Ok c \<Longrightarrow> float_fits (v a + v b) \<Longrightarrow> v c = v a + v b"
    "f_sub F a b = Ok c \<Longrightarrow> float_fits (v a - v b) \<Longrightarrow> v c = v a - v b"
  using assms by (auto simp: float_exact_def)

text \<open>Amounts with at most \<open>k\<close> decimals; those that are small enough fit.\<close>

definition with_decimals :: "nat \<Rightarrow> rat \<Rightarrow> bool" where
  "with_decimals k q \<longleftrightarrow> q * 10 ^ k \<in> \<int>"

lemma with_decimals_add: "with_decimals k p \<Longrightarrow> with_decimals k q \<Longrightarrow> with_decimals k (p + q)"
  by (simp add: with_decimals_def distrib_right)

lemma with_decimals_diff: "with_decimals k p \<Longrightarrow> with_decimals k q \<Longrightarrow> with_decimals k (p - q)"
  by (simp add: with_decimals_def left_diff_distrib)

lemma with_decimals_fit:
  assumes "with_decimals k q" "\<bar>q\<bar> * 10 ^ k < 2 ^ 223" "k \<le> 2 ^ 31"
  shows "float_fits q"
proof -
  from assms(1) obtain c :: int where c: "q * 10 ^ k = of_int c" by (auto simp: with_decimals_def elim: Ints_cases)
  have "\<bar>rat_of_int c\<bar> = \<bar>q\<bar> * 10 ^ k" by (simp flip: c add: abs_mult)
  with assms(2) have "rat_of_int \<bar>c\<bar> < rat_of_int (2 ^ 223)" by simp
  then have "\<bar>c\<bar> < 2 ^ 223" by (simp only: of_int_less_iff)
  moreover have "q = of_int c * 10 powi (- int k)"
    by (simp flip: c add: power_int_minus divide_inverse)
  moreover have "- (2 ^ 31) \<le> - int k" using of_nat_mono[OF assms(3), where 'a = int] by simp
  moreover have "- int k < 2 ^ 31" by (rule le_less_trans[of _ 0]) simp_all
  ultimately show ?thesis unfolding float_fits_def by blast
qed

lemma cmp_float_order:
  assumes "float_order F v"
  shows "cmp_float F a b =
    Ok (if v a < v b then Less else if v b < v a then Greater else Equal)"
  by (simp add: cmp_float_def float_orderD[OF assms])

section \<open>A concrete instance\<close>

definition int_floats :: "int float_ops" where
  "int_floats = \<lparr>
     f_zero = Ok 0,
     f_parse = (\<lambda>s. if s = ''0'' then Ok 0 else if s = ''10'' then Ok 10 else Err ''parse''),
     f_format = (\<lambda>a. Ok ''int''),
     f_lt = (\<lambda>a b. Ok (a < b)), f_gt = (\<lambda>a b. Ok (b < a)), f_eq = (\<lambda>a b. Ok (a = b)),
     f_lte = (\<lambda>a b. Ok (a \<le> b)), f_gte = (\<lambda>a b. Ok (b \<le> a)),
     f_is_zero = (\<lambda>a. Ok (a = 0)),
     f_add = (\<lambda>a b. Ok (a + b)), f_sub = (\<lambda>a b. Ok (a - b)), f_mul = (\<lambda>a b. Ok (a * b)),
     f_div = (\<lambda>a b. if b = 0 then Err ''div'' else Ok (a div b)),
     f_to_fixed_lossy = (\<lambda>a d. if 0 \<le> a then Ok (word_of_int a, False) else Err ''negative''),
     f_from_fixed = (\<lambda>a d. Ok (uint a)),
     f_inner = word_of_int \<rparr>"

lemma int_floats_order: "float_order int_floats rat_of_int"
  by (simp add: float_order_def int_floats_def)

lemma int_floats_exact: "float_exact int_floats rat_of_int"
  by (simp add: float_exact_def int_floats_def)

end
