(* ===== verification/Raindex_Types.thy ===== *)
theory Raindex_Types
  imports Rust_Float
begin

text \<open>
  The on-chain structs the crates share (\<open>crates/bindings/abis/IRaindexV7.json\<close>) and the errors
  of \<open>raindex_client/mod.rs::RaindexError\<close> that the modelled operations
  return. \<open>Panicked\<close> is not an error value of the code: it stands for a run that panics, so that
  the absence of panics can be stated.
\<close>

record io_v2 =
  io_token :: address
  io_vault_id :: b256

record evaluable_v4 =
  ev_interpreter :: address
  ev_store :: address
  ev_bytecode :: bytes

record order_v4 =
  order_owner :: address
  order_evaluable :: evaluable_v4
  valid_inputs :: "io_v2 list"
  valid_outputs :: "io_v2 list"
  order_nonce :: b256

record signed_context_v2 =
  sc_signer :: address
  sc_domain_separator :: b256
  sc_context :: "b256 list"
  sc_signature :: bytes

record take_order_config_v5 =
  toc_order :: order_v4
  toc_input_io_index :: u256
  toc_output_io_index :: u256
  toc_signed_context :: "signed_context_v2 list"

record take_orders_config_v6 =
  minimum_io :: b256
  maximum_io :: b256
  maximum_io_ratio :: b256
  io_is_input :: bool
  cfg_orders :: "take_order_config_v5 list"
  cfg_data :: bytes

datatype raindex_error =
    Float_Error ext_error
  | From_Hex_Error ext_error
  | Erc20 ext_error
  | Rpc_Client_Error ext_error
  | Chain_Id_Not_Found u32
  | Raindex_Quote_Error ext_error
  | Order_Detail_Error ext_error
  | No_Liquidity
  | Insufficient_Liquidity string string
  | Same_Token_Pair
  | Non_Positive_Amount
  | Negative_Price_Cap
  | Preflight_Error string
  | Zero_Amount
  | Negative_Amount
  | Panicked

text \<open>A float operation under \<open>?\<close> in a function that returns \<open>RaindexError\<close>.\<close>

abbreviation flt :: "('a, ext_error) result \<Rightarrow> ('a, raindex_error) result" where
  "flt \<equiv> map_err Float_Error"

end
