(* ===== verification/Take_Candidates.thy ===== *)
theory Take_Candidates
  imports Raindex_Types
begin

text \<open>
  \<open>common/src/take_orders/candidates.rs\<close>: from the quotes of a list of orders to the candidates
  a taker may select. A quote becomes a candidate when it succeeded, carries data, names inputs
  and outputs the order has, trades the requested tokens and offers a positive amount; every
  other quote is counted under the reason it was skipped.

  The quote batch (\<open>order_quotes.rs\<close>, an RPC multicall) is the argument \<open>get_quotes\<close>; the
  conversion of an order to its on-chain struct and its raindex address are the fields of
  \<open>order_ops\<close>. An index into a vector that is out of range panics in Rust: \<open>vec_index\<close> returns
  \<open>Panicked\<close> for it, and \<open>try_build_candidate_no_panic\<close> shows that it cannot happen.
\<close>

section \<open>Data\<close>

record pair =
  pair_name :: string
  pair_input_index :: u32
  pair_output_index :: u32

record 'f quote_value =
  qv_max_output :: 'f
  qv_formatted_max_output :: string
  qv_max_input :: 'f
  qv_formatted_max_input :: string
  qv_ratio :: 'f
  qv_formatted_ratio :: string
  qv_inverse_ratio :: 'f
  qv_formatted_inverse_ratio :: string
  qv_formatted_max_output_as_percent_of_vault :: "string option"

record 'f order_quote =
  q_pair :: pair
  q_block_number :: u64
  q_data :: "'f quote_value option"
  q_success :: bool
  q_error :: "string option"
  q_signed_context :: "signed_context_v2 list"

record 'f candidate =
  cand_raindex :: address
  cand_order :: order_v4
  cand_input_io_index :: u32
  cand_output_io_index :: u32
  cand_max_output :: 'f
  cand_ratio :: 'f
  cand_signed_context :: "signed_context_v2 list"

record build_stats =
  quote_count :: nat
  quote_failures :: nat
  skipped_missing_data :: nat
  skipped_out_of_bounds_io_indices :: nat
  skipped_wrong_direction :: nat
  skipped_zero_or_non_positive_capacity :: nat
  info_rejection_logs :: nat
  omitted_info_rejection_logs :: nat

definition default_stats :: build_stats where
  "default_stats = \<lparr>quote_count = 0, quote_failures = 0, skipped_missing_data = 0,
     skipped_out_of_bounds_io_indices = 0, skipped_wrong_direction = 0,
     skipped_zero_or_non_positive_capacity = 0, info_rejection_logs = 0,
     omitted_info_rejection_logs = 0\<rparr>"

record 'o order_ops =
  oo_order_v4 :: "'o \<Rightarrow> (order_v4, raindex_error) result"
  oo_raindex :: "'o \<Rightarrow> address"

section \<open>Operations\<close>

definition max_info_candidate_decision_logs :: nat where
  "max_info_candidate_decision_logs = 100"

definition max_logged_error_chars :: nat where
  "max_logged_error_chars = 512"

definition vec_index :: "'a list \<Rightarrow> u32 \<Rightarrow> ('a, raindex_error) result" where
  "vec_index xs i = (if unat i < length xs then Ok (xs ! unat i) else Err Panicked)"

definition indices_in_bounds :: "order_v4 \<Rightarrow> u32 \<Rightarrow> u32 \<Rightarrow> bool" where
  "indices_in_bounds order input_index output_index \<longleftrightarrow>
     unat input_index < length (valid_inputs order) \<and>
     unat output_index < length (valid_outputs order)"

definition matches_direction ::
  "order_v4 \<Rightarrow> u32 \<Rightarrow> u32 \<Rightarrow> address \<Rightarrow> address \<Rightarrow> (bool, raindex_error) result" where
  "matches_direction order input_index output_index input_token output_token =
     rbind (vec_index (valid_inputs order) input_index) (\<lambda>i.
     rbind (vec_index (valid_outputs order) output_index) (\<lambda>j.
     Ok (io_token i = input_token \<and> io_token j = output_token)))"

definition has_capacity :: "'f float_ops \<Rightarrow> 'f quote_value \<Rightarrow> (bool, raindex_error) result" where
  "has_capacity F data =
     rbind (flt (f_zero F)) (\<lambda>zero. flt (f_gt F (qv_max_output data) zero))"

definition truncate_error :: "string \<Rightarrow> string" where
  "truncate_error value =
     (if length value \<le> max_logged_error_chars then value
      else take max_logged_error_chars value @ ''...'')"

definition log_candidate_decision :: "build_stats \<Rightarrow> string \<Rightarrow> build_stats" where
  "log_candidate_decision stats decision =
     (if decision = ''accepted'' then stats
      else if max_info_candidate_decision_logs \<le> info_rejection_logs stats
      then stats\<lparr>omitted_info_rejection_logs := omitted_info_rejection_logs stats + 1\<rparr>
      else stats\<lparr>info_rejection_logs := info_rejection_logs stats + 1\<rparr>)"

definition get_raindex_address :: "'o order_ops \<Rightarrow> 'o \<Rightarrow> (address, raindex_error) result" where
  "get_raindex_address R order = Ok (oo_raindex R order)"

definition try_build_candidate ::
  "'f float_ops \<Rightarrow> address \<Rightarrow> order_v4 \<Rightarrow> 'f order_quote \<Rightarrow> address \<Rightarrow> address \<Rightarrow> build_stats
   \<Rightarrow> ('f candidate option \<times> build_stats, raindex_error) result" where
  "try_build_candidate F raindex order quote input_token output_token stats =
     (case (q_success quote, q_data quote) of
        (False, _) \<Rightarrow>
          Ok (None, log_candidate_decision
                (stats\<lparr>quote_failures := quote_failures stats + 1\<rparr>) ''rejected'')
      | (True, None) \<Rightarrow>
          Ok (None, log_candidate_decision
                (stats\<lparr>skipped_missing_data := skipped_missing_data stats + 1\<rparr>) ''rejected'')
      | (True, Some data) \<Rightarrow>
          let input_io_index = pair_input_index (q_pair quote);
              output_io_index = pair_output_index (q_pair quote)
          in if \<not> indices_in_bounds order input_io_index output_io_index
             then Ok (None, log_candidate_decision
                    (stats\<lparr>skipped_out_of_bounds_io_indices :=
                             skipped_out_of_bounds_io_indices stats + 1\<rparr>) ''rejected'')
             else rbind (matches_direction order input_io_index output_io_index
                           input_token output_token) (\<lambda>matching.
               if \<not> matching
               then Ok (None, log_candidate_decision
                      (stats\<lparr>skipped_wrong_direction := skipped_wrong_direction stats + 1\<rparr>)
                      ''rejected'')
               else rbind (has_capacity F data) (\<lambda>capacity.
                 if \<not> capacity
                 then Ok (None, log_candidate_decision
                        (stats\<lparr>skipped_zero_or_non_positive_capacity :=
                                 skipped_zero_or_non_positive_capacity stats + 1\<rparr>) ''rejected'')
                 else Ok (Some \<lparr>cand_raindex = raindex, cand_order = order,
                                cand_input_io_index = input_io_index,
                                cand_output_io_index = output_io_index,
                                cand_max_output = qv_max_output data,
                                cand_ratio = qv_ratio data,
                                cand_signed_context = q_signed_context quote\<rparr>,
                          log_candidate_decision stats ''accepted''))))"

fun build_from_quotes ::
  "'f float_ops \<Rightarrow> address \<Rightarrow> order_v4 \<Rightarrow> address \<Rightarrow> address \<Rightarrow> 'f order_quote list
   \<Rightarrow> 'f candidate list \<times> build_stats
   \<Rightarrow> ('f candidate list \<times> build_stats, raindex_error) result" where
  "build_from_quotes F raindex order input_token output_token [] acc = Ok acc"
| "build_from_quotes F raindex order input_token output_token (quote # quotes) (cands, stats) =
     rbind (try_build_candidate F raindex order quote input_token output_token
              (stats\<lparr>quote_count := quote_count stats + 1\<rparr>)) (\<lambda>(c, stats').
       build_from_quotes F raindex order input_token output_token quotes
         (case c of None \<Rightarrow> cands | Some candidate \<Rightarrow> cands @ [candidate], stats'))"

fun build_from_orders ::
  "'f float_ops \<Rightarrow> 'o order_ops \<Rightarrow> address \<Rightarrow> address \<Rightarrow> ('o \<times> 'f order_quote list) list
   \<Rightarrow> 'f candidate list \<times> build_stats
   \<Rightarrow> ('f candidate list \<times> build_stats, raindex_error) result" where
  "build_from_orders F R input_token output_token [] acc = Ok acc"
| "build_from_orders F R input_token output_token ((order, quotes) # rest) acc =
     rbind (oo_order_v4 R order) (\<lambda>v4.
     rbind (get_raindex_address R order) (\<lambda>raindex.
     rbind (build_from_quotes F raindex v4 input_token output_token quotes acc)
       (build_from_orders F R input_token output_token rest)))"

definition build_take_order_candidates_for_pair ::
  "'f float_ops \<Rightarrow> 'o order_ops
   \<Rightarrow> ('o list \<Rightarrow> u64 option \<Rightarrow> u32 option \<Rightarrow> address \<Rightarrow> 'i
        \<Rightarrow> ('f order_quote list list, raindex_error, 'w) io)
   \<Rightarrow> 'o list \<Rightarrow> address \<Rightarrow> address \<Rightarrow> u64 option \<Rightarrow> u32 option \<Rightarrow> address \<Rightarrow> 'i
   \<Rightarrow> ('f candidate list, raindex_error, 'w) io" where
  "build_take_order_candidates_for_pair F R get_quotes orders input_token output_token
       block_number chunk_size counterparty injector =
     io_bind (get_quotes orders block_number chunk_size counterparty injector) (\<lambda>all_quotes.
       io_pure (rbind (build_from_orders F R input_token output_token (zip orders all_quotes)
                         ([], default_stats)) (\<lambda>(cands, stats). Ok cands)))"

section \<open>What a candidate is\<close>

text \<open>The condition a quote has to meet, and the candidate made from it.\<close>

definition eligible ::
  "'f float_ops \<Rightarrow> order_v4 \<Rightarrow> address \<Rightarrow> address \<Rightarrow> 'f order_quote \<Rightarrow> bool" where
  "eligible F order input_token output_token q \<longleftrightarrow>
     q_success q \<and>
     (case q_data q of None \<Rightarrow> False
      | Some d \<Rightarrow>
          unat (pair_input_index (q_pair q)) < length (valid_inputs order) \<and>
          unat (pair_output_index (q_pair q)) < length (valid_outputs order) \<and>
          io_token (valid_inputs order ! unat (pair_input_index (q_pair q))) = input_token \<and>
          io_token (valid_outputs order ! unat (pair_output_index (q_pair q))) = output_token \<and>
          has_capacity F d = Ok True)"

definition candidate_of :: "address \<Rightarrow> order_v4 \<Rightarrow> 'f order_quote \<Rightarrow> 'f candidate" where
  "candidate_of raindex order q = \<lparr>cand_raindex = raindex, cand_order = order,
     cand_input_io_index = pair_input_index (q_pair q),
     cand_output_io_index = pair_output_index (q_pair q),
     cand_max_output = qv_max_output (the (q_data q)),
     cand_ratio = qv_ratio (the (q_data q)),
     cand_signed_context = q_signed_context q\<rparr>"

lemma vec_index_Ok_iff [ok_iff]: "vec_index xs i = Ok x \<longleftrightarrow> unat i < length xs \<and> x = xs ! unat i"
  by (auto simp: vec_index_def)

lemma matches_direction_in_bounds:
  assumes "indices_in_bounds order i j"
  shows "matches_direction order i j a b =
    Ok (io_token (valid_inputs order ! unat i) = a \<and> io_token (valid_outputs order ! unat j) = b)"
  using assms by (simp add: matches_direction_def indices_in_bounds_def vec_index_def)

text \<open>How a quote moves the statistics: the bookkeeping invariant of the builder.\<close>

definition rejections :: "build_stats \<Rightarrow> nat" where
  "rejections st = quote_failures st + skipped_missing_data st +
     skipped_out_of_bounds_io_indices st + skipped_wrong_direction st +
     skipped_zero_or_non_positive_capacity st"

definition stats_ok :: "nat \<Rightarrow> build_stats \<Rightarrow> bool" where
  "stats_ok accepted st \<longleftrightarrow>
     quote_count st = rejections st + accepted \<and>
     info_rejection_logs st = min (rejections st) max_info_candidate_decision_logs \<and>
     omitted_info_rejection_logs st = rejections st - max_info_candidate_decision_logs"

lemma stats_ok_default: "stats_ok 0 default_stats"
  by (simp add: stats_ok_def default_stats_def rejections_def)

lemma stats_ok_accept:
  "stats_ok n st \<Longrightarrow>
   stats_ok (Suc n) (log_candidate_decision (st\<lparr>quote_count := quote_count st + 1\<rparr>) ''accepted'')"
  by (simp add: stats_ok_def rejections_def log_candidate_decision_def)

lemma stats_ok_reject:
  assumes "stats_ok n st" "rejections st' = rejections st + 1"
    "quote_count st' = quote_count st + 1" "info_rejection_logs st' = info_rejection_logs st"
    "omitted_info_rejection_logs st' = omitted_info_rejection_logs st"
  shows "stats_ok n (log_candidate_decision st' ''rejected'')"
  using assms by (auto simp: stats_ok_def log_candidate_decision_def rejections_def min_def)

text \<open>One rejection counted: what the five skipping branches share.\<close>

definition rejected_from :: "build_stats \<Rightarrow> build_stats \<Rightarrow> bool" where
  "rejected_from st st' \<longleftrightarrow> (\<exists>st1. st' = log_candidate_decision st1 ''rejected'' \<and>
     rejections st1 = rejections st + 1 \<and> quote_count st1 = quote_count st \<and>
     info_rejection_logs st1 = info_rejection_logs st \<and>
     omitted_info_rejection_logs st1 = omitted_info_rejection_logs st)"

lemma rejected_fromI:
  "rejected_from st (log_candidate_decision
     (st\<lparr>quote_failures := quote_failures st + 1\<rparr>) ''rejected'')"
  "rejected_from st (log_candidate_decision
     (st\<lparr>skipped_missing_data := skipped_missing_data st + 1\<rparr>) ''rejected'')"
  "rejected_from st (log_candidate_decision
     (st\<lparr>skipped_out_of_bounds_io_indices := skipped_out_of_bounds_io_indices st + 1\<rparr>) ''rejected'')"
  "rejected_from st (log_candidate_decision
     (st\<lparr>skipped_wrong_direction := skipped_wrong_direction st + 1\<rparr>) ''rejected'')"
  "rejected_from st (log_candidate_decision
     (st\<lparr>skipped_zero_or_non_positive_capacity :=
           skipped_zero_or_non_positive_capacity st + 1\<rparr>) ''rejected'')"
  unfolding rejected_from_def by (rule exI, rule conjI, rule refl, simp add: rejections_def)+

lemma try_build_candidate_cases:
  assumes "try_build_candidate F raindex order q a b st = Ok (c, st')"
  shows "if eligible F order a b q
    then c = Some (candidate_of raindex order q) \<and> st' = log_candidate_decision st ''accepted''
    else c = None \<and> rejected_from st st'"
proof (cases "q_success q \<and> q_data q \<noteq> None")
  case False
  with assms show ?thesis
    by (cases "q_success q"; cases "q_data q")
      (auto simp add: try_build_candidate_def eligible_def rejected_fromI[simplified])
next
  case True
  then obtain d where d: "q_success q" "q_data q = Some d" by auto
  show ?thesis
  proof (cases "indices_in_bounds order (pair_input_index (q_pair q)) (pair_output_index (q_pair q))")
    case False
    with assms d show ?thesis
      by (auto simp add: try_build_candidate_def eligible_def indices_in_bounds_def
          rejected_fromI[simplified])
  next
    case True
    with assms d show ?thesis
      by (cases "has_capacity F d")
        (auto simp add: try_build_candidate_def eligible_def Let_def matches_direction_in_bounds
          indices_in_bounds_def candidate_of_def rejected_fromI[simplified] split: if_split_asm)
  qed
qed

lemma stats_ok_rejected_from:
  assumes "stats_ok n st" "rejected_from (st\<lparr>quote_count := quote_count st + 1\<rparr>) st'"
  shows "stats_ok n st'"
  using assms stats_ok_reject[OF assms(1)] by (auto simp: rejected_from_def rejections_def)

lemma try_build_candidate_stats:
  assumes "stats_ok n st"
    and "try_build_candidate F raindex order q a b (st\<lparr>quote_count := quote_count st + 1\<rparr>)
      = Ok (c, st')"
  shows "stats_ok (case c of None \<Rightarrow> n | Some x \<Rightarrow> Suc n) st'"
  using try_build_candidate_cases[OF assms(2)] stats_ok_rejected_from[OF assms(1)]
    stats_ok_accept[OF assms(1)]
  by (auto split: if_splits)

lemma build_from_quotes_spec:
  assumes "build_from_quotes F raindex order a b qs (cs, st) = Ok (cs', st')"
  shows "cs' = cs @ map (candidate_of raindex order) (filter (eligible F order a b) qs) \<and>
    (stats_ok (length cs) st \<longrightarrow> stats_ok (length cs') st')"
  using assms
proof (induction qs arbitrary: cs st)
  case Nil
  then show ?case by simp
next
  case (Cons q qs)
  then obtain c st1 where
    step: "try_build_candidate F raindex order q a b (st\<lparr>quote_count := quote_count st + 1\<rparr>)
      = Ok (c, st1)" and
    rest: "build_from_quotes F raindex order a b qs
      (case c of None \<Rightarrow> cs | Some candidate \<Rightarrow> cs @ [candidate], st1) = Ok (cs', st')"
    by (auto simp: ok_iff)
  have c: "c = (if eligible F order a b q then Some (candidate_of raindex order q) else None)"
    using try_build_candidate_cases[OF step] by (simp split: if_splits)
  have "stats_ok (length cs) st \<Longrightarrow>
      stats_ok (length (case c of None \<Rightarrow> cs | Some candidate \<Rightarrow> cs @ [candidate])) st1"
    using try_build_candidate_stats[OF _ step] by (auto split: option.splits)
  with Cons.IH[OF rest] c show ?case by (auto split: if_splits)
qed

definition order_candidates ::
  "'f float_ops \<Rightarrow> 'o order_ops \<Rightarrow> address \<Rightarrow> address \<Rightarrow> 'o \<times> 'f order_quote list
   \<Rightarrow> 'f candidate list" where
  "order_candidates F R a b p = (case oo_order_v4 R (fst p) of
       Ok v4 \<Rightarrow> map (candidate_of (oo_raindex R (fst p)) v4) (filter (eligible F v4 a b) (snd p))
     | Err e \<Rightarrow> [])"

lemma build_from_orders_spec:
  assumes "build_from_orders F R a b ps (cs, st) = Ok (cs', st')"
  shows "cs' = cs @ concat (map (order_candidates F R a b) ps) \<and>
    (stats_ok (length cs) st \<longrightarrow> stats_ok (length cs') st')"
  using assms
proof (induction ps arbitrary: cs st)
  case Nil
  then show ?case by simp
next
  case (Cons p ps)
  obtain ord qs where p: "p = (ord, qs)" by (cases p)
  with Cons.prems obtain v4 cs1 st1 where
    v4: "oo_order_v4 R ord = Ok v4" and
    one: "build_from_quotes F (oo_raindex R ord) v4 a b qs (cs, st) = Ok (cs1, st1)" and
    rest: "build_from_orders F R a b ps (cs1, st1) = Ok (cs', st')"
    by (auto simp: ok_iff get_raindex_address_def)
  from build_from_quotes_spec[OF one] Cons.IH[OF rest] v4 p show ?case
    by (auto simp: order_candidates_def)
qed

section \<open>An example order\<close>

text \<open>One order that sells token 2 for token 1, and quotes for it, for the examples below.\<close>

definition example_order :: order_v4 where
  "example_order = \<lparr>order_owner = 7, order_evaluable = \<lparr>ev_interpreter = 0, ev_store = 0,
     ev_bytecode = []\<rparr>, valid_inputs = [\<lparr>io_token = 1, io_vault_id = 0\<rparr>],
     valid_outputs = [\<lparr>io_token = 2, io_vault_id = 0\<rparr>], order_nonce = 0\<rparr>"

definition example_quote :: "int \<Rightarrow> int \<Rightarrow> int order_quote" where
  "example_quote max_output ratio = \<lparr>q_pair = \<lparr>pair_name = [], pair_input_index = 0,
     pair_output_index = 0\<rparr>, q_block_number = 1, q_data = Some \<lparr>qv_max_output = max_output,
     qv_formatted_max_output = [], qv_max_input = max_output * ratio,
     qv_formatted_max_input = [], qv_ratio = ratio, qv_formatted_ratio = [],
     qv_inverse_ratio = 0, qv_formatted_inverse_ratio = [],
     qv_formatted_max_output_as_percent_of_vault = None\<rparr>, q_success = True, q_error = None,
     q_signed_context = []\<rparr>"

definition example_candidate :: "int \<Rightarrow> int \<Rightarrow> int candidate" where
  "example_candidate max_output ratio = candidate_of 9 example_order (example_quote max_output ratio)"

definition example_orders :: "nat order_ops" where
  "example_orders = \<lparr>oo_order_v4 = (\<lambda>_. Ok example_order), oo_raindex = (\<lambda>_. 9)\<rparr>"

lemmas example_defs = example_order_def example_quote_def example_candidate_def
  example_orders_def candidate_of_def int_floats_def

section \<open>Properties\<close>

text \<open>
  Claim C1. The candidates for a pair are exactly the eligible quotes, order by order and quote
  by quote in the order they were fetched, each carrying its quote's amounts, indices and signed
  context.
\<close>
theorem candidates_are_the_eligible_quotes:
  assumes "build_take_order_candidates_for_pair F R get_quotes orders a b block chunk cp injector w
    = (Ok cands, w')"
  shows "\<exists>quotes. get_quotes orders block chunk cp injector w = (Ok quotes, w') \<and>
    cands = concat (map (order_candidates F R a b) (zip orders quotes))"
  using assms
  by (auto simp: build_take_order_candidates_for_pair_def ok_iff
      dest!: build_from_orders_spec)

theorem candidates_are_the_eligible_quotes_witness:
  "concat (map (order_candidates int_floats example_orders 1 2)
     (zip [0, 1 :: nat] [[example_quote 5 2, example_quote 0 1], [example_quote 4 3]])) =
   [example_candidate 5 2, example_candidate 4 3]"
proof -
  let ?qs = "[[example_quote 5 2, example_quote 0 1], [example_quote 4 3]]"
  have run: "build_take_order_candidates_for_pair int_floats example_orders
      (\<lambda>os bn ch cp ij w. (Ok ?qs, Suc w)) [0, 1 :: nat] 1 2 None None 3 () 0 =
    (Ok [example_candidate 5 2, example_candidate 4 3], Suc 0)"
    by (simp add: build_take_order_candidates_for_pair_def io_bind_def io_pure_def example_defs
        try_build_candidate_def get_raindex_address_def indices_in_bounds_def
        matches_direction_def vec_index_def has_capacity_def)
  show ?thesis using candidates_are_the_eligible_quotes[OF run] by simp
qed

text \<open>
  Every quote is counted once, as a candidate or under one rejection reason, and of
  the rejections the first hundred are logged and the rest are counted as omitted.
\<close>
lemma build_stats_account_for_every_quote:
  assumes "build_from_orders F R a b ps ([], default_stats) = Ok (cands, st)"
  shows "quote_count st = rejections st + length cands \<and>
    info_rejection_logs st = min (rejections st) 100 \<and>
    omitted_info_rejection_logs st = rejections st - 100"
  using build_from_orders_spec[OF assms] stats_ok_default
  by (auto simp: stats_ok_def max_info_candidate_decision_logs_def)

lemma build_stats_account_for_every_quote_example:
  "\<exists>cands st. build_from_orders int_floats example_orders 1 2
     [(0, [example_quote 5 2, example_quote 0 1])] ([], default_stats) = Ok (cands, st) \<and>
   quote_count st = 2 \<and> rejections st = 1 \<and> length cands = 1 \<and>
   quote_count st = rejections st + length cands"
proof -
  let ?st = "default_stats\<lparr>quote_count := 2, skipped_zero_or_non_positive_capacity := 1,
    info_rejection_logs := 1\<rparr>"
  have run: "build_from_orders int_floats example_orders 1 2
     [(0, [example_quote 5 2, example_quote 0 1])] ([], default_stats) =
     Ok ([example_candidate 5 2], ?st)"
    by (simp add: example_defs default_stats_def try_build_candidate_def get_raindex_address_def
        indices_in_bounds_def matches_direction_def vec_index_def has_capacity_def
        log_candidate_decision_def max_info_candidate_decision_logs_def)
  from build_stats_account_for_every_quote[OF run] run show ?thesis
    by (auto simp: rejections_def default_stats_def)
qed

text \<open>
  Building a candidate never panics: the direction check reads the order's inputs and
  outputs only at indices the bounds check has accepted.
\<close>
lemma try_build_candidate_no_panic:
  "try_build_candidate F raindex order q a b st \<noteq> Err Panicked"
proof (cases "q_success q \<and> q_data q \<noteq> None")
  case False
  then show ?thesis
    by (cases "q_success q"; cases "q_data q") (simp_all add: try_build_candidate_def)
next
  case True
  then obtain d where d: "q_success q" "q_data q = Some d" by auto
  have "has_capacity F d \<noteq> Err Panicked"
    by (auto simp: has_capacity_def rbind_Err_iff map_err_Err_iff)
  with d show ?thesis
    by (auto simp: try_build_candidate_def Let_def rbind_Err_iff matches_direction_in_bounds)
qed

end
