(* ===== verification/Take_Simulation.thy ===== *)
theory Take_Simulation
  imports Take_Candidates
begin

text \<open>
  \<open>common/src/take_orders/simulation.rs\<close>: the candidates below the price cap are sorted by price
  and taken greedily until the target amount is reached, in output for a buy and in input for a
  spend.

  The sort of the standard library (\<open>slice::sort_by\<close>, stable) is \<open>sort_candidates_by_price\<close>: an
  insertion sort that stops at the first comparison that fails, as the code's comparator makes
  it report that error; \<open>sort_candidates_is_stable_sort\<close> shows that for comparisons that do not
  fail it is the stable sort by price.

  The two loops share the locale \<open>greedy_fill\<close>: its lemmas hold for any loop that takes a leg
  from each candidate in turn, and both loops are instances.
\<close>

section \<open>Data\<close>

record 'f leg =
  leg_candidate :: "'f candidate"
  leg_input :: 'f
  leg_output :: 'f

record 'f simulation =
  sim_legs :: "'f leg list"
  sim_total_input :: 'f
  sim_total_output :: 'f

record 'f totals =
  tot_remaining :: 'f
  tot_input :: 'f
  tot_output :: 'f

section \<open>Operations\<close>

text \<open>
  The standard library's \<open>sort_by\<close> is stable; which pairs it compares is its own choice. Here they are
  those of an insertion sort: the sorted list is the same when the comparisons succeed, but of several
  comparisons that would fail another one may be the first, and a failing pair may be met by one and
  not by the other.
\<close>

fun insert_by_price ::
  "'f float_ops \<Rightarrow> 'f candidate \<Rightarrow> 'f candidate list \<Rightarrow> ('f candidate list, raindex_error) result"
where
  "insert_by_price F c [] = Ok [c]"
| "insert_by_price F c (d # ds) =
     rbind (flt (cmp_float F (cand_ratio c) (cand_ratio d))) (\<lambda>ord.
       if ord = Greater then rbind (insert_by_price F c ds) (\<lambda>ds'. Ok (d # ds'))
       else Ok (c # d # ds))"

fun sort_candidates_by_price ::
  "'f float_ops \<Rightarrow> 'f candidate list \<Rightarrow> ('f candidate list, raindex_error) result" where
  "sort_candidates_by_price F [] = Ok []"
| "sort_candidates_by_price F (c # cs) =
     rbind (sort_candidates_by_price F cs) (insert_by_price F c)"

definition take_leg_for_buy ::
  "'f float_ops \<Rightarrow> 'f candidate \<Rightarrow> 'f \<Rightarrow> ('f leg option, raindex_error) result" where
  "take_leg_for_buy F candidate remaining_output =
     rbind (flt (f_zero F)) (\<lambda>zero.
     let price = cand_ratio candidate; max_output = cand_max_output candidate in
     rbind (flt (f_lte F max_output remaining_output)) (\<lambda>small.
     let output = (if small then max_output else remaining_output) in
     rbind (flt (f_lte F output zero)) (\<lambda>none.
     if none then Ok None
     else rbind (flt (f_mul F output price)) (\<lambda>input.
       Ok (Some \<lparr>leg_candidate = candidate, leg_input = input, leg_output = output\<rparr>)))))"

definition take_leg_for_spend ::
  "'f float_ops \<Rightarrow> 'f candidate \<Rightarrow> 'f \<Rightarrow> ('f leg option, raindex_error) result" where
  "take_leg_for_spend F candidate remaining_input =
     rbind (flt (f_zero F)) (\<lambda>zero.
     let price = cand_ratio candidate; max_output = cand_max_output candidate in
     rbind (flt (f_eq F price zero)) (\<lambda>free.
     if free then
       rbind (flt (f_lte F max_output zero)) (\<lambda>none.
         if none then Ok None
         else Ok (Some \<lparr>leg_candidate = candidate, leg_input = zero, leg_output = max_output\<rparr>))
     else
       rbind (flt (f_mul F max_output price)) (\<lambda>max_input.
       rbind (flt (f_lte F max_input remaining_input)) (\<lambda>small.
       let input = (if small then max_input else remaining_input) in
       rbind (flt (f_lte F input zero)) (\<lambda>none.
       if none then Ok None
       else rbind (flt (f_div F input price)) (\<lambda>output.
         Ok (Some \<lparr>leg_candidate = candidate, leg_input = input, leg_output = output\<rparr>)))))))"

definition apply_leg_for_buy ::
  "'f float_ops \<Rightarrow> 'f leg \<Rightarrow> 'f totals \<Rightarrow> ('f totals, raindex_error) result" where
  "apply_leg_for_buy F leg totals =
     rbind (flt (f_sub F (tot_remaining totals) (leg_output leg))) (\<lambda>remaining.
     rbind (flt (f_add F (tot_input totals) (leg_input leg))) (\<lambda>input.
     rbind (flt (f_add F (tot_output totals) (leg_output leg))) (\<lambda>output.
       Ok \<lparr>tot_remaining = remaining, tot_input = input, tot_output = output\<rparr>)))"

definition apply_leg_for_spend ::
  "'f float_ops \<Rightarrow> 'f leg \<Rightarrow> 'f totals \<Rightarrow> ('f totals, raindex_error) result" where
  "apply_leg_for_spend F leg totals =
     rbind (flt (f_sub F (tot_remaining totals) (leg_input leg))) (\<lambda>remaining.
     rbind (flt (f_add F (tot_input totals) (leg_input leg))) (\<lambda>input.
     rbind (flt (f_add F (tot_output totals) (leg_output leg))) (\<lambda>output.
       Ok \<lparr>tot_remaining = remaining, tot_input = input, tot_output = output\<rparr>)))"

definition filter_candidates_by_price_cap ::
  "'f float_ops \<Rightarrow> 'f candidate list \<Rightarrow> 'f \<Rightarrow> ('f candidate list, raindex_error) result" where
  "filter_candidates_by_price_cap F candidates price_cap =
     rfilter (\<lambda>c. flt (f_lte F (cand_ratio c) price_cap)) candidates"

fun buy_loop ::
  "'f float_ops \<Rightarrow> 'f \<Rightarrow> 'f candidate list \<Rightarrow> 'f totals \<Rightarrow> 'f leg list
   \<Rightarrow> ('f totals \<times> 'f leg list, raindex_error) result" where
  "buy_loop F zero [] totals legs = Ok (totals, legs)"
| "buy_loop F zero (candidate # rest) totals legs =
     rbind (flt (f_lte F (tot_remaining totals) zero)) (\<lambda>done.
       if done then Ok (totals, legs)
       else rbind (take_leg_for_buy F candidate (tot_remaining totals)) (\<lambda>taken.
         case taken of
           None \<Rightarrow> buy_loop F zero rest totals legs
         | Some leg \<Rightarrow> rbind (apply_leg_for_buy F leg totals) (\<lambda>totals'.
             buy_loop F zero rest totals' (legs @ [leg]))))"

definition simulate_buy_over_candidates ::
  "'f float_ops \<Rightarrow> 'f candidate list \<Rightarrow> 'f \<Rightarrow> 'f \<Rightarrow> ('f simulation, raindex_error) result" where
  "simulate_buy_over_candidates F candidates buy_target price_cap =
     rbind (filter_candidates_by_price_cap F candidates price_cap) (\<lambda>filtered.
     rbind (sort_candidates_by_price F filtered) (\<lambda>sorted.
     rbind (flt (f_zero F)) (\<lambda>zero.
     rbind (buy_loop F zero sorted
              \<lparr>tot_remaining = buy_target, tot_input = zero, tot_output = zero\<rparr> [])
       (\<lambda>(totals, legs).
         Ok \<lparr>sim_legs = legs, sim_total_input = tot_input totals,
             sim_total_output = tot_output totals\<rparr>))))"

fun spend_loop ::
  "'f float_ops \<Rightarrow> 'f \<Rightarrow> 'f candidate list \<Rightarrow> 'f totals \<Rightarrow> 'f leg list
   \<Rightarrow> ('f totals \<times> 'f leg list, raindex_error) result" where
  "spend_loop F zero [] totals legs = Ok (totals, legs)"
| "spend_loop F zero (candidate # rest) totals legs =
     rbind (flt (f_lte F (tot_remaining totals) zero)) (\<lambda>done.
       if done then Ok (totals, legs)
       else rbind (take_leg_for_spend F candidate (tot_remaining totals)) (\<lambda>taken.
         case taken of
           None \<Rightarrow> spend_loop F zero rest totals legs
         | Some leg \<Rightarrow> rbind (apply_leg_for_spend F leg totals) (\<lambda>totals'.
             spend_loop F zero rest totals' (legs @ [leg]))))"

definition simulate_spend_over_candidates ::
  "'f float_ops \<Rightarrow> 'f candidate list \<Rightarrow> 'f \<Rightarrow> 'f \<Rightarrow> ('f simulation, raindex_error) result" where
  "simulate_spend_over_candidates F candidates spend_budget price_cap =
     rbind (filter_candidates_by_price_cap F candidates price_cap) (\<lambda>filtered.
     rbind (sort_candidates_by_price F filtered) (\<lambda>sorted.
     rbind (flt (f_zero F)) (\<lambda>zero.
     rbind (spend_loop F zero sorted
              \<lparr>tot_remaining = spend_budget, tot_input = zero, tot_output = zero\<rparr> [])
       (\<lambda>(totals, legs).
         Ok \<lparr>sim_legs = legs, sim_total_input = tot_input totals,
             sim_total_output = tot_output totals\<rparr>))))"

section \<open>Sorting\<close>

lemma insert_by_price_order:
  assumes "float_order F v"
  shows "insert_by_price F c ds = Ok (insort_key (\<lambda>c. v (cand_ratio c)) c ds)"
  by (induction ds) (auto simp: cmp_float_order[OF assms])

lemma sort_candidates_is_stable_sort:
  assumes "float_order F v"
  shows "sort_candidates_by_price F cs = Ok (sort_key (\<lambda>c. v (cand_ratio c)) cs)"
  by (induction cs) (auto simp: insert_by_price_order[OF assms] sort_key_def)

lemma insert_by_price_mset:
  "insert_by_price F c ds = Ok ds' \<Longrightarrow> set ds' = insert c (set ds)"
  by (induction ds arbitrary: ds') (auto simp: ok_iff split: if_splits)

lemma sort_candidates_set:
  "sort_candidates_by_price F cs = Ok cs' \<Longrightarrow> set cs' = set cs"
  by (induction cs arbitrary: cs') (auto simp: ok_iff dest!: insert_by_price_mset)

section \<open>Greedy filling\<close>

text \<open>
  The contract of the two loops: \<open>loop\<close> walks the candidates, stops when nothing remains, takes
  a leg from the candidate at hand and applies it to the totals. The lemmas inside hold for
  every loop of that shape.
\<close>

locale greedy_fill =
  fixes exhausted :: "'t \<Rightarrow> (bool, 'e) result"
    and take_leg :: "'c \<Rightarrow> 't \<Rightarrow> ('l option, 'e) result"
    and apply_leg :: "'l \<Rightarrow> 't \<Rightarrow> ('t, 'e) result"
    and source :: "'l \<Rightarrow> 'c"
    and loop :: "'c list \<Rightarrow> 't \<Rightarrow> 'l list \<Rightarrow> ('t \<times> 'l list, 'e) result"
  assumes loop_Nil: "loop [] t legs = Ok (t, legs)"
    and loop_Cons: "loop (c # cs) t legs = rbind (exhausted t) (\<lambda>done.
      if done then Ok (t, legs)
      else rbind (take_leg c t) (\<lambda>taken. case taken of
          None \<Rightarrow> loop cs t legs
        | Some l \<Rightarrow> rbind (apply_leg l t) (\<lambda>t'. loop cs t' (legs @ [l]))))"
    and take_leg_source: "take_leg c t = Ok (Some l) \<Longrightarrow> source l = c"
begin

text \<open>The three ways a step ends: the loop stops, passes over the candidate, or takes a leg.\<close>

lemma loop_step:
  assumes "loop (c # cs) t legs = Ok r"
  obtains (stop) "exhausted t = Ok True" "r = (t, legs)"
    | (skip) "exhausted t = Ok False" "take_leg c t = Ok None" "loop cs t legs = Ok r"
    | (take) l t1 where "exhausted t = Ok False" "take_leg c t = Ok (Some l)" "source l = c"
        "apply_leg l t = Ok t1" "loop cs t1 (legs @ [l]) = Ok r"
proof (cases "exhausted t = Ok True")
  case True
  with assms stop show thesis by (simp add: loop_Cons)
next
  case False
  with assms obtain taken where ex: "exhausted t = Ok False" and tk: "take_leg c t = Ok taken"
    and rest: "(case taken of None \<Rightarrow> loop cs t legs
      | Some l \<Rightarrow> rbind (apply_leg l t) (\<lambda>t'. loop cs t' (legs @ [l]))) = Ok r"
    by (auto simp: loop_Cons ok_iff split: if_splits)
  show thesis
  proof (cases taken)
    case None
    with skip ex tk rest show thesis by simp
  next
    case (Some l)
    with rest obtain t1 where "apply_leg l t = Ok t1" "loop cs t1 (legs @ [l]) = Ok r"
      by (auto simp: ok_iff)
    with take ex tk Some take_leg_source show thesis by simp
  qed
qed

text \<open>One leg per candidate at most, in the order of the candidates.\<close>

lemma loop_subseq:
  "loop cs t legs = Ok (t', legs') \<Longrightarrow>
   \<exists>new. legs' = legs @ new \<and> subseq (map source new) cs"
proof (induction cs arbitrary: t legs)
  case Nil
  then show ?case by (simp add: loop_Nil)
next
  case (Cons c cs)
  from Cons.prems show ?case
  proof (cases rule: loop_step)
    case stop
    then show ?thesis by simp
  next
    case skip
    from Cons.IH[OF skip(3)] show ?thesis by (blast intro: list_emb_Cons)
  next
    case (take l t1)
    from Cons.IH[OF take(5)] obtain new where "legs' = (legs @ [l]) @ new" "subseq (map source new) cs"
      by blast
    then have "legs' = legs @ (l # new)" "subseq (map source (l # new)) (c # cs)"
      using take(3) by simp_all
    then show ?thesis by blast
  qed
qed

text \<open>A relation between totals and legs that every step keeps holds at the end.\<close>

lemma loop_invariant:
  assumes "loop cs t legs = Ok (t', legs')" and "I t legs"
    and "\<And>c t legs l t'. I t legs \<Longrightarrow> c \<in> set cs \<Longrightarrow> exhausted t = Ok False \<Longrightarrow>
      take_leg c t = Ok (Some l) \<Longrightarrow> source l = c \<Longrightarrow> apply_leg l t = Ok t' \<Longrightarrow> I t' (legs @ [l])"
  shows "I t' legs'"
  using assms
proof (induction cs arbitrary: t legs)
  case Nil
  then show ?case by (simp add: loop_Nil)
next
  case (Cons c cs)
  have keeps: "\<And>d t legs l t'. I t legs \<Longrightarrow> d \<in> set cs \<Longrightarrow> exhausted t = Ok False \<Longrightarrow>
      take_leg d t = Ok (Some l) \<Longrightarrow> source l = d \<Longrightarrow> apply_leg l t = Ok t' \<Longrightarrow> I t' (legs @ [l])"
    by (rule Cons.prems(3)) simp_all
  from Cons.prems(1) show ?case
  proof (cases rule: loop_step)
    case stop
    with Cons.prems(2) show ?thesis by simp
  next
    case skip
    show ?thesis by (rule Cons.IH[OF skip(3) Cons.prems(2) keeps])
  next
    case (take l t1)
    from Cons.prems(3)[OF Cons.prems(2) _ take(1-4)] have "I t1 (legs @ [l])" by simp
    then show ?thesis by (rule Cons.IH[OF take(5) _ keeps])
  qed
qed

end

lemma take_leg_for_buy_Some:
  assumes "take_leg_for_buy F c r = Ok (Some l)"
  shows "leg_candidate l = c"
    "\<exists>zero. f_zero F = Ok zero \<and> f_lte F (leg_output l) zero = Ok False"
    "leg_output l = cand_max_output c \<and> f_lte F (cand_max_output c) r = Ok True \<or>
     leg_output l = r \<and> f_lte F (cand_max_output c) r = Ok False"
    "f_mul F (leg_output l) (cand_ratio c) = Ok (leg_input l)"
  using assms by (auto simp: take_leg_for_buy_def Let_def ok_iff split: if_splits)

lemma take_leg_for_spend_Some:
  assumes "take_leg_for_spend F c r = Ok (Some l)"
  shows "leg_candidate l = c"
    "\<exists>zero. f_zero F = Ok zero \<and>
      (f_eq F (cand_ratio c) zero = Ok True \<and> leg_input l = zero \<and>
         leg_output l = cand_max_output c \<and> f_lte F (leg_output l) zero = Ok False \<or>
       f_eq F (cand_ratio c) zero = Ok False \<and> f_lte F (leg_input l) zero = Ok False \<and>
       f_div F (leg_input l) (cand_ratio c) = Ok (leg_output l) \<and>
       (\<exists>mx. f_mul F (cand_max_output c) (cand_ratio c) = Ok mx \<and>
         (leg_input l = mx \<and> f_lte F mx r = Ok True \<or>
          leg_input l = r \<and> f_lte F mx r = Ok False)))"
  using assms by (auto simp: take_leg_for_spend_def Let_def ok_iff split: if_splits)

interpretation buy: greedy_fill "\<lambda>t. flt (f_lte F (tot_remaining t) zero)"
  "\<lambda>c t. take_leg_for_buy F c (tot_remaining t)" "apply_leg_for_buy F" leg_candidate
  "buy_loop F zero" for F zero
  by unfold_locales (auto dest: take_leg_for_buy_Some)

interpretation spend: greedy_fill "\<lambda>t. flt (f_lte F (tot_remaining t) zero)"
  "\<lambda>c t. take_leg_for_spend F c (tot_remaining t)" "apply_leg_for_spend F" leg_candidate
  "spend_loop F zero" for F zero
  by unfold_locales (auto dest: take_leg_for_spend_Some)

section \<open>From the loops to the simulations\<close>

definition simulate_over_candidates ::
  "bool \<Rightarrow> 'f float_ops \<Rightarrow> 'f candidate list \<Rightarrow> 'f \<Rightarrow> 'f \<Rightarrow> ('f simulation, raindex_error) result"
where
  "simulate_over_candidates is_buy F candidates target price_cap =
     (if is_buy then simulate_buy_over_candidates F candidates target price_cap
      else simulate_spend_over_candidates F candidates target price_cap)"

abbreviation start_totals :: "'f \<Rightarrow> 'f \<Rightarrow> 'f totals" where
  "start_totals zero target \<equiv> \<lparr>tot_remaining = target, tot_input = zero, tot_output = zero\<rparr>"

definition offered :: "('f \<Rightarrow> rat) \<Rightarrow> 'f \<Rightarrow> 'f candidate list \<Rightarrow> 'f candidate list" where
  \<comment> \<open>the candidates at or below the cap, cheapest first\<close>
  "offered v cap cs =
     sort_key (\<lambda>c. v (cand_ratio c)) (filter (\<lambda>c. v (cand_ratio c) \<le> v cap) cs)"

lemma filter_candidates_order:
  assumes "float_order F v"
  shows "filter_candidates_by_price_cap F cs cap =
    Ok (filter (\<lambda>c. v (cand_ratio c) \<le> v cap) cs)"
  unfolding filter_candidates_by_price_cap_def
  by (rule rfilter_total) (simp add: float_orderD[OF assms])

lemma simulate_Ok_loop:
  assumes "float_order F v" "simulate_over_candidates is_buy F cs target cap = Ok sim"
  obtains zero t where "f_zero F = Ok zero" "v zero = 0"
    "(if is_buy then buy_loop F zero (offered v cap cs) (start_totals zero target) []
      else spend_loop F zero (offered v cap cs) (start_totals zero target) [])
     = Ok (t, sim_legs sim)"
    "sim_total_input sim = tot_input t" "sim_total_output sim = tot_output t"
proof -
  from float_orderD(1)[OF assms(1)] obtain zero where z: "f_zero F = Ok zero" "v zero = 0" by blast
  have "\<exists>t. (if is_buy then buy_loop F zero (offered v cap cs) (start_totals zero target) []
      else spend_loop F zero (offered v cap cs) (start_totals zero target) [])
     = Ok (t, sim_legs sim) \<and>
    sim_total_input sim = tot_input t \<and> sim_total_output sim = tot_output t"
    using assms(2) z(1)
    by (auto simp: simulate_over_candidates_def simulate_buy_over_candidates_def
        simulate_spend_over_candidates_def filter_candidates_order[OF assms(1)]
        sort_candidates_is_stable_sort[OF assms(1)] offered_def ok_iff split: if_splits)
  with that z show thesis by blast
qed

lemma offered_sorted: "sorted (map (\<lambda>c. v (cand_ratio c)) (offered v cap cs))"
  by (simp add: offered_def)

lemma set_offered: "set (offered v cap cs) = {c \<in> set cs. v (cand_ratio c) \<le> v cap}"
  by (auto simp: offered_def)

section \<open>Properties\<close>

text \<open>
  Claim C2. In both modes the legs come from distinct positions of the candidates at or below
  the price cap, taken in price order (ties in the order of the candidates): a stable sort,
  nothing above the cap, nothing twice.
\<close>
theorem legs_follow_price_order:
  assumes "float_order F v" "simulate_over_candidates is_buy F cs target cap = Ok sim"
  shows "subseq (map leg_candidate (sim_legs sim)) (offered v cap cs) \<and>
    sorted (map (\<lambda>l. v (cand_ratio (leg_candidate l))) (sim_legs sim)) \<and>
    (\<forall>l\<in>set (sim_legs sim). leg_candidate l \<in> set cs \<and> v (cand_ratio (leg_candidate l)) \<le> v cap)"
proof -
  have sub: "subseq (map leg_candidate (sim_legs sim)) (offered v cap cs)"
    using assms
    by (rule simulate_Ok_loop)
      (auto dest!: buy.loop_subseq spend.loop_subseq split: if_splits)
  have "subseq (map (\<lambda>l. v (cand_ratio (leg_candidate l))) (sim_legs sim))
      (map (\<lambda>c. v (cand_ratio c)) (offered v cap cs))"
    using subseq_map[OF sub, of "\<lambda>c. v (cand_ratio c)"] by (simp add: comp_def)
  then have "sorted (map (\<lambda>l. v (cand_ratio (leg_candidate l))) (sim_legs sim))"
    by (rule subseq_sorted) (rule offered_sorted)
  moreover have "\<forall>l\<in>set (sim_legs sim). leg_candidate l \<in> set (offered v cap cs)"
    using subseq_set[OF sub] by simp
  ultimately show ?thesis using sub by (auto simp: set_offered)
qed

text \<open>A run of each mode, for the examples: three offers, one above the cap of 5.\<close>

abbreviation example_book :: "int candidate list" where
  "example_book \<equiv> [example_candidate 10 3, example_candidate 4 2, example_candidate 50 9]"

abbreviation example_leg :: "int \<Rightarrow> int \<Rightarrow> int \<Rightarrow> int \<Rightarrow> int leg" where
  "example_leg m r i out \<equiv>
     \<lparr>leg_candidate = example_candidate m r, leg_input = i, leg_output = out\<rparr>"

lemmas simulation_eval = simulate_over_candidates_def simulate_buy_over_candidates_def
  simulate_spend_over_candidates_def filter_candidates_by_price_cap_def take_leg_for_buy_def
  take_leg_for_spend_def apply_leg_for_buy_def apply_leg_for_spend_def cmp_float_def Let_def

lemma example_buy:
  "simulate_over_candidates True int_floats example_book 6 5 =
   Ok \<lparr>sim_legs = [example_leg 4 2 8 4, example_leg 10 3 6 2],
       sim_total_input = 14, sim_total_output = 6\<rparr>"
  by (simp add: simulation_eval example_defs)

lemma example_spend:
  "simulate_over_candidates False int_floats example_book 14 5 =
   Ok \<lparr>sim_legs = [example_leg 4 2 8 4, example_leg 10 3 6 2],
       sim_total_input = 14, sim_total_output = 6\<rparr>"
  by (simp add: simulation_eval example_defs)

theorem legs_follow_price_order_witness:
  "subseq [example_candidate 4 2, example_candidate 10 3] (offered rat_of_int 5 example_book)"
  using legs_follow_price_order[OF int_floats_order example_buy] by simp

text \<open>
  What each leg takes: in a buy a positive amount of output, at most what the candidate offers;
  in a spend a positive input, or, for a free candidate, its whole output.
\<close>

lemma buy_leg_amounts:
  assumes "float_order F v" "take_leg_for_buy F c r = Ok (Some l)"
  shows "0 < v (leg_output l) \<and> v (leg_output l) = min (v (cand_max_output c)) (v r)"
  using take_leg_for_buy_Some[OF assms(2)] float_orderD[OF assms(1)] by (auto simp: min_def)

lemma spend_leg_input:
  assumes "float_order F v" "take_leg_for_spend F c r = Ok (Some l)" "0 < v r"
  shows "0 \<le> v (leg_input l) \<and> v (leg_input l) \<le> v r"
  using take_leg_for_spend_Some[OF assms(2)] float_orderD[OF assms(1)] assms(3) by auto

text \<open>
  The amounts are added up in floats, which are exact as long as the running sums fit. For the
  amounts that count towards the target of a buy this follows from the amounts themselves, when they
  have few enough decimals (\<open>buy_fills_target_or_liquidity\<close>); inputs are products.
\<close>

definition sums_fit :: "('f \<Rightarrow> rat) \<Rightarrow> bool \<Rightarrow> 'f \<Rightarrow> 'f leg list \<Rightarrow> bool" where
  "sums_fit v is_buy target legs \<longleftrightarrow> (\<forall>n\<le>length legs.
     float_fits (\<Sum>l\<leftarrow>take n legs. v (leg_input l)) \<and> float_fits (\<Sum>l\<leftarrow>take n legs. v (leg_output l)) \<and>
     float_fits (v target - (\<Sum>l\<leftarrow>take n legs. v (if is_buy then leg_output l else leg_input l))))"

lemma sums_fit_snoc:
  assumes "sums_fit v is_buy target (legs @ [l])"
  shows "sums_fit v is_buy target legs"
    "float_fits ((\<Sum>l\<leftarrow>legs. v (leg_input l)) + v (leg_input l))"
    "float_fits ((\<Sum>l\<leftarrow>legs. v (leg_output l)) + v (leg_output l))"
    "float_fits (v target - (\<Sum>l\<leftarrow>legs. v (if is_buy then leg_output l else leg_input l)) -
       v (if is_buy then leg_output l else leg_input l))"
proof -
  show "sums_fit v is_buy target legs"
    unfolding sums_fit_def
  proof (intro allI impI)
    fix n assume "n \<le> length legs"
    with assms[unfolded sums_fit_def, rule_format, of n]
    show "float_fits (\<Sum>l\<leftarrow>take n legs. v (leg_input l)) \<and> float_fits (\<Sum>l\<leftarrow>take n legs. v (leg_output l)) \<and>
     float_fits (v target - (\<Sum>l\<leftarrow>take n legs. v (if is_buy then leg_output l else leg_input l)))" by simp
  qed
  from assms[unfolded sums_fit_def, rule_format, of "Suc (length legs)"]
  show "float_fits ((\<Sum>l\<leftarrow>legs. v (leg_input l)) + v (leg_input l))"
    "float_fits ((\<Sum>l\<leftarrow>legs. v (leg_output l)) + v (leg_output l))"
    "float_fits (v target - (\<Sum>l\<leftarrow>legs. v (if is_buy then leg_output l else leg_input l)) -
       v (if is_buy then leg_output l else leg_input l))"
    by (simp_all add: algebra_simps)
qed

definition totals_inv ::
  "('f \<Rightarrow> rat) \<Rightarrow> bool \<Rightarrow> 'f \<Rightarrow> 'f totals \<Rightarrow> 'f leg list \<Rightarrow> bool" where
  "totals_inv v is_buy target t legs \<longleftrightarrow>
    v (tot_input t) = (\<Sum>l\<leftarrow>legs. v (leg_input l)) \<and>
    v (tot_output t) = (\<Sum>l\<leftarrow>legs. v (leg_output l)) \<and> 0 \<le> v (tot_remaining t) \<and>
    v (tot_remaining t) = v target - v (if is_buy then tot_output t else tot_input t)"

definition totals_if_fit ::
  "('f \<Rightarrow> rat) \<Rightarrow> bool \<Rightarrow> 'f \<Rightarrow> 'f totals \<Rightarrow> 'f leg list \<Rightarrow> bool" where
  "totals_if_fit v is_buy target t legs \<longleftrightarrow> (sums_fit v is_buy target legs \<longrightarrow> totals_inv v is_buy target t legs)"

lemma totals_inv_buy:
  assumes "float_order F v" "float_exact F v"
    and "buy_loop F zero cs t legs = Ok (t', legs')" "totals_if_fit v True target t legs"
  shows "totals_if_fit v True target t' legs'"
  using assms(3,4)
proof (rule buy.loop_invariant)
  fix c t legs l t'
  assume inv: "totals_if_fit v True target t legs"
    and take: "take_leg_for_buy F c (tot_remaining t) = Ok (Some l)"
    and app: "apply_leg_for_buy F l t = Ok t'"
  show "totals_if_fit v True target t' (legs @ [l])"
    unfolding totals_if_fit_def
  proof
    assume "sums_fit v True target (legs @ [l])"
    note fit = sums_fit_snoc[OF this, unfolded if_True]
    with inv have "totals_inv v True target t legs" by (simp add: totals_if_fit_def)
    with fit(2-4) buy_leg_amounts[OF assms(1) take] app show "totals_inv v True target t' (legs @ [l])"
      by (auto simp: totals_inv_def apply_leg_for_buy_def ok_iff dest!: float_exactD[OF assms(2)])
  qed
qed

lemma totals_inv_spend:
  assumes "float_order F v" "float_exact F v" "f_zero F = Ok zero" "v zero = 0"
    and "spend_loop F zero cs t legs = Ok (t', legs')" "totals_if_fit v False target t legs"
  shows "totals_if_fit v False target t' legs'"
  using assms(5,6)
proof (rule spend.loop_invariant)
  fix c t legs l t'
  assume inv: "totals_if_fit v False target t legs"
    and take: "take_leg_for_spend F c (tot_remaining t) = Ok (Some l)"
    and app: "apply_leg_for_spend F l t = Ok t'"
    and "flt (f_lte F (tot_remaining t) zero) = Ok False"
  then have "0 < v (tot_remaining t)"
    using assms(4) by (simp add: float_orderD[OF assms(1)] not_le)
  note input = spend_leg_input[OF assms(1) take this]
  show "totals_if_fit v False target t' (legs @ [l])"
    unfolding totals_if_fit_def
  proof
    assume "sums_fit v False target (legs @ [l])"
    note fit = sums_fit_snoc[OF this, unfolded if_False]
    with inv have "totals_inv v False target t legs" by (simp add: totals_if_fit_def)
    with fit(2-4) input app show "totals_inv v False target t' (legs @ [l])"
      by (auto simp: totals_inv_def apply_leg_for_spend_def ok_iff dest!: float_exactD[OF assms(2)])
  qed
qed

lemma simulate_totals_inv:
  assumes "float_order F v" "float_exact F v" "0 \<le> v target"
    and "simulate_over_candidates is_buy F cs target cap = Ok sim"
    and "sums_fit v is_buy target (sim_legs sim)"
  shows "\<exists>t. totals_inv v is_buy target t (sim_legs sim) \<and>
    sim_total_input sim = tot_input t \<and> sim_total_output sim = tot_output t"
  using assms(1,4)
proof (rule simulate_Ok_loop)
  fix zero t
  assume z: "f_zero F = Ok zero" "v zero = 0"
    and run: "(if is_buy then buy_loop F zero (offered v cap cs) (start_totals zero target) []
      else spend_loop F zero (offered v cap cs) (start_totals zero target) []) = Ok (t, sim_legs sim)"
    and tot: "sim_total_input sim = tot_input t" "sim_total_output sim = tot_output t"
  have "totals_if_fit v is_buy target (start_totals zero target) []"
    using z assms(3) by (simp add: totals_if_fit_def totals_inv_def)
  then have "totals_if_fit v is_buy target t (sim_legs sim)"
    using run totals_inv_buy[OF assms(1,2)] totals_inv_spend[OF assms(1,2) z]
    by (cases is_buy) auto
  with tot assms(5) show ?thesis by (auto simp: totals_if_fit_def)
qed

lemma simulation_within_target:
  assumes "float_order F v" "float_exact F v" "0 \<le> v target"
    and "simulate_over_candidates is_buy F cs target cap = Ok sim"
    and "sums_fit v is_buy target (sim_legs sim)"
  shows "v (if is_buy then sim_total_output sim else sim_total_input sim) \<le> v target"
  using simulate_totals_inv[OF assms] by (auto simp: totals_inv_def)

text \<open>
  Claim C3. The totals of a simulation are the sums over its legs, and a buy never takes more
  output, a spend never more input, than the target: as long as the running sums of the legs and what
  they leave of the target fit the coefficient of a float, which is where float sums are exact.
\<close>
theorem totals_sum_legs_within_target:
  assumes "float_order F v" "float_exact F v" "0 \<le> v target"
    and "simulate_over_candidates is_buy F cs target cap = Ok sim"
    and "sums_fit v is_buy target (sim_legs sim)"
  shows "v (sim_total_input sim) = (\<Sum>l\<leftarrow>sim_legs sim. v (leg_input l)) \<and>
    v (sim_total_output sim) = (\<Sum>l\<leftarrow>sim_legs sim. v (leg_output l)) \<and>
    v (if is_buy then sim_total_output sim else sim_total_input sim) \<le> v target"
  using simulate_totals_inv[OF assms] by (auto simp: totals_inv_def)

lemma small_numbers_fit: "\<bar>n\<bar> \<le> 100 \<Longrightarrow> float_fits (rat_of_int n)"
  unfolding float_fits_def by (intro exI[of _ n] exI[of _ 0]) auto

lemma example_sums_fit:
  "sums_fit rat_of_int False 14 [example_leg 4 2 8 4, example_leg 10 3 6 2]"
  "sums_fit rat_of_int True 6 [example_leg 4 2 8 4, example_leg 10 3 6 2]"
proof -
  have fit: "float_fits 0" "float_fits 8" "float_fits 4" "float_fits 14" "float_fits 6" "float_fits 2"
    using small_numbers_fit[of 0] small_numbers_fit[of 8] small_numbers_fit[of 4] small_numbers_fit[of 14]
      small_numbers_fit[of 6] small_numbers_fit[of 2] by simp_all
  then show "sums_fit rat_of_int False 14 [example_leg 4 2 8 4, example_leg 10 3 6 2]"
    "sums_fit rat_of_int True 6 [example_leg 4 2 8 4, example_leg 10 3 6 2]"
    unfolding sums_fit_def by (auto simp: le_Suc_eq)
qed

theorem totals_sum_legs_within_target_witness:
  "rat_of_int 14 = 8 + 6 \<and> rat_of_int 6 = 4 + 2 \<and> rat_of_int 14 \<le> rat_of_int 14"
  using totals_sum_legs_within_target[OF int_floats_order int_floats_exact _ example_spend] example_sums_fit
  by simp

text \<open>
  How far a buy gets, by induction over the loop: the output taken is what remained or all that
  the candidates offered, whichever is less.
\<close>

lemma buy_loop_fill:
  assumes ord: "float_order F v" and ex: "float_exact F v" and z: "f_zero F = Ok zero" "v zero = 0"
    and target: "\<bar>target\<bar> * 10 ^ k < 2 ^ 223" "k \<le> 2 ^ 31"
  shows "buy_loop F zero cs t legs = Ok (t', legs') \<Longrightarrow> 0 \<le> v (tot_remaining t) \<Longrightarrow> 0 \<le> v (tot_output t) \<Longrightarrow>
    v (tot_output t) + v (tot_remaining t) = target \<Longrightarrow>
    with_decimals k (v (tot_remaining t)) \<Longrightarrow> with_decimals k (v (tot_output t)) \<Longrightarrow>
    \<forall>c\<in>set cs. with_decimals k (v (cand_max_output c)) \<Longrightarrow>
    v (tot_output t') = v (tot_output t) +
      min (v (tot_remaining t)) (\<Sum>c\<leftarrow>cs. max 0 (v (cand_max_output c)))"
proof (induction cs arbitrary: t legs)
  case Nil
  then show ?case by simp
next
  case (Cons c cs)
  have rest: "0 \<le> (\<Sum>c\<leftarrow>cs. max 0 (v (cand_max_output c)))"
    by (rule sum_list_nonneg) auto
  from Cons.prems(1) show ?case
  proof (cases rule: buy.loop_step)
    case stop
    with Cons.prems(2) z rest show ?thesis by (simp add: float_orderD[OF ord])
  next
    case skip
    have "v (cand_max_output c) \<le> 0"
      using skip(1,2) z by (auto simp: take_leg_for_buy_def Let_def float_orderD[OF ord] ok_iff
          split: if_splits)
    with Cons.IH[OF skip(3) Cons.prems(2-6)] Cons.prems(7) show ?thesis by simp
  next
    case (take l t1)
    note amt = buy_leg_amounts[OF ord take(2)]
    have small: "float_fits q" if "with_decimals k q" "0 \<le> q" "q \<le> target" for q
    proof (rule with_decimals_fit[OF that(1) _ target(2)])
      have "\<bar>q\<bar> * 10 ^ k \<le> \<bar>target\<bar> * 10 ^ k" using that by (intro mult_right_mono) auto
      then show "\<bar>q\<bar> * 10 ^ k < 2 ^ 223" by (rule le_less_trans) (rule target(1))
    qed
    have leg: "with_decimals k (v (leg_output l))" using amt Cons.prems(5,7) by (simp add: min_def)
    have "with_decimals k (v (tot_remaining t) - v (leg_output l))" "with_decimals k (v (tot_output t) + v (leg_output l))"
      using Cons.prems(5,6) leg by (simp_all add: with_decimals_add with_decimals_diff)
    moreover from this have "float_fits (v (tot_remaining t) - v (leg_output l))"
      "float_fits (v (tot_output t) + v (leg_output l))"
      using amt Cons.prems(2-4) by (auto intro!: small)
    then have t1: "v (tot_remaining t1) = v (tot_remaining t) - v (leg_output l)"
      "v (tot_output t1) = v (tot_output t) + v (leg_output l)"
      using take(4) by (auto simp: apply_leg_for_buy_def ok_iff dest!: float_exactD[OF ex])
    ultimately show ?thesis
      using amt Cons.IH[OF take(5)] Cons.prems(2-4,7) rest by (auto simp: min_def max_def t1)
  qed
qed

text \<open>
  Claim C4. A buy simulation is exactly as large as it can be: its total output is the target,
  or everything that the candidates at or below the price cap offer when that is less. The target and
  the offers are amounts with at most \<open>k\<close> decimals, and the target is small enough that such amounts up
  to it fit the coefficient of a float (below \<open>2 ^ 223\<close> units of the last decimal).
\<close>
theorem buy_fills_target_or_liquidity:
  assumes "float_order F v" "float_exact F v" "0 \<le> v target"
    and "with_decimals k (v target)" "\<forall>c\<in>set cs. with_decimals k (v (cand_max_output c))"
    and "v target * 10 ^ k < 2 ^ 223" "k \<le> 2 ^ 31"
    and "simulate_buy_over_candidates F cs target cap = Ok sim"
  shows "v (sim_total_output sim) =
    min (v target) (\<Sum>c\<leftarrow>filter (\<lambda>c. v (cand_ratio c) \<le> v cap) cs. max 0 (v (cand_max_output c)))"
proof -
  have "simulate_over_candidates True F cs target cap = Ok sim"
    using assms(8) by (simp add: simulate_over_candidates_def)
  from simulate_Ok_loop[OF assms(1) this] obtain zero t where z: "f_zero F = Ok zero" "v zero = 0"
    and run: "buy_loop F zero (offered v cap cs)
       (start_totals zero target) [] = Ok (t, sim_legs sim)"
    and tot: "sim_total_output sim = tot_output t"
    by (simp only: if_True) blast
  have small: "\<bar>v target\<bar> * 10 ^ k < 2 ^ 223" using assms(3,6) by simp
  have "\<forall>c\<in>set (offered v cap cs). with_decimals k (v (cand_max_output c))"
    using assms(5) by (simp add: set_offered)
  with buy_loop_fill[OF assms(1,2) z small assms(7) run] assms(3,4) z tot show ?thesis
    by (simp add: offered_def sum_list_sort_key with_decimals_def)
qed

theorem buy_fills_target_or_liquidity_witness:
  "\<exists>sim. simulate_buy_over_candidates int_floats example_book 6 5 = Ok sim \<and>
    rat_of_int (sim_total_output sim) = min 6 (10 + 4)"
proof -
  have run: "simulate_buy_over_candidates int_floats example_book 6 5 =
   Ok \<lparr>sim_legs = [example_leg 4 2 8 4, example_leg 10 3 6 2],
       sim_total_input = 14, sim_total_output = 6\<rparr>"
    using example_buy by (simp add: simulate_over_candidates_def)
  show ?thesis
    using buy_fills_target_or_liquidity[OF int_floats_order int_floats_exact _ _ _ _ _ run, of 0] run
    by (simp add: example_defs with_decimals_def)
qed

end
