(* ===== verification/Take_Config.thy ===== *)
theory Take_Config
  imports Take_Simulation
begin

text \<open>
  \<open>common/src/take_orders/config.rs\<close> and the dispatch of \<open>simulation.rs::simulate_candidates\<close>: the
  taker's mode (buy or spend, exact or up to an amount) and the on-chain configuration built
  from a simulation.
\<close>

section \<open>Modes\<close>

datatype take_orders_mode = Buy_Exact | Buy_Up_To | Spend_Exact | Spend_Up_To

record 'f parsed_mode =
  pm_mode :: take_orders_mode
  pm_amount :: 'f

definition parse_mode ::
  "'f float_ops \<Rightarrow> take_orders_mode \<Rightarrow> string \<Rightarrow> ('f parsed_mode, raindex_error) result" where
  "parse_mode F mode amount_str =
     rbind (flt (f_zero F)) (\<lambda>zero.
     rbind (flt (f_parse F amount_str)) (\<lambda>amount.
     rbind (flt (f_lte F amount zero)) (\<lambda>non_positive.
     if non_positive then Err Non_Positive_Amount
     else Ok \<lparr>pm_mode = mode, pm_amount = amount\<rparr>)))"

definition is_buy_mode :: "'f parsed_mode \<Rightarrow> bool" where
  "is_buy_mode m \<longleftrightarrow> pm_mode m = Buy_Exact \<or> pm_mode m = Buy_Up_To"

definition is_exact_mode :: "'f parsed_mode \<Rightarrow> bool" where
  "is_exact_mode m \<longleftrightarrow> pm_mode m = Buy_Exact \<or> pm_mode m = Spend_Exact"

definition target_amount :: "'f parsed_mode \<Rightarrow> 'f" where
  "target_amount m = pm_amount m"

definition simulate_candidates ::
  "'f float_ops \<Rightarrow> 'f candidate list \<Rightarrow> 'f parsed_mode \<Rightarrow> 'f \<Rightarrow> ('f simulation, raindex_error) result"
where
  "simulate_candidates F candidates mode price_cap =
     (if is_buy_mode mode
      then simulate_buy_over_candidates F candidates (target_amount mode) price_cap
      else simulate_spend_over_candidates F candidates (target_amount mode) price_cap)"

section \<open>The configuration\<close>

record 'f built_config =
  bc_config :: take_orders_config_v6
  bc_sim :: "'f simulation"

definition take_order_config_of :: "'f leg \<Rightarrow> take_order_config_v5" where
  "take_order_config_of l = \<lparr>toc_order = cand_order (leg_candidate l),
     toc_input_io_index = ucast (cand_input_io_index (leg_candidate l)),
     toc_output_io_index = ucast (cand_output_io_index (leg_candidate l)),
     toc_signed_context = cand_signed_context (leg_candidate l)\<rparr>"

definition build_take_orders_config_from_simulation ::
  "'f float_ops \<Rightarrow> 'f simulation \<Rightarrow> 'f parsed_mode \<Rightarrow> 'f
   \<Rightarrow> ('f built_config option, raindex_error) result" where
  "build_take_orders_config_from_simulation F sim mode price_cap =
     (if sim_legs sim = [] then Ok None
      else
        let target = target_amount mode in
        rbind (if is_exact_mode mode then
                 let achieved = (if is_buy_mode mode then sim_total_output sim
                                 else sim_total_input sim) in
                 rbind (flt (f_lt F achieved target)) (\<lambda>short.
                   if short then
                     rbind (flt (f_format F target)) (\<lambda>requested.
                     rbind (flt (f_format F achieved)) (\<lambda>available.
                       Err (Insufficient_Liquidity requested available)))
                   else Ok ())
               else Ok ()) (\<lambda>_.
        rbind (flt (f_zero F)) (\<lambda>zero.
        let minimum = (if is_exact_mode mode then target else zero) in
        Ok (Some \<lparr>bc_config = \<lparr>
              minimum_io = f_inner F minimum,
              maximum_io = f_inner F target,
              maximum_io_ratio = f_inner F price_cap,
              io_is_input = is_buy_mode mode,
              cfg_orders = map take_order_config_of (sim_legs sim),
              cfg_data = []\<rparr>,
            bc_sim = sim\<rparr>))))"

section \<open>Properties\<close>

lemma simulate_candidates_over:
  "simulate_candidates F cs mode cap =
   simulate_over_candidates (is_buy_mode mode) F cs (target_amount mode) cap"
  by (simp add: simulate_candidates_def simulate_over_candidates_def)

lemma build_config_Some:
  assumes "build_take_orders_config_from_simulation F sim mode cap = Ok (Some built)"
  shows "sim_legs sim \<noteq> []" "bc_sim built = sim"
    "cfg_orders (bc_config built) = map take_order_config_of (sim_legs sim)"
    "maximum_io (bc_config built) = f_inner F (target_amount mode)"
    "maximum_io_ratio (bc_config built) = f_inner F cap"
    "io_is_input (bc_config built) = is_buy_mode mode"
    "\<exists>zero. f_zero F = Ok zero \<and> minimum_io (bc_config built) =
       f_inner F (if is_exact_mode mode then target_amount mode else zero)"
    "is_exact_mode mode \<Longrightarrow> f_lt F (if is_buy_mode mode then sim_total_output sim
       else sim_total_input sim) (target_amount mode) = Ok False"
  using assms
  by (auto simp: build_take_orders_config_from_simulation_def Let_def ok_iff
      split: if_splits)

lemma build_config_None_iff:
  "build_take_orders_config_from_simulation F sim mode cap = Ok None \<longleftrightarrow> sim_legs sim = []"
  by (auto simp: build_take_orders_config_from_simulation_def Let_def ok_iff)

text \<open>
  An exact mode is all or nothing: the configuration built for it from a simulation of
  the candidates achieves exactly the target, which is both its minimum and its maximum; an
  up-to mode has minimum zero.
\<close>
lemma exact_mode_achieves_target:
  assumes "float_order F v" "float_exact F v" "0 \<le> v (target_amount mode)"
    and "simulate_candidates F cs mode cap = Ok sim"
    and "build_take_orders_config_from_simulation F sim mode cap = Ok (Some built)"
    and "sums_fit v (is_buy_mode mode) (target_amount mode) (sim_legs sim)"
  shows "if is_exact_mode mode
    then v (if is_buy_mode mode then sim_total_output sim else sim_total_input sim)
           = v (target_amount mode) \<and>
         minimum_io (bc_config built) = maximum_io (bc_config built)
    else \<exists>zero. f_zero F = Ok zero \<and> minimum_io (bc_config built) = f_inner F zero"
proof (cases "is_exact_mode mode")
  case True
  note built = build_config_Some[OF assms(5)]
  from built(8)[OF True]
  have "v (target_amount mode) \<le>
      v (if is_buy_mode mode then sim_total_output sim else sim_total_input sim)"
    by (simp add: float_orderD[OF assms(1)] not_less)
  moreover have "v (if is_buy_mode mode then sim_total_output sim else sim_total_input sim) \<le>
      v (target_amount mode)"
    using simulation_within_target[OF assms(1-3) _ assms(6)] assms(4) by (simp add: simulate_candidates_over)
  moreover have "minimum_io (bc_config built) = maximum_io (bc_config built)"
    using built(4,7) True by auto
  ultimately show ?thesis using True by simp
next
  case False
  with build_config_Some(7)[OF assms(5)] show ?thesis by auto
qed

abbreviation example_mode :: "take_orders_mode \<Rightarrow> int \<Rightarrow> int parsed_mode" where
  "example_mode m a \<equiv> \<lparr>pm_mode = m, pm_amount = a\<rparr>"

lemma example_simulation:
  "simulate_candidates int_floats example_book (example_mode Buy_Exact 6) 5 =
   Ok \<lparr>sim_legs = [example_leg 4 2 8 4, example_leg 10 3 6 2],
       sim_total_input = 14, sim_total_output = 6\<rparr>"
  using example_buy by (simp add: simulate_candidates_over is_buy_mode_def target_amount_def)

abbreviation example_config :: "take_orders_config_v6" where
  "example_config \<equiv> \<lparr>minimum_io = 6, maximum_io = 6, maximum_io_ratio = 5, io_is_input = True,
     cfg_orders = [take_order_config_of (example_leg 4 2 8 4),
                   take_order_config_of (example_leg 10 3 6 2)], cfg_data = []\<rparr>"

lemma example_built:
  "build_take_orders_config_from_simulation int_floats
     \<lparr>sim_legs = [example_leg 4 2 8 4, example_leg 10 3 6 2],
      sim_total_input = 14, sim_total_output = 6\<rparr> (example_mode Buy_Exact 6) 5 =
   Ok (Some \<lparr>bc_config = example_config,
       bc_sim = \<lparr>sim_legs = [example_leg 4 2 8 4, example_leg 10 3 6 2],
         sim_total_input = 14, sim_total_output = 6\<rparr>\<rparr>)"
  by (simp add: build_take_orders_config_from_simulation_def is_exact_mode_def is_buy_mode_def
      target_amount_def int_floats_def)

lemma exact_mode_achieves_target_example:
  "is_exact_mode (example_mode Buy_Exact 6) \<and> minimum_io example_config = maximum_io example_config"
  using exact_mode_achieves_target[OF int_floats_order int_floats_exact _ example_simulation
      example_built]
  using example_sums_fit(2) by (simp add: is_exact_mode_def is_buy_mode_def target_amount_def)

text \<open>
  The configuration takes the orders of the simulation's legs, in the same order, at
  their input and output indices and with their signed context, and caps the price it accepts
  at the taker's cap.
\<close>
lemma config_mirrors_simulation:
  assumes "build_take_orders_config_from_simulation F sim mode cap = Ok (Some built)"
  shows "length (cfg_orders (bc_config built)) = length (sim_legs sim) \<and>
    maximum_io_ratio (bc_config built) = f_inner F cap \<and>
    (\<forall>i<length (sim_legs sim).
       let oc = cfg_orders (bc_config built) ! i; c = leg_candidate (sim_legs sim ! i) in
       toc_order oc = cand_order c \<and>
       unat (toc_input_io_index oc) = unat (cand_input_io_index c) \<and>
       unat (toc_output_io_index oc) = unat (cand_output_io_index c) \<and>
       toc_signed_context oc = cand_signed_context c)"
  using build_config_Some[OF assms]
  by (simp add: take_order_config_of_def Let_def unat_ucast_le)

lemma config_mirrors_simulation_example:
  "length (cfg_orders example_config) = 2 \<and>
   toc_order (cfg_orders example_config ! 1) = example_order"
  using config_mirrors_simulation[OF example_built]
  by (simp add: take_order_config_of_def example_defs)

end
