(* ===== verification/Preflight.thy ===== *)
theory Preflight
  imports Take_Config
begin

text \<open>
  \<open>common/src/take_orders/preflight.rs\<close>: the checks made against the chain before calldata is
  handed to a taker, and the search for the order that makes a batch fail.

  The chain is the record \<open>services\<close>: an RPC provider answers a call with return data or an
  error text, an ERC20 contract answers for balances and allowances; every answer may depend on
  the world \<open>'w\<close> and change it, so two identical calls need not agree. Calldata encoders
  (\<open>abi_encode\<close> of the generated bindings) are its last two fields.
\<close>

section \<open>Services\<close>

record tx_request =
  tx_to :: address
  tx_from :: address
  tx_input :: bytes

datatype block_id = Block_Number u64 | Block_Latest

type_synonym 'w provider = "tx_request \<Rightarrow> block_id \<Rightarrow> (bytes, string, 'w) io"

record 'w erc20 =
  erc_balance_of :: "address \<Rightarrow> (u256, ext_error, 'w) io"
  erc_allowance :: "address \<Rightarrow> address \<Rightarrow> (u256, ext_error, 'w) io"
  erc_decimals :: "(u8, ext_error, 'w) io"

record 'w services =
  sv_provider :: "string list \<Rightarrow> ('w provider, ext_error) result"
  sv_erc20 :: "string list \<Rightarrow> address \<Rightarrow> 'w erc20"
  sv_encode_take_orders :: "take_orders_config_v6 \<Rightarrow> bytes"
  sv_encode_approve :: "address \<Rightarrow> u256 \<Rightarrow> bytes"

section \<open>Balance and allowance\<close>

datatype preflight_error =
    Balance_Check_Failed string
  | Allowance_Check_Failed string
  | Simulation_Failed string
  | Provider_Error string
  | Erc20_Error ext_error

fun display_preflight_error :: "preflight_error \<Rightarrow> string" where
  "display_preflight_error (Balance_Check_Failed s) = ''Balance check failed: '' @ s"
| "display_preflight_error (Allowance_Check_Failed s) = ''Allowance check failed: '' @ s"
| "display_preflight_error (Simulation_Failed s) = ''Simulation failed: '' @ s"
| "display_preflight_error (Provider_Error s) = ''Provider error: '' @ s"
| "display_preflight_error (Erc20_Error s) = ''ERC20 error: '' @ s"

record allowance_only_result =
  ao_current_allowance :: u256
  ao_required_amount :: u256
  ao_needs_approval :: bool
  ao_approval_amount :: "u256 option"

definition allowance_sufficient :: "u256 \<Rightarrow> u256 \<Rightarrow> allowance_only_result" where
  "allowance_sufficient allowance required = \<lparr>ao_current_allowance = allowance,
     ao_required_amount = required, ao_needs_approval = False, ao_approval_amount = None\<rparr>"

definition allowance_insufficient :: "u256 \<Rightarrow> u256 \<Rightarrow> allowance_only_result" where
  "allowance_insufficient allowance required = \<lparr>ao_current_allowance = allowance,
     ao_required_amount = required, ao_needs_approval = True, ao_approval_amount = Some required\<rparr>"

record balance_and_allowance_result =
  ba_current_balance :: u256
  ba_current_allowance :: u256
  ba_required_amount :: u256
  ba_needs_approval :: bool
  ba_approval_amount :: "u256 option"

definition balance_allowance_sufficient ::
  "u256 \<Rightarrow> u256 \<Rightarrow> u256 \<Rightarrow> balance_and_allowance_result" where
  "balance_allowance_sufficient balance allowance required = \<lparr>ba_current_balance = balance,
     ba_current_allowance = allowance, ba_required_amount = required,
     ba_needs_approval = False, ba_approval_amount = None\<rparr>"

definition balance_allowance_insufficient ::
  "u256 \<Rightarrow> u256 \<Rightarrow> u256 \<Rightarrow> balance_and_allowance_result" where
  "balance_allowance_insufficient balance allowance required = \<lparr>ba_current_balance = balance,
     ba_current_allowance = allowance, ba_required_amount = required,
     ba_needs_approval = True, ba_approval_amount = Some required\<rparr>"

definition insufficient_balance_text :: "u256 \<Rightarrow> u256 \<Rightarrow> string" where
  "insufficient_balance_text balance required =
     ''Taker balance '' @ show_word balance @ '' is less than required '' @ show_word required"

definition check_taker_balance ::
  "'w erc20 \<Rightarrow> address \<Rightarrow> u256 \<Rightarrow> (u256, preflight_error, 'w) io" where
  "check_taker_balance erc20 taker required =
     io_bind (io_map_err Erc20_Error (erc_balance_of erc20 taker)) (\<lambda>balance.
       if balance < required
       then io_fail (Balance_Check_Failed (insufficient_balance_text balance required))
       else io_return balance)"

definition check_taker_allowance ::
  "'w erc20 \<Rightarrow> address \<Rightarrow> address \<Rightarrow> u256 \<Rightarrow> (allowance_only_result, preflight_error, 'w) io" where
  "check_taker_allowance erc20 taker raindex required =
     io_bind (io_map_err Erc20_Error (erc_allowance erc20 taker raindex)) (\<lambda>allowance.
       if required \<le> allowance then io_return (allowance_sufficient allowance required)
       else io_return (allowance_insufficient allowance required))"

definition check_taker_balance_and_allowance ::
  "'w erc20 \<Rightarrow> address \<Rightarrow> address \<Rightarrow> u256
   \<Rightarrow> (balance_and_allowance_result, preflight_error, 'w) io" where
  "check_taker_balance_and_allowance erc20 taker raindex required =
     io_bind (io_map_err Erc20_Error (erc_balance_of erc20 taker)) (\<lambda>balance.
       if balance < required
       then io_fail (Balance_Check_Failed (insufficient_balance_text balance required))
       else io_bind (io_map_err Erc20_Error (erc_allowance erc20 taker raindex)) (\<lambda>allowance.
         if required \<le> allowance
         then io_return (balance_allowance_sufficient balance allowance required)
         else io_return (balance_allowance_insufficient balance allowance required)))"

definition build_approval_calldata :: "'w services \<Rightarrow> address \<Rightarrow> u256 \<Rightarrow> bytes" where
  "build_approval_calldata S spender amount = sv_encode_approve S spender amount"

section \<open>Simulating and diagnosing\<close>

definition simulate_take_orders ::
  "'w services \<Rightarrow> 'w provider \<Rightarrow> address \<Rightarrow> address \<Rightarrow> take_orders_config_v6 \<Rightarrow> u64 option
   \<Rightarrow> (unit, string, 'w) io" where
  "simulate_take_orders S provider raindex taker config block_number =
     io_bind (provider
                \<lparr>tx_to = raindex, tx_from = taker, tx_input = sv_encode_take_orders S config\<rparr>
                (case block_number of Some n \<Rightarrow> Block_Number n | None \<Rightarrow> Block_Latest))
       (\<lambda>_. io_return ())"

datatype diagnosis = Failing_Order nat | Recovered | Unidentified

definition single_order_probe_config ::
  "take_orders_config_v6 \<Rightarrow> nat \<Rightarrow> take_orders_config_v6" where
  "single_order_probe_config config idx = \<lparr>
     minimum_io = 0,
     maximum_io = maximum_io config,
     maximum_io_ratio = maximum_io_ratio config,
     io_is_input = io_is_input config,
     cfg_orders = [cfg_orders config ! idx],
     cfg_data = cfg_data config\<rparr>"

text \<open>
  The loop over the orders: the first order whose probe fails twice in a row. A run that does
  not use \<open>?\<close> returns a plain value with the next world.
\<close>

fun probe_orders ::
  "(take_orders_config_v6 \<Rightarrow> (unit, string, 'w) io) \<Rightarrow> take_orders_config_v6 \<Rightarrow> nat list
   \<Rightarrow> 'w \<Rightarrow> nat option \<times> 'w" where
  "probe_orders sim config [] w = (None, w)"
| "probe_orders sim config (idx # rest) w =
     (case sim (single_order_probe_config config idx) w of
        (Ok _, w1) \<Rightarrow> probe_orders sim config rest w1
      | (Err _, w1) \<Rightarrow>
          (case sim (single_order_probe_config config idx) w1 of
             (Ok _, w2) \<Rightarrow> probe_orders sim config rest w2
           | (Err _, w2) \<Rightarrow> (Some idx, w2)))"

definition diagnose_take_orders_failure ::
  "'w services \<Rightarrow> 'w provider \<Rightarrow> address \<Rightarrow> address \<Rightarrow> take_orders_config_v6 \<Rightarrow> u64 option
   \<Rightarrow> 'w \<Rightarrow> diagnosis \<times> 'w" where
  "diagnose_take_orders_failure S provider raindex taker config block_number w =
     (let sim = (\<lambda>c. simulate_take_orders S provider raindex taker c block_number) in
      if cfg_orders config = [] then (Unidentified, w)
      else if length (cfg_orders config) = 1 then
        (case sim config w of
           (Ok _, w1) \<Rightarrow> (Recovered, w1)
         | (Err _, w1) \<Rightarrow>
             (case sim config w1 of
                (Ok _, w2) \<Rightarrow> (Recovered, w2)
              | (Err _, w2) \<Rightarrow> (Failing_Order 0, w2)))
      else
        (case probe_orders sim config [0..<length (cfg_orders config)] w of
           (Some idx, w1) \<Rightarrow> (Failing_Order idx, w1)
         | (None, w1) \<Rightarrow>
             (case sim config w1 of
                (Ok _, w2) \<Rightarrow> (Recovered, w2)
              | (Err _, w2) \<Rightarrow> (Unidentified, w2))))"

definition find_failing_order_index ::
  "'w services \<Rightarrow> 'w provider \<Rightarrow> address \<Rightarrow> address \<Rightarrow> take_orders_config_v6 \<Rightarrow> u64 option
   \<Rightarrow> 'w \<Rightarrow> nat option \<times> 'w" where
  "find_failing_order_index S provider raindex taker config block_number w =
     (case diagnose_take_orders_failure S provider raindex taker config block_number w of
        (Failing_Order index, w1) \<Rightarrow> (Some index, w1)
      | (Recovered, w1) \<Rightarrow> (None, w1)
      | (Unidentified, w1) \<Rightarrow> (None, w1))"

section \<open>Diagnosis on a steady chain\<close>

text \<open>
  A provider is steady when its answer to a call does not depend on when it is asked. On a
  steady chain the diagnosis is exact.
\<close>

definition steady :: "'w provider \<Rightarrow> (tx_request \<Rightarrow> block_id \<Rightarrow> bool) \<Rightarrow> bool" where
  "steady provider accepts \<longleftrightarrow>
     (\<forall>tx b w. is_ok (fst (provider tx b w)) = accepts tx b)"

definition call_accepted ::
  "'w services \<Rightarrow> (tx_request \<Rightarrow> block_id \<Rightarrow> bool) \<Rightarrow> address \<Rightarrow> address \<Rightarrow> u64 option
   \<Rightarrow> take_orders_config_v6 \<Rightarrow> bool" where
  "call_accepted S accepts raindex taker block_number config =
     accepts \<lparr>tx_to = raindex, tx_from = taker, tx_input = sv_encode_take_orders S config\<rparr>
       (case block_number of Some n \<Rightarrow> Block_Number n | None \<Rightarrow> Block_Latest)"

lemma steady_simulate:
  assumes "steady provider accepts"
  obtains r w' where
    "simulate_take_orders S provider raindex taker config block_number w = (r, w')"
    "is_ok r = call_accepted S accepts raindex taker block_number config"
proof -
  let ?tx = "\<lparr>tx_to = raindex, tx_from = taker, tx_input = sv_encode_take_orders S config\<rparr>"
  let ?b = "case block_number of Some n \<Rightarrow> Block_Number n | None \<Rightarrow> Block_Latest"
  obtain r w' where call: "provider ?tx ?b w = (r, w')" by force
  have "is_ok (fst (provider ?tx ?b w)) = accepts ?tx ?b"
    using assms by (simp add: steady_def)
  with call have "is_ok r = accepts ?tx ?b" by simp
  with call that show thesis
    by (cases r) (auto simp: simulate_take_orders_def io_bind_def io_return_def call_accepted_def)
qed

lemma probe_orders_steady:
  assumes "\<And>c w. \<exists>r w'. sim c w = (r, w') \<and> is_ok r = good c"
  shows "fst (probe_orders sim config idxs w) =
    find (\<lambda>i. \<not> good (single_order_probe_config config i)) idxs"
proof (induction idxs arbitrary: w)
  case Nil
  then show ?case by simp
next
  case (Cons i idxs)
  let ?c = "single_order_probe_config config i"
  obtain r1 w1 where 1: "sim ?c w = (r1, w1)" "is_ok r1 = good ?c" using assms by blast
  obtain r2 w2 where 2: "sim ?c w1 = (r2, w2)" "is_ok r2 = good ?c" using assms by blast
  from 1 2 Cons.IH show ?case by (cases r1; cases r2) simp_all
qed

text \<open>
  Claim C5. On a steady chain the diagnosis is exact. A batch of one order is tried as it is: it has
  recovered or its order is to blame. Of several orders it names the first one that fails on its own,
  each probed without the batch's minimum, and when none does it says whether the whole batch passes
  when it is tried again. An empty batch has nothing to blame.
\<close>
theorem diagnosis_exact_on_steady_chain:
  assumes "steady provider accepts"
  shows "fst (diagnose_take_orders_failure S provider raindex taker config block_number w) =
    (let accepted = call_accepted S accepts raindex taker block_number in
     if cfg_orders config = [] then Unidentified
     else if length (cfg_orders config) = 1 then (if accepted config then Recovered else Failing_Order 0)
     else
       (case find (\<lambda>i. \<not> accepted (single_order_probe_config config i)) [0..<length (cfg_orders config)] of
          Some i \<Rightarrow> Failing_Order i
        | None \<Rightarrow> if accepted config then Recovered else Unidentified))"
proof -
  let ?sim = "\<lambda>c. simulate_take_orders S provider raindex taker c block_number"
  let ?ok = "call_accepted S accepts raindex taker block_number"
  let ?idxs = "[0..<length (cfg_orders config)]"
  have sim: "\<exists>r w'. ?sim c w = (r, w') \<and> is_ok r = ?ok c" for c w
    by (rule steady_simulate[OF assms]) blast
  obtain r1 w1 where once: "?sim config w = (r1, w1)" "is_ok r1 = ?ok config" using sim by blast
  obtain r2 w2 where twice: "?sim config w1 = (r2, w2)" "is_ok r2 = ?ok config" using sim by blast
  obtain found w3 where probe: "probe_orders ?sim config ?idxs w = (found, w3)" by force
  have "fst (probe_orders ?sim config ?idxs w) =
      find (\<lambda>i. \<not> ?ok (single_order_probe_config config i)) ?idxs"
    by (rule probe_orders_steady) (rule sim)
  with probe have found: "find (\<lambda>i. \<not> ?ok (single_order_probe_config config i)) ?idxs = found" by simp
  obtain r4 w4 where batch: "?sim config w3 = (r4, w4)" "is_ok r4 = ?ok config" using sim by blast
  show ?thesis
  proof (cases "length (cfg_orders config) = 1")
    case True
    then have "cfg_orders config \<noteq> []" by auto
    with True once twice show ?thesis
      by (cases r1; cases r2) (simp_all add: diagnose_take_orders_failure_def Let_def)
  next
    case False
    with probe batch show ?thesis unfolding Let_def found
      by (cases found; cases r4) (simp_all add: diagnose_take_orders_failure_def Let_def)
  qed
qed

section \<open>An example chain\<close>

text \<open>
  A chain that counts its calls and rejects calldata whose first byte is that of an order with
  input index 1, and a token of which every taker holds 100 and has approved 10.
\<close>

definition example_provider :: "nat provider" where
  "example_provider tx b w =
     (if 1 \<in> set (tx_input tx) then Err ''revert'' else Ok [], Suc w)"

definition example_erc20 :: "nat erc20" where
  "example_erc20 = \<lparr>erc_balance_of = (\<lambda>a w. (Ok 100, Suc w)),
     erc_allowance = (\<lambda>a s w. (Ok 10, Suc w)), erc_decimals = (\<lambda>w. (Ok 0, Suc w))\<rparr>"

definition example_services :: "nat services" where
  "example_services = \<lparr>sv_provider = (\<lambda>urls. Ok example_provider),
     sv_erc20 = (\<lambda>urls token. example_erc20),
     sv_encode_take_orders = (\<lambda>c. map (\<lambda>oc. ucast (toc_input_io_index oc)) (cfg_orders c)),
     sv_encode_approve = (\<lambda>s n. [ucast n])\<rparr>"

definition example_batch :: "u256 list \<Rightarrow> take_orders_config_v6" where
  "example_batch is = \<lparr>minimum_io = 0, maximum_io = 5, maximum_io_ratio = 3, io_is_input = True,
     cfg_orders = map (\<lambda>i. \<lparr>toc_order = example_order, toc_input_io_index = i,
       toc_output_io_index = 0, toc_signed_context = []\<rparr>) is, cfg_data = []\<rparr>"

lemmas chain_eval = example_provider_def example_erc20_def example_services_def
  simulate_take_orders_def call_accepted_def single_order_probe_config_def io_defs

lemma example_provider_steady: "steady example_provider (\<lambda>tx b. 1 \<notin> set (tx_input tx))"
  by (simp add: steady_def example_provider_def)

theorem diagnosis_exact_on_steady_chain_witness:
  "fst (diagnose_take_orders_failure example_services example_provider 9 3
     (example_batch [0, 1, 2]) None 0) = Failing_Order 1 \<and>
   fst (diagnose_take_orders_failure example_services example_provider 9 3
     (example_batch [1]) None 0) = Failing_Order 0 \<and>
   fst (diagnose_take_orders_failure example_services example_provider 9 3
     (example_batch [0, 2]) None 0) = Recovered"
  unfolding diagnosis_exact_on_steady_chain[OF example_provider_steady]
  by (simp add: chain_eval example_batch_def upt_rec)

section \<open>Diagnosis on any chain\<close>

text \<open>Without any assumption on the chain: the index is in range and its order failed twice.\<close>

lemma probe_orders_Some:
  assumes "probe_orders sim config idxs w = (Some i, w')"
  shows "i \<in> set idxs \<and> (\<exists>w1 w2 e1 e2.
    sim (single_order_probe_config config i) w1 = (Err e1, w2) \<and>
    sim (single_order_probe_config config i) w2 = (Err e2, w'))"
  using assms
proof (induction idxs arbitrary: w)
  case Nil
  then show ?case by simp
next
  case (Cons j idxs)
  then show ?case by (fastforce split: prod.splits result.splits)
qed

text \<open>
  An order is blamed only on evidence: its index is one of the batch, and two
  simulations of it alone, one right after the other, failed.
\<close>
lemma blamed_order_failed_twice:
  assumes "diagnose_take_orders_failure S provider raindex taker config block_number w
    = (Failing_Order i, w')"
  shows "i < length (cfg_orders config) \<and> (\<exists>c w1 w2 e1 e2.
    cfg_orders c = [cfg_orders config ! i] \<and>
    simulate_take_orders S provider raindex taker c block_number w1 = (Err e1, w2) \<and>
    simulate_take_orders S provider raindex taker c block_number w2 = (Err e2, w'))"
proof (cases "length (cfg_orders config) = 1")
  case True
  then have "cfg_orders config = [cfg_orders config ! 0]"
    by (cases "cfg_orders config") auto
  with True assms show ?thesis
    by (auto simp: diagnose_take_orders_failure_def Let_def split: prod.splits result.splits
        if_splits)
next
  case False
  with assms have "\<exists>idxs. idxs = [0..<length (cfg_orders config)] \<and> probe_orders
      (\<lambda>c. simulate_take_orders S provider raindex taker c block_number) config idxs w
      = (Some i, w')"
    by (auto simp: diagnose_take_orders_failure_def Let_def split: prod.splits result.splits
        if_splits option.splits)
  moreover have "cfg_orders (single_order_probe_config config i) = [cfg_orders config ! i]"
    by (simp add: single_order_probe_config_def)
  ultimately show ?thesis by (fastforce dest: probe_orders_Some)
qed

lemma blamed_order_failed_twice_example:
  "1 < length (cfg_orders (example_batch [0, 1, 2]))"
proof -
  have run: "diagnose_take_orders_failure example_services example_provider 9 3
     (example_batch [0, 1, 2]) None 0 = (Failing_Order 1, 3)"
    by (simp add: diagnose_take_orders_failure_def Let_def chain_eval example_batch_def upt_rec)
  show ?thesis using blamed_order_failed_twice[OF run] by simp
qed

end
