(* ===== verification/Take_Result.thy ===== *)
theory Take_Result
  imports Preflight
begin

text \<open>
  What the take-orders client returns and how it is asked: \<open>raindex_client/take_orders/\<close>
  \<open>request.rs\<close> (parsing and validating a request), \<open>result.rs\<close> (the two results, an approval
  the taker has to give first or the calldata with its price information) and \<open>approval.rs\<close> (the
  check that decides between them). \<open>parse_address\<close> is the library's \<open>Address::from_str\<close>.
\<close>

section \<open>Requests\<close>

record take_orders_request =
  tr_taker :: string
  tr_chain_id :: u32
  tr_sell_token :: string
  tr_buy_token :: string
  tr_mode :: take_orders_mode
  tr_amount :: string
  tr_price_cap :: string

record 'f parsed_request =
  pr_taker :: address
  pr_sell_token :: address
  pr_buy_token :: address
  pr_mode :: "'f parsed_mode"
  pr_price_cap :: 'f

definition parse_request ::
  "'f float_ops \<Rightarrow> (string \<Rightarrow> (address, ext_error) result) \<Rightarrow> take_orders_request
   \<Rightarrow> ('f parsed_request, raindex_error) result" where
  "parse_request F parse_address request =
     rbind (map_err From_Hex_Error (parse_address (tr_taker request))) (\<lambda>taker.
     rbind (map_err From_Hex_Error (parse_address (tr_sell_token request))) (\<lambda>sell_token.
     rbind (map_err From_Hex_Error (parse_address (tr_buy_token request))) (\<lambda>buy_token.
     if sell_token = buy_token then Err Same_Token_Pair
     else
       rbind (flt (f_parse F (tr_price_cap request))) (\<lambda>price_cap.
       rbind (parse_mode F (tr_mode request) (tr_amount request)) (\<lambda>mode.
       rbind (flt (f_zero F)) (\<lambda>zero.
       rbind (flt (f_lt F price_cap zero)) (\<lambda>negative.
       if negative then Err Negative_Price_Cap
       else Ok \<lparr>pr_taker = taker, pr_sell_token = sell_token, pr_buy_token = buy_token,
                pr_mode = mode, pr_price_cap = price_cap\<rparr>)))))))"

section \<open>Results\<close>

record 'f approval_info =
  ap_token :: address
  ap_spender :: address
  ap_amount :: 'f
  ap_formatted_amount :: string
  ap_calldata :: bytes

record 'f take_orders_info =
  ti_raindex :: address
  ti_calldata :: bytes
  ti_effective_price :: 'f
  ti_prices :: "'f list"
  ti_expected_sell :: 'f
  ti_max_sell_cap :: 'f

datatype 'f calldata_result = Needs_Approval "'f approval_info" | Ready "'f take_orders_info"

fun is_needs_approval :: "'f calldata_result \<Rightarrow> bool" where
  "is_needs_approval (Needs_Approval a) = True"
| "is_needs_approval (Ready i) = False"

fun is_ready :: "'f calldata_result \<Rightarrow> bool" where
  "is_ready (Needs_Approval a) = False"
| "is_ready (Ready i) = True"

fun approval_info_of :: "'f calldata_result \<Rightarrow> 'f approval_info option" where
  "approval_info_of (Needs_Approval a) = Some a"
| "approval_info_of (Ready i) = None"

fun take_orders_info_of :: "'f calldata_result \<Rightarrow> 'f take_orders_info option" where
  "take_orders_info_of (Needs_Approval a) = None"
| "take_orders_info_of (Ready i) = Some i"

record 'f take_order_estimate =
  te_expected_spend :: 'f
  te_expected_receive :: 'f
  te_is_partial :: bool

definition build_approval_result ::
  "'f float_ops \<Rightarrow> 'w services \<Rightarrow> address \<Rightarrow> address \<Rightarrow> 'f \<Rightarrow> u8
   \<Rightarrow> ('f calldata_result, raindex_error) result" where
  "build_approval_result F S token spender amount decimals =
     rbind (flt (f_to_fixed_lossy F amount decimals)) (\<lambda>(amount_u256, _).
     let calldata = build_approval_calldata S spender amount_u256 in
     rbind (flt (f_from_fixed F amount_u256 decimals)) (\<lambda>truncated_amount.
     Ok (Needs_Approval \<lparr>ap_token = token, ap_spender = spender, ap_amount = truncated_amount,
           ap_formatted_amount = unwrap_or (f_format F truncated_amount) [],
           ap_calldata = calldata\<rparr>)))"

definition build_calldata_result ::
  "'f float_ops \<Rightarrow> 'w services \<Rightarrow> address \<Rightarrow> 'f built_config \<Rightarrow> 'f parsed_mode \<Rightarrow> 'f
   \<Rightarrow> ('f calldata_result, raindex_error) result" where
  "build_calldata_result F S raindex_addr built mode price_cap =
     (let calldata = sv_encode_take_orders S (bc_config built); sim = bc_sim built in
      rbind (flt (f_zero F)) (\<lambda>zero.
      rbind (flt (f_gt F (sim_total_output sim) zero)) (\<lambda>positive.
      rbind (if positive then flt (f_div F (sim_total_input sim) (sim_total_output sim))
             else Ok zero) (\<lambda>effective_price.
      let prices = map (\<lambda>l. cand_ratio (leg_candidate l)) (sim_legs sim) in
      rbind (if is_buy_mode mode then flt (f_mul F (target_amount mode) price_cap)
             else Ok (target_amount mode)) (\<lambda>max_sell_cap.
      Ok (Ready \<lparr>ti_raindex = raindex_addr, ti_calldata = calldata,
            ti_effective_price = effective_price, ti_prices = prices,
            ti_expected_sell = sim_total_input sim, ti_max_sell_cap = max_sell_cap\<rparr>))))))"

section \<open>The approval check\<close>

record 'f approval_params =
  apc_rpc_urls :: "string list"
  apc_sell_token :: address
  apc_taker :: address
  apc_raindex :: address
  apc_mode :: "'f parsed_mode"
  apc_price_cap :: 'f

definition calculate_max_sell_cap ::
  "'f float_ops \<Rightarrow> 'f parsed_mode \<Rightarrow> 'f \<Rightarrow> ('f, raindex_error) result" where
  "calculate_max_sell_cap F mode price_cap =
     (if is_buy_mode mode then flt (f_mul F (target_amount mode) price_cap)
      else Ok (target_amount mode))"

definition check_approval_needed ::
  "'f float_ops \<Rightarrow> 'w services \<Rightarrow> 'f approval_params
   \<Rightarrow> ('f calldata_result option, raindex_error, 'w) io" where
  "check_approval_needed F S params =
     io_bind (io_pure (calculate_max_sell_cap F (apc_mode params) (apc_price_cap params)))
       (\<lambda>max_sell_cap.
     let erc20 = sv_erc20 S (apc_rpc_urls params) (apc_sell_token params) in
     io_bind (io_map_err Erc20 (erc_decimals erc20)) (\<lambda>decimals.
     io_bind (io_pure (flt (f_to_fixed_lossy F max_sell_cap decimals))) (\<lambda>(required, _).
     io_bind (io_map_err (\<lambda>e. Preflight_Error (display_preflight_error e))
                (check_taker_allowance erc20 (apc_taker params) (apc_raindex params) required))
       (\<lambda>allowance_result.
     if ao_needs_approval allowance_result
     then io_bind (io_pure (build_approval_result F S (apc_sell_token params)
                              (apc_raindex params) max_sell_cap decimals)) (\<lambda>r.
            io_return (Some r))
     else io_return None))))"

section \<open>Properties\<close>

text \<open>
  A request that parses is sound: two different tokens, a positive amount and a price
  cap that is not negative; the mode asked for is the mode used.
\<close>
lemma parsed_request_is_sound:
  assumes "float_order F v" and "parse_request F parse_address request = Ok r"
  shows "pr_sell_token r \<noteq> pr_buy_token r \<and> 0 < v (target_amount (pr_mode r)) \<and>
    0 \<le> v (pr_price_cap r) \<and> pm_mode (pr_mode r) = tr_mode request \<and>
    parse_address (tr_taker request) = Ok (pr_taker r)"
  using assms(2) float_orderD[OF assms(1)]
  by (auto simp: parse_request_def parse_mode_def target_amount_def ok_iff split: if_splits)

abbreviation example_request :: take_orders_request where
  "example_request \<equiv> \<lparr>tr_taker = ''t'', tr_chain_id = 1, tr_sell_token = ''s'',
     tr_buy_token = ''b'', tr_mode = Buy_Up_To, tr_amount = ''10'', tr_price_cap = ''10''\<rparr>"

definition example_addresses :: "string \<Rightarrow> (address, ext_error) result" where
  "example_addresses s = (if s = ''t'' then Ok 3 else if s = ''s'' then Ok 1
     else if s = ''b'' then Ok 2 else Err ''hex'')"

abbreviation example_parsed :: "int parsed_request" where
  "example_parsed \<equiv> \<lparr>pr_taker = 3, pr_sell_token = 1, pr_buy_token = 2,
     pr_mode = example_mode Buy_Up_To 10, pr_price_cap = 10\<rparr>"

lemma example_parse: "parse_request int_floats example_addresses example_request = Ok example_parsed"
  by (simp add: parse_request_def parse_mode_def example_addresses_def int_floats_def)

lemma parsed_request_is_sound_example:
  "pr_sell_token example_parsed \<noteq> pr_buy_token example_parsed \<and>
   0 < rat_of_int (target_amount (pr_mode example_parsed))"
  using parsed_request_is_sound[OF int_floats_order example_parse] by simp

text \<open>What a check that asks for an approval has seen.\<close>

lemma check_approval_Some:
  assumes "check_approval_needed F S p w = (Ok (Some r), w')"
  obtains cap decimals lossy required allowance info amount w1 where
    "calculate_max_sell_cap F (apc_mode p) (apc_price_cap p) = Ok cap"
    "erc_decimals (sv_erc20 S (apc_rpc_urls p) (apc_sell_token p)) w = (Ok decimals, w1)"
    "f_to_fixed_lossy F cap decimals = Ok (required, lossy)"
    "erc_allowance (sv_erc20 S (apc_rpc_urls p) (apc_sell_token p)) (apc_taker p) (apc_raindex p) w1
       = (Ok allowance, w')"
    "allowance < required" "r = Needs_Approval info" "f_from_fixed F required decimals = Ok amount"
    "info = \<lparr>ap_token = apc_sell_token p, ap_spender = apc_raindex p, ap_amount = amount,
       ap_formatted_amount = unwrap_or (f_format F amount) [],
       ap_calldata = sv_encode_approve S (apc_raindex p) required\<rparr>"
  using assms
  by (auto simp: check_approval_needed_def check_taker_allowance_def build_approval_result_def
      build_approval_calldata_def allowance_sufficient_def allowance_insufficient_def Let_def
      ok_iff not_le split: if_splits)

text \<open>
  An approval is asked for exactly when it is missing: the check that returns one has
  read an allowance below the largest amount the taker may have to sell, and it asks for that
  amount, for the raindex that will spend it; the check that returns none has read an allowance
  that covers it.
\<close>
lemma approval_asked_iff_allowance_short:
  assumes "check_approval_needed F S p w = (Ok res, w')"
  shows "\<exists>cap decimals required lossy w1 allowance.
    calculate_max_sell_cap F (apc_mode p) (apc_price_cap p) = Ok cap \<and>
    f_to_fixed_lossy F cap decimals = Ok (required, lossy) \<and>
    erc_allowance (sv_erc20 S (apc_rpc_urls p) (apc_sell_token p)) (apc_taker p) (apc_raindex p) w1
      = (Ok allowance, w') \<and>
    (case res of
       None \<Rightarrow> required \<le> allowance
     | Some r \<Rightarrow> allowance < required \<and> (\<exists>info. r = Needs_Approval info \<and>
         ap_spender info = apc_raindex p \<and> ap_token info = apc_sell_token p \<and>
         ap_calldata info = sv_encode_approve S (apc_raindex p) required))"
proof (cases res)
  case None
  with assms show ?thesis
    by (auto simp: check_approval_needed_def check_taker_allowance_def allowance_sufficient_def
        allowance_insufficient_def Let_def ok_iff split: if_splits)
next
  case (Some r)
  with assms have "check_approval_needed F S p w = (Ok (Some r), w')" by simp
  then show ?thesis by (rule check_approval_Some) (use Some in auto)
qed

lemma approval_asked_iff_allowance_short_example:
  "\<exists>w1 allowance. erc_allowance example_erc20 3 8 w1 = (Ok allowance, 2) \<and> allowance < 100"
proof -
  let ?p = "\<lparr>apc_rpc_urls = [], apc_sell_token = 1, apc_taker = 3, apc_raindex = 8,
     apc_mode = example_mode Buy_Up_To 10, apc_price_cap = 10\<rparr>"
  let ?r = "Needs_Approval \<lparr>ap_token = 1, ap_spender = 8, ap_amount = 100,
     ap_formatted_amount = ''int'', ap_calldata = [100]\<rparr>"
  have run: "check_approval_needed int_floats example_services ?p 0 = (Ok (Some ?r), 2)"
    by (simp add: check_approval_needed_def calculate_max_sell_cap_def check_taker_allowance_def
        allowance_insufficient_def build_approval_result_def build_approval_calldata_def
        target_amount_def is_buy_mode_def chain_eval int_floats_def)
  from approval_asked_iff_allowance_short[OF run] show ?thesis
    by (auto simp: calculate_max_sell_cap_def target_amount_def is_buy_mode_def int_floats_def
        example_services_def)
qed

end
