(* ===== verification/Take_Selection.thy ===== *)
theory Take_Selection
  imports Take_Result "HOL-Library.Product_Lexorder"
begin

text \<open>
  \<open>raindex_client/take_orders/selection.rs\<close>: one simulation per raindex contract, and the best of
  them. The candidates are grouped in a \<open>HashMap\<close>, whose iteration order the standard library
  leaves open: it is the argument \<open>iter\<close>, any rearrangement of the groups. The comparison of
  two simulations is by the amount the mode cares about, then by output, then by the worst price
  of a leg, then by address; \<open>selection_is_order_independent\<close> shows that the order of iteration
  does not matter.

  The locale \<open>best_so_far\<close> is the loop that keeps the better of the best so far and the next;
  it is interpreted on the code's comparison.
\<close>

section \<open>Operations\<close>

definition build_candidates_for_chain ::
  "'f float_ops \<Rightarrow> 'o order_ops
   \<Rightarrow> ('o list \<Rightarrow> u64 option \<Rightarrow> u32 option \<Rightarrow> address \<Rightarrow> 'i
        \<Rightarrow> ('f order_quote list list, raindex_error, 'w) io)
   \<Rightarrow> 'o list \<Rightarrow> address \<Rightarrow> address \<Rightarrow> u64 option \<Rightarrow> u32 option \<Rightarrow> address \<Rightarrow> 'i
   \<Rightarrow> ('f candidate list, raindex_error, 'w) io" where
  "build_candidates_for_chain F R get_quotes orders sell_token buy_token block_number chunk_size
       counterparty injector =
     io_bind (build_take_order_candidates_for_pair F R get_quotes orders sell_token buy_token
                block_number chunk_size counterparty injector) (\<lambda>candidates.
       if candidates = [] then io_fail No_Liquidity else io_return candidates)"

fun worst_price_from ::
  "'f float_ops \<Rightarrow> 'f option \<Rightarrow> 'f leg list \<Rightarrow> ('f option, raindex_error) result" where
  "worst_price_from F mx [] = Ok mx"
| "worst_price_from F mx (leg # legs) =
     (let ratio = cand_ratio (leg_candidate leg) in
      case mx of
        None \<Rightarrow> worst_price_from F (Some ratio) legs
      | Some current_max \<Rightarrow>
          rbind (flt (cmp_float F ratio current_max)) (\<lambda>ord.
            worst_price_from F (if ord = Greater then Some ratio else mx) legs))"

definition worst_price :: "'f float_ops \<Rightarrow> 'f simulation \<Rightarrow> ('f option, raindex_error) result" where
  "worst_price F sim = worst_price_from F None (sim_legs sim)"

definition selection_primary :: "'f simulation \<Rightarrow> 'f parsed_mode \<Rightarrow> 'f" where
  "selection_primary sim mode =
     (if is_exact_mode mode \<and> \<not> is_buy_mode mode then sim_total_input sim else sim_total_output sim)"

fun push_group :: "'f candidate \<Rightarrow> (address \<times> 'f candidate list) list
  \<Rightarrow> (address \<times> 'f candidate list) list" where
  "push_group c [] = [(cand_raindex c, [c])]"
| "push_group c ((a, cs) # gs) =
     (if cand_raindex c = a then (a, cs @ [c]) # gs else (a, cs) # push_group c gs)"

fun group_by_raindex :: "'f candidate list \<Rightarrow> (address \<times> 'f candidate list) list
  \<Rightarrow> (address \<times> 'f candidate list) list" where
  "group_by_raindex [] gs = gs"
| "group_by_raindex (c # cs) gs = group_by_raindex cs (push_group c gs)"

definition is_better ::
  "'f float_ops \<Rightarrow> 'f parsed_mode \<Rightarrow> address \<times> 'f simulation \<Rightarrow> address \<times> 'f simulation
   \<Rightarrow> (bool, raindex_error) result" where
  "is_better F mode x best =
     (let (raindex_addr, sim) = x; (best_addr, best_sim) = best;
          achieved = selection_primary sim mode;
          best_achieved = selection_primary best_sim mode in
      rbind (flt (f_gt F achieved best_achieved)) (\<lambda>gt.
      if gt then Ok True
      else rbind (flt (f_eq F achieved best_achieved)) (\<lambda>eq.
        if eq then
          rbind (flt (f_gt F (sim_total_output sim) (sim_total_output best_sim))) (\<lambda>more.
          if more then Ok True
          else rbind (flt (f_lt F (sim_total_output sim) (sim_total_output best_sim))) (\<lambda>less.
            if less then Ok False
            else
              rbind (worst_price F sim) (\<lambda>sim_worst.
              rbind (worst_price F best_sim) (\<lambda>best_worst.
              case (sim_worst, best_worst) of
                (Some sw, Some bw) \<Rightarrow>
                  rbind (flt (cmp_float F sw bw)) (\<lambda>ord.
                    case ord of
                      Less \<Rightarrow> Ok True
                    | Equal \<Rightarrow> Ok (raindex_addr < best_addr)
                    | Greater \<Rightarrow> Ok False)
              | _ \<Rightarrow> Ok (raindex_addr < best_addr)))))
        else Ok False)))"

fun select_loop ::
  "'f float_ops \<Rightarrow> 'f parsed_mode \<Rightarrow> 'f \<Rightarrow> (address \<times> 'f candidate list) list
   \<Rightarrow> (address \<times> 'f simulation) option
   \<Rightarrow> ((address \<times> 'f simulation) option, raindex_error) result" where
  "select_loop F mode price_cap [] best = Ok best"
| "select_loop F mode price_cap ((addr, candidates) # rest) best =
     rbind (simulate_candidates F candidates mode price_cap) (\<lambda>sim.
       if sim_legs sim = [] then select_loop F mode price_cap rest best
       else rbind (case best of
                     None \<Rightarrow> Ok True
                   | Some b \<Rightarrow> is_better F mode (addr, sim) b) (\<lambda>better.
         select_loop F mode price_cap rest (if better then Some (addr, sim) else best)))"

definition select_best_raindex_simulation ::
  "'f float_ops \<Rightarrow> ((address \<times> 'f candidate list) list \<Rightarrow> (address \<times> 'f candidate list) list)
   \<Rightarrow> 'f candidate list \<Rightarrow> 'f parsed_mode \<Rightarrow> 'f
   \<Rightarrow> (address \<times> 'f simulation, raindex_error) result" where
  "select_best_raindex_simulation F iter candidates mode price_cap =
     rbind (select_loop F mode price_cap (iter (group_by_raindex candidates [])) None) (\<lambda>best.
       case best of
         Some r \<Rightarrow> Ok r
       | None \<Rightarrow> Err No_Liquidity)"

section \<open>Grouping\<close>

lemma fst_push_group:
  "fst ` set (push_group c gs) = insert (cand_raindex c) (fst ` set gs)"
  by (induction c gs rule: push_group.induct) auto

lemma distinct_push_group:
  "distinct (map fst gs) \<Longrightarrow> distinct (map fst (push_group c gs))"
proof (induction c gs rule: push_group.induct)
  case (2 c a cs gs)
  then show ?case using fst_push_group[of c gs] by (auto simp: image_iff)
qed simp

lemma distinct_group_by_raindex:
  "distinct (map fst gs) \<Longrightarrow> distinct (map fst (group_by_raindex cs gs))"
  by (induction cs gs rule: group_by_raindex.induct) (simp_all add: distinct_push_group)

text \<open>The group of an address holds its candidates, in their order.\<close>

lemma map_of_push_group:
  "map_of (push_group c gs) a =
   (if a = cand_raindex c
    then Some ((case map_of gs a of None \<Rightarrow> [] | Some cs \<Rightarrow> cs) @ [c]) else map_of gs a)"
  by (induction c gs rule: push_group.induct) auto

definition group_append :: "'c list option \<Rightarrow> 'c list \<Rightarrow> 'c list option" where
  "group_append g cs = (if cs = [] then g else Some ((case g of None \<Rightarrow> [] | Some gs \<Rightarrow> gs) @ cs))"

lemma map_of_group_by_raindex:
  "map_of (group_by_raindex cs gs) a =
   group_append (map_of gs a) (filter (\<lambda>c. cand_raindex c = a) cs)"
  by (induction cs gs rule: group_by_raindex.induct)
    (auto simp: map_of_push_group group_append_def)

lemma group_by_raindex_mem:
  "(a, cs') \<in> set (group_by_raindex cs []) \<longleftrightarrow>
   cs' = filter (\<lambda>c. cand_raindex c = a) cs \<and> cs' \<noteq> []"
proof -
  have "distinct (map fst (group_by_raindex cs []))"
    by (rule distinct_group_by_raindex) simp
  then have "(a, cs') \<in> set (group_by_raindex cs []) \<longleftrightarrow> map_of (group_by_raindex cs []) a = Some cs'"
    by (simp add: map_of_eq_Some_iff)
  then show ?thesis by (auto simp: map_of_group_by_raindex group_append_def)
qed

lemma group_by_raindex_snd:
  "g \<in> set (group_by_raindex cs []) \<Longrightarrow>
   snd g = filter (\<lambda>c. cand_raindex c = fst g) cs \<and> snd g \<noteq> []"
  by (cases g) (simp add: group_by_raindex_mem)

section \<open>Keeping the best\<close>

text \<open>
  A loop that keeps the best element so far, for a comparison that is decided by a key: it ends
  with an element of least key, whatever the order of the elements when keys differ.
\<close>

locale best_so_far =
  fixes item :: "'g \<Rightarrow> ('a option, 'e) result"
    and better :: "'a \<Rightarrow> 'a \<Rightarrow> (bool, 'e) result"
    and ok :: "'a \<Rightarrow> bool"
    and key :: "'a \<Rightarrow> 'k::linorder"
    and loop :: "'g list \<Rightarrow> 'a option \<Rightarrow> ('a option, 'e) result"
  assumes loop_Nil: "loop [] b = Ok b"
    and loop_Cons: "loop (g # gs) b = rbind (item g) (\<lambda>i. case i of
        None \<Rightarrow> loop gs b
      | Some x \<Rightarrow> rbind (case b of None \<Rightarrow> Ok True | Some y \<Rightarrow> better x y) (\<lambda>t.
          loop gs (if t then Some x else b)))"
    and better_key: "ok x \<Longrightarrow> ok y \<Longrightarrow> better x y = Ok (key x < key y)"
begin

lemma loop_least:
  assumes "loop gs b = Ok r" "\<forall>y\<in>set_option b. ok y"
    and "\<And>g x. g \<in> set gs \<Longrightarrow> item g = Ok (Some x) \<Longrightarrow> ok x"
  shows "set_option r \<subseteq> {x. \<exists>g\<in>set gs. item g = Ok (Some x)} \<union> set_option b \<and>
    (\<forall>x \<in> {x. \<exists>g\<in>set gs. item g = Ok (Some x)} \<union> set_option b.
       \<exists>m\<in>set_option r. key m \<le> key x)"
  using assms
proof (induction gs arbitrary: b)
  case Nil
  then show ?case by (auto simp: loop_Nil)
next
  case (Cons g gs)
  from Cons.prems(1) obtain i where i: "item g = Ok i" by (auto simp: loop_Cons ok_iff)
  define b' where "b' = (case i of None \<Rightarrow> b | Some x \<Rightarrow>
    (case b of None \<Rightarrow> Some x | Some y \<Rightarrow> if key x < key y then Some x else b))"
  have item_ok: "ok x" if "g' = g \<or> g' \<in> set gs" "item g' = Ok (Some x)" for g' x
    using Cons.prems(3) that by auto
  have okb: "\<forall>y\<in>set_option b'. ok y"
    using Cons.prems(2) i item_ok by (auto simp: b'_def split: option.splits)
  have "loop gs b' = Ok r"
    using Cons.prems(1,2) i item_ok[of g]
    by (cases i; cases b) (auto simp: loop_Cons better_key b'_def split: if_splits)
  from Cons.IH[OF this okb] item_ok have
    IH: "set_option r \<subseteq> {x. \<exists>g\<in>set gs. item g = Ok (Some x)} \<union> set_option b'"
    "\<And>x. x \<in> {x. \<exists>g\<in>set gs. item g = Ok (Some x)} \<union> set_option b' \<Longrightarrow>
       \<exists>m\<in>set_option r. key m \<le> key x" by auto
  have sub: "set_option b' \<subseteq> set_option i \<union> set_option b"
    by (auto simp: b'_def split: option.splits if_splits)
  have le: "\<exists>z\<in>set_option b'. key z \<le> key u" if "u \<in> set_option i \<union> set_option b" for u
    using that by (auto simp: b'_def split: option.splits)
  have "\<exists>m\<in>set_option r. key m \<le> key x"
    if "x \<in> {x. \<exists>g'\<in>set (g # gs). item g' = Ok (Some x)} \<union> set_option b" for x
  proof -
    from that i have "x \<in> {x. \<exists>g\<in>set gs. item g = Ok (Some x)} \<or> x \<in> set_option i \<union> set_option b"
      by auto
    then show ?thesis using IH(2) le by (meson UnI1 UnI2 order_trans)
  qed
  with IH(1) sub i show ?case by auto
qed

text \<open>
  When the keys of all items differ, the result does not depend on the order of the groups.
\<close>

lemma loop_order_independent:
  assumes "loop gs None = Ok r" "loop gs' None = Ok r'" "set gs = set gs'"
    and item_ok: "\<And>g x. g \<in> set gs \<Longrightarrow> item g = Ok (Some x) \<Longrightarrow> ok x"
    and inj: "\<And>g h x y. g \<in> set gs \<Longrightarrow> h \<in> set gs \<Longrightarrow> item g = Ok (Some x) \<Longrightarrow>
      item h = Ok (Some y) \<Longrightarrow> key x = key y \<Longrightarrow> x = y"
  shows "r = r'"
proof -
  let ?X = "{x. \<exists>g\<in>set gs. item g = Ok (Some x)}"
  from loop_least[OF assms(1)] item_ok have
    r: "set_option r \<subseteq> ?X" "\<And>x. x \<in> ?X \<Longrightarrow> \<exists>m\<in>set_option r. key m \<le> key x" by auto
  from loop_least[OF assms(2)] item_ok assms(3) have
    r': "set_option r' \<subseteq> ?X" "\<And>x. x \<in> ?X \<Longrightarrow> \<exists>m\<in>set_option r'. key m \<le> key x" by auto
  show ?thesis
  proof (cases r)
    case None
    with r r' show ?thesis by (cases r') auto
  next
    case (Some m)
    with r(1) have "m \<in> ?X" by simp
    with r'(2) obtain m' where m': "r' = Some m'" "key m' \<le> key m" by force
    with r'(1) have "m' \<in> ?X" by simp
    with r(2) Some have "key m \<le> key m'" by force
    with m' have "key m = key m'" by simp
    with \<open>m \<in> ?X\<close> \<open>m' \<in> ?X\<close> inj Some m' show ?thesis by auto
  qed
qed

end

section \<open>The key of a simulation\<close>

definition leg_prices :: "('f \<Rightarrow> rat) \<Rightarrow> 'f simulation \<Rightarrow> rat set" where
  "leg_prices v sim = (\<lambda>l. v (cand_ratio (leg_candidate l))) ` set (sim_legs sim)"

definition selection_key ::
  "('f \<Rightarrow> rat) \<Rightarrow> 'f parsed_mode \<Rightarrow> address \<times> 'f simulation \<Rightarrow> rat \<times> rat \<times> rat \<times> address" where
  "selection_key v mode x =
     (- v (selection_primary (snd x) mode), - v (sim_total_output (snd x)),
      Max (leg_prices v (snd x)), fst x)"

lemma worst_price_from_Max:
  assumes "float_order F v"
  shows "\<exists>w. worst_price_from F (Some m) legs = Ok (Some w) \<and>
    v w = Max (insert (v m) ((\<lambda>l. v (cand_ratio (leg_candidate l))) ` set legs))"
proof (induction legs arbitrary: m)
  case Nil
  then show ?case by simp
next
  case (Cons l legs)
  let ?p = "\<lambda>l. v (cand_ratio (leg_candidate l))"
  define m' where "m' = (if v m < ?p l then cand_ratio (leg_candidate l) else m)"
  have "worst_price_from F (Some m) (l # legs) = worst_price_from F (Some m') legs"
    by (auto simp: m'_def cmp_float_order[OF assms] Let_def)
  moreover have "Max (insert (v m') (?p ` set legs)) =
      Max (insert (v m) (insert (?p l) (?p ` set legs)))"
  proof (cases "legs = []")
    case True
    then show ?thesis by (auto simp: m'_def max_def)
  next
    case False
    then show ?thesis by (auto simp: m'_def max_def)
  qed
  ultimately show ?case using Cons.IH[of m'] by simp
qed

lemma worst_price_Max:
  assumes "float_order F v" "sim_legs sim \<noteq> []"
  shows "\<exists>w. worst_price F sim = Ok (Some w) \<and> v w = Max (leg_prices v sim)"
  using assms worst_price_from_Max[OF assms(1)]
  by (cases "sim_legs sim") (auto simp: worst_price_def leg_prices_def Let_def)

lemma is_better_key:
  assumes "float_order F v" "sim_legs (snd x) \<noteq> []" "sim_legs (snd y) \<noteq> []"
  shows "is_better F mode x y = Ok (selection_key v mode x < selection_key v mode y)"
proof -
  obtain a s b t where xy: "x = (a, s)" "y = (b, t)" by (cases x, cases y)
  from worst_price_Max[OF assms(1)] assms(2,3) xy obtain ws wt where
    "worst_price F s = Ok (Some ws)" "v ws = Max (leg_prices v s)"
    "worst_price F t = Ok (Some wt)" "v wt = Max (leg_prices v t)" by (metis snd_conv)
  with xy show ?thesis
    by (auto simp: is_better_def selection_key_def Let_def float_orderD[OF assms(1)]
        cmp_float_order[OF assms(1)] less_prod_simp)
qed

definition group_item ::
  "'f float_ops \<Rightarrow> 'f parsed_mode \<Rightarrow> 'f \<Rightarrow> address \<times> 'f candidate list
   \<Rightarrow> ((address \<times> 'f simulation) option, raindex_error) result" where
  "group_item F mode cap g = rbind (simulate_candidates F (snd g) mode cap) (\<lambda>sim.
     Ok (if sim_legs sim = [] then None else Some (fst g, sim)))"


definition rated :: "'f float_ops \<Rightarrow> ('f \<Rightarrow> rat) \<Rightarrow> address \<times> 'f simulation \<Rightarrow> bool" where
  "rated F v x \<longleftrightarrow> float_order F v \<and> sim_legs (snd x) \<noteq> []"

interpretation selection: best_so_far "group_item F mode cap" "is_better F mode" "rated F v"
  "selection_key v mode" "select_loop F mode cap" for F :: "'f float_ops" and v mode cap
proof unfold_locales
  fix b
  show "select_loop F mode cap [] b = Ok b" by simp
next
  fix g :: "address \<times> 'f candidate list" and gs b
  obtain a cs where g: "g = (a, cs)" by (cases g)
  show "select_loop F mode cap (g # gs) b =
    rbind (group_item F mode cap g) (\<lambda>i. case i of
        None \<Rightarrow> select_loop F mode cap gs b
      | Some x \<Rightarrow> rbind (case b of None \<Rightarrow> Ok True | Some y \<Rightarrow> is_better F mode x y) (\<lambda>t.
          select_loop F mode cap gs (if t then Some x else b)))"
    unfolding g group_item_def
    by (cases "simulate_candidates F cs mode cap") auto
next
  fix x y
  assume "rated F v x" "rated F v y"
  then show "is_better F mode x y = Ok (selection_key v mode x < selection_key v mode y)"
    by (auto simp: rated_def intro: is_better_key)
qed

lemma group_item_Some:
  "group_item F mode cap g = Ok (Some x) \<longleftrightarrow>
   fst x = fst g \<and> simulate_candidates F (snd g) mode cap = Ok (snd x) \<and> sim_legs (snd x) \<noteq> []"
  by (cases x) (auto simp: group_item_def ok_iff)

lemma select_best_Ok:
  assumes "select_best_raindex_simulation F iter cs mode cap = Ok r"
  shows "select_loop F mode cap (iter (group_by_raindex cs [])) None = Ok (Some r)"
  using assms by (auto simp: select_best_raindex_simulation_def ok_iff split: option.splits)

section \<open>Properties\<close>

text \<open>
  Claim C6. The raindex selected is the best one: its simulation is that of its own candidates,
  is not empty, and no raindex with a non-empty simulation beats it, first in the amount the
  mode maximises, then in output, then in its worst price, then in its address.
\<close>
theorem selection_is_best:
  assumes "float_order F v" "set (iter (group_by_raindex cs [])) = set (group_by_raindex cs [])"
    and "select_best_raindex_simulation F iter cs mode cap = Ok (addr, sim)"
  shows "sim_legs sim \<noteq> [] \<and>
    simulate_candidates F (filter (\<lambda>c. cand_raindex c = addr) cs) mode cap = Ok sim \<and>
    (\<forall>a s. (\<exists>c\<in>set cs. cand_raindex c = a) \<longrightarrow>
       simulate_candidates F (filter (\<lambda>c. cand_raindex c = a) cs) mode cap = Ok s \<longrightarrow>
       sim_legs s \<noteq> [] \<longrightarrow>
       selection_key v mode (addr, sim) \<le> selection_key v mode (a, s))"
proof -
  let ?X = "{x. \<exists>g\<in>set (group_by_raindex cs []). group_item F mode cap g = Ok (Some x)}"
  have rated: "group_item F mode cap g = Ok (Some x) \<Longrightarrow> rated F v x" for g x
    using assms(1) by (simp add: group_item_Some rated_def)
  have gs: "set (iter (group_by_raindex cs [])) = set (group_by_raindex cs [])" by (rule assms(2))
  note least = selection.loop_least[where F = F and v = v, OF select_best_Ok[OF assms(3)]]
  have "set_option (Some (addr, sim)) \<subseteq> ?X \<union> set_option None \<and>
    (\<forall>x\<in>?X \<union> set_option None. \<exists>m\<in>set_option (Some (addr, sim)).
       selection_key v mode m \<le> selection_key v mode x)"
    using least unfolding gs by (simp add: rated)
  then have best: "(addr, sim) \<in> ?X"
    "\<And>x. x \<in> ?X \<Longrightarrow> selection_key v mode (addr, sim) \<le> selection_key v mode x" by auto
  have "(a, s) \<in> ?X" if "c \<in> set cs" "cand_raindex c = a"
    "simulate_candidates F (filter (\<lambda>c. cand_raindex c = a) cs) mode cap = Ok s" "sim_legs s \<noteq> []"
    for a s c
    using that group_by_raindex_mem[of a "filter (\<lambda>c. cand_raindex c = a) cs" cs]
    by (force simp: group_item_Some filter_empty_conv)
  with best show ?thesis by (fastforce simp: group_item_Some group_by_raindex_mem)
qed

text \<open>Two raindexes: the one at 9 fills a buy of 6 completely, the one at 4 only in part.\<close>

abbreviation example_offers :: "int candidate list" where
  "example_offers \<equiv> example_book @ [(example_candidate 3 1)\<lparr>cand_raindex := 4\<rparr>]"

abbreviation example_best :: "int simulation" where
  "example_best \<equiv> \<lparr>sim_legs = [example_leg 4 2 8 4, example_leg 10 3 6 2],
     sim_total_input = 14, sim_total_output = 6\<rparr>"

lemmas selection_eval = select_best_raindex_simulation_def simulate_candidates_def
  is_buy_mode_def is_exact_mode_def target_amount_def is_better_def selection_primary_def
  simulation_eval

lemma example_select:
  assumes "iter = id \<or> iter = rev"
  shows "select_best_raindex_simulation int_floats iter example_offers
    (example_mode Buy_Exact 6) 5 = Ok (9, example_best)"
  using assms by (elim disjE) (simp_all add: selection_eval example_defs)

theorem selection_is_best_witness:
  "selection_key rat_of_int (example_mode Buy_Exact 6) (9, example_best) \<le>
   selection_key rat_of_int (example_mode Buy_Exact 6)
     (4, \<lparr>sim_legs = [\<lparr>leg_candidate = (example_candidate 3 1)\<lparr>cand_raindex := 4\<rparr>, leg_input = 3,
        leg_output = 3\<rparr>], sim_total_input = 3, sim_total_output = 3\<rparr>)"
proof -
  have small: "simulate_candidates int_floats (filter (\<lambda>c. cand_raindex c = 4) example_offers)
      (example_mode Buy_Exact 6) 5 = Ok \<lparr>sim_legs = [\<lparr>leg_candidate =
        (example_candidate 3 1)\<lparr>cand_raindex := 4\<rparr>, leg_input = 3, leg_output = 3\<rparr>],
        sim_total_input = 3, sim_total_output = 3\<rparr>"
    by (simp add: selection_eval example_defs)
  have id: "set (id (group_by_raindex example_offers [])) = set (group_by_raindex example_offers [])"
    by simp
  from selection_is_best[OF int_floats_order id example_select[OF disjI1[OF refl]]] small
  show ?thesis by auto
qed

text \<open>
  Claim C7. The selection does not depend on the order in which the hash map of raindexes is
  walked.
\<close>
theorem selection_is_order_independent:
  assumes "float_order F v" and "set (iter1 (group_by_raindex cs [])) = set (group_by_raindex cs [])"
    and "set (iter2 (group_by_raindex cs [])) = set (group_by_raindex cs [])"
    and "select_best_raindex_simulation F iter1 cs mode cap = Ok r1"
    and "select_best_raindex_simulation F iter2 cs mode cap = Ok r2"
  shows "r1 = r2"
proof -
  have "Some r1 = Some r2"
  proof (rule selection.loop_order_independent[where F = F and v = v and mode = mode and cap = cap,
        OF select_best_Ok[OF assms(4)] select_best_Ok[OF assms(5)]])
    show "set (iter1 (group_by_raindex cs [])) = set (iter2 (group_by_raindex cs []))"
      using assms by simp
  next
    fix g x
    assume "group_item F mode cap g = Ok (Some x)"
    with assms(1) show "rated F v x" by (simp add: group_item_Some rated_def)
  next
    fix g h x y
    assume "g \<in> set (iter1 (group_by_raindex cs []))" "h \<in> set (iter1 (group_by_raindex cs []))"
      "group_item F mode cap g = Ok (Some x)" "group_item F mode cap h = Ok (Some y)"
      "selection_key v mode x = selection_key v mode y"
    then have "fst x = fst y" "fst g = fst x" "fst h = fst y"
      "simulate_candidates F (snd g) mode cap = Ok (snd x)"
      "simulate_candidates F (snd h) mode cap = Ok (snd y)"
      "g \<in> set (group_by_raindex cs [])" "h \<in> set (group_by_raindex cs [])"
      unfolding assms(2) by (simp_all add: group_item_Some selection_key_def)
    then show "x = y"
      by (simp add: group_by_raindex_snd prod_eq_iff)
  qed
  then show ?thesis by simp
qed

theorem selection_is_order_independent_witness:
  "select_best_raindex_simulation int_floats id example_offers (example_mode Buy_Exact 6) 5 =
   select_best_raindex_simulation int_floats rev example_offers (example_mode Buy_Exact 6) 5"
proof -
  have sets: "set (id (group_by_raindex example_offers [])) = set (group_by_raindex example_offers [])"
    "set (rev (group_by_raindex example_offers [])) = set (group_by_raindex example_offers [])"
    by simp_all
  show ?thesis
    using selection_is_order_independent[OF int_floats_order sets
        example_select[OF disjI1[OF refl]] example_select[OF disjI2[OF refl]]]
      example_select[of id] example_select[of rev] by simp
qed

end
