(* ===== verification/Take_Single.thy ===== *)
theory Take_Single
  imports Take_Selection
begin

text \<open>
  \<open>raindex_client/take_orders/single.rs\<close>: taking one order from one quote, its estimate and its
  execution. The arithmetic of \<open>estimate_take_order\<close> and of \<open>execute_single_take\<close> is the same
  fill that the simulation makes of one candidate; \<open>single_fill_agrees_with_simulation\<close> relates
  the two.
\<close>

section \<open>Operations\<close>

record 'f execution_params =
  ep_mode :: "'f parsed_mode"
  ep_price_cap :: 'f
  ep_taker :: address
  ep_sell_token :: address

record rpc_context =
  rc_rpc_urls :: "string list"
  rc_block_number :: "u64 option"

definition build_candidate_from_quote ::
  "'f float_ops \<Rightarrow> 'o order_ops \<Rightarrow> 'o \<Rightarrow> 'f order_quote
   \<Rightarrow> ('f candidate option, raindex_error) result" where
  "build_candidate_from_quote F R order quote =
     (if \<not> q_success quote then Ok None
      else case q_data quote of
        None \<Rightarrow> Ok None
      | Some data \<Rightarrow>
          rbind (has_capacity F data) (\<lambda>capacity.
          if \<not> capacity then Ok None
          else
            let raindex_addr = oo_raindex R order in
            rbind (oo_order_v4 R order) (\<lambda>v4.
            let input_io_index = pair_input_index (q_pair quote);
                output_io_index = pair_output_index (q_pair quote) in
            if \<not> indices_in_bounds v4 input_io_index output_io_index then Ok None
            else Ok (Some \<lparr>cand_raindex = raindex_addr, cand_order = v4,
                           cand_input_io_index = input_io_index,
                           cand_output_io_index = output_io_index,
                           cand_max_output = qv_max_output data,
                           cand_ratio = qv_ratio data,
                           cand_signed_context = q_signed_context quote\<rparr>))))"

definition estimate_take_order ::
  "'f float_ops \<Rightarrow> 'f \<Rightarrow> 'f \<Rightarrow> bool \<Rightarrow> 'f \<Rightarrow> ('f take_order_estimate, raindex_error) result" where
  "estimate_take_order F max_output ratio is_buy amount =
     rbind (flt (f_zero F)) (\<lambda>zero.
     rbind (flt (f_lte F amount zero)) (\<lambda>non_positive.
     if non_positive
     then Ok \<lparr>te_expected_spend = zero, te_expected_receive = zero, te_is_partial = False\<rparr>
     else if is_buy then
       rbind (flt (f_lt F max_output amount)) (\<lambda>is_partial.
       let output = (if is_partial then max_output else amount) in
       rbind (flt (f_mul F output ratio)) (\<lambda>input.
       Ok \<lparr>te_expected_spend = input, te_expected_receive = output, te_is_partial = is_partial\<rparr>))
     else
       rbind (flt (f_mul F max_output ratio)) (\<lambda>max_input.
       rbind (flt (f_lt F max_input amount)) (\<lambda>is_partial.
       let input = (if is_partial then max_input else amount) in
       rbind (flt (f_eq F ratio zero)) (\<lambda>free.
       rbind (if free then Ok max_output else flt (f_div F input ratio)) (\<lambda>output.
       Ok \<lparr>te_expected_spend = input, te_expected_receive = output,
           te_is_partial = is_partial\<rparr>))))))"

definition single_fill ::
  "'f float_ops \<Rightarrow> 'f candidate \<Rightarrow> 'f parsed_mode \<Rightarrow> 'f \<Rightarrow> ('f \<times> 'f, raindex_error) result" where
  \<comment> \<open>the \<open>(output, input)\<close> of \<open>execute_single_take\<close>\<close>
  "single_fill F candidate mode zero =
     (let target = target_amount mode in
      if is_buy_mode mode then
        rbind (flt (f_lte F (cand_max_output candidate) target)) (\<lambda>small.
        let output = (if small then cand_max_output candidate else target) in
        rbind (flt (f_mul F output (cand_ratio candidate))) (\<lambda>input. Ok (output, input)))
      else
        rbind (flt (f_mul F (cand_max_output candidate) (cand_ratio candidate))) (\<lambda>max_input.
        rbind (flt (f_lte F max_input target)) (\<lambda>small.
        let input = (if small then max_input else target) in
        rbind (flt (f_eq F (cand_ratio candidate) zero)) (\<lambda>free.
        rbind (if free then Ok (cand_max_output candidate)
               else flt (f_div F input (cand_ratio candidate))) (\<lambda>output.
        Ok (output, input))))))"

definition single_take_outcome ::
  "'f float_ops \<Rightarrow> 'w services \<Rightarrow> 'w provider \<Rightarrow> 'f candidate \<Rightarrow> 'f execution_params
   \<Rightarrow> rpc_context \<Rightarrow> 'f built_config \<Rightarrow> (unit, string) result
   \<Rightarrow> ('f calldata_result, raindex_error, 'w) io" where
  \<comment> \<open>the final \<open>match\<close> of \<open>execute_single_take\<close>\<close>
  "single_take_outcome F S provider candidate params ctx built sim_result =
     (case sim_result of
        Ok _ \<Rightarrow> io_pure (build_calldata_result F S (cand_raindex candidate) built (ep_mode params)
                           (ep_price_cap params))
      | Err sim_error \<Rightarrow>
          if length (cfg_orders (bc_config built)) = 1
          then io_fail (Preflight_Error (''Order failed simulation: '' @ sim_error))
          else (\<lambda>w.
            case find_failing_order_index S provider (cand_raindex candidate) (ep_taker params)
                   (bc_config built) (rc_block_number ctx) w of
              (Some _, w') \<Rightarrow>
                (Err (Preflight_Error (''Order failed simulation: '' @ sim_error)), w')
            | (None, w') \<Rightarrow>
                (Err (Preflight_Error (''Simulation failed: '' @ sim_error)), w')))"

definition execute_single_take ::
  "'f float_ops \<Rightarrow> 'w services \<Rightarrow> 'f candidate \<Rightarrow> 'f execution_params \<Rightarrow> rpc_context
   \<Rightarrow> ('f calldata_result, raindex_error, 'w) io" where
  "execute_single_take F S candidate params ctx =
     io_bind (io_pure (flt (f_zero F))) (\<lambda>zero.
     io_bind (io_pure (flt (f_gt F (cand_ratio candidate) (ep_price_cap params)))) (\<lambda>too_dear.
     if too_dear then io_fail No_Liquidity
     else
       let raindex_addr = cand_raindex candidate in
       io_bind (check_approval_needed F S \<lparr>apc_rpc_urls = rc_rpc_urls ctx,
                  apc_sell_token = ep_sell_token params, apc_taker = ep_taker params,
                  apc_raindex = raindex_addr, apc_mode = ep_mode params,
                  apc_price_cap = ep_price_cap params\<rparr>) (\<lambda>approval.
       case approval of
         Some approval_result \<Rightarrow> io_return approval_result
       | None \<Rightarrow>
           io_bind (io_pure (single_fill F candidate (ep_mode params) zero)) (\<lambda>(output, input).
           io_bind (io_pure (flt (f_lte F output zero))) (\<lambda>empty.
           if empty then io_fail No_Liquidity
           else
             let sim = \<lparr>sim_legs = [\<lparr>leg_candidate = candidate, leg_input = input,
                                     leg_output = output\<rparr>],
                        sim_total_input = input, sim_total_output = output\<rparr> in
             io_bind (io_pure (rbind (build_take_orders_config_from_simulation F sim
                                        (ep_mode params) (ep_price_cap params))
                                (\<lambda>b. ok_or b No_Liquidity))) (\<lambda>built.
             io_bind (io_pure (map_err Preflight_Error (sv_provider S (rc_rpc_urls ctx))))
               (\<lambda>provider.
             io_bind (io_try (simulate_take_orders S provider raindex_addr (ep_taker params)
                                (bc_config built) (rc_block_number ctx))) (\<lambda>sim_result.
             single_take_outcome F S provider candidate params ctx built sim_result))))))))"

section \<open>Properties\<close>

text \<open>
  A buy estimate and the leg a simulation takes for the same order agree: the spend and
  the receipt are the leg's input and output, and the estimate is partial exactly when the order
  offers less than was asked.
\<close>
lemma buy_estimate_matches_leg:
  assumes "float_order F v" "take_leg_for_buy F c amount = Ok (Some leg)" "0 < v amount"
    and "estimate_take_order F (cand_max_output c) (cand_ratio c) True amount = Ok est"
  shows "v (te_expected_receive est) = v (leg_output leg) \<and>
    (te_is_partial est \<longleftrightarrow> v (cand_max_output c) < v amount) \<and>
    (v (cand_max_output c) \<noteq> v amount \<longrightarrow> te_expected_spend est = leg_input leg)"
  using assms float_orderD[OF assms(1)]
  by (auto simp: estimate_take_order_def take_leg_for_buy_def Let_def ok_iff split: if_splits)

lemma buy_estimate_matches_leg_example:
  "\<exists>est. estimate_take_order int_floats 4 2 True 6 = Ok est \<and> te_is_partial est \<and>
     te_expected_spend est = leg_input (example_leg 4 2 8 4)"
proof -
  have leg: "take_leg_for_buy int_floats (example_candidate 4 2) 6 = Ok (Some (example_leg 4 2 8 4))"
    by (simp add: simulation_eval example_defs)
  have est: "estimate_take_order int_floats (cand_max_output (example_candidate 4 2))
      (cand_ratio (example_candidate 4 2)) True 6 =
    Ok \<lparr>te_expected_spend = 8, te_expected_receive = 4, te_is_partial = True\<rparr>"
    by (simp add: estimate_take_order_def example_defs)
  from buy_estimate_matches_leg[OF int_floats_order leg _ est] est show ?thesis
    by (simp add: example_defs)
qed

lemma single_take_outcome_Ok:
  "single_take_outcome F S provider c p ctx built r w = (Ok res, w') \<longleftrightarrow>
   (\<exists>u. r = Ok u) \<and> w' = w \<and>
   build_calldata_result F S (cand_raindex c) built (ep_mode p) (ep_price_cap p) = Ok res"
  by (auto simp: single_take_outcome_def io_fail_def split: result.splits prod.splits option.splits)

lemma execute_single_take_Ready:
  assumes "execute_single_take F S c p ctx w = (Ok (Ready info), w')"
  obtains zero out inp built provider w1 where
    "f_zero F = Ok zero" "f_gt F (cand_ratio c) (ep_price_cap p) = Ok False"
    "single_fill F c (ep_mode p) zero = Ok (out, inp)"
    "f_lte F out zero = Ok False"
    "build_take_orders_config_from_simulation F \<lparr>sim_legs = [\<lparr>leg_candidate = c,
       leg_input = inp, leg_output = out\<rparr>], sim_total_input = inp,
       sim_total_output = out\<rparr> (ep_mode p) (ep_price_cap p) = Ok (Some built)"
    "sv_provider S (rc_rpc_urls ctx) = Ok provider"
    "simulate_take_orders S provider (cand_raindex c) (ep_taker p) (bc_config built)
       (rc_block_number ctx) w1 = (Ok (), w')"
    "build_calldata_result F S (cand_raindex c) built (ep_mode p) (ep_price_cap p)
       = Ok (Ready info)"
proof -
  have no_ready: "check_approval_needed F S q u \<noteq> (Ok (Some (Ready info)), u')" for q u u'
    by (auto elim!: check_approval_Some)
  from assms show thesis
    unfolding execute_single_take_def
    by (auto simp: ok_iff Let_def no_ready single_take_outcome_Ok that
        split: if_splits option.splits)
qed

text \<open>
  Claim C8. Calldata for a single take is returned only for a configuration that the chain has
  just accepted in simulation: the calldata is the encoding of that configuration, which takes
  the one candidate, priced within the taker's cap.
\<close>
theorem single_take_ready_was_simulated:
  assumes "execute_single_take F S c p ctx w = (Ok (Ready info), w')"
  shows "\<exists>config provider w1. ti_calldata info = sv_encode_take_orders S config \<and>
    map toc_order (cfg_orders config) = [cand_order c] \<and>
    f_gt F (cand_ratio c) (ep_price_cap p) = Ok False \<and>
    sv_provider S (rc_rpc_urls ctx) = Ok provider \<and>
    simulate_take_orders S provider (cand_raindex c) (ep_taker p) config (rc_block_number ctx) w1
      = (Ok (), w')"
  using assms
proof (rule execute_single_take_Ready)
  fix zero out inp built provider w1
  assume price: "f_gt F (cand_ratio c) (ep_price_cap p) = Ok False"
    and built: "build_take_orders_config_from_simulation F \<lparr>sim_legs = [\<lparr>leg_candidate = c,
       leg_input = inp, leg_output = out\<rparr>], sim_total_input = inp,
       sim_total_output = out\<rparr> (ep_mode p) (ep_price_cap p) = Ok (Some built)"
    and prov: "sv_provider S (rc_rpc_urls ctx) = Ok provider"
    and sim: "simulate_take_orders S provider (cand_raindex c) (ep_taker p) (bc_config built)
       (rc_block_number ctx) w1 = (Ok (), w')"
    and res: "build_calldata_result F S (cand_raindex c) built (ep_mode p) (ep_price_cap p)
       = Ok (Ready info)"
  have "ti_calldata info = sv_encode_take_orders S (bc_config built)"
    using res by (auto simp: build_calldata_result_def Let_def ok_iff)
  moreover have "map toc_order (cfg_orders (bc_config built)) = [cand_order c]"
    using build_config_Some(3)[OF built] by (simp add: take_order_config_of_def)
  ultimately show ?thesis
    using price prov sim
    by (intro exI[of _ "bc_config built"] exI[of _ provider] exI[of _ w1]) simp
qed

definition example_execution :: "int execution_params" where
  "example_execution = \<lparr>ep_mode = example_mode Spend_Up_To 8, ep_price_cap = 5, ep_taker = 3,
     ep_sell_token = 1\<rparr>"

lemmas single_eval = execute_single_take_def check_approval_needed_def
  calculate_max_sell_cap_def check_taker_allowance_def allowance_sufficient_def single_fill_def
  build_take_orders_config_from_simulation_def take_order_config_of_def single_take_outcome_def
  build_calldata_result_def target_amount_def is_buy_mode_def is_exact_mode_def

theorem single_take_ready_was_simulated_witness:
  "\<exists>info w. execute_single_take int_floats example_services (example_candidate 4 2)
     example_execution \<lparr>rc_rpc_urls = [], rc_block_number = None\<rparr> 0 = (Ok (Ready info), w) \<and>
   (\<exists>config. ti_calldata info = sv_encode_take_orders example_services config \<and>
     map toc_order (cfg_orders config) = [example_order])"
proof -
  have "\<exists>info w. execute_single_take int_floats example_services (example_candidate 4 2)
     example_execution \<lparr>rc_rpc_urls = [], rc_block_number = None\<rparr> 0 = (Ok (Ready info), w)"
    by (simp add: single_eval chain_eval example_execution_def example_defs)
  then obtain info w where run: "execute_single_take int_floats example_services
     (example_candidate 4 2) example_execution \<lparr>rc_rpc_urls = [], rc_block_number = None\<rparr> 0
     = (Ok (Ready info), w)" by blast
  have ord: "cand_order (example_candidate 4 2) = example_order"
    by (simp add: example_candidate_def candidate_of_def)
  from single_take_ready_was_simulated[OF run] run ord show ?thesis by auto
qed

text \<open>
  The fill of a single take is the leg a batch simulation would take from the same
  candidate with the same target (a free candidate in a spend apart, whose input the simulation
  sets to zero).
\<close>
lemma single_fill_agrees_with_simulation:
  assumes "f_zero F = Ok zero" "single_fill F c mode zero = Ok (out, inp)"
    and "is_buy_mode mode \<or> f_eq F (cand_ratio c) zero = Ok False"
    and "(if is_buy_mode mode then take_leg_for_buy F c (target_amount mode)
          else take_leg_for_spend F c (target_amount mode)) = Ok (Some leg)"
  shows "leg_output leg = out \<and> leg_input leg = inp"
proof (cases "is_buy_mode mode")
  case True
  with assms show ?thesis
    by (auto simp: single_fill_def take_leg_for_buy_def Let_def ok_iff split: if_splits)
next
  case False
  with assms show ?thesis
    by (auto simp: single_fill_def take_leg_for_spend_def Let_def ok_iff split: if_splits)
qed

lemma single_fill_agrees_with_simulation_example:
  "single_fill int_floats (example_candidate 4 2) (example_mode Spend_Up_To 6) 0 = Ok (3, 6) \<and>
   leg_output (example_leg 4 2 6 3) = 3"
proof -
  have fill: "single_fill int_floats (example_candidate 4 2) (example_mode Spend_Up_To 6) 0
      = Ok (3, 6)"
    by (simp add: single_eval example_defs)
  have leg: "(if is_buy_mode (example_mode Spend_Up_To 6)
      then take_leg_for_buy int_floats (example_candidate 4 2)
        (target_amount (example_mode Spend_Up_To 6))
      else take_leg_for_spend int_floats (example_candidate 4 2)
        (target_amount (example_mode Spend_Up_To 6))) = Ok (Some (example_leg 4 2 6 3))"
    by (simp add: simulation_eval single_eval example_defs)
  have zero: "f_zero int_floats = Ok 0" by (simp add: int_floats_def)
  have priced: "is_buy_mode (example_mode Spend_Up_To 6) \<or>
      f_eq int_floats (cand_ratio (example_candidate 4 2)) 0 = Ok False"
    by (simp add: example_defs)
  from single_fill_agrees_with_simulation[OF zero fill priced leg] fill show ?thesis by simp
qed

end
