(* ===== verification/Take_Driver.thy ===== *)
theory Take_Driver
  imports Take_Single
begin

text \<open>
  \<open>raindex_client/take_orders/mod.rs\<close>: the whole flow from a request to calldata. After the best
  raindex is selected the preflight loop asks for a missing approval, simulates the
  configuration, and on a failure diagnoses it and tries again without the order, or without the
  raindex, that failed.

  The client's surroundings are the fields of \<open>client\<close>: the order list of a token pair, the RPC
  URLs of a chain, the latest block, the quote batch, address parsing, and the order in which
  the selection walks its hash map.
\<close>

section \<open>Rebuilding after a failure\<close>

definition same_candidate ::
  "'f float_ops \<Rightarrow> 'f candidate \<Rightarrow> 'f candidate \<Rightarrow> (bool, raindex_error) result" where
  "same_candidate F left right =
     (if cand_raindex left = cand_raindex right \<and> cand_order left = cand_order right \<and>
         cand_input_io_index left = cand_input_io_index right \<and>
         cand_output_io_index left = cand_output_io_index right \<and>
         cand_signed_context left = cand_signed_context right
      then rbind (flt (f_eq F (cand_max_output left) (cand_max_output right))) (\<lambda>same_output.
             if same_output then flt (f_eq F (cand_ratio left) (cand_ratio right)) else Ok False)
      else Ok False)"

fun find_candidate ::
  "'f float_ops \<Rightarrow> 'f candidate \<Rightarrow> nat \<Rightarrow> 'f candidate list \<Rightarrow> (nat option, raindex_error) result"
where
  "find_candidate F failing i [] = Ok None"
| "find_candidate F failing i (c # cs) =
     rbind (same_candidate F c failing) (\<lambda>same.
       if same then Ok (Some i) else find_candidate F failing (Suc i) cs)"

type_synonym 'f selected = "(address \<times> 'f built_config) option"

definition build_best_remaining_candidates ::
  "'f float_ops \<Rightarrow> ((address \<times> 'f candidate list) list \<Rightarrow> (address \<times> 'f candidate list) list)
   \<Rightarrow> 'f candidate list \<Rightarrow> 'f parsed_mode \<Rightarrow> 'f \<Rightarrow> ('f selected, raindex_error) result" where
  "build_best_remaining_candidates F iter candidates mode price_cap =
     (if candidates = [] then Ok None
      else rbind (select_best_raindex_simulation F iter candidates mode price_cap)
        (\<lambda>(raindex, simulation).
           rbind (build_take_orders_config_from_simulation F simulation mode price_cap) (\<lambda>built.
             Ok (map_option (\<lambda>b. (raindex, b)) built))))"

definition rebuild_without_failing_leg ::
  "'f float_ops \<Rightarrow> ((address \<times> 'f candidate list) list \<Rightarrow> (address \<times> 'f candidate list) list)
   \<Rightarrow> 'f candidate list \<Rightarrow> 'f leg \<Rightarrow> 'f parsed_mode \<Rightarrow> 'f
   \<Rightarrow> ('f selected \<times> 'f candidate list, raindex_error) result" where
  \<comment> \<open>the vector the code mutates is returned beside the result\<close>
  "rebuild_without_failing_leg F iter candidates failing_leg mode price_cap =
     rbind (find_candidate F (leg_candidate failing_leg) 0 candidates) (\<lambda>found.
     rbind (ok_or found (Preflight_Error
       ''failing preflight candidate was not found in the remaining candidate set'')) (\<lambda>index.
     let remaining = take index candidates @ drop (Suc index) candidates in
     rbind (build_best_remaining_candidates F iter remaining mode price_cap) (\<lambda>r.
       Ok (r, remaining))))"

definition rebuild_without_raindex ::
  "'f float_ops \<Rightarrow> ((address \<times> 'f candidate list) list \<Rightarrow> (address \<times> 'f candidate list) list)
   \<Rightarrow> 'f candidate list \<Rightarrow> address \<Rightarrow> 'f parsed_mode \<Rightarrow> 'f
   \<Rightarrow> ('f selected \<times> 'f candidate list, raindex_error) result" where
  "rebuild_without_raindex F iter candidates failed_raindex mode price_cap =
     (let remaining = filter (\<lambda>c. cand_raindex c \<noteq> failed_raindex) candidates in
      rbind (build_best_remaining_candidates F iter remaining mode price_cap) (\<lambda>r.
        Ok (r, remaining)))"

section \<open>The preflight loop\<close>

record 'f attempt =
  at_raindex :: address
  at_built :: "'f built_config"
  at_remaining :: "'f candidate list"
  at_approval_checked :: "address option"

definition approval_params_of ::
  "string list \<Rightarrow> 'f parsed_request \<Rightarrow> address \<Rightarrow> 'f approval_params" where
  "approval_params_of rpc_urls req raindex = \<lparr>apc_rpc_urls = rpc_urls,
     apc_sell_token = pr_sell_token req, apc_taker = pr_taker req, apc_raindex = raindex,
     apc_mode = pr_mode req, apc_price_cap = pr_price_cap req\<rparr>"

definition approval_step ::
  "'f float_ops \<Rightarrow> 'w services \<Rightarrow> string list \<Rightarrow> 'f parsed_request \<Rightarrow> 'f attempt
   \<Rightarrow> ('f calldata_result option, raindex_error, 'w) io" where
  "approval_step F S rpc_urls req a =
     (if at_approval_checked a \<noteq> Some (at_raindex a)
      then check_approval_needed F S (approval_params_of rpc_urls req (at_raindex a))
      else io_return None)"

text \<open>
  How the loop goes on after a failed simulation: with the calldata (the failure did not
  repeat), with another attempt, or with an error.
\<close>

definition after_diagnosis ::
  "'f float_ops \<Rightarrow> 'w services
   \<Rightarrow> ((address \<times> 'f candidate list) list \<Rightarrow> (address \<times> 'f candidate list) list)
   \<Rightarrow> 'f parsed_request \<Rightarrow> 'f attempt \<Rightarrow> string \<Rightarrow> diagnosis
   \<Rightarrow> ('f calldata_result + 'f attempt, raindex_error) result" where
  "after_diagnosis F S iter req a sim_error d =
     (case d of
        Recovered \<Rightarrow>
          rbind (build_calldata_result F S (at_raindex a) (at_built a) (pr_mode req)
                   (pr_price_cap req)) (\<lambda>r. Ok (Inl r))
      | Failing_Order failing_idx \<Rightarrow>
          if failing_idx < length (sim_legs (bc_sim (at_built a)))
          then rbind (rebuild_without_failing_leg F iter (at_remaining a)
                        (sim_legs (bc_sim (at_built a)) ! failing_idx) (pr_mode req)
                        (pr_price_cap req)) (\<lambda>(rebuilt, remaining).
            case rebuilt of
              None \<Rightarrow> Err (Preflight_Error
                        (''All orders failed simulation. Last error: '' @ sim_error))
            | Some (raindex, built) \<Rightarrow>
                Ok (Inr (a\<lparr>at_raindex := raindex, at_built := built, at_remaining := remaining\<rparr>)))
          else Err (Preflight_Error (''failing order index '' @ show_nat failing_idx @
                 '' has no matching simulation leg''))
      | Unidentified \<Rightarrow>
          rbind (rebuild_without_raindex F iter (at_remaining a) (at_raindex a) (pr_mode req)
                   (pr_price_cap req)) (\<lambda>(rebuilt, remaining).
            case rebuilt of
              None \<Rightarrow> Err (Preflight_Error
                (''Simulation failed but could not identify failing order: '' @ sim_error))
            | Some (raindex, built) \<Rightarrow>
                Ok (Inr (a\<lparr>at_raindex := raindex, at_built := built, at_remaining := remaining\<rparr>))))"

fun after_simulation ::
  "'f float_ops \<Rightarrow> 'w services
   \<Rightarrow> ((address \<times> 'f candidate list) list \<Rightarrow> (address \<times> 'f candidate list) list)
   \<Rightarrow> 'w provider \<Rightarrow> u64 \<Rightarrow> 'f parsed_request \<Rightarrow> 'f attempt \<Rightarrow> (unit, string) result
   \<Rightarrow> ('f calldata_result + 'f attempt, raindex_error, 'w) io" where
  "after_simulation F S iter provider block_number req a (Ok u) w =
     (rbind (build_calldata_result F S (at_raindex a) (at_built a) (pr_mode req)
               (pr_price_cap req)) (\<lambda>r. Ok (Inl r)), w)"
| "after_simulation F S iter provider block_number req a (Err sim_error) w =
     (case diagnose_take_orders_failure S provider (at_raindex a) (pr_taker req)
             (bc_config (at_built a)) (Some block_number) w of
        (d, w') \<Rightarrow> (after_diagnosis F S iter req a sim_error d, w'))"

definition preflight_step ::
  "'f float_ops \<Rightarrow> 'w services
   \<Rightarrow> ((address \<times> 'f candidate list) list \<Rightarrow> (address \<times> 'f candidate list) list)
   \<Rightarrow> string list \<Rightarrow> 'w provider \<Rightarrow> u64 \<Rightarrow> 'f parsed_request \<Rightarrow> 'f attempt
   \<Rightarrow> ('f calldata_result + 'f attempt, raindex_error, 'w) io" where
  "preflight_step F S iter rpc_urls provider block_number req a =
     io_bind (approval_step F S rpc_urls req a) (\<lambda>approval.
     case approval of
       Some approval_result \<Rightarrow> io_return (Inl approval_result)
     | None \<Rightarrow>
         let a' = a\<lparr>at_approval_checked := Some (at_raindex a)\<rparr> in
         io_bind (io_try (simulate_take_orders S provider (at_raindex a) (pr_taker req)
                            (bc_config (at_built a)) (Some block_number)))
           (after_simulation F S iter provider block_number req a'))"

fun preflight_loop ::
  "nat \<Rightarrow> 'f float_ops \<Rightarrow> 'w services
   \<Rightarrow> ((address \<times> 'f candidate list) list \<Rightarrow> (address \<times> 'f candidate list) list)
   \<Rightarrow> string list \<Rightarrow> 'w provider \<Rightarrow> u64 \<Rightarrow> 'f parsed_request \<Rightarrow> 'f attempt
   \<Rightarrow> ('f calldata_result, raindex_error, 'w) io" where
  "preflight_loop 0 F S iter rpc_urls provider block_number req a =
     io_fail (Preflight_Error ''Exceeded maximum preflight iterations'')"
| "preflight_loop (Suc n) F S iter rpc_urls provider block_number req a =
     io_bind (preflight_step F S iter rpc_urls provider block_number req a) (\<lambda>r.
       case r of
         Inl result \<Rightarrow> io_return result
       | Inr a' \<Rightarrow> preflight_loop n F S iter rpc_urls provider block_number req a')"

section \<open>The client operation\<close>

record ('o, 'f, 'i, 'w) client =
  cl_fetch_orders_for_pair :: "u32 \<Rightarrow> address \<Rightarrow> address \<Rightarrow> ('o list, raindex_error, 'w) io"
  cl_rpc_urls_for_chain :: "u32 \<Rightarrow> (string list, raindex_error) result"
  cl_rpc_client :: "string list \<Rightarrow> (unit, ext_error) result"
  cl_latest_block_number :: "string list \<Rightarrow> (u64, ext_error, 'w) io"
  cl_quotes :: "'o list \<Rightarrow> u64 option \<Rightarrow> u32 option \<Rightarrow> address \<Rightarrow> 'i
     \<Rightarrow> ('f order_quote list list, raindex_error, 'w) io"
  cl_parse_address :: "string \<Rightarrow> (address, ext_error) result"
  cl_orders :: "'o order_ops"
  cl_iter :: "(address \<times> 'f candidate list) list \<Rightarrow> (address \<times> 'f candidate list) list"

definition start_preflight ::
  "'f float_ops \<Rightarrow> 'w services \<Rightarrow> ('o, 'f, 'i, 'w) client \<Rightarrow> take_orders_request \<Rightarrow> 'i
   \<Rightarrow> (string list \<times> 'w provider \<times> u64 \<times> 'f parsed_request \<times> 'f attempt, raindex_error, 'w) io" where
  \<comment> \<open>what comes before the preflight loop: its constants and the first attempt\<close>
  "start_preflight F S C request injector =
     io_bind (io_pure (parse_request F (cl_parse_address C) request)) (\<lambda>req.
     io_bind (cl_fetch_orders_for_pair C (tr_chain_id request) (pr_sell_token req)
                (pr_buy_token req)) (\<lambda>orders.
     io_bind (io_pure (cl_rpc_urls_for_chain C (tr_chain_id request))) (\<lambda>rpc_urls.
     io_bind (io_pure (map_err Rpc_Client_Error (cl_rpc_client C rpc_urls))) (\<lambda>_.
     io_bind (io_map_err Rpc_Client_Error (cl_latest_block_number C rpc_urls)) (\<lambda>block_number.
     io_bind (build_candidates_for_chain F (cl_orders C) (cl_quotes C) orders (pr_sell_token req)
                (pr_buy_token req) (Some block_number) None (pr_taker req) injector)
       (\<lambda>candidates.
     io_bind (io_pure (select_best_raindex_simulation F (cl_iter C) candidates (pr_mode req)
                (pr_price_cap req))) (\<lambda>(best_raindex, best_sim).
     io_bind (io_pure (rbind (build_take_orders_config_from_simulation F best_sim (pr_mode req)
                                (pr_price_cap req)) (\<lambda>b. ok_or b No_Liquidity))) (\<lambda>built.
     io_bind (io_pure (map_err Preflight_Error (sv_provider S rpc_urls))) (\<lambda>provider.
     io_return (rpc_urls, provider, block_number, req,
       \<lparr>at_raindex = best_raindex, at_built = built, at_remaining = candidates,
        at_approval_checked = None\<rparr>))))))))))"

definition get_take_orders_calldata_with_injector ::
  "'f float_ops \<Rightarrow> 'w services \<Rightarrow> ('o, 'f, 'i, 'w) client \<Rightarrow> take_orders_request \<Rightarrow> 'i
   \<Rightarrow> ('f calldata_result, raindex_error, 'w) io" where
  "get_take_orders_calldata_with_injector F S C request injector =
     io_bind (start_preflight F S C request injector) (\<lambda>(rpc_urls, provider, block_number, req, a).
     let max_iterations = length (at_remaining a) in
     preflight_loop max_iterations F S (cl_iter C) rpc_urls provider block_number req a)"

section \<open>Every attempt is a selection from what remains\<close>

definition keeps_groups ::
  "((address \<times> 'f candidate list) list \<Rightarrow> (address \<times> 'f candidate list) list) \<Rightarrow> bool" where
  "keeps_groups iter \<longleftrightarrow> (\<forall>gs. set (iter gs) = set gs)"

definition built_from ::
  "'f float_ops \<Rightarrow> 'f parsed_mode \<Rightarrow> 'f \<Rightarrow> 'f candidate list \<Rightarrow> address \<Rightarrow> 'f built_config \<Rightarrow> bool"
where
  "built_from F mode cap cs raindex built \<longleftrightarrow> (\<exists>sim.
     simulate_candidates F (filter (\<lambda>c. cand_raindex c = raindex) cs) mode cap = Ok sim \<and>
     (\<exists>c\<in>set cs. cand_raindex c = raindex) \<and>
     build_take_orders_config_from_simulation F sim mode cap = Ok (Some built))"

lemma select_loop_mem:
  "select_loop F mode cap gs b = Ok (Some x) \<Longrightarrow>
   b = Some x \<or> (\<exists>g\<in>set gs. group_item F mode cap g = Ok (Some x))"
proof (induction gs arbitrary: b)
  case Nil
  then show ?case by simp
next
  case (Cons g gs)
  from Cons.prems[unfolded selection.loop_Cons] obtain i where i: "group_item F mode cap g = Ok i"
    by (auto simp: ok_iff)
  with Cons.prems[unfolded selection.loop_Cons] have
    "select_loop F mode cap gs b = Ok (Some x) \<or>
     (\<exists>y. i = Some y \<and> select_loop F mode cap gs (Some y) = Ok (Some x))"
    by (auto simp: ok_iff split: option.splits if_splits)
  with Cons.IH i show ?case by fastforce
qed

lemma select_best_simulates:
  assumes "keeps_groups iter" "select_best_raindex_simulation F iter cs mode cap = Ok (r, sim)"
  shows "simulate_candidates F (filter (\<lambda>c. cand_raindex c = r) cs) mode cap = Ok sim \<and>
    (\<exists>c\<in>set cs. cand_raindex c = r) \<and> sim_legs sim \<noteq> []"
proof -
  from select_loop_mem[OF select_best_Ok[OF assms(2)]] assms(1) obtain g
    where "g \<in> set (group_by_raindex cs [])" "group_item F mode cap g = Ok (Some (r, sim))"
    by (auto simp: keeps_groups_def)
  then have "snd g = filter (\<lambda>c. cand_raindex c = r) cs" "snd g \<noteq> []"
    "simulate_candidates F (snd g) mode cap = Ok sim" "sim_legs sim \<noteq> []"
    by (auto simp: group_item_Some dest: group_by_raindex_snd)
  then show ?thesis by (auto simp: filter_empty_conv)
qed

lemma build_best_Some:
  assumes "keeps_groups iter"
    and "build_best_remaining_candidates F iter cs mode cap = Ok (Some (r, built))"
  shows "built_from F mode cap cs r built"
  using assms(2) select_best_simulates[OF assms(1)]
  by (auto simp: build_best_remaining_candidates_def built_from_def ok_iff split: if_splits)

lemma find_candidate_bound:
  "find_candidate F c i cs = Ok (Some j) \<Longrightarrow> i \<le> j \<and> j < i + length cs"
  by (induction cs arbitrary: i) (fastforce simp: ok_iff split: if_splits)+

text \<open>A step that goes on has fewer candidates, and a selection made from them.\<close>

definition attempt_ok :: "'f float_ops \<Rightarrow> 'f parsed_request \<Rightarrow> 'f attempt \<Rightarrow> bool" where
  "attempt_ok F req a \<longleftrightarrow>
     built_from F (pr_mode req) (pr_price_cap req) (at_remaining a) (at_raindex a) (at_built a)"

lemma attempt_ok_nonempty: "attempt_ok F req a \<Longrightarrow> at_remaining a \<noteq> []"
  by (auto simp: attempt_ok_def built_from_def)

lemma after_diagnosis_progress:
  assumes "keeps_groups iter" "attempt_ok F req a"
    and "after_diagnosis F S iter req a e d = Ok (Inr a')"
  shows "attempt_ok F req a' \<and> length (at_remaining a') < length (at_remaining a) \<and>
    set (at_remaining a') \<subseteq> set (at_remaining a) \<and>
    at_approval_checked a' = at_approval_checked a"
proof (cases d)
  case (Failing_Order i)
  with assms(3) obtain j r built where j: "find_candidate F
      (leg_candidate (sim_legs (bc_sim (at_built a)) ! i)) 0 (at_remaining a) = Ok (Some j)"
    and rem: "at_remaining a' = take j (at_remaining a) @ drop (Suc j) (at_remaining a)"
    and best: "build_best_remaining_candidates F iter (at_remaining a') (pr_mode req)
      (pr_price_cap req) = Ok (Some (r, built))"
    and a': "at_raindex a' = r" "at_built a' = built"
      "at_approval_checked a' = at_approval_checked a"
    by (auto simp: after_diagnosis_def rebuild_without_failing_leg_def ok_iff Let_def
        split: if_splits option.splits)
  have "set (at_remaining a') \<subseteq> set (at_remaining a)"
    unfolding rem by (auto dest: in_set_takeD in_set_dropD)
  moreover have "length (at_remaining a') < length (at_remaining a)"
    using find_candidate_bound[OF j] unfolding rem by auto
  ultimately show ?thesis
    using build_best_Some[OF assms(1) best] a' by (simp add: attempt_ok_def)
next
  case Recovered
  with assms(3) show ?thesis by (auto simp: after_diagnosis_def ok_iff)
next
  case Unidentified
  with assms(3) obtain r built where
    rem: "at_remaining a' = filter (\<lambda>c. cand_raindex c \<noteq> at_raindex a) (at_remaining a)"
    and best: "build_best_remaining_candidates F iter (at_remaining a') (pr_mode req)
      (pr_price_cap req) = Ok (Some (r, built))"
    and a': "at_raindex a' = r" "at_built a' = built"
      "at_approval_checked a' = at_approval_checked a"
    by (auto simp: after_diagnosis_def rebuild_without_raindex_def ok_iff Let_def
        split: if_splits option.splits)
  from assms(2) obtain c where "c \<in> set (at_remaining a)" "cand_raindex c = at_raindex a"
    by (auto simp: attempt_ok_def built_from_def)
  then have "length (at_remaining a') < length (at_remaining a)"
    unfolding rem by (intro length_filter_less) auto
  then show ?thesis
    using build_best_Some[OF assms(1) best] a' rem by (auto simp: attempt_ok_def)
qed

lemma preflight_step_cases:
  assumes "preflight_step F S iter urls provider block req a w = (Ok r, w')"
  obtains (approval) res where "approval_step F S urls req a w = (Ok (Some res), w')" "r = Inl res"
  | (simulated) w1 sr w2 where "approval_step F S urls req a w = (Ok None, w1)"
      "simulate_take_orders S provider (at_raindex a) (pr_taker req) (bc_config (at_built a))
         (Some block) w1 = (sr, w2)"
      "after_simulation F S iter provider block req (a\<lparr>at_approval_checked := Some (at_raindex a)\<rparr>)
         sr w2 = (Ok r, w')"
proof -
  from assms obtain ap w1 where ap: "approval_step F S urls req a w = (Ok ap, w1)"
    and rest: "(case ap of Some x \<Rightarrow> io_return (Inl x)
     | None \<Rightarrow> io_bind (io_try (simulate_take_orders S provider (at_raindex a) (pr_taker req)
           (bc_config (at_built a)) (Some block)))
         (after_simulation F S iter provider block req
           (a\<lparr>at_approval_checked := Some (at_raindex a)\<rparr>))) w1 = (Ok r, w')"
    unfolding preflight_step_def Let_def by (auto simp: ok_iff)
  show thesis
  proof (cases ap)
    case None
    with rest obtain sr w2 where "simulate_take_orders S provider (at_raindex a) (pr_taker req)
        (bc_config (at_built a)) (Some block) w1 = (sr, w2)"
      "after_simulation F S iter provider block req
         (a\<lparr>at_approval_checked := Some (at_raindex a)\<rparr>) sr w2 = (Ok r, w')"
      by (auto simp: ok_iff)
    with simulated ap None show thesis by blast
  next
    case (Some x)
    with rest ap approval show thesis by simp
  qed
qed

lemma preflight_step_Inr:
  assumes "preflight_step F S iter urls provider block req a w = (Ok (Inr a'), w')"
  obtains e d w1 where "after_diagnosis F S iter req
      (a\<lparr>at_approval_checked := Some (at_raindex a)\<rparr>) e d = Ok (Inr a')"
    "approval_step F S urls req a w = (Ok None, w1)"
  using assms
proof (cases rule: preflight_step_cases)
  case (approval res)
  then show ?thesis by simp
next
  case (simulated w1 sr w2)
  with that show ?thesis by (cases sr) (auto simp: ok_iff split: prod.splits)
qed

lemma preflight_step_progress:
  assumes "keeps_groups iter" "attempt_ok F req a"
    and "preflight_step F S iter urls provider block req a w = (Ok (Inr a'), w')"
  shows "attempt_ok F req a' \<and> length (at_remaining a') < length (at_remaining a) \<and>
    at_approval_checked a' = Some (at_raindex a)"
  using assms(3)
proof (rule preflight_step_Inr)
  let ?a = "a\<lparr>at_approval_checked := Some (at_raindex a)\<rparr>"
  fix e d
  assume "after_diagnosis F S iter req ?a e d = Ok (Inr a')"
  moreover have "attempt_ok F req ?a" using assms(2) by (simp add: attempt_ok_def)
  ultimately show ?thesis using after_diagnosis_progress[OF assms(1)] by fastforce
qed

section \<open>Properties\<close>

text \<open>
  The loop without a bound, as the reference: it comes to a result (\<open>Some\<close>) or goes on for ever (\<open>None\<close>),
  and has no error for too many iterations.
\<close>

partial_function (option) preflight_unbounded ::
  "'f float_ops \<Rightarrow> 'w services
   \<Rightarrow> ((address \<times> 'f candidate list) list \<Rightarrow> (address \<times> 'f candidate list) list)
   \<Rightarrow> string list \<Rightarrow> 'w provider \<Rightarrow> u64 \<Rightarrow> 'f parsed_request \<Rightarrow> 'f attempt \<Rightarrow> 'w
   \<Rightarrow> (('f calldata_result, raindex_error) result \<times> 'w) option" where
  "preflight_unbounded F S iter rpc_urls provider block_number req a w =
     (case preflight_step F S iter rpc_urls provider block_number req a w of
        (Err e, w1) \<Rightarrow> Some (Err e, w1)
      | (Ok r, w1) \<Rightarrow>
          (case r of
             Inl result \<Rightarrow> Some (Ok result, w1)
           | Inr a' \<Rightarrow> preflight_unbounded F S iter rpc_urls provider block_number req a' w1))"

lemma bounded_is_unbounded:
  assumes "keeps_groups iter" "attempt_ok F req a" "length (at_remaining a) \<le> n"
  shows "preflight_unbounded F S iter urls provider block req a w =
    Some (preflight_loop n F S iter urls provider block req a w)"
  using assms(2,3)
proof (induction n arbitrary: a w)
  case 0
  then show ?case using attempt_ok_nonempty[of F req a] by simp
next
  case (Suc n)
  obtain r w1 where step: "preflight_step F S iter urls provider block req a w = (r, w1)" by force
  have "preflight_unbounded F S iter urls provider block req a' w1 =
      Some (preflight_loop n F S iter urls provider block req a' w1)" if "r = Ok (Inr a')" for a'
    using preflight_step_progress[OF assms(1) Suc.prems(1) step[unfolded that]] Suc.prems(2)
    by (intro Suc.IH) auto
  with step show ?case
    by (subst preflight_unbounded.simps)
      (auto simp: io_bind_def io_return_def split: result.split sum.split)
qed

lemma start_preflight_Ok:
  assumes "keeps_groups (cl_iter C)"
    and "start_preflight F S C request injector w = (Ok (urls, provider, block, req, a), w1)"
  shows "attempt_ok F req a" "at_approval_checked a = None"
    "parse_request F (cl_parse_address C) request = Ok req"
    "cl_rpc_urls_for_chain C (tr_chain_id request) = Ok urls" "sv_provider S urls = Ok provider"
proof -
  from assms(2) obtain candidates raindex sim built where
    parts: "parse_request F (cl_parse_address C) request = Ok req"
      "cl_rpc_urls_for_chain C (tr_chain_id request) = Ok urls" "sv_provider S urls = Ok provider"
    and sel: "select_best_raindex_simulation F (cl_iter C) candidates (pr_mode req)
      (pr_price_cap req) = Ok (raindex, sim)"
    and built: "build_take_orders_config_from_simulation F sim (pr_mode req) (pr_price_cap req)
      = Ok (Some built)"
    and a: "a = \<lparr>at_raindex = raindex, at_built = built, at_remaining = candidates,
        at_approval_checked = None\<rparr>"
    unfolding start_preflight_def by (auto simp: ok_iff)
  show "attempt_ok F req a"
    using select_best_simulates[OF assms(1) sel] built by (auto simp: a attempt_ok_def built_from_def)
  show "at_approval_checked a = None" by (simp add: a)
  show "parse_request F (cl_parse_address C) request = Ok req"
    "cl_rpc_urls_for_chain C (tr_chain_id request) = Ok urls" "sv_provider S urls = Ok provider"
    by (rule parts)+
qed

text \<open>
  Claim C9. The iteration bound of the client operation never decides: once the first configuration is
  selected, the operation with its bound returns exactly what the loop without any bound returns, and
  that loop always comes to a result. So the error for too many iterations is never returned.
\<close>
theorem preflight_bound_is_enough:
  assumes "keeps_groups (cl_iter C)"
  shows "case start_preflight F S C request injector w of
    (Err e, w1) \<Rightarrow> get_take_orders_calldata_with_injector F S C request injector w = (Err e, w1)
  | (Ok (urls, provider, block, req, a), w1) \<Rightarrow>
      preflight_unbounded F S (cl_iter C) urls provider block req a w1 =
        Some (get_take_orders_calldata_with_injector F S C request injector w)"
proof -
  obtain r w1 where start: "start_preflight F S C request injector w = (r, w1)" by force
  show ?thesis
  proof (cases r)
    case (Err e)
    with start show ?thesis by (simp add: get_take_orders_calldata_with_injector_def io_bind_def)
  next
    case (Ok x)
    obtain urls provider block req a where x: "x = (urls, provider, block, req, a)" by (metis prod_cases5)
    have "attempt_ok F req a" using start_preflight_Ok(1)[OF assms start[unfolded Ok x]] .
    from bounded_is_unbounded[OF assms this order_refl] start show ?thesis
      by (simp add: Ok x get_take_orders_calldata_with_injector_def io_bind_def)
  qed
qed

text \<open>An example client: two quotes of one order, and a token that everybody has approved.\<close>

definition approved_services :: "nat services" where
  "approved_services = example_services\<lparr>sv_erc20 :=
     \<lambda>urls token. example_erc20\<lparr>erc_allowance := \<lambda>a s w. (Ok 1000, Suc w)\<rparr>\<rparr>"

definition example_client :: "(nat, int, unit, nat) client" where
  "example_client = \<lparr>
     cl_fetch_orders_for_pair = (\<lambda>c s b w. (Ok [0], w)),
     cl_rpc_urls_for_chain = (\<lambda>c. Ok [''url'']),
     cl_rpc_client = (\<lambda>urls. Ok ()),
     cl_latest_block_number = (\<lambda>urls w. (Ok 5, Suc w)),
     cl_quotes = (\<lambda>os b c cp j w. (Ok [[example_quote 4 2, example_quote 10 3]], Suc w)),
     cl_parse_address = example_addresses,
     cl_orders = example_orders,
     cl_iter = id\<rparr>"

lemma keeps_groups_id: "keeps_groups id"
  by (simp add: keeps_groups_def)

lemma diagnose_Recovered:
  assumes "diagnose_take_orders_failure S provider raindex taker config block w = (Recovered, w')"
  shows "\<exists>w1. simulate_take_orders S provider raindex taker config block w1 = (Ok (), w')"
  using assms
  by (auto simp: diagnose_take_orders_failure_def Let_def split: if_splits prod.splits
      result.splits option.splits)

definition accepted_by_chain ::
  "'f float_ops \<Rightarrow> 'w services \<Rightarrow> string list \<Rightarrow> 'w provider \<Rightarrow> u64 \<Rightarrow> 'f parsed_request
   \<Rightarrow> 'f take_orders_info \<Rightarrow> bool" where
  "accepted_by_chain F S urls provider block req info \<longleftrightarrow>
     (\<exists>config w1 w2. ti_calldata info = sv_encode_take_orders S config \<and>
        simulate_take_orders S provider (ti_raindex info) (pr_taker req) config (Some block) w1
          = (Ok (), w2) \<and>
        cfg_orders config \<noteq> [] \<and> maximum_io_ratio config = f_inner F (pr_price_cap req)) \<and>
     (\<exists>w1 w2. check_approval_needed F S (approval_params_of urls req (ti_raindex info)) w1
        = (Ok None, w2))"

definition approval_known ::
  "'f float_ops \<Rightarrow> 'w services \<Rightarrow> string list \<Rightarrow> 'f parsed_request \<Rightarrow> 'f attempt \<Rightarrow> bool" where
  "approval_known F S urls req a \<longleftrightarrow> (\<forall>r. at_approval_checked a = Some r \<longrightarrow>
     (\<exists>w1 w2. check_approval_needed F S (approval_params_of urls req r) w1 = (Ok None, w2)))"

lemma approval_step_None:
  assumes "approval_known F S urls req a" "approval_step F S urls req a w = (Ok None, w')"
  shows "\<exists>w1 w2. check_approval_needed F S (approval_params_of urls req (at_raindex a)) w1
    = (Ok None, w2)"
  using assms by (auto simp: approval_step_def approval_known_def split: if_splits)

lemma build_calldata_Ready:
  assumes "build_calldata_result F S r built mode cap = Ok res"
  shows "\<exists>info. res = Ready info \<and> ti_raindex info = r \<and>
    ti_calldata info = sv_encode_take_orders S (bc_config built)"
  using assms by (auto simp: build_calldata_result_def Let_def ok_iff)

lemma approval_step_not_Ready: "approval_step F S urls req a w \<noteq> (Ok (Some (Ready info)), w1)"
  by (auto simp: approval_step_def elim!: check_approval_Some split: if_splits)

lemma preflight_step_Ready:
  assumes "attempt_ok F req a" "approval_known F S urls req a"
    and "preflight_step F S iter urls provider block req a w = (Ok (Inl (Ready info)), w')"
  shows "accepted_by_chain F S urls provider block req info"
  using assms(3)
proof (cases rule: preflight_step_cases)
  case (approval res)
  then show ?thesis using approval_step_not_Ready[of F S urls req a w info w'] by simp
next
  case (simulated w1 sr w2)
  have "(\<exists>w3 w4. simulate_take_orders S provider (at_raindex a) (pr_taker req)
        (bc_config (at_built a)) (Some block) w3 = (Ok (), w4)) \<and>
      build_calldata_result F S (at_raindex a) (at_built a) (pr_mode req) (pr_price_cap req)
        = Ok (Ready info)"
  proof (cases sr)
    case (Ok u)
    with simulated show ?thesis by (auto simp: ok_iff)
  next
    case (Err e)
    with simulated(3) obtain d where "diagnose_take_orders_failure S provider (at_raindex a)
        (pr_taker req) (bc_config (at_built a)) (Some block) w2 = (d, w')"
      and "after_diagnosis F S iter req (a\<lparr>at_approval_checked := Some (at_raindex a)\<rparr>) e d
        = Ok (Inl (Ready info))"
      by (auto split: prod.splits)
    then show ?thesis
      by (cases d) (auto simp: after_diagnosis_def ok_iff dest!: diagnose_Recovered
          split: if_splits option.splits)
  qed
  moreover from this have "ti_raindex info = at_raindex a"
    "ti_calldata info = sv_encode_take_orders S (bc_config (at_built a))"
    using build_calldata_Ready by fastforce+
  moreover have "cfg_orders (bc_config (at_built a)) \<noteq> []"
    "maximum_io_ratio (bc_config (at_built a)) = f_inner F (pr_price_cap req)"
    using assms(1) by (auto simp: attempt_ok_def built_from_def build_config_Some)
  ultimately show ?thesis
    using approval_step_None[OF assms(2) simulated(1)] by (auto simp: accepted_by_chain_def)
qed

lemma preflight_loop_Ready:
  assumes "keeps_groups iter"
  shows "attempt_ok F req a \<Longrightarrow> approval_known F S urls req a \<Longrightarrow>
    preflight_loop n F S iter urls provider block req a w = (Ok (Ready info), w') \<Longrightarrow>
    accepted_by_chain F S urls provider block req info"
proof (induction n arbitrary: a w)
  case 0
  then show ?case by simp
next
  case (Suc n)
  from Suc.prems(3) obtain r w1 where
    step: "preflight_step F S iter urls provider block req a w = (Ok r, w1)" and
    rest: "(case r of Inl result \<Rightarrow> io_return result
       | Inr a' \<Rightarrow> preflight_loop n F S iter urls provider block req a') w1 = (Ok (Ready info), w')"
    by (auto simp: ok_iff)
  show ?case
  proof (cases r)
    case (Inl res)
    with rest step show ?thesis using preflight_step_Ready[OF Suc.prems(1,2)] by simp
  next
    case (Inr a')
    from preflight_step_progress[OF assms Suc.prems(1) step[unfolded Inr]]
    have a': "attempt_ok F req a'" "at_approval_checked a' = Some (at_raindex a)" by auto
    have "approval_known F S urls req a'"
      by (rule preflight_step_Inr[OF step[unfolded Inr]])
        (use approval_step_None[OF Suc.prems(2)] a'(2) in \<open>auto simp: approval_known_def\<close>)
    with a'(1) rest Inr show ?thesis using Suc.IH by simp
  qed
qed

text \<open>
  Claim C10. Calldata is only returned after the chain accepted it: when the client operation
  returns ready calldata, it encodes a configuration with at least one order and the request's
  price cap, that configuration was simulated successfully for the taker at the latest block,
  and an approval check for the raindex it goes to found no approval missing.
\<close>
theorem ready_calldata_was_accepted:
  assumes "keeps_groups (cl_iter C)"
    and "get_take_orders_calldata_with_injector F S C request injector w = (Ok (Ready info), w')"
  shows "\<exists>req urls block provider. parse_request F (cl_parse_address C) request = Ok req \<and>
    cl_rpc_urls_for_chain C (tr_chain_id request) = Ok urls \<and> sv_provider S urls = Ok provider \<and>
    accepted_by_chain F S urls provider block req info"
proof -
  from assms(2) obtain urls provider block req a w1 where
    start: "start_preflight F S C request injector w = (Ok (urls, provider, block, req, a), w1)"
    and loop: "preflight_loop (length (at_remaining a)) F S (cl_iter C) urls provider block req a w1
      = (Ok (Ready info), w')"
    unfolding get_take_orders_calldata_with_injector_def by (auto simp: ok_iff Let_def)
  note first = start_preflight_Ok[OF assms(1) start]
  have "approval_known F S urls req a" using first(2) by (simp add: approval_known_def)
  from preflight_loop_Ready[OF assms(1) first(1) this loop] first(3-5) show ?thesis by auto
qed

lemma preflight_loop_numeral:
  "preflight_loop (numeral k) = preflight_loop (Suc (pred_numeral k))"
  by (simp only: numeral_eq_Suc)

lemmas driver_eval = get_take_orders_calldata_with_injector_def start_preflight_def build_candidates_for_chain_def
  build_take_order_candidates_for_pair_def try_build_candidate_def get_raindex_address_def
  indices_in_bounds_def matches_direction_def vec_index_def has_capacity_def
  build_take_orders_config_from_simulation_def preflight_step_def approval_step_def
  approval_params_of_def check_approval_needed_def calculate_max_sell_cap_def
  check_taker_allowance_def allowance_sufficient_def build_calldata_result_def
  take_order_config_of_def

lemma example_client_run:
  "\<exists>info w. get_take_orders_calldata_with_injector int_floats approved_services
      example_client example_request () 0 = (Ok (Ready info), w)"
  by (simp add: driver_eval selection_eval chain_eval approved_services_def example_client_def
      parse_request_def parse_mode_def example_addresses_def example_defs preflight_loop_numeral)

lemma example_client_keeps: "keeps_groups (cl_iter example_client)"
  by (simp add: example_client_def keeps_groups_id)

theorem preflight_bound_is_enough_witness:
  "\<exists>urls provider block req a w1 info w2.
    start_preflight int_floats approved_services example_client example_request () 0 =
      (Ok (urls, provider, block, req, a), w1) \<and>
    preflight_unbounded int_floats approved_services id urls provider block req a w1 =
      Some (Ok (Ready info), w2)"
proof -
  let ?start = "start_preflight int_floats approved_services example_client example_request () 0"
  obtain info w2 where run: "get_take_orders_calldata_with_injector int_floats approved_services
      example_client example_request () 0 = (Ok (Ready info), w2)" using example_client_run by blast
  then obtain urls provider block req a w1 where "?start = (Ok (urls, provider, block, req, a), w1)"
    by (auto simp: get_take_orders_calldata_with_injector_def ok_iff)
  with preflight_bound_is_enough[OF example_client_keeps, of int_floats approved_services example_request "()" 0] run
  show ?thesis by (auto simp: example_client_def)
qed

theorem ready_calldata_was_accepted_witness:
  "\<exists>info w block. get_take_orders_calldata_with_injector int_floats approved_services example_client
     example_request () 0 = (Ok (Ready info), w) \<and>
   accepted_by_chain int_floats approved_services [''url''] example_provider block example_parsed info"
proof -
  obtain info w where run: "get_take_orders_calldata_with_injector int_floats
      approved_services example_client example_request () 0 = (Ok (Ready info), w)"
    using example_client_run by blast
  from ready_calldata_was_accepted[OF example_client_keeps run] run show ?thesis
    by (auto simp: example_client_def example_parse approved_services_def example_services_def)
qed

end
