(* ===== verification/Retry.thy ===== *)
theory Retry
  imports Prelude
begin

text \<open>
  \<open>common/src/retry.rs\<close>: the two retry loops of the browser build (\<open>target_family = "wasm"\<close>; the
  native build delegates them to the library \<open>backon\<close>). The operation is a computation on the
  world \<open>'w\<close>; waiting \<open>d\<close> milliseconds (\<open>TimeoutFuture\<close>) is the state change \<open>sleep d\<close>.

  Both loops are instances of the locale \<open>retry_loop\<close>, whose state is what one failure hands to
  the next attempt (the delay of the exponential loop, nothing for the constant one); its one
  lemma says what a whole run does in terms of the failed attempts.
\<close>

section \<open>Operations\<close>

datatype 'e retry_error = Invalid_Max_Attempts | Operation 'e

definition default_base_delay_millis :: u64 where
  "default_base_delay_millis = 500"

definition ensure_max_attempts :: "nat \<Rightarrow> (unit, 'e retry_error) result" where
  "ensure_max_attempts max_attempts =
     (if max_attempts = 0 then Err Invalid_Max_Attempts else Ok ())"

definition u32_max :: u64 where
  "u32_max = 4294967295"

definition clamp_delay :: "u64 \<Rightarrow> u32" where
  "clamp_delay ms = ucast (min ms u32_max)"

definition compute_sleep_and_next_delay_ms :: "u64 \<Rightarrow> u64 \<Rightarrow> bool \<Rightarrow> u32 \<times> u64" where
  "compute_sleep_and_next_delay_ms current_delay_ms rate_limit_delay_ms is_rate_limited =
     (let sleep_ms = (if is_rate_limited \<and> 0 < rate_limit_delay_ms
                      then rate_limit_delay_ms else current_delay_ms)
      in (clamp_delay sleep_ms, saturating_mul current_delay_ms 2))"

fun backoff_attempts ::
  "('a, 'e, 'w) io \<Rightarrow> (u32 \<Rightarrow> 'w \<Rightarrow> 'w) \<Rightarrow> nat \<Rightarrow> u64 \<Rightarrow> ('e \<Rightarrow> bool) \<Rightarrow> ('e \<Rightarrow> bool)
   \<Rightarrow> nat list \<Rightarrow> u64 \<Rightarrow> ('a, 'e retry_error, 'w) io" where
  "backoff_attempts operation sleep max_attempts rl_delay should_retry is_rate_limited [] delay_ms w
     = (Err Invalid_Max_Attempts, w)"
| "backoff_attempts operation sleep max_attempts rl_delay should_retry is_rate_limited
     (attempt # rest) delay_ms w =
     (case operation w of
        (Ok value, w1) \<Rightarrow> (Ok value, w1)
      | (Err err, w1) \<Rightarrow>
          if max_attempts \<le> attempt + 1 \<or> \<not> should_retry err then (Err (Operation err), w1)
          else
            (let (delay, next_delay_ms) =
               compute_sleep_and_next_delay_ms delay_ms rl_delay (is_rate_limited err)
             in backoff_attempts operation sleep max_attempts rl_delay should_retry is_rate_limited
                  rest next_delay_ms (sleep delay w1)))"

definition retry_with_backoff ::
  "('a, 'e, 'w) io \<Rightarrow> (u32 \<Rightarrow> 'w \<Rightarrow> 'w) \<Rightarrow> nat \<Rightarrow> u64 \<Rightarrow> u64 \<Rightarrow> ('e \<Rightarrow> bool) \<Rightarrow> ('e \<Rightarrow> bool)
   \<Rightarrow> ('a, 'e retry_error, 'w) io" where
  "retry_with_backoff operation sleep max_attempts base_delay_ms rl_delay should_retry
       is_rate_limited =
     io_bind (io_pure (ensure_max_attempts max_attempts)) (\<lambda>_.
       backoff_attempts operation sleep max_attempts rl_delay should_retry is_rate_limited
         [0..<max_attempts]
         (if 0 < base_delay_ms then base_delay_ms else default_base_delay_millis))"

fun constant_attempts ::
  "('a, 'e, 'w) io \<Rightarrow> (u32 \<Rightarrow> 'w \<Rightarrow> 'w) \<Rightarrow> nat \<Rightarrow> u64 \<Rightarrow> ('e \<Rightarrow> bool)
   \<Rightarrow> nat list \<Rightarrow> ('a, 'e retry_error, 'w) io" where
  "constant_attempts operation sleep max_attempts interval_ms should_retry [] w
     = (Err Invalid_Max_Attempts, w)"
| "constant_attempts operation sleep max_attempts interval_ms should_retry (attempt # rest) w =
     (case operation w of
        (Ok value, w1) \<Rightarrow> (Ok value, w1)
      | (Err err, w1) \<Rightarrow>
          if max_attempts \<le> attempt + 1 \<or> \<not> should_retry err then (Err (Operation err), w1)
          else constant_attempts operation sleep max_attempts interval_ms should_retry rest
                 (sleep (clamp_delay interval_ms) w1))"

definition retry_with_constant_interval ::
  "('a, 'e, 'w) io \<Rightarrow> (u32 \<Rightarrow> 'w \<Rightarrow> 'w) \<Rightarrow> nat \<Rightarrow> u64 \<Rightarrow> ('e \<Rightarrow> bool)
   \<Rightarrow> ('a, 'e retry_error, 'w) io" where
  "retry_with_constant_interval operation sleep max_attempts interval_ms should_retry =
     io_bind (io_pure (ensure_max_attempts max_attempts)) (\<lambda>_.
       constant_attempts operation sleep max_attempts interval_ms should_retry [0..<max_attempts])"

section \<open>Failed attempts\<close>

text \<open>
  \<open>failed_attempts operation sleep es w w'\<close>: from the world \<open>w\<close> the operation failed with each
  error of \<open>es\<close> in turn, each failure followed by the wait beside it, ending in \<open>w'\<close>.
\<close>

inductive failed_attempts ::
  "('a, 'e, 'w) io \<Rightarrow> (u32 \<Rightarrow> 'w \<Rightarrow> 'w) \<Rightarrow> ('e \<times> u32) list \<Rightarrow> 'w \<Rightarrow> 'w \<Rightarrow> bool"
  for operation sleep where
  no_attempt: "failed_attempts operation sleep [] w w"
| one_more: "operation w = (Err e, w1) \<Longrightarrow> failed_attempts operation sleep es (sleep d w1) w' \<Longrightarrow>
    failed_attempts operation sleep ((e, d) # es) w w'"

inductive_simps failed_attempts_Nil [simp]: "failed_attempts operation sleep [] w w'"
inductive_simps failed_attempts_Cons [simp]: "failed_attempts operation sleep (x # es) w w'"

text \<open>The waits the code computes for a list of errors, from a starting delay.\<close>

fun backoff_waits :: "u64 \<Rightarrow> ('e \<Rightarrow> bool) \<Rightarrow> u64 \<Rightarrow> 'e list \<Rightarrow> u32 list" where
  "backoff_waits rl_delay is_rate_limited delay [] = []"
| "backoff_waits rl_delay is_rate_limited delay (e # es) =
     fst (compute_sleep_and_next_delay_ms delay rl_delay (is_rate_limited e)) #
     backoff_waits rl_delay is_rate_limited
       (snd (compute_sleep_and_next_delay_ms delay rl_delay (is_rate_limited e))) es"

text \<open>
  A run of at most \<open>n\<close> attempts: failures that are worth a retry, then the attempt whose result
  is returned, a success, an error not worth a retry, or the error of the \<open>n\<close>th attempt.
\<close>

definition retry_run ::
  "('a, 'e, 'w) io \<Rightarrow> (u32 \<Rightarrow> 'w \<Rightarrow> 'w) \<Rightarrow> ('e \<Rightarrow> bool) \<Rightarrow> nat \<Rightarrow> ('e \<times> u32) list
   \<Rightarrow> 'w \<Rightarrow> ('a, 'e retry_error) result \<Rightarrow> 'w \<Rightarrow> bool" where
  "retry_run operation sleep should_retry n es w r w' \<longleftrightarrow>
     length es < n \<and> (\<forall>e\<in>set (map fst es). should_retry e) \<and>
     (\<exists>w1 last_result. failed_attempts operation sleep es w w1 \<and> operation w1 = (last_result, w') \<and>
        r = map_err Operation last_result \<and>
        (\<forall>e. last_result = Err e \<longrightarrow> Suc (length es) = n \<or> \<not> should_retry e))"

lemma retry_run_stop:
  assumes "operation w = (r, w')" "0 < n" "\<And>e. r = Err e \<Longrightarrow> n = 1 \<or> \<not> should_retry e"
  shows "retry_run operation sleep should_retry n [] w (map_err Operation r) w'"
  using assms by (auto simp: retry_run_def)

lemma retry_run_more:
  assumes "operation w = (Err e, w1)" "should_retry e"
    and "retry_run operation sleep should_retry n es (sleep d w1) r w'"
  shows "retry_run operation sleep should_retry (Suc n) ((e, d) # es) w r w'"
  using assms by (fastforce simp: retry_run_def)

section \<open>One locale for both loops\<close>

text \<open>
  The interface: a loop over the attempt numbers, and the wait and the next state that the code
  computes from a failure.
\<close>

locale retry_loop =
  fixes operation :: "('a, 'e, 'w) io"
    and sleep :: "u32 \<Rightarrow> 'w \<Rightarrow> 'w"
    and max_attempts :: nat
    and should_retry :: "'e \<Rightarrow> bool"
    and advance :: "'s \<Rightarrow> 'e \<Rightarrow> u32 \<times> 's"
    and loop :: "nat list \<Rightarrow> 's \<Rightarrow> ('a, 'e retry_error, 'w) io"
  assumes loop_Cons: "loop (i # is) s w = (case operation w of
        (Ok v, w1) \<Rightarrow> (Ok v, w1)
      | (Err e, w1) \<Rightarrow>
          if max_attempts \<le> i + 1 \<or> \<not> should_retry e then (Err (Operation e), w1)
          else loop is (snd (advance s e)) (sleep (fst (advance s e)) w1))"
begin

fun waits :: "'s \<Rightarrow> 'e list \<Rightarrow> u32 list" where
  "waits s [] = []"
| "waits s (e # es) = fst (advance s e) # waits (snd (advance s e)) es"

lemma loop_run:
  assumes "i < max_attempts" "loop [i..<max_attempts] s w = (r, w')"
  shows "\<exists>es. retry_run operation sleep should_retry (max_attempts - i) es w r w' \<and>
    map snd es = waits s (map fst es)"
  using assms
proof (induction "max_attempts - i" arbitrary: i s w)
  case 0
  then show ?case by simp
next
  case (Suc k)
  then have idx: "[i..<max_attempts] = i # [Suc i..<max_attempts]" by (simp add: upt_conv_Cons)
  obtain r1 w1 where op: "operation w = (r1, w1)" by force
  show ?case
  proof (cases "\<exists>e. r1 = Err e \<and> \<not> (max_attempts \<le> i + 1 \<or> \<not> should_retry e)")
    case False
    then have "r = map_err Operation r1 \<and> w' = w1"
      using Suc.prems(2) op unfolding idx by (cases r1) (auto simp: loop_Cons)
    moreover have "retry_run operation sleep should_retry (max_attempts - i) [] w
        (map_err Operation r1) w1"
      using op Suc.prems(1) False by (intro retry_run_stop) auto
    ultimately show ?thesis by (intro exI[of _ "[]"]) simp
  next
    case True
    then obtain e where e: "r1 = Err e" "i + 1 < max_attempts" "should_retry e" by auto
    with Suc.prems(2) op have
      "loop [Suc i..<max_attempts] (snd (advance s e)) (sleep (fst (advance s e)) w1) = (r, w')"
      unfolding idx by (simp add: loop_Cons)
    moreover have "k = max_attempts - Suc i" "Suc i < max_attempts" using Suc.hyps(2) e(2) by auto
    ultimately obtain es where es: "retry_run operation sleep should_retry (max_attempts - Suc i) es
        (sleep (fst (advance s e)) w1) r w'" "map snd es = waits (snd (advance s e)) (map fst es)"
      using Suc.hyps(1)[of "Suc i"] by blast
    have "retry_run operation sleep should_retry (Suc (max_attempts - Suc i))
        ((e, fst (advance s e)) # es) w r w'"
      using op e es(1) by (intro retry_run_more) auto
    moreover have "Suc (max_attempts - Suc i) = max_attempts - i" using e(2) by simp
    ultimately show ?thesis
      using es(2) by (intro exI[of _ "(e, fst (advance s e)) # es"]) simp
  qed
qed

end

interpretation backoff: retry_loop operation sleep max_attempts should_retry
  "\<lambda>delay e. compute_sleep_and_next_delay_ms delay rl_delay (is_rate_limited e)"
  "backoff_attempts operation sleep max_attempts rl_delay should_retry is_rate_limited"
  for operation :: "('a, 'e, 'w) io" and sleep max_attempts should_retry rl_delay is_rate_limited
  by unfold_locales (auto simp: split_beta Let_def split: result.split)

interpretation fixed_interval: retry_loop operation sleep max_attempts should_retry
  "\<lambda>u e. (clamp_delay interval_ms, ())"
  "\<lambda>is u. constant_attempts operation sleep max_attempts interval_ms should_retry is"
  for operation :: "('a, 'e, 'w) io" and sleep max_attempts should_retry interval_ms
  by unfold_locales (auto simp: split_beta split: result.split)

lemma backoff_waits_eq:
  "backoff.waits rl_delay is_rate_limited delay es = backoff_waits rl_delay is_rate_limited delay es"
  by (induction es arbitrary: delay) simp_all

lemma fixed_waits_eq:
  "fixed_interval.waits interval_ms u es = replicate (length es) (clamp_delay interval_ms)"
  by (induction es arbitrary: u) simp_all

section \<open>The exponential delays\<close>

lemma unat_clamp_delay: "unat (clamp_delay ms) = min (unat ms) (2 ^ 32 - 1)"
proof -
  have "unat (min ms u32_max) = min (unat ms) (2 ^ 32 - 1)"
    by (auto simp: min_def u32_max_def word_le_nat_alt)
  then show ?thesis
    by (simp add: clamp_delay_def unsigned_ucast_eq take_bit_nat_eq_self_iff)
qed

lemma min_double_pow:
  "min (min (2 * a) b * 2 ^ i) b = min (a * 2 ^ Suc i) (b :: nat)"
proof (cases "2 * a \<le> b")
  case True
  then show ?thesis by (simp add: min_def mult.commute mult.left_commute)
next
  case False
  have "b \<le> b * 2 ^ i" by simp
  moreover have "b \<le> a * 2 ^ Suc i"
  proof -
    have "b \<le> 2 * a * 1" using False by simp
    also have "\<dots> \<le> 2 * a * 2 ^ i" by (intro mult_le_mono2) simp
    finally show ?thesis by (simp add: mult.commute mult.left_commute)
  qed
  ultimately show ?thesis using False by simp
qed

lemma min_min_bound: "c \<le> b \<Longrightarrow> min (min x b) c = min x (c :: nat)"
  by (simp add: min_def)

lemma backoff_waits_nth:
  assumes "i < length es"
  shows "unat (backoff_waits rl_delay is_rate_limited delay es ! i) =
    (if is_rate_limited (es ! i) \<and> 0 < rl_delay then min (unat rl_delay) (2 ^ 32 - 1)
     else min (unat delay * 2 ^ i) (2 ^ 32 - 1))"
  using assms
proof (induction es arbitrary: delay i)
  case Nil
  then show ?case by simp
next
  case (Cons e es)
  show ?case
  proof (cases i)
    case 0
    then show ?thesis by (simp add: compute_sleep_and_next_delay_ms_def Let_def unat_clamp_delay)
  next
    case (Suc j)
    have dbl: "unat (saturating_mul delay 2) = min (2 * unat delay) (2 ^ 64 - 1)"
      by (simp add: unat_saturating_mul mult.commute)
    have "min (min (2 * unat delay) (2 ^ 64 - 1) * 2 ^ j) (2 ^ 32 - 1) =
        min (min (min (2 * unat delay) (2 ^ 64 - 1) * 2 ^ j) (2 ^ 64 - 1)) (2 ^ 32 - 1)"
      by (simp add: min_min_bound)
    also have "\<dots> = min (unat delay * 2 ^ Suc j) (2 ^ 32 - 1)"
      unfolding min_double_pow by (simp add: min_min_bound)
    finally show ?thesis
      using Cons Suc
      by (simp add: compute_sleep_and_next_delay_ms_def Let_def dbl)
  qed
qed

lemma retry_with_backoff_run:
  "case retry_with_backoff operation sleep max_attempts base rl_delay should_retry is_rate_limited w
   of (r, w') \<Rightarrow>
     if max_attempts = 0 then r = Err Invalid_Max_Attempts \<and> w' = w
     else \<exists>es. retry_run operation sleep should_retry max_attempts es w r w' \<and>
       map snd es = backoff_waits rl_delay is_rate_limited
         (if 0 < base then base else default_base_delay_millis) (map fst es)"
proof (cases "max_attempts = 0")
  case True
  then show ?thesis
    by (simp add: retry_with_backoff_def ensure_max_attempts_def io_defs)
next
  case False
  let ?d = "if 0 < base then base else default_base_delay_millis"
  obtain r w' where run: "backoff_attempts operation sleep max_attempts rl_delay should_retry
      is_rate_limited [0..<max_attempts] ?d w = (r, w')" by force
  from backoff.loop_run[OF _ run] False have
    "\<exists>es. retry_run operation sleep should_retry max_attempts es w r w' \<and>
       map snd es = backoff_waits rl_delay is_rate_limited ?d (map fst es)"
    by (simp add: backoff_waits_eq)
  with False run show ?thesis
    by (simp add: retry_with_backoff_def ensure_max_attempts_def io_defs)
qed

text \<open>A success is the result of some call of the operation.\<close>

lemma retry_with_backoff_Ok:
  assumes "retry_with_backoff operation sleep n base rl_delay should_retry is_rate_limited w
    = (Ok v, w')"
  shows "\<exists>w1. operation w1 = (Ok v, w')"
proof -
  have "case retry_with_backoff operation sleep n base rl_delay should_retry is_rate_limited w
    of (r, w') \<Rightarrow> if n = 0 then r = Err Invalid_Max_Attempts \<and> w' = w
     else \<exists>es. retry_run operation sleep should_retry n es w r w' \<and>
       map snd es = backoff_waits rl_delay is_rate_limited
         (if 0 < base then base else default_base_delay_millis) (map fst es)"
    by (rule retry_with_backoff_run)
  with assms obtain w1 r0 where "operation w1 = (r0, w')" "Ok v = map_err Operation r0"
    by (auto simp: retry_run_def split: if_splits)
  then show ?thesis by (cases r0) auto
qed

section \<open>Properties\<close>

text \<open>
  What a retried call does: with no attempts allowed it is an error and the operation
  is not called; otherwise the operation is called at most that many times, each failure before
  the last call is worth a retry and is followed by the wait computed for it, and the result is
  that of the last call, which succeeded, failed for good, or used up the attempts.
\<close>
lemma backoff_runs_until_settled:
  "case retry_with_backoff operation sleep max_attempts base rl_delay should_retry is_rate_limited w
   of (r, w') \<Rightarrow>
     if max_attempts = 0 then r = Err Invalid_Max_Attempts \<and> w' = w
     else \<exists>es. retry_run operation sleep should_retry max_attempts es w r w' \<and>
       map snd es = backoff_waits rl_delay is_rate_limited
         (if 0 < base then base else default_base_delay_millis) (map fst es)"
  by (rule retry_with_backoff_run)

text \<open>
  The wait after the \<open>i\<close>th failure is the rate-limit delay when the failure was rate
  limited and one is configured, and otherwise the base delay doubled \<open>i\<close> times, both cut off at
  the largest 32-bit value: the 64-bit delay saturates and never wraps to a short wait.
\<close>
lemma backoff_delay_doubles:
  assumes "i < length es"
  shows "unat (backoff_waits rl_delay is_rate_limited delay es ! i) =
    (if is_rate_limited (es ! i) \<and> 0 < rl_delay then min (unat rl_delay) (2 ^ 32 - 1)
     else min (unat delay * 2 ^ i) (2 ^ 32 - 1))"
  by (rule backoff_waits_nth[OF assms])

lemma backoff_delay_doubles_example:
  "unat (backoff_waits 7 (\<lambda>e. e = ''slow'') 500 [''a'', ''b'', ''slow'', ''c''] ! 3) = 4000 \<and>
   unat (backoff_waits 7 (\<lambda>e. e = ''slow'') 500 [''a'', ''b'', ''slow'', ''c''] ! 2) = 7"
  using backoff_delay_doubles[of 3 "[''a'', ''b'', ''slow'', ''c'']" 7 "\<lambda>e. e = ''slow''" 500]
    backoff_delay_doubles[of 2 "[''a'', ''b'', ''slow'', ''c'']" 7 "\<lambda>e. e = ''slow''" 500]
  by simp

text \<open>
  The loop with a constant interval makes the same kind of run, every wait being the
  interval, cut off at the largest 32-bit value.
\<close>
lemma constant_interval_runs_until_settled:
  "case retry_with_constant_interval operation sleep max_attempts interval should_retry w
   of (r, w') \<Rightarrow>
     if max_attempts = 0 then r = Err Invalid_Max_Attempts \<and> w' = w
     else \<exists>es. retry_run operation sleep should_retry max_attempts es w r w' \<and>
       (\<forall>x\<in>set es. unat (snd x) = min (unat interval) (2 ^ 32 - 1))"
proof (cases "max_attempts = 0")
  case True
  then show ?thesis
    by (simp add: retry_with_constant_interval_def ensure_max_attempts_def io_defs)
next
  case False
  obtain r w' where run: "constant_attempts operation sleep max_attempts interval should_retry
      [0..<max_attempts] w = (r, w')" by force
  from fixed_interval.loop_run[OF _ run] False obtain es where
    es: "retry_run operation sleep should_retry max_attempts es w r w'"
    and waits: "map snd es = replicate (length es) (clamp_delay interval)"
    by (auto simp: fixed_waits_eq)
  have "\<forall>x\<in>set es. unat (snd x) = min (unat interval) (2 ^ 32 - 1)"
  proof
    fix x
    assume "x \<in> set es"
    then have "snd x \<in> set (map snd es)" by simp
    then show "unat (snd x) = min (unat interval) (2 ^ 32 - 1)"
      unfolding waits by (auto simp: unat_clamp_delay)
  qed
  with es False run show ?thesis
    by (auto simp: retry_with_constant_interval_def ensure_max_attempts_def io_defs)
qed

end
