(* ===== verification/Local_Db_Types.thy ===== *)
theory Local_Db_Types
  imports Retry
begin

text \<open>
  The types the local database pipeline shares: its errors (\<open>local_db/mod.rs\<close>,
  \<open>local_db/query/mod.rs\<close>, \<open>rpc_client.rs\<close>, \<open>erc20.rs\<close>), the identity of a synced raindex and
  the log entry an RPC node returns. The source errors a variant wraps are \<open>ext_error\<close> when they
  belong to a library. \<open>Db_Panicked\<close> is not an error value of the code: it stands for a run that
  panics.
\<close>

section \<open>Errors\<close>

datatype rpc_client_error =
    Unsupported_Chain_Id u32
  | Url_Parse ext_error
  | Provider_Construction ext_error
  | Transport ext_error
  | Rpc_Error string
  | Rate_Limited string
  | Rpc_Missing_Field string
  | Hex_Parse_Error ext_error
  | Json_Serialization ext_error
  | Rpc_Config string
  | Invalid_Block_Range u64 u64

datatype query_error =
    Database string
  | Invalid_Response
  | Deserialization string
  | Sql_Build ext_error
  | Not_Implemented string
  | Not_A_Raindex_Db int int
  | Query_Schema_Version_Mismatch int int

datatype token_error =
    Abi_Decoded_Error_Type string ext_error
  | Abi_Decode_Error string ext_error
  | Sol_Types_Error string ext_error
  | Read_Provider_Error ext_error
  | Contract_Call_Error ext_error
  | Multicall_Error ext_error
  | Token_Invalid_Retry_Max_Attempts

datatype fetch_config_error =
    Chunk_Size_Zero u64
  | Max_Concurrent_Requests_Zero nat
  | Max_Concurrent_Blocks_Zero nat
  | Max_Retry_Attempts_Zero nat

datatype decode_error =
    Hex_Decode ext_error
  | Abi_Decode string
  | Missing_Required_Field string nat

datatype (plugins only: size) local_db_error =
    Custom_Error string
  | Settings_Yaml ext_error
  | Yaml_Scan ext_error
  | Http ext_error
  | Rpc rpc_client_error
  | Json_Parse ext_error
  | Missing_Field string
  | Missing_Local_Db_Sync_For_Network string
  | Missing_Local_Db_Remote string
  | Invalid_Block_Number string ext_error
  | Invalid_Block_Number_String string ext_error
  | Block_Hash_Not_Found u64
  | Invalid_Events_Format
  | Timeout
  | Config string
  | Missing_Runner_Target u32 address
  | Runner_Network_Chain_Id_Mismatch string u32 u32
  | Dump_Url_Construction_Failed string ext_error
  | Token_Metadata_Fetch_Failed address nat token_error
  | Table_Check_Failed query_error
  | Sync_Status_Read_Failed query_error
  | Fetch_Events_Failed local_db_error
  | Decode_Events_Failed local_db_error
  | Sql_Generation_Failed local_db_error
  | Http_Status nat
  | Manifest_Fetch ext_error
  | Task_Join ext_error
  | Query_Error query_error
  | Dump_Import_Failed query_error
  | Io_Error ext_error
  | Db_From_Hex_Error ext_error
  | Sql_Build_Error ext_error
  | Insert_Error ext_error
  | Last_Synced_Block_Overflow u64
  | Missing_Db_Metadata_Row
  | Schema_Version_Mismatch u32 u32
  | Invalid_Bootstrap_Implementation
  | Block_Sync_Threshold_Exceeded u64 u64 u64
  | Invalid_Log_Index string ext_error
  | Missing_Topics_Filter
  | Missing_Block_Filter string
  | Non_Number_Block_Number string
  | Filter_Block_Error ext_error
  | Invalid_Retry_Max_Attempts
  | Erc20_Token_Error token_error
  | Fetch_Config_Error fetch_config_error
  | Export_Error ext_error
  | Decode_Error decode_error
  | Try_From_Slice_Error ext_error
  | Db_Panicked

fun retry_error_to_local_db :: "local_db_error retry_error \<Rightarrow> local_db_error" where
  "retry_error_to_local_db Invalid_Max_Attempts = Invalid_Retry_Max_Attempts"
| "retry_error_to_local_db (Operation inner) = inner"

fun retry_error_to_token :: "token_error retry_error \<Rightarrow> token_error" where
  "retry_error_to_token Invalid_Max_Attempts = Token_Invalid_Retry_Max_Attempts"
| "retry_error_to_token (Operation inner) = inner"

fun is_import_in_progress :: "query_error \<Rightarrow> bool" where
  "is_import_in_progress (Database message) = contains message ''SQL dump import is in progress''"
| "is_import_in_progress _ = False"

definition is_worker_unavailable :: "query_error \<Rightarrow> bool" where
  "is_worker_unavailable e \<longleftrightarrow> is_import_in_progress e \<or>
     (case e of Database message \<Rightarrow>
        contains message ''Query timeout'' \<or> contains message ''Initialization pending''
      | _ \<Rightarrow> False)"

section \<open>Identities and logs\<close>

definition to_u64 :: "u256 \<Rightarrow> (u64, local_db_error) result" where
  \<comment> \<open>\<open>U256::to::<u64>()\<close>, which panics when the value does not fit\<close>
  "to_u64 x = (if unat x < 2 ^ 64 then Ok (ucast x) else Err Db_Panicked)"

record raindex_identifier =
  ri_chain_id :: u32
  ri_raindex_address :: address

record log_entry =
  le_address :: address
  le_topics :: "bytes list"
  le_data :: bytes
  le_block_number :: u256
  le_block_timestamp :: "u256 option"
  le_transaction_hash :: b256
  le_transaction_index :: string
  le_block_hash :: b256
  le_log_index :: u256
  le_removed :: bool

end
