(* ===== verification/Sql.thy ===== *)
theory Sql
  imports Prelude
begin

text \<open>
  \<open>common/src/local_db/query/sql_statement.rs\<close> and \<open>sql_statement_batch.rs\<close>: SQL statements with
  their bound values, clauses bound into a template, and batches of statements with their
  transaction wrapper. A Rust \<open>String\<close> is the list of its characters (the code points up to 255,
  of which the SQL texts use the ASCII ones).
\<close>

section \<open>Statements\<close>

datatype sql_value = Text string | I64 int | U64 u64 | Null

datatype sql_build_error = Missing_Marker string | Generic string

record sql_statement =
  sql_text :: string
  sql_params :: "sql_value list"

definition sql_new :: "string \<Rightarrow> sql_statement" where
  "sql_new text = \<lparr>sql_text = text, sql_params = []\<rparr>"

definition sql_push :: "sql_value \<Rightarrow> sql_statement \<Rightarrow> string \<times> sql_statement" where
  "sql_push v st =
     (let params = sql_params st @ [v]
      in (''?'' @ show_nat (length params), st\<lparr>sql_params := params\<rparr>))"

definition sql_new_with_params :: "string \<Rightarrow> sql_value list \<Rightarrow> sql_statement" where
  "sql_new_with_params text values = fold (\<lambda>v st. snd (sql_push v st)) values (sql_new text)"

definition sql_replace ::
  "string \<Rightarrow> string \<Rightarrow> sql_statement \<Rightarrow> (sql_statement, sql_build_error) result" where
  "sql_replace marker text st =
     (if \<not> contains (sql_text st) marker then Err (Missing_Marker marker)
      else Ok (st\<lparr>sql_text := replace_all marker text (sql_text st)\<rparr>))"

definition bind_param_clause ::
  "string \<Rightarrow> string \<Rightarrow> sql_value option \<Rightarrow> sql_statement
   \<Rightarrow> (sql_statement, sql_build_error) result" where
  "bind_param_clause clause_marker clause_body v st =
     (if \<not> contains (sql_text st) clause_marker then Err (Missing_Marker clause_marker)
      else if \<not> contains clause_body ''{param}'' then Err (Missing_Marker ''{param}'')
      else case v of
        Some x \<Rightarrow>
          (let (ph, st1) = sql_push x st; body = replace_all ''{param}'' ph clause_body
           in Ok (st1\<lparr>sql_text := replace_all clause_marker body (sql_text st1)\<rparr>))
      | None \<Rightarrow> Ok (st\<lparr>sql_text := replace_all clause_marker [] (sql_text st)\<rparr>))"

fun push_list :: "sql_value list \<Rightarrow> bool \<Rightarrow> string \<Rightarrow> sql_statement \<Rightarrow> string \<times> sql_statement" where
  \<comment> \<open>the loop of \<open>bind_list_clause\<close>: \<open>first\<close> and the placeholder list so far\<close>
  "push_list [] is_first acc st = (acc, st)"
| "push_list (v # vs) is_first acc st =
     (let (ph, st1) = sql_push v st
      in push_list vs False (acc @ (if is_first then [] else '', '') @ ph) st1)"

definition bind_list_clause ::
  "string \<Rightarrow> string \<Rightarrow> sql_value list \<Rightarrow> sql_statement
   \<Rightarrow> (sql_statement, sql_build_error) result" where
  "bind_list_clause clause_marker clause_body values st =
     (if \<not> contains (sql_text st) clause_marker then Err (Missing_Marker clause_marker)
      else
        let (placeholders, st1) = push_list values True [] st in
        if values = [] then Ok (st1\<lparr>sql_text := replace_all clause_marker [] (sql_text st1)\<rparr>)
        else if \<not> contains clause_body ''{list}'' then Err (Missing_Marker ''{list}'')
        else Ok (st1\<lparr>sql_text := replace_all clause_marker
               (replace_all ''{list}'' placeholders clause_body) (sql_text st1)\<rparr>))"

section \<open>Batches\<close>

record sql_batch =
  batch_statements :: "sql_statement list"

definition batch_new :: sql_batch where
  "batch_new = \<lparr>batch_statements = []\<rparr>"

definition batch_add :: "sql_statement \<Rightarrow> sql_batch \<Rightarrow> sql_batch" where
  "batch_add st b = b\<lparr>batch_statements := batch_statements b @ [st]\<rparr>"

definition batch_extend :: "sql_batch \<Rightarrow> sql_batch \<Rightarrow> sql_batch" where
  "batch_extend other b = b\<lparr>batch_statements := batch_statements b @ batch_statements other\<rparr>"

definition normalized :: "string \<Rightarrow> string" where
  "normalized sql =
     (let trimmed = trim sql in
      if trimmed \<noteq> [] \<and> last trimmed = CHR '';'' then trim_end (butlast trimmed) else trimmed)"

definition is_begin :: "string \<Rightarrow> bool" where
  "is_begin sql \<longleftrightarrow> eq_ignore_ascii_case (normalized sql) ''BEGIN TRANSACTION'' \<or>
     eq_ignore_ascii_case (normalized sql) ''BEGIN''"

definition is_commit :: "string \<Rightarrow> bool" where
  "is_commit sql \<longleftrightarrow> eq_ignore_ascii_case (normalized sql) ''COMMIT''"

definition is_transaction :: "sql_batch \<Rightarrow> bool" where
  "is_transaction b \<longleftrightarrow> batch_statements b \<noteq> [] \<and>
     is_begin (sql_text (hd (batch_statements b))) \<and>
     is_commit (sql_text (last (batch_statements b)))"

definition wrap_with_transaction :: "sql_batch \<Rightarrow> sql_batch" where
  "wrap_with_transaction b = b\<lparr>batch_statements :=
     sql_new ''BEGIN TRANSACTION'' # batch_statements b @ [sql_new ''COMMIT'']\<rparr>"

definition ensure_transaction :: "sql_batch \<Rightarrow> sql_batch" where
  "ensure_transaction b =
     (if batch_statements b \<noteq> [] \<and>
         (is_begin (sql_text (hd (batch_statements b))) \<or>
          is_commit (sql_text (last (batch_statements b))))
      then b else wrap_with_transaction b)"

definition inner_statements :: "sql_batch \<Rightarrow> sql_statement list" where
  "inner_statements b =
     (if is_transaction b then butlast (tl (batch_statements b)) else batch_statements b)"

section \<open>Placeholders\<close>

lemma sql_push_params [simp]: "sql_params (snd (sql_push v st)) = sql_params st @ [v]"
  by (simp add: sql_push_def Let_def)

lemma sql_push_text [simp]: "sql_text (snd (sql_push v st)) = sql_text st"
  by (simp add: sql_push_def Let_def)

lemma sql_new_with_params: "sql_new_with_params t vs = \<lparr>sql_text = t, sql_params = vs\<rparr>"
proof -
  have "fold (\<lambda>v st. snd (sql_push v st)) vs st = st\<lparr>sql_params := sql_params st @ vs\<rparr>" for st
    by (induction vs arbitrary: st) (simp_all add: sql_push_def Let_def)
  then show ?thesis by (simp add: sql_new_with_params_def sql_new_def)
qed

text \<open>The placeholders \<open>?n+1, ..., ?n+k\<close>, separated by commas.\<close>

definition placeholder_list :: "nat \<Rightarrow> nat \<Rightarrow> string" where
  "placeholder_list n k = (if k = 0 then [] else
     ''?'' @ show_nat (Suc n) @ concat (map (\<lambda>i. '', ?'' @ show_nat (Suc (n + i))) [1..<k]))"

lemma push_list_more:
  "push_list vs False acc st =
   (acc @ concat (map (\<lambda>i. '', ?'' @ show_nat (Suc (length (sql_params st) + i))) [0..<length vs]),
    st\<lparr>sql_params := sql_params st @ vs\<rparr>)"
proof (induction vs arbitrary: acc st)
  case Nil
  then show ?case by simp
next
  case (Cons v vs)
  have "map (\<lambda>i. '', ?'' @ show_nat (Suc (n + i))) [0..<Suc k] =
      ('', ?'' @ show_nat (Suc n)) # map (\<lambda>i. '', ?'' @ show_nat (Suc (Suc n + i))) [0..<k]" for n k
    by (simp add: upt_conv_Cons map_Suc_upt[symmetric] del: upt_Suc)
  then show ?case by (simp add: Cons.IH sql_push_def Let_def del: upt_Suc)
qed

lemma push_list_spec:
  "push_list vs True [] st =
   (placeholder_list (length (sql_params st)) (length vs), st\<lparr>sql_params := sql_params st @ vs\<rparr>)"
proof (cases vs)
  case Nil
  then show ?thesis by (simp add: placeholder_list_def)
next
  case (Cons v vs')
  have "map (\<lambda>i. '', ?'' @ show_nat (Suc (n + i))) [1..<Suc k] =
      map (\<lambda>i. '', ?'' @ show_nat (Suc (Suc n + i))) [0..<k]" for n k
    by (simp add: map_Suc_upt[symmetric] del: upt_Suc)
  with Cons show ?thesis
    by (simp add: sql_push_def Let_def push_list_more placeholder_list_def del: upt_Suc)
qed

section \<open>Properties\<close>

text \<open>
  A list clause is bound to its values: when it succeeds, the values are appended to
  the statement's parameters in order and the marker is replaced by the clause with exactly the
  placeholders that number those parameters, or by nothing when there are no values.
\<close>
lemma list_clause_binds_its_values:
  assumes "bind_list_clause marker body values st = Ok st'"
  shows "sql_params st' = sql_params st @ values \<and>
    (\<forall>i<length values. sql_params st' ! (length (sql_params st) + i) = values ! i) \<and>
    sql_text st' = replace_all marker
      (if values = [] then []
       else replace_all ''{list}''
         (placeholder_list (length (sql_params st)) (length values)) body) (sql_text st)"
  using assms by (auto simp: bind_list_clause_def push_list_spec Let_def split: if_splits)

lemma list_clause_binds_its_values_example:
  "\<exists>st. bind_list_clause ''#A#'' '' AND a IN ({list})'' [U64 5, Text ''x'']
     \<lparr>sql_text = ''SELECT 1#A#'', sql_params = [Null]\<rparr> = Ok st \<and> sql_params st ! 2 = Text ''x''"
proof -
  have "\<exists>st. bind_list_clause ''#A#'' '' AND a IN ({list})'' [U64 5, Text ''x'']
     \<lparr>sql_text = ''SELECT 1#A#'', sql_params = [Null]\<rparr> = Ok st"
    by (simp add: bind_list_clause_def Let_def split_beta)
  then obtain st where run: "bind_list_clause ''#A#'' '' AND a IN ({list})'' [U64 5, Text ''x'']
     \<lparr>sql_text = ''SELECT 1#A#'', sql_params = [Null]\<rparr> = Ok st" by blast
  from list_clause_binds_its_values[OF run] run show ?thesis by (simp add: numeral_2_eq_2)
qed

lemma wrap_is_transaction: "is_transaction (wrap_with_transaction b)"
  by (simp add: is_transaction_def wrap_with_transaction_def sql_new_def is_begin_def is_commit_def
      normalized_def trim_def trim_start_def trim_end_def is_whitespace_def eq_ignore_ascii_case_def)

lemma inner_wrap: "inner_statements (wrap_with_transaction b) = batch_statements b"
  using wrap_is_transaction[of b] by (simp add: inner_statements_def wrap_with_transaction_def)

definition half_wrapped :: "sql_batch \<Rightarrow> bool" where
  "half_wrapped b \<longleftrightarrow> batch_statements b \<noteq> [] \<and>
     is_begin (sql_text (hd (batch_statements b))) \<noteq> is_commit (sql_text (last (batch_statements b)))"

text \<open>
  A batch made ready for execution is a transaction around the same statements, once
  however often it is made ready; only a batch with one end of a wrapper and not the other is
  left as it is, and then it is no transaction.
\<close>
lemma ensure_transaction_wraps_once:
  "is_transaction (ensure_transaction b) = (\<not> half_wrapped b) \<and>
   inner_statements (ensure_transaction b) = inner_statements b \<and>
   ensure_transaction (ensure_transaction b) = ensure_transaction b"
proof (cases "batch_statements b \<noteq> [] \<and> (is_begin (sql_text (hd (batch_statements b))) \<or>
    is_commit (sql_text (last (batch_statements b))))")
  case True
  then show ?thesis by (auto simp: ensure_transaction_def is_transaction_def half_wrapped_def)
next
  case False
  then have w: "ensure_transaction b = wrap_with_transaction b" by (auto simp: ensure_transaction_def)
  have "\<not> half_wrapped b" "\<not> is_transaction b"
    using False by (auto simp: half_wrapped_def is_transaction_def)
  moreover have "ensure_transaction (wrap_with_transaction b) = wrap_with_transaction b"
    using wrap_is_transaction[of b] by (auto simp: ensure_transaction_def is_transaction_def)
  ultimately show ?thesis
    unfolding w using inner_wrap[of b] wrap_is_transaction[of b] by (simp add: inner_statements_def)
qed

end
