(* ===== verification/Local_Db.thy ===== *)
theory Local_Db
  imports Local_Db_Types Sql
begin

text \<open>
  The interface of the embedded database (\<open>local_db/query/executor.rs\<close>, the trait
  \<open>LocalDbQueryExecutor\<close>): batches, single statements and the typed queries the pipeline makes.
  SQLite itself is outside the repository: every field is an operation on the world \<open>'w\<close>. A
  typed query (\<open>query_json_retryable\<close> of one prepared statement) is one field per statement.
\<close>

record watermark_row =
  tw_chain_id :: u32
  tw_raindex_address :: address
  tw_last_block :: u64
  tw_last_hash :: bytes
  tw_updated_at :: u64

record erc20_token_row =
  tk_chain_id :: u32
  tk_raindex_address :: address
  tk_token_address :: address
  tk_name :: string
  tk_symbol :: string
  tk_decimals :: u8

record 'w db_ops =
  db_execute_batch :: "sql_batch \<Rightarrow> (unit, query_error, 'w) io"
  db_query_text :: "sql_statement \<Rightarrow> (string, query_error, 'w) io"
  db_execute_sql_dump :: "string \<Rightarrow> (unit, query_error, 'w) io"
  db_wipe_and_recreate :: "(unit, query_error, 'w) io"
  db_watermark :: "raindex_identifier \<Rightarrow> (watermark_row list, query_error, 'w) io"
  db_store_addresses :: "raindex_identifier \<Rightarrow> (address list, query_error, 'w) io"
  db_tables :: "(string list, query_error, 'w) io"
  db_table_columns :: "string \<Rightarrow> (string list, query_error, 'w) io"
  db_metadata_versions :: "(u32 list, query_error, 'w) io"
  db_quick_check :: "(string list, query_error, 'w) io"
  db_cache_size_query :: "(unit, query_error, 'w) io"

definition example_watermark :: "raindex_identifier \<Rightarrow> u64 \<Rightarrow> watermark_row" where
  "example_watermark i n = \<lparr>tw_chain_id = ri_chain_id i, tw_raindex_address = ri_raindex_address i,
     tw_last_block = n, tw_last_hash = [], tw_updated_at = 0\<rparr>"

lemma example_watermark_block [simp]: "tw_last_block (example_watermark i n) = n"
  by (simp add: example_watermark_def)

text \<open>\<open>?\<close> on a database call in a function that returns \<open>LocalDbError\<close>.\<close>

abbreviation dbq :: "('a, query_error, 'w) io \<Rightarrow> ('a, local_db_error, 'w) io" where
  "dbq \<equiv> io_map_err Query_Error"

end
