(* ===== verification/Fetch.thy ===== *)
theory Fetch
  imports Local_Db_Types "HOL-Library.Product_Lexorder"
begin

text \<open>
  \<open>common/src/local_db/fetch.rs\<close>: the logs of a block range are fetched in chunks, retried, put in
  order and completed with the timestamps of their blocks.

  The RPC node is the record \<open>rpc_ops\<close>. Requests that the code runs concurrently are run one
  after another here, in the order \<open>rpc_order\<close> or \<open>rpc_block_order\<close> gives them, which stands for
  the order of completion of \<open>buffer_unordered\<close> and for the iteration order of the hash set of
  blocks; the properties hold for any such order.
\<close>

section \<open>Configuration\<close>

record fetch_config =
  fc_chunk_size :: u64
  fc_max_concurrent_requests :: nat
  fc_max_concurrent_blocks :: nat
  fc_max_retry_attempts :: nat
  fc_retry_delay_ms :: u64
  fc_rate_limit_delay_ms :: u64

definition fetch_config_new ::
  "u64 \<Rightarrow> nat \<Rightarrow> nat \<Rightarrow> nat \<Rightarrow> u64 \<Rightarrow> u64 \<Rightarrow> (fetch_config, fetch_config_error) result" where
  "fetch_config_new chunk_size max_concurrent_requests max_concurrent_blocks max_retry_attempts
       retry_delay_ms rate_limit_delay_ms =
     (if chunk_size = 0 then Err (Chunk_Size_Zero chunk_size)
      else if max_concurrent_requests = 0
      then Err (Max_Concurrent_Requests_Zero max_concurrent_requests)
      else if max_concurrent_blocks = 0
      then Err (Max_Concurrent_Blocks_Zero max_concurrent_blocks)
      else if max_retry_attempts = 0 then Err (Max_Retry_Attempts_Zero max_retry_attempts)
      else Ok \<lparr>fc_chunk_size = chunk_size,
               fc_max_concurrent_requests = max_concurrent_requests,
               fc_max_concurrent_blocks = max_concurrent_blocks,
               fc_max_retry_attempts = max_retry_attempts,
               fc_retry_delay_ms = retry_delay_ms,
               fc_rate_limit_delay_ms = rate_limit_delay_ms\<rparr>)"

definition default_fetch_config :: fetch_config where
  "default_fetch_config = \<lparr>fc_chunk_size = 5000, fc_max_concurrent_requests = 10,
     fc_max_concurrent_blocks = 14, fc_max_retry_attempts = 3, fc_retry_delay_ms = 500,
     fc_rate_limit_delay_ms = 0\<rparr>"

section \<open>The node\<close>

datatype block_bound = Bound_Number u64 | Bound_Tag string

fun as_number :: "block_bound \<Rightarrow> u64 option" where
  "as_number (Bound_Number n) = Some n"
| "as_number (Bound_Tag t) = None"

record log_filter =
  lf_addresses :: "address list"
  lf_from :: "block_bound option"
  lf_to :: "block_bound option"
  lf_topics :: "b256 list list"

record block_data =
  bd_timestamp :: u256
  bd_hash :: b256

record 'w rpc_ops =
  rpc_get_logs :: "log_filter \<Rightarrow> (log_entry list, rpc_client_error, 'w) io"
  rpc_get_block_by_number :: "u64 \<Rightarrow> (block_data option, rpc_client_error, 'w) io"
  rpc_latest_block_number :: "(u64, rpc_client_error, 'w) io"
  rpc_sleep :: "u32 \<Rightarrow> 'w \<Rightarrow> 'w"
  rpc_valid_block_range :: "log_filter \<Rightarrow> (unit, ext_error) result"
  rpc_order :: "log_filter list \<Rightarrow> log_filter list"
  rpc_block_order :: "u64 list \<Rightarrow> u64 list"
  rpc_raindex_topics :: "b256 list"
  rpc_store_topics :: "b256 list"

section \<open>Errors and retries\<close>

fun map_rpc_error :: "rpc_client_error \<Rightarrow> local_db_error" where
  "map_rpc_error (Json_Serialization err) = Json_Parse err"
| "map_rpc_error other = Rpc other"

definition should_retry_local_db_error :: "local_db_error \<Rightarrow> bool" where
  "should_retry_local_db_error e = (case e of Rpc _ \<Rightarrow> True | _ \<Rightarrow> False)"

definition is_rate_limited_local_db_error :: "local_db_error \<Rightarrow> bool" where
  "is_rate_limited_local_db_error e = (case e of Rpc (Rate_Limited _) \<Rightarrow> True | _ \<Rightarrow> False)"

definition retried ::
  "'w rpc_ops \<Rightarrow> fetch_config \<Rightarrow> ('a, rpc_client_error, 'w) io \<Rightarrow> ('a, local_db_error, 'w) io" where
  "retried rpc config request =
     io_map_err retry_error_to_local_db
       (retry_with_backoff (io_map_err map_rpc_error request) (rpc_sleep rpc)
          (fc_max_retry_attempts config) (fc_retry_delay_ms config)
          (fc_rate_limit_delay_ms config) should_retry_local_db_error
          is_rate_limited_local_db_error)"

section \<open>Chunks\<close>

definition chunk_filter :: "address \<Rightarrow> u64 \<Rightarrow> u64 \<Rightarrow> b256 list \<Rightarrow> log_filter" where
  "chunk_filter address from_block to_block topics = \<lparr>lf_addresses = [address],
     lf_from = Some (Bound_Number from_block), lf_to = Some (Bound_Number to_block),
     lf_topics = [topics]\<rparr>"

function chunk_filters ::
  "log_filter \<Rightarrow> address \<Rightarrow> u64 \<Rightarrow> u64 \<Rightarrow> u64 \<Rightarrow> (log_filter list, local_db_error) result" where
  "chunk_filters whole address chunk_span to_block current_block =
     (if current_block \<le> to_block then
        let chunk_end = min (saturating_add current_block chunk_span) to_block in
        rbind (ok_or (case lf_topics whole of [] \<Rightarrow> None | t # ts \<Rightarrow> Some t) Missing_Topics_Filter)
          (\<lambda>topics.
        let f = chunk_filter address current_block chunk_end topics in
        if chunk_end = to_block \<or> chunk_end = -1 then Ok [f]
        else rbind (chunk_filters whole address chunk_span to_block (saturating_add chunk_end 1))
               (\<lambda>rest. Ok (f # rest)))
      else Ok [])"
  by pat_completeness auto

lemma unat_le_max: "unat (a :: 'n::len word) \<le> 2 ^ LENGTH('n) - 1"
proof -
  have "unat a < 2 ^ LENGTH('n)" by (rule unsigned_less)
  then show ?thesis by linarith
qed

lemma saturating_add_ge: "a \<le> saturating_add a (b :: 'n::len word)"
  using unat_le_max[of a] by (simp add: word_le_nat_alt unat_saturating_add)

lemma unat_saturating_Suc:
  assumes "a \<noteq> -1"
  shows "unat (saturating_add a 1) = Suc (unat (a :: u64))"
proof -
  have "unat a \<noteq> unat (-1 :: u64)" using assms by (metis word_unat_eq_iff)
  then have "unat a \<noteq> 2 ^ 64 - 1" by (simp add: unat_minus_one_exp)
  with unat_le_max[of a] show ?thesis by (simp add: unat_saturating_add)
qed

lemma chunk_end_ge: "c \<le> t \<Longrightarrow> c \<le> min (saturating_add c s) (t :: u64)"
  by (simp add: saturating_add_ge)

termination chunk_filters
proof (relation "measure (\<lambda>(f, a, s, t, c). Suc (unat t) - unat c)", goal_cases)
  case (2 whole address chunk_span to_block current_block x xa xb)
  with chunk_end_ge[of current_block to_block chunk_span] show ?case
    by (auto simp: unat_saturating_Suc word_le_nat_alt)
qed simp

declare chunk_filters.simps [simp del]

definition filter_bound :: "block_bound option \<Rightarrow> string \<Rightarrow> (u64, local_db_error) result" where
  "filter_bound b side =
     rbind (ok_or b (Missing_Block_Filter side)) (\<lambda>n.
       ok_or (as_number n) (Non_Number_Block_Number side))"

definition build_log_filters ::
  "log_filter \<Rightarrow> fetch_config \<Rightarrow> (log_filter list, local_db_error) result" where
  "build_log_filters whole config =
     (let chunk_size = max (fc_chunk_size config) 1; chunk_span = saturating_sub chunk_size 1 in
      rbind (filter_bound (lf_from whole) ''from'') (\<lambda>from_block.
      rbind (filter_bound (lf_to whole) ''to'') (\<lambda>to_block.
      rbind (rmap (\<lambda>address. chunk_filters whole address chunk_span to_block from_block)
               (lf_addresses whole)) (\<lambda>chunks.
      Ok (concat chunks)))))"

section \<open>Logs and timestamps\<close>

definition fetch_logs_for_filters ::
  "'w rpc_ops \<Rightarrow> log_filter list \<Rightarrow> fetch_config \<Rightarrow> (log_entry list, local_db_error, 'w) io" where
  "fetch_logs_for_filters rpc filters config =
     (if filters = [] then io_return []
      else io_bind (io_mapM (\<lambda>f. retried rpc config (rpc_get_logs rpc f)) (rpc_order rpc filters))
             (\<lambda>results. io_return (concat results)))"

definition log_position :: "log_entry \<Rightarrow> (u64 \<times> u64, local_db_error) result" where
  "log_position e =
     rbind (to_u64 (le_block_number e)) (\<lambda>b. rbind (to_u64 (le_log_index e)) (\<lambda>l. Ok (b, l)))"

text \<open>
  The comparator converts the positions of both entries, so the sort panics exactly when there
  are two entries to compare and one of them does not convert.
\<close>

definition sort_events_by_block_and_log ::
  "log_entry list \<Rightarrow> (log_entry list, local_db_error) result" where
  "sort_events_by_block_and_log events =
     (if 2 \<le> length events \<and> (\<exists>e\<in>set events. \<not> is_ok (log_position e)) then Err Db_Panicked
      else Ok (sort_key (\<lambda>e. unwrap_or (log_position e) (0, 0)) events))"

definition fetch_block_timestamp ::
  "'w rpc_ops \<Rightarrow> fetch_config \<Rightarrow> u64 \<Rightarrow> (u64 \<times> u256, local_db_error, 'w) io" where
  "fetch_block_timestamp rpc config block_number =
     io_bind (retried rpc config (rpc_get_block_by_number rpc block_number)) (\<lambda>block_response.
     io_bind (io_pure (ok_or block_response (Missing_Field ''result''))) (\<lambda>block_data.
     io_return (block_number, bd_timestamp block_data)))"

definition fetch_block_timestamps ::
  "'w rpc_ops \<Rightarrow> u64 list \<Rightarrow> fetch_config \<Rightarrow> (u64 \<Rightarrow> u256 option, local_db_error, 'w) io" where
  "fetch_block_timestamps rpc block_numbers config w =
     (if block_numbers = [] then (Ok Map.empty, w)
      else case io_map_all (fetch_block_timestamp rpc config) (rpc_block_order rpc block_numbers) w of
        (results, w1) \<Rightarrow> (rbind (rmap (\<lambda>r. r) results) (\<lambda>pairs. Ok (map_of pairs)), w1))"

fun missing_timestamp_blocks :: "log_entry list \<Rightarrow> (u64 list, local_db_error) result" where
  \<comment> \<open>the hash set of blocks, as the list of its elements\<close>
  "missing_timestamp_blocks [] = Ok []"
| "missing_timestamp_blocks (e # es) =
     (if le_block_timestamp e \<noteq> None then missing_timestamp_blocks es
      else rbind (to_u64 (le_block_number e)) (\<lambda>b.
           rbind (missing_timestamp_blocks es) (\<lambda>bs. Ok (List.insert b bs))))"

definition backfill_event ::
  "(u64 \<Rightarrow> u256 option) \<Rightarrow> log_entry \<Rightarrow> (log_entry, local_db_error) result" where
  "backfill_event timestamps e =
     (if le_block_timestamp e \<noteq> None then Ok e
      else rbind (to_u64 (le_block_number e)) (\<lambda>b.
        case timestamps b of
          Some t \<Rightarrow> Ok (e\<lparr>le_block_timestamp := Some t\<rparr>)
        | None \<Rightarrow> Ok e))"

definition backfill_missing_timestamps ::
  "'w rpc_ops \<Rightarrow> log_entry list \<Rightarrow> fetch_config \<Rightarrow> (log_entry list, local_db_error, 'w) io" where
  \<comment> \<open>the slice the code mutates is returned\<close>
  "backfill_missing_timestamps rpc events config =
     io_bind (io_pure (missing_timestamp_blocks events)) (\<lambda>missing_blocks.
     if missing_blocks = [] then io_return events
     else io_bind (fetch_block_timestamps rpc missing_blocks config) (\<lambda>timestamps.
       io_pure (rmap (backfill_event timestamps) events)))"

definition collect_logs ::
  "'w rpc_ops \<Rightarrow> log_filter \<Rightarrow> fetch_config \<Rightarrow> (log_entry list, local_db_error, 'w) io" where
  "collect_logs rpc whole config =
     io_bind (io_pure (map_err Filter_Block_Error (rpc_valid_block_range rpc whole))) (\<lambda>_.
     if lf_addresses whole = [] then io_return []
     else io_bind (io_pure (build_log_filters whole config)) (\<lambda>filters.
       if filters = [] then io_return []
       else
         io_bind (fetch_logs_for_filters rpc filters config) (\<lambda>fetched.
         io_bind (io_pure (sort_events_by_block_and_log fetched)) (\<lambda>events.
         backfill_missing_timestamps rpc events config))))"

definition range_filter :: "address list \<Rightarrow> u64 \<Rightarrow> u64 \<Rightarrow> b256 list \<Rightarrow> log_filter" where
  "range_filter addresses from_block to_block signatures = \<lparr>lf_addresses = addresses,
     lf_from = Some (Bound_Number from_block), lf_to = Some (Bound_Number to_block),
     lf_topics = [signatures, [], [], []]\<rparr>"

definition fetch_raindex_events ::
  "'w rpc_ops \<Rightarrow> address \<Rightarrow> u64 \<Rightarrow> u64 \<Rightarrow> fetch_config \<Rightarrow> (log_entry list, local_db_error, 'w) io"
where
  "fetch_raindex_events rpc address from_block to_block config =
     collect_logs rpc (range_filter [address] from_block to_block (rpc_raindex_topics rpc)) config"

definition fetch_store_events ::
  "'w rpc_ops \<Rightarrow> address list \<Rightarrow> u64 \<Rightarrow> u64 \<Rightarrow> fetch_config
   \<Rightarrow> (log_entry list, local_db_error, 'w) io" where
  "fetch_store_events rpc addresses from_block to_block config =
     collect_logs rpc (range_filter (remdups addresses) from_block to_block (rpc_store_topics rpc))
       config"

section \<open>The chunks partition the range\<close>

definition filter_range :: "log_filter \<Rightarrow> nat list" where
  "filter_range f = (case (lf_from f, lf_to f) of
     (Some (Bound_Number a), Some (Bound_Number b)) \<Rightarrow> [unat a..<Suc (unat b)]
   | _ \<Rightarrow> [])"

lemma filter_range_chunk [simp]:
  "filter_range (chunk_filter a b c t) = [unat b..<Suc (unat c)]"
  by (simp add: filter_range_def chunk_filter_def)

lemma distinct_filter_range: "distinct (filter_range f)"
  by (auto simp: filter_range_def split: option.splits block_bound.splits)

lemma upt_join: "a \<le> b \<Longrightarrow> b \<le> c \<Longrightarrow> [a..<b] @ [b..<c] = [a..<c]"
  using upt_add_eq_append[of a b "c - b"] by simp

definition chunks_ok :: "address \<Rightarrow> b256 list \<Rightarrow> u64 \<Rightarrow> u64 \<Rightarrow> u64 \<Rightarrow> log_filter list \<Rightarrow> bool" where
  "chunks_ok address t s to_block c fs \<longleftrightarrow>
     concat (map filter_range fs) = [unat c..<Suc (unat to_block)] \<and>
     (\<forall>f\<in>set fs. lf_addresses f = [address] \<and> lf_topics f = [t] \<and>
        length (filter_range f) \<le> Suc (unat s))"

lemma unat_chunk_end:
  "unat (min (saturating_add c s) (t :: u64)) = min (min (unat c + unat s) (2 ^ 64 - 1)) (unat t)"
  by (simp add: min_def word_le_nat_alt unat_saturating_add)

lemma chunk_filters_ok:
  assumes "lf_topics whole = t # ts"
  shows "\<exists>fs. chunk_filters whole address s to_block c = Ok fs \<and>
    chunks_ok address t s to_block c fs"
  using assms
proof (induction whole address s to_block c rule: chunk_filters.induct)
  case (1 whole address s to_block c)
  let ?e = "min (saturating_add c s) to_block"
  let ?f = "chunk_filter address c ?e t"
  show ?case
  proof (cases "c \<le> to_block")
    case False
    then have "unat to_block < unat c" by (simp add: word_le_nat_alt)
    with False show ?thesis by (simp add: chunk_filters.simps chunks_ok_def)
  next
    case le: True
    have ce: "unat c \<le> unat ?e" "unat ?e \<le> unat to_block"
      using chunk_end_ge[OF le, of s] by (simp_all add: word_le_nat_alt[symmetric])
    have len: "Suc (unat ?e) - unat c \<le> Suc (unat s)" unfolding unat_chunk_end by linarith
    show ?thesis
    proof (cases "?e = to_block \<or> ?e = -1")
      case True
      have last: "unat ?e = unat to_block"
      proof (cases "?e = to_block")
        case False
        with True have "?e = -1" by simp
        with ce(2) unat_le_max[of to_block] show ?thesis by (simp add: unat_minus_one_exp)
      qed simp
      have "chunk_filters whole address s to_block c = Ok [?f]"
        using le True 1(2) by (simp add: chunk_filters.simps Let_def)
      moreover have "chunks_ok address t s to_block c [?f]"
        using len last by (auto simp: chunks_ok_def chunk_filter_def filter_range_def)
      ultimately show ?thesis by blast
    next
      case False
      have top: "ok_or (case lf_topics whole of [] \<Rightarrow> None | t # ts \<Rightarrow> Some t) Missing_Topics_Filter
          = Ok t" using 1(2) by simp
      from 1(1)[OF le refl top refl False 1(2)] obtain fs where
        fs: "chunk_filters whole address s to_block (saturating_add ?e 1) = Ok fs"
          "chunks_ok address t s to_block (saturating_add ?e 1) fs" by blast
      have next_start: "unat (saturating_add ?e 1) = Suc (unat ?e)"
        using False by (intro unat_saturating_Suc) simp
      have "chunk_filters whole address s to_block c = Ok (?f # fs)"
        using le False fs(1) top
        by (subst chunk_filters.simps) (simp add: Let_def)
      moreover have "chunks_ok address t s to_block c (?f # fs)"
        using fs(2) len ce upt_join[of "unat c" "Suc (unat ?e)" "Suc (unat to_block)"]
        unfolding chunks_ok_def next_start by (auto simp: chunk_filter_def filter_range_def)
      ultimately show ?thesis by blast
    qed
  qed
qed

lemma rmap_all_Ok:
  assumes "\<And>x. x \<in> set xs \<Longrightarrow> \<exists>y. f x = Ok y \<and> P x y"
  shows "\<exists>ys. rmap f xs = Ok ys \<and> list_all2 P xs ys"
  using assms by (induction xs) fastforce+

lemma chunk_span_Suc: "Suc (unat (saturating_sub (max n 1) (1 :: u64))) = max 1 (unat n)"
  by (auto simp: unat_saturating_sub max_def word_le_nat_alt)

lemma build_log_filters_chunks:
  assumes "lf_from whole = Some (Bound_Number a)" "lf_to whole = Some (Bound_Number b)"
    "lf_topics whole = t # ts"
  shows "\<exists>css. build_log_filters whole config = Ok (concat css) \<and>
    list_all2 (\<lambda>address. chunks_ok address t (saturating_sub (max (fc_chunk_size config) 1) 1) b a)
      (lf_addresses whole) css"
proof -
  let ?s = "saturating_sub (max (fc_chunk_size config) 1) 1"
  from rmap_all_Ok[of "lf_addresses whole" "\<lambda>address. chunk_filters whole address ?s b a"
      "\<lambda>address. chunks_ok address t ?s b a"] chunk_filters_ok[OF assms(3)]
  obtain css where "rmap (\<lambda>address. chunk_filters whole address ?s b a) (lf_addresses whole) = Ok css"
    "list_all2 (\<lambda>address. chunks_ok address t ?s b a) (lf_addresses whole) css" by blast
  with assms show ?thesis by (auto simp: build_log_filters_def filter_bound_def Let_def)
qed

lemma chunk_facts:
  assumes "list_all2 (\<lambda>address. chunks_ok address t s b a) addresses css" "f \<in> set (concat css)"
  shows "(\<exists>address\<in>set addresses. lf_addresses f = [address]) \<and> lf_topics f = [t] \<and>
    length (filter_range f) \<le> Suc (unat s)"
  using assms by (induction addresses css rule: list_all2_induct) (auto simp: chunks_ok_def)

text \<open>Among the chunks of several addresses, those of one address.\<close>

lemma filter_address_chunks:
  assumes "list_all2 (\<lambda>address. chunks_ok address t s b a) addresses css" "distinct addresses"
    and "address \<in> set addresses"
  shows "concat (map filter_range (filter (\<lambda>f. lf_addresses f = [address]) (concat css))) =
    [unat a..<Suc (unat b)]"
  using assms
proof (induction addresses css rule: list_all2_induct)
  case Nil
  then show ?case by simp
next
  case (Cons x xs fs css)
  have others: "filter (\<lambda>f. lf_addresses f = [x]) (concat css) = []"
    using chunk_facts[OF Cons.hyps(2)] Cons.prems(1) by (fastforce simp: filter_empty_conv)
  have own: "filter (\<lambda>f. lf_addresses f = [y]) fs = (if y = x then fs else [])" for y
    using Cons.hyps(1) by (auto simp: chunks_ok_def filter_empty_conv intro!: filter_True)
  show ?case
  proof (cases "address = x")
    case True
    with others own Cons.hyps(1) show ?thesis by (simp add: chunks_ok_def)
  next
    case False
    with own Cons show ?thesis by simp
  qed
qed

text \<open>
  The chunks requested for a block range cover it exactly: for each address, the
  ranges of its requests put end to end are the blocks from the first to the last, each once,
  and no request spans more blocks than the configured chunk size, whatever the sizes (also at
  the end of the 64-bit block numbers).
\<close>
lemma chunks_partition_block_range:
  assumes "lf_from whole = Some (Bound_Number a)" "lf_to whole = Some (Bound_Number b)"
    "lf_topics whole = t # ts" "distinct (lf_addresses whole)"
  shows "\<exists>fs. build_log_filters whole config = Ok fs \<and>
    (\<forall>address\<in>set (lf_addresses whole).
       concat (map filter_range (filter (\<lambda>f. lf_addresses f = [address]) fs)) =
         [unat a..<Suc (unat b)]) \<and>
    (\<forall>f\<in>set fs. length (filter_range f) \<le> max 1 (unat (fc_chunk_size config)) \<and>
       lf_topics f = [t])"
proof -
  from build_log_filters_chunks[OF assms(1-3)] obtain css where
    build: "build_log_filters whole config = Ok (concat css)" and
    css: "list_all2 (\<lambda>address. chunks_ok address t (saturating_sub (max (fc_chunk_size config) 1) 1)
      b a) (lf_addresses whole) css" by blast
  have "length (filter_range f) \<le> max 1 (unat (fc_chunk_size config)) \<and> lf_topics f = [t]"
    if "f \<in> set (concat css)" for f
    using chunk_facts[OF css that] unfolding chunk_span_Suc by simp
  with build filter_address_chunks[OF css assms(4)] show ?thesis by blast
qed

lemma chunks_partition_block_range_example:
  "\<exists>fs. build_log_filters (range_filter [7, 8] 10 21 [1]) (default_fetch_config\<lparr>fc_chunk_size := 5\<rparr>)
     = Ok fs \<and> concat (map filter_range (filter (\<lambda>f. lf_addresses f = [8]) fs)) = [10..<22]"
  using chunks_partition_block_range[of "range_filter [7, 8] 10 21 [1]" 10 21 "[1]"
      "[[], [], []]" "default_fetch_config\<lparr>fc_chunk_size := 5\<rparr>"]
  by (auto simp: range_filter_def)

section \<open>What a fetch returns\<close>

text \<open>
  The meaning of a filter for a log, as the RPC method \<open>eth_getLogs\<close> defines it, and a node that
  answers, when it answers, with exactly the logs of the chain that match.
\<close>

definition topic0 :: "log_entry \<Rightarrow> b256 option" where
  "topic0 e = (case le_topics e of [] \<Rightarrow> None | t # _ \<Rightarrow> Some (word_rcat t))"

definition matches :: "log_filter \<Rightarrow> log_entry \<Rightarrow> bool" where
  "matches f e \<longleftrightarrow> le_address e \<in> set (lf_addresses f) \<and>
     unat (le_block_number e) \<in> set (filter_range f) \<and>
     (case lf_topics f of [] \<Rightarrow> True | t # _ \<Rightarrow> t = [] \<or> topic0 e \<in> Some ` set t)"

definition honest_node :: "'w rpc_ops \<Rightarrow> log_entry list \<Rightarrow> bool" where
  "honest_node rpc chain \<longleftrightarrow> (\<forall>f w logs w'. rpc_get_logs rpc f w = (Ok logs, w') \<longrightarrow>
     logs = filter (matches f) chain)"

definition keeps_requests :: "'w rpc_ops \<Rightarrow> bool" where
  "keeps_requests rpc \<longleftrightarrow> (\<forall>fs. mset (rpc_order rpc fs) = mset fs) \<and>
     (\<forall>bs. set (rpc_block_order rpc bs) = set bs)"

lemma retried_Ok:
  assumes "retried rpc config request w = (Ok v, w')"
  shows "\<exists>w1. request w1 = (Ok v, w')"
  using assms by (auto simp: retried_def dest!: retry_with_backoff_Ok)

lemma fetch_logs_honest:
  assumes "honest_node rpc chain" "keeps_requests rpc"
    and "fetch_logs_for_filters rpc filters config w = (Ok logs, w')"
  shows "mset logs = mset (concat (map (\<lambda>f. filter (matches f) chain) filters))"
proof (cases "filters = []")
  case True
  with assms(3) show ?thesis by (simp add: fetch_logs_for_filters_def)
next
  case False
  with assms(3) obtain results where logs: "logs = concat results" and
    "io_mapM (\<lambda>f. retried rpc config (rpc_get_logs rpc f)) (rpc_order rpc filters) w
      = (Ok results, w')"
    by (auto simp: fetch_logs_for_filters_def ok_iff)
  from io_mapM_Ok[OF this(2)]
  have "list_all2 (\<lambda>f logs. logs = filter (matches f) chain) (rpc_order rpc filters) results"
    by (rule list_all2_mono) (use assms(1) in \<open>auto simp: honest_node_def dest!: retried_Ok\<close>)
  then have "results = map (\<lambda>f. filter (matches f) chain) (rpc_order rpc filters)"
    by (simp add: list_all2_conv_all_nth list_eq_iff_nth_eq)
  moreover have "mset (rpc_order rpc filters) = mset filters"
    using assms(2) by (simp add: keeps_requests_def)
  ultimately show ?thesis
    unfolding logs by (simp add: mset_concat_map)
qed

text \<open>Each log of the range is asked for exactly once.\<close>

lemma range_filter_simps [simp]:
  "lf_addresses (range_filter as a b t) = as" "lf_from (range_filter as a b t) = Some (Bound_Number a)"
  "lf_to (range_filter as a b t) = Some (Bound_Number b)"
  "lf_topics (range_filter as a b t) = [t, [], [], []]"
  "filter_range (range_filter as a b t) = [unat a..<Suc (unat b)]"
  by (simp_all add: range_filter_def filter_range_def)

lemma matching_chunks_once:
  assumes "list_all2 (\<lambda>address. chunks_ok address t s b a) addresses css" "distinct addresses"
  shows "length (filter (\<lambda>f. matches f e) (concat css)) =
    (if matches (range_filter addresses a b t) e then 1 else 0)"
proof -
  let ?fs = "filter (\<lambda>f. lf_addresses f = [le_address e]) (concat css)"
  let ?top = "t = [] \<or> topic0 e \<in> Some ` set t"
  have m: "matches f e \<longleftrightarrow> lf_addresses f = [le_address e] \<and>
      unat (le_block_number e) \<in> set (filter_range f) \<and> ?top" if "f \<in> set (concat css)" for f
    using chunk_facts[OF assms(1) that] by (auto simp: matches_def)
  have "filter (\<lambda>f. matches f e) (concat css) =
      filter (\<lambda>f. unat (le_block_number e) \<in> set (filter_range f) \<and> ?top) ?fs"
    unfolding filter_filter by (rule filter_cong[OF refl]) (use m in blast)
  then have len: "length (filter (\<lambda>f. matches f e) (concat css)) =
      (if ?top then length (filter (\<lambda>f. unat (le_block_number e) \<in> set (filter_range f)) ?fs) else 0)"
    by simp
  have cnt: "length (filter (\<lambda>f. unat (le_block_number e) \<in> set (filter_range f)) ?fs) =
      count (mset (concat (map filter_range ?fs))) (unat (le_block_number e))"
    by (rule length_filter_count) (rule distinct_filter_range)
  show ?thesis
  proof (cases "le_address e \<in> set addresses")
    case True
    with filter_address_chunks[OF assms True] show ?thesis
      unfolding len cnt by (auto simp: matches_def count_mset_0_iff distinct_count_atmost_1)
  next
    case False
    with chunk_facts[OF assms(1)] have "?fs = []" by (fastforce simp: filter_empty_conv)
    with False show ?thesis unfolding len by (simp add: matches_def)
  qed
qed

text \<open>Ordering by the 64-bit position is ordering by the position.\<close>

abbreviation position :: "log_entry \<Rightarrow> u256 \<times> u256" where
  "position e \<equiv> (le_block_number e, le_log_index e)"

lemma unat_to_u64: "to_u64 x = Ok y \<Longrightarrow> unat y = unat x"
  by (auto simp: to_u64_def unsigned_ucast_eq take_bit_nat_eq_self_iff split: if_splits)

lemma log_position_le:
  assumes "log_position d = Ok p" "log_position e = Ok q"
  shows "p \<le> q \<longleftrightarrow> position d \<le> position e"
  using assms
  by (auto simp: log_position_def ok_iff less_eq_prod_def word_le_nat_alt word_less_nat_alt
      word_unat_eq_iff dest!: unat_to_u64)

lemma sort_events_spec:
  assumes "sort_events_by_block_and_log events = Ok sorted_events"
  shows "mset sorted_events = mset events \<and> sorted (map position sorted_events)"
proof -
  let ?key = "\<lambda>e. unwrap_or (log_position e) (0, 0)"
  from assms have res: "sorted_events = sort_key ?key events"
    and ok: "2 \<le> length events \<Longrightarrow> \<forall>e\<in>set events. is_ok (log_position e)"
    by (auto simp: sort_events_by_block_and_log_def split: if_splits)
  have "sorted (map position (sort_key ?key events))"
  proof (cases "2 \<le> length events")
    case True
    have le: "?key d \<le> ?key e \<longleftrightarrow> position d \<le> position e"
      if "d \<in> set events" "e \<in> set events" for d e
    proof -
      from ok[OF True] that obtain p q where "log_position d = Ok p" "log_position e = Ok q"
        by (metis is_ok.elims(2))
      then show ?thesis using log_position_le by simp
    qed
    have "sorted_wrt (\<lambda>d e. ?key d \<le> ?key e) (sort_key ?key events)"
      using sorted_sort_key[of ?key events] by (simp add: sorted_map)
    then have "sorted_wrt (\<lambda>d e. position d \<le> position e) (sort_key ?key events)"
      by (rule sorted_wrt_mono_rel[rotated]) (use le in auto)
    then show ?thesis by (simp add: sorted_map)
  next
    case False
    then have "length (sort_key ?key events) \<le> 1" by simp
    then show ?thesis by (cases "sort_key ?key events") auto
  qed
  with res show ?thesis by simp
qed

text \<open>Backfilling changes nothing but missing timestamps, and leaves none missing.\<close>

definition untimed :: "log_entry \<Rightarrow> log_entry" where
  "untimed e = e\<lparr>le_block_timestamp := None\<rparr>"

lemma backfill_event_untimed: "backfill_event ts e = Ok e' \<Longrightarrow> untimed e' = untimed e"
  by (auto simp: backfill_event_def untimed_def ok_iff split: if_splits option.splits)

lemma rmap_backfill_untimed: "rmap (backfill_event ts) es = Ok es' \<Longrightarrow> map untimed es' = map untimed es"
  by (induction es arbitrary: es') (auto simp: ok_iff dest: backfill_event_untimed)

lemma backfill_untimed:
  assumes "backfill_missing_timestamps rpc events config w = (Ok out, w')"
  shows "map untimed out = map untimed events"
  using assms
  by (auto simp: backfill_missing_timestamps_def ok_iff split: if_splits dest: rmap_backfill_untimed)

lemma missing_timestamp_blocks_mem:
  assumes "missing_timestamp_blocks es = Ok bs" "e \<in> set es" "le_block_timestamp e = None"
  shows "\<exists>b\<in>set bs. to_u64 (le_block_number e) = Ok b"
  using assms by (induction es arbitrary: bs) (fastforce simp: ok_iff split: if_splits)+

lemma fetch_block_timestamps_dom:
  assumes "keeps_requests rpc" "fetch_block_timestamps rpc bs config w = (Ok ts, w')" "b \<in> set bs"
  shows "ts b \<noteq> None"
proof -
  from assms(2,3) obtain pairs where
    all: "io_map_all (fetch_block_timestamp rpc config) (rpc_block_order rpc bs) w
      = (map Ok pairs, w')" and ts: "ts = map_of pairs"
    by (auto simp: fetch_block_timestamps_def ok_iff rmap_id_Ok split: if_splits prod.splits)
  have "list_all2 (\<lambda>b p. fst p = b) (rpc_block_order rpc bs) pairs"
    using io_map_all_results[OF all]
    by (auto simp: list_all2_conv_all_nth fetch_block_timestamp_def ok_iff)
      (metis fst_conv)
  then have "map fst pairs = rpc_block_order rpc bs"
    by (auto simp: list_all2_conv_all_nth list_eq_iff_nth_eq)
  moreover have "b \<in> set (rpc_block_order rpc bs)"
    using assms(1,3) by (simp add: keeps_requests_def)
  ultimately have "b \<in> fst ` set pairs" by (metis list.set_map)
  then show ?thesis unfolding ts by (simp add: map_of_eq_None_iff)
qed

lemma backfill_timed:
  assumes "keeps_requests rpc" "backfill_missing_timestamps rpc events config w = (Ok out, w')"
    and "e \<in> set out"
  shows "le_block_timestamp e \<noteq> None"
proof -
  from assms(2) obtain bs where bs: "missing_timestamp_blocks events = Ok bs"
    by (auto simp: backfill_missing_timestamps_def ok_iff)
  show ?thesis
  proof (cases "bs = []")
    case True
    with assms(2,3) bs missing_timestamp_blocks_mem[OF bs, of e] show ?thesis
      by (auto simp: backfill_missing_timestamps_def ok_iff)
  next
    case False
    with assms(2) bs obtain ts w1 where ts: "fetch_block_timestamps rpc bs config w = (Ok ts, w1)"
      and out: "rmap (backfill_event ts) events = Ok out"
      by (auto simp: backfill_missing_timestamps_def ok_iff)
    from assms(3) rmap_Ok_length[OF out] obtain i where i: "i < length events" "e = out ! i"
      by (metis in_set_conv_nth)
    with rmap_Ok_nth[OF out] have step: "backfill_event ts (events ! i) = Ok e" by simp
    show ?thesis
    proof (cases "le_block_timestamp (events ! i)")
      case None
      from missing_timestamp_blocks_mem[OF bs nth_mem[OF i(1)] None] obtain b where
        "b \<in> set bs" "to_u64 (le_block_number (events ! i)) = Ok b" by blast
      with step None fetch_block_timestamps_dom[OF assms(1) ts, of b] show ?thesis
        by (auto simp: backfill_event_def)
    next
      case (Some t)
      with step show ?thesis by (simp add: backfill_event_def)
    qed
  qed
qed

lemma position_untimed: "position (untimed e) = position e"
  by (simp add: untimed_def)

lemma collect_logs_parts:
  assumes "collect_logs rpc whole config w = (Ok logs, w')" "lf_addresses whole \<noteq> []"
    and "build_log_filters whole config = Ok filters" "filters \<noteq> []"
  obtains fetched events w1 where
    "fetch_logs_for_filters rpc filters config w = (Ok fetched, w1)"
    "sort_events_by_block_and_log fetched = Ok events"
    "backfill_missing_timestamps rpc events config w1 = (Ok logs, w')"
  using assms by (auto simp: collect_logs_def ok_iff)

text \<open>
  Claim C13. A fetch is complete and in order: from a node that answers with the logs of the chain
  that match, in whatever order the requests complete and however often they are retried, the
  fetch of a block range returns exactly the logs of the range, each once and with nothing but a
  missing timestamp changed, sorted by block and position in the block.
\<close>
theorem fetch_is_complete_and_sorted:
  assumes "honest_node rpc chain" "keeps_requests rpc" "distinct addresses"
    and "collect_logs rpc (range_filter addresses a b sigs) config w = (Ok logs, w')"
  shows "mset (map untimed logs) =
      mset (map untimed (filter (matches (range_filter addresses a b sigs)) chain)) \<and>
    sorted (map position logs)"
proof (cases "addresses = []")
  case True
  with assms(4) show ?thesis by (auto simp: collect_logs_def ok_iff matches_def)
next
  case False
  let ?whole = "range_filter addresses a b sigs"
  obtain css where build: "build_log_filters ?whole config = Ok (concat css)" and
    css: "list_all2 (\<lambda>address. chunks_ok address sigs
      (saturating_sub (max (fc_chunk_size config) 1) 1) b a) addresses css"
    using build_log_filters_chunks[of ?whole a b sigs "[[], [], []]" config] by auto
  note once = matching_chunks_once[OF css assms(3)]
  have chunked: "mset (concat (map (\<lambda>f. filter (matches f) chain) (concat css))) =
      mset (filter (matches ?whole) chain)"
    by (rule mset_concat_filters) (rule once)
  show ?thesis
  proof (cases "concat css = []")
    case True
    from chunked[unfolded True] have "filter (matches ?whole) chain = []"
      by (metis concat.simps(1) list.simps(8) mset.simps(1) mset_zero_iff)
    with assms(4) False build True show ?thesis by (auto simp: collect_logs_def ok_iff)
  next
    case some: False
    from assms(4) False build some obtain fetched events w1 where
      f: "fetch_logs_for_filters rpc (concat css) config w = (Ok fetched, w1)" and
      srt: "sort_events_by_block_and_log fetched = Ok events" and
      bf: "backfill_missing_timestamps rpc events config w1 = (Ok logs, w')"
      by (elim collect_logs_parts[where filters = "concat css"]) auto
    note sorted = sort_events_spec[OF srt]
    have un: "map untimed logs = map untimed events" by (rule backfill_untimed[OF bf])
    have "mset (map untimed events) = mset (map untimed (filter (matches ?whole) chain))"
      using sorted fetch_logs_honest[OF assms(1,2) f] chunked by simp
    moreover have "map position logs = map position events"
      using un by (metis (no_types, lifting) list.map_comp map_eq_conv comp_apply position_untimed)
    ultimately show ?thesis using un sorted by simp
  qed
qed

text \<open>
  Every log a fetch returns carries a timestamp: its own, or that of its block, asked
  for once per block.
\<close>
lemma fetched_logs_have_timestamps:
  assumes "keeps_requests rpc" "collect_logs rpc whole config w = (Ok logs, w')" "e \<in> set logs"
  shows "le_block_timestamp e \<noteq> None"
proof -
  from assms(2,3) obtain events w1 where
    "backfill_missing_timestamps rpc events config w1 = (Ok logs, w')"
    by (auto simp: collect_logs_def ok_iff split: if_splits)
  from backfill_timed[OF assms(1) this assms(3)] show ?thesis .
qed

section \<open>An example node\<close>

text \<open>Three logs out of order, one of another contract, and a node whose first answer fails.\<close>

definition example_log :: "address \<Rightarrow> u256 \<Rightarrow> u256 \<Rightarrow> log_entry" where
  "example_log address block index = \<lparr>le_address = address, le_topics = [], le_data = [],
     le_block_number = block, le_block_timestamp = None, le_transaction_hash = 0,
     le_transaction_index = [], le_block_hash = 0, le_log_index = index, le_removed = False\<rparr>"

definition example_chain :: "log_entry list" where
  "example_chain = [example_log 7 12 1, example_log 7 10 0, example_log 8 11 0, example_log 7 12 0]"

definition example_rpc :: "nat rpc_ops" where
  "example_rpc = \<lparr>rpc_get_logs = (\<lambda>f n. if n = 0 then (Err (Rate_Limited ''slow''), 1)
       else (Ok (filter (matches f) example_chain), Suc n)),
     rpc_get_block_by_number = (\<lambda>b n. (Ok (Some \<lparr>bd_timestamp = 2 * ucast b, bd_hash = 0\<rparr>), Suc n)),
     rpc_latest_block_number = (\<lambda>n. (Ok 30, n)), rpc_sleep = (\<lambda>d n. n),
     rpc_valid_block_range = (\<lambda>f. Ok ()), rpc_order = rev, rpc_block_order = id,
     rpc_raindex_topics = [], rpc_store_topics = []\<rparr>"

lemma example_rpc_honest: "honest_node example_rpc example_chain"
  by (auto simp: honest_node_def example_rpc_def split: if_splits)

lemma example_rpc_keeps: "keeps_requests example_rpc"
  by (simp add: keeps_requests_def example_rpc_def)

lemmas fetch_eval = collect_logs_def build_log_filters_def filter_bound_def
  fetch_logs_for_filters_def retried_def retry_with_backoff_def ensure_max_attempts_def
  sort_events_by_block_and_log_def log_position_def to_u64_def backfill_missing_timestamps_def
  fetch_block_timestamps_def fetch_block_timestamp_def backfill_event_def chunk_filters.simps
  saturating_sub_def saturating_add_def chunk_filter_def

lemma example_fetch:
  "\<exists>w'. collect_logs example_rpc (range_filter [7] 10 12 [])
     (default_fetch_config\<lparr>fc_chunk_size := 2\<rparr>) 0 =
   (Ok [(example_log 7 10 0)\<lparr>le_block_timestamp := Some 20\<rparr>,
        (example_log 7 12 0)\<lparr>le_block_timestamp := Some 24\<rparr>,
        (example_log 7 12 1)\<lparr>le_block_timestamp := Some 24\<rparr>], w')"
  by (simp add: fetch_eval Let_def io_defs example_rpc_def default_fetch_config_def upt_rec
      should_retry_local_db_error_def is_rate_limited_local_db_error_def matches_def filter_range_def
      example_chain_def example_log_def compute_sleep_and_next_delay_ms_def)

theorem fetch_is_complete_and_sorted_witness:
  "sorted (map position [example_log 7 10 0, example_log 7 12 0, example_log 7 12 1]) \<and>
   mset (map untimed [example_log 7 10 0, example_log 7 12 0, example_log 7 12 1]) =
   mset (map untimed (filter (matches (range_filter [7] 10 12 [])) example_chain))"
proof -
  obtain w' where run: "collect_logs example_rpc (range_filter [7] 10 12 [])
     (default_fetch_config\<lparr>fc_chunk_size := 2\<rparr>) 0 =
   (Ok [(example_log 7 10 0)\<lparr>le_block_timestamp := Some 20\<rparr>,
        (example_log 7 12 0)\<lparr>le_block_timestamp := Some 24\<rparr>,
        (example_log 7 12 1)\<lparr>le_block_timestamp := Some 24\<rparr>], w')"
    using example_fetch by blast
  have one: "distinct [7 :: address]" by simp
  from fetch_is_complete_and_sorted[OF example_rpc_honest example_rpc_keeps one run]
  show ?thesis by (simp add: untimed_def example_log_def)
qed

lemma fetched_logs_have_timestamps_example:
  "le_block_timestamp ((example_log 7 12 1)\<lparr>le_block_timestamp := Some 24\<rparr>) \<noteq> None"
proof -
  obtain w' where run: "collect_logs example_rpc (range_filter [7] 10 12 [])
     (default_fetch_config\<lparr>fc_chunk_size := 2\<rparr>) 0 =
   (Ok [(example_log 7 10 0)\<lparr>le_block_timestamp := Some 20\<rparr>,
        (example_log 7 12 0)\<lparr>le_block_timestamp := Some 24\<rparr>,
        (example_log 7 12 1)\<lparr>le_block_timestamp := Some 24\<rparr>], w')"
    using example_fetch by blast
  show ?thesis by (rule fetched_logs_have_timestamps[OF example_rpc_keeps run]) simp
qed

end
