(* ===== verification/Sync_Window.thy ===== *)
theory Sync_Window
  imports Local_Db Fetch
begin

text \<open>
  \<open>local_db/pipeline/adapters/window.rs\<close> and the configuration of \<open>local_db/pipeline/mod.rs\<close>: the
  block range of one sync cycle, from the stored watermark, the deployment block, the finality
  depth, the manual overrides and the cap on the span of a cycle.

  \<open>cycle_windows\<close> is the list of windows of successive cycles, each of which moves the watermark
  to its target; \<open>cycles_cover_range\<close> says which blocks they cover.
\<close>

section \<open>Configuration\<close>

record window_overrides =
  wo_start_block :: "u64 option"
  wo_end_block :: "u64 option"

record finality_config =
  fin_depth :: u32

record sync_config =
  sy_deployment_block :: u64
  sy_fetch :: fetch_config
  sy_finality :: finality_config
  sy_window_overrides :: window_overrides
  sy_max_blocks_per_cycle :: "u64 option"

section \<open>The window\<close>

definition safe_head :: "u64 \<Rightarrow> u64 \<Rightarrow> finality_config \<Rightarrow> u64" where
  "safe_head latest_block deployment_block finality =
     (let depth = ucast (fin_depth finality); head = saturating_sub latest_block depth
      in max head deployment_block)"

definition next_block :: "u64 \<Rightarrow> (u64, local_db_error) result" where
  \<comment> \<open>\<open>last_synced_block.checked_add(1).ok_or(..)\<close>\<close>
  "next_block last_synced_block =
     ok_or (if last_synced_block = -1 then None else Some (last_synced_block + 1))
       (Last_Synced_Block_Overflow last_synced_block)"

definition base_start :: "u64 \<Rightarrow> u64 \<Rightarrow> (u64, local_db_error) result" where
  "base_start last_synced_block deployment_block =
     (if last_synced_block = 0 then Ok deployment_block else next_block last_synced_block)"

definition requested_end_block :: "sync_config \<Rightarrow> u64 \<Rightarrow> u64" where
  "requested_end_block cfg latest_block =
     (let head = safe_head latest_block (sy_deployment_block cfg) (sy_finality cfg) in
      case wo_end_block (sy_window_overrides cfg) of
        None \<Rightarrow> head
      | Some e \<Rightarrow> min e head)"

definition window_start :: "sync_config \<Rightarrow> u64 \<Rightarrow> (u64, local_db_error) result" where
  "window_start cfg last_synced_block =
     rbind (base_start last_synced_block (sy_deployment_block cfg)) (\<lambda>start.
     case wo_start_block (sy_window_overrides cfg) of
       None \<Rightarrow> Ok start
     | Some override_start \<Rightarrow>
         rbind (if 0 < last_synced_block \<and> override_start \<le> last_synced_block
                then next_block last_synced_block else Ok override_start) (\<lambda>start.
         if last_synced_block = 0 \<and> start < sy_deployment_block cfg
         then Ok (sy_deployment_block cfg) else Ok start))"

definition window_target :: "sync_config \<Rightarrow> u64 \<Rightarrow> u64 \<Rightarrow> u64" where
  "window_target cfg latest_block start =
     (let target = requested_end_block cfg latest_block in
      case sy_max_blocks_per_cycle cfg of
        None \<Rightarrow> target
      | Some max_blocks \<Rightarrow>
          if 0 < max_blocks \<and> start \<le> target
          then min target (saturating_add start (max_blocks - 1)) else target)"

definition window_from_watermark ::
  "sync_config \<Rightarrow> u64 \<Rightarrow> u64 \<Rightarrow> (u64 \<times> u64, local_db_error) result" where
  "window_from_watermark cfg latest_block last_synced_block =
     rbind (window_start cfg last_synced_block) (\<lambda>start.
       Ok (start, window_target cfg latest_block start))"

definition compute_window ::
  "'w db_ops \<Rightarrow> raindex_identifier \<Rightarrow> sync_config \<Rightarrow> u64 \<Rightarrow> (u64 \<times> u64, local_db_error, 'w) io" where
  "compute_window db raindex_id cfg latest_block =
     io_bind (dbq (db_watermark db raindex_id)) (\<lambda>rows.
       let last_synced_block = (case rows of [] \<Rightarrow> 0 | r # _ \<Rightarrow> tw_last_block r) in
       io_pure (window_from_watermark cfg latest_block last_synced_block))"

section \<open>One window\<close>

lemma unat_neq_max: "n \<noteq> -1 \<Longrightarrow> Suc (unat (n :: u64)) < 2 ^ 64"
proof -
  assume "n \<noteq> -1"
  then have "unat n \<noteq> unat (-1 :: u64)" by (metis word_unat_eq_iff)
  then have "unat n \<noteq> 2 ^ 64 - 1" by (simp add: unat_minus_one_exp)
  with unat_le_max[of n] show ?thesis by simp
qed

lemma next_block_Ok_iff [ok_iff]: "next_block n = Ok m \<longleftrightarrow> n \<noteq> -1 \<and> m = n + 1"
  by (auto simp: next_block_def)

lemma unat_next_block: "n \<noteq> -1 \<Longrightarrow> unat (n + 1) = Suc (unat (n :: u64))"
  using unat_neq_max[of n] by (simp add: unat_word_ariths)

lemma unat_safe_head:
  "unat (safe_head latest dep fin) = max (unat latest - unat (fin_depth fin)) (unat dep)"
  by (simp add: safe_head_def Let_def max_def word_le_nat_alt unat_saturating_sub unat_ucast_le)

lemma window_start_bounds:
  assumes "window_start cfg synced = Ok start"
  shows "if 0 < synced then synced < start else sy_deployment_block cfg \<le> start"
proof (cases "synced = 0")
  case True
  with assms show ?thesis
    by (auto simp: window_start_def base_start_def split: option.splits if_splits)
next
  case False
  then have "0 < synced" by (simp add: word_gt_0)
  with assms unat_next_block[of synced] show ?thesis
    by (auto simp: window_start_def base_start_def ok_iff word_less_nat_alt not_le
        split: option.splits if_splits)
qed

lemma window_target_le: "window_target cfg latest start \<le> requested_end_block cfg latest"
  by (auto simp: window_target_def Let_def split: option.splits)

lemma requested_end_bounds:
  "requested_end_block cfg latest \<le> safe_head latest (sy_deployment_block cfg) (sy_finality cfg)"
  "wo_end_block (sy_window_overrides cfg) = Some e \<Longrightarrow> requested_end_block cfg latest \<le> e"
  by (auto simp: requested_end_block_def Let_def split: option.splits)

lemma unat_minus_one: "0 < c \<Longrightarrow> unat (c - 1) = unat (c :: u64) - 1"
  by (simp add: unat_sub word_le_nat_alt word_less_nat_alt)

lemma unat_window_target:
  assumes "sy_max_blocks_per_cycle cfg = Some c" "0 < c"
  shows "unat (window_target cfg latest start) =
    (if unat start \<le> unat (requested_end_block cfg latest)
     then min (unat (requested_end_block cfg latest)) (unat start + unat c - 1)
     else unat (requested_end_block cfg latest))"
proof -
  let ?t = "requested_end_block cfg latest"
  have c: "unat (c - 1) = unat c - 1" "0 < unat c"
    using assms(2) by (simp_all add: unat_minus_one word_less_nat_alt)
  have "unat (min ?t (saturating_add start (c - 1))) = min (unat ?t) (unat start + unat c - 1)"
    using unat_le_max[of ?t] c
    by (simp add: min_def word_le_nat_alt unat_saturating_add)
  with assms show ?thesis by (simp add: window_target_def Let_def word_le_nat_alt)
qed

lemma window_span_capped:
  assumes "sy_max_blocks_per_cycle cfg = Some c" "0 < c"
  shows "Suc (unat (window_target cfg latest start)) - unat start \<le> unat c"
  using assms(2) unfolding unat_window_target[OF assms] by (auto simp: word_less_nat_alt)

text \<open>
  A computed window is sound: it never reaches past the safe head (the finality depth
  behind the latest block, but not before the deployment) nor past the end override, it starts
  behind the watermark, or at the deployment block or later when nothing is synced yet, and it
  covers no more blocks than the cap allows.
\<close>
lemma window_is_sound:
  assumes "compute_window db raindex_id cfg latest w = (Ok (start, target), w')"
  shows "\<exists>rows. db_watermark db raindex_id w = (Ok rows, w') \<and>
    unat target \<le> max (unat latest - unat (fin_depth (sy_finality cfg)))
      (unat (sy_deployment_block cfg)) \<and>
    (\<forall>e. wo_end_block (sy_window_overrides cfg) = Some e \<longrightarrow> target \<le> e) \<and>
    (case rows of
       r # _ \<Rightarrow> if 0 < tw_last_block r then tw_last_block r < start
                else sy_deployment_block cfg \<le> start
     | [] \<Rightarrow> sy_deployment_block cfg \<le> start) \<and>
    (\<forall>c. sy_max_blocks_per_cycle cfg = Some c \<longrightarrow> 0 < c \<longrightarrow> Suc (unat target) - unat start \<le> unat c)"
proof -
  from assms obtain rows synced where rows: "db_watermark db raindex_id w = (Ok rows, w')"
    and synced: "synced = (case rows of [] \<Rightarrow> 0 | r # _ \<Rightarrow> tw_last_block r)"
    and start: "window_start cfg synced = Ok start" and target: "target = window_target cfg latest start"
    by (auto simp: compute_window_def window_from_watermark_def ok_iff Let_def)
  have "unat target \<le> max (unat latest - unat (fin_depth (sy_finality cfg)))
      (unat (sy_deployment_block cfg))"
    using order_trans[OF window_target_le requested_end_bounds(1)] target unat_safe_head
    by (metis word_le_nat_alt)
  moreover have "\<forall>e. wo_end_block (sy_window_overrides cfg) = Some e \<longrightarrow> target \<le> e"
    using order_trans[OF window_target_le requested_end_bounds(2)] target by blast
  moreover have "\<forall>c. sy_max_blocks_per_cycle cfg = Some c \<longrightarrow> 0 < c \<longrightarrow>
      Suc (unat target) - unat start \<le> unat c"
    using window_span_capped target by blast
  moreover have "case rows of
       r # _ \<Rightarrow> if 0 < tw_last_block r then tw_last_block r < start
                else sy_deployment_block cfg \<le> start
     | [] \<Rightarrow> sy_deployment_block cfg \<le> start"
    using window_start_bounds[OF start] synced by (auto split: list.splits)
  ultimately show ?thesis using rows by blast
qed

definition example_db :: "watermark_row list \<Rightarrow> nat db_ops" where
  "example_db rows = \<lparr>db_execute_batch = (\<lambda>b n. (Ok (), Suc n)), db_query_text = (\<lambda>s n. (Ok [], n)),
     db_execute_sql_dump = (\<lambda>s n. (Ok (), n)), db_wipe_and_recreate = (\<lambda>n. (Ok (), n)),
     db_watermark = (\<lambda>i n. (Ok rows, n)), db_store_addresses = (\<lambda>i n. (Ok [], n)),
     db_tables = (\<lambda>n. (Ok [], n)), db_table_columns = (\<lambda>t n. (Ok [], n)),
     db_metadata_versions = (\<lambda>n. (Ok [], n)), db_quick_check = (\<lambda>n. (Ok [], n)),
     db_cache_size_query = (\<lambda>n. (Ok (), n))\<rparr>"

definition example_sync_config :: sync_config where
  "example_sync_config = \<lparr>sy_deployment_block = 100, sy_fetch = default_fetch_config,
     sy_finality = \<lparr>fin_depth = 10\<rparr>,
     sy_window_overrides = \<lparr>wo_start_block = None, wo_end_block = None\<rparr>,
     sy_max_blocks_per_cycle = Some 50\<rparr>"

lemmas window_eval = compute_window_def window_from_watermark_def window_start_def base_start_def
  next_block_def window_target_def requested_end_block_def safe_head_def saturating_sub_def
  saturating_add_def example_sync_config_def

lemma window_is_sound_example:
  "\<exists>start target w'. compute_window (example_db [example_watermark \<lparr>ri_chain_id = 1, ri_raindex_address = 9\<rparr> 120])
     \<lparr>ri_chain_id = 1, ri_raindex_address = 9\<rparr> example_sync_config 500 0
     = (Ok (start, target), w') \<and> Suc (unat target) - unat start \<le> 50"
proof -
  have run: "compute_window (example_db [example_watermark \<lparr>ri_chain_id = 1, ri_raindex_address = 9\<rparr> 120])
     \<lparr>ri_chain_id = 1, ri_raindex_address = 9\<rparr> example_sync_config 500 0 = (Ok (121, 170), 0)"
    by (simp add: window_eval example_db_def io_defs)
  show ?thesis
    using window_is_sound[OF run] run by (auto simp: example_sync_config_def)
qed

section \<open>Successive cycles\<close>

text \<open>
  The windows of at most \<open>n\<close> successive cycles that all succeed while the chain's head stays where
  it is: a cycle with blocks to sync moves the watermark to its target (\<open>apply.rs\<close> writes it in
  the batch of the cycle), one without leaves it.
\<close>

fun cycle_windows :: "nat \<Rightarrow> sync_config \<Rightarrow> u64 \<Rightarrow> u64 \<Rightarrow> (u64 \<times> u64) list" where
  "cycle_windows 0 cfg latest synced = []"
| "cycle_windows (Suc n) cfg latest synced =
     (case window_from_watermark cfg latest synced of
        Err e \<Rightarrow> []
      | Ok (start, target) \<Rightarrow>
          (start, target) # cycle_windows n cfg latest (if start \<le> target then target else synced))"

abbreviation window_blocks :: "u64 \<times> u64 \<Rightarrow> nat list" where
  "window_blocks win \<equiv> [unat (fst win)..<Suc (unat (snd win))]"

definition first_block :: "sync_config \<Rightarrow> u64 \<Rightarrow> nat" where
  "first_block cfg synced =
     (if synced = 0 then unat (sy_deployment_block cfg) else Suc (unat synced))"

lemma window_without_overrides:
  assumes "wo_start_block (sy_window_overrides cfg) = None"
  shows "window_from_watermark cfg latest synced =
    (if synced = -1 then Err (Last_Synced_Block_Overflow synced)
     else let start = word_of_nat (first_block cfg synced) in
       Ok (start, window_target cfg latest start))"
    "synced \<noteq> -1 \<Longrightarrow> unat (word_of_nat (first_block cfg synced) :: u64) = first_block cfg synced"
proof -
  show u: "unat (word_of_nat (first_block cfg synced) :: u64) = first_block cfg synced"
    if "synced \<noteq> -1" for synced
    using unat_neq_max[OF that] unat_le_max[of "sy_deployment_block cfg"]
    by (auto simp: first_block_def unat_of_nat take_bit_nat_eq_self_iff unat_next_block[symmetric])
  have "synced \<noteq> -1 \<Longrightarrow> synced \<noteq> 0 \<Longrightarrow> synced + 1 = word_of_nat (first_block cfg synced)"
    using u[of synced] by (simp add: word_unat_eq_iff unat_next_block first_block_def)
  then show "window_from_watermark cfg latest synced =
    (if synced = -1 then Err (Last_Synced_Block_Overflow synced)
     else let start = word_of_nat (first_block cfg synced) in
       Ok (start, window_target cfg latest start))"
    using assms
    by (auto simp: window_from_watermark_def window_start_def base_start_def next_block_def Let_def
        first_block_def add.commute)
qed

lemma capped_blocks_join:
  assumes "f \<le> req" "0 < c"
  shows "[f..<Suc (min req (f + c - 1))] @
    [Suc (min req (f + c - 1))..<min (Suc req) (Suc (min req (f + c - 1)) + n * c)] =
    [f..<min (Suc req) (f + Suc n * c)]"
proof (cases "req \<le> f + c - 1")
  case True
  then have "Suc req \<le> f + Suc n * c" using assms(2) by (simp add: le_diff_conv)
  moreover have "min req (f + c - 1) = req" using True by simp
  ultimately show ?thesis by simp
next
  case False
  then have "Suc (min req (f + c - 1)) = f + c" using assms(2) by simp
  then show ?thesis using False assms(2) by (simp add: upt_join add.assoc)
qed

text \<open>
  Claim C12. Capped cycles leave no gap and repeat nothing: without overrides, the windows of
  successive cycles put end to end are exactly the blocks after the watermark (from the
  deployment when nothing is synced), up to the requested end or as many as the cap allows in
  that many cycles. So enough cycles sync every block up to the safe head, each once.
\<close>
theorem cycles_cover_range:
  assumes "sy_window_overrides cfg = \<lparr>wo_start_block = None, wo_end_block = e\<rparr>"
    and "sy_max_blocks_per_cycle cfg = Some c" "0 < c" "0 < sy_deployment_block cfg"
  shows "concat (map window_blocks (cycle_windows n cfg latest synced)) =
    [first_block cfg synced..<min (Suc (unat (requested_end_block cfg latest)))
       (first_block cfg synced + n * unat c)]"
proof (induction n arbitrary: synced)
  case 0
  then show ?case by simp
next
  case (Suc n)
  let ?req = "unat (requested_end_block cfg latest)"
  let ?f = "first_block cfg synced"
  have no: "wo_start_block (sy_window_overrides cfg) = None" using assms(1) by simp
  note win = window_without_overrides[OF no]
  have c: "0 < unat c" using assms(3) by (simp add: word_less_nat_alt)
  have pos: "0 < ?f" using assms(4) by (auto simp: first_block_def word_less_nat_alt)
  show ?case
  proof (cases "synced = -1")
    case True
    then have "?req < ?f"
      using unat_le_max[of "requested_end_block cfg latest"]
      by (simp add: first_block_def unat_minus_one_exp)
    with True show ?thesis by (simp add: win(1))
  next
    case False
    let ?start = "word_of_nat ?f :: u64"
    let ?target = "window_target cfg latest ?start"
    have start: "unat ?start = ?f" using win(2)[OF False] by simp
    note target = unat_window_target[OF assms(2,3), of latest ?start, unfolded start]
    have step: "cycle_windows (Suc n) cfg latest synced = (?start, ?target) #
        cycle_windows n cfg latest (if ?start \<le> ?target then ?target else synced)"
      using False by (simp add: win(1) Let_def)
    show ?thesis
    proof (cases "?f \<le> ?req")
      case True
      then have le: "?start \<le> ?target" "unat ?target = min ?req (?f + unat c - 1)"
        using c unfolding word_le_nat_alt start target by auto
      have "?target \<noteq> 0" using le pos start by (auto simp: word_le_nat_alt)
      then have next_f: "first_block cfg ?target = Suc (unat ?target)" by (simp add: first_block_def)
      have "[?f..<Suc (unat ?target)] @ [Suc (unat ?target)..<min (Suc ?req)
          (Suc (unat ?target) + n * unat c)] = [?f..<min (Suc ?req) (?f + Suc n * unat c)]"
        unfolding le(2) using True c by (rule capped_blocks_join)
      then show ?thesis unfolding step using le(1)
        by (simp add: Suc.IH next_f start del: upt_Suc)
    next
      case beyond: False
      then have "\<not> ?start \<le> ?target" "Suc (unat ?target) \<le> ?f"
        unfolding word_le_nat_alt start target by auto
      moreover have "min (Suc ?req) (?f + k) \<le> ?f" for k using beyond by simp
      ultimately show ?thesis unfolding step by (simp add: Suc.IH start del: upt_Suc)
    qed
  qed
qed

theorem cycles_cover_range_witness:
  "concat (map window_blocks (cycle_windows 4 example_sync_config 210 0)) = [100..<201]"
proof -
  have cfg: "sy_window_overrides example_sync_config = \<lparr>wo_start_block = None, wo_end_block = None\<rparr>"
    "sy_max_blocks_per_cycle example_sync_config = Some 50" "0 < (50 :: u64)"
    "0 < sy_deployment_block example_sync_config" by (simp_all add: example_sync_config_def)
  show ?thesis
    using cycles_cover_range[OF cfg, of 4 210 0] by (simp add: window_eval first_block_def)
qed

end
