(* ===== verification/Events.thy ===== *)
theory Events
  imports Fetch Raindex_Types
begin

text \<open>
  \<open>common/src/local_db/decode.rs\<close> and \<open>address_collectors.rs\<close>: raw logs become typed events, and
  the tokens and interpreter stores the events mention are collected.

  The ABI decoders (\<open>SolEvent::decode_raw_log\<close> of the generated bindings) and the event signature
  hashes are the fields of \<open>abi_ops\<close>. A \<open>BTreeSet\<close> of addresses is its sorted list of elements.
\<close>

section \<open>Events\<close>

record add_order_v3 =
  ao3_sender :: address
  ao3_order_hash :: b256
  ao3_order :: order_v4

record remove_order_v3 =
  ro3_sender :: address
  ro3_order_hash :: b256
  ro3_order :: order_v4

record take_order_v4 =
  to4_sender :: address
  to4_config :: take_order_config_v5
  to4_input :: b256
  to4_output :: b256

record withdraw_v2 =
  wd2_sender :: address
  wd2_token :: address
  wd2_vault_id :: b256
  wd2_target_amount :: b256
  wd2_withdraw_amount :: b256
  wd2_withdraw_amount_uint256 :: u256

record deposit_v2 =
  dp2_sender :: address
  dp2_token :: address
  dp2_vault_id :: b256
  dp2_deposit_amount_uint256 :: u256

record clear_config_v2 =
  cc2_alice_input_io_index :: u256
  cc2_alice_output_io_index :: u256
  cc2_bob_input_io_index :: u256
  cc2_bob_output_io_index :: u256
  cc2_alice_bounty_vault_id :: b256
  cc2_bob_bounty_vault_id :: b256

record clear_v3 =
  cl3_sender :: address
  cl3_alice :: order_v4
  cl3_bob :: order_v4
  cl3_clear_config :: clear_config_v2

record after_clear_v2 =
  ac2_sender :: address
  ac2_alice_output :: b256
  ac2_bob_output :: b256
  ac2_alice_input :: b256
  ac2_bob_input :: b256

record meta_v1_2 =
  mt_sender :: address
  mt_subject :: b256
  mt_meta :: bytes

record store_set =
  st_namespace :: b256
  st_key :: b256
  st_value :: b256

datatype event_type =
    Ty_Add_Order_V3 | Ty_Take_Order_V4 | Ty_Withdraw_V2 | Ty_Deposit_V2 | Ty_Remove_Order_V3
  | Ty_Clear_V3 | Ty_After_Clear_V2 | Ty_Meta_V1_2 | Ty_Interpreter_Store_Set | Ty_Unknown

datatype decoded_event =
    Add_Order_V3 add_order_v3
  | Take_Order_V4 take_order_v4
  | Withdraw_V2 withdraw_v2
  | Deposit_V2 deposit_v2
  | Remove_Order_V3 remove_order_v3
  | Clear_V3 clear_v3
  | After_Clear_V2 after_clear_v2
  | Meta_V1_2 meta_v1_2
  | Interpreter_Store_Set address store_set
  | Unknown string string

record decoded_event_data =
  de_event_type :: event_type
  de_block_number :: u256
  de_block_timestamp :: u256
  de_transaction_hash :: b256
  de_log_index :: u256
  de_decoded_data :: decoded_event

record abi_ops =
  sig_add_order :: bytes
  sig_take_order :: bytes
  sig_withdraw :: bytes
  sig_deposit :: bytes
  sig_remove_order :: bytes
  sig_clear :: bytes
  sig_after_clear :: bytes
  sig_meta :: bytes
  sig_set :: bytes
  raw_add_order :: "b256 list \<Rightarrow> bytes \<Rightarrow> (add_order_v3, ext_error) result"
  raw_take_order :: "b256 list \<Rightarrow> bytes \<Rightarrow> (take_order_v4, ext_error) result"
  raw_withdraw :: "b256 list \<Rightarrow> bytes \<Rightarrow> (withdraw_v2, ext_error) result"
  raw_deposit :: "b256 list \<Rightarrow> bytes \<Rightarrow> (deposit_v2, ext_error) result"
  raw_remove_order :: "b256 list \<Rightarrow> bytes \<Rightarrow> (remove_order_v3, ext_error) result"
  raw_clear :: "b256 list \<Rightarrow> bytes \<Rightarrow> (clear_v3, ext_error) result"
  raw_after_clear :: "b256 list \<Rightarrow> bytes \<Rightarrow> (after_clear_v2, ext_error) result"
  raw_meta :: "b256 list \<Rightarrow> bytes \<Rightarrow> (meta_v1_2, ext_error) result"
  raw_set :: "b256 list \<Rightarrow> bytes \<Rightarrow> (store_set, ext_error) result"
  hex_text :: "bytes \<Rightarrow> string"

section \<open>Decoding\<close>

definition from_topic :: "abi_ops \<Rightarrow> bytes \<Rightarrow> event_type" where
  "from_topic A topic =
     (if topic = sig_add_order A then Ty_Add_Order_V3
      else if topic = sig_take_order A then Ty_Take_Order_V4
      else if topic = sig_withdraw A then Ty_Withdraw_V2
      else if topic = sig_deposit A then Ty_Deposit_V2
      else if topic = sig_remove_order A then Ty_Remove_Order_V3
      else if topic = sig_clear A then Ty_Clear_V3
      else if topic = sig_after_clear A then Ty_After_Clear_V2
      else if topic = sig_meta A then Ty_Meta_V1_2
      else if topic = sig_set A then Ty_Interpreter_Store_Set
      else Ty_Unknown)"

definition topic_word :: "bytes \<Rightarrow> (b256, decode_error) result" where
  "topic_word topic =
     (if length topic = 32 then Ok (word_rcat topic) else Err (Abi_Decode ''topic length != 32 bytes''))"

definition decode_event ::
  "(b256 list \<Rightarrow> bytes \<Rightarrow> ('a, ext_error) result) \<Rightarrow> log_entry \<Rightarrow> ('a, decode_error) result" where
  "decode_event decode_raw_log event =
     rbind (rmap topic_word (le_topics event)) (\<lambda>topics.
       map_err Abi_Decode (decode_raw_log topics (le_data event)))"

definition decode_payload ::
  "abi_ops \<Rightarrow> event_type \<Rightarrow> log_entry \<Rightarrow> (decoded_event, decode_error) result" where
  "decode_payload A ty event =
     (case ty of
        Ty_Add_Order_V3 \<Rightarrow> rbind (decode_event (raw_add_order A) event) (\<lambda>x. Ok (Add_Order_V3 x))
      | Ty_Take_Order_V4 \<Rightarrow> rbind (decode_event (raw_take_order A) event) (\<lambda>x. Ok (Take_Order_V4 x))
      | Ty_Withdraw_V2 \<Rightarrow> rbind (decode_event (raw_withdraw A) event) (\<lambda>x. Ok (Withdraw_V2 x))
      | Ty_Deposit_V2 \<Rightarrow> rbind (decode_event (raw_deposit A) event) (\<lambda>x. Ok (Deposit_V2 x))
      | Ty_Remove_Order_V3 \<Rightarrow>
          rbind (decode_event (raw_remove_order A) event) (\<lambda>x. Ok (Remove_Order_V3 x))
      | Ty_Clear_V3 \<Rightarrow> rbind (decode_event (raw_clear A) event) (\<lambda>x. Ok (Clear_V3 x))
      | Ty_After_Clear_V2 \<Rightarrow>
          rbind (decode_event (raw_after_clear A) event) (\<lambda>x. Ok (After_Clear_V2 x))
      | Ty_Meta_V1_2 \<Rightarrow> rbind (decode_event (raw_meta A) event) (\<lambda>x. Ok (Meta_V1_2 x))
      | Ty_Interpreter_Store_Set \<Rightarrow>
          rbind (decode_event (raw_set A) event) (\<lambda>x.
            Ok (Interpreter_Store_Set (le_address event) x))
      | Ty_Unknown \<Rightarrow>
          Ok (Unknown (hex_text A (le_data event)) ''Unknown event type - could not decode''))"

definition decode_one ::
  "abi_ops \<Rightarrow> nat \<times> log_entry \<Rightarrow> (decoded_event_data, decode_error) result" where
  "decode_one A p =
     (let (index, event) = p in
      rbind (ok_or (case le_topics event of [] \<Rightarrow> None | t # _ \<Rightarrow> Some t)
               (Missing_Required_Field ''topic0'' index)) (\<lambda>topic0.
      if le_data event = [] then Err (Missing_Required_Field ''data'' index)
      else
        let event_type = from_topic A topic0 in
        rbind (decode_payload A event_type event) (\<lambda>decoded_data.
        Ok \<lparr>de_event_type = event_type, de_block_number = le_block_number event,
            de_block_timestamp = (case le_block_timestamp event of None \<Rightarrow> 0 | Some t \<Rightarrow> t),
            de_transaction_hash = le_transaction_hash event, de_log_index = le_log_index event,
            de_decoded_data = decoded_data\<rparr>)))"

definition decode_events ::
  "abi_ops \<Rightarrow> log_entry list \<Rightarrow> (decoded_event_data list, decode_error) result" where
  "decode_events A events = rmap (decode_one A) (enumerate 0 events)"

definition sort_decoded_events_by_block_and_log ::
  "decoded_event_data list \<Rightarrow> decoded_event_data list" where
  "sort_decoded_events_by_block_and_log events =
     sort_key (\<lambda>e. (de_block_number e, de_log_index e)) events"

section \<open>Collecting addresses\<close>

definition order_tokens_vec :: "order_v4 \<Rightarrow> address list" where
  "order_tokens_vec order = map io_token (valid_inputs order) @ map io_token (valid_outputs order)"

fun event_tokens :: "decoded_event \<Rightarrow> address list" where
  "event_tokens (Deposit_V2 deposit) = [dp2_token deposit]"
| "event_tokens (Withdraw_V2 withdraw) = [wd2_token withdraw]"
| "event_tokens (Add_Order_V3 add) = order_tokens_vec (ao3_order add)"
| "event_tokens (Remove_Order_V3 removed) = order_tokens_vec (ro3_order removed)"
| "event_tokens (Take_Order_V4 taken) = order_tokens_vec (toc_order (to4_config taken))"
| "event_tokens (Clear_V3 clear) =
     order_tokens_vec (cl3_alice clear) @ order_tokens_vec (cl3_bob clear)"
| "event_tokens _ = []"

definition collect_token_addresses :: "decoded_event_data list \<Rightarrow> address list" where
  "collect_token_addresses events =
     sorted_list_of_set (set (concat (map (\<lambda>e. event_tokens (de_decoded_data e)) events)))"

fun insert_store :: "decoded_event \<Rightarrow> address set \<Rightarrow> address set" where
  "insert_store (Add_Order_V3 add) out = insert (ev_store (order_evaluable (ao3_order add))) out"
| "insert_store (Remove_Order_V3 removed) out =
     insert (ev_store (order_evaluable (ro3_order removed))) out"
| "insert_store (Take_Order_V4 taken) out =
     insert (ev_store (order_evaluable (toc_order (to4_config taken)))) out"
| "insert_store (Interpreter_Store_Set store_address payload) out = insert store_address out"
| "insert_store _ out = out"

definition collect_store_addresses :: "decoded_event_data list \<Rightarrow> address set" where
  "collect_store_addresses events =
     fold (\<lambda>e. insert_store (de_decoded_data e)) events {}"

section \<open>Properties\<close>

definition event_tag :: "decoded_event \<Rightarrow> event_type" where
  "event_tag e = (case e of
     Add_Order_V3 _ \<Rightarrow> Ty_Add_Order_V3 | Take_Order_V4 _ \<Rightarrow> Ty_Take_Order_V4
   | Withdraw_V2 _ \<Rightarrow> Ty_Withdraw_V2 | Deposit_V2 _ \<Rightarrow> Ty_Deposit_V2
   | Remove_Order_V3 _ \<Rightarrow> Ty_Remove_Order_V3 | Clear_V3 _ \<Rightarrow> Ty_Clear_V3
   | After_Clear_V2 _ \<Rightarrow> Ty_After_Clear_V2 | Meta_V1_2 _ \<Rightarrow> Ty_Meta_V1_2
   | Interpreter_Store_Set _ _ \<Rightarrow> Ty_Interpreter_Store_Set | Unknown _ _ \<Rightarrow> Ty_Unknown)"

lemma decode_payload_tag: "decode_payload A ty e = Ok d \<Longrightarrow> event_tag d = ty"
  by (cases ty) (auto simp: decode_payload_def event_tag_def ok_iff)

lemma decode_one_Ok:
  assumes "decode_one A (i, e) = Ok d"
  shows "de_block_number d = le_block_number e \<and> de_log_index d = le_log_index e \<and>
    de_transaction_hash d = le_transaction_hash e \<and>
    event_tag (de_decoded_data d) = de_event_type d \<and>
    (\<forall>t. le_block_timestamp e = Some t \<longrightarrow> de_block_timestamp d = t)"
  using assms by (auto simp: decode_one_def Let_def ok_iff dest: decode_payload_tag split: if_splits)

text \<open>
  Decoding keeps the logs: one event per log, in the same order, with the block, the
  position, the transaction and the timestamp of its log and with an event type that agrees with
  its payload.
\<close>
lemma decoding_is_positional:
  assumes "decode_events A logs = Ok events"
  shows "length events = length logs \<and>
    (\<forall>i<length logs. de_block_number (events ! i) = le_block_number (logs ! i) \<and>
       de_log_index (events ! i) = le_log_index (logs ! i) \<and>
       de_transaction_hash (events ! i) = le_transaction_hash (logs ! i) \<and>
       event_tag (de_decoded_data (events ! i)) = de_event_type (events ! i) \<and>
       (\<forall>t. le_block_timestamp (logs ! i) = Some t \<longrightarrow> de_block_timestamp (events ! i) = t))"
proof -
  have "decode_one A (i, logs ! i) = Ok (events ! i)" if "i < length logs" for i
    using rmap_Ok_nth[OF assms[unfolded decode_events_def], of i] that
    by (simp add: nth_enumerate_eq)
  then show ?thesis
    using rmap_Ok_length[OF assms[unfolded decode_events_def]] decode_one_Ok by fastforce
qed

definition example_abi :: abi_ops where
  "example_abi = \<lparr>sig_add_order = [1], sig_take_order = [2], sig_withdraw = [3], sig_deposit = [4],
     sig_remove_order = [5], sig_clear = [6], sig_after_clear = [7], sig_meta = [8], sig_set = [9],
     raw_add_order = (\<lambda>t d. Err ''abi''), raw_take_order = (\<lambda>t d. Err ''abi''),
     raw_withdraw = (\<lambda>t d. Err ''abi''), raw_deposit = (\<lambda>t d. Err ''abi''),
     raw_remove_order = (\<lambda>t d. Err ''abi''), raw_clear = (\<lambda>t d. Err ''abi''),
     raw_after_clear = (\<lambda>t d. Err ''abi''), raw_meta = (\<lambda>t d. Err ''abi''),
     raw_set = (\<lambda>t d. Err ''abi''), hex_text = (\<lambda>d. ''0x'')\<rparr>"

lemma decoding_is_positional_example:
  "\<exists>events. decode_events example_abi
     [(example_log 7 12 3)\<lparr>le_topics := [[0]], le_data := [1]\<rparr>] = Ok events \<and>
   de_log_index (events ! 0) = 3"
proof -
  let ?logs = "[(example_log 7 12 3)\<lparr>le_topics := [[0]], le_data := [1]\<rparr>]"
  have "\<exists>events. decode_events example_abi ?logs = Ok events"
    by (simp add: decode_events_def decode_one_def decode_payload_def from_topic_def
        example_abi_def example_log_def Let_def)
  then obtain events where run: "decode_events example_abi ?logs = Ok events" by blast
  from decoding_is_positional[OF run] run show ?thesis by (simp add: example_log_def)
qed

lemma collect_stores_set:
  "fold (\<lambda>e. insert_store (de_decoded_data e)) events S =
   S \<union> (\<Union>e\<in>set events. insert_store (de_decoded_data e) {})"
proof (induction events arbitrary: S)
  case Nil
  then show ?case by simp
next
  case (Cons e events)
  have "insert_store (de_decoded_data e) S = S \<union> insert_store (de_decoded_data e) {}"
    by (cases "de_decoded_data e") auto
  then show ?case by (auto simp: Cons.IH)
qed

text \<open>
  The tokens collected from events are exactly the tokens they mention, each once and
  in increasing order, and collecting from more events only adds: of two lists of events put
  together it gives the union.
\<close>
lemma collected_addresses_are_mentioned:
  "set (collect_token_addresses events) =
     (\<Union>e\<in>set events. set (event_tokens (de_decoded_data e))) \<and>
   sorted (collect_token_addresses events) \<and> distinct (collect_token_addresses events) \<and>
   collect_store_addresses (events @ later) =
     collect_store_addresses events \<union> collect_store_addresses later"
  by (auto simp: collect_token_addresses_def collect_store_addresses_def collect_stores_set)

end
