(* ===== verification/Sync_Apply.thy ===== *)
theory Sync_Apply
  imports Local_Db Events
begin

text \<open>
  \<open>local_db/pipeline/adapters/apply.rs\<close>: the SQL batch of a sync cycle and its execution.

  The SQL of tokens, events and derived tables (\<open>insert.rs\<close> and the query templates) is the
  record \<open>apply_sql\<close>: what is modelled here is which statements a batch holds and in which order.
  The statement that moves the watermark is modelled in full.
\<close>

section \<open>The batch\<close>

record token_info =
  ti_name :: string
  ti_symbol :: string
  ti_decimals :: u8

record apply_target_info =
  at_raindex_id :: raindex_identifier
  at_start_block :: u64
  at_target_block :: u64
  at_defer_analyze :: bool
  at_hash :: b256

record apply_sql =
  as_token_upserts :: "raindex_identifier \<Rightarrow> (address \<times> token_info) list \<Rightarrow> sql_batch"
  as_decoded_events :: "raindex_identifier \<Rightarrow> decoded_event_data list \<Rightarrow> (address \<Rightarrow> u8 option)
    \<Rightarrow> (sql_batch, ext_error) result"
  as_vault_deltas :: "raindex_identifier \<Rightarrow> u64 \<Rightarrow> u64 \<Rightarrow> sql_batch"
  as_vault_balances :: "raindex_identifier \<Rightarrow> u64 \<Rightarrow> u64 \<Rightarrow> sql_batch"
  as_derived_trades :: "raindex_identifier \<Rightarrow> u64 \<Rightarrow> u64 \<Rightarrow> sql_batch"
  as_address_text :: "address \<Rightarrow> string"
  as_hash_text :: "b256 \<Rightarrow> string"

definition upsert_target_watermark_sql :: string where
  "upsert_target_watermark_sql =
     ''INSERT INTO target_watermarks (chain_id, raindex_address, last_block, last_hash)'' @ [CHR 0x0A] @
     ''VALUES (?1, ?2, ?3, ?4)'' @ [CHR 0x0A] @
     ''ON CONFLICT(chain_id, raindex_address) DO UPDATE SET'' @ [CHR 0x0A] @
     ''  last_block = excluded.last_block,'' @ [CHR 0x0A] @
     ''  last_hash = excluded.last_hash,'' @ [CHR 0x0A] @
     ''  updated_at = (CAST(strftime('' @ [CHR 0x27] @ ''%s'' @ [CHR 0x27] @ '', '' @ [CHR 0x27] @
     ''now'' @ [CHR 0x27] @ '') AS INTEGER) * 1000);'' @ [CHR 0x0A]"

definition upsert_target_watermark_stmt ::
  "apply_sql \<Rightarrow> raindex_identifier \<Rightarrow> u64 \<Rightarrow> b256 \<Rightarrow> sql_statement" where
  "upsert_target_watermark_stmt Q raindex_id last_block last_hash =
     sql_new_with_params upsert_target_watermark_sql
       [U64 (ucast (ri_chain_id raindex_id)), Text (as_address_text Q (ri_raindex_address raindex_id)),
        U64 last_block, Text (as_hash_text Q last_hash)]"

definition decimals_by_token ::
  "erc20_token_row list \<Rightarrow> (address \<times> token_info) list \<Rightarrow> address \<Rightarrow> u8 option" where
  \<comment> \<open>collected into a \<open>HashMap\<close>: a later entry replaces an earlier one\<close>
  "decimals_by_token existing_tokens tokens_to_upsert =
     map_of (rev (map (\<lambda>row. (tk_token_address row, tk_decimals row)) existing_tokens @
                  map (\<lambda>(addr, info). (addr, ti_decimals info)) tokens_to_upsert))"

definition build_batch ::
  "apply_sql \<Rightarrow> apply_target_info \<Rightarrow> log_entry list \<Rightarrow> decoded_event_data list
   \<Rightarrow> erc20_token_row list \<Rightarrow> (address \<times> token_info) list \<Rightarrow> (sql_batch, local_db_error) result" where
  "build_batch Q target_info raw_logs decoded_events existing_tokens tokens_to_upsert =
     (let raindex_id = at_raindex_id target_info;
          start_block = at_start_block target_info;
          target_block = at_target_block target_info;
          batch1 = (if tokens_to_upsert \<noteq> []
                    then batch_extend (as_token_upserts Q raindex_id tokens_to_upsert) batch_new
                    else batch_new) in
      rbind (map_err Insert_Error (as_decoded_events Q raindex_id decoded_events
               (decimals_by_token existing_tokens tokens_to_upsert))) (\<lambda>decoded_batch.
      let batch2 = batch_extend decoded_batch batch1;
          batch3 = (if start_block \<le> target_block
                    then batch_extend (as_derived_trades Q raindex_id start_block target_block)
                          (batch_extend (as_vault_balances Q raindex_id start_block target_block)
                            (batch_extend (as_vault_deltas Q raindex_id start_block target_block)
                              batch2))
                    else batch2);
          batch4 = batch_add (upsert_target_watermark_stmt Q raindex_id target_block
                                (at_hash target_info)) batch3 in
      Ok (if \<not> at_defer_analyze target_info then batch_add (sql_new ''ANALYZE'') batch4
          else batch4)))"

definition persist :: "'w db_ops \<Rightarrow> sql_batch \<Rightarrow> (unit, local_db_error, 'w) io" where
  "persist db batch = dbq (db_execute_batch db (ensure_transaction batch))"

section \<open>What a batch holds\<close>

lemma batch_ops_statements [simp]:
  "batch_statements batch_new = []"
  "batch_statements (batch_add st b) = batch_statements b @ [st]"
  "batch_statements (batch_extend c b) = batch_statements b @ batch_statements c"
  by (simp_all add: batch_new_def batch_add_def batch_extend_def)

text \<open>
  The watermark is the last word of a batch: everything the cycle writes (the tokens,
  the events, and for a non-empty window the vault deltas, balances and trades of exactly that
  window) comes before the statement that moves the watermark of the raindex to the target block
  and its hash; only the refresh of the planner statistics may follow.
\<close>
lemma batch_ends_with_watermark:
  assumes "build_batch Q info logs events existing upserts = Ok batch"
  shows "\<exists>data decoded.
    as_decoded_events Q (at_raindex_id info) events (decimals_by_token existing upserts)
      = Ok decoded \<and>
    batch_statements batch = data @
      [\<lparr>sql_text = upsert_target_watermark_sql,
        sql_params = [U64 (ucast (ri_chain_id (at_raindex_id info))),
          Text (as_address_text Q (ri_raindex_address (at_raindex_id info))),
          U64 (at_target_block info), Text (as_hash_text Q (at_hash info))]\<rparr>] @
      (if at_defer_analyze info then [] else [sql_new ''ANALYZE'']) \<and>
    data = (if upserts = [] then []
            else batch_statements (as_token_upserts Q (at_raindex_id info) upserts)) @
      batch_statements decoded @
      (if at_start_block info \<le> at_target_block info
       then concat (map (\<lambda>f. batch_statements
              (f Q (at_raindex_id info) (at_start_block info) (at_target_block info)))
              [as_vault_deltas, as_vault_balances, as_derived_trades])
       else [])"
  using assms
  by (auto simp: build_batch_def Let_def ok_iff upsert_target_watermark_stmt_def
      sql_new_with_params)

definition example_sql :: apply_sql where
  "example_sql = \<lparr>as_token_upserts = (\<lambda>i ts. \<lparr>batch_statements = [sql_new ''INSERT INTO tokens'']\<rparr>),
     as_decoded_events = (\<lambda>i es ds. Ok \<lparr>batch_statements = [sql_new ''INSERT INTO events'']\<rparr>),
     as_vault_deltas = (\<lambda>i a b. \<lparr>batch_statements = [sql_new ''INSERT INTO deltas'']\<rparr>),
     as_vault_balances = (\<lambda>i a b. \<lparr>batch_statements = [sql_new ''INSERT INTO balances'']\<rparr>),
     as_derived_trades = (\<lambda>i a b. \<lparr>batch_statements = [sql_new ''INSERT INTO trades'']\<rparr>),
     as_address_text = (\<lambda>a. ''0x''), as_hash_text = (\<lambda>h. ''0x'')\<rparr>"

definition example_info :: apply_target_info where
  "example_info = \<lparr>at_raindex_id = \<lparr>ri_chain_id = 1, ri_raindex_address = 9\<rparr>, at_start_block = 3,
     at_target_block = 7, at_defer_analyze = True, at_hash = 5\<rparr>"

lemma batch_ends_with_watermark_example:
  "\<exists>batch. build_batch example_sql example_info [] [] [] [] = Ok batch \<and>
     sql_params (last (batch_statements batch)) ! 2 = U64 7"
proof -
  have "\<exists>batch. build_batch example_sql example_info [] [] [] [] = Ok batch"
    by (simp add: build_batch_def example_sql_def Let_def)
  then obtain batch where run: "build_batch example_sql example_info [] [] [] [] = Ok batch"
    by blast
  from batch_ends_with_watermark[OF run] run show ?thesis
    by (auto simp: example_info_def numeral_2_eq_2)
qed

end
