(* ===== verification/Sync_Engine.thy ===== *)
theory Sync_Engine
  imports Sync_Window Sync_Apply
begin

text \<open>
  \<open>local_db/pipeline/engine.rs\<close>: one sync cycle, from the bootstrap through the window, the logs,
  the tokens and the batch to the database. The six adapters the engine is built from (traits in
  the source) are the fields of \<open>engine\<close>. The two futures the code joins (the lookup of known
  tokens and the fetch of store logs) are run one after the other, both to their end.

  \<open>keeps P m\<close> says that the operation \<open>m\<close> leaves the property \<open>P\<close> of the world alone; the
  collection \<open>keeping\<close> carries it through a cycle up to the batch it persists.
\<close>

section \<open>Data\<close>

datatype sync_phase =
    Preparing_Local_Database | Fetching_Sync_Manifest | Downloading_Initial_Dump
  | Fetching_Latest_Block | Running_Bootstrap | Computing_Sync_Window | Fetching_Raindex_Logs
  | Decoding_Raindex_Logs | Fetching_Store_Logs | Decoding_Store_Logs | Fetching_Token_Metadata
  | Building_Sql_Batch | Persisting_To_Database | Running_Post_Sync_Export | Idle

record sync_inputs =
  in_raindex_id :: raindex_identifier
  in_metadata_rpcs :: "string list"
  in_cfg :: sync_config
  in_dump_str :: "string option"
  in_defer_analyze :: bool
  in_block_number_threshold :: u32
  in_manifest_end_block :: u64

record sync_outcome =
  so_raindex_id :: raindex_identifier
  so_start_block :: u64
  so_target_block :: u64
  so_fetched_logs :: nat
  so_caught_up :: bool
  so_decoded_events :: nat

record bootstrap_config =
  bo_raindex_id :: raindex_identifier
  bo_dump_sql :: "string option"
  bo_dump_stmt :: "sql_batch option"
  bo_latest_block :: u64
  bo_block_number_threshold :: u32
  bo_deployment_block :: u64

record 'w engine =
  en_bootstrap_run :: "bootstrap_config \<Rightarrow> (unit, local_db_error, 'w) io"
  en_window_compute :: "raindex_identifier \<Rightarrow> sync_config \<Rightarrow> u64 \<Rightarrow> (u64 \<times> u64, local_db_error, 'w) io"
  en_latest_block :: "(u64, local_db_error, 'w) io"
  en_block_hash :: "u64 \<Rightarrow> (b256, local_db_error, 'w) io"
  en_fetch_raindex :: "address \<Rightarrow> u64 \<Rightarrow> u64 \<Rightarrow> fetch_config \<Rightarrow> (log_entry list, local_db_error, 'w) io"
  en_fetch_stores :: "address list \<Rightarrow> u64 \<Rightarrow> u64 \<Rightarrow> fetch_config
    \<Rightarrow> (log_entry list, local_db_error, 'w) io"
  en_decode :: "log_entry list \<Rightarrow> (decoded_event_data list, local_db_error) result"
  en_load_existing :: "raindex_identifier \<Rightarrow> address list
    \<Rightarrow> (erc20_token_row list, local_db_error, 'w) io"
  en_fetch_missing :: "address list \<Rightarrow> fetch_config
    \<Rightarrow> ((address \<times> token_info) list, local_db_error, 'w) io"
  en_build_batch :: "apply_target_info \<Rightarrow> log_entry list \<Rightarrow> decoded_event_data list
    \<Rightarrow> erc20_token_row list \<Rightarrow> (address \<times> token_info) list \<Rightarrow> (sql_batch, local_db_error) result"
  en_persist :: "sql_batch \<Rightarrow> (unit, local_db_error, 'w) io"
  en_export_dump :: "raindex_identifier \<Rightarrow> u64 \<Rightarrow> (unit, local_db_error, 'w) io"
  en_send :: "sync_phase \<Rightarrow> (unit, local_db_error, 'w) io"

section \<open>The phases of a cycle\<close>

fun split_inclusive :: "string \<Rightarrow> string list" where
  "split_inclusive [] = []"
| "split_inclusive (c # cs) =
     (if c = CHR 0x0A then [c] # split_inclusive cs
      else case split_inclusive cs of [] \<Rightarrow> [[c]] | l # ls \<Rightarrow> (c # l) # ls)"

definition strip_line_end :: "string \<Rightarrow> string" where
  "strip_line_end l =
     (if l \<noteq> [] \<and> last l = CHR 0x0A then
        let b = butlast l in if b \<noteq> [] \<and> last b = CHR 0x0D then butlast b else b
      else l)"

definition text_lines :: "string \<Rightarrow> string list" where
  \<comment> \<open>\<open>str::lines\<close>\<close>
  "text_lines s = map strip_line_end (split_inclusive s)"

definition dump_statements :: "string \<Rightarrow> sql_batch" where
  "dump_statements dump =
     fold (\<lambda>line b. batch_add (sql_new line) b) (text_lines dump) batch_new"

definition bootstrap_phase ::
  "bool \<Rightarrow> 'w engine \<Rightarrow> sync_inputs \<Rightarrow> (u64, local_db_error, 'w) io" where
  \<comment> \<open>the flag is \<open>target_family = "wasm"\<close>\<close>
  "bootstrap_phase wasm E input =
     io_bind (en_send E Fetching_Latest_Block) (\<lambda>_.
     io_bind (en_latest_block E) (\<lambda>latest_block.
     io_bind (en_send E Running_Bootstrap) (\<lambda>_.
     io_bind (en_bootstrap_run E \<lparr>bo_raindex_id = in_raindex_id input,
                bo_dump_sql = in_dump_str input,
                bo_dump_stmt = (if wasm then None else map_option dump_statements (in_dump_str input)),
                bo_latest_block = in_manifest_end_block input,
                bo_block_number_threshold = in_block_number_threshold input,
                bo_deployment_block = sy_deployment_block (in_cfg input)\<rparr>) (\<lambda>_.
     io_return latest_block))))"

definition compute_window_phase ::
  "'w engine \<Rightarrow> sync_inputs \<Rightarrow> u64 \<Rightarrow> (u64 \<times> u64, local_db_error, 'w) io" where
  "compute_window_phase E input latest_block =
     io_bind (en_send E Computing_Sync_Window) (\<lambda>_.
     en_window_compute E (in_raindex_id input) (in_cfg input) latest_block)"

definition gather_raindex ::
  "'w engine \<Rightarrow> sync_inputs \<Rightarrow> u64 \<Rightarrow> u64
   \<Rightarrow> (log_entry list \<times> decoded_event_data list, local_db_error, 'w) io" where
  "gather_raindex E input start_block target_block =
     io_bind (en_send E Fetching_Raindex_Logs) (\<lambda>_.
     io_bind (en_fetch_raindex E (ri_raindex_address (in_raindex_id input)) start_block target_block
                (sy_fetch (in_cfg input))) (\<lambda>raindex_logs.
     io_bind (en_send E Decoding_Raindex_Logs) (\<lambda>_.
     io_bind (io_pure (en_decode E raindex_logs)) (\<lambda>decoded_events.
     io_return (raindex_logs, decoded_events)))))"

definition store_fetch ::
  "'w engine \<Rightarrow> sync_inputs \<Rightarrow> u64 \<Rightarrow> u64 \<Rightarrow> address list
   \<Rightarrow> (log_entry list \<times> decoded_event_data list, local_db_error, 'w) io" where
  "store_fetch E input start_block target_block store_addresses =
     (if store_addresses = [] then io_return ([], [])
      else
        io_bind (en_send E Fetching_Store_Logs) (\<lambda>_.
        io_bind (en_fetch_stores E store_addresses start_block target_block
                   (sy_fetch (in_cfg input))) (\<lambda>logs.
        io_bind (en_send E Decoding_Store_Logs) (\<lambda>_.
        io_bind (io_pure (en_decode E logs)) (\<lambda>decoded.
        io_return (logs, decoded))))))"

definition load_store_logs_and_existing_tokens ::
  "'w engine \<Rightarrow> 'w db_ops \<Rightarrow> sync_inputs \<Rightarrow> u64 \<Rightarrow> u64 \<Rightarrow> decoded_event_data list
   \<Rightarrow> (log_entry list \<times> decoded_event_data list \<times> erc20_token_row list \<times> address list,
       local_db_error, 'w) io" where
  "load_store_logs_and_existing_tokens E db input start_block target_block decoded_events =
     io_bind (dbq (db_store_addresses db (in_raindex_id input))) (\<lambda>existing_store_rows.
     let store_addresses = collect_store_addresses decoded_events \<union>
           set (filter (\<lambda>a. a \<noteq> 0) existing_store_rows);
         token_addresses = collect_token_addresses decoded_events in
     io_bind (io_try (en_load_existing E (in_raindex_id input) token_addresses)) (\<lambda>tokens_res.
     io_bind (io_try (store_fetch E input start_block target_block
                        (sorted_list_of_set store_addresses))) (\<lambda>store_res.
     io_bind (io_pure tokens_res) (\<lambda>existing_tokens.
     io_bind (io_pure store_res) (\<lambda>(store_logs, decoded_store_events).
     io_return (store_logs, decoded_store_events, existing_tokens, token_addresses))))))"

definition resolve_token_upserts ::
  "'w engine \<Rightarrow> sync_inputs \<Rightarrow> address list \<Rightarrow> erc20_token_row list
   \<Rightarrow> ((address \<times> token_info) list, local_db_error, 'w) io" where
  "resolve_token_upserts E input token_addresses existing_tokens =
     (let existing_set = set (map tk_token_address existing_tokens);
          missing_tokens = filter (\<lambda>a. a \<notin> existing_set) token_addresses in
      if missing_tokens = [] then io_return []
      else
        io_bind (en_send E Fetching_Token_Metadata) (\<lambda>_.
        en_fetch_missing E missing_tokens (sy_fetch (in_cfg input))))"

definition apply_changes ::
  "'w engine \<Rightarrow> apply_target_info \<Rightarrow> log_entry list \<Rightarrow> decoded_event_data list
   \<Rightarrow> erc20_token_row list \<Rightarrow> (address \<times> token_info) list \<Rightarrow> (unit, local_db_error, 'w) io" where
  "apply_changes E info raw_logs decoded_events existing_tokens tokens_to_upsert =
     io_bind (en_send E Building_Sql_Batch) (\<lambda>_.
     io_bind (io_pure (en_build_batch E info raw_logs decoded_events existing_tokens
                         tokens_to_upsert)) (\<lambda>batch.
     io_bind (en_send E Persisting_To_Database) (\<lambda>_.
     io_bind (en_persist E batch) (\<lambda>_.
     io_bind (en_send E Running_Post_Sync_Export) (\<lambda>_.
     en_export_dump E (at_raindex_id info) (at_target_block info))))))"

text \<open>What a cycle reads before it writes: the logs, the events, the tokens and the block hash.\<close>

record gathered =
  ga_logs :: "log_entry list"
  ga_events :: "decoded_event_data list"
  ga_existing :: "erc20_token_row list"
  ga_upserts :: "(address \<times> token_info) list"
  ga_hash :: b256

definition gather_all ::
  "'w engine \<Rightarrow> 'w db_ops \<Rightarrow> sync_inputs \<Rightarrow> u64 \<Rightarrow> u64 \<Rightarrow> (gathered, local_db_error, 'w) io" where
  "gather_all E db input start_block target_block =
     io_bind (gather_raindex E input start_block target_block) (\<lambda>(raindex_logs, decoded_raindex).
     io_bind (load_store_logs_and_existing_tokens E db input start_block target_block decoded_raindex)
       (\<lambda>(store_logs, decoded_store, existing_tokens, token_addresses).
     let (all_raw_logs, decoded_events) =
           (if store_logs \<noteq> [] then
              (raindex_logs @ store_logs,
               sort_decoded_events_by_block_and_log (decoded_raindex @ decoded_store))
            else (raindex_logs, decoded_raindex)) in
     io_bind (resolve_token_upserts E input token_addresses existing_tokens) (\<lambda>tokens_to_upsert.
     io_bind (en_block_hash E target_block) (\<lambda>target_hash.
     io_return \<lparr>ga_logs = all_raw_logs, ga_events = decoded_events, ga_existing = existing_tokens,
                ga_upserts = tokens_to_upsert, ga_hash = target_hash\<rparr>))))"

definition engine_run ::
  "bool \<Rightarrow> 'w engine \<Rightarrow> 'w db_ops \<Rightarrow> sync_inputs \<Rightarrow> (sync_outcome, local_db_error, 'w) io" where
  "engine_run wasm E db input =
     io_bind (bootstrap_phase wasm E input) (\<lambda>latest_block.
     io_bind (compute_window_phase E input latest_block) (\<lambda>(start_block, target_block).
     let caught_up = requested_end_block (in_cfg input) latest_block \<le> target_block in
     if target_block < start_block then
       io_bind (en_send E Idle) (\<lambda>_.
       io_return \<lparr>so_raindex_id = in_raindex_id input, so_start_block = start_block,
                  so_target_block = target_block, so_fetched_logs = 0, so_caught_up = True,
                  so_decoded_events = 0\<rparr>)
     else
       io_bind (gather_all E db input start_block target_block) (\<lambda>g.
       io_bind (apply_changes E \<lparr>at_raindex_id = in_raindex_id input, at_start_block = start_block,
                  at_target_block = target_block, at_defer_analyze = in_defer_analyze input,
                  at_hash = ga_hash g\<rparr> (ga_logs g) (ga_events g) (ga_existing g) (ga_upserts g))
         (\<lambda>_.
       io_return \<lparr>so_raindex_id = in_raindex_id input, so_start_block = start_block,
                  so_target_block = target_block, so_fetched_logs = length (ga_logs g),
                  so_caught_up = caught_up, so_decoded_events = length (ga_events g)\<rparr>))))"

section \<open>What a cycle leaves alone\<close>

named_theorems keeping \<open>operations that leave a property of the world alone\<close>

definition keeps :: "('w \<Rightarrow> bool) \<Rightarrow> ('a, 'e, 'w) io \<Rightarrow> bool" where
  "keeps P m \<longleftrightarrow> (\<forall>w. P w \<longrightarrow> P (snd (m w)))"

lemma keepsD: "keeps P m \<Longrightarrow> m w = (r, w') \<Longrightarrow> P w \<Longrightarrow> P w'"
  by (metis keeps_def snd_conv)

lemma keeps_return [keeping]: "keeps P (io_return x)"
  by (simp add: keeps_def io_return_def)

lemma keeps_pure [keeping]: "keeps P (io_pure r)"
  by (simp add: keeps_def io_pure_def)

lemma keeps_bind [keeping]:
  assumes "keeps P m" "\<And>x. keeps P (f x)"
  shows "keeps P (io_bind m f)"
  using assms by (fastforce simp: keeps_def io_bind_def split: prod.splits result.splits)

lemma keeps_map_err [keeping]: "keeps P m \<Longrightarrow> keeps P (io_map_err g m)"
  by (auto simp: keeps_def io_map_err_def split: prod.splits)

lemma keeps_try [keeping]: "keeps P m \<Longrightarrow> keeps P (io_try m)"
  by (auto simp: keeps_def io_try_def split: prod.splits)

lemma keeps_if [keeping]: "keeps P m \<Longrightarrow> keeps P n \<Longrightarrow> keeps P (if b then m else n)"
  by simp

lemma keeps_split [keeping]: "(\<And>x y. keeps P (f x y)) \<Longrightarrow> keeps P (case p of (x, y) \<Rightarrow> f x y)"
  by (cases p) simp

text \<open>The adapters that read: all but the bootstrap and the persisting of a batch.\<close>

definition readers_keep :: "('w \<Rightarrow> bool) \<Rightarrow> 'w engine \<Rightarrow> 'w db_ops \<Rightarrow> bool" where
  "readers_keep P E db \<longleftrightarrow>
     (\<forall>i c l. keeps P (en_window_compute E i c l)) \<and> keeps P (en_latest_block E) \<and>
     (\<forall>n. keeps P (en_block_hash E n)) \<and> (\<forall>a s t c. keeps P (en_fetch_raindex E a s t c)) \<and>
     (\<forall>as s t c. keeps P (en_fetch_stores E as s t c)) \<and>
     (\<forall>i as. keeps P (en_load_existing E i as)) \<and> (\<forall>as c. keeps P (en_fetch_missing E as c)) \<and>
     (\<forall>i n. keeps P (en_export_dump E i n)) \<and> (\<forall>p. keeps P (en_send E p)) \<and>
     (\<forall>i. keeps P (db_store_addresses db i))"

lemma readers_keepD [keeping]:
  assumes "readers_keep P E db"
  shows "keeps P (en_window_compute E i c l)" "keeps P (en_latest_block E)"
    "keeps P (en_block_hash E n)" "keeps P (en_fetch_raindex E a s t fc)"
    "keeps P (en_fetch_stores E as s t fc)" "keeps P (en_load_existing E i as)"
    "keeps P (en_fetch_missing E as fc)" "keeps P (en_export_dump E i n)" "keeps P (en_send E p)"
    "keeps P (db_store_addresses db i)"
  using assms by (simp_all add: readers_keep_def)

lemma keeps_gather_raindex [keeping]:
  "readers_keep P E db \<Longrightarrow> keeps P (gather_raindex E input s t)"
  unfolding gather_raindex_def by (intro keeping)

lemma keeps_store_fetch [keeping]: "readers_keep P E db \<Longrightarrow> keeps P (store_fetch E input s t as)"
  unfolding store_fetch_def by (intro keeping)

lemma keeps_load_store [keeping]:
  "readers_keep P E db \<Longrightarrow> keeps P (load_store_logs_and_existing_tokens E db input s t es)"
  unfolding load_store_logs_and_existing_tokens_def Let_def by (intro keeping)

lemma keeps_resolve [keeping]: "readers_keep P E db \<Longrightarrow> keeps P (resolve_token_upserts E input as ts)"
  unfolding resolve_token_upserts_def Let_def by (intro keeping)

lemma keeps_gather_all [keeping]: "readers_keep P E db \<Longrightarrow> keeps P (gather_all E db input s t)"
  unfolding gather_all_def Let_def by (intro keeping)

lemma keeps_window_phase [keeping]:
  "readers_keep P E db \<Longrightarrow> keeps P (compute_window_phase E input latest)"
  unfolding compute_window_phase_def by (intro keeping)

text \<open>
  A cycle seen through an observation \<open>f\<close> of the world that the readers do not change: either
  nothing is persisted, or one batch is, built for the window of the cycle, and the observation
  is what the persisting of that batch leaves.
\<close>

definition observed :: "('w \<Rightarrow> 'x) \<Rightarrow> 'w engine \<Rightarrow> 'w db_ops \<Rightarrow> bool" where
  "observed f E db \<longleftrightarrow> (\<forall>x. readers_keep (\<lambda>w. f w = x) E db)"

lemma observed_keep:
  assumes "observed f E db" "\<And>x. readers_keep (\<lambda>w. f w = x) E db \<Longrightarrow> keeps (\<lambda>w. f w = x) m"
    and "m w = (r, w')"
  shows "f w' = f w"
proof -
  have "keeps (\<lambda>v. f v = f w) m" using assms(1,2) by (simp add: observed_def)
  from keepsD[OF this assms(3)] show ?thesis by simp
qed

definition cycle_info :: "sync_inputs \<Rightarrow> u64 \<Rightarrow> u64 \<Rightarrow> b256 \<Rightarrow> apply_target_info" where
  "cycle_info input start target hash = \<lparr>at_raindex_id = in_raindex_id input,
     at_start_block = start, at_target_block = target, at_defer_analyze = in_defer_analyze input,
     at_hash = hash\<rparr>"

text \<open>
  What a cycle for the blocks from \<open>start\<close> to \<open>target\<close> has to have read, said of the answers of the
  node and the database: the raindex logs of exactly these blocks; the logs of these blocks of
  every store that the raindex events mention or the database knows; the events both decode to, in
  the order of the blocks when there are store logs; the tokens of the raindex events, those the
  database does not know fetched; and the hash of the target block.
\<close>

definition answered :: "('a, 'e, 'w) io \<Rightarrow> 'a \<Rightarrow> bool" where
  "answered m x \<longleftrightarrow> (\<exists>w w'. m w = (Ok x, w'))"

lemma answeredI: "m w = (Ok x, w') \<Longrightarrow> answered m x"
  by (auto simp: answered_def)

definition store_data ::
  "'w engine \<Rightarrow> sync_inputs \<Rightarrow> u64 \<Rightarrow> u64 \<Rightarrow> address set \<Rightarrow> log_entry list \<Rightarrow> decoded_event_data list
   \<Rightarrow> bool" where
  "store_data E input start target stores logs events \<longleftrightarrow>
     (if stores = {} then logs = [] \<and> events = []
      else answered (en_fetch_stores E (sorted_list_of_set stores) start target
             (sy_fetch (in_cfg input))) logs \<and> en_decode E logs = Ok events)"

definition token_data ::
  "'w engine \<Rightarrow> sync_inputs \<Rightarrow> address list \<Rightarrow> erc20_token_row list \<Rightarrow> (address \<times> token_info) list
   \<Rightarrow> bool" where
  "token_data E input tokens existing upserts \<longleftrightarrow>
     answered (en_load_existing E (in_raindex_id input) tokens) existing \<and>
     (let missing = filter (\<lambda>a. a \<notin> set (map tk_token_address existing)) tokens in
      if missing = [] then upserts = []
      else answered (en_fetch_missing E missing (sy_fetch (in_cfg input))) upserts)"

definition window_data ::
  "'w engine \<Rightarrow> 'w db_ops \<Rightarrow> sync_inputs \<Rightarrow> u64 \<Rightarrow> u64 \<Rightarrow> gathered \<Rightarrow> bool" where
  "window_data E db input start target g \<longleftrightarrow>
     (\<exists>raindex_logs raindex_events known store_logs store_events.
       answered (en_fetch_raindex E (ri_raindex_address (in_raindex_id input)) start target
         (sy_fetch (in_cfg input))) raindex_logs \<and>
       en_decode E raindex_logs = Ok raindex_events \<and>
       answered (db_store_addresses db (in_raindex_id input)) known \<and>
       store_data E input start target
         (collect_store_addresses raindex_events \<union> (set known - {0})) store_logs store_events \<and>
       ga_logs g = raindex_logs @ store_logs \<and>
       mset (ga_events g) = mset raindex_events + mset store_events \<and>
       (store_logs \<noteq> [] \<longrightarrow> sorted (map (\<lambda>e. (de_block_number e, de_log_index e)) (ga_events g))) \<and>
       token_data E input (collect_token_addresses raindex_events) (ga_existing g) (ga_upserts g) \<and>
       answered (en_block_hash E target) (ga_hash g))"

lemma store_fetch_data:
  assumes "store_fetch E input s t (sorted_list_of_set stores) w = (Ok (logs, events), w')"
    and "finite stores"
  shows "store_data E input s t stores logs events"
  using assms by (auto simp: store_fetch_def store_data_def ok_iff intro: answeredI split: if_splits)

lemma resolve_token_data:
  assumes "answered (en_load_existing E (in_raindex_id input) tokens) existing"
    and "resolve_token_upserts E input tokens existing w2 = (Ok upserts, w3)"
  shows "token_data E input tokens existing upserts"
  using assms
  by (auto simp: resolve_token_upserts_def token_data_def Let_def ok_iff intro: answeredI
      split: if_splits)

lemma finite_stores: "finite (collect_store_addresses events)"
proof -
  have "finite (insert_store e {})" for e by (cases e) auto
  then show ?thesis by (simp add: collect_store_addresses_def collect_stores_set)
qed

lemma sorted_events:
  "sorted (map (\<lambda>e. (de_block_number e, de_log_index e)) (sort_decoded_events_by_block_and_log es))"
  "mset (sort_decoded_events_by_block_and_log es) = mset es"
  by (simp_all add: sort_decoded_events_by_block_and_log_def)

lemma gather_raindex_data:
  assumes "gather_raindex E input s t w = (Ok (logs, events), w')"
  shows "answered (en_fetch_raindex E (ri_raindex_address (in_raindex_id input)) s t
      (sy_fetch (in_cfg input))) logs" "en_decode E logs = Ok events"
  using assms by (auto simp: gather_raindex_def ok_iff intro: answeredI)

lemma load_store_data:
  assumes "load_store_logs_and_existing_tokens E db input s t events w
      = (Ok (store_logs, store_events, existing, tokens), w')"
  obtains known where "answered (db_store_addresses db (in_raindex_id input)) known"
    "store_data E input s t (collect_store_addresses events \<union> (set known - {0}))
       store_logs store_events"
    "answered (en_load_existing E (in_raindex_id input) tokens) existing"
    "tokens = collect_token_addresses events"
proof -
  from assms obtain known w1 w2 w3 w4 where
    k: "db_store_addresses db (in_raindex_id input) w = (Ok known, w1)" and
    e: "en_load_existing E (in_raindex_id input) tokens w1 = (Ok existing, w2)" and
    s: "store_fetch E input s t (sorted_list_of_set (collect_store_addresses events \<union>
        {a \<in> set known. a \<noteq> 0})) w2 = (Ok (store_logs, store_events), w3)" and
    tokens: "tokens = collect_token_addresses events"
    by (auto simp: load_store_logs_and_existing_tokens_def ok_iff Let_def)
  have "{a \<in> set known. a \<noteq> 0} = set known - {0}" by auto
  with store_fetch_data[OF s] finite_stores
  have "store_data E input s t (collect_store_addresses events \<union> (set known - {0}))
      store_logs store_events" by simp
  from that[OF answeredI[where m = "db_store_addresses db (in_raindex_id input)", OF k] this
      answeredI[where m = "en_load_existing E (in_raindex_id input) tokens", OF e] tokens]
  show ?thesis .
qed

lemma gather_all_data:
  assumes "gather_all E db input s t w = (Ok g, w')" "en_decode E [] = Ok []"
  shows "window_data E db input s t g"
proof -
  let ?merged = "\<lambda>sl re se. if sl \<noteq> []
    then sort_decoded_events_by_block_and_log (re @ se) else re"
  from assms(1) obtain raindex_logs raindex_events store_logs store_events existing tokens upserts
      hash w1 w2 w3 where
    raindex: "gather_raindex E input s t w = (Ok (raindex_logs, raindex_events), w1)" and
    stores: "load_store_logs_and_existing_tokens E db input s t raindex_events w1
      = (Ok (store_logs, store_events, existing, tokens), w2)" and
    upserts: "resolve_token_upserts E input tokens existing w2 = (Ok upserts, w3)" and
    hash: "en_block_hash E t w3 = (Ok hash, w')" and
    g: "g = \<lparr>ga_logs = raindex_logs @ store_logs,
      ga_events = ?merged store_logs raindex_events store_events, ga_existing = existing,
      ga_upserts = upserts, ga_hash = hash\<rparr>"
    by (fastforce simp: gather_all_def ok_iff Let_def split: if_splits)
  from load_store_data[OF stores] obtain known where
    known: "answered (db_store_addresses db (in_raindex_id input)) known" and
    sd: "store_data E input s t (collect_store_addresses raindex_events \<union> (set known - {0}))
      store_logs store_events" and
    loaded: "answered (en_load_existing E (in_raindex_id input) tokens) existing" and
    tokens: "tokens = collect_token_addresses raindex_events" .
  have "store_logs = [] \<Longrightarrow> store_events = []"
    using assms(2) sd by (auto simp: store_data_def split: if_splits)
  then have events: "mset (ga_events g) = mset raindex_events + mset store_events"
    "store_logs \<noteq> [] \<longrightarrow> sorted (map (\<lambda>e. (de_block_number e, de_log_index e)) (ga_events g))"
    unfolding g by (auto simp: sorted_events)
  have fields: "answered (en_block_hash E t) (ga_hash g)" "ga_logs g = raindex_logs @ store_logs"
    using hash g by (auto intro: answeredI)
  have resolved: "token_data E input (collect_token_addresses raindex_events) (ga_existing g)
      (ga_upserts g)"
    using resolve_token_data[OF loaded upserts] tokens by (simp add: g)
  show ?thesis
    unfolding window_data_def
    by (rule exI[of _ raindex_logs], rule exI[of _ raindex_events], rule exI[of _ known],
        rule exI[of _ store_logs], rule exI[of _ store_events], intro conjI;
        fact gather_raindex_data[OF raindex] known sd events fields resolved)
qed

definition persisted_window ::
  "('w \<Rightarrow> 'x) \<Rightarrow> 'w engine \<Rightarrow> 'w db_ops \<Rightarrow> sync_inputs \<Rightarrow> u64 \<Rightarrow> u64 \<Rightarrow> 'x
   \<Rightarrow> (unit, local_db_error) result \<Rightarrow> 'x \<Rightarrow> bool" where
  "persisted_window f E db input start target x rp y \<longleftrightarrow>
     start \<le> target \<and> (\<exists>(g :: gathered) batch w2 w3. f w2 = x \<and>
       window_data E db input start target g \<and>
       en_build_batch E (cycle_info input start target (ga_hash g)) (ga_logs g) (ga_events g)
         (ga_existing g) (ga_upserts g) = Ok batch \<and>
       en_persist E batch w2 = (rp, w3) \<and> y = f w3)"

lemma apply_changes_observed:
  assumes "observed f E db" "start \<le> target" "window_data E db input start target g"
    and "apply_changes E (cycle_info input start target (ga_hash g)) (ga_logs g) (ga_events g)
      (ga_existing (g :: gathered)) (ga_upserts g) w = (r, w')"
  shows "(f w' = f w \<and> \<not> is_ok r) \<or>
    (\<exists>rp. persisted_window f E db input start target (f w) rp (f w') \<and> (is_ok r \<longrightarrow> rp = Ok ()))"
proof -
  let ?info = "cycle_info input start target (ga_hash g)"
  obtain r1 w1 where s1: "en_send E Building_Sql_Batch w = (r1, w1)" by force
  note f1 = observed_keep[OF assms(1) readers_keepD(9) s1]
  obtain r2 w2 where s2: "en_send E Persisting_To_Database w1 = (r2, w2)" by force
  note f2 = observed_keep[OF assms(1) readers_keepD(9) s2]
  show ?thesis
  proof (cases "is_ok r1 \<and> is_ok r2 \<and> is_ok (en_build_batch E ?info (ga_logs g) (ga_events g)
      (ga_existing g) (ga_upserts g))")
    case False
    then show ?thesis
      using assms(4) s1 s2 f1 f2
      by (auto simp: apply_changes_def io_defs split: result.splits prod.splits)
  next
    case True
    then obtain batch where b: "en_build_batch E ?info (ga_logs g) (ga_events g) (ga_existing g)
        (ga_upserts g) = Ok batch" by (metis is_ok.elims(2))
    obtain rp w3 where p: "en_persist E batch w2 = (rp, w3)" by force
    obtain r4 w4 where s4: "en_send E Running_Post_Sync_Export w3 = (r4, w4)" by force
    note f4 = observed_keep[OF assms(1) readers_keepD(9) s4]
    obtain r5 w5 where s5: "en_export_dump E (at_raindex_id ?info) (at_target_block ?info) w4
        = (r5, w5)" by force
    note f5 = observed_keep[OF assms(1) readers_keepD(8) s5]
    have "f w' = f w3 \<and> (is_ok r \<longrightarrow> rp = Ok ())"
      using assms(4) True s1 s2 b p s4 f4 s5 f5
      by (cases r1; cases r2; cases rp; cases r4) (auto simp: apply_changes_def io_defs)
    moreover have "persisted_window f E db input start target (f w) rp (f w3)"
      using assms(2,3) b p f1 f2 unfolding persisted_window_def by fastforce
    ultimately show ?thesis by auto
  qed
qed

lemma engine_run_observed:
  assumes "observed f E db" "en_decode E [] = Ok []" "engine_run wasm E db input w = (r, w')"
  shows "\<exists>rb w1. bootstrap_phase wasm E input w = (rb, w1) \<and>
    ((f w' = f w1 \<and> (\<forall>out. r = Ok out \<longrightarrow> so_target_block out < so_start_block out)) \<or>
     (\<exists>start target rp. persisted_window f E db input start target (f w1) rp (f w') \<and>
        (\<forall>out. r = Ok out \<longrightarrow> rp = Ok () \<and> so_start_block out = start \<and> so_target_block out = target)))"
proof -
  obtain rb w1 where boot: "bootstrap_phase wasm E input w = (rb, w1)" by force
  show ?thesis
  proof (cases rb)
    case (Err e)
    with boot assms(3) show ?thesis by (auto simp: engine_run_def io_bind_def)
  next
    case (Ok latest)
    obtain rw w2 where win: "compute_window_phase E input latest w1 = (rw, w2)" by force
    note f2 = observed_keep[OF assms(1) keeps_window_phase win]
    show ?thesis
    proof (cases rw)
      case (Err e)
      with boot Ok win f2 assms(3) show ?thesis by (auto simp: engine_run_def io_bind_def)
    next
      case wok: (Ok win_range)
      obtain start target where rng: "win_range = (start, target)" by force
      show ?thesis
      proof (cases "target < start")
        case True
        obtain ri w3 where idle: "en_send E Idle w2 = (ri, w3)" by force
        note f3 = observed_keep[OF assms(1) readers_keepD(9) idle]
        show ?thesis
          using boot Ok win wok rng True idle f2 f3 assms(3)
          by (cases ri) (auto simp: engine_run_def io_defs Let_def)
      next
        case False
        obtain rg w3 where ga: "gather_all E db input start target w2 = (rg, w3)" by force
        note f3 = observed_keep[OF assms(1) keeps_gather_all ga]
        show ?thesis
        proof (cases rg)
          case (Err e)
          with boot Ok win wok rng False ga f2 f3 assms(3) show ?thesis
            by (auto simp: engine_run_def io_bind_def Let_def)
        next
          case gok: (Ok g)
          obtain ra w4 where ap: "apply_changes E (cycle_info input start target (ga_hash g))
              (ga_logs g) (ga_events g) (ga_existing g) (ga_upserts g) w3 = (ra, w4)" by force
          have "start \<le> target" using False by simp
          from apply_changes_observed[OF assms(1) this gather_all_data[OF ga[unfolded gok] assms(2)] ap] show ?thesis
            using boot Ok win wok rng False ga gok ap f2 f3 assms(3)
            by (cases ra) (auto simp: engine_run_def io_defs Let_def cycle_info_def)
        qed
      qed
    qed
  qed
qed

end
