(* ===== verification/Sync_Cycle.thy ===== *)
theory Sync_Cycle
  imports Sync_Engine
begin

text \<open>
  The default adapters of the sync engine (\<open>adapters/events.rs\<close>, \<open>token_fetch.rs\<close>,
  \<open>adapters/window.rs\<close>, \<open>adapters/apply.rs\<close>) put together, and what a cycle does to the stored
  watermark. \<open>watermark_db\<close> is what the database promises of the watermark table: a query returns
  the row of the raindex, a batch that is no transaction is refused, and a transaction whose
  statements insert, delete or upsert rows, of the watermark table by its upsert only, has the
  effect of its last upsert of the row when it succeeds and none when it fails. Nothing is
  assumed of other batches, which may clear or drop the table. \<open>data_sql\<close> says that the statements
  of \<open>insert.rs\<close> and the derived tables are of this kind.
\<close>

section \<open>Adapters\<close>

definition events_latest_block :: "'w rpc_ops \<Rightarrow> (u64, local_db_error, 'w) io" where
  "events_latest_block rpc = io_map_err Rpc (rpc_latest_block_number rpc)"

definition events_block_hash :: "'w rpc_ops \<Rightarrow> u64 \<Rightarrow> (b256, local_db_error, 'w) io" where
  "events_block_hash rpc block_number =
     io_bind (io_map_err Rpc (rpc_get_block_by_number rpc block_number)) (\<lambda>block.
     io_bind (io_pure (ok_or block (Block_Hash_Not_Found block_number))) (\<lambda>b.
     io_return (bd_hash b)))"

definition events_decode ::
  "abi_ops \<Rightarrow> log_entry list \<Rightarrow> (decoded_event_data list, local_db_error) result" where
  "events_decode A logs = map_err Decode_Error (decode_events A logs)"

definition should_retry_token_error :: "token_error \<Rightarrow> bool" where
  "should_retry_token_error e = (case e of
     Read_Provider_Error _ \<Rightarrow> True | Contract_Call_Error _ \<Rightarrow> True | Multicall_Error _ \<Rightarrow> True
   | _ \<Rightarrow> False)"

fun token_retry_error :: "token_error retry_error \<Rightarrow> local_db_error" where
  "token_retry_error Invalid_Max_Attempts = Invalid_Retry_Max_Attempts"
| "token_retry_error (Operation inner) = Erc20_Token_Error inner"

definition fetch_erc20_metadata ::
  "(address \<Rightarrow> (token_info, token_error, 'w) io) \<Rightarrow> (u32 \<Rightarrow> 'w \<Rightarrow> 'w) \<Rightarrow> fetch_config \<Rightarrow> address
   \<Rightarrow> (address \<times> token_info, local_db_error, 'w) io" where
  "fetch_erc20_metadata token_info sleep config addr =
     io_bind (io_map_err token_retry_error
                (retry_with_backoff (token_info addr) sleep (fc_max_retry_attempts config)
                   (fc_retry_delay_ms config) 0 should_retry_token_error (\<lambda>_. False))) (\<lambda>info.
     io_return (addr, info))"

definition fetch_erc20_metadata_concurrent ::
  "(address \<Rightarrow> (token_info, token_error, 'w) io) \<Rightarrow> (u32 \<Rightarrow> 'w \<Rightarrow> 'w)
   \<Rightarrow> (address list \<Rightarrow> address list) \<Rightarrow> address list \<Rightarrow> fetch_config
   \<Rightarrow> ((address \<times> token_info) list, local_db_error, 'w) io" where
  \<comment> \<open>every token is asked for, in the order of completion; then the first error is returned\<close>
  "fetch_erc20_metadata_concurrent token_info sleep order missing_addrs config w =
     (case io_map_all (fetch_erc20_metadata token_info sleep config) (order missing_addrs) w of
        (results, w') \<Rightarrow> (rmap (\<lambda>r. r) results, w'))"

definition default_engine ::
  "'w db_ops \<Rightarrow> 'w rpc_ops \<Rightarrow> abi_ops \<Rightarrow> apply_sql
   \<Rightarrow> (bootstrap_config \<Rightarrow> (unit, local_db_error, 'w) io)
   \<Rightarrow> (raindex_identifier \<Rightarrow> address list \<Rightarrow> (erc20_token_row list, local_db_error, 'w) io)
   \<Rightarrow> (address \<Rightarrow> (token_info, token_error, 'w) io) \<Rightarrow> (address list \<Rightarrow> address list)
   \<Rightarrow> (sync_phase \<Rightarrow> (unit, local_db_error, 'w) io) \<Rightarrow> 'w engine" where
  "default_engine db rpc A Q bootstrap load_existing token_info order send = \<lparr>
     en_bootstrap_run = bootstrap,
     en_window_compute = compute_window db,
     en_latest_block = events_latest_block rpc,
     en_block_hash = events_block_hash rpc,
     en_fetch_raindex = fetch_raindex_events rpc,
     en_fetch_stores = fetch_store_events rpc,
     en_decode = events_decode A,
     en_load_existing = load_existing,
     en_fetch_missing = fetch_erc20_metadata_concurrent token_info (rpc_sleep rpc) order,
     en_build_batch = build_batch Q,
     en_persist = persist db,
     en_export_dump = (\<lambda>raindex_id end_block. io_return ()),
     en_send = send\<rparr>"

section \<open>The watermark table\<close>

definition is_watermark_upsert ::
  "apply_sql \<Rightarrow> raindex_identifier \<Rightarrow> sql_statement \<Rightarrow> u64 option" where
  "is_watermark_upsert Q i st =
     (if sql_text st = upsert_target_watermark_sql
      then case sql_params st of
        [c, a, U64 n, h] \<Rightarrow>
          if c = U64 (ucast (ri_chain_id i)) \<and> a = Text (as_address_text Q (ri_raindex_address i))
          then Some n else None
      | _ \<Rightarrow> None
      else None)"

definition last_upsert :: "apply_sql \<Rightarrow> raindex_identifier \<Rightarrow> sql_statement list \<Rightarrow> u64 option" where
  "last_upsert Q i sts =
     fold (\<lambda>st acc. case is_watermark_upsert Q i st of None \<Rightarrow> acc | Some n \<Rightarrow> Some n) sts None"

definition data_statement :: "sql_statement \<Rightarrow> bool" where
  "data_statement st \<longleftrightarrow>
     list_ex (\<lambda>verb. strip_prefix verb (sql_text st) \<noteq> None) [''INSERT'', ''DELETE'', ''WITH'', ''ANALYZE''] \<and>
     \<not> contains (sql_text st) ''target_watermarks''"

definition data_sql :: "apply_sql \<Rightarrow> bool" where
  "data_sql Q \<longleftrightarrow>
     (\<forall>i ts. list_all data_statement (batch_statements (as_token_upserts Q i ts))) \<and>
     (\<forall>i es ds b. as_decoded_events Q i es ds = Ok b \<longrightarrow> list_all data_statement (batch_statements b)) \<and>
     (\<forall>i s t. list_all data_statement (batch_statements (as_vault_deltas Q i s t)) \<and>
        list_all data_statement (batch_statements (as_vault_balances Q i s t)) \<and>
        list_all data_statement (batch_statements (as_derived_trades Q i s t)))"

text \<open>An SQLite integer is signed: a block number from \<open>2 ^ 63\<close> on would be bound as a text.\<close>

definition storable_block :: "u64 \<Rightarrow> bool" where
  "storable_block n \<longleftrightarrow> unat n < 2 ^ 63"

definition row_statement :: "apply_sql \<Rightarrow> sql_statement \<Rightarrow> bool" where
  "row_statement Q st \<longleftrightarrow> data_statement st \<or>
     (\<exists>i n. is_watermark_upsert Q i st = Some n)"

definition watermark_db ::
  "'w db_ops \<Rightarrow> apply_sql \<Rightarrow> ('w \<Rightarrow> raindex_identifier \<Rightarrow> u64 option) \<Rightarrow> bool" where
  "watermark_db db Q wm \<longleftrightarrow>
     (\<forall>i w rows w'. db_watermark db i w = (Ok rows, w') \<longrightarrow>
        map tw_last_block rows = (case wm w i of None \<Rightarrow> [] | Some n \<Rightarrow> [n])) \<and>
     (\<forall>i w r w'. db_watermark db i w = (r, w') \<longrightarrow> wm w' = wm w) \<and>
     (\<forall>b w r w'. db_execute_batch db b w = (r, w') \<longrightarrow> \<not> is_transaction b \<longrightarrow>
        \<not> is_ok r \<and> wm w' = wm w) \<and>
     (\<forall>b w r w' i. db_execute_batch db b w = (r, w') \<longrightarrow> is_transaction b \<longrightarrow>
        list_all (row_statement Q) (inner_statements b) \<longrightarrow>
        (case r of
           Ok _ \<Rightarrow> (case last_upsert Q i (inner_statements b) of
             Some n \<Rightarrow> storable_block n \<longrightarrow> wm w' i = Some n | None \<Rightarrow> wm w' i = wm w i)
         | Err _ \<Rightarrow> wm w' i = wm w i))"

definition later :: "'a option \<Rightarrow> 'a option \<Rightarrow> 'a option" where
  "later x y = (case y of None \<Rightarrow> x | Some n \<Rightarrow> Some n)"

lemma later_simps [simp]: "later x None = x" "later x (Some n) = Some n" "later None y = y"
  by (simp_all add: later_def split: option.splits)

lemma later_assoc: "later (later x y) z = later x (later y z)"
  by (simp add: later_def split: option.splits)

lemma last_upsert_fold:
  "last_upsert Q i sts = fold (\<lambda>st acc. later acc (is_watermark_upsert Q i st)) sts None"
  by (simp add: last_upsert_def later_def)

lemma fold_later: "fold (\<lambda>x acc. later acc (g x)) ys acc = later acc (fold (\<lambda>x acc. later acc (g x)) ys None)"
proof (induction ys arbitrary: acc)
  case Nil
  then show ?case by simp
next
  case (Cons y ys)
  let ?F = "\<lambda>acc. fold (\<lambda>x acc. later acc (g x)) ys acc"
  have "?F (later acc (g y)) = later (later acc (g y)) (?F None)" by (rule Cons.IH)
  also have "\<dots> = later acc (later (g y) (?F None))" by (rule later_assoc)
  also have "later (g y) (?F None) = ?F (g y)" by (rule Cons.IH[symmetric])
  finally show ?case by simp
qed

lemma last_upsert_append:
  "last_upsert Q i (xs @ ys) = later (last_upsert Q i xs) (last_upsert Q i ys)"
  unfolding last_upsert_fold fold_append comp_apply by (rule fold_later)

lemma no_upsert_sql [simp]: "is_watermark_upsert Q i (sql_new ''ANALYZE'') = None"
  by (simp add: is_watermark_upsert_def sql_new_def upsert_target_watermark_sql_def)

lemma last_upsert_Nil [simp]: "last_upsert Q i [] = None"
  by (simp add: last_upsert_def)

lemma last_upsert_Cons:
  "last_upsert Q i (st # sts) = later (is_watermark_upsert Q i st) (last_upsert Q i sts)"
  unfolding last_upsert_fold fold_simps later_simps by (rule fold_later)

definition window_statements ::
  "apply_sql \<Rightarrow> sync_inputs \<Rightarrow> u64 \<Rightarrow> u64 \<Rightarrow> (address \<times> token_info) list \<Rightarrow> sql_batch \<Rightarrow> b256
   \<Rightarrow> sql_statement list" where
  "window_statements Q input start target upserts decoded hash =
     (if upserts = [] then []
      else batch_statements (as_token_upserts Q (in_raindex_id input) upserts)) @
     batch_statements decoded @
     concat (map (\<lambda>f. batch_statements (f Q (in_raindex_id input) start target))
       [as_vault_deltas, as_vault_balances, as_derived_trades]) @
     [upsert_target_watermark_stmt Q (in_raindex_id input) target hash] @
     (if in_defer_analyze input then [] else [sql_new ''ANALYZE''])"

lemma build_batch_statements:
  assumes "build_batch Q (cycle_info input start target hash) logs events existing upserts = Ok batch"
    and "start \<le> target"
  obtains decoded where "as_decoded_events Q (in_raindex_id input) events
      (decimals_by_token existing upserts) = Ok decoded"
    "batch_statements batch = window_statements Q input start target upserts decoded hash"
proof -
  have "\<exists>decoded. as_decoded_events Q (in_raindex_id input) events
      (decimals_by_token existing upserts) = Ok decoded \<and>
    batch_statements batch = window_statements Q input start target upserts decoded hash"
    using assms
    by (auto simp: build_batch_def Let_def ok_iff window_statements_def cycle_info_def)
  with that show thesis by blast
qed

lemma window_statements_upsert:
  "last_upsert Q (in_raindex_id input) (window_statements Q input start target upserts decoded hash)
   = Some target"
  by (simp add: window_statements_def last_upsert_append last_upsert_Cons
      upsert_target_watermark_stmt_def sql_new_with_params
      is_watermark_upsert_def[of Q _ "\<lparr>sql_text = upsert_target_watermark_sql, sql_params = _\<rparr>"])

lemma analyze_data: "data_statement (sql_new ''ANALYZE'')"
  by (simp add: data_statement_def sql_new_def)

lemma data_statement_row: "list_all data_statement sts \<Longrightarrow> list_all (row_statement Q) sts"
  by (auto simp: list_all_iff row_statement_def)

lemma window_statements_rows:
  assumes "data_sql Q"
    and "as_decoded_events Q (in_raindex_id input) events ds = Ok decoded"
  shows "list_all (row_statement Q) (window_statements Q input start target upserts decoded hash)"
proof -
  have "is_watermark_upsert Q (in_raindex_id input)
      (upsert_target_watermark_stmt Q (in_raindex_id input) target hash) = Some target"
    by (simp add: upsert_target_watermark_stmt_def sql_new_with_params is_watermark_upsert_def)
  then have "row_statement Q (upsert_target_watermark_stmt Q (in_raindex_id input) target hash)"
    by (auto simp: row_statement_def)
  moreover have "row_statement Q (sql_new ''ANALYZE'')"
    by (simp add: row_statement_def analyze_data)
  ultimately show ?thesis
    using assms unfolding window_statements_def data_sql_def
    by (auto intro!: data_statement_row)
qed

lemma not_commit: "\<not> is_commit upsert_target_watermark_sql" "\<not> is_commit ''ANALYZE''"
  by (simp_all add: is_commit_def normalized_def trim_def trim_start_def trim_end_def
      is_whitespace_def eq_ignore_ascii_case_def upsert_target_watermark_sql_def)

lemma inner_window:
  assumes "batch_statements b = window_statements Q input start target upserts decoded hash"
  shows "inner_statements (ensure_transaction b) = batch_statements b"
proof -
  have "\<not> is_commit (sql_text (last (batch_statements b)))"
    by (simp add: assms window_statements_def upsert_target_watermark_stmt_def sql_new_with_params
        sql_new_def not_commit)
  then have "inner_statements b = batch_statements b"
    by (simp add: inner_statements_def is_transaction_def)
  then show ?thesis using ensure_transaction_wraps_once[of b] by simp
qed

text \<open>
  The blocks of a window are stored: a transaction was committed whose statements are the token
  upserts, the decoded events and the derived tables of what the cycle read for the window
  (\<open>window_data\<close>), and the watermark of the window's last block.
\<close>

definition window_stored ::
  "'w db_ops \<Rightarrow> 'w engine \<Rightarrow> apply_sql \<Rightarrow> sync_inputs \<Rightarrow> u64 \<Rightarrow> u64 \<Rightarrow> bool" where
  "window_stored db E Q input start target \<longleftrightarrow>
     (\<exists>(g :: gathered) decoded b w w'. window_data E db input start target g \<and>
        as_decoded_events Q (in_raindex_id input) (ga_events g)
          (decimals_by_token (ga_existing g) (ga_upserts g)) = Ok decoded \<and>
        db_execute_batch db b w = (Ok (), w') \<and> is_transaction b \<and>
        inner_statements b
          = window_statements Q input start target (ga_upserts g) decoded (ga_hash g))"

lemma persist_watermark:
  assumes "watermark_db db Q wm" "data_sql Q"
    and "batch_statements batch = window_statements Q input start target upserts decoded hash"
    and "as_decoded_events Q (in_raindex_id input) events ds = Ok decoded"
    and "persist db batch w = (r, w')"
  shows "is_ok r \<Longrightarrow> is_transaction (ensure_transaction batch) \<and>
      db_execute_batch db (ensure_transaction batch) w = (Ok (), w')"
    and "is_ok r \<Longrightarrow> storable_block target \<Longrightarrow> wm w' (in_raindex_id input) = Some target"
    and "\<not> is_ok r \<Longrightarrow> wm w' (in_raindex_id input) = wm w (in_raindex_id input)"
proof -
  let ?b = "ensure_transaction batch"
  obtain rb where ex: "db_execute_batch db ?b w = (rb, w')" and r: "r = map_err Query_Error rb"
    using assms(5) by (auto simp: persist_def io_map_err_def split: prod.splits)
  have refused: "\<not> is_transaction ?b \<Longrightarrow> \<not> is_ok rb \<and> wm w' = wm w"
    using assms(1) ex unfolding watermark_db_def by blast
  then show "is_ok r \<Longrightarrow> is_transaction ?b \<and> db_execute_batch db ?b w = (Ok (), w')"
    using ex r by (cases rb) auto
  have inner: "inner_statements ?b = window_statements Q input start target upserts decoded hash"
    using inner_window[OF assms(3)] assms(3) by simp
  have "list_all (row_statement Q) (inner_statements ?b)"
    unfolding inner by (rule window_statements_rows[OF assms(2,4)])
  then have "is_transaction ?b \<Longrightarrow> (case rb of
      Ok _ \<Rightarrow> (case last_upsert Q (in_raindex_id input) (inner_statements ?b) of
         Some n \<Rightarrow> storable_block n \<longrightarrow> wm w' (in_raindex_id input) = Some n
       | None \<Rightarrow> wm w' (in_raindex_id input) = wm w (in_raindex_id input))
    | Err _ \<Rightarrow> wm w' (in_raindex_id input) = wm w (in_raindex_id input))"
    using assms(1) ex unfolding watermark_db_def by blast
  then show "is_ok r \<Longrightarrow> storable_block target \<Longrightarrow> wm w' (in_raindex_id input) = Some target"
    and "\<not> is_ok r \<Longrightarrow> wm w' (in_raindex_id input) = wm w (in_raindex_id input)"
    using refused r by (cases rb; force simp: inner window_statements_upsert)+
qed

section \<open>Fetching leaves the database alone\<close>

text \<open>
  The node and the token contracts do not write the database: what they leave alone, the default
  adapters built on them leave alone.
\<close>

definition rpc_keeps :: "('w \<Rightarrow> bool) \<Rightarrow> 'w rpc_ops \<Rightarrow> bool" where
  "rpc_keeps P rpc \<longleftrightarrow> (\<forall>f. keeps P (rpc_get_logs rpc f)) \<and>
     (\<forall>n. keeps P (rpc_get_block_by_number rpc n)) \<and> keeps P (rpc_latest_block_number rpc) \<and>
     (\<forall>d w. P w \<longrightarrow> P (rpc_sleep rpc d w))"

lemma keeps_backoff_attempts:
  assumes "keeps P m" "\<And>d w. P w \<Longrightarrow> P (sleep d w)"
  shows "keeps P (backoff_attempts m sleep n rl should rate is delay)"
proof -
  have "P (snd (backoff_attempts m sleep n rl should rate is delay w))" if "P w" for w
    using that
  proof (induction "is" arbitrary: delay w)
    case Nil
    then show ?case by simp
  next
    case (Cons i "is")
    obtain r w1 where op: "m w = (r, w1)" by force
    have "P w1" by (rule keepsD[OF assms(1) op Cons.prems])
    then show ?case using Cons.IH assms(2) op by (cases r) (auto simp: Let_def split: prod.splits)
  qed
  then show ?thesis by (simp add: keeps_def)
qed

lemma keeps_retry [keeping]:
  assumes "keeps P m" "\<And>d w. P w \<Longrightarrow> P (sleep d w)"
  shows "keeps P (retry_with_backoff m sleep n base rl should rate)"
  unfolding retry_with_backoff_def by (intro keeping keeps_backoff_attempts assms)

lemma keeps_mapM [keeping]:
  assumes "\<And>x. keeps P (f x)"
  shows "keeps P (io_mapM f xs)"
proof -
  have "P (snd (io_mapM f xs w))" if "P w" for w
    using that
  proof (induction xs arbitrary: w)
    case Nil
    then show ?case by simp
  next
    case (Cons x xs)
    obtain r w1 where step: "f x w = (r, w1)" by force
    have "P w1" by (rule keepsD[OF assms step Cons.prems])
    then show ?case using Cons.IH[of w1] step by (cases r) (auto split: prod.splits result.splits)
  qed
  then show ?thesis by (simp add: keeps_def)
qed

lemma map_all_keeps:
  assumes "\<And>x. keeps P (f x)" "P w"
  shows "P (snd (io_map_all f xs w))"
  using assms(2)
proof (induction xs arbitrary: w)
  case Nil
  then show ?case by simp
next
  case (Cons x xs)
  obtain r w1 where step: "f x w = (r, w1)" by force
  have "P w1" by (rule keepsD[OF assms(1) step Cons.prems])
  then show ?case using Cons.IH[of w1] step by (auto split: prod.splits)
qed

lemma rpc_keepsD:
  assumes "rpc_keeps P rpc"
  shows "keeps P (rpc_get_logs rpc f)" "keeps P (rpc_get_block_by_number rpc n)"
    "keeps P (rpc_latest_block_number rpc)" "P w \<Longrightarrow> P (rpc_sleep rpc d w)"
  using assms by (simp_all add: rpc_keeps_def)

lemma keeps_retried:
  "rpc_keeps P rpc \<Longrightarrow> keeps P m \<Longrightarrow> keeps P (retried rpc config m)"
  unfolding retried_def by (intro keeping) (simp_all add: rpc_keepsD)

lemma keeps_fetch_block_timestamps:
  assumes "rpc_keeps P rpc"
  shows "keeps P (fetch_block_timestamps rpc bs config)"
proof -
  have "keeps P (fetch_block_timestamp rpc config b)" for b
    unfolding fetch_block_timestamp_def by (intro keeping keeps_retried assms rpc_keepsD)
  from map_all_keeps[where f = "fetch_block_timestamp rpc config", OF this] show ?thesis
    by (auto simp: keeps_def fetch_block_timestamps_def split: prod.splits) (metis snd_conv)
qed

lemma keeps_collect_logs:
  assumes "rpc_keeps P rpc"
  shows "keeps P (collect_logs rpc whole config)"
  unfolding collect_logs_def fetch_logs_for_filters_def backfill_missing_timestamps_def
  by (intro keeping keeps_retried keeps_fetch_block_timestamps assms rpc_keepsD)

lemma keeps_token_fetch:
  assumes "\<And>a. keeps P (token_info a)" "\<And>d w. P w \<Longrightarrow> P (sleep d w)"
  shows "keeps P (fetch_erc20_metadata_concurrent token_info sleep order as config)"
proof -
  have "keeps P (fetch_erc20_metadata token_info sleep config a)" for a
    unfolding fetch_erc20_metadata_def by (intro keeping assms)
  from map_all_keeps[where f = "fetch_erc20_metadata token_info sleep config", OF this] show ?thesis
    by (auto simp: keeps_def fetch_erc20_metadata_concurrent_def split: prod.splits) (metis snd_conv)
qed

lemma default_engine_readers:
  assumes "rpc_keeps P rpc" "\<And>i. keeps P (db_watermark db i)" "\<And>i. keeps P (db_store_addresses db i)"
    and "\<And>i as. keeps P (load_existing i as)" "\<And>a. keeps P (token_info a)" "\<And>p. keeps P (send p)"
  shows "readers_keep P (default_engine db rpc A Q b load_existing token_info order send) db"
  unfolding readers_keep_def default_engine_def compute_window_def Let_def events_latest_block_def
    events_block_hash_def fetch_raindex_events_def fetch_store_events_def
  by (simp add: assms)
    (intro conjI allI keeping keeps_collect_logs keeps_token_fetch assms rpc_keepsD[OF assms(1)];
      simp add: assms)

section \<open>What a cycle does to the watermark\<close>

definition outside_keeps ::
  "('w \<Rightarrow> 'x) \<Rightarrow> 'w db_ops \<Rightarrow> 'w rpc_ops
   \<Rightarrow> (raindex_identifier \<Rightarrow> address list \<Rightarrow> (erc20_token_row list, local_db_error, 'w) io)
   \<Rightarrow> (address \<Rightarrow> (token_info, token_error, 'w) io)
   \<Rightarrow> (sync_phase \<Rightarrow> (unit, local_db_error, 'w) io) \<Rightarrow> bool" where
  "outside_keeps f db rpc load_existing token_info send \<longleftrightarrow> (\<forall>x.
     rpc_keeps (\<lambda>w. f w = x) rpc \<and> (\<forall>i. keeps (\<lambda>w. f w = x) (db_store_addresses db i)) \<and>
     (\<forall>i as. keeps (\<lambda>w. f w = x) (load_existing i as)) \<and>
     (\<forall>a. keeps (\<lambda>w. f w = x) (token_info a)) \<and> (\<forall>p. keeps (\<lambda>w. f w = x) (send p)))"

lemma default_engine_observed:
  assumes "watermark_db db Q wm"
    and "outside_keeps (\<lambda>w. wm w i) db rpc load_existing token_info send"
  shows "observed (\<lambda>w. wm w i) (default_engine db rpc A Q b load_existing token_info order send) db"
  unfolding observed_def
proof
  fix x
  have "keeps (\<lambda>w. wm w i = x) (db_watermark db j)" for j
    using assms(1) unfolding watermark_db_def keeps_def by (metis prod.collapse)
  then show "readers_keep (\<lambda>w. wm w i = x)
      (default_engine db rpc A Q b load_existing token_info order send) db"
    using assms(2) by (intro default_engine_readers) (auto simp: outside_keeps_def)
qed

lemma default_engine_fields [simp]:
  "en_build_batch (default_engine db rpc A Q b l t ord s) = build_batch Q"
  "en_persist (default_engine db rpc A Q b l t ord s) = persist db"
  "en_window_compute (default_engine db rpc A Q b l t ord s) = compute_window db"
  "en_bootstrap_run (default_engine db rpc A Q b l t ord s) = b"
  by (simp_all add: default_engine_def)

lemma default_engine_decodes_nothing [simp]:
  "en_decode (default_engine db rpc A Q b l t ord s) [] = Ok []"
  by (simp add: default_engine_def events_decode_def decode_events_def)

lemma persisted_default:
  assumes "watermark_db db Q wm" "data_sql Q" "E = default_engine db rpc A Q b l t ord s"
    and "persisted_window (\<lambda>w. wm w (in_raindex_id input)) E db input start target x rp y"
  shows "is_ok rp \<Longrightarrow> window_stored db E Q input start target \<and>
      (storable_block target \<longrightarrow> y = Some target)"
    and "\<not> is_ok rp \<Longrightarrow> y = x" and "start \<le> target"
proof -
  from assms(4) obtain g batch w2 w3 where le: "start \<le> target" and
    x: "wm w2 (in_raindex_id input) = x" and data: "window_data E db input start target g" and
    built: "build_batch Q (cycle_info input start target (ga_hash g)) (ga_logs g) (ga_events g)
      (ga_existing g) (ga_upserts g) = Ok batch" and
    run: "persist db batch w2 = (rp, w3)" and y: "y = wm w3 (in_raindex_id input)"
    unfolding persisted_window_def assms(3) by auto
  from build_batch_statements[OF built le] obtain decoded where
    d: "as_decoded_events Q (in_raindex_id input) (ga_events g)
      (decimals_by_token (ga_existing g) (ga_upserts g)) = Ok decoded" and
    sts: "batch_statements batch
      = window_statements Q input start target (ga_upserts g) decoded (ga_hash g)" .
  note p = persist_watermark[OF assms(1,2) sts d run]
  show "is_ok rp \<Longrightarrow> window_stored db E Q input start target \<and>
      (storable_block target \<longrightarrow> y = Some target)"
    using p(1,2) y data d inner_window[OF sts] sts unfolding window_stored_def by metis
  show "\<not> is_ok rp \<Longrightarrow> y = x" using p(3) x y by simp
  show "start \<le> target" by (rule le)
qed


lemma engine_run_Ok_window:
  assumes "engine_run wasm E db input w = (Ok out, w')"
  obtains latest w1 w2 w3 where "bootstrap_phase wasm E input w = (Ok latest, w1)"
    "en_send E Computing_Sync_Window w1 = (Ok (), w2)"
    "en_window_compute E (in_raindex_id input) (in_cfg input) latest w2
      = (Ok (so_start_block out, so_target_block out), w3)"
  using assms
  by (auto simp: engine_run_def compute_window_phase_def ok_iff Let_def split: if_splits)

text \<open>
  Successive cycles leave no gap: a successful cycle without a start override begins
  at the block after the watermark the database held when the cycle computed its window, or at
  the deployment block when it held none, and leaves the watermark at the last block it stored,
  where the next cycle continues.
\<close>
lemma cycle_continues_at_watermark:
  assumes "watermark_db db Q wm" "data_sql Q"
    and "E = default_engine db rpc A Q bootstrap load_existing token_info order send"
    and "outside_keeps (\<lambda>w. wm w (in_raindex_id input)) db rpc load_existing token_info send"
    and "wo_start_block (sy_window_overrides (in_cfg input)) = None"
    and "engine_run wasm E db input w = (Ok out, w')"
  shows "\<exists>latest w1. bootstrap_phase wasm E input w = (Ok latest, w1) \<and>
    unat (so_start_block out) = first_block (in_cfg input)
      (case wm w1 (in_raindex_id input) of None \<Rightarrow> 0 | Some n \<Rightarrow> n) \<and>
    (so_start_block out \<le> so_target_block out \<longrightarrow> storable_block (so_target_block out) \<longrightarrow>
       wm w' (in_raindex_id input) = Some (so_target_block out))"
proof -
  let ?f = "\<lambda>w. wm w (in_raindex_id input)"
  have seen: "observed ?f E db" unfolding assms(3) by (rule default_engine_observed[OF assms(1,4)])
  from assms(6) obtain latest w1 w2 w3 where boot: "bootstrap_phase wasm E input w = (Ok latest, w1)"
    and send: "en_send E Computing_Sync_Window w1 = (Ok (), w2)"
    and win: "en_window_compute E (in_raindex_id input) (in_cfg input) latest w2
      = (Ok (so_start_block out, so_target_block out), w3)" by (rule engine_run_Ok_window)
  have "?f w2 = ?f w1" by (rule observed_keep[OF seen readers_keepD(9) send])
  moreover from win obtain rows where rows: "db_watermark db (in_raindex_id input) w2 = (Ok rows, w3)"
    and wf: "window_from_watermark (in_cfg input) latest
      (case rows of [] \<Rightarrow> 0 | r # _ \<Rightarrow> tw_last_block r) = Ok (so_start_block out, so_target_block out)"
    unfolding assms(3) by (auto simp: compute_window_def Let_def ok_iff)
  moreover have "map tw_last_block rows = (case ?f w2 of None \<Rightarrow> [] | Some n \<Rightarrow> [n])"
    using assms(1) rows unfolding watermark_db_def by blast
  ultimately have "window_from_watermark (in_cfg input) latest (case ?f w1 of None \<Rightarrow> 0 | Some n \<Rightarrow> n)
      = Ok (so_start_block out, so_target_block out)"
    by (auto split: option.splits)
  then have start: "unat (so_start_block out) = first_block (in_cfg input)
      (case ?f w1 of None \<Rightarrow> 0 | Some n \<Rightarrow> n)"
    using window_without_overrides(2)[OF assms(5), of "case ?f w1 of None \<Rightarrow> 0 | Some n \<Rightarrow> n"]
    unfolding window_without_overrides(1)[OF assms(5)] Let_def by (auto split: if_splits)
  have "en_decode E [] = Ok []" by (simp add: assms(3))
  with engine_run_observed[OF seen _ assms(6)] persisted_default[OF assms(1-3)] boot
  have "so_start_block out \<le> so_target_block out \<Longrightarrow> storable_block (so_target_block out) \<Longrightarrow>
      ?f w' = Some (so_target_block out)"
    by fastforce
  with start boot show ?thesis by blast
qed

section \<open>An example database\<close>

text \<open>A database that is its watermark table, and a node without logs.\<close>

type_synonym wm_world = "raindex_identifier \<Rightarrow> u64 option"

definition table_db :: "wm_world db_ops" where
  "table_db = \<lparr>db_execute_batch = (\<lambda>b w.
       if is_transaction b
       then (Ok (), \<lambda>i. later (w i) (last_upsert example_sql i (inner_statements b)))
       else (Err (Database ''not a transaction''), w)), db_query_text = (\<lambda>s w. (Ok [], w)),
     db_execute_sql_dump = (\<lambda>s w. (Ok (), w)), db_wipe_and_recreate = (\<lambda>w. (Ok (), w)),
     db_watermark = (\<lambda>i w. (Ok (case w i of None \<Rightarrow> []
       | Some n \<Rightarrow> [example_watermark i n]), w)),
     db_store_addresses = (\<lambda>i w. (Ok [], w)), db_tables = (\<lambda>w. (Ok [], w)),
     db_table_columns = (\<lambda>t w. (Ok [], w)), db_metadata_versions = (\<lambda>w. (Ok [], w)),
     db_quick_check = (\<lambda>w. (Ok [], w)), db_cache_size_query = (\<lambda>w. (Ok (), w))\<rparr>"

definition quiet_rpc :: "wm_world rpc_ops" where
  "quiet_rpc = \<lparr>rpc_get_logs = (\<lambda>f w. (Ok [], w)),
     rpc_get_block_by_number = (\<lambda>b w. (Ok (Some \<lparr>bd_timestamp = 0, bd_hash = 5\<rparr>), w)),
     rpc_latest_block_number = (\<lambda>w. (Ok 500, w)), rpc_sleep = (\<lambda>d w. w),
     rpc_valid_block_range = (\<lambda>f. Ok ()), rpc_order = id, rpc_block_order = id,
     rpc_raindex_topics = [], rpc_store_topics = []\<rparr>"

definition table_engine :: "wm_world engine" where
  "table_engine = default_engine table_db quiet_rpc example_abi example_sql (\<lambda>c w. (Ok (), w))
     (\<lambda>i as w. (Ok [], w)) (\<lambda>a w. (Err (Contract_Call_Error ''none''), w)) id (\<lambda>p w. (Ok (), w))"

definition example_inputs :: sync_inputs where
  "example_inputs = \<lparr>in_raindex_id = \<lparr>ri_chain_id = 1, ri_raindex_address = 9\<rparr>,
     in_metadata_rpcs = [], in_cfg = example_sync_config, in_dump_str = None,
     in_defer_analyze = True, in_block_number_threshold = 0, in_manifest_end_block = 0\<rparr>"

lemma table_db_watermark: "watermark_db table_db example_sql (\<lambda>w. w)"
  by (auto simp: watermark_db_def table_db_def later_def split: option.splits if_splits)

lemma example_data_sql: "data_sql example_sql"
  by (auto simp: data_sql_def example_sql_def data_statement_def sql_new_def)

lemma table_outside:
  "outside_keeps (\<lambda>w. w i) table_db quiet_rpc (\<lambda>i as w. (Ok [], w))
     (\<lambda>a w. (Err (Contract_Call_Error ''none''), w)) (\<lambda>p w. (Ok (), w))"
  by (simp add: outside_keeps_def rpc_keeps_def keeps_def quiet_rpc_def table_db_def)

definition example_batch :: "apply_target_info \<Rightarrow> (address \<times> token_info) list \<Rightarrow> sql_batch" where
  "example_batch info upserts =
     (case build_batch example_sql info [] [] [] upserts of Ok b \<Rightarrow> b | Err e \<Rightarrow> batch_new)"

lemma example_batch_built:
  "build_batch example_sql info logs events existing upserts = Ok (example_batch info upserts)"
  by (simp add: example_batch_def build_batch_def example_sql_def Let_def)

lemma not_begin: "\<not> is_begin ''INSERT INTO tokens''" "\<not> is_begin ''INSERT INTO events''"
  by (simp_all add: is_begin_def normalized_def trim_def trim_start_def trim_end_def
      is_whitespace_def eq_ignore_ascii_case_def)

lemma example_transaction: "is_transaction (ensure_transaction (example_batch info upserts))"
proof -
  let ?sts = "batch_statements (example_batch info upserts)"
  have "?sts \<noteq> []" "sql_text (hd ?sts) \<in> {''INSERT INTO tokens'', ''INSERT INTO events''}"
    "sql_text (last ?sts) \<in> {upsert_target_watermark_sql, ''ANALYZE''}"
    by (auto simp: example_batch_def build_batch_def example_sql_def Let_def sql_new_def
        upsert_target_watermark_stmt_def sql_new_with_params)
  then have "\<not> half_wrapped (example_batch info upserts)"
    using not_begin not_commit by (auto simp: half_wrapped_def)
  then show ?thesis by (simp add: ensure_transaction_wraps_once)
qed

lemmas cycle_eval = engine_run_def bootstrap_phase_def compute_window_phase_def gather_all_def
  gather_raindex_def store_fetch_def load_store_logs_and_existing_tokens_def
  resolve_token_upserts_def apply_changes_def default_engine_def events_latest_block_def
  events_block_hash_def events_decode_def fetch_raindex_events_def range_filter_def
  collect_store_addresses_def collect_token_addresses_def decode_events_def persist_def
  example_batch_built example_transaction

lemma table_run:
  "\<exists>w'. engine_run True table_engine table_db example_inputs Map.empty =
   (Ok \<lparr>so_raindex_id = \<lparr>ri_chain_id = 1, ri_raindex_address = 9\<rparr>, so_start_block = 100,
      so_target_block = 149, so_fetched_logs = 0, so_caught_up = False, so_decoded_events = 0\<rparr>, w')"
  by (simp add: cycle_eval window_eval fetch_eval table_engine_def table_db_def quiet_rpc_def
      example_inputs_def io_defs Let_def default_fetch_config_def upt_rec)


lemma cycle_continues_at_watermark_example:
  "\<exists>out w'. engine_run True table_engine table_db example_inputs Map.empty = (Ok out, w') \<and>
     so_start_block out = 100 \<and> w' (in_raindex_id example_inputs) = Some (so_target_block out)"
proof -
  obtain w' where run: "engine_run True table_engine table_db example_inputs Map.empty =
   (Ok \<lparr>so_raindex_id = \<lparr>ri_chain_id = 1, ri_raindex_address = 9\<rparr>, so_start_block = 100,
      so_target_block = 149, so_fetched_logs = 0, so_caught_up = False, so_decoded_events = 0\<rparr>, w')"
    using table_run by blast
  have no: "wo_start_block (sy_window_overrides (in_cfg example_inputs)) = None"
    by (simp add: example_inputs_def example_sync_config_def)
  from cycle_continues_at_watermark[OF table_db_watermark example_data_sql table_engine_def table_outside no run] run
  show ?thesis by (auto simp: storable_block_def)
qed

end
