(* ===== verification/Yaml.thy ===== *)
theory Yaml
  imports Prelude "HOL-Library.List_Lexorder" "HOL-Library.Char_ord"
begin

text \<open>
  The settings documents (\<open>settings/src/yaml/mod.rs\<close> and \<open>settings/src/utils.rs\<close>): the document
  type of the YAML library with its indexing, the errors of the settings crate, and the typed
  accessors every section parser is written with.

  A document is the library's enum: a string, an array, a hash in insertion order, or the bad
  value that indexing returns for a missing key. A \<open>Url\<close> is the text it displays. How addresses,
  URLs and byte strings are parsed and displayed is the record \<open>text_codec\<close>.
\<close>

section \<open>Documents\<close>

datatype strict_yaml =
    Yaml_String string
  | Yaml_Array "strict_yaml list"
  | Yaml_Hash "(strict_yaml \<times> strict_yaml) list"
  | Bad_Value

type_synonym yaml_hash = "(strict_yaml \<times> strict_yaml) list"
type_synonym url = string

definition hash_get :: "strict_yaml \<Rightarrow> yaml_hash \<Rightarrow> strict_yaml option" where
  "hash_get k h = map_of h k"

definition hash_insert :: "strict_yaml \<Rightarrow> strict_yaml \<Rightarrow> yaml_hash \<Rightarrow> yaml_hash" where
  \<comment> \<open>a linked hash map: the entry of an existing key is replaced and moves to the back\<close>
  "hash_insert k v h = filter (\<lambda>e. fst e \<noteq> k) h @ [(k, v)]"

fun as_str :: "strict_yaml \<Rightarrow> string option" where
  "as_str (Yaml_String s) = Some s"
| "as_str _ = None"

fun as_hash :: "strict_yaml \<Rightarrow> yaml_hash option" where
  "as_hash (Yaml_Hash h) = Some h"
| "as_hash _ = None"

fun as_vec :: "strict_yaml \<Rightarrow> strict_yaml list option" where
  "as_vec (Yaml_Array xs) = Some xs"
| "as_vec _ = None"

definition yaml_index :: "strict_yaml \<Rightarrow> string \<Rightarrow> strict_yaml" where
  "yaml_index v field = (case as_hash v of
     None \<Rightarrow> Bad_Value
   | Some h \<Rightarrow> (case hash_get (Yaml_String field) h of None \<Rightarrow> Bad_Value | Some x \<Rightarrow> x))"

record text_codec =
  tc_show_address :: "address \<Rightarrow> string"
  tc_parse_address :: "string \<Rightarrow> (address, ext_error) result"
  tc_parse_url :: "string \<Rightarrow> (url, ext_error) result"
  tc_show_bytes :: "bytes \<Rightarrow> string"
  tc_parse_bytes :: "string \<Rightarrow> (bytes, ext_error) result"

section \<open>Errors\<close>

datatype field_error_kind =
    Missing string
  | Invalid_Type string string
  | Invalid_Value string string

datatype parse_network_error =
    Rpc_Parse_Error ext_error
  | Chain_Id_Parse_Error ext_error
  | Network_Id_Parse_Error ext_error
  | Remote_Network_Key_Shadowing string

datatype yaml_error =
    Scan_Error ext_error
  | Emit_Error ext_error
  | Url_Parse_Error ext_error
  | Ruint_Parse_Error ext_error
  | Yaml_Field field_error_kind string
  | Yaml_Parse_Error string
  | Key_Not_Found string
  | Key_Shadowing string string
  | Read_Lock_Error
  | Write_Lock_Error
  | Empty_File
  | Convert_Error
  | Invalid_Trait_Function
  | Yaml_Not_Found string
  | Parse_Network_Config_Source_Error parse_network_error
  | Parse_Token_Config_Source_Error ext_error
  | Parse_Raindex_Config_Source_Error ext_error
  | Parse_Rainlang_Config_Source_Error ext_error
  | Parse_Order_Config_Source_Error ext_error
  | Parse_Scenario_Config_Source_Error ext_error
  | Parse_Deployment_Config_Source_Error ext_error
  | Context_Error ext_error
  | Parse_Remote_Networks_Error ext_error
  | Parse_Remote_Tokens_Error ext_error
  | Yaml_Panicked \<comment> \<open>not an error value of the code: a run that panics\<close>

section \<open>Accessors\<close>

definition quoted :: "string \<Rightarrow> string" where
  "quoted s = [CHR 0x27] @ s @ [CHR 0x27]"

definition field_location :: "string option \<Rightarrow> string" where
  "field_location location = (case location of None \<Rightarrow> ''document'' | Some l \<Rightarrow> l)"

definition require_string :: "strict_yaml \<Rightarrow> string option \<Rightarrow> string option \<Rightarrow> (string, yaml_error) result" where
  "require_string value field location =
     (case field of
        Some f \<Rightarrow>
          if yaml_index value f = Bad_Value then Err (Yaml_Field (Missing f) (field_location location))
          else ok_or (as_str (yaml_index value f))
                 (Yaml_Field (Invalid_Type f ''a string'') (field_location location))
      | None \<Rightarrow>
          ok_or (as_str value)
            (Yaml_Field (Invalid_Type ''value'' ''a string'') (field_location location)))"

definition optional_string :: "strict_yaml \<Rightarrow> string \<Rightarrow> string option" where
  "optional_string value field = as_str (yaml_index value field)"

definition require_hash :: "strict_yaml \<Rightarrow> string option \<Rightarrow> string option \<Rightarrow> (yaml_hash, yaml_error) result" where
  "require_hash value field location =
     (case field of
        Some f \<Rightarrow>
          if yaml_index value f = Bad_Value then Err (Yaml_Field (Missing f) (field_location location))
          else ok_or (as_hash (yaml_index value f))
                 (Yaml_Field (Invalid_Type f ''a map'') (field_location location))
      | None \<Rightarrow>
          ok_or (as_hash value)
            (Yaml_Field (Invalid_Type ''value'' ''a map'') (field_location location)))"

definition optional_hash :: "strict_yaml \<Rightarrow> string \<Rightarrow> yaml_hash option" where
  "optional_hash value field = as_hash (yaml_index value field)"

definition require_vec :: "strict_yaml \<Rightarrow> string \<Rightarrow> string option \<Rightarrow> (strict_yaml list, yaml_error) result" where
  "require_vec value field location =
     (if yaml_index value field = Bad_Value then Err (Yaml_Field (Missing field) (field_location location))
      else ok_or (as_vec (yaml_index value field))
             (Yaml_Field (Invalid_Type field ''a vector'') (field_location location)))"

definition optional_vec :: "strict_yaml \<Rightarrow> string \<Rightarrow> strict_yaml list option" where
  "optional_vec value field = as_vec (yaml_index value field)"

definition positive :: "string \<Rightarrow> string \<Rightarrow> 'n::len word \<Rightarrow> ('n word, yaml_error) result" where
  "positive field location parsed =
     (if parsed = 0 then Err (Yaml_Field (Invalid_Value field ''must be a positive integer'') location)
      else Ok parsed)"

definition parse_positive_u32 :: "string \<Rightarrow> string \<Rightarrow> string \<Rightarrow> (u32, yaml_error) result" where
  "parse_positive_u32 value field location =
     rbind (map_err (\<lambda>e. Yaml_Field (Invalid_Value field e) location) (parse_unsigned (2 ^ 32) value))
       (\<lambda>n. positive field location (of_nat n))"

definition parse_positive_u64 :: "string \<Rightarrow> string \<Rightarrow> string \<Rightarrow> (u64, yaml_error) result" where
  "parse_positive_u64 value field location =
     rbind (map_err (\<lambda>e. Yaml_Field (Invalid_Value field e) location) (parse_unsigned (2 ^ 64) value))
       (\<lambda>n. positive field location (of_nat n))"

definition parse_url :: "text_codec \<Rightarrow> string \<Rightarrow> string \<Rightarrow> string \<Rightarrow> (url, yaml_error) result" where
  "parse_url T value field location =
     map_err (\<lambda>e. Yaml_Field (Invalid_Value field e) location) (tc_parse_url T value)"

section \<open>Laws\<close>

lemma hash_get_Nil [simp]: "hash_get k [] = None"
  by (simp add: hash_get_def)

lemma map_of_filter_key: "map_of (filter (\<lambda>e. fst e \<noteq> k) h) j = (if j = k then None else map_of h j)"
  by (induction h) auto

lemma hash_get_insert [simp]:
  "hash_get j (hash_insert k v h) = (if j = k then Some v else hash_get j h)"
  by (auto simp: hash_get_def hash_insert_def map_add_def map_of_filter_key split: option.splits)

lemma hash_insert_new: "k \<notin> fst ` set h \<Longrightarrow> hash_insert k v h = h @ [(k, v)]"
proof -
  assume "k \<notin> fst ` set h"
  then have "filter (\<lambda>e. fst e \<noteq> k) h = h" by (intro filter_True) auto
  then show ?thesis by (simp add: hash_insert_def)
qed

lemma yaml_index_Hash [simp]:
  "yaml_index (Yaml_Hash h) f = (case hash_get (Yaml_String f) h of None \<Rightarrow> Bad_Value | Some x \<Rightarrow> x)"
  by (simp add: yaml_index_def)

lemma parse_positive_show:
  "n \<noteq> 0 \<Longrightarrow> parse_positive_u32 (show_word n) f l = Ok n"
  "m \<noteq> 0 \<Longrightarrow> parse_positive_u64 (show_word m) f l = Ok m"
proof -
  have "unat n < 2 ^ 32" "unat m < 2 ^ 64"
    using unsigned_less[of n] unsigned_less[of m] by simp_all
  then show "n \<noteq> 0 \<Longrightarrow> parse_positive_u32 (show_word n) f l = Ok n"
    "m \<noteq> 0 \<Longrightarrow> parse_positive_u64 (show_word m) f l = Ok m"
    by (simp_all add: parse_positive_u32_def parse_positive_u64_def parse_unsigned_show positive_def)
qed

lemma parse_positive_nonzero:
  "parse_positive_u32 s f l = Ok n \<Longrightarrow> n \<noteq> 0"
  "parse_positive_u64 s f l = Ok m \<Longrightarrow> m \<noteq> 0"
  by (auto simp: parse_positive_u32_def parse_positive_u64_def positive_def ok_iff split: if_splits)

end
