(* ===== verification/Settings_Sections.thy ===== *)
theory Settings_Sections
  imports Yaml
begin

text \<open>
  Sections of a settings document (\<open>settings/src/local_db_sync.rs\<close>, \<open>network.rs\<close> and
  \<open>local_db_remotes.rs\<close>): hashes that bind names to configurations. Each is parsed from several
  documents into one map, a name defined twice being an error, and can be sanitised: entries are
  reduced to the known fields and sorted by name.

  The result of parsing is the \<open>HashMap\<close> as a map. A document behind its lock is the document; the
  document a configuration remembers is left out, as the equality of configurations leaves it out.

  The interface of a section is the locale \<open>yaml_section\<close>, whose lemma says that sanitising the
  documents does not change what is parsed.
\<close>

section \<open>Sanitising\<close>

definition sanitize_entry :: "string list \<Rightarrow> yaml_hash \<Rightarrow> yaml_hash" where
  "sanitize_entry allowed h =
     fold (\<lambda>allowed_key sanitized. case hash_get (Yaml_String allowed_key) h of
             Some v \<Rightarrow> hash_insert (Yaml_String allowed_key) v sanitized
           | None \<Rightarrow> sanitized) allowed []"

fun sanitized_entry :: "string list \<Rightarrow> strict_yaml \<times> strict_yaml \<Rightarrow> (string \<times> strict_yaml) list" where
  "sanitized_entry allowed (Yaml_String key, Yaml_Hash h) =
     [(key, Yaml_Hash (sanitize_entry allowed h))]"
| "sanitized_entry allowed _ = []"

definition sanitize_hash :: "string list \<Rightarrow> yaml_hash \<Rightarrow> yaml_hash" where
  "sanitize_hash allowed section_hash =
     fold (\<lambda>(key, value) new_hash. hash_insert (Yaml_String key) value new_hash)
       (sort_key fst (concat (map (sanitized_entry allowed) section_hash))) []"

definition sanitize_document :: "string \<Rightarrow> string list \<Rightarrow> strict_yaml \<Rightarrow> strict_yaml" where
  "sanitize_document section_name allowed doc =
     (case doc of
        Yaml_Hash root_hash \<Rightarrow>
          (case hash_get (Yaml_String section_name) root_hash of
             Some (Yaml_Hash section_hash) \<Rightarrow>
               Yaml_Hash (hash_insert (Yaml_String section_name)
                 (Yaml_Hash (sanitize_hash allowed section_hash)) root_hash)
           | _ \<Rightarrow> doc)
      | _ \<Rightarrow> doc)"

section \<open>The interface of a section\<close>

definition section_entries :: "string \<Rightarrow> strict_yaml \<Rightarrow> yaml_hash" where
  "section_entries section_name doc = (case optional_hash doc section_name of None \<Rightarrow> [] | Some h \<Rightarrow> h)"

abbreviation all_entries :: "string \<Rightarrow> strict_yaml list \<Rightarrow> yaml_hash" where
  "all_entries section_name docs \<equiv> concat (map (section_entries section_name) docs)"

definition string_keyed :: "string \<Rightarrow> strict_yaml list \<Rightarrow> bool" where
  "string_keyed section_name docs \<longleftrightarrow> list_all (\<lambda>e. as_str (fst e) \<noteq> None) (all_entries section_name docs)"

definition entry_parses :: "(string \<Rightarrow> strict_yaml \<Rightarrow> ('c, yaml_error) result)
    \<Rightarrow> strict_yaml \<times> strict_yaml \<Rightarrow> string \<times> 'c \<Rightarrow> bool" where
  "entry_parses parse_entry e r \<longleftrightarrow>
     fst e = Yaml_String (fst r) \<and> parse_entry (fst r) (snd e) = Ok (snd r)"

definition entries_parse :: "(string \<Rightarrow> strict_yaml \<Rightarrow> ('c, yaml_error) result)
    \<Rightarrow> yaml_hash \<Rightarrow> (string \<times> 'c) list \<Rightarrow> bool" where
  "entries_parse parse_entry es rs \<longleftrightarrow> list_all2 (entry_parses parse_entry) es rs \<and> distinct (map fst rs)"

lemma entries_parse_string:
  "list_all2 (entry_parses parse_entry) es rs \<Longrightarrow> list_all (\<lambda>e. as_str (fst e) \<noteq> None) es"
  by (induction rule: list_all2_induct) (auto simp: entry_parses_def)

lemma map_add_upd_new:
  "s \<notin> fst ` set rs \<Longrightarrow> m(s \<mapsto> c) ++ map_of rs = m ++ map_of ((s, c) # rs)"
proof -
  assume "s \<notin> fst ` set rs"
  then have "map_of rs s = None" by (simp add: map_of_eq_None_iff)
  then show ?thesis by (auto simp: fun_eq_iff map_add_def split: option.split)
qed

text \<open>
  A loop over the entries of a section that refuses names it has seen: when it succeeds, and with
  what.
\<close>

lemma section_loop_Ok:
  assumes Nil: "\<And>m. loop [] m = Ok m"
    and Cons: "\<And>k v es m m'. as_str k \<noteq> None \<Longrightarrow> loop ((k, v) # es) m = Ok m' \<longleftrightarrow>
      (\<exists>s c. k = Yaml_String s \<and> m s = None \<and> parse_entry s v = Ok c \<and> loop es (m(s \<mapsto> c)) = Ok m')"
    and keys: "list_all (\<lambda>e. as_str (fst e) \<noteq> None) es"
  shows "loop es m = Ok m' \<longleftrightarrow> (\<exists>rs. entries_parse parse_entry es rs \<and>
    fst ` set rs \<inter> dom m = {} \<and> m' = m ++ map_of rs)"
  using keys
proof (induction es arbitrary: m)
  case Nil
  show ?case by (auto simp: assms(1) entries_parse_def)
next
  case (Cons e es)
  obtain k v where e: "e = (k, v)" by force
  have "loop (e # es) m = Ok m' \<longleftrightarrow> (\<exists>s c rs. k = Yaml_String s \<and> m s = None \<and> parse_entry s v = Ok c \<and>
      entries_parse parse_entry es rs \<and> fst ` set rs \<inter> dom (m(s \<mapsto> c)) = {} \<and>
      m' = m(s \<mapsto> c) ++ map_of rs)"
    using Cons.prems Cons.IH by (auto simp: e assms(2))
  also have "\<dots> \<longleftrightarrow> (\<exists>rs. entries_parse parse_entry (e # es) rs \<and> fst ` set rs \<inter> dom m = {} \<and>
      m' = m ++ map_of rs)" (is "?L \<longleftrightarrow> ?R")
  proof
    assume ?L
    then obtain s c rs where l: "k = Yaml_String s" "m s = None" "parse_entry s v = Ok c"
      "entries_parse parse_entry es rs" "fst ` set rs \<inter> dom (m(s \<mapsto> c)) = {}"
      "m' = m(s \<mapsto> c) ++ map_of rs" by blast
    have "m' = m ++ map_of ((s, c) # rs)"
      using l(5,6) by (subst map_add_upd_new[symmetric]) auto
    then show ?R
      using l by (intro exI[of _ "(s, c) # rs"]) (auto simp: e entries_parse_def entry_parses_def)
  next
    assume ?R
    then obtain s c rs where r: "entries_parse parse_entry (e # es) ((s, c) # rs)"
      "fst ` set ((s, c) # rs) \<inter> dom m = {}" "m' = m ++ map_of ((s, c) # rs)"
      by (auto simp: entries_parse_def list_all2_Cons1)
    have "m' = m(s \<mapsto> c) ++ map_of rs"
      using r(1,3) by (subst map_add_upd_new) (auto simp: entries_parse_def)
    with r show ?L by (auto simp: e entries_parse_def entry_parses_def)
  qed
  finally show ?case .
qed

locale yaml_section =
  fixes section_name :: string
    and allowed :: "string list"
    and parse_entry :: "string \<Rightarrow> strict_yaml \<Rightarrow> ('c, yaml_error) result"
    and accept :: "(string \<Rightarrow> 'c option) \<Rightarrow> bool"
    and parse_all :: "strict_yaml list \<Rightarrow> (string \<Rightarrow> 'c option, yaml_error) result"
  assumes parse_all_Ok: "string_keyed section_name docs \<Longrightarrow> parse_all docs = Ok m \<longleftrightarrow>
      (\<exists>rs. entries_parse parse_entry (all_entries section_name docs) rs \<and> m = map_of rs \<and> accept m)"
    and entry_is_hash: "parse_entry k v = Ok c \<Longrightarrow> as_hash v \<noteq> None"
    and reads_allowed: "(\<And>f. f \<in> set allowed \<Longrightarrow> yaml_index v f = yaml_index v' f) \<Longrightarrow>
      as_hash v \<noteq> None \<Longrightarrow> as_hash v' \<noteq> None \<Longrightarrow> parse_entry k v = parse_entry k v'"
begin

lemma sanitize_entry_get:
  "hash_get (Yaml_String f) (sanitize_entry allowed h) =
     (if f \<in> set allowed then hash_get (Yaml_String f) h else None)"
proof -
  have "hash_get (Yaml_String f) (fold (\<lambda>a s. case hash_get (Yaml_String a) h of
      Some v \<Rightarrow> hash_insert (Yaml_String a) v s | None \<Rightarrow> s) as acc) =
    (if f \<in> set as \<and> hash_get (Yaml_String f) h \<noteq> None then hash_get (Yaml_String f) h
     else hash_get (Yaml_String f) acc)" for as acc
    by (induction as arbitrary: acc) (auto split: option.splits)
  then show ?thesis by (auto simp: sanitize_entry_def)
qed

definition restrict_entry :: "strict_yaml \<times> strict_yaml \<Rightarrow> strict_yaml \<times> strict_yaml" where
  "restrict_entry e = (fst e, case snd e of Yaml_Hash h \<Rightarrow> Yaml_Hash (sanitize_entry allowed h) | v \<Rightarrow> v)"

lemma entry_parses_hash: "entry_parses parse_entry e r \<Longrightarrow> \<exists>s h. e = (Yaml_String s, Yaml_Hash h)"
proof -
  assume p: "entry_parses parse_entry e r"
  then have "as_hash (snd e) \<noteq> None" using entry_is_hash by (auto simp: entry_parses_def)
  with p show ?thesis by (cases e; cases "snd e") (auto simp: entry_parses_def)
qed

lemma entry_parses_restrict:
  assumes "entry_parses parse_entry e r"
  shows "entry_parses parse_entry (restrict_entry e) r"
proof -
  obtain s h where e: "e = (Yaml_String s, Yaml_Hash h)" using entry_parses_hash[OF assms] by blast
  have "parse_entry k (Yaml_Hash h) = parse_entry k (Yaml_Hash (sanitize_entry allowed h))" for k
    by (rule reads_allowed) (simp_all add: sanitize_entry_get)
  with assms show ?thesis by (simp add: e restrict_entry_def entry_parses_def)
qed

lemma sanitized_entries:
  assumes "list_all2 (entry_parses parse_entry) es rs"
  shows "map (\<lambda>(k, v). (Yaml_String k, v)) (concat (map (sanitized_entry allowed) es)) =
    map restrict_entry es"
  using assms
proof (induction rule: list_all2_induct)
  case (Cons e es r rs)
  from entry_parses_hash[OF Cons(1)] Cons(3) show ?case by (auto simp: restrict_entry_def)
qed simp

lemma fold_insert_distinct:
  "distinct (map fst kvs) \<Longrightarrow> fst ` set h \<inter> Yaml_String ` fst ` set kvs = {} \<Longrightarrow>
   fold (\<lambda>(key, value) h. hash_insert (Yaml_String key) value h) kvs h =
     h @ map (\<lambda>(k, v). (Yaml_String k, v)) kvs"
proof (induction kvs arbitrary: h)
  case (Cons kv kvs)
  obtain k v where kv: "kv = (k, v)" by force
  have new: "hash_insert (Yaml_String k) v h = h @ [(Yaml_String k, v)]"
    using Cons.prems(2) unfolding kv by (intro hash_insert_new) auto
  have "fst ` set (h @ [(Yaml_String k, v)]) \<inter> Yaml_String ` fst ` set kvs = {}"
    using Cons.prems unfolding kv by auto
  with Cons.IH[of "h @ [(Yaml_String k, v)]"] Cons.prems(1) show ?case by (simp add: kv new)
qed simp

lemma sanitize_hash_mset:
  assumes "list_all2 (entry_parses parse_entry) es rs" "distinct (map fst rs)"
  shows "mset (sanitize_hash allowed es) = image_mset restrict_entry (mset es)"
proof -
  let ?kvs = "concat (map (sanitized_entry allowed) es)"
  have eq: "map (\<lambda>(k, v). (Yaml_String k, v)) ?kvs = map restrict_entry es"
    by (rule sanitized_entries[OF assms(1)])
  have "map Yaml_String (map fst rs) = map fst es"
    using assms(1) by (induction rule: list_all2_induct) (auto simp: entry_parses_def)
  then have "distinct (map fst es)" using assms(2) by (metis distinct_map inj_onI strict_yaml.inject(1))
  moreover have "map Yaml_String (map fst ?kvs) = map fst es"
    using arg_cong[OF eq, of "map fst"] by (simp add: restrict_entry_def comp_def case_prod_beta)
  ultimately have "distinct (map fst ?kvs)" by (metis distinct_map)
  then have d: "distinct (map fst (sort_key fst ?kvs))"
    by (metis mset_eq_imp_distinct_iff mset_map mset_sort)
  have "sanitize_hash allowed es = map (\<lambda>(k, v). (Yaml_String k, v)) (sort_key fst ?kvs)"
    unfolding sanitize_hash_def using d by (subst fold_insert_distinct) auto
  then have "mset (sanitize_hash allowed es) = mset (map (\<lambda>(k, v). (Yaml_String k, v)) ?kvs)"
    by simp
  also have "\<dots> = image_mset restrict_entry (mset es)" by (simp only: eq mset_map)
  finally show ?thesis .
qed

lemma sanitize_document_entries:
  assumes "list_all2 (entry_parses parse_entry) (section_entries section_name doc) rs"
    and "distinct (map fst rs)"
  shows "mset (section_entries section_name (sanitize_document section_name allowed doc)) =
    image_mset restrict_entry (mset (section_entries section_name doc))"
proof (cases "optional_hash doc section_name")
  case None
  then have "sanitize_document section_name allowed doc = doc"
    by (auto simp: sanitize_document_def optional_hash_def yaml_index_def split: strict_yaml.splits
        option.splits)
  with None show ?thesis by (simp add: section_entries_def)
next
  case (Some h)
  then obtain root where doc: "doc = Yaml_Hash root"
    and sect: "hash_get (Yaml_String section_name) root = Some (Yaml_Hash h)"
    by (cases doc) (auto simp: optional_hash_def yaml_index_def split: option.splits
        elim: as_hash.elims)
  have "section_entries section_name (sanitize_document section_name allowed doc) = sanitize_hash allowed h"
    by (simp add: doc sect sanitize_document_def section_entries_def optional_hash_def)
  moreover have "section_entries section_name doc = h" using Some by (simp add: section_entries_def)
  ultimately show ?thesis using sanitize_hash_mset[of h rs] assms by simp
qed

lemma sanitize_all_entries:
  assumes "list_all2 (entry_parses parse_entry) (all_entries section_name docs) rs" "distinct (map fst rs)"
  shows "mset (all_entries section_name (map (sanitize_document section_name allowed) docs)) =
    image_mset restrict_entry (mset (all_entries section_name docs))"
  using assms
proof (induction docs arbitrary: rs)
  case (Cons d ds)
  from Cons.prems(1) obtain r1 r2 where rs: "rs = r1 @ r2"
    and d: "list_all2 (entry_parses parse_entry) (section_entries section_name d) r1"
    and ds: "list_all2 (entry_parses parse_entry) (all_entries section_name ds) r2"
    by (auto simp: list_all2_append1)
  from Cons.prems(2) rs have "distinct (map fst r1)" "distinct (map fst r2)" by auto
  with Cons.IH[OF ds] sanitize_document_entries[OF d] show ?case by simp
qed simp

lemma sanitize_keeps:
  assumes "string_keyed section_name docs" "parse_all docs = Ok m"
  shows "parse_all (map (sanitize_document section_name allowed) docs) = Ok m"
proof -
  let ?es = "all_entries section_name docs"
  let ?es' = "all_entries section_name (map (sanitize_document section_name allowed) docs)"
  from assms obtain rs where rs: "list_all2 (entry_parses parse_entry) ?es rs" "distinct (map fst rs)"
    and m: "m = map_of rs" "accept m"
    by (auto simp: parse_all_Ok entries_parse_def)
  have ms: "mset ?es' = mset (map restrict_entry ?es)" using sanitize_all_entries[OF rs] by simp
  have "list_all2 (entry_parses parse_entry) (map restrict_entry ?es) rs"
    using rs(1) by (auto simp: list_all2_conv_all_nth entry_parses_restrict)
  from list_all2_reorder_left_invariance[OF this ms] obtain rs' where
    rs': "list_all2 (entry_parses parse_entry) ?es' rs'" "mset rs' = mset rs" by blast
  have d: "distinct (map fst rs')" using rs(2) rs'(2) by (metis mset_eq_imp_distinct_iff mset_map)
  have "map_of rs' = map_of rs"
    using d rs(2) mset_eq_setD[OF rs'(2)] by (simp add: map_of_inject_set)
  moreover have "string_keyed section_name (map (sanitize_document section_name allowed) docs)"
    unfolding string_keyed_def by (rule entries_parse_string[OF rs'(1)])
  ultimately show ?thesis using rs'(1) d m by (auto simp: parse_all_Ok entries_parse_def)
qed

end

section \<open>Sync settings of the local database\<close>

definition allowed_local_db_sync_keys :: "string list" where
  "allowed_local_db_sync_keys = [''batch-size'', ''bootstrap-block-threshold'', ''finality-depth'',
     ''max-concurrent-batches'', ''rate-limit-delay-ms'', ''retry-attempts'', ''retry-delay-ms'',
     ''sync-interval-ms'']"

record local_db_sync_cfg =
  ls_key :: string
  ls_batch_size :: u32
  ls_max_concurrent_batches :: u32
  ls_retry_attempts :: u32
  ls_retry_delay_ms :: u64
  ls_rate_limit_delay_ms :: u64
  ls_finality_depth :: u32
  ls_bootstrap_block_threshold :: u32
  ls_sync_interval_ms :: u64

definition parse_sync_network_settings ::
  "string \<Rightarrow> strict_yaml \<Rightarrow> (local_db_sync_cfg, yaml_error) result" where
  "parse_sync_network_settings network_key yaml =
     (let location = ''local-db-sync.'' @ network_key;
          text = (\<lambda>field. require_string yaml (Some field) (Some location));
          u32_field = (\<lambda>field. rbind (text field) (\<lambda>s. parse_positive_u32 s field location));
          u64_field = (\<lambda>field. rbind (text field) (\<lambda>s. parse_positive_u64 s field location)) in
      rbind (u32_field ''batch-size'') (\<lambda>batch_size.
      rbind (u32_field ''max-concurrent-batches'') (\<lambda>max_concurrent_batches.
      rbind (u32_field ''retry-attempts'') (\<lambda>retry_attempts.
      rbind (u64_field ''retry-delay-ms'') (\<lambda>retry_delay_ms.
      rbind (u64_field ''rate-limit-delay-ms'') (\<lambda>rate_limit_delay_ms.
      rbind (u32_field ''finality-depth'') (\<lambda>finality_depth.
      rbind (u32_field ''bootstrap-block-threshold'') (\<lambda>bootstrap_block_threshold.
      rbind (u64_field ''sync-interval-ms'') (\<lambda>sync_interval_ms.
      Ok \<lparr>ls_key = network_key, ls_batch_size = batch_size,
          ls_max_concurrent_batches = max_concurrent_batches, ls_retry_attempts = retry_attempts,
          ls_retry_delay_ms = retry_delay_ms, ls_rate_limit_delay_ms = rate_limit_delay_ms,
          ls_finality_depth = finality_depth,
          ls_bootstrap_block_threshold = bootstrap_block_threshold,
          ls_sync_interval_ms = sync_interval_ms\<rparr>)))))))))"

fun parse_sync_entries ::
  "yaml_hash \<Rightarrow> (string \<Rightarrow> local_db_sync_cfg option) \<Rightarrow> (string \<Rightarrow> local_db_sync_cfg option, yaml_error) result" where
  "parse_sync_entries [] syncs = Ok syncs"
| "parse_sync_entries ((key_yaml, settings_yaml) # entries) syncs =
     (case as_str key_yaml of
        None \<Rightarrow> Err (Yaml_Field (Invalid_Type ''sync key'' ''a string'') ''local-db-sync'')
      | Some key \<Rightarrow>
          if key = [] then
            Err (Yaml_Field (Invalid_Value ''sync key'' ''network name cannot be empty'') ''local-db-sync'')
          else if syncs key \<noteq> None then Err (Key_Shadowing key ''local-db-sync'')
          else
            rbind (parse_sync_network_settings key settings_yaml) (\<lambda>cfg.
            parse_sync_entries entries (syncs(key \<mapsto> cfg\<lparr>ls_key := key\<rparr>))))"

fun parse_sync_documents ::
  "strict_yaml list \<Rightarrow> (string \<Rightarrow> local_db_sync_cfg option) \<Rightarrow> (string \<Rightarrow> local_db_sync_cfg option, yaml_error) result" where
  "parse_sync_documents [] syncs = Ok syncs"
| "parse_sync_documents (document # documents) syncs =
     rbind (case optional_hash document ''local-db-sync'' of
              Some sync_hash \<Rightarrow> parse_sync_entries sync_hash syncs
            | None \<Rightarrow> Ok syncs)
       (parse_sync_documents documents)"

definition parse_all_syncs ::
  "strict_yaml list \<Rightarrow> (string \<Rightarrow> local_db_sync_cfg option, yaml_error) result" where
  "parse_all_syncs documents = parse_sync_documents documents Map.empty"

definition sanitize_syncs :: "strict_yaml list \<Rightarrow> strict_yaml list" where
  "sanitize_syncs = map (sanitize_document ''local-db-sync'' allowed_local_db_sync_keys)"

definition sync_entry :: "string \<Rightarrow> strict_yaml \<Rightarrow> (local_db_sync_cfg, yaml_error) result" where
  "sync_entry key yaml =
     (if key = [] then
        Err (Yaml_Field (Invalid_Value ''sync key'' ''network name cannot be empty'') ''local-db-sync'')
      else parse_sync_network_settings key yaml)"

lemma require_string_field_cong:
  "yaml_index v f = yaml_index v' f \<Longrightarrow> require_string v (Some f) l = require_string v' (Some f) l"
  by (simp add: require_string_def)

lemma yaml_index_hash: "yaml_index v f \<noteq> Bad_Value \<Longrightarrow> as_hash v \<noteq> None"
  by (auto simp: yaml_index_def split: option.splits)

lemma require_string_hash: "require_string v (Some f) l = Ok s \<Longrightarrow> as_hash v \<noteq> None"
  using yaml_index_hash by (auto simp: require_string_def split: if_splits)

lemma sync_settings_key: "parse_sync_network_settings k v = Ok c \<Longrightarrow> c\<lparr>ls_key := k\<rparr> = c"
  by (auto simp: parse_sync_network_settings_def Let_def ok_iff)

lemma parse_sync_entries_append:
  "parse_sync_entries (xs @ ys) m = rbind (parse_sync_entries xs m) (parse_sync_entries ys)"
proof (induction xs arbitrary: m)
  case (Cons e xs)
  obtain k v where "e = (k, v)" by force
  with Cons show ?case by (auto simp: rbind_assoc simp del: fun_upd_apply split: option.splits)
qed simp

lemma parse_sync_documents_entries:
  "parse_sync_documents docs m = parse_sync_entries (all_entries ''local-db-sync'' docs) m"
proof (induction docs arbitrary: m)
  case (Cons d ds)
  then have "parse_sync_documents ds = parse_sync_entries (all_entries ''local-db-sync'' ds)"
    by (intro ext)
  then show ?case
    by (simp add: parse_sync_entries_append section_entries_def[of _ d] split: option.splits)
qed simp

lemma parse_sync_string_keyed:
  "parse_sync_entries es m = Ok m' \<Longrightarrow> list_all (\<lambda>e. as_str (fst e) \<noteq> None) es"
proof (induction es arbitrary: m)
  case (Cons e es)
  obtain k v where "e = (k, v)" by force
  with Cons show ?case by (auto simp: ok_iff split: option.splits if_splits)
qed simp

interpretation sync_section: yaml_section "''local-db-sync''" allowed_local_db_sync_keys sync_entry
  "\<lambda>_. True" parse_all_syncs
proof unfold_locales
  fix docs m
  assume keyed: "string_keyed ''local-db-sync'' docs"
  have loop: "parse_sync_entries (all_entries ''local-db-sync'' docs) Map.empty = Ok m \<longleftrightarrow>
      (\<exists>rs. entries_parse sync_entry (all_entries ''local-db-sync'' docs) rs \<and>
         fst ` set rs \<inter> dom (Map.empty :: string \<Rightarrow> local_db_sync_cfg option) = {} \<and>
         m = Map.empty ++ map_of rs)"
  proof (rule section_loop_Ok[where loop = parse_sync_entries])
    show "parse_sync_entries ((k, v) # es) m0 = Ok m' \<longleftrightarrow> (\<exists>s c. k = Yaml_String s \<and> m0 s = None \<and>
        sync_entry s v = Ok c \<and> parse_sync_entries es (m0(s \<mapsto> c)) = Ok m')"
      if "as_str k \<noteq> None" for k v es m0 m'
      using that by (cases k) (auto simp: sync_entry_def ok_iff sync_settings_key)
  qed (use keyed in \<open>simp_all add: string_keyed_def\<close>)
  then show "parse_all_syncs docs = Ok m \<longleftrightarrow> (\<exists>rs. entries_parse sync_entry
      (all_entries ''local-db-sync'' docs) rs \<and> m = map_of rs \<and> True)"
    by (simp add: parse_all_syncs_def parse_sync_documents_entries)
next
  fix k v c
  assume "sync_entry k v = Ok c"
  then show "as_hash v \<noteq> None"
    by (auto simp: sync_entry_def parse_sync_network_settings_def Let_def ok_iff
        dest: require_string_hash split: if_splits)
next
  fix v v' k
  assume fields: "\<And>f. f \<in> set allowed_local_db_sync_keys \<Longrightarrow> yaml_index v f = yaml_index v' f"
  have "require_string v (Some f) l = require_string v' (Some f) l"
    if "f \<in> set allowed_local_db_sync_keys" for f l
    by (intro require_string_field_cong fields that)
  then show "sync_entry k v = sync_entry k v'"
    by (simp add: sync_entry_def parse_sync_network_settings_def allowed_local_db_sync_keys_def Let_def)
qed

text \<open>
  Sanitising does not change the sync settings: when the documents parse, the
  documents whose \<open>local-db-sync\<close> sections were reduced to the known fields and sorted parse to
  the same settings.
\<close>
lemma sanitize_keeps_syncs:
  assumes "parse_all_syncs docs = Ok syncs"
  shows "parse_all_syncs (sanitize_syncs docs) = Ok syncs"
proof -
  have "string_keyed ''local-db-sync'' docs"
    using assms parse_sync_string_keyed
    by (auto simp: string_keyed_def parse_all_syncs_def parse_sync_documents_entries)
  from sync_section.sanitize_keeps[OF this assms] show ?thesis by (simp add: sanitize_syncs_def)
qed

end
