(* ===== verification/Settings_Networks.thy ===== *)
theory Settings_Networks
  imports Settings_Sections
begin

text \<open>
  The sections \<open>networks\<close> (\<open>settings/src/network.rs\<close>) and \<open>local-db-remotes\<close>
  (\<open>settings/src/local_db_remotes.rs\<close>) of a settings document. The remote networks of the parsing
  context are an argument (none without a context), in the iteration order of their map.
\<close>

section \<open>Networks\<close>

definition allowed_network_keys :: "string list" where
  "allowed_network_keys = [''rpcs'', ''chain-id'', ''label'', ''network-id'', ''currency'']"

record network_cfg =
  nc_key :: string
  nc_rpcs :: "url list"
  nc_chain_id :: u32
  nc_label :: "string option"
  nc_network_id :: "u32 option"
  nc_currency :: "string option"

fun display_network_error :: "parse_network_error \<Rightarrow> string" where
  "display_network_error (Rpc_Parse_Error e) = ''Failed to parse rpcs: '' @ e"
| "display_network_error (Chain_Id_Parse_Error e) = ''Failed to parse chain_id: '' @ e"
| "display_network_error (Network_Id_Parse_Error e) = ''Failed to parse network_id: '' @ e"
| "display_network_error (Remote_Network_Key_Shadowing k) = ''Remote network key shadowing: '' @ k"

definition validate_rpc :: "text_codec \<Rightarrow> string \<Rightarrow> (url, parse_network_error) result" where
  "validate_rpc T value = map_err Rpc_Parse_Error (tc_parse_url T value)"

definition validate_network_id :: "string \<Rightarrow> (u32, parse_network_error) result" where
  "validate_network_id value =
     map_err Network_Id_Parse_Error (rbind (parse_unsigned (2 ^ 32) value) (\<lambda>n. Ok (of_nat n)))"

definition parse_rpc_vec :: "text_codec \<Rightarrow> strict_yaml list \<Rightarrow> (url list, yaml_error) result" where
  "parse_rpc_vec T rpc_vec = rmap (\<lambda>rpc_value.
     rbind (require_string rpc_value None None) (\<lambda>rpc_str.
     map_err Parse_Network_Config_Source_Error (validate_rpc T rpc_str))) rpc_vec"

definition network_rpcs :: "text_codec \<Rightarrow> string \<Rightarrow> strict_yaml \<Rightarrow> (url list, yaml_error) result" where
  \<comment> \<open>the reading of \<open>rpcs\<close>, written out in \<open>parse_all_from_yaml\<close> and in \<open>parse_rpcs\<close>\<close>
  "network_rpcs T location network_yaml =
     rbind (require_vec network_yaml ''rpcs'' (Some location)) (\<lambda>rpc_vec.
     rbind (parse_rpc_vec T rpc_vec) (\<lambda>rpcs.
     if rpcs = [] then Err (Yaml_Field (Invalid_Value ''rpcs'' ''must be a non-empty array'') location)
     else Ok rpcs))"

definition parse_network_cfg ::
  "text_codec \<Rightarrow> string \<Rightarrow> strict_yaml \<Rightarrow> (network_cfg, yaml_error) result" where
  "parse_network_cfg T network_key network_yaml =
     (let location = ''network '' @ quoted network_key in
      rbind (network_rpcs T location network_yaml) (\<lambda>rpcs.
      rbind (require_string network_yaml (Some ''chain-id'') (Some location)) (\<lambda>chain_id_str.
      rbind (map_err (\<lambda>e. Yaml_Field (Invalid_Value ''chain-id'' e) location)
               (parse_unsigned (2 ^ 32) chain_id_str)) (\<lambda>chain_id.
      rbind (map_err (\<lambda>e. Yaml_Field (Invalid_Value ''network-id'' (display_network_error e)) location)
               (case optional_string network_yaml ''network-id'' of
                  None \<Rightarrow> Ok None
                | Some i \<Rightarrow> rbind (validate_network_id i) (\<lambda>n. Ok (Some n)))) (\<lambda>network_id.
      Ok \<lparr>nc_key = network_key, nc_rpcs = rpcs, nc_chain_id = of_nat chain_id,
          nc_label = optional_string network_yaml ''label'', nc_network_id = network_id,
          nc_currency = optional_string network_yaml ''currency''\<rparr>)))))"

fun parse_network_cfg_entries ::
  "text_codec \<Rightarrow> yaml_hash \<Rightarrow> (string \<Rightarrow> network_cfg option) \<Rightarrow> (string \<Rightarrow> network_cfg option, yaml_error) result" where
  "parse_network_cfg_entries T [] networks = Ok networks"
| "parse_network_cfg_entries T ((key_yaml, network_yaml) # entries) networks =
     (let network_key = (case as_str key_yaml of Some s \<Rightarrow> s | None \<Rightarrow> []) in
      rbind (parse_network_cfg T network_key network_yaml) (\<lambda>network.
      if networks network_key \<noteq> None then Err (Key_Shadowing network_key ''networks'')
      else parse_network_cfg_entries T entries (networks(network_key \<mapsto> network))))"

fun parse_network_documents ::
  "text_codec \<Rightarrow> strict_yaml list \<Rightarrow> (string \<Rightarrow> network_cfg option) \<Rightarrow> (string \<Rightarrow> network_cfg option, yaml_error) result" where
  "parse_network_documents T [] networks = Ok networks"
| "parse_network_documents T (document # documents) networks =
     rbind (case require_hash document (Some ''networks'') (Some ''root'') of
              Ok networks_hash \<Rightarrow> parse_network_cfg_entries T networks_hash networks
            | Err _ \<Rightarrow> Ok networks)
       (parse_network_documents T documents)"

fun merge_remote_networks ::
  "(string \<times> network_cfg) list \<Rightarrow> (string \<Rightarrow> network_cfg option) \<Rightarrow> (string \<Rightarrow> network_cfg option, yaml_error) result" where
  "merge_remote_networks [] networks = Ok networks"
| "merge_remote_networks ((key, network) # remote) networks =
     (if networks key \<noteq> None
      then Err (Parse_Network_Config_Source_Error (Remote_Network_Key_Shadowing key))
      else merge_remote_networks remote (networks(key \<mapsto> network)))"

definition parse_all_networks ::
  "text_codec \<Rightarrow> (string \<times> network_cfg) list \<Rightarrow> strict_yaml list \<Rightarrow> (string \<Rightarrow> network_cfg option, yaml_error) result" where
  "parse_all_networks T remote documents =
     rbind (parse_network_documents T documents Map.empty) (\<lambda>local.
     rbind (merge_remote_networks remote local) (\<lambda>networks.
     if networks = Map.empty then Err (Yaml_Field (Missing ''networks'') ''root'') else Ok networks))"

definition sanitize_networks :: "strict_yaml list \<Rightarrow> strict_yaml list" where
  "sanitize_networks = map (sanitize_document ''networks'' allowed_network_keys)"

fun parse_rpcs :: "text_codec \<Rightarrow> strict_yaml list \<Rightarrow> string \<Rightarrow> (url list, yaml_error) result" where
  "parse_rpcs T [] network_key =
     Err (Yaml_Field (Missing (''rpcs for network '' @ quoted network_key)) ''root'')"
| "parse_rpcs T (document # documents) network_key =
     (case require_hash document (Some ''networks'') (Some ''root'') of
        Ok networks_hash \<Rightarrow>
          (case hash_get (Yaml_String network_key) networks_hash of
             Some network_yaml \<Rightarrow> network_rpcs T (''network '' @ quoted network_key) network_yaml
           | None \<Rightarrow> parse_rpcs T documents network_key)
      | Err _ \<Rightarrow> parse_rpcs T documents network_key)"

definition hash_update :: "strict_yaml \<Rightarrow> strict_yaml \<Rightarrow> yaml_hash \<Rightarrow> yaml_hash" where
  \<comment> \<open>a value written through \<open>get_mut\<close>, which keeps the position of the entry\<close>
  "hash_update k v h = map (\<lambda>(j, x). (j, if j = k then v else x)) h"

definition update_rpcs ::
  "text_codec \<Rightarrow> network_cfg \<Rightarrow> string list \<Rightarrow> strict_yaml \<Rightarrow> (network_cfg \<times> strict_yaml, yaml_error) result" where
  \<comment> \<open>returns the configuration and the document it updated; \<open>network["rpcs"] = ...\<close> panics when the
    entry has no \<open>rpcs\<close>\<close>
  "update_rpcs T cfg rpcs document =
     rbind (rmap (\<lambda>rpc. map_err Parse_Network_Config_Source_Error (validate_rpc T rpc)) rpcs) (\<lambda>rpc_vec.
     case document of
       Yaml_Hash document_hash \<Rightarrow>
         (case hash_get (Yaml_String ''networks'') document_hash of
            Some (Yaml_Hash networks) \<Rightarrow>
              (case hash_get (Yaml_String (nc_key cfg)) networks of
                 Some (Yaml_Hash network) \<Rightarrow>
                   if hash_get (Yaml_String ''rpcs'') network = None then Err Yaml_Panicked
                   else
                     Ok (cfg\<lparr>nc_rpcs := rpc_vec\<rparr>,
                         Yaml_Hash (hash_update (Yaml_String ''networks'')
                           (Yaml_Hash (hash_update (Yaml_String (nc_key cfg))
                             (Yaml_Hash (hash_update (Yaml_String ''rpcs'')
                               (Yaml_Array (map Yaml_String rpc_vec)) network)) networks))
                           document_hash))
               | _ \<Rightarrow> Err (Yaml_Field (Missing (nc_key cfg)) ''networks''))
          | _ \<Rightarrow> Err (Yaml_Field (Missing ''networks'') ''root''))
     | _ \<Rightarrow> Err (Yaml_Field (Invalid_Type ''document'' ''a map'') ''root''))"

section \<open>Sanitising networks\<close>

lemma require_hash_section:
  "(case require_hash d (Some s) l of Ok h \<Rightarrow> f h | Err _ \<Rightarrow> z) =
   (case optional_hash d s of Some h \<Rightarrow> f h | None \<Rightarrow> z)"
  by (auto simp: require_hash_def optional_hash_def split: option.splits)

lemma parse_network_cfg_entries_append:
  "parse_network_cfg_entries T (xs @ ys) m =
     rbind (parse_network_cfg_entries T xs m) (parse_network_cfg_entries T ys)"
proof (induction xs arbitrary: m)
  case (Cons e xs)
  obtain k v where e: "e = (k, v)" by force
  show ?case
    by (cases "parse_network_cfg T (case as_str k of Some s \<Rightarrow> s | None \<Rightarrow> []) v")
      (auto simp: e Cons Let_def simp del: fun_upd_apply)
qed simp

lemma parse_network_documents_entries:
  "parse_network_documents T docs m = parse_network_cfg_entries T (all_entries ''networks'' docs) m"
proof (induction docs arbitrary: m)
  case (Cons d ds)
  then have "parse_network_documents T ds = parse_network_cfg_entries T (all_entries ''networks'' ds)"
    by (intro ext)
  then show ?case
    by (simp add: require_hash_section parse_network_cfg_entries_append section_entries_def[of _ d]
        split: option.splits)
qed simp

interpretation network_section: yaml_section "''networks''" allowed_network_keys "parse_network_cfg T"
  "\<lambda>_. True" "\<lambda>docs. parse_network_documents T docs Map.empty" for T
proof unfold_locales
  fix docs m
  assume keyed: "string_keyed ''networks'' docs"
  have "parse_network_cfg_entries T (all_entries ''networks'' docs) Map.empty = Ok m \<longleftrightarrow>
      (\<exists>rs. entries_parse (parse_network_cfg T) (all_entries ''networks'' docs) rs \<and>
         fst ` set rs \<inter> dom (Map.empty :: string \<Rightarrow> network_cfg option) = {} \<and>
         m = Map.empty ++ map_of rs)"
  proof (rule section_loop_Ok[where loop = "parse_network_cfg_entries T"])
    show "parse_network_cfg_entries T ((k, v) # es) m0 = Ok m' \<longleftrightarrow> (\<exists>s c. k = Yaml_String s \<and>
        m0 s = None \<and> parse_network_cfg T s v = Ok c \<and>
        parse_network_cfg_entries T es (m0(s \<mapsto> c)) = Ok m')"
      if "as_str k \<noteq> None" for k v es m0 m'
      using that by (cases k) (auto simp: ok_iff)
  qed (use keyed in \<open>simp_all add: string_keyed_def\<close>)
  then show "parse_network_documents T docs Map.empty = Ok m \<longleftrightarrow> (\<exists>rs. entries_parse (parse_network_cfg T)
      (all_entries ''networks'' docs) rs \<and> m = map_of rs \<and> True)"
    by (simp add: parse_network_documents_entries)
next
  fix k v c
  assume "parse_network_cfg T k v = Ok c"
  then show "as_hash v \<noteq> None"
    by (auto simp: parse_network_cfg_def Let_def ok_iff dest: require_string_hash)
next
  fix v v' k
  assume fields: "\<And>f. f \<in> set allowed_network_keys \<Longrightarrow> yaml_index v f = yaml_index v' f"
  have "require_string v (Some f) l = require_string v' (Some f) l \<and>
      optional_string v f = optional_string v' f \<and> require_vec v f l = require_vec v' f l"
    if "f \<in> set allowed_network_keys" for f l
    using fields[OF that] by (simp add: require_string_def optional_string_def require_vec_def)
  then show "parse_network_cfg T k v = parse_network_cfg T k v'"
    by (simp add: parse_network_cfg_def network_rpcs_def allowed_network_keys_def Let_def)
qed

text \<open>
  Sanitising does not change the networks: when the documents parse, whatever remote
  networks are merged in, so do the sanitised documents, and to the same networks. (The names of
  the section have to be strings: an entry named otherwise is read under the empty name, and
  dropped by the sanitiser.)
\<close>
lemma sanitize_keeps_networks:
  assumes "string_keyed ''networks'' docs" "parse_all_networks T remote docs = Ok networks"
  shows "parse_all_networks T remote (sanitize_networks docs) = Ok networks"
proof -
  from assms(2) obtain local where local: "parse_network_documents T docs Map.empty = Ok local"
    and rest: "rbind (merge_remote_networks remote local) (\<lambda>networks. if networks = Map.empty
      then Err (Yaml_Field (Missing ''networks'') ''root'') else Ok networks) = Ok networks"
    unfolding parse_all_networks_def rbind_Ok_iff[of "parse_network_documents T docs Map.empty"] by blast
  have "parse_network_documents T (sanitize_networks docs) Map.empty = Ok local"
    unfolding sanitize_networks_def by (rule network_section.sanitize_keeps[OF assms(1) local])
  with rest show ?thesis by (simp add: parse_all_networks_def)
qed

section \<open>Reading and writing the RPCs of a network\<close>

lemma hash_get_update:
  "hash_get j (hash_update k v h) = (if j = k \<and> hash_get k h \<noteq> None then Some v else hash_get j h)"
  by (induction h) (auto simp: hash_get_def hash_update_def)

lemma rmap_validated:
  assumes "rmap (\<lambda>rpc. map_err Parse_Network_Config_Source_Error (validate_rpc T rpc)) rpcs = Ok us"
    and "\<And>s u. tc_parse_url T s = Ok u \<Longrightarrow> tc_parse_url T u = Ok u"
  shows "parse_rpc_vec T (map Yaml_String us) = Ok us"
  using assms(1)
proof (induction rpcs arbitrary: us)
  case (Cons r rs)
  then obtain u us' where u: "tc_parse_url T r = Ok u" "us = u # us'"
    and tl: "rmap (\<lambda>rpc. map_err Parse_Network_Config_Source_Error (validate_rpc T rpc)) rs = Ok us'"
    by (auto simp: ok_iff validate_rpc_def)
  from Cons.IH[OF tl] assms(2)[OF u(1)] show ?case
    by (simp add: u(2) parse_rpc_vec_def require_string_def validate_rpc_def)
qed (simp add: parse_rpc_vec_def)

text \<open>
  RPCs that are written are read back: after a successful update of a network with at
  least one RPC, reading the RPCs of that network from the updated document gives the list that was
  written, and the entries of every other network are untouched. (URLs are assumed to parse from
  the text they display.)
\<close>
lemma update_rpcs_roundtrip:
  assumes "\<And>s u. tc_parse_url T s = Ok u \<Longrightarrow> tc_parse_url T u = Ok u"
    and "update_rpcs T cfg rpcs document = Ok (cfg', document')" and "rpcs \<noteq> []"
  shows "parse_rpcs T [document'] (nc_key cfg) = Ok (nc_rpcs cfg') \<and>
    (\<forall>name. name \<noteq> nc_key cfg \<longrightarrow> parse_rpcs T [document'] name = parse_rpcs T [document] name)"
proof -
  from assms(2) obtain us where
    us: "rmap (\<lambda>rpc. map_err Parse_Network_Config_Source_Error (validate_rpc T rpc)) rpcs = Ok us"
    by (auto simp: update_rpcs_def ok_iff)
  with assms(2) obtain dh nets net where doc: "document = Yaml_Hash dh"
    and nets: "hash_get (Yaml_String ''networks'') dh = Some (Yaml_Hash nets)"
    and net: "hash_get (Yaml_String (nc_key cfg)) nets = Some (Yaml_Hash net)"
    and has: "hash_get (Yaml_String ''rpcs'') net \<noteq> None"
    and cfg': "cfg' = cfg\<lparr>nc_rpcs := us\<rparr>"
    and doc': "document' = Yaml_Hash (hash_update (Yaml_String ''networks'')
       (Yaml_Hash (hash_update (Yaml_String (nc_key cfg)) (Yaml_Hash (hash_update (Yaml_String ''rpcs'')
         (Yaml_Array (map Yaml_String us)) net)) nets)) dh)"
    by (auto simp: update_rpcs_def split: strict_yaml.splits option.splits if_splits)
  have "us \<noteq> []" using rmap_Ok_length[OF us] assms(3) by auto
  with rmap_validated[OF us assms(1)] show ?thesis
    using nets net has
    by (auto simp: doc doc' cfg' require_hash_def hash_get_update network_rpcs_def require_vec_def
        split: option.splits)
qed

definition url_codec :: text_codec where
  \<comment> \<open>every text is the URL it spells\<close>
  "url_codec = \<lparr>tc_show_address = (\<lambda>_. []), tc_parse_address = (\<lambda>_. Err ''address''),
     tc_parse_url = Ok, tc_show_bytes = (\<lambda>_. []), tc_parse_bytes = (\<lambda>_. Err ''bytes'')\<rparr>"

definition example_network :: network_cfg where
  "example_network = \<lparr>nc_key = ''base'', nc_rpcs = [''https://a''], nc_chain_id = 8453,
     nc_label = None, nc_network_id = None, nc_currency = None\<rparr>"

definition example_document :: "string list \<Rightarrow> strict_yaml" where
  "example_document rpcs = Yaml_Hash [(Yaml_String ''networks'', Yaml_Hash
     [(Yaml_String ''base'', Yaml_Hash [(Yaml_String ''rpcs'', Yaml_Array (map Yaml_String rpcs)),
        (Yaml_String ''chain-id'', Yaml_String ''8453'')])])]"

lemma update_rpcs_roundtrip_example:
  "update_rpcs url_codec example_network [''https://b'', ''https://c''] (example_document [''https://a'']) =
     Ok (example_network\<lparr>nc_rpcs := [''https://b'', ''https://c'']\<rparr>, example_document [''https://b'', ''https://c'']) \<and>
   parse_rpcs url_codec [example_document [''https://b'', ''https://c'']] ''base'' = Ok [''https://b'', ''https://c'']"
proof -
  have upd: "update_rpcs url_codec example_network [''https://b'', ''https://c''] (example_document [''https://a'']) =
     Ok (example_network\<lparr>nc_rpcs := [''https://b'', ''https://c'']\<rparr>, example_document [''https://b'', ''https://c''])"
    by (simp add: update_rpcs_def validate_rpc_def url_codec_def example_network_def example_document_def
        hash_get_def hash_update_def)
  have "tc_parse_url url_codec s = Ok u \<Longrightarrow> tc_parse_url url_codec u = Ok u" for s u
    by (simp add: url_codec_def)
  from update_rpcs_roundtrip [OF this upd] upd show ?thesis by (simp add: example_network_def)
qed

section \<open>Remotes of the local database\<close>

record local_db_remote_cfg =
  lr_key :: string
  lr_url :: url

fun parse_remote_entries ::
  "text_codec \<Rightarrow> yaml_hash \<Rightarrow> (string \<Rightarrow> local_db_remote_cfg option) \<Rightarrow> (url \<Rightarrow> string option)
   \<Rightarrow> ((string \<Rightarrow> local_db_remote_cfg option) \<times> (url \<Rightarrow> string option), yaml_error) result" where
  "parse_remote_entries T [] remotes remote_keys_by_url = Ok (remotes, remote_keys_by_url)"
| "parse_remote_entries T ((key_yaml, remote_yaml) # entries) remotes remote_keys_by_url =
     rbind (ok_or (as_str key_yaml)
              (Yaml_Field (Invalid_Type ''key'' ''a string'') ''local-db-remotes'')) (\<lambda>remote_key.
     let location = ''local-db-remotes['' @ remote_key @ '']'' in
     rbind (require_string remote_yaml None (Some location)) (\<lambda>url_str.
     rbind (map_err (\<lambda>e. Yaml_Field (Invalid_Value ''url'' e) location) (tc_parse_url T url_str)) (\<lambda>u.
     if remotes remote_key \<noteq> None then Err (Key_Shadowing remote_key ''local-db-remotes'')
     else case remote_keys_by_url u of
       Some existing_key \<Rightarrow>
         Err (Yaml_Field (Invalid_Value ''url'' (''duplicates local-db-remotes['' @ existing_key @ '']''))
                location)
     | None \<Rightarrow>
         parse_remote_entries T entries (remotes(remote_key \<mapsto> \<lparr>lr_key = remote_key, lr_url = u\<rparr>))
           (remote_keys_by_url(u \<mapsto> remote_key)))))"

fun parse_remote_documents ::
  "text_codec \<Rightarrow> strict_yaml list \<Rightarrow> (string \<Rightarrow> local_db_remote_cfg option) \<times> (url \<Rightarrow> string option)
   \<Rightarrow> ((string \<Rightarrow> local_db_remote_cfg option) \<times> (url \<Rightarrow> string option), yaml_error) result" where
  "parse_remote_documents T [] st = Ok st"
| "parse_remote_documents T (document # documents) st =
     rbind (case optional_hash document ''local-db-remotes'' of
              Some remotes_hash \<Rightarrow> parse_remote_entries T remotes_hash (fst st) (snd st)
            | None \<Rightarrow> Ok st)
       (parse_remote_documents T documents)"

definition parse_all_remotes ::
  "text_codec \<Rightarrow> strict_yaml list \<Rightarrow> (string \<Rightarrow> local_db_remote_cfg option, yaml_error) result" where
  "parse_all_remotes T documents =
     rbind (parse_remote_documents T documents (Map.empty, Map.empty)) (\<lambda>(remotes, _). Ok remotes)"

definition remotes_ok :: "(string \<Rightarrow> local_db_remote_cfg option) \<times> (url \<Rightarrow> string option) \<Rightarrow> bool" where
  "remotes_ok st \<longleftrightarrow> (\<forall>k r. fst st k = Some r \<longrightarrow> lr_key r = k \<and> snd st (lr_url r) = Some k)"

lemma parse_remote_entries_ok:
  "remotes_ok (r, u) \<Longrightarrow> parse_remote_entries T es r u = Ok st \<Longrightarrow> remotes_ok st"
proof (induction es arbitrary: r u)
  case (Cons e es)
  obtain k v where e: "e = (k, v)" by force
  from Cons.prems(2) obtain key a where new: "r key = None" "u a = None"
    and rest: "parse_remote_entries T es (r(key \<mapsto> \<lparr>lr_key = key, lr_url = a\<rparr>)) (u(a \<mapsto> key)) = Ok st"
    by (auto simp: e ok_iff Let_def simp del: fun_upd_apply split: if_splits option.splits)
  have "remotes_ok (r(key \<mapsto> \<lparr>lr_key = key, lr_url = a\<rparr>), u(a \<mapsto> key))"
    using Cons.prems(1) new by (fastforce simp: remotes_ok_def)
  then show ?case using Cons.IH rest by blast
qed simp

lemma parse_remote_documents_ok:
  "remotes_ok st \<Longrightarrow> parse_remote_documents T ds st = Ok st' \<Longrightarrow> remotes_ok st'"
  by (induction ds arbitrary: st)
    (auto simp: ok_iff dest: parse_remote_entries_ok split: option.splits)

text \<open>
  Remotes have distinct URLs: in a map that parses, every remote is bound to its own
  key and no two keys have the same URL.
\<close>
lemma remotes_are_distinct:
  assumes "parse_all_remotes T docs = Ok remotes" "remotes k = Some r" "remotes k' = Some r'"
  shows "lr_key r = k \<and> (lr_url r = lr_url r' \<longrightarrow> k = k')"
proof -
  from assms(1) obtain u where "parse_remote_documents T docs (Map.empty, Map.empty) = Ok (remotes, u)"
    by (auto simp: parse_all_remotes_def ok_iff)
  moreover have "remotes_ok (Map.empty, Map.empty)" by (simp add: remotes_ok_def)
  ultimately have "remotes_ok (remotes, u)" by (rule parse_remote_documents_ok[rotated])
  with assms(2,3) have "lr_key r = k" "u (lr_url r) = Some k" "u (lr_url r') = Some k'"
    by (simp_all add: remotes_ok_def)
  then show ?thesis by auto
qed

end
