(* ===== verification/Settings_Catalog.thy ===== *)
theory Settings_Catalog
  imports Settings_Networks
begin

text \<open>
  The sections of a settings document that describe what there is on the networks: \<open>subgraphs\<close>
  (\<open>settings/src/subgraph.rs\<close>), \<open>metaboards\<close> (\<open>metaboard.rs\<close>), \<open>rainlangs\<close> (\<open>rainlang.rs\<close>), \<open>raindexes\<close>
  (\<open>raindex.rs\<close>), the sources of remote networks (\<open>remote_networks.rs\<close>), the version
  (\<open>spec_version.rs\<close>) and the flag of the error reporter (\<open>sentry.rs\<close>).

  The six sections that are parsed by the same loop share it (\<open>collect_entries\<close>,
  \<open>collect_documents\<close>), each with its own parser of an entry. Remote networks are an argument, as in
  \<open>Settings_Networks\<close>.
\<close>

section \<open>The loop of a section\<close>

fun collect_entries ::
  "string \<Rightarrow> (string \<Rightarrow> strict_yaml \<Rightarrow> ('c, yaml_error) result) \<Rightarrow> yaml_hash \<Rightarrow> (string \<Rightarrow> 'c option)
   \<Rightarrow> (string \<Rightarrow> 'c option, yaml_error) result" where
  "collect_entries section_name parse_entry [] found = Ok found"
| "collect_entries section_name parse_entry ((key_yaml, entry_yaml) # entries) found =
     (let key = (case as_str key_yaml of Some s \<Rightarrow> s | None \<Rightarrow> []) in
      rbind (parse_entry key entry_yaml) (\<lambda>entry.
      if found key \<noteq> None then Err (Key_Shadowing key section_name)
      else collect_entries section_name parse_entry entries (found(key \<mapsto> entry))))"

fun collect_documents ::
  "string \<Rightarrow> string option \<Rightarrow> (string \<Rightarrow> strict_yaml \<Rightarrow> ('c, yaml_error) result) \<Rightarrow> strict_yaml list
   \<Rightarrow> (string \<Rightarrow> 'c option) \<Rightarrow> (string \<Rightarrow> 'c option, yaml_error) result" where
  "collect_documents section_name location parse_entry [] found = Ok found"
| "collect_documents section_name location parse_entry (document # documents) found =
     rbind (case require_hash document (Some section_name) location of
              Ok section_hash \<Rightarrow> collect_entries section_name parse_entry section_hash found
            | Err _ \<Rightarrow> Ok found)
       (collect_documents section_name location parse_entry documents)"

definition required :: "string \<Rightarrow> (string \<Rightarrow> 'c option) \<Rightarrow> (string \<Rightarrow> 'c option, yaml_error) result" where
  "required section_name found =
     (if found = Map.empty then Err (Yaml_Field (Missing section_name) ''root'') else Ok found)"

definition entry_named :: "string \<Rightarrow> (string \<Rightarrow> 'c option, yaml_error) result \<Rightarrow> ('c, yaml_error) result" where
  \<comment> \<open>\<open>parse_from_yaml\<close>\<close>
  "entry_named key parsed = rbind parsed (\<lambda>found. ok_or (found key) (Key_Not_Found key))"

definition add_entry :: "string \<Rightarrow> string \<Rightarrow> strict_yaml \<Rightarrow> strict_yaml \<Rightarrow> (strict_yaml, yaml_error) result" where
  \<comment> \<open>the writing part of \<open>add_record_to_yaml\<close>\<close>
  "add_entry section_name key value document =
     (case document of
        Yaml_Hash document_hash \<Rightarrow>
          let document_hash = (if hash_get (Yaml_String section_name) document_hash = None
                then hash_insert (Yaml_String section_name) (Yaml_Hash []) document_hash
                else document_hash) in
          (case hash_get (Yaml_String section_name) document_hash of
             Some (Yaml_Hash entries) \<Rightarrow>
               if hash_get (Yaml_String key) entries \<noteq> None then Err (Key_Shadowing key section_name)
               else Ok (Yaml_Hash (hash_update (Yaml_String section_name)
                      (Yaml_Hash (hash_insert (Yaml_String key) value entries)) document_hash))
           | _ \<Rightarrow> Err (Yaml_Field (Missing section_name) ''root''))
      | _ \<Rightarrow> Err (Yaml_Field (Invalid_Type ''document'' ''a map'') ''root''))"

definition address_field :: "text_codec \<Rightarrow> strict_yaml \<Rightarrow> string \<Rightarrow> (address, yaml_error) result" where
  \<comment> \<open>the reading of \<open>address\<close> of tokens, raindexes and rainlangs; the error displays no reason\<close>
  "address_field T yaml location =
     rbind (require_string yaml (Some ''address'') (Some location)) (\<lambda>address_str.
     map_err (\<lambda>_. Yaml_Field (Invalid_Value ''address'' ''Failed to parse address'') location)
       (tc_parse_address T address_str))"

definition reference :: "string \<Rightarrow> string \<Rightarrow> string \<Rightarrow> string \<Rightarrow> (string \<Rightarrow> 'c option) \<Rightarrow> ('c, yaml_error) result" where
  \<comment> \<open>a name looked up in another section\<close>
  "reference field kind name location defined =
     ok_or (defined name)
       (Yaml_Field (Invalid_Value field (kind @ '' '' @ quoted name @ '' not found'')) location)"

definition unwrap_string :: "string option \<Rightarrow> string \<Rightarrow> string" where
  "unwrap_string s fallback = (case s of Some s \<Rightarrow> s | None \<Rightarrow> fallback)"

section \<open>Subgraphs and metaboards\<close>

record subgraph_cfg =
  sg_key :: string
  sg_url :: url

definition parse_subgraph :: "text_codec \<Rightarrow> string \<Rightarrow> strict_yaml \<Rightarrow> (subgraph_cfg, yaml_error) result" where
  "parse_subgraph T subgraph_key subgraph_yaml =
     (let location = ''subgraph '' @ quoted subgraph_key in
      rbind (require_string subgraph_yaml None (Some location)) (\<lambda>url_str.
      rbind (map_err (\<lambda>e. Yaml_Field (Invalid_Value ''url'' e) location) (tc_parse_url T url_str)) (\<lambda>u.
      Ok \<lparr>sg_key = subgraph_key, sg_url = u\<rparr>)))"

definition parse_all_subgraphs ::
  "text_codec \<Rightarrow> strict_yaml list \<Rightarrow> (string \<Rightarrow> subgraph_cfg option, yaml_error) result" where
  "parse_all_subgraphs T documents =
     rbind (collect_documents ''subgraphs'' (Some ''root'') (parse_subgraph T) documents Map.empty)
       (required ''subgraphs'')"

definition add_subgraph :: "text_codec \<Rightarrow> string \<Rightarrow> string \<Rightarrow> strict_yaml \<Rightarrow> (strict_yaml, yaml_error) result" where
  "add_subgraph T key value document =
     rbind (map_err (\<lambda>e. Yaml_Field (Invalid_Value ''url'' e) (''subgraph '' @ quoted key)) (tc_parse_url T value))
       (\<lambda>u. add_entry ''subgraphs'' key (Yaml_String u) document)"

record metaboard_cfg =
  mb_key :: string
  mb_url :: url

definition parse_metaboard :: "text_codec \<Rightarrow> string \<Rightarrow> strict_yaml \<Rightarrow> (metaboard_cfg, yaml_error) result" where
  "parse_metaboard T metaboard_key metaboard_yaml =
     (let location = ''metaboards['' @ metaboard_key @ '']'' in
      rbind (require_string metaboard_yaml None (Some location)) (\<lambda>url_str.
      rbind (map_err (\<lambda>e. Yaml_Field (Invalid_Value ''url'' e) location) (tc_parse_url T url_str)) (\<lambda>u.
      Ok \<lparr>mb_key = metaboard_key, mb_url = u\<rparr>)))"

definition parse_all_metaboards ::
  "text_codec \<Rightarrow> strict_yaml list \<Rightarrow> (string \<Rightarrow> metaboard_cfg option, yaml_error) result" where
  "parse_all_metaboards T documents =
     rbind (collect_documents ''metaboards'' None (parse_metaboard T) documents Map.empty)
       (required ''metaboards'')"

definition add_metaboard :: "text_codec \<Rightarrow> string \<Rightarrow> string \<Rightarrow> strict_yaml \<Rightarrow> (strict_yaml, yaml_error) result" where
  \<comment> \<open>writes the text it was given, not the URL it was checked as\<close>
  "add_metaboard T key value document =
     rbind (map_err Url_Parse_Error (tc_parse_url T value))
       (\<lambda>_. add_entry ''metaboards'' key (Yaml_String value) document)"

section \<open>Rainlangs\<close>

definition allowed_rainlang_keys :: "string list" where
  "allowed_rainlang_keys = [''address'', ''network'']"

record rainlang_cfg =
  rl_key :: string
  rl_address :: address
  rl_network :: network_cfg

definition parse_rainlang ::
  "text_codec \<Rightarrow> (string \<Rightarrow> network_cfg option) \<Rightarrow> string \<Rightarrow> strict_yaml \<Rightarrow> (rainlang_cfg, yaml_error) result" where
  "parse_rainlang T networks rainlang_key rainlang_yaml =
     (let location = ''rainlang '' @ quoted rainlang_key in
      rbind (address_field T rainlang_yaml location) (\<lambda>addr.
      let network_name = unwrap_string (optional_string rainlang_yaml ''network'') rainlang_key in
      rbind (reference ''network'' ''Network'' network_name location networks) (\<lambda>network.
      Ok \<lparr>rl_key = rainlang_key, rl_address = addr, rl_network = network\<rparr>)))"

definition parse_all_rainlangs ::
  "text_codec \<Rightarrow> (string \<times> network_cfg) list \<Rightarrow> strict_yaml list \<Rightarrow> (string \<Rightarrow> rainlang_cfg option, yaml_error) result" where
  "parse_all_rainlangs T remote documents =
     rbind (parse_all_networks T remote documents) (\<lambda>networks.
     rbind (collect_documents ''rainlangs'' None (parse_rainlang T networks) documents Map.empty)
       (required ''rainlangs''))"

fun rainlang_network_key :: "strict_yaml list \<Rightarrow> string \<Rightarrow> (string, yaml_error) result" where
  "rainlang_network_key [] rainlang_key =
     Err (Yaml_Field (Missing (''network for rainlang '' @ quoted rainlang_key)) ''root'')"
| "rainlang_network_key (document # documents) rainlang_key =
     (case require_hash document (Some ''rainlangs'') None of
        Ok rainlangs_hash \<Rightarrow>
          (case hash_get (Yaml_String rainlang_key) rainlangs_hash of
             Some rainlang_yaml \<Rightarrow>
               Ok (unwrap_or (require_string rainlang_yaml (Some ''network'') None) rainlang_key)
           | None \<Rightarrow> rainlang_network_key documents rainlang_key)
      | Err _ \<Rightarrow> Err (Yaml_Field (Invalid_Type ''rainlangs'' ''a map'') ''root''))"

section \<open>Raindexes\<close>

definition allowed_raindex_keys :: "string list" where
  "allowed_raindex_keys =
     [''address'', ''deployment-block'', ''label'', ''local-db-remote'', ''network'', ''subgraph'']"

record raindex_cfg =
  rx_key :: string
  rx_address :: address
  rx_network :: network_cfg
  rx_subgraph :: subgraph_cfg
  rx_local_db_remote :: "local_db_remote_cfg option"
  rx_label :: "string option"
  rx_deployment_block :: u64

definition parse_raindex ::
  "text_codec \<Rightarrow> (string \<Rightarrow> network_cfg option) \<Rightarrow> (string \<Rightarrow> subgraph_cfg option)
   \<Rightarrow> (string \<Rightarrow> local_db_remote_cfg option) \<Rightarrow> string \<Rightarrow> strict_yaml \<Rightarrow> (raindex_cfg, yaml_error) result" where
  "parse_raindex T networks subgraphs local_db_remotes raindex_key raindex_yaml =
     (let location = ''raindex '' @ quoted raindex_key in
      rbind (address_field T raindex_yaml location) (\<lambda>addr.
      let network_name = unwrap_string (optional_string raindex_yaml ''network'') raindex_key in
      rbind (reference ''network'' ''Network'' network_name location networks) (\<lambda>network.
      let subgraph_name = unwrap_string (optional_string raindex_yaml ''subgraph'') raindex_key in
      rbind (reference ''subgraph'' ''Subgraph'' subgraph_name location subgraphs) (\<lambda>subgraph.
      let local_db_remote =
            local_db_remotes (unwrap_string (optional_string raindex_yaml ''local-db-remote'') raindex_key) in
      rbind (require_string raindex_yaml (Some ''deployment-block'') (Some location)) (\<lambda>deployment_block_str.
      rbind (map_err (\<lambda>e. Yaml_Field (Invalid_Value ''deployment-block''
                      (''Failed to parse deployment block: '' @ e)) location)
               (parse_unsigned (2 ^ 64) deployment_block_str)) (\<lambda>deployment_block.
      Ok \<lparr>rx_key = raindex_key, rx_address = addr, rx_network = network, rx_subgraph = subgraph,
          rx_local_db_remote = local_db_remote, rx_label = optional_string raindex_yaml ''label'',
          rx_deployment_block = of_nat deployment_block\<rparr>))))))"

definition parse_all_raindexes ::
  "text_codec \<Rightarrow> (string \<times> network_cfg) list \<Rightarrow> strict_yaml list \<Rightarrow> (string \<Rightarrow> raindex_cfg option, yaml_error) result" where
  "parse_all_raindexes T remote documents =
     rbind (parse_all_networks T remote documents) (\<lambda>networks.
     rbind (parse_all_subgraphs T documents) (\<lambda>subgraphs.
     rbind (parse_all_remotes T documents) (\<lambda>local_db_remotes.
     rbind (collect_documents ''raindexes'' None (parse_raindex T networks subgraphs local_db_remotes)
              documents Map.empty)
       (required ''raindexes''))))"

fun raindex_network_key :: "strict_yaml list \<Rightarrow> string \<Rightarrow> (string, yaml_error) result" where
  "raindex_network_key [] raindex_key =
     Err (Yaml_Field (Missing (''network for raindex '' @ quoted raindex_key)) ''root'')"
| "raindex_network_key (document # documents) raindex_key =
     (case require_hash document (Some ''raindexes'') None of
        Ok raindex_hash \<Rightarrow>
          (case hash_get (Yaml_String raindex_key) raindex_hash of
             Some raindex_yaml \<Rightarrow>
               Ok (unwrap_or (require_string raindex_yaml (Some ''network'') None) raindex_key)
           | None \<Rightarrow> raindex_network_key documents raindex_key)
      | Err _ \<Rightarrow> raindex_network_key documents raindex_key)"

section \<open>Sources of remote networks\<close>

definition allowed_remote_networks_keys :: "string list" where
  "allowed_remote_networks_keys = [''format'', ''url'']"

record remote_networks_cfg =
  rn_key :: string
  rn_url :: url
  rn_format :: string

definition parse_remote_source :: "text_codec \<Rightarrow> string \<Rightarrow> strict_yaml \<Rightarrow> (remote_networks_cfg, yaml_error) result" where
  "parse_remote_source T key network_yaml =
     (let location = ''using-networks-from '' @ quoted key in
      rbind (require_string network_yaml (Some ''url'') (Some location)) (\<lambda>url_str.
      rbind (map_err (\<lambda>e. Yaml_Field (Invalid_Value ''url'' e) location) (tc_parse_url T url_str)) (\<lambda>u.
      rbind (require_string network_yaml (Some ''format'') (Some location)) (\<lambda>format.
      Ok \<lparr>rn_key = key, rn_url = u, rn_format = format\<rparr>))))"

definition parse_all_remote_networks ::
  "text_codec \<Rightarrow> strict_yaml list \<Rightarrow> (string \<Rightarrow> remote_networks_cfg option, yaml_error) result" where
  "parse_all_remote_networks T documents =
     collect_documents ''using-networks-from'' (Some ''root'') (parse_remote_source T) documents Map.empty"

section \<open>Version and flags\<close>

definition current_spec_version :: string where
  "current_spec_version = ''6''"

fun spec_version_from :: "nat \<Rightarrow> strict_yaml list \<Rightarrow> string option \<Rightarrow> (string option, yaml_error) result" where
  "spec_version_from index [] parsed_version = Ok parsed_version"
| "spec_version_from index (document # documents) parsed_version =
     (let location = (if index = 0 then ''root'' else ''document '' @ show_nat (index + 1)) in
      rbind (require_string document (Some ''version'') (Some location)) (\<lambda>version.
      rbind (case parsed_version of
               Some existing_version \<Rightarrow>
                 if existing_version \<noteq> version then
                   Err (Yaml_Field (Invalid_Value ''version'' (''spec version mismatch: expected '' @
                     quoted existing_version @ '', found '' @ quoted version)) location)
                 else Ok (Some existing_version)
             | None \<Rightarrow> Ok (Some version))
        (spec_version_from (index + 1) documents)))"

definition parse_spec_version :: "strict_yaml list \<Rightarrow> (string, yaml_error) result" where
  "parse_spec_version documents =
     (if documents = [] then Err Empty_File
      else rbind (spec_version_from 0 documents None) (\<lambda>version.
        ok_or version (Yaml_Field (Missing ''version'') ''root'')))"

definition validate_spec_version :: "strict_yaml list \<Rightarrow> (unit, yaml_error) result" where
  "validate_spec_version documents =
     rbind (parse_spec_version documents) (\<lambda>version.
     if version \<noteq> current_spec_version then
       Err (Yaml_Field (Invalid_Value ''version'' (''spec version mismatch: expected '' @
         quoted current_spec_version @ '', found '' @ quoted version)) ''root'')
     else Ok ())"

definition get_sentry :: "strict_yaml list \<Rightarrow> (bool option, yaml_error) result" where
  \<comment> \<open>\<open>documents[0]\<close> panics without a document\<close>
  "get_sentry documents =
     (case documents of
        [] \<Rightarrow> Err Yaml_Panicked
      | document # _ \<Rightarrow>
          (case optional_string document ''sentry'' of
             None \<Rightarrow> Ok None
           | Some v \<Rightarrow>
               let v = map to_ascii_lowercase v in
               if v \<in> {''true'', ''1''} then Ok (Some True)
               else if v \<in> {''false'', ''0''} then Ok (Some False)
               else Err (Yaml_Field (Invalid_Type ''sentry'' ''a boolean'') ''root'')))"

section \<open>What the loop finds\<close>

lemma collect_entries_append:
  "collect_entries s p (xs @ ys) m = rbind (collect_entries s p xs m) (collect_entries s p ys)"
proof (induction xs arbitrary: m)
  case (Cons e xs)
  obtain k v where e: "e = (k, v)" by force
  show ?case
    by (cases "p (case as_str k of Some s \<Rightarrow> s | None \<Rightarrow> []) v")
      (auto simp: e Cons Let_def simp del: fun_upd_apply)
qed simp

lemma collect_documents_entries:
  "collect_documents s l p docs m = collect_entries s p (all_entries s docs) m"
proof (induction docs arbitrary: m)
  case (Cons d ds)
  then have "collect_documents s l p ds = collect_entries s p (all_entries s ds)" by (intro ext)
  then show ?case
    by (simp add: require_hash_section collect_entries_append section_entries_def[of _ d] split: option.splits)
qed simp

lemma collect_entries_upd:
  assumes "collect_entries s p es m = Ok m'" "m' k = None"
  shows "collect_entries s p es (m(k \<mapsto> c)) = Ok (m'(k \<mapsto> c))"
  using assms
proof (induction es arbitrary: m)
  case (Cons e es)
  obtain j v where e: "e = (j, v)" by force
  let ?j = "case as_str j of Some s \<Rightarrow> s | None \<Rightarrow> []"
  from Cons.prems(1) obtain x where x: "p ?j v = Ok x" "m ?j = None"
    and rest: "collect_entries s p es (m(?j \<mapsto> x)) = Ok m'"
    by (auto simp: e ok_iff Let_def simp del: fun_upd_apply split: if_splits)
  have grows: "m0 i \<noteq> None \<Longrightarrow> collect_entries s p fs m0 = Ok m1 \<Longrightarrow> m1 i \<noteq> None" for i fs m0 m1
    by (induction s p fs m0 rule: collect_entries.induct) (auto simp: ok_iff Let_def split: if_splits)
  have "?j \<noteq> k" using grows[OF _ rest, of ?j] Cons.prems(2) by auto
  then have "(m(k \<mapsto> c)) ?j = None" "m(k \<mapsto> c, ?j \<mapsto> x) = m(?j \<mapsto> x, k \<mapsto> c)"
    using x(2) by (simp_all add: fun_upd_twist)
  with x(1) Cons.IH[OF rest Cons.prems(2)] show ?case
    by (simp add: e Let_def del: fun_upd_apply)
qed simp

lemma collect_entries_all:
  assumes "collect_entries s p es m = Ok m'" "\<And>k v c. p k v = Ok c \<Longrightarrow> P k c" "\<And>k c. m k = Some c \<Longrightarrow> P k c"
  shows "m' k = Some c \<Longrightarrow> P k c"
  using assms(1,3)
proof (induction es arbitrary: m k c)
  case (Cons e es)
  obtain key_yaml v where e: "e = (key_yaml, v)" by force
  let ?j = "case as_str key_yaml of Some s \<Rightarrow> s | None \<Rightarrow> []"
  from Cons.prems(2) obtain x where x: "p ?j v = Ok x" "collect_entries s p es (m(?j \<mapsto> x)) = Ok m'"
    by (auto simp: e ok_iff Let_def split: if_splits)
  have "P i d" if "(m(?j \<mapsto> x)) i = Some d" for i d
    using that Cons.prems(3) assms(2)[OF x(1)] by (auto split: if_splits)
  with Cons.IH[OF Cons.prems(1) x(2)] show ?case by blast
qed simp

lemma collect_entries_finite:
  "collect_entries s p es m = Ok m' \<Longrightarrow> finite (dom m) \<Longrightarrow> finite (dom m')"
  by (induction s p es m rule: collect_entries.induct) (auto simp: ok_iff Let_def split: if_splits)

locale collected_section =
  fixes section_name :: string
    and location :: "string option"
    and allowed :: "string list"
    and parse_entry :: "string \<Rightarrow> strict_yaml \<Rightarrow> ('c, yaml_error) result"
  assumes entry_hash: "parse_entry k v = Ok c \<Longrightarrow> as_hash v \<noteq> None"
    and entry_allowed: "(\<And>f. f \<in> set allowed \<Longrightarrow> yaml_index v f = yaml_index v' f) \<Longrightarrow>
      as_hash v \<noteq> None \<Longrightarrow> as_hash v' \<noteq> None \<Longrightarrow> parse_entry k v = parse_entry k v'"
begin

lemma collect_Ok:
  assumes "string_keyed section_name docs"
  shows "collect_documents section_name location parse_entry docs Map.empty = Ok m \<longleftrightarrow>
    (\<exists>rs. entries_parse parse_entry (all_entries section_name docs) rs \<and> m = map_of rs \<and> True)"
proof -
  have "collect_entries section_name parse_entry (all_entries section_name docs) Map.empty = Ok m \<longleftrightarrow>
      (\<exists>rs. entries_parse parse_entry (all_entries section_name docs) rs \<and>
         fst ` set rs \<inter> dom (Map.empty :: string \<Rightarrow> 'c option) = {} \<and> m = Map.empty ++ map_of rs)"
  proof (rule section_loop_Ok[where loop = "collect_entries section_name parse_entry"])
    show "collect_entries section_name parse_entry ((k, v) # es) m0 = Ok m' \<longleftrightarrow> (\<exists>s c. k = Yaml_String s \<and>
        m0 s = None \<and> parse_entry s v = Ok c \<and> collect_entries section_name parse_entry es (m0(s \<mapsto> c)) = Ok m')"
      if "as_str k \<noteq> None" for k v es m0 m'
      using that by (cases k) (auto simp: ok_iff)
  qed (use assms in \<open>simp_all add: string_keyed_def\<close>)
  then show ?thesis by (simp add: collect_documents_entries)
qed

end

sublocale collected_section \<subseteq> yaml_section section_name allowed parse_entry "\<lambda>_. True"
  "\<lambda>docs. collect_documents section_name location parse_entry docs Map.empty"
proof unfold_locales
  show "parse_entry k v = parse_entry k v'" if "\<And>f. f \<in> set allowed \<Longrightarrow> yaml_index v f = yaml_index v' f"
    "as_hash v \<noteq> None" "as_hash v' \<noteq> None" for v v' k
    using that by (rule entry_allowed)
qed (fact collect_Ok entry_hash)+

lemma accessors_cong:
  assumes "yaml_index v f = yaml_index v' f"
  shows "require_string v (Some f) l = require_string v' (Some f) l" "optional_string v f = optional_string v' f"
    "require_vec v f l = require_vec v' f l"
  using assms by (simp_all add: require_string_def optional_string_def require_vec_def)

lemma address_field_hash: "address_field T v l = Ok a \<Longrightarrow> as_hash v \<noteq> None"
  by (auto simp: address_field_def ok_iff dest: require_string_hash)

interpretation rainlang_section: collected_section "''rainlangs''" None allowed_rainlang_keys
  "parse_rainlang T networks" for T networks
proof unfold_locales
  fix v v' k
  assume "\<And>f. f \<in> set allowed_rainlang_keys \<Longrightarrow> yaml_index v f = yaml_index v' f"
  note same = accessors_cong[OF this]
  show "parse_rainlang T networks k v = parse_rainlang T networks k v'"
    by (simp add: parse_rainlang_def address_field_def same allowed_rainlang_keys_def)
qed (auto simp: parse_rainlang_def Let_def ok_iff dest: address_field_hash)

interpretation raindex_section: collected_section "''raindexes''" None allowed_raindex_keys
  "parse_raindex T networks subgraphs remotes" for T networks subgraphs remotes
proof unfold_locales
  fix v v' k
  assume "\<And>f. f \<in> set allowed_raindex_keys \<Longrightarrow> yaml_index v f = yaml_index v' f"
  note same = accessors_cong[OF this]
  show "parse_raindex T networks subgraphs remotes k v = parse_raindex T networks subgraphs remotes k v'"
    by (simp add: parse_raindex_def address_field_def same allowed_raindex_keys_def)
qed (auto simp: parse_raindex_def Let_def ok_iff dest: address_field_hash)

interpretation remote_networks_section: collected_section "''using-networks-from''" "Some ''root''"
  allowed_remote_networks_keys "parse_remote_source T" for T
proof unfold_locales
  fix v v' k
  assume "\<And>f. f \<in> set allowed_remote_networks_keys \<Longrightarrow> yaml_index v f = yaml_index v' f"
  note same = accessors_cong[OF this]
  show "parse_remote_source T k v = parse_remote_source T k v'"
    by (simp add: parse_remote_source_def same allowed_remote_networks_keys_def)
qed (auto simp: parse_remote_source_def Let_def ok_iff dest: require_string_hash)

end
