(* ===== verification/Manifest.thy ===== *)
theory Manifest
  imports Yaml
begin

text \<open>
  \<open>settings/src/local_db_manifest.rs\<close>: the manifest that lists, per network, the dumps a client can
  start from: building it, printing it as a document and parsing it back.

  The \<open>HashMap\<close> of networks is an association list with distinct keys, in its iteration order;
  printing sorts the keys.
\<close>

section \<open>Data\<close>

definition manifest_version :: u32 where
  "manifest_version = 1"

definition db_schema_version :: u32 where
  "db_schema_version = 5"

record manifest_raindex =
  mr_address :: address
  mr_dump_url :: url
  mr_end_block :: u64
  mr_end_block_hash :: bytes
  mr_end_block_time_ms :: u64

record manifest_network =
  mn_chain_id :: u32
  mn_raindexes :: "manifest_raindex list"

record local_db_manifest =
  lm_manifest_version :: u32
  lm_db_schema_version :: u32
  lm_networks :: "(string \<times> manifest_network) list"

section \<open>Building\<close>

definition manifest_new :: local_db_manifest where
  "manifest_new = \<lparr>lm_manifest_version = manifest_version,
     lm_db_schema_version = db_schema_version, lm_networks = []\<rparr>"

definition network_push_raindex :: "manifest_raindex \<Rightarrow> manifest_network \<Rightarrow> manifest_network" where
  "network_push_raindex r n = n\<lparr>mn_raindexes := mn_raindexes n @ [r]\<rparr>"

definition add_network ::
  "string \<Rightarrow> u32 \<Rightarrow> local_db_manifest \<Rightarrow> (local_db_manifest, yaml_error) result" where
  "add_network key chain_id m =
     (if trim key = [] then
        Err (Yaml_Field (Invalid_Value ''key'' ''network name must not be empty'') ''manifest.networks'')
      else if chain_id = 0 then
        Err (Yaml_Field (Invalid_Value ''chain-id'' ''must be greater than zero'')
               (''manifest.networks.'' @ key))
      else if map_of (lm_networks m) key \<noteq> None then
        Err (Yaml_Field (Invalid_Value ''networks'' (''network '' @ quoted key @ '' already exists''))
               ''manifest'')
      else Ok (m\<lparr>lm_networks := lm_networks m @ [(key, \<lparr>mn_chain_id = chain_id, mn_raindexes = []\<rparr>)]\<rparr>))"

definition push_raindex ::
  "string \<Rightarrow> manifest_raindex \<Rightarrow> local_db_manifest \<Rightarrow> (local_db_manifest, yaml_error) result" where
  "push_raindex network_key r m =
     (case map_of (lm_networks m) network_key of
        Some _ \<Rightarrow> Ok (m\<lparr>lm_networks := map (\<lambda>(k, n).
          (k, if k = network_key then network_push_raindex r n else n)) (lm_networks m)\<rparr>)
      | None \<Rightarrow> Err (Yaml_Field (Missing network_key) ''manifest.networks''))"

definition manifest_find :: "local_db_manifest \<Rightarrow> u32 \<Rightarrow> address \<Rightarrow> manifest_raindex option" where
  "manifest_find m chain_id addr =
     (case find (\<lambda>n. mn_chain_id n = chain_id) (map snd (lm_networks m)) of
        None \<Rightarrow> None
      | Some n \<Rightarrow> find (\<lambda>r. mr_address r = addr) (mn_raindexes n))"

section \<open>Printing\<close>

definition raindex_to_yaml :: "text_codec \<Rightarrow> manifest_raindex \<Rightarrow> strict_yaml" where
  "raindex_to_yaml T r = Yaml_Hash
     (hash_insert (Yaml_String ''end-block-time-ms'') (Yaml_String (show_word (mr_end_block_time_ms r)))
     (hash_insert (Yaml_String ''end-block-hash'') (Yaml_String (tc_show_bytes T (mr_end_block_hash r)))
     (hash_insert (Yaml_String ''end-block'') (Yaml_String (show_word (mr_end_block r)))
     (hash_insert (Yaml_String ''dump-url'') (Yaml_String (mr_dump_url r))
     (hash_insert (Yaml_String ''address'') (Yaml_String (tc_show_address T (mr_address r))) [])))))"

definition network_to_yaml :: "text_codec \<Rightarrow> manifest_network \<Rightarrow> yaml_hash" where
  "network_to_yaml T n =
     hash_insert (Yaml_String ''raindexes'') (Yaml_Array (map (raindex_to_yaml T) (mn_raindexes n)))
     (hash_insert (Yaml_String ''chain-id'') (Yaml_String (show_word (mn_chain_id n))) [])"

definition networks_to_yaml :: "text_codec \<Rightarrow> (string \<times> manifest_network) list \<Rightarrow> yaml_hash" where
  "networks_to_yaml T networks =
     fold (\<lambda>key h. case map_of networks key of
             Some n \<Rightarrow> hash_insert (Yaml_String key) (Yaml_Hash (network_to_yaml T n)) h
           | None \<Rightarrow> h) (sort (map fst networks)) []"

definition to_yaml_node :: "text_codec \<Rightarrow> local_db_manifest \<Rightarrow> strict_yaml" where
  "to_yaml_node T m = Yaml_Hash
     (hash_insert (Yaml_String ''networks'') (Yaml_Hash (networks_to_yaml T (lm_networks m)))
     (hash_insert (Yaml_String ''db-schema-version'') (Yaml_String (show_word (lm_db_schema_version m)))
     (hash_insert (Yaml_String ''manifest-version'') (Yaml_String (show_word (lm_manifest_version m))) [])))"

section \<open>Parsing\<close>

definition parse_manifest_header :: "strict_yaml \<Rightarrow> string \<Rightarrow> (u32 \<times> u32, yaml_error) result" where
  "parse_manifest_header doc location_root =
     rbind (require_string doc (Some ''manifest-version'') (Some location_root)) (\<lambda>v.
     rbind (parse_positive_u32 v ''manifest-version'' location_root) (\<lambda>version.
     if version \<noteq> manifest_version then
       Err (Yaml_Field (Invalid_Value ''manifest-version''
              (''unsupported manifest version '' @ show_word version @ '', expected '' @
               show_word manifest_version)) location_root)
     else
       rbind (require_string doc (Some ''db-schema-version'') (Some location_root)) (\<lambda>s.
       rbind (parse_positive_u32 s ''db-schema-version'' location_root) (\<lambda>schema.
       if schema \<noteq> db_schema_version then
         Err (Yaml_Field (Invalid_Value ''db-schema-version''
                (''unsupported database schema version '' @ show_word schema @ '', expected '' @
                 show_word db_schema_version)) location_root)
       else Ok (version, schema)))))"

definition parse_single_raindex ::
  "text_codec \<Rightarrow> nat \<Rightarrow> strict_yaml \<Rightarrow> string \<Rightarrow> (manifest_raindex, yaml_error) result" where
  "parse_single_raindex T idx ob_yaml location_network =
     (let location_ob = location_network @ ''.raindexes['' @ show_nat idx @ '']'';
          text = (\<lambda>field. require_string ob_yaml (Some field) (Some location_ob));
          invalid = (\<lambda>field e. Yaml_Field (Invalid_Value field e) location_ob) in
      rbind (text ''address'') (\<lambda>address_str.
      rbind (map_err (invalid ''address'') (tc_parse_address T address_str)) (\<lambda>addr.
      rbind (text ''dump-url'') (\<lambda>dump_url_str.
      rbind (parse_url T dump_url_str ''dump-url'' location_ob) (\<lambda>dump_url.
      rbind (text ''end-block'') (\<lambda>end_block_str.
      rbind (parse_positive_u64 end_block_str ''end-block'' location_ob) (\<lambda>end_block.
      rbind (text ''end-block-hash'') (\<lambda>end_block_hash_str.
      rbind (map_err (invalid ''end-block-hash'') (tc_parse_bytes T end_block_hash_str)) (\<lambda>end_block_hash.
      rbind (text ''end-block-time-ms'') (\<lambda>time_str.
      rbind (parse_positive_u64 time_str ''end-block-time-ms'' location_ob) (\<lambda>time.
      Ok \<lparr>mr_address = addr, mr_dump_url = dump_url, mr_end_block = end_block,
          mr_end_block_hash = end_block_hash, mr_end_block_time_ms = time\<rparr>)))))))))))"

fun parse_raindexes ::
  "text_codec \<Rightarrow> nat \<Rightarrow> strict_yaml list \<Rightarrow> string \<Rightarrow> (manifest_raindex list, yaml_error) result" where
  "parse_raindexes T idx [] location = Ok []"
| "parse_raindexes T idx (y # ys) location =
     rbind (parse_single_raindex T idx y location) (\<lambda>r.
     rbind (parse_raindexes T (Suc idx) ys location) (\<lambda>rs. Ok (r # rs)))"

definition parse_single_network ::
  "text_codec \<Rightarrow> string \<Rightarrow> strict_yaml \<Rightarrow> string \<Rightarrow> (manifest_network, yaml_error) result" where
  "parse_single_network T network_key network_yaml location_root =
     (let location_network = location_root @ ''.networks.'' @ network_key in
      rbind (require_hash network_yaml None (Some location_network)) (\<lambda>_.
      rbind (require_string network_yaml (Some ''chain-id'') (Some location_network)) (\<lambda>c.
      rbind (parse_positive_u32 c ''chain-id'' location_network) (\<lambda>chain_id.
      rbind (require_vec network_yaml ''raindexes'' (Some location_network)) (\<lambda>raindexes_yaml.
      rbind (parse_raindexes T 0 raindexes_yaml location_network) (\<lambda>raindexes.
      Ok \<lparr>mn_chain_id = chain_id, mn_raindexes = raindexes\<rparr>))))))"

definition map_insert :: "'k \<Rightarrow> 'v \<Rightarrow> ('k \<times> 'v) list \<Rightarrow> ('k \<times> 'v) list" where
  \<comment> \<open>\<open>HashMap::insert\<close>\<close>
  "map_insert k v m = filter (\<lambda>e. fst e \<noteq> k) m @ [(k, v)]"

fun parse_network_entries ::
  "text_codec \<Rightarrow> string \<Rightarrow> yaml_hash \<Rightarrow> (string \<times> manifest_network) list
   \<Rightarrow> ((string \<times> manifest_network) list, yaml_error) result" where
  "parse_network_entries T location_root [] networks = Ok networks"
| "parse_network_entries T location_root ((key_yaml, network_yaml) # entries) networks =
     rbind (ok_or (as_str key_yaml)
              (Yaml_Field (Invalid_Type ''key'' ''a string'') ''manifest.networks'')) (\<lambda>network_key.
     if trim network_key = [] then
       Err (Yaml_Field (Invalid_Value ''key'' ''network name must not be empty'') ''manifest.networks'')
     else
       rbind (parse_single_network T network_key network_yaml location_root) (\<lambda>network.
       parse_network_entries T location_root entries (map_insert network_key network networks)))"

definition parse_networks ::
  "text_codec \<Rightarrow> strict_yaml \<Rightarrow> string \<Rightarrow> ((string \<times> manifest_network) list, yaml_error) result" where
  "parse_networks T doc location_root =
     (case optional_hash doc ''networks'' of
        Some networks_hash \<Rightarrow> parse_network_entries T location_root networks_hash []
      | None \<Rightarrow> Ok [])"

definition parse_manifest_doc :: "text_codec \<Rightarrow> strict_yaml \<Rightarrow> (local_db_manifest, yaml_error) result" where
  "parse_manifest_doc T doc =
     rbind (parse_manifest_header doc ''manifest'') (\<lambda>(version, schema).
     rbind (parse_networks T doc ''manifest'') (\<lambda>networks.
     Ok \<lparr>lm_manifest_version = version, lm_db_schema_version = schema, lm_networks = networks\<rparr>))"

section \<open>Round trip\<close>

text \<open>What the builder has to be given for its manifest to be readable.\<close>

definition raindex_ok :: "text_codec \<Rightarrow> manifest_raindex \<Rightarrow> bool" where
  "raindex_ok T r \<longleftrightarrow> tc_parse_address T (tc_show_address T (mr_address r)) = Ok (mr_address r) \<and>
     tc_parse_url T (mr_dump_url r) = Ok (mr_dump_url r) \<and>
     tc_parse_bytes T (tc_show_bytes T (mr_end_block_hash r)) = Ok (mr_end_block_hash r) \<and>
     mr_end_block r \<noteq> 0 \<and> mr_end_block_time_ms r \<noteq> 0"

definition network_ok :: "text_codec \<Rightarrow> manifest_network \<Rightarrow> bool" where
  "network_ok T n \<longleftrightarrow> mn_chain_id n \<noteq> 0 \<and> list_all (raindex_ok T) (mn_raindexes n)"

definition manifest_ok :: "text_codec \<Rightarrow> local_db_manifest \<Rightarrow> bool" where
  "manifest_ok T m \<longleftrightarrow> lm_manifest_version m = manifest_version \<and>
     lm_db_schema_version m = db_schema_version \<and> distinct (map fst (lm_networks m)) \<and>
     list_all (\<lambda>(k, n). trim k \<noteq> [] \<and> network_ok T n) (lm_networks m)"

lemma manifest_new_ok: "manifest_ok T manifest_new"
  by (simp add: manifest_ok_def manifest_new_def)

lemma add_network_ok: "manifest_ok T m \<Longrightarrow> add_network k c m = Ok m' \<Longrightarrow> manifest_ok T m'"
  by (auto simp: manifest_ok_def add_network_def network_ok_def map_of_eq_None_iff split: if_splits)

lemma push_raindex_ok:
  "manifest_ok T m \<Longrightarrow> raindex_ok T r \<Longrightarrow> push_raindex k r m = Ok m' \<Longrightarrow> manifest_ok T m'"
proof -
  assume ok: "manifest_ok T m" "raindex_ok T r" and push: "push_raindex k r m = Ok m'"
  let ?g = "\<lambda>(j, n). (j, if j = k then network_push_raindex r n else n)"
  define nets where "nets = map ?g (lm_networks m)"
  have m': "m' = m\<lparr>lm_networks := nets\<rparr>"
    using push by (auto simp: push_raindex_def nets_def split: option.splits)
  have "trim j \<noteq> [] \<and> network_ok T n" if "(j, n) \<in> set nets" for j n
  proof -
    from that obtain n0 where n0: "(j, n0) \<in> set (lm_networks m)"
      and n: "n = (if j = k then network_push_raindex r n0 else n0)" by (auto simp: nets_def)
    have "trim j \<noteq> [] \<and> network_ok T n0" using ok(1) n0 by (auto simp: manifest_ok_def list_all_iff)
    with ok(2) n show ?thesis by (auto simp: network_ok_def network_push_raindex_def)
  qed
  moreover have "map fst nets = map fst (lm_networks m)" by (auto simp: nets_def)
  ultimately show ?thesis using ok(1) unfolding m' by (auto simp: manifest_ok_def list_all_iff)
qed

lemma parse_raindex_roundtrip:
  "raindex_ok T r \<Longrightarrow> parse_single_raindex T i (raindex_to_yaml T r) l = Ok r"
  by (simp add: parse_single_raindex_def raindex_to_yaml_def raindex_ok_def require_string_def Let_def
      parse_url_def parse_positive_show)

lemma parse_raindexes_roundtrip:
  "list_all (raindex_ok T) rs \<Longrightarrow> parse_raindexes T i (map (raindex_to_yaml T) rs) l = Ok rs"
  by (induction rs arbitrary: i) (simp_all add: parse_raindex_roundtrip)

lemma parse_network_roundtrip:
  "network_ok T n \<Longrightarrow> parse_single_network T k (Yaml_Hash (network_to_yaml T n)) l = Ok n"
  by (simp add: parse_single_network_def network_to_yaml_def network_ok_def require_string_def
      require_hash_def require_vec_def Let_def parse_positive_show parse_raindexes_roundtrip)

lemma networks_to_yaml_fold:
  assumes "distinct keys" "set keys \<subseteq> dom (map_of networks)"
    and "Yaml_String ` set keys \<inter> fst ` set h = {}"
  shows "fold (\<lambda>key h. case map_of networks key of
             Some n \<Rightarrow> hash_insert (Yaml_String key) (Yaml_Hash (network_to_yaml T n)) h
           | None \<Rightarrow> h) keys h =
    h @ map (\<lambda>key. (Yaml_String key, Yaml_Hash (network_to_yaml T (the (map_of networks key))))) keys"
  using assms
proof (induction keys arbitrary: h)
  case Nil
  then show ?case by simp
next
  case (Cons k ks)
  then obtain n where n: "map_of networks k = Some n" by auto
  have new: "hash_insert (Yaml_String k) v h = h @ [(Yaml_String k, v)]" for v
    using Cons.prems(3) by (intro hash_insert_new) auto
  show ?case using Cons.prems by (simp add: n new) (subst Cons.IH, auto)
qed

lemma networks_to_yaml_keys:
  assumes "distinct (map fst networks)"
  shows "networks_to_yaml T networks =
    map (\<lambda>key. (Yaml_String key, Yaml_Hash (network_to_yaml T (the (map_of networks key)))))
      (sort (map fst networks))"
  unfolding networks_to_yaml_def using assms
  by (subst networks_to_yaml_fold) (auto simp: dom_map_of_conv_image_fst)

lemma parse_entries_roundtrip:
  assumes "distinct (map fst acc @ keys)"
    and "\<And>k. k \<in> set keys \<Longrightarrow> trim k \<noteq> [] \<and> network_ok T (f k)"
  shows "parse_network_entries T l
      (map (\<lambda>key. (Yaml_String key, Yaml_Hash (network_to_yaml T (f key)))) keys) acc =
    Ok (acc @ map (\<lambda>k. (k, f k)) keys)"
  using assms
proof (induction keys arbitrary: acc)
  case Nil
  then show ?case by simp
next
  case (Cons k ks)
  then have "filter (\<lambda>e. fst e \<noteq> k) acc = acc" by (intro filter_True) auto
  with Cons show ?case by (simp add: map_insert_def parse_network_roundtrip)
qed

lemma versions_nonzero: "manifest_version \<noteq> 0" "db_schema_version \<noteq> 0"
  by (simp_all add: manifest_version_def db_schema_version_def)

lemma manifest_parses_back:
  assumes "manifest_ok T m"
  shows "\<exists>networks. parse_manifest_doc T (to_yaml_node T m) = Ok (m\<lparr>lm_networks := networks\<rparr>) \<and>
    map_of networks = map_of (lm_networks m) \<and> map fst networks = sort (map fst (lm_networks m))"
proof -
  let ?keys = "sort (map fst (lm_networks m))"
  let ?f = "\<lambda>k. the (map_of (lm_networks m) k)"
  let ?nets = "map (\<lambda>k. (k, ?f k)) ?keys"
  have dist: "distinct (map fst (lm_networks m))" using assms by (simp add: manifest_ok_def)
  have each: "trim k \<noteq> [] \<and> network_ok T (?f k)" if "k \<in> set ?keys" for k
  proof -
    from that obtain n where "(k, n) \<in> set (lm_networks m)" by auto
    with dist assms show ?thesis by (auto simp: manifest_ok_def list_all_iff)
  qed
  have "map_of ?nets k = map_of (lm_networks m) k" for k
  proof (cases "map_of (lm_networks m) k")
    case None
    then have "k \<notin> set ?keys" by (simp add: map_of_eq_None_iff)
    then have "k \<notin> fst ` set ?nets" unfolding set_map image_image fst_conv image_ident .
    then have "map_of ?nets k = None" by (simp only: map_of_eq_None_iff not_False_eq_True)
    with None show ?thesis by (simp only:)
  next
    case (Some n)
    then have "k \<in> set ?keys" by (force dest: map_of_SomeD)
    then have "map_of ?nets k = Some (?f k)" by (simp add: map_of_map_restrict)
    with Some show ?thesis by simp
  qed
  moreover have "parse_network_entries T ''manifest'' (networks_to_yaml T (lm_networks m)) [] = Ok ?nets"
    unfolding networks_to_yaml_keys[OF dist]
    using parse_entries_roundtrip[of "[]" ?keys T ?f] dist each by simp
  then have "parse_manifest_doc T (to_yaml_node T m) = Ok (m\<lparr>lm_networks := ?nets\<rparr>)"
    using assms versions_nonzero
    by (cases m) (simp add: parse_manifest_doc_def parse_manifest_header_def to_yaml_node_def
        require_string_def parse_networks_def optional_hash_def parse_positive_show manifest_ok_def)
  moreover have "map fst ?nets = ?keys" by (simp add: comp_def)
  ultimately show ?thesis by (intro exI conjI ext)
qed

text \<open>
  A manifest that is printed parses back to itself: the versions are kept, and every
  network name is bound to the same network as before. It holds for every manifest made with the
  builder from entries whose block and time are positive and whose address, URL and hash are
  values the library reads back from their own text.
\<close>
lemma manifest_roundtrip:
  assumes "manifest_ok T m"
  shows "\<exists>networks. parse_manifest_doc T (to_yaml_node T m) = Ok (m\<lparr>lm_networks := networks\<rparr>) \<and>
    map_of networks = map_of (lm_networks m) \<and> map fst networks = sort (map fst (lm_networks m))"
  using assms by (rule manifest_parses_back)

lemma zero_end_block_is_rejected:
  \<comment> \<open>the builder takes an entry with end block 0, which the parser refuses\<close>
  assumes "tc_parse_address T (tc_show_address T (mr_address r)) = Ok (mr_address r)"
    and "tc_parse_url T (mr_dump_url r) = Ok (mr_dump_url r)" and "mr_end_block r = 0"
  shows "\<exists>l. parse_single_raindex T i (raindex_to_yaml T r) location_network =
    Err (Yaml_Field (Invalid_Value ''end-block'' ''must be a positive integer'') l)"
  using assms
  by (simp add: parse_single_raindex_def raindex_to_yaml_def require_string_def Let_def parse_url_def
      parse_positive_u64_def parse_unsigned_show positive_def)

section \<open>A concrete manifest\<close>

definition plain_codec :: text_codec where
  "plain_codec = \<lparr>tc_show_address = show_word,
     tc_parse_address = (\<lambda>s. rbind (parse_unsigned (2 ^ 160) s) (\<lambda>n. Ok (of_nat n))),
     tc_parse_url = Ok, tc_show_bytes = map (\<lambda>b. char_of (unat b)),
     tc_parse_bytes = (\<lambda>s. Ok (map (\<lambda>c. of_nat (of_char c)) s))\<rparr>"

definition example_manifest :: local_db_manifest where
  "example_manifest = manifest_new\<lparr>lm_networks := [
     (''mainnet'', \<lparr>mn_chain_id = 1, mn_raindexes = [\<lparr>mr_address = 7, mr_dump_url = ''https://d/1'',
        mr_end_block = 123, mr_end_block_hash = [10, 188], mr_end_block_time_ms = 1000\<rparr>]\<rparr>),
     (''base'', \<lparr>mn_chain_id = 8453, mn_raindexes = []\<rparr>)]\<rparr>"

lemma manifest_roundtrip_example:
  "\<exists>networks. parse_manifest_doc plain_codec (to_yaml_node plain_codec example_manifest) =
     Ok (example_manifest\<lparr>lm_networks := networks\<rparr>) \<and> map fst networks = [''base'', ''mainnet'']"
proof -
  have "parse_unsigned (2 ^ 160) (show_nat 7) = Ok 7" by (rule parse_unsigned_show) simp
  moreover have "trim ''mainnet'' \<noteq> []" "trim ''base'' \<noteq> []" by code_simp+
  ultimately have ok: "manifest_ok plain_codec example_manifest"
    by (simp add: manifest_ok_def example_manifest_def manifest_new_def network_ok_def raindex_ok_def
        plain_codec_def)
  have "sort (map fst (lm_networks example_manifest)) = sort [''mainnet'', ''base'']"
    by (simp add: example_manifest_def)
  also have "\<dots> = [''base'', ''mainnet'']" by code_simp
  finally show ?thesis using manifest_roundtrip[OF ok] by auto
qed

section \<open>A parsed manifest is well formed\<close>

text \<open>
  The laws of the libraries behind the text of a manifest: an address and a byte string are read
  back from what they display, and an URL that came out of the URL parser parses to itself.
\<close>

definition codec_laws :: "text_codec \<Rightarrow> bool" where
  "codec_laws T \<longleftrightarrow> (\<forall>a. tc_parse_address T (tc_show_address T a) = Ok a) \<and>
     (\<forall>b. tc_parse_bytes T (tc_show_bytes T b) = Ok b) \<and>
     (\<forall>s u. tc_parse_url T s = Ok u \<longrightarrow> tc_parse_url T u = Ok u)"

lemma codec_lawsD:
  assumes "codec_laws T"
  shows "tc_parse_address T (tc_show_address T a) = Ok a" "tc_parse_bytes T (tc_show_bytes T b) = Ok b"
    "tc_parse_url T s = Ok u \<Longrightarrow> tc_parse_url T u = Ok u"
  using assms by (auto simp: codec_laws_def)

lemma parse_single_raindex_ok:
  assumes "codec_laws T" "parse_single_raindex T i y l = Ok r"
  shows "raindex_ok T r"
proof -
  from assms(2) obtain s l' u e1 e2 where "tc_parse_url T s = Ok (mr_dump_url r)"
    and "parse_positive_u64 e1 ''end-block'' l' = Ok (mr_end_block r)"
    and "parse_positive_u64 e2 ''end-block-time-ms'' l' = Ok (mr_end_block_time_ms r)"
    by (auto simp: parse_single_raindex_def parse_url_def Let_def ok_iff)
  then show ?thesis
    using codec_lawsD[OF assms(1)] parse_positive_nonzero(2) by (auto simp: raindex_ok_def)
qed

lemma parse_raindexes_ok:
  "codec_laws T \<Longrightarrow> parse_raindexes T i ys l = Ok rs \<Longrightarrow> list_all (raindex_ok T) rs"
  by (induction T i ys l arbitrary: rs rule: parse_raindexes.induct)
    (auto simp: ok_iff dest: parse_single_raindex_ok)

lemma parse_single_network_ok:
  "codec_laws T \<Longrightarrow> parse_single_network T k y l = Ok n \<Longrightarrow> network_ok T n"
  by (auto simp: parse_single_network_def Let_def network_ok_def ok_iff
      dest: parse_raindexes_ok parse_positive_nonzero(1))

definition networks_ok :: "text_codec \<Rightarrow> (string \<times> manifest_network) list \<Rightarrow> bool" where
  "networks_ok T networks \<longleftrightarrow> distinct (map fst networks) \<and>
     list_all (\<lambda>(k, n). trim k \<noteq> [] \<and> network_ok T n) networks"

lemma networks_ok_insert:
  assumes "networks_ok T networks" "trim k \<noteq> []" "network_ok T n"
  shows "networks_ok T (map_insert k n networks)"
proof -
  have "distinct (map fst (filter (\<lambda>e. fst e \<noteq> k) networks))"
    using assms(1) by (auto simp: networks_ok_def intro: distinct_map_filter)
  then show ?thesis using assms by (auto simp: networks_ok_def map_insert_def list_all_iff)
qed

lemma parse_network_entries_ok:
  "codec_laws T \<Longrightarrow> networks_ok T networks \<Longrightarrow> parse_network_entries T l es networks = Ok networks' \<Longrightarrow>
   networks_ok T networks'"
  by (induction T l es networks rule: parse_network_entries.induct)
    (auto simp: ok_iff dest: parse_single_network_ok networks_ok_insert split: if_splits)

lemma parse_manifest_ok:
  assumes "codec_laws T" "parse_manifest_doc T doc = Ok m"
  shows "manifest_ok T m"
proof -
  from assms(2) obtain networks where "parse_networks T doc ''manifest'' = Ok networks"
    and m: "lm_networks m = networks" "lm_manifest_version m = manifest_version"
      "lm_db_schema_version m = db_schema_version"
    by (auto simp: parse_manifest_doc_def parse_manifest_header_def ok_iff split: if_splits)
  then have "networks_ok T networks" using parse_network_entries_ok[OF assms(1), of "[]"]
    by (auto simp: parse_networks_def networks_ok_def split: option.splits)
  with m show ?thesis by (simp add: manifest_ok_def networks_ok_def)
qed

lemma plain_codec_laws: "codec_laws plain_codec"
proof -
  have "parse_unsigned (2 ^ 160) (show_word a) = Ok (unat a)" for a :: address
    using unsigned_less[of a] by (intro parse_unsigned_show) simp
  moreover have "map (\<lambda>c. of_nat (of_char c)) (map (\<lambda>b. char_of (unat b)) bs) = bs" for bs :: bytes
  proof -
    have "unat b mod 256 = unat b" for b :: u8 proof -
      have "unat b < 2 ^ LENGTH(8)" by (rule unsigned_less)
      then show ?thesis by simp
    qed
    then show ?thesis by (induction bs) simp_all
  qed
  ultimately show ?thesis by (simp add: codec_laws_def plain_codec_def)
qed

text \<open>The manifests the program holds: read from a document, or made with the builder.\<close>

inductive manifest_made :: "text_codec \<Rightarrow> local_db_manifest \<Rightarrow> bool" for T where
  parsed: "parse_manifest_doc T doc = Ok m \<Longrightarrow> manifest_made T m"
| started: "manifest_made T manifest_new"
| with_network: "manifest_made T m \<Longrightarrow> add_network key chain_id m = Ok m' \<Longrightarrow> manifest_made T m'"
| with_raindex: "manifest_made T m \<Longrightarrow> raindex_ok T r \<Longrightarrow> push_raindex key r m = Ok m' \<Longrightarrow>
    manifest_made T m'"

text \<open>
  Every manifest that the parser returns, or that the builder makes from a new or a parsed
  manifest, is well formed: the versions are the supported ones, no network is listed twice, no
  name is empty, no chain, end block or time is zero, and every address, URL and hash reads back from
  its text.
\<close>
lemma manifest_well_formed:
  assumes "codec_laws T" "manifest_made T m"
  shows "manifest_ok T m"
  using assms(2)
proof induction
  case (parsed doc m)
  with assms(1) show ?case by (rule parse_manifest_ok)
qed (auto intro: manifest_new_ok add_network_ok push_raindex_ok)

lemma manifest_well_formed_example:
  "\<exists>m. add_network ''base'' 8453 manifest_new = Ok m \<and> manifest_ok plain_codec m"
proof -
  have "trim ''base'' \<noteq> []" by code_simp
  then have add: "add_network ''base'' 8453 manifest_new =
      Ok (manifest_new\<lparr>lm_networks := [(''base'', \<lparr>mn_chain_id = 8453, mn_raindexes = []\<rparr>)]\<rparr>)"
    by (simp add: add_network_def manifest_new_def)
  then show ?thesis
    using manifest_well_formed[OF plain_codec_laws manifest_made.with_network[OF manifest_made.started add]]
    by blast
qed

end
