(* ===== verification/Settings_Tokens.thy ===== *)
theory Settings_Tokens
  imports Settings_Catalog Manifest
begin

text \<open>
  The section \<open>tokens\<close> (\<open>settings/src/token.rs\<close>): reading it, adding, removing and updating a token in
  the documents, and sanitising it; the list of remote token lists (\<open>remote_tokens.rs\<close>) and the tokens
  they bring (\<open>remote/tokens.rs\<close>).

  The extensions of a remote token are JSON values, kept as the text they print as. A token list is
  what the HTTP client returned for its URL.
\<close>

section \<open>Tokens of the documents\<close>

definition allowed_token_keys :: "string list" where
  "allowed_token_keys = [''address'', ''decimals'', ''label'', ''network'', ''symbol'']"

record token_cfg =
  tk_key :: string
  tk_network :: network_cfg
  tk_address :: address
  tk_decimals :: "u8 option"
  tk_label :: "string option"
  tk_symbol :: "string option"
  tk_logo_uri :: "url option"
  tk_extensions :: "(string \<times> string) list option"

definition validate_decimals :: "string \<Rightarrow> (u8, ext_error) result" where
  "validate_decimals value =
     rbind (map_err (\<lambda>_. ''Failed to parse decimals'') (parse_unsigned (2 ^ 8) value)) (\<lambda>n. Ok (of_nat n))"

definition opt_result :: "('a \<Rightarrow> ('b, 'e) result) \<Rightarrow> 'a option \<Rightarrow> ('b option, 'e) result" where
  \<comment> \<open>\<open>map\<close> and \<open>transpose\<close>\<close>
  "opt_result f x = (case x of None \<Rightarrow> Ok None | Some a \<Rightarrow> rbind (f a) (\<lambda>b. Ok (Some b)))"

definition parse_token ::
  "text_codec \<Rightarrow> (string \<Rightarrow> network_cfg option) \<Rightarrow> string \<Rightarrow> strict_yaml \<Rightarrow> (token_cfg, yaml_error) result" where
  "parse_token T networks token_key token_yaml =
     (let location = ''token '' @ quoted token_key in
      rbind (require_string token_yaml (Some ''network'') (Some location)) (\<lambda>network_key.
      rbind (reference ''network'' ''Network'' network_key location networks) (\<lambda>network.
      rbind (address_field T token_yaml location) (\<lambda>addr.
      rbind (map_err (\<lambda>e. Yaml_Field (Invalid_Value ''decimals'' e) location)
               (opt_result validate_decimals (optional_string token_yaml ''decimals''))) (\<lambda>decimals.
      rbind (map_err (\<lambda>e. Yaml_Field (Invalid_Value ''logo-uri'' e) location)
               (opt_result (tc_parse_url T) (optional_string token_yaml ''logo-uri''))) (\<lambda>logo_uri.
      Ok \<lparr>tk_key = token_key, tk_network = network, tk_address = addr, tk_decimals = decimals,
          tk_label = optional_string token_yaml ''label'', tk_symbol = optional_string token_yaml ''symbol'',
          tk_logo_uri = logo_uri, tk_extensions = None\<rparr>))))))"

fun merge_remote_tokens ::
  "(string \<times> token_cfg) list \<Rightarrow> (string \<Rightarrow> token_cfg option) \<Rightarrow> (string \<Rightarrow> token_cfg option, yaml_error) result" where
  "merge_remote_tokens [] tokens = Ok tokens"
| "merge_remote_tokens ((key, token) # remote) tokens =
     (if tokens key \<noteq> None
      then Err (Parse_Token_Config_Source_Error (''Remote token key shadowing: '' @ key))
      else merge_remote_tokens remote (tokens(key \<mapsto> token)))"

definition local_tokens ::
  "text_codec \<Rightarrow> (string \<Rightarrow> network_cfg option) \<Rightarrow> strict_yaml list \<Rightarrow> (string \<Rightarrow> token_cfg option, yaml_error) result" where
  "local_tokens T networks documents =
     collect_documents ''tokens'' None (parse_token T networks) documents Map.empty"

definition parse_all_tokens ::
  "text_codec \<Rightarrow> (string \<times> network_cfg) list \<Rightarrow> (string \<times> token_cfg) list \<Rightarrow> strict_yaml list
   \<Rightarrow> (string \<Rightarrow> token_cfg option, yaml_error) result" where
  "parse_all_tokens T remote_networks remote_tokens documents =
     rbind (parse_all_networks T remote_networks documents) (\<lambda>networks.
     rbind (local_tokens T networks documents) (\<lambda>tokens.
     rbind (merge_remote_tokens remote_tokens tokens)
       (required ''tokens'')))"

fun token_network_key :: "strict_yaml list \<Rightarrow> string \<Rightarrow> (string, yaml_error) result" where
  "token_network_key [] token_key =
     Err (Yaml_Field (Missing (''network for token '' @ quoted token_key)) ''root'')"
| "token_network_key (document # documents) token_key =
     (case require_hash document (Some ''tokens'') None of
        Ok tokens_hash \<Rightarrow>
          (case hash_get (Yaml_String token_key) tokens_hash of
             Some token_yaml \<Rightarrow> require_string token_yaml (Some ''network'') (Some (''token '' @ quoted token_key))
           | None \<Rightarrow> token_network_key documents token_key)
      | Err _ \<Rightarrow> token_network_key documents token_key)"

definition sanitize_tokens :: "strict_yaml list \<Rightarrow> strict_yaml list" where
  "sanitize_tokens = map (sanitize_document ''tokens'' allowed_token_keys)"

section \<open>Writing tokens\<close>

definition token_address :: "text_codec \<Rightarrow> string \<Rightarrow> (address, yaml_error) result" where
  "token_address T value =
     map_err (\<lambda>_. Parse_Token_Config_Source_Error ''Failed to parse address'') (tc_parse_address T value)"

definition opt_insert :: "string \<Rightarrow> string option \<Rightarrow> yaml_hash \<Rightarrow> yaml_hash" where
  "opt_insert field value h =
     (case value of None \<Rightarrow> h | Some v \<Rightarrow> hash_insert (Yaml_String field) (Yaml_String v) h)"

definition token_hash ::
  "text_codec \<Rightarrow> string \<Rightarrow> address \<Rightarrow> u8 option \<Rightarrow> string option \<Rightarrow> string option \<Rightarrow> yaml_hash" where
  "token_hash T network_key addr decimals label symbol =
     opt_insert ''symbol'' symbol
     (opt_insert ''label'' label
     (opt_insert ''decimals'' (map_option show_word decimals)
     (hash_insert (Yaml_String ''address'') (Yaml_String (tc_show_address T addr))
     (hash_insert (Yaml_String ''network'') (Yaml_String network_key) []))))"

definition add_token ::
  "text_codec \<Rightarrow> string \<Rightarrow> string \<Rightarrow> string \<Rightarrow> string option \<Rightarrow> string option \<Rightarrow> string option
   \<Rightarrow> strict_yaml list \<Rightarrow> (strict_yaml list, yaml_error) result" where
  \<comment> \<open>\<open>documents[0]\<close> panics without a document\<close>
  "add_token T key network_key address_str decimals label symbol documents =
     (if is_ok (entry_named key (parse_all_tokens T [] [] documents)) then Err (Key_Shadowing key ''tokens'')
      else
        rbind (token_address T address_str) (\<lambda>addr.
        rbind (map_err Parse_Token_Config_Source_Error (opt_result validate_decimals decimals)) (\<lambda>decimals.
        rbind (entry_named network_key (parse_all_networks T [] documents)) (\<lambda>_.
        case documents of
          [] \<Rightarrow> Err Yaml_Panicked
        | document # rest \<Rightarrow>
            rbind (add_entry ''tokens'' key (Yaml_Hash (token_hash T network_key addr decimals label symbol)) document)
              (\<lambda>document. Ok (document # rest))))))"

definition hash_remove :: "strict_yaml \<Rightarrow> yaml_hash \<Rightarrow> yaml_hash" where
  "hash_remove k h = filter (\<lambda>e. fst e \<noteq> k) h"

fun remove_token :: "string \<Rightarrow> strict_yaml list \<Rightarrow> (strict_yaml list, yaml_error) result" where
  "remove_token key [] = Err (Key_Not_Found key)"
| "remove_token key (document # documents) =
     (let further = rbind (remove_token key documents) (\<lambda>documents. Ok (document # documents)) in
      case document of
        Yaml_Hash document_hash \<Rightarrow>
          (case hash_get (Yaml_String ''tokens'') document_hash of
             Some (Yaml_Hash tokens) \<Rightarrow>
               if hash_get (Yaml_String key) tokens \<noteq> None then
                 Ok (Yaml_Hash (hash_update (Yaml_String ''tokens'')
                       (Yaml_Hash (hash_remove (Yaml_String key) tokens)) document_hash) # documents)
               else further
           | _ \<Rightarrow> further)
      | _ \<Rightarrow> further)"

definition update_token_address ::
  "text_codec \<Rightarrow> token_cfg \<Rightarrow> string \<Rightarrow> strict_yaml \<Rightarrow> (token_cfg \<times> strict_yaml, yaml_error) result" where
  \<comment> \<open>\<open>token["address"] = ...\<close> panics when the entry has no \<open>address\<close>\<close>
  "update_token_address T cfg address_str document =
     rbind (token_address T address_str) (\<lambda>addr.
     case document of
       Yaml_Hash document_hash \<Rightarrow>
         (case hash_get (Yaml_String ''tokens'') document_hash of
            Some (Yaml_Hash tokens) \<Rightarrow>
              (case hash_get (Yaml_String (tk_key cfg)) tokens of
                 Some (Yaml_Hash token) \<Rightarrow>
                   if hash_get (Yaml_String ''address'') token = None then Err Yaml_Panicked
                   else
                     Ok (cfg\<lparr>tk_address := addr\<rparr>,
                         Yaml_Hash (hash_update (Yaml_String ''tokens'')
                           (Yaml_Hash (hash_update (Yaml_String (tk_key cfg))
                             (Yaml_Hash (hash_update (Yaml_String ''address'')
                               (Yaml_String (tc_show_address T addr)) token)) tokens))
                           document_hash))
               | _ \<Rightarrow> Err (Yaml_Field (Missing (tk_key cfg)) ''tokens''))
          | _ \<Rightarrow> Err (Yaml_Field (Missing ''tokens'') ''root''))
     | _ \<Rightarrow> Err (Yaml_Field (Invalid_Type ''document'' ''a map'') ''root''))"

section \<open>Remote tokens\<close>

fun validate_token_urls :: "text_codec \<Rightarrow> strict_yaml list \<Rightarrow> url list \<Rightarrow> (url list, yaml_error) result" where
  "validate_token_urls T [] validated_urls = Ok validated_urls"
| "validate_token_urls T (url_yaml # urls) validated_urls =
     rbind (require_string url_yaml None (Some ''using-tokens-from'')) (\<lambda>u.
     rbind (map_err (\<lambda>e. Yaml_Field (Invalid_Value ''url'' e) ''using-tokens-from'') (tc_parse_url T u))
       (\<lambda>validated_url.
     if validated_url \<in> set validated_urls then Err (Key_Shadowing validated_url ''using-tokens-from'')
     else validate_token_urls T urls (validated_urls @ [validated_url])))"

fun remote_token_documents :: "text_codec \<Rightarrow> strict_yaml list \<Rightarrow> url list \<Rightarrow> (url list, yaml_error) result" where
  "remote_token_documents T [] validated_urls = Ok validated_urls"
| "remote_token_documents T (document # documents) validated_urls =
     rbind (case optional_vec document ''using-tokens-from'' of
              Some urls \<Rightarrow> validate_token_urls T urls validated_urls
            | None \<Rightarrow> Ok validated_urls)
       (remote_token_documents T documents)"

definition parse_remote_tokens :: "text_codec \<Rightarrow> strict_yaml list \<Rightarrow> (url list option, yaml_error) result" where
  "parse_remote_tokens T documents =
     rbind (remote_token_documents T documents []) (\<lambda>validated_urls.
     Ok (if validated_urls = [] then None else Some validated_urls))"

record remote_token =
  rt_chain_id :: u32
  rt_address :: string
  rt_name :: string
  rt_symbol :: string
  rt_decimals :: u64
  rt_logo_uri :: "url option"
  rt_extensions :: "(string \<times> string) list option"

definition try_into_token_cfg ::
  "text_codec \<Rightarrow> (string \<times> network_cfg) list \<Rightarrow> remote_token \<Rightarrow> (token_cfg option, ext_error) result" where
  \<comment> \<open>the cast of the decimals to \<open>u8\<close> wraps; lower case is the case of the characters up to 127\<close>
  "try_into_token_cfg T networks token =
     (case find (\<lambda>network. nc_chain_id network = rt_chain_id token) (map snd networks) of
        None \<Rightarrow> Ok None
      | Some network \<Rightarrow>
          rbind (map_err (\<lambda>e. ''Failed to parse token address: '' @ e) (tc_parse_address T (rt_address token)))
            (\<lambda>addr.
          Ok (Some \<lparr>tk_key = nc_key network @ ''-'' @ replace_all '' '' ''-'' (rt_name token) @ ''-'' @
                 map to_ascii_lowercase (rt_address token),
               tk_network = network, tk_address = addr, tk_decimals = Some (ucast (rt_decimals token)),
               tk_label = Some (rt_name token), tk_symbol = Some (rt_symbol token),
               tk_logo_uri = rt_logo_uri token, tk_extensions = rt_extensions token\<rparr>)))"

definition unique_tokens :: "remote_token list \<Rightarrow> ((u32 \<times> string) \<times> remote_token) list" where
  \<comment> \<open>by chain and lower case address; the last one counts. A hash map: its order, here that of the last
      insertions, only decides which of several conflicts is reported\<close>
  "unique_tokens tokens = fold (\<lambda>token unique.
     let i = (rt_chain_id token, map to_ascii_lowercase (rt_address token)) in
     filter (\<lambda>e. fst e \<noteq> i) unique @ [(i, token)]) tokens []"

fun add_remote_tokens ::
  "text_codec \<Rightarrow> (string \<times> network_cfg) list \<Rightarrow> remote_token list \<Rightarrow> (string \<times> token_cfg) list
   \<Rightarrow> ((string \<times> token_cfg) list, yaml_error) result" where
  "add_remote_tokens T networks [] tokens = Ok tokens"
| "add_remote_tokens T networks (token # more_tokens) tokens =
     (case try_into_token_cfg T networks token of
        Ok (Some cfg) \<Rightarrow>
          if map_of tokens (tk_key cfg) \<noteq> None then
            Err (Parse_Remote_Tokens_Error (''Conflicting remote token in response, a token with key '' @
              quoted (tk_key cfg) @ '' already exists''))
          else add_remote_tokens T networks more_tokens (tokens @ [(tk_key cfg, cfg)])
      | _ \<Rightarrow> add_remote_tokens T networks more_tokens tokens)"

fun fetch_tokens ::
  "(url \<Rightarrow> (remote_token list, ext_error, 'w) io) \<Rightarrow> text_codec \<Rightarrow> (string \<times> network_cfg) list \<Rightarrow> url list
   \<Rightarrow> (string \<times> token_cfg) list \<Rightarrow> ((string \<times> token_cfg) list, yaml_error, 'w) io" where
  "fetch_tokens get T networks [] tokens = io_return tokens"
| "fetch_tokens get T networks (u # urls) tokens =
     io_bind (io_map_err Parse_Remote_Tokens_Error (get u)) (\<lambda>listed.
     io_bind (io_pure (add_remote_tokens T networks (map snd (unique_tokens listed)) tokens))
       (fetch_tokens get T networks urls))"

section \<open>Added tokens are read back\<close>

lemma add_entry_cases:
  assumes "add_entry s k v d = Ok d'"
  obtains entries where "section_entries s d = entries" "hash_get (Yaml_String k) entries = None"
    "optional_hash d' s = Some (hash_insert (Yaml_String k) v entries)"
    "\<forall>s'. s' \<noteq> s \<longrightarrow> yaml_index d' s' = yaml_index d s'"
proof -
  from assms obtain dh where d: "d = Yaml_Hash dh" by (cases d) (auto simp: add_entry_def)
  show ?thesis
  proof (cases "hash_get (Yaml_String s) dh")
    case None
    let ?dh = "hash_insert (Yaml_String s) (Yaml_Hash []) dh"
    have d': "d' = Yaml_Hash (hash_update (Yaml_String s) (Yaml_Hash (hash_insert (Yaml_String k) v [])) ?dh)"
      using assms None by (simp add: d add_entry_def)
    show ?thesis
      by (rule that[of "[]"])
        (auto simp: d d' None section_entries_def optional_hash_def hash_get_update split: option.splits)
  next
    case (Some x)
    then obtain entries where x: "x = Yaml_Hash entries" and new: "hash_get (Yaml_String k) entries = None"
      and d': "d' = Yaml_Hash (hash_update (Yaml_String s) (Yaml_Hash (hash_insert (Yaml_String k) v entries)) dh)"
      using assms by (auto simp: d add_entry_def split: strict_yaml.splits if_splits)
    show ?thesis
      by (rule that[of entries])
        (auto simp: d d' Some x new section_entries_def optional_hash_def hash_get_update split: option.splits)
  qed
qed

lemma section_entries_cong: "yaml_index d s = yaml_index d' s \<Longrightarrow> section_entries s d = section_entries s d'"
  by (simp add: section_entries_def optional_hash_def)

lemma networks_same_section:
  assumes "all_entries ''networks'' docs' = all_entries ''networks'' docs"
  shows "parse_all_networks T remote docs' = parse_all_networks T remote docs"
  using assms by (simp add: parse_all_networks_def parse_network_documents_entries)

lemma hash_get_opt_insert:
  "hash_get j (opt_insert f v h) = (case v of Some x \<Rightarrow> if j = Yaml_String f then Some (Yaml_String x) else hash_get j h
     | None \<Rightarrow> hash_get j h)"
  by (auto simp: opt_insert_def split: option.splits)

lemma validate_decimals_show: "validate_decimals (show_word d) = Ok d"
proof -
  have "unat d < 2 ^ LENGTH(8)" by (rule unsigned_less)
  then show ?thesis by (simp add: validate_decimals_def parse_unsigned_show)
qed

lemma parse_added_token:
  assumes "networks network_key = Some network" "tc_parse_address T (tc_show_address T addr) = Ok addr"
  shows "parse_token T networks key (Yaml_Hash (token_hash T network_key addr decimals label symbol)) =
    Ok \<lparr>tk_key = key, tk_network = network, tk_address = addr, tk_decimals = decimals, tk_label = label,
        tk_symbol = symbol, tk_logo_uri = None, tk_extensions = None\<rparr>"
  using assms
  by (auto simp: parse_token_def token_hash_def require_string_def optional_string_def hash_get_opt_insert
      address_field_def reference_def opt_result_def validate_decimals_show Let_def split: option.splits)

lemma add_token_cases:
  assumes "add_token T key network_key address_str decimals label symbol docs = Ok docs'"
  obtains document rest addr decs networks network document' where
    "docs = document # rest" "docs' = document' # rest" "tc_parse_address T address_str = Ok addr"
    "opt_result validate_decimals decimals = Ok decs" "parse_all_networks T [] docs = Ok networks"
    "networks network_key = Some network" "entry_named key (parse_all_tokens T [] [] docs) \<noteq> Ok t"
    "add_entry ''tokens'' key (Yaml_Hash (token_hash T network_key addr decs label symbol)) document = Ok document'"
proof -
  from assms have no: "\<not> is_ok (entry_named key (parse_all_tokens T [] [] docs))"
    by (auto simp: add_token_def split: if_splits)
  with assms obtain addr decs where a: "tc_parse_address T address_str = Ok addr"
    "opt_result validate_decimals decimals = Ok decs"
    and n: "is_ok (entry_named network_key (parse_all_networks T [] docs))"
    and r: "(case docs of [] \<Rightarrow> Err Yaml_Panicked | document # rest \<Rightarrow>
      rbind (add_entry ''tokens'' key (Yaml_Hash (token_hash T network_key addr decs label symbol)) document)
        (\<lambda>document. Ok (document # rest))) = Ok docs'"
    by (auto simp: add_token_def token_address_def ok_iff)
  from n obtain networks network where "parse_all_networks T [] docs = Ok networks" "networks network_key = Some network"
    by (cases "entry_named network_key (parse_all_networks T [] docs)") (auto simp: entry_named_def ok_iff)
  moreover from r obtain document rest document' where "docs = document # rest" "docs' = document' # rest"
    "add_entry ''tokens'' key (Yaml_Hash (token_hash T network_key addr decs label symbol)) document = Ok document'"
    by (auto simp: ok_iff split: list.splits)
  moreover have "entry_named key (parse_all_tokens T [] [] docs) \<noteq> Ok t" using no by auto
  ultimately show ?thesis using that a by blast
qed

lemma local_tokens_entries:
  "local_tokens T networks docs = collect_entries ''tokens'' (parse_token T networks) (all_entries ''tokens'' docs) Map.empty"
  by (simp add: local_tokens_def collect_documents_entries)

lemma collect_middle:
  assumes "collect_entries s p (xs @ ys) m = Ok m'" "m' k = None" "p k v = Ok c"
  shows "collect_entries s p (xs @ (Yaml_String k, v) # ys) m = Ok (m'(k \<mapsto> c))"
proof -
  from assms(1) obtain m1 where xs: "collect_entries s p xs m = Ok m1" and ys: "collect_entries s p ys m1 = Ok m'"
    by (auto simp: collect_entries_append ok_iff)
  have grows: "m0 i \<noteq> None \<Longrightarrow> collect_entries s p fs m0 = Ok m2 \<Longrightarrow> m2 i \<noteq> None" for i fs m0 m2
    by (induction s p fs m0 rule: collect_entries.induct) (auto simp: ok_iff Let_def split: if_splits)
  have "m1 k = None" using grows[OF _ ys, of k] assms(2) by (cases "m1 k") auto
  then show ?thesis
    using xs assms(3) collect_entries_upd[OF ys assms(2)] by (simp add: collect_entries_append Let_def)
qed

text \<open>
  Claim C23. A token that is added is read back, and removing it undoes the addition: after a
  successful \<open>add_record_to_yaml\<close> the documents parse to the tokens they had before and the new one, with the
  network, address, decimals, label and symbol that were given, and after \<open>remove_record_from_yaml\<close>
  they parse to the tokens they had at first. (Addresses are assumed to parse from the text they
  display.)
\<close>
theorem added_token_is_read_back:
  assumes "codec_laws T"
    and "parse_all_networks T [] docs = Ok networks" "local_tokens T networks docs = Ok tokens"
    and "add_token T key network_key address_str decimals label symbol docs = Ok docs'"
  shows "\<exists>t docs''. parse_all_tokens T [] [] docs' = Ok (tokens(key \<mapsto> t)) \<and> tk_key t = key \<and>
    networks network_key = Some (tk_network t) \<and> tc_parse_address T address_str = Ok (tk_address t) \<and>
    opt_result validate_decimals decimals = Ok (tk_decimals t) \<and> tk_label t = label \<and> tk_symbol t = symbol \<and>
    remove_token key docs' = Ok docs'' \<and> local_tokens T networks docs'' = Ok tokens"
proof -
  from assms(4) obtain d rest addr decs nets network d' where docs: "docs = d # rest" "docs' = d' # rest"
    and a: "tc_parse_address T address_str = Ok addr" "opt_result validate_decimals decimals = Ok decs"
    and nets: "parse_all_networks T [] docs = Ok nets" "nets network_key = Some network"
    and no: "entry_named key (parse_all_tokens T [] [] docs) \<noteq> Ok (the (tokens key))"
    and add: "add_entry ''tokens'' key (Yaml_Hash (token_hash T network_key addr decs label symbol)) d = Ok d'"
    by (rule add_token_cases)
  have nets_eq: "nets = networks" using nets(1) assms(2) by simp
  have fresh: "tokens key = None"
  proof (rule ccontr)
    assume "tokens key \<noteq> None"
    then obtain x where x: "tokens key = Some x" by blast
    then have "parse_all_tokens T [] [] docs = Ok tokens"
      using assms(2,3) by (auto simp: parse_all_tokens_def required_def)
    then show False using no by (simp add: entry_named_def x)
  qed
  let ?v = "Yaml_Hash (token_hash T network_key addr decs label symbol)"
  let ?t = "\<lparr>tk_key = key, tk_network = network, tk_address = addr, tk_decimals = decs, tk_label = label,
        tk_symbol = symbol, tk_logo_uri = None, tk_extensions = None\<rparr>"
  from add obtain entries where e: "section_entries ''tokens'' d = entries"
    and new: "hash_get (Yaml_String key) entries = None"
    and d': "optional_hash d' ''tokens'' = Some (hash_insert (Yaml_String key) ?v entries)"
    and same: "\<forall>s'. s' \<noteq> ''tokens'' \<longrightarrow> yaml_index d' s' = yaml_index d s'" by (rule add_entry_cases)
  have ins: "hash_insert (Yaml_String key) ?v entries = entries @ [(Yaml_String key, ?v)]"
    using new by (intro hash_insert_new) (auto simp: hash_get_def map_of_eq_None_iff)
  have networks': "parse_all_networks T [] docs' = Ok networks"
    using assms(2) same section_entries_cong[of d' "''networks''" d]
    by (subst networks_same_section[of docs' docs]) (auto simp: docs)
  have pt: "parse_token T networks key ?v = Ok ?t"
    using nets(2) codec_lawsD(1)[OF assms(1)] unfolding nets_eq by (rule parse_added_token)
  have "local_tokens T networks docs' = Ok (tokens(key \<mapsto> ?t))"
    using assms(3) fresh pt collect_middle[of "''tokens''" "parse_token T networks" entries
        "all_entries ''tokens'' rest" Map.empty tokens key ?v ?t]
    by (simp add: local_tokens_entries docs e section_entries_def[of _ d'] d' ins)
  with networks' have parsed: "parse_all_tokens T [] [] docs' = Ok (tokens(key \<mapsto> ?t))"
    by (simp add: parse_all_tokens_def required_def)
  from d' obtain dh' where dh': "d' = Yaml_Hash dh'"
    and sec: "hash_get (Yaml_String ''tokens'') dh' = Some (Yaml_Hash (entries @ [(Yaml_String key, ?v)]))"
    by (cases d') (auto simp: ins optional_hash_def yaml_index_def split: option.splits elim!: as_hash.elims)
  let ?d'' = "Yaml_Hash (hash_update (Yaml_String ''tokens'')
    (Yaml_Hash (hash_remove (Yaml_String key) (entries @ [(Yaml_String key, ?v)]))) dh')"
  have "hash_remove (Yaml_String key) (entries @ [(Yaml_String key, ?v)]) = entries"
    using new by (force simp: hash_remove_def hash_get_def map_of_eq_None_iff filter_id_conv image_iff)
  then have "section_entries ''tokens'' ?d'' = entries"
    by (simp add: section_entries_def optional_hash_def hash_get_update sec)
  then have "local_tokens T networks (?d'' # rest) = Ok tokens"
    using assms(3) by (simp add: local_tokens_entries docs e)
  moreover have "hash_get (Yaml_String key) (entries @ [(Yaml_String key, ?v)]) \<noteq> None"
    by (simp add: hash_get_def map_add_def split: option.splits)
  then have "remove_token key docs' = Ok (?d'' # rest)" by (simp add: docs dh' sec Let_def)
  ultimately show ?thesis using parsed nets(2) a nets_eq by (intro exI[of _ ?t] exI) auto
qed

section \<open>Sanitising tokens\<close>

definition drop_logo :: "strict_yaml \<Rightarrow> strict_yaml" where
  "drop_logo v = (case v of Yaml_Hash h \<Rightarrow> Yaml_Hash (hash_remove (Yaml_String ''logo-uri'') h) | _ \<Rightarrow> v)"

definition plain_token ::
  "text_codec \<Rightarrow> (string \<Rightarrow> network_cfg option) \<Rightarrow> string \<Rightarrow> strict_yaml \<Rightarrow> (token_cfg, yaml_error) result" where
  "plain_token T networks k v = parse_token T networks k (drop_logo v)"

definition without_logo :: "token_cfg \<Rightarrow> token_cfg" where
  "without_logo t = t\<lparr>tk_logo_uri := None\<rparr>"

lemma hash_get_remove: "hash_get j (hash_remove k h) = (if j = k then None else hash_get j h)"
  by (induction h) (auto simp: hash_get_def hash_remove_def)

lemma yaml_index_drop_logo: "yaml_index (drop_logo v) f = (if f = ''logo-uri'' then Bad_Value else yaml_index v f)"
  by (cases v) (auto simp: drop_logo_def yaml_index_def hash_get_remove)

lemma parse_token_cong:
  assumes "\<And>f. f \<in> set (''logo-uri'' # allowed_token_keys) \<Longrightarrow> yaml_index v f = yaml_index v' f"
  shows "parse_token T networks k v = parse_token T networks k v'"
proof -
  note same = accessors_cong[OF assms]
  show ?thesis by (simp add: parse_token_def address_field_def same allowed_token_keys_def)
qed

interpretation plain_token_section: collected_section "''tokens''" None allowed_token_keys
  "plain_token T networks" for T networks
proof unfold_locales
  fix v v' k
  assume "\<And>f. f \<in> set allowed_token_keys \<Longrightarrow> yaml_index v f = yaml_index v' f"
  then show "plain_token T networks k v = plain_token T networks k v'"
    unfolding plain_token_def by (intro parse_token_cong) (auto simp: yaml_index_drop_logo)
next
  fix k v c
  assume "plain_token T networks k v = Ok c"
  then have "as_hash (drop_logo v) \<noteq> None"
    by (auto simp: plain_token_def parse_token_def Let_def ok_iff dest: require_string_hash)
  then show "as_hash v \<noteq> None" by (cases v) (auto simp: drop_logo_def)
qed

lemma plain_token_Ok:
  assumes "parse_token T networks k v = Ok t"
  shows "plain_token T networks k v = Ok (without_logo t)"
proof -
  have same: "yaml_index (drop_logo v) f = yaml_index v f" if "f \<in> set allowed_token_keys" for f
    using that by (auto simp: yaml_index_drop_logo allowed_token_keys_def)
  note same = accessors_cong[OF same]
  have "optional_string (drop_logo v) ''logo-uri'' = None"
    by (simp add: optional_string_def yaml_index_drop_logo)
  then show ?thesis using assms
    by (auto simp: plain_token_def parse_token_def address_field_def same allowed_token_keys_def Let_def ok_iff
        without_logo_def opt_result_def)
qed

lemma collect_mapped:
  assumes "\<And>k v c. p k v = Ok c \<Longrightarrow> q k v = Ok (f c)"
  shows "collect_entries s p es m = Ok m' \<Longrightarrow>
    collect_entries s q es (\<lambda>k. map_option f (m k)) = Ok (\<lambda>k. map_option f (m' k))"
proof (induction es arbitrary: m)
  case (Cons e es)
  obtain j v where e: "e = (j, v)" by force
  let ?j = "case as_str j of Some s \<Rightarrow> s | None \<Rightarrow> []"
  from Cons.prems obtain c where c: "p ?j v = Ok c" "m ?j = None"
    and rest: "collect_entries s p es (m(?j \<mapsto> c)) = Ok m'"
    by (auto simp: e ok_iff Let_def simp del: fun_upd_apply split: if_splits)
  have "(\<lambda>k. map_option f ((m(?j \<mapsto> c)) k)) = (\<lambda>k. map_option f (m k))(?j \<mapsto> f c)" by auto
  with Cons.IH[OF rest] c assms[OF c(1)] show ?case by (simp add: e Let_def del: fun_upd_apply)
qed simp

lemma sanitize_hash_values: "(k, v) \<in> set (sanitize_hash al h) \<Longrightarrow> \<exists>g. v = Yaml_Hash (sanitize_entry al g)"
proof -
  have fold: "e \<in> set (fold (\<lambda>(key, value) h. hash_insert (Yaml_String key) value h) kvs acc) \<Longrightarrow>
      e \<in> set acc \<or> (\<exists>p \<in> set kvs. e = (Yaml_String (fst p), snd p))" for e kvs acc
    by (induction kvs arbitrary: acc) (fastforce simp: hash_insert_def)+
  have entry: "p \<in> set (sanitized_entry al e) \<Longrightarrow> \<exists>g. snd p = Yaml_Hash (sanitize_entry al g)" for p e
    by (cases "(al, e)" rule: sanitized_entry.cases) auto
  assume "(k, v) \<in> set (sanitize_hash al h)"
  from fold[OF this[unfolded sanitize_hash_def]] show ?thesis using entry by fastforce
qed

lemma sanitized_section_values:
  assumes "(k, v) \<in> set (section_entries s (sanitize_document s al d))"
  shows "\<exists>g. v = Yaml_Hash (sanitize_entry al g)"
proof (cases "optional_hash d s")
  case None
  then have "section_entries s (sanitize_document s al d) = []"
    by (auto simp: sanitize_document_def section_entries_def optional_hash_def yaml_index_def
        split: strict_yaml.splits option.splits)
  with assms show ?thesis by simp
next
  case (Some h)
  then obtain root where "d = Yaml_Hash root" "hash_get (Yaml_String s) root = Some (Yaml_Hash h)"
    by (cases d) (auto simp: optional_hash_def yaml_index_def split: option.splits elim: as_hash.elims)
  then have "section_entries s (sanitize_document s al d) = sanitize_hash al h"
    by (simp add: sanitize_document_def section_entries_def optional_hash_def)
  with assms show ?thesis by (auto dest: sanitize_hash_values)
qed

lemma collect_entries_cong:
  "(\<And>k v. (k, v) \<in> set es \<Longrightarrow> \<forall>j. p j v = q j v) \<Longrightarrow> collect_entries s p es m = collect_entries s q es m"
proof (induction es arbitrary: m)
  case (Cons e es)
  obtain k v where e: "e = (k, v)" by force
  have "p j v = q j v" for j using Cons.prems[of k v] by (simp add: e)
  moreover have "collect_entries s p es m0 = collect_entries s q es m0" for m0
    by (rule Cons.IH) (use Cons.prems in auto)
  ultimately show ?case by (simp add: e Let_def cong: if_cong)
qed simp

text \<open>
  Sanitising keeps every token but its logo: \<open>logo-uri\<close> is read by the parser and is missing from the
  keys the sanitiser allows.
\<close>
lemma sanitize_drops_logos:
  assumes "string_keyed ''tokens'' docs" "local_tokens T networks docs = Ok tokens"
  shows "local_tokens T networks (sanitize_tokens docs) = Ok (\<lambda>k. map_option without_logo (tokens k))"
proof -
  let ?plain = "\<lambda>docs. collect_documents ''tokens'' None (plain_token T networks) docs Map.empty"
  have "collect_entries ''tokens'' (plain_token T networks) (all_entries ''tokens'' docs) Map.empty =
      Ok (\<lambda>k. map_option without_logo (tokens k))"
    using collect_mapped[OF plain_token_Ok assms(2)[unfolded local_tokens_entries]] by simp
  then have "?plain docs = Ok (\<lambda>k. map_option without_logo (tokens k))" by (simp add: collect_documents_entries)
  then have san: "?plain (sanitize_tokens docs) = Ok (\<lambda>k. map_option without_logo (tokens k))"
    unfolding sanitize_tokens_def by (rule plain_token_section.sanitize_keeps[OF assms(1)])
  have "parse_token T networks j v = plain_token T networks j v"
    if "(k, v) \<in> set (all_entries ''tokens'' (sanitize_tokens docs))" for k v j
  proof -
    from that obtain d where "(k, v) \<in> set (section_entries ''tokens'' (sanitize_document ''tokens'' allowed_token_keys d))"
      by (auto simp: sanitize_tokens_def)
    then obtain g where v: "v = Yaml_Hash (sanitize_entry allowed_token_keys g)"
      using sanitized_section_values by blast
    have "hash_get (Yaml_String ''logo-uri'') (sanitize_entry allowed_token_keys g) = None"
      by (simp only: plain_token_section.sanitize_entry_get) (simp add: allowed_token_keys_def)
    then show ?thesis unfolding plain_token_def
      by (intro parse_token_cong) (auto simp: v yaml_index_drop_logo)
  qed
  then have "collect_entries ''tokens'' (parse_token T networks) (all_entries ''tokens'' (sanitize_tokens docs)) Map.empty =
      collect_entries ''tokens'' (plain_token T networks) (all_entries ''tokens'' (sanitize_tokens docs)) Map.empty"
    by (intro collect_entries_cong) blast
  with san show ?thesis by (simp add: local_tokens_entries collect_documents_entries)
qed

abbreviation usdc_entry :: strict_yaml where
  "usdc_entry \<equiv> Yaml_Hash [(Yaml_String ''rpcs'', Yaml_Array [Yaml_String ''https://a'']), (Yaml_String ''chain-id'', Yaml_String ''1'')]"

definition usdc_document :: strict_yaml where
  "usdc_document = Yaml_Hash [(Yaml_String ''networks'', Yaml_Hash [(Yaml_String ''base'', usdc_entry)])]"

definition usdc_network :: network_cfg where
  "usdc_network = \<lparr>nc_key = ''base'', nc_rpcs = [''https://a''], nc_chain_id = 1, nc_label = None,
     nc_network_id = None, nc_currency = None\<rparr>"

lemma plain_url: "tc_parse_url plain_codec u = Ok u"
  by (simp add: plain_codec_def)

lemma usdc_entry_parses: "parse_network_cfg plain_codec ''base'' usdc_entry = Ok usdc_network"
proof -
  have "parse_unsigned (2 ^ 32) (show_nat 1) = Ok 1" by (rule parse_unsigned_show) simp
  moreover have "show_nat 1 = ''1''" by code_simp
  ultimately have "parse_unsigned 4294967296 ''1'' = Ok 1" by simp
  then show ?thesis
    by (simp add: hash_get_def parse_network_cfg_def network_rpcs_def require_vec_def parse_rpc_vec_def
        require_string_def validate_rpc_def plain_url optional_string_def usdc_network_def)
qed

lemma usdc_networks: "parse_all_networks plain_codec [] [usdc_document] = Ok [''base'' \<mapsto> usdc_network]"
proof -
  have "require_hash usdc_document (Some ''networks'') (Some ''root'') = Ok [(Yaml_String ''base'', usdc_entry)]"
    by (simp add: usdc_document_def require_hash_def hash_get_def)
  then show ?thesis by (simp add: parse_all_networks_def usdc_entry_parses)
qed

lemma plain_address: "parse_unsigned (2 ^ 160) (show_nat 7) = Ok 7" "show_nat 7 = ''7''"
  by (rule parse_unsigned_show, simp, code_simp)

lemma usdc_tokens: "local_tokens plain_codec [''base'' \<mapsto> usdc_network] [usdc_document] = Ok Map.empty"
  by (simp add: local_tokens_def usdc_document_def require_hash_def hash_get_def)

theorem added_token_is_read_back_witness:
  "\<exists>docs' docs'' t. add_token plain_codec ''usdc'' ''base'' ''7'' (Some ''6'') None None [usdc_document] = Ok docs' \<and>
     parse_all_tokens plain_codec [] [] docs' = Ok [''usdc'' \<mapsto> t] \<and> tk_decimals t = Some 6 \<and> tk_network t = usdc_network \<and>
     remove_token ''usdc'' docs' = Ok docs''"
proof -
  have addr: "token_address plain_codec ''7'' = Ok 7"
    using plain_address by (simp add: token_address_def plain_codec_def)
  have "parse_unsigned 256 (show_nat 6) = Ok 6" by (rule parse_unsigned_show) simp
  moreover have "show_nat 6 = ''6''" by code_simp
  ultimately have dec: "opt_result validate_decimals (Some ''6'') = Ok (Some 6)"
    by (simp add: opt_result_def validate_decimals_def)
  have no: "\<not> is_ok (entry_named ''usdc'' (parse_all_tokens plain_codec [] [] [usdc_document]))"
    by (simp add: parse_all_tokens_def usdc_networks usdc_tokens required_def entry_named_def)
  obtain d where "add_entry ''tokens'' ''usdc'' (Yaml_Hash (token_hash plain_codec ''base'' 7 (Some 6) None None))
      usdc_document = Ok d"
    by (simp add: add_entry_def usdc_document_def hash_get_def hash_insert_def)
  then have add: "add_token plain_codec ''usdc'' ''base'' ''7'' (Some ''6'') None None [usdc_document] = Ok [d]"
    using no by (simp add: add_token_def addr dec usdc_networks entry_named_def)
  from added_token_is_read_back[OF plain_codec_laws usdc_networks usdc_tokens add] obtain t docs'' where
    "parse_all_tokens plain_codec [] [] [d] = Ok [''usdc'' \<mapsto> t]" "remove_token ''usdc'' [d] = Ok docs''"
    "[''base'' \<mapsto> usdc_network] ''base'' = Some (tk_network t)"
    "opt_result validate_decimals (Some ''6'') = Ok (tk_decimals t)" by blast
  then show ?thesis using add dec
    by (intro exI[of _ "[d]"] exI[of _ docs''] exI[of _ t]) (simp del: remove_token.simps)
qed

end
