(* ===== verification/Settings_Sanitize.thy ===== *)
theory Settings_Sanitize
  imports Settings_Tokens
begin

text \<open>
  Sanitising all sections of the settings (\<open>sanitize_all_documents\<close> in \<open>settings/src/yaml/mod.rs\<close>): the
  sanitisers of charts (\<open>chart.rs\<close>), deployments, scenarios, orders and the order builder, and their
  composition with those of \<open>Settings_Sections\<close>, \<open>Settings_Networks\<close>, \<open>Settings_Catalog\<close> and \<open>Settings_Tokens\<close>.

  A sanitised section holds the same entries, sorted by name and reduced to the known fields, sanitising
  is idempotent, and what the flat sections parse to does not change.
\<close>

section \<open>Hashes reduced to known fields\<close>

definition on_section :: "string \<Rightarrow> (yaml_hash \<Rightarrow> yaml_hash) \<Rightarrow> strict_yaml \<Rightarrow> strict_yaml" where
  \<comment> \<open>the frame of every \<open>sanitize_documents\<close>, for one document\<close>
  "on_section section_name f doc =
     (case doc of
        Yaml_Hash root_hash \<Rightarrow>
          (case hash_get (Yaml_String section_name) root_hash of
             Some (Yaml_Hash section_hash) \<Rightarrow>
               Yaml_Hash (hash_insert (Yaml_String section_name) (Yaml_Hash (f section_hash)) root_hash)
           | _ \<Rightarrow> doc)
      | _ \<Rightarrow> doc)"

fun kept_entry :: "(yaml_hash \<Rightarrow> yaml_hash) \<Rightarrow> strict_yaml \<times> strict_yaml \<Rightarrow> (string \<times> strict_yaml) list" where
  "kept_entry f (Yaml_String key, Yaml_Hash h) = [(key, Yaml_Hash (f h))]"
| "kept_entry f _ = []"

definition sorted_hash :: "(string \<times> strict_yaml) list \<Rightarrow> yaml_hash" where
  "sorted_hash entries =
     fold (\<lambda>(key, value) new_hash. hash_insert (Yaml_String key) value new_hash) (sort_key fst entries) []"

lemma kept_entry_cong [fundef_cong]:
  "e = e' \<Longrightarrow> (\<And>k h. e' = (Yaml_String k, Yaml_Hash h) \<Longrightarrow> f h = f' h) \<Longrightarrow> kept_entry f e = kept_entry f' e'"
  by (cases "(f, e)" rule: kept_entry.cases) auto

definition each_entry :: "(yaml_hash \<Rightarrow> yaml_hash) \<Rightarrow> yaml_hash \<Rightarrow> yaml_hash" where
  "each_entry f h = sorted_hash (concat (map (kept_entry f) h))"

definition sanitize_values :: "string list \<Rightarrow> (string \<Rightarrow> strict_yaml \<Rightarrow> strict_yaml) \<Rightarrow> yaml_hash \<Rightarrow> yaml_hash" where
  \<comment> \<open>known fields, some of them rewritten on the way\<close>
  "sanitize_values allowed rewrite h =
     fold (\<lambda>allowed_key sanitized. case hash_get (Yaml_String allowed_key) h of
             Some v \<Rightarrow> hash_insert (Yaml_String allowed_key) (rewrite allowed_key v) sanitized
           | None \<Rightarrow> sanitized) allowed []"

type_synonym field_update = "string \<times> (strict_yaml \<Rightarrow> strict_yaml option)"

definition update_field :: "field_update \<Rightarrow> yaml_hash \<Rightarrow> yaml_hash" where
  \<comment> \<open>a field of the expected type is rewritten and inserted again\<close>
  "update_field u h =
     (case hash_get (Yaml_String (fst u)) h of
        Some v \<Rightarrow> (case snd u v of Some v' \<Rightarrow> hash_insert (Yaml_String (fst u)) v' h | None \<Rightarrow> h)
      | None \<Rightarrow> h)"

definition on_hash :: "(yaml_hash \<Rightarrow> yaml_hash) \<Rightarrow> strict_yaml \<Rightarrow> strict_yaml option" where
  "on_hash f v = map_option (\<lambda>h. Yaml_Hash (f h)) (as_hash v)"

definition on_array :: "(strict_yaml list \<Rightarrow> strict_yaml list) \<Rightarrow> strict_yaml \<Rightarrow> strict_yaml option" where
  "on_array f v = map_option (\<lambda>xs. Yaml_Array (f xs)) (as_vec v)"

definition only_hashes :: "(yaml_hash \<Rightarrow> yaml_hash) \<Rightarrow> strict_yaml list \<Rightarrow> strict_yaml list" where
  \<comment> \<open>\<open>filter_map\<close>: items that are no hash are dropped\<close>
  "only_hashes f xs = concat (map (\<lambda>v. case as_hash v of Some h \<Rightarrow> [Yaml_Hash (f h)] | None \<Rightarrow> []) xs)"

section \<open>Charts\<close>

definition allowed_chart_keys :: "string list" where
  "allowed_chart_keys = [''metrics'', ''plots'', ''scenario'']"

definition allowed_plot_keys :: "string list" where
  "allowed_plot_keys = [''inset'', ''margin'', ''margin-bottom'', ''margin-left'', ''margin-right'', ''margin-top'',
     ''marks'', ''subtitle'', ''title'', ''x'', ''y'']"

definition allowed_mark_keys :: "string list" where
  "allowed_mark_keys = [''options'', ''type'']"

definition allowed_mark_options_keys :: "string list" where
  "allowed_mark_options_keys = [''fill'', ''r'', ''stroke'', ''transform'', ''x'', ''x0'', ''x1'', ''y'', ''y0'', ''y1'']"

definition allowed_transform_keys :: "string list" where
  "allowed_transform_keys = [''content'', ''type'']"

definition allowed_transform_content_keys :: "string list" where
  "allowed_transform_content_keys = [''options'', ''outputs'']"

definition allowed_transform_outputs_keys :: "string list" where
  "allowed_transform_outputs_keys = [''fill'', ''r'', ''stroke'', ''x'', ''y'', ''z'']"

definition allowed_transform_options_keys :: "string list" where
  "allowed_transform_options_keys = [''bin-width'', ''thresholds'', ''x'', ''y'']"

definition allowed_axis_keys :: "string list" where
  "allowed_axis_keys = [''anchor'', ''label'', ''label-anchor'', ''label-arrow'']"

definition allowed_metric_keys :: "string list" where
  "allowed_metric_keys = [''description'', ''label'', ''precision'', ''unit-prefix'', ''unit-suffix'', ''value'']"

definition sanitize_transform_content :: "yaml_hash \<Rightarrow> yaml_hash" where
  "sanitize_transform_content content_hash =
     update_field (''options'', on_hash (sanitize_entry allowed_transform_options_keys))
     (update_field (''outputs'', on_hash (sanitize_entry allowed_transform_outputs_keys))
     (sanitize_entry allowed_transform_content_keys content_hash))"

definition sanitize_transform_hash :: "yaml_hash \<Rightarrow> yaml_hash" where
  "sanitize_transform_hash transform_hash =
     update_field (''content'', on_hash sanitize_transform_content)
     (sanitize_entry allowed_transform_keys transform_hash)"

definition sanitize_mark_options_hash :: "yaml_hash \<Rightarrow> yaml_hash" where
  "sanitize_mark_options_hash options_hash =
     update_field (''transform'', on_hash sanitize_transform_hash)
     (sanitize_entry allowed_mark_options_keys options_hash)"

definition sanitize_mark_hash :: "yaml_hash \<Rightarrow> yaml_hash" where
  "sanitize_mark_hash mark_hash =
     update_field (''options'', on_hash sanitize_mark_options_hash)
     (sanitize_entry allowed_mark_keys mark_hash)"

definition sanitize_marks_array :: "strict_yaml list \<Rightarrow> strict_yaml list" where
  "sanitize_marks_array marks_array = only_hashes sanitize_mark_hash marks_array"

definition sanitize_axis_hash :: "yaml_hash \<Rightarrow> yaml_hash" where
  "sanitize_axis_hash axis_hash = sanitize_entry allowed_axis_keys axis_hash"

definition sanitize_plot_hash :: "yaml_hash \<Rightarrow> yaml_hash" where
  "sanitize_plot_hash plot_hash =
     update_field (''y'', on_hash sanitize_axis_hash)
     (update_field (''x'', on_hash sanitize_axis_hash)
     (update_field (''marks'', on_array sanitize_marks_array)
     (sanitize_entry allowed_plot_keys plot_hash)))"

definition sanitize_plots_hash :: "yaml_hash \<Rightarrow> yaml_hash" where
  "sanitize_plots_hash plots_hash = each_entry sanitize_plot_hash plots_hash"

definition sanitize_metrics_array :: "strict_yaml list \<Rightarrow> strict_yaml list" where
  "sanitize_metrics_array metrics_array = only_hashes (sanitize_entry allowed_metric_keys) metrics_array"

definition sanitize_chart_hash :: "yaml_hash \<Rightarrow> yaml_hash" where
  "sanitize_chart_hash chart_hash =
     update_field (''metrics'', on_array sanitize_metrics_array)
     (update_field (''plots'', on_hash sanitize_plots_hash)
     (sanitize_entry allowed_chart_keys chart_hash))"

definition sanitize_charts_hash :: "yaml_hash \<Rightarrow> yaml_hash" where
  "sanitize_charts_hash charts_hash = each_entry sanitize_chart_hash charts_hash"

definition sanitize_charts :: "strict_yaml list \<Rightarrow> strict_yaml list" where
  "sanitize_charts = map (on_section ''charts'' sanitize_charts_hash)"

section \<open>Deployments, orders, scenarios and the builder\<close>

definition allowed_deployment_keys :: "string list" where
  "allowed_deployment_keys = [''scenario'', ''order'']"

definition sanitize_deployments :: "strict_yaml list \<Rightarrow> strict_yaml list" where
  "sanitize_deployments = map (on_section ''deployments'' (each_entry (sanitize_entry allowed_deployment_keys)))"

definition allowed_order_keys :: "string list" where
  "allowed_order_keys = [''inputs'', ''oracle-url'', ''raindex'', ''outputs'', ''rainlang'']"

definition allowed_order_io_keys :: "string list" where
  "allowed_order_io_keys = [''token'', ''vault-id'']"

definition sanitize_order_field :: "string \<Rightarrow> strict_yaml \<Rightarrow> strict_yaml" where
  "sanitize_order_field allowed_key v =
     (if allowed_key \<in> {''inputs'', ''outputs''} then
        (case v of
           Yaml_Array io_array \<Rightarrow> Yaml_Array (only_hashes (sanitize_entry allowed_order_io_keys) io_array)
         | _ \<Rightarrow> v)
      else v)"

definition sanitize_orders :: "strict_yaml list \<Rightarrow> strict_yaml list" where
  "sanitize_orders = map (on_section ''orders'' (each_entry (sanitize_values allowed_order_keys sanitize_order_field)))"

definition allowed_scenario_keys :: "string list" where
  "allowed_scenario_keys = [''bindings'', ''blocks'', ''rainlang'', ''runs'', ''scenarios'']"

lemma hash_get_size: "hash_get k h = Some v \<Longrightarrow> size v < size_list (size_prod size size) h"
  by (induction h) (auto simp: hash_get_def split: if_splits)

function sanitize_scenario_hash :: "yaml_hash \<Rightarrow> yaml_hash" where
  \<comment> \<open>with \<open>sanitize_scenarios_hash\<close> written out\<close>
  "sanitize_scenario_hash scenario_hash =
     fold (\<lambda>allowed_key sanitized. case hash_get (Yaml_String allowed_key) scenario_hash of
             Some v \<Rightarrow> hash_insert (Yaml_String allowed_key)
               (if allowed_key = ''scenarios'' then
                  (case v of
                     Yaml_Hash nested_scenarios \<Rightarrow>
                       Yaml_Hash (sorted_hash (concat (map (kept_entry sanitize_scenario_hash) nested_scenarios)))
                   | _ \<Rightarrow> v)
                else v) sanitized
           | None \<Rightarrow> sanitized) allowed_scenario_keys []"
  by pat_completeness auto

termination sanitize_scenario_hash
proof (relation "measure (size_list (size_prod size size))")
  fix h k v s nested e key inner
  assume get: "hash_get (Yaml_String k) h = Some v" and v: "v = Yaml_Hash nested"
    and e: "e \<in> set nested" "e = (Yaml_String key, Yaml_Hash inner)"
  have "size (Yaml_Hash inner) < size_prod size size e" by (simp add: e(2))
  also have "\<dots> \<le> size_list (size_prod size size) nested"
    using e(1) by (rule size_list_estimation'[OF _ order_refl])
  also have "\<dots> < size v" by (simp add: v)
  also have "\<dots> < size_list (size_prod size size) h" using get by (rule hash_get_size)
  finally show "(inner, h) \<in> measure (size_list (size_prod size size))" by simp
qed simp

definition sanitize_scenarios :: "strict_yaml list \<Rightarrow> strict_yaml list" where
  "sanitize_scenarios = map (on_section ''scenarios'' (each_entry sanitize_scenario_hash))"

definition allowed_order_builder_keys :: "string list" where
  "allowed_order_builder_keys = [''name'', ''description'', ''short-description'', ''deployments'']"

definition allowed_order_builder_deployment_keys :: "string list" where
  "allowed_order_builder_deployment_keys =
     [''name'', ''description'', ''short-description'', ''deposits'', ''fields'', ''select-tokens'']"

definition sanitize_builder_field :: "string \<Rightarrow> strict_yaml \<Rightarrow> strict_yaml" where
  "sanitize_builder_field allowed_key v =
     (if allowed_key = ''deployments'' then
        (case v of
           Yaml_Hash deployments_hash \<Rightarrow>
             Yaml_Hash (each_entry (sanitize_entry allowed_order_builder_deployment_keys) deployments_hash)
         | _ \<Rightarrow> v)
      else v)"

definition sanitize_builder :: "strict_yaml list \<Rightarrow> strict_yaml list" where
  "sanitize_builder = map (on_section ''builder'' (sanitize_values allowed_order_builder_keys sanitize_builder_field))"

section \<open>All sections\<close>

definition sanitize_rainlangs :: "strict_yaml list \<Rightarrow> strict_yaml list" where
  "sanitize_rainlangs = map (sanitize_document ''rainlangs'' allowed_rainlang_keys)"

definition sanitize_raindexes :: "strict_yaml list \<Rightarrow> strict_yaml list" where
  "sanitize_raindexes = map (sanitize_document ''raindexes'' allowed_raindex_keys)"

definition sanitize_remote_networks :: "strict_yaml list \<Rightarrow> strict_yaml list" where
  "sanitize_remote_networks = map (sanitize_document ''using-networks-from'' allowed_remote_networks_keys)"

definition sanitize_all_documents :: "strict_yaml list \<Rightarrow> strict_yaml list" where
  "sanitize_all_documents documents =
     sanitize_tokens (sanitize_scenarios (sanitize_remote_networks (sanitize_raindexes (sanitize_orders
     (sanitize_networks (sanitize_syncs (sanitize_builder (sanitize_deployments (sanitize_rainlangs
     (sanitize_charts documents))))))))))"

section \<open>Rewriting twice\<close>

definition steady :: "(yaml_hash \<Rightarrow> yaml_hash) \<Rightarrow> bool" where
  "steady f \<longleftrightarrow> (\<forall>h. f (f h) = f h)"

definition steady_update :: "(strict_yaml \<Rightarrow> strict_yaml option) \<Rightarrow> bool" where
  "steady_update u \<longleftrightarrow> (\<forall>v v'. u v = Some v' \<longrightarrow> u v' = Some v')"

named_theorems steadiness \<open>sanitisers that change nothing the second time\<close>

definition moved_field :: "yaml_hash \<Rightarrow> field_update \<Rightarrow> yaml_hash" where
  "moved_field h u = (case hash_get (Yaml_String (fst u)) h of
       Some v \<Rightarrow> (case snd u v of Some v' \<Rightarrow> [(Yaml_String (fst u), v')] | None \<Rightarrow> [])
     | None \<Rightarrow> [])"

definition moved_fields :: "field_update list \<Rightarrow> yaml_hash \<Rightarrow> yaml_hash" where
  \<comment> \<open>the fields that are rewritten, which a linked hash map moves to its end\<close>
  "moved_fields us h = concat (map (moved_field h) us)"

lemma moved_fields_simps [simp]:
  "moved_fields [] h = []" "moved_fields (u # us) h = moved_field h u @ moved_fields us h"
  by (simp_all add: moved_fields_def)

lemma moved_fields_keys: "fst ` set (moved_fields us h) \<subseteq> Yaml_String ` fst ` set us"
proof (induction us)
  case (Cons u us)
  have "fst ` set (moved_field h u) \<subseteq> {Yaml_String (fst u)}"
    by (auto simp: moved_field_def split: option.splits)
  with Cons show ?case by auto
qed simp

lemma moved_fields_cong:
  assumes "\<And>u. u \<in> set us \<Longrightarrow> hash_get (Yaml_String (fst u)) h = hash_get (Yaml_String (fst u)) h'"
  shows "moved_fields us h = moved_fields us h'"
  unfolding moved_fields_def
  by (intro arg_cong[where f = concat] map_cong refl) (simp only: moved_field_def assms)

lemma hash_get_append: "hash_get k (g @ h) = (case hash_get k g of Some v \<Rightarrow> Some v | None \<Rightarrow> hash_get k h)"
  by (auto simp: hash_get_def map_add_def split: option.splits)

lemma update_field_get:
  "j \<noteq> Yaml_String (fst u) \<Longrightarrow> hash_get j (update_field u h) = hash_get j h"
  by (auto simp: update_field_def split: option.splits)

lemma fold_updates:
  assumes "distinct (map fst us)"
  shows "fold update_field us h =
    filter (\<lambda>e. fst e \<notin> fst ` set (moved_fields us h)) h @ moved_fields us h"
  using assms
proof (induction us arbitrary: h)
  case Nil
  then show ?case by simp
next
  case (Cons u us)
  let ?k = "Yaml_String (fst u)" and ?M = "moved_fields us h"
  have out: "?k \<notin> fst ` set ?M" using moved_fields_keys[of us h] Cons.prems by auto
  have same: "moved_fields us (update_field u h) = ?M"
    using Cons.prems by (intro moved_fields_cong update_field_get) (auto simp: rev_image_eqI)
  have step: "fold update_field (u # us) h =
      filter (\<lambda>e. fst e \<notin> fst ` set ?M) (update_field u h) @ ?M"
    using Cons.IH[of "update_field u h"] Cons.prems by (simp add: same)
  show ?case
  proof (cases "\<exists>v v'. hash_get ?k h = Some v \<and> snd u v = Some v'")
    case False
    then have "update_field u h = h" "moved_fields (u # us) h = ?M"
      by (auto simp: update_field_def moved_field_def split: option.splits)
    with step show ?thesis by simp
  next
    case True
    then obtain v v' where "hash_get ?k h = Some v" "snd u v = Some v'" by blast
    then have upd: "update_field u h = filter (\<lambda>e. fst e \<noteq> ?k) h @ [(?k, v')]"
      and M: "moved_fields (u # us) h = (?k, v') # ?M"
      by (simp_all add: update_field_def moved_field_def hash_insert_def)
    have "filter (\<lambda>e. fst e \<notin> fst ` set ?M) (filter (\<lambda>e. fst e \<noteq> ?k) h) =
        filter (\<lambda>e. fst e \<notin> fst ` set ((?k, v') # ?M)) h"
      by (auto simp: conj_commute intro: filter_cong)
    with step out show ?thesis unfolding upd M by simp
  qed
qed

lemma moved_get:
  assumes "distinct (map fst us)" "u \<in> set us"
  shows "hash_get (Yaml_String (fst u)) (moved_fields us h) =
    (case hash_get (Yaml_String (fst u)) h of Some v \<Rightarrow> snd u v | None \<Rightarrow> None)"
  using assms
proof (induction us)
  case (Cons w us)
  have none: "hash_get (Yaml_String (fst w)) (moved_fields us h) = None"
    using moved_fields_keys[of us h] Cons.prems(1) by (auto simp: hash_get_def map_of_eq_None_iff)
  show ?case
  proof (cases "u = w")
    case True
    then show ?thesis using none
      by (auto simp: moved_field_def hash_get_append split: option.splits) (auto simp: hash_get_def)
  next
    case False
    with Cons.prems have "u \<in> set us" "fst u \<noteq> fst w" by (auto simp: rev_image_eqI)
    then have "hash_get (Yaml_String (fst u)) (moved_field h w) = None"
      by (auto simp: moved_field_def hash_get_def split: option.splits)
    with \<open>u \<in> set us\<close> show ?thesis using Cons by (simp add: hash_get_append)
  qed
qed simp

lemma filter_get: "hash_get k (filter (\<lambda>e. fst e \<notin> K) h) = (if k \<in> K then None else hash_get k h)"
  by (induction h) (auto simp: hash_get_def)

lemma fold_updates_get:
  assumes "distinct (map fst us)"
  shows "hash_get k (fold update_field us h) =
    (case hash_get k (moved_fields us h) of Some v \<Rightarrow> Some v | None \<Rightarrow> hash_get k h)"
proof -
  have "k \<in> fst ` set (moved_fields us h) \<longleftrightarrow> hash_get k (moved_fields us h) \<noteq> None"
    by (simp add: hash_get_def map_of_eq_None_iff)
  then show ?thesis
    by (auto simp: fold_updates[OF assms] hash_get_append filter_get split: option.splits)
qed

lemma moved_again:
  assumes "distinct (map fst us)" "\<And>u. u \<in> set us \<Longrightarrow> steady_update (snd u)"
    and "\<And>u. u \<in> set us \<Longrightarrow> hash_get (Yaml_String (fst u)) g = hash_get (Yaml_String (fst u)) (fold update_field us h)"
  shows "moved_fields us g = moved_fields us h"
  unfolding moved_fields_def
proof (intro arg_cong[where f = concat] map_cong refl)
  fix u
  assume u: "u \<in> set us"
  let ?k = "Yaml_String (fst u)"
  have g: "hash_get ?k g = (case hash_get ?k h of None \<Rightarrow> None
      | Some v \<Rightarrow> (case snd u v of Some v' \<Rightarrow> Some v' | None \<Rightarrow> Some v))"
    unfolding assms(3)[OF u] fold_updates_get[OF assms(1)] moved_get[OF assms(1) u]
    by (auto split: option.splits)
  show "moved_field g u = moved_field h u"
    using assms(2)[OF u] by (auto simp: moved_field_def g steady_update_def split: option.splits)
qed

lemma updates_steady:
  assumes "distinct (map fst us)" "\<And>u. u \<in> set us \<Longrightarrow> steady_update (snd u)"
  shows "fold update_field us (fold update_field us h) = fold update_field us h"
proof -
  let ?M = "moved_fields us h" and ?g = "fold update_field us h"
  have M: "moved_fields us ?g = ?M" by (rule moved_again[OF assms refl])
  have "filter (\<lambda>e. fst e \<notin> fst ` set ?M) ?g = filter (\<lambda>e. fst e \<notin> fst ` set ?M) h"
    unfolding fold_updates[OF assms(1), of h] by (auto simp: filter_empty_conv)
  then have "fold update_field us ?g = filter (\<lambda>e. fst e \<notin> fst ` set ?M) h @ ?M"
    by (subst fold_updates[OF assms(1)]) (simp only: M)
  also have "\<dots> = ?g" by (rule fold_updates[OF assms(1), symmetric])
  finally show ?thesis .
qed

lemma sanitize_entry_list:
  assumes "distinct al"
  shows "sanitize_values al w h = concat (map (\<lambda>a. case hash_get (Yaml_String a) h of
      Some v \<Rightarrow> [(Yaml_String a, w a v)] | None \<Rightarrow> []) al)"
proof -
  let ?one = "\<lambda>a. case hash_get (Yaml_String a) h of Some v \<Rightarrow> [(Yaml_String a, w a v)] | None \<Rightarrow> []"
  have "fold (\<lambda>a s. case hash_get (Yaml_String a) h of
          Some v \<Rightarrow> hash_insert (Yaml_String a) (w a v) s | None \<Rightarrow> s) as acc = acc @ concat (map ?one as)"
    if "distinct as" "fst ` set acc \<inter> Yaml_String ` set as = {}" for as acc
    using that
  proof (induction as arbitrary: acc)
    case (Cons a as)
    show ?case
    proof (cases "hash_get (Yaml_String a) h")
      case None
      with Cons show ?thesis by simp
    next
      case (Some v)
      have "hash_insert (Yaml_String a) (w a v) acc = acc @ [(Yaml_String a, w a v)]"
        using Cons.prems(2) by (intro hash_insert_new) auto
      moreover have "fst ` set (acc @ [(Yaml_String a, w a v)]) \<inter> Yaml_String ` set as = {}"
        using Cons.prems by auto
      ultimately show ?thesis using Cons.IH[of "acc @ [(Yaml_String a, w a v)]"] Cons.prems(1) Some by simp
    qed
  qed simp
  from this[of al "[]"] assms show ?thesis by (simp add: sanitize_values_def)
qed

lemma sanitize_entry_values: "sanitize_entry al = sanitize_values al (\<lambda>_ v. v)"
  by (auto simp: sanitize_entry_def sanitize_values_def)

lemma sanitize_values_get:
  assumes "distinct al"
  shows "hash_get (Yaml_String a) (sanitize_values al w h) =
    (if a \<in> set al then map_option (w a) (hash_get (Yaml_String a) h) else None)"
  unfolding sanitize_entry_list[OF assms]
  by (induction al) (auto simp: hash_get_append hash_get_def[of _ "[]"] hash_get_def[of _ "[_]"] split: option.splits)

lemma sanitize_values_twice:
  assumes "distinct al"
    and "\<And>a v. a \<in> set al \<Longrightarrow> hash_get (Yaml_String a) h = Some v \<Longrightarrow> w a (w a v) = w a v"
  shows "sanitize_values al w (sanitize_values al w h) = sanitize_values al w h"
  unfolding sanitize_entry_list[OF assms(1), of w "sanitize_values al w h"]
  unfolding sanitize_entry_list[OF assms(1), of w h]
  using assms(2) by (intro arg_cong[where f = concat] map_cong refl)
    (simp add: sanitize_values_get[OF assms(1), unfolded sanitize_entry_list[OF assms(1)]] split: option.split)

lemma sanitize_values_steady:
  "distinct al \<Longrightarrow> (\<And>a v. a \<in> set al \<Longrightarrow> w a (w a v) = w a v) \<Longrightarrow> steady (sanitize_values al w)"
  unfolding steady_def by (simp add: sanitize_values_twice)

lemma fields_steady:
  assumes "distinct al" "distinct (map fst us)" "\<And>u. u \<in> set us \<Longrightarrow> steady_update (snd u)"
  shows "steady (\<lambda>h. fold update_field us (sanitize_entry al h))"
  unfolding steady_def
proof
  fix h
  let ?s = "sanitize_entry al h"
  let ?g = "fold update_field us ?s"
  let ?M = "moved_fields us ?s"
  have get: "hash_get (Yaml_String a) (sanitize_entry al g) = (if a \<in> set al then hash_get (Yaml_String a) g else None)"
    for a g by (simp add: sanitize_entry_values sanitize_values_get[OF assms(1)] option.map_ident)
  have g_get: "hash_get (Yaml_String a) (sanitize_entry al ?g) = hash_get (Yaml_String a) ?g" for a
  proof (cases "a \<in> set al")
    case False
    then have s: "hash_get (Yaml_String a) ?s = None" by (simp add: get)
    have "hash_get (Yaml_String a) ?M = None"
    proof (cases "\<exists>u \<in> set us. fst u = a")
      case True
      then obtain u where "u \<in> set us" "fst u = a" by blast
      with moved_get[OF assms(2), of u ?s] s show ?thesis by simp
    next
      case False
      then have "Yaml_String a \<notin> fst ` set ?M" using moved_fields_keys[of us ?s] by auto
      then show ?thesis by (simp add: hash_get_def map_of_eq_None_iff)
    qed
    with s False show ?thesis by (simp add: get fold_updates_get[OF assms(2)])
  qed (simp add: get)
  have M: "moved_fields us (sanitize_entry al ?g) = ?M"
    by (rule moved_again[OF assms(2,3)]) (simp_all add: g_get)
  have "filter (\<lambda>e. fst e \<notin> fst ` set ?M) (sanitize_entry al ?g) = filter (\<lambda>e. fst e \<notin> fst ` set ?M) ?s"
  proof -
    have keep: "filter (\<lambda>e. fst e \<notin> K) (sanitize_entry al x) = concat (map (\<lambda>a. if Yaml_String a \<in> K then [] else
        (case hash_get (Yaml_String a) x of Some v \<Rightarrow> [(Yaml_String a, v)] | None \<Rightarrow> [])) al)" for K x
      unfolding sanitize_entry_values sanitize_entry_list[OF assms(1)] filter_concat map_map
      by (intro arg_cong[where f = concat] map_cong refl) (auto split: option.split)
    have "hash_get (Yaml_String a) ?g = hash_get (Yaml_String a) h"
      if "a \<in> set al" "Yaml_String a \<notin> fst ` set ?M" for a
    proof -
      have "hash_get (Yaml_String a) ?M = None" using that(2) by (simp add: hash_get_def map_of_eq_None_iff)
      then show ?thesis using that(1) by (simp add: fold_updates_get[OF assms(2)] get)
    qed
    then show ?thesis unfolding keep by (intro arg_cong[where f = concat] map_cong refl) simp
  qed
  then have "fold update_field us (sanitize_entry al ?g) = filter (\<lambda>e. fst e \<notin> fst ` set ?M) ?s @ ?M"
    by (subst fold_updates[OF assms(2)]) (simp only: M)
  also have "\<dots> = ?g" by (rule fold_updates[OF assms(2), symmetric])
  finally show "fold update_field us (sanitize_entry al ?g) = ?g" .
qed

section \<open>Sorted entries\<close>

abbreviation named :: "(string \<times> strict_yaml) list \<Rightarrow> yaml_hash" where
  "named es \<equiv> map (\<lambda>(k, v). (Yaml_String k, v)) es"

lemma insert_sorted_form:
  assumes "sorted (map fst l @ map fst es)" "distinct (map fst l)"
  shows "\<exists>r. fold (\<lambda>(k, v) h. hash_insert (Yaml_String k) v h) es (named l) = named r \<and>
    sorted (map fst r) \<and> distinct (map fst r) \<and> set r \<subseteq> set l \<union> set es"
  using assms
proof (induction es arbitrary: l)
  case Nil
  then show ?case by auto
next
  case (Cons e es)
  obtain k v where e: "e = (k, v)" by force
  let ?l = "filter (\<lambda>x. fst x \<noteq> k) l @ [(k, v)]"
  have ins: "hash_insert (Yaml_String k) v (named l) = named ?l"
    by (induction l) (auto simp: hash_insert_def)
  have "sorted (map fst (filter (\<lambda>x. fst x \<noteq> k) l) @ k # map fst es)"
    using Cons.prems(1) by (auto simp: e sorted_append sorted_filter)
  moreover have "distinct (map fst (filter (\<lambda>x. fst x \<noteq> k) l))"
    using Cons.prems(2) by (simp add: distinct_map_filter)
  ultimately obtain r where "fold (\<lambda>(k, v) h. hash_insert (Yaml_String k) v h) es (named ?l) = named r"
    "sorted (map fst r)" "distinct (map fst r)" "set r \<subseteq> set ?l \<union> set es"
    using Cons.IH[of ?l] by (auto simp: rev_image_eqI)
  then show ?case using ins by (intro exI[of _ r]) (auto simp: e)
qed

lemma sorted_hash_form:
  "\<exists>r. sorted_hash es = named r \<and> sorted (map fst r) \<and> distinct (map fst r) \<and> set r \<subseteq> set es"
  using insert_sorted_form[of "[]" "sort_key fst es"] by (simp add: sorted_hash_def)

lemma sorted_hash_sorted:
  assumes "sorted (map fst r)" "distinct (map fst r)"
  shows "sorted_hash r = named r"
  using assms sync_section.fold_insert_distinct[of r "[]"]
  by (simp add: sorted_hash_def sorted_sort_id sort_key_id_if_sorted)

lemma each_entry_twice:
  assumes "\<And>k g. (Yaml_String k, Yaml_Hash g) \<in> set h \<Longrightarrow> f (f g) = f g"
  shows "each_entry f (each_entry f h) = each_entry f h"
proof -
  obtain r where r: "each_entry f h = named r" "sorted (map fst r)" "distinct (map fst r)"
    and sub: "set r \<subseteq> set (concat (map (kept_entry f) h))"
    using sorted_hash_form unfolding each_entry_def by blast
  have kept: "\<exists>k g. e = (Yaml_String k, Yaml_Hash g) \<and> snd x = Yaml_Hash (f g)"
    if "x \<in> set (kept_entry f e)" for x e
    using that by (cases "(f, e)" rule: kept_entry.cases) auto
  have "kept_entry f (case x of (k, v) \<Rightarrow> (Yaml_String k, v)) = [x]" if x: "x \<in> set r" for x
  proof -
    from x sub obtain e where "e \<in> set h" "x \<in> set (kept_entry f e)" by auto
    with kept obtain k g where "(Yaml_String k, Yaml_Hash g) \<in> set h" "snd x = Yaml_Hash (f g)" by blast
    then show ?thesis using assms by (cases x) simp
  qed
  then have "concat (map (kept_entry f) (named r)) = concat (map (\<lambda>x. [x]) r)"
    unfolding map_map comp_def by (intro arg_cong[where f = concat] map_cong refl)
  then show "each_entry f (each_entry f h) = each_entry f h"
    unfolding r(1) using sorted_hash_sorted[OF r(2,3)] by (simp add: each_entry_def)
qed

lemma each_entry_steady [steadiness]: "steady f \<Longrightarrow> steady (each_entry f)"
  unfolding steady_def by (simp add: each_entry_twice)

lemma on_hash_steady [steadiness]: "steady f \<Longrightarrow> steady_update (on_hash f)"
  by (auto simp: steady_def steady_update_def on_hash_def)

lemma only_hashes_steady: "steady f \<Longrightarrow> only_hashes f (only_hashes f xs) = only_hashes f xs"
  by (induction xs) (auto simp: only_hashes_def steady_def split: option.splits)

lemma on_array_steady [steadiness]: "steady f \<Longrightarrow> steady_update (on_array (only_hashes f))"
  by (auto simp: steady_update_def on_array_def only_hashes_steady)

lemma entry_steady [steadiness]: "distinct al \<Longrightarrow> steady (sanitize_entry al)"
  unfolding sanitize_entry_values by (rule sanitize_values_steady) simp_all

section \<open>The sections\<close>

lemma transform_steady: "steady sanitize_transform_hash"
proof -
  have "steady (\<lambda>h. fold update_field [(''outputs'', on_hash (sanitize_entry allowed_transform_outputs_keys)),
      (''options'', on_hash (sanitize_entry allowed_transform_options_keys))]
      (sanitize_entry allowed_transform_content_keys h))"
    by (rule fields_steady) (auto simp: allowed_transform_outputs_keys_def allowed_transform_options_keys_def
      allowed_transform_content_keys_def intro!: steadiness)
  then have "steady sanitize_transform_content"
    by (simp add: steady_def sanitize_transform_content_def)
  then have "steady (\<lambda>h. fold update_field [(''content'', on_hash sanitize_transform_content)]
      (sanitize_entry allowed_transform_keys h))"
    by (intro fields_steady) (auto simp: allowed_transform_keys_def intro!: steadiness)
  then show ?thesis by (simp add: steady_def sanitize_transform_hash_def)
qed

lemma mark_steady: "steady sanitize_mark_hash"
proof -
  have "steady (\<lambda>h. fold update_field [(''transform'', on_hash sanitize_transform_hash)]
      (sanitize_entry allowed_mark_options_keys h))"
    by (intro fields_steady) (auto simp: allowed_mark_options_keys_def intro!: steadiness transform_steady)
  then have "steady sanitize_mark_options_hash" by (simp add: steady_def sanitize_mark_options_hash_def)
  then have "steady (\<lambda>h. fold update_field [(''options'', on_hash sanitize_mark_options_hash)]
      (sanitize_entry allowed_mark_keys h))"
    by (intro fields_steady) (auto simp: allowed_mark_keys_def intro!: steadiness)
  then show ?thesis by (simp add: steady_def sanitize_mark_hash_def)
qed

lemma charts_steady: "steady sanitize_charts_hash"
proof -
  have marks: "steady_update (on_array sanitize_marks_array)"
    using on_array_steady[OF mark_steady] by (simp add: sanitize_marks_array_def[abs_def])
  have axis: "steady sanitize_axis_hash"
    using entry_steady[of allowed_axis_keys] by (simp add: sanitize_axis_hash_def[abs_def] allowed_axis_keys_def)
  have "steady (\<lambda>h. fold update_field [(''marks'', on_array sanitize_marks_array), (''x'', on_hash sanitize_axis_hash),
      (''y'', on_hash sanitize_axis_hash)] (sanitize_entry allowed_plot_keys h))"
    by (rule fields_steady) (auto simp: allowed_plot_keys_def intro!: marks on_hash_steady axis)
  then have "steady sanitize_plot_hash" by (simp add: steady_def sanitize_plot_hash_def)
  then have plots: "steady sanitize_plots_hash"
    using each_entry_steady by (simp add: sanitize_plots_hash_def[abs_def])
  have metrics: "steady_update (on_array sanitize_metrics_array)"
    using on_array_steady[OF entry_steady[of allowed_metric_keys]]
    by (simp add: sanitize_metrics_array_def[abs_def] allowed_metric_keys_def)
  have "steady (\<lambda>h. fold update_field [(''plots'', on_hash sanitize_plots_hash), (''metrics'', on_array sanitize_metrics_array)]
      (sanitize_entry allowed_chart_keys h))"
    by (rule fields_steady) (auto simp: allowed_chart_keys_def intro!: metrics on_hash_steady plots)
  then have "steady sanitize_chart_hash" by (simp add: steady_def sanitize_chart_hash_def)
  then show ?thesis using each_entry_steady by (simp add: sanitize_charts_hash_def[abs_def])
qed

lemma orders_steady: "steady (each_entry (sanitize_values allowed_order_keys sanitize_order_field))"
proof (intro each_entry_steady sanitize_values_steady)
  fix a v
  have "steady (sanitize_entry allowed_order_io_keys)" by (rule entry_steady) (simp add: allowed_order_io_keys_def)
  then show "sanitize_order_field a (sanitize_order_field a v) = sanitize_order_field a v"
    by (cases v) (auto simp: sanitize_order_field_def only_hashes_steady)
qed (simp add: allowed_order_keys_def)

lemma builder_steady: "steady (sanitize_values allowed_order_builder_keys sanitize_builder_field)"
proof (rule sanitize_values_steady)
  fix a v
  have "steady (each_entry (sanitize_entry allowed_order_builder_deployment_keys))"
    by (intro each_entry_steady entry_steady) (simp add: allowed_order_builder_deployment_keys_def)
  then show "sanitize_builder_field a (sanitize_builder_field a v) = sanitize_builder_field a v"
    by (cases v) (auto simp: sanitize_builder_field_def steady_def)
qed (simp add: allowed_order_builder_keys_def)

definition scenario_field :: "string \<Rightarrow> strict_yaml \<Rightarrow> strict_yaml" where
  "scenario_field a v = (if a = ''scenarios'' then (case v of
      Yaml_Hash nested \<Rightarrow> Yaml_Hash (each_entry sanitize_scenario_hash nested) | _ \<Rightarrow> v) else v)"

lemma sanitize_scenario_values:
  "sanitize_scenario_hash h = sanitize_values allowed_scenario_keys scenario_field h"
  unfolding sanitize_scenario_hash.simps[of h] sanitize_values_def scenario_field_def each_entry_def ..

lemma scenario_steady: "steady sanitize_scenario_hash"
proof -
  have "sanitize_scenario_hash (sanitize_scenario_hash h) = sanitize_scenario_hash h" for h
  proof (induction "size_list (size_prod size size) h" arbitrary: h rule: less_induct)
    case less
    have "scenario_field a (scenario_field a v) = scenario_field a v" if v: "hash_get (Yaml_String a) h = Some v" for a v
    proof (cases "\<exists>nested. v = Yaml_Hash nested")
      case True
      then obtain nested where nested: "v = Yaml_Hash nested" by blast
      have "each_entry sanitize_scenario_hash (each_entry sanitize_scenario_hash nested) =
          each_entry sanitize_scenario_hash nested"
      proof (rule each_entry_twice, rule less)
        fix k g
        assume "(Yaml_String k, Yaml_Hash g) \<in> set nested"
        then have "size_prod size size (Yaml_String k, Yaml_Hash g) \<le> size_list (size_prod size size) nested"
          by (rule size_list_estimation'[OF _ order_refl])
        moreover have "size_list (size_prod size size) nested < size v" by (simp add: nested)
        ultimately show "size_list (size_prod size size) g < size_list (size_prod size size) h"
          using hash_get_size[OF v] by simp
      qed
      then show ?thesis by (simp add: scenario_field_def nested)
    next
      case False
      then show ?thesis by (cases v) (simp_all add: scenario_field_def)
    qed
    then show ?case unfolding sanitize_scenario_values
      by (intro sanitize_values_twice) (auto simp: allowed_scenario_keys_def)
  qed
  then show ?thesis by (simp add: steady_def)
qed

section \<open>All sections together\<close>

definition section_updates :: "field_update list" where
  "section_updates = [(''charts'', on_hash sanitize_charts_hash),
     (''rainlangs'', on_hash (each_entry (sanitize_entry allowed_rainlang_keys))),
     (''deployments'', on_hash (each_entry (sanitize_entry allowed_deployment_keys))),
     (''builder'', on_hash (sanitize_values allowed_order_builder_keys sanitize_builder_field)),
     (''local-db-sync'', on_hash (each_entry (sanitize_entry allowed_local_db_sync_keys))),
     (''networks'', on_hash (each_entry (sanitize_entry allowed_network_keys))),
     (''orders'', on_hash (each_entry (sanitize_values allowed_order_keys sanitize_order_field))),
     (''raindexes'', on_hash (each_entry (sanitize_entry allowed_raindex_keys))),
     (''using-networks-from'', on_hash (each_entry (sanitize_entry allowed_remote_networks_keys))),
     (''scenarios'', on_hash (each_entry sanitize_scenario_hash)),
     (''tokens'', on_hash (each_entry (sanitize_entry allowed_token_keys)))]"

lemma on_section_hash: "on_section n f (Yaml_Hash h) = Yaml_Hash (update_field (n, on_hash f) h)"
  by (auto simp: on_section_def update_field_def on_hash_def split: option.splits strict_yaml.splits)

lemma sanitize_document_section: "sanitize_document n al = on_section n (each_entry (sanitize_entry al))"
proof -
  have "sanitized_entry al e = kept_entry (sanitize_entry al) e" for e
    by (cases "(al, e)" rule: sanitized_entry.cases) auto
  then have eq: "sanitized_entry al = kept_entry (sanitize_entry al)" by (rule ext)
  have "sanitize_hash al = each_entry (sanitize_entry al)"
    by (rule ext) (simp only: sanitize_hash_def each_entry_def sorted_hash_def eq)
  then show ?thesis by (intro ext) (simp only: sanitize_document_def on_section_def)
qed

definition sanitize_all :: "strict_yaml \<Rightarrow> strict_yaml" where
  "sanitize_all doc = (case doc of Yaml_Hash h \<Rightarrow> Yaml_Hash (fold update_field section_updates h) | _ \<Rightarrow> doc)"

lemma sanitize_all_documents_map: "sanitize_all_documents docs = map sanitize_all docs"
proof -
  have none: "on_section n f v = v" if "as_hash v = None" for n f v
    using that by (cases v) (simp_all add: on_section_def)
  have "on_section ''tokens'' (each_entry (sanitize_entry allowed_token_keys))
      (on_section ''scenarios'' (each_entry sanitize_scenario_hash)
      (on_section ''using-networks-from'' (each_entry (sanitize_entry allowed_remote_networks_keys))
      (on_section ''raindexes'' (each_entry (sanitize_entry allowed_raindex_keys))
      (on_section ''orders'' (each_entry (sanitize_values allowed_order_keys sanitize_order_field))
      (on_section ''networks'' (each_entry (sanitize_entry allowed_network_keys))
      (on_section ''local-db-sync'' (each_entry (sanitize_entry allowed_local_db_sync_keys))
      (on_section ''builder'' (sanitize_values allowed_order_builder_keys sanitize_builder_field)
      (on_section ''deployments'' (each_entry (sanitize_entry allowed_deployment_keys))
      (on_section ''rainlangs'' (each_entry (sanitize_entry allowed_rainlang_keys))
      (on_section ''charts'' sanitize_charts_hash d)))))))))) = sanitize_all d" for d
    by (cases d) (simp_all add: none sanitize_all_def section_updates_def on_section_hash)
  then show ?thesis
    by (simp add: sanitize_all_documents_def sanitize_tokens_def sanitize_scenarios_def sanitize_remote_networks_def
        sanitize_raindexes_def sanitize_orders_def sanitize_networks_def sanitize_syncs_def sanitize_builder_def
        sanitize_deployments_def sanitize_rainlangs_def sanitize_charts_def sanitize_document_section)
qed

lemma section_updates_distinct: "distinct (map fst section_updates)"
  by (simp add: section_updates_def)

lemma section_updates_steady: "u \<in> set section_updates \<Longrightarrow> steady_update (snd u)"
  by (auto simp: section_updates_def allowed_rainlang_keys_def allowed_deployment_keys_def allowed_local_db_sync_keys_def
      allowed_network_keys_def allowed_raindex_keys_def allowed_remote_networks_keys_def allowed_token_keys_def
      intro!: steadiness charts_steady builder_steady orders_steady[THEN on_hash_steady] scenario_steady)

lemma sanitize_all_twice: "sanitize_all (sanitize_all d) = sanitize_all d"
  using updates_steady[OF section_updates_distinct section_updates_steady]
  by (cases d) (simp_all add: sanitize_all_def)

section \<open>The form of a sanitised section\<close>

text \<open>
  What the flat sections and the orders are reduced to, without the sanitisers: of an entry the known
  fields it has, in the order of the list here, and of an order's inputs and outputs the hashes only, with
  their token and vault id. The entries that are hashes under a string name stay, sorted by name.
\<close>

definition picked :: "string list \<Rightarrow> yaml_hash \<Rightarrow> yaml_hash" where
  "picked known h = concat (map (\<lambda>field. case hash_get (Yaml_String field) h of
     Some v \<Rightarrow> [(Yaml_String field, v)] | None \<Rightarrow> []) known)"

fun picked_ios :: "strict_yaml \<Rightarrow> strict_yaml" where
  "picked_ios (Yaml_Array ios) = Yaml_Array (concat (map (\<lambda>io. case as_hash io of
     Some h \<Rightarrow> [Yaml_Hash (picked [''token'', ''vault-id''] h)] | None \<Rightarrow> []) ios))"
| "picked_ios v = v"

definition picked_order :: "yaml_hash \<Rightarrow> yaml_hash" where
  "picked_order h =
     map (\<lambda>(field, v). (field, if field \<in> {Yaml_String ''inputs'', Yaml_String ''outputs''} then picked_ios v else v))
       (picked [''inputs'', ''oracle-url'', ''raindex'', ''outputs'', ''rainlang''] h)"

definition reduced_sections :: "(string \<times> (yaml_hash \<Rightarrow> yaml_hash)) list" where
  "reduced_sections =
     [(''networks'', picked [''rpcs'', ''chain-id'', ''label'', ''network-id'', ''currency'']),
      (''tokens'', picked [''address'', ''decimals'', ''label'', ''network'', ''symbol'']),
      (''raindexes'', picked [''address'', ''deployment-block'', ''label'', ''local-db-remote'', ''network'', ''subgraph'']),
      (''rainlangs'', picked [''address'', ''network'']),
      (''using-networks-from'', picked [''format'', ''url'']),
      (''local-db-sync'', picked [''batch-size'', ''bootstrap-block-threshold'', ''finality-depth'',
         ''max-concurrent-batches'', ''rate-limit-delay-ms'', ''retry-attempts'', ''retry-delay-ms'',
         ''sync-interval-ms'']),
      (''deployments'', picked [''scenario'', ''order'']),
      (''orders'', picked_order)]"

definition sanitized_names :: "string list" where
  "sanitized_names = map fst reduced_sections @ [''scenarios'', ''charts'', ''builder'']"

definition entries_reduced :: "(yaml_hash \<Rightarrow> yaml_hash) \<Rightarrow> yaml_hash \<Rightarrow> yaml_hash \<Rightarrow> bool" where
  "entries_reduced f h h' \<longleftrightarrow>
     (\<exists>es. h' = map (\<lambda>(name, fields). (Yaml_String name, Yaml_Hash (f fields))) es \<and>
        sorted (map fst es) \<and> distinct (map fst es) \<and>
        set es = {(name, fields). (Yaml_String name, Yaml_Hash fields) \<in> set h})"

definition section_reduced :: "string \<times> (yaml_hash \<Rightarrow> yaml_hash) \<Rightarrow> strict_yaml \<Rightarrow> strict_yaml \<Rightarrow> bool" where
  \<comment> \<open>the names of a section are distinct, as the keys of any linked hash map\<close>
  "section_reduced sec before after =
     (case yaml_index before (fst sec) of
        Yaml_Hash h \<Rightarrow> distinct (map fst h) \<longrightarrow>
          (\<exists>h'. yaml_index after (fst sec) = Yaml_Hash h' \<and> entries_reduced (snd sec) h h')
      | v \<Rightarrow> yaml_index after (fst sec) = v)"

fun hash_entry :: "strict_yaml \<times> strict_yaml \<Rightarrow> (string \<times> yaml_hash) list" where
  "hash_entry (Yaml_String k, Yaml_Hash h) = [(k, h)]"
| "hash_entry _ = []"

lemma kept_hash_entry: "kept_entry f e = map (\<lambda>(name, fields). (name, Yaml_Hash (f fields))) (hash_entry e)"
  by (cases e rule: hash_entry.cases) auto

lemma hash_entry_in: "x \<in> set (hash_entry e) \<longleftrightarrow> e = (Yaml_String (fst x), Yaml_Hash (snd x))"
  by (cases e rule: hash_entry.cases) auto

lemma hash_entries_distinct:
  assumes "distinct (map fst h)"
  shows "distinct (map fst (concat (map hash_entry h)))"
  using assms
proof (induction h)
  case (Cons e h)
  have "fst x \<noteq> fst y" if "x \<in> set (hash_entry e)" "y \<in> set (concat (map hash_entry h))" for x y
  proof
    assume same: "fst x = fst y"
    have "fst e = Yaml_String (fst x)" using that(1) by (simp add: hash_entry_in)
    moreover have "Yaml_String (fst y) \<in> fst ` set h" using that(2) by (force simp: hash_entry_in)
    ultimately show False using same Cons.prems by simp
  qed
  moreover have "distinct (map fst (hash_entry e))" by (cases e rule: hash_entry.cases) auto
  ultimately show ?case using Cons by fastforce
qed simp

lemma each_entry_reduced:
  assumes "distinct (map fst h)"
  shows "entries_reduced f h (each_entry f h)"
proof -
  let ?g = "\<lambda>(name, fields). (name, Yaml_Hash (f fields))"
  let ?es = "sort_key fst (concat (map hash_entry h))"
  have fst_g: "fst (?g x) = fst x" for x :: "string \<times> yaml_hash" by (cases x) simp
  have sorted_map: "sort_key fst (map ?g xs) = map ?g (sort_key fst xs)" for xs :: "(string \<times> yaml_hash) list"
  proof (induction xs)
    case (Cons x xs)
    have "insort_key fst (?g x) (map ?g ys) = map ?g (insort_key fst x ys)" for ys
      by (induction ys) (simp_all add: fst_g)
    with Cons show ?case by simp
  qed simp
  have "distinct (map fst (concat (map hash_entry h)))" by (rule hash_entries_distinct[OF assms])
  then have dist: "distinct (map fst ?es)"
    by (metis distinct_map distinct_sort set_sort)
  have kept: "concat (map (kept_entry f) h) = map ?g (concat (map hash_entry h))"
    by (simp add: kept_hash_entry[abs_def] map_concat comp_def)
  have "sorted_hash (map ?g (concat (map hash_entry h))) = named (map ?g ?es)"
  proof -
    have "distinct (map fst (map ?g ?es))" using dist by (simp add: comp_def fst_g)
    then show ?thesis
      using sync_section.fold_insert_distinct[of "map ?g ?es" "[]"] by (simp add: sorted_hash_def sorted_map)
  qed
  then have "each_entry f h = map (\<lambda>(name, fields). (Yaml_String name, Yaml_Hash (f fields))) ?es"
    unfolding each_entry_def kept by (simp add: case_prod_beta comp_def)
  moreover have "set ?es = {(name, fields). (Yaml_String name, Yaml_Hash fields) \<in> set h}"
    by (force simp: hash_entry_in)
  moreover have "sorted (map fst ?es)" by (rule sorted_sort_key)
  ultimately show ?thesis using dist unfolding entries_reduced_def by blast
qed

lemma sanitize_entry_picked: "distinct al \<Longrightarrow> sanitize_entry al = picked al"
  by (intro ext) (simp add: sanitize_entry_values sanitize_entry_list picked_def)

lemma sanitize_order_picked: "sanitize_values allowed_order_keys sanitize_order_field = picked_order"
proof
  fix h
  have "sanitize_order_field a v = (if a \<in> {''inputs'', ''outputs''} then picked_ios v else v)" for a v
    by (cases v) (simp_all add: sanitize_order_field_def only_hashes_def allowed_order_io_keys_def sanitize_entry_picked)
  then show "sanitize_values allowed_order_keys sanitize_order_field h = picked_order h"
    by (simp add: sanitize_entry_list allowed_order_keys_def picked_order_def picked_def split: option.split)
qed

lemma reduced_update:
  assumes "sec \<in> set reduced_sections"
  shows "(fst sec, on_hash (each_entry (snd sec))) \<in> set section_updates"
proof -
  have "map (\<lambda>(s, f). (s, on_hash (each_entry f))) reduced_sections =
    [(''networks'', on_hash (each_entry (sanitize_entry allowed_network_keys))),
     (''tokens'', on_hash (each_entry (sanitize_entry allowed_token_keys))),
     (''raindexes'', on_hash (each_entry (sanitize_entry allowed_raindex_keys))),
     (''rainlangs'', on_hash (each_entry (sanitize_entry allowed_rainlang_keys))),
     (''using-networks-from'', on_hash (each_entry (sanitize_entry allowed_remote_networks_keys))),
     (''local-db-sync'', on_hash (each_entry (sanitize_entry allowed_local_db_sync_keys))),
     (''deployments'', on_hash (each_entry (sanitize_entry allowed_deployment_keys))),
     (''orders'', on_hash (each_entry (sanitize_values allowed_order_keys sanitize_order_field)))]"
    by (simp add: reduced_sections_def sanitize_order_picked sanitize_entry_picked allowed_network_keys_def
        allowed_token_keys_def allowed_raindex_keys_def allowed_rainlang_keys_def allowed_remote_networks_keys_def
        allowed_local_db_sync_keys_def allowed_deployment_keys_def)
  also have "set \<dots> \<subseteq> set section_updates" by (simp add: section_updates_def)
  finally have "(\<lambda>(s, f). (s, on_hash (each_entry f))) ` set reduced_sections \<subseteq> set section_updates" by simp
  moreover have "(\<lambda>(s, f). (s, on_hash (each_entry f))) sec \<in> (\<lambda>(s, f). (s, on_hash (each_entry f))) ` set reduced_sections"
    using assms by (rule imageI)
  ultimately show ?thesis by (simp add: case_prod_beta subset_iff)
qed

lemma sanitize_all_index:
  "yaml_index (sanitize_all d) s = (case as_hash d of None \<Rightarrow> Bad_Value
     | Some h \<Rightarrow> (case hash_get (Yaml_String s) (fold update_field section_updates h) of None \<Rightarrow> Bad_Value | Some v \<Rightarrow> v))"
  by (cases d) (simp_all add: sanitize_all_def yaml_index_def)

lemma untouched_section:
  assumes "s \<notin> fst ` set section_updates"
  shows "yaml_index (sanitize_all d) s = yaml_index d s"
proof -
  have "Yaml_String s \<notin> fst ` set (moved_fields section_updates h)" for h
    using moved_fields_keys[of section_updates h] assms by auto
  then have "hash_get (Yaml_String s) (moved_fields section_updates h) = None" for h
    by (simp add: hash_get_def map_of_eq_None_iff)
  then show ?thesis
    unfolding sanitize_all_index fold_updates_get[OF section_updates_distinct]
    by (simp add: yaml_index_def split: option.split)
qed

lemma sanitize_all_reduces:
  assumes "sec \<in> set reduced_sections"
  shows "section_reduced sec d (sanitize_all d)"
proof (cases d)
  case (Yaml_Hash root)
  note get = moved_get[OF section_updates_distinct reduced_update[OF assms], of root, unfolded fst_conv snd_conv]
  have after: "yaml_index (sanitize_all d) (fst sec) = (case hash_get (Yaml_String (fst sec)) root of
      None \<Rightarrow> Bad_Value | Some (Yaml_Hash h) \<Rightarrow> Yaml_Hash (each_entry (snd sec) h) | Some v \<Rightarrow> v)"
    unfolding sanitize_all_index Yaml_Hash as_hash.simps option.case fold_updates_get[OF section_updates_distinct] get
    by (auto simp: on_hash_def split: option.split strict_yaml.split elim!: as_hash.elims)
  show ?thesis
    using each_entry_reduced[of _ "snd sec"] unfolding section_reduced_def after
    by (auto simp: Yaml_Hash yaml_index_def split: option.split strict_yaml.split)
qed (simp_all add: sanitize_all_def section_reduced_def yaml_index_def)

lemma updated_names: "fst ` set section_updates = set sanitized_names"
  by (auto simp: section_updates_def sanitized_names_def reduced_sections_def)

text \<open>
  Claim C24. What sanitising leaves: in the networks, tokens, raindexes, rainlangs, sources of networks, sync
  settings, deployments and orders exactly the entries that are hashes under a string name, sorted by name,
  each with exactly its known fields, values unchanged (of an order's inputs and outputs the token and
  vault id of each); sections that are not sanitised are as they were; and the sanitised documents are
  their own sanitised form, down to the order of sections, entries and fields, however deep charts
  and scenarios are nested.
\<close>
theorem sanitized_form:
  "list_all2 (\<lambda>before after. list_all (\<lambda>sec. section_reduced sec before after) reduced_sections \<and>
       (\<forall>s. s \<notin> set sanitized_names \<longrightarrow> yaml_index after s = yaml_index before s))
     docs (sanitize_all_documents docs) \<and>
   sanitize_all_documents (sanitize_all_documents docs) = sanitize_all_documents docs"
  using sanitize_all_reduces untouched_section[unfolded updated_names]
  by (simp add: sanitize_all_documents_map sanitize_all_twice list_all2_map2 list_all_iff list.rel_refl)

definition spare_document :: strict_yaml where
  "spare_document = Yaml_Hash
     [(Yaml_String ''rainlangs'', Yaml_Hash
        [(Yaml_String ''b'', Yaml_Hash [(Yaml_String ''note'', Yaml_String ''x''), (Yaml_String ''address'', Yaml_String ''0x2'')]),
         (Yaml_String ''a'', Yaml_Hash [(Yaml_String ''network'', Yaml_String ''base''), (Yaml_String ''address'', Yaml_String ''0x1'')])]),
      (Yaml_String ''version'', Yaml_String ''6'')]"

theorem sanitized_form_witness:
  "\<exists>es. yaml_index (hd (sanitize_all_documents [spare_document])) ''rainlangs'' =
       Yaml_Hash (map (\<lambda>(name, fields). (Yaml_String name, Yaml_Hash (picked [''address'', ''network''] fields))) es) \<and>
     sorted (map fst es) \<and> set (map fst es) = {''a'', ''b''} \<and>
     yaml_index (hd (sanitize_all_documents [spare_document])) ''version'' = Yaml_String ''6''"
proof -
  let ?rl = "[(Yaml_String ''b'', Yaml_Hash [(Yaml_String ''note'', Yaml_String ''x''), (Yaml_String ''address'', Yaml_String ''0x2'')]),
     (Yaml_String ''a'', Yaml_Hash [(Yaml_String ''network'', Yaml_String ''base''), (Yaml_String ''address'', Yaml_String ''0x1'')])]"
  obtain after where after: "sanitize_all_documents [spare_document] = [after]"
    by (simp add: sanitize_all_documents_map)
  have before: "yaml_index spare_document ''rainlangs'' = Yaml_Hash ?rl"
    "yaml_index spare_document ''version'' = Yaml_String ''6''"
    by (simp_all add: spare_document_def yaml_index_def hash_get_def)
  have form: "\<forall>sec\<in>set reduced_sections. section_reduced sec spare_document after"
    "\<forall>s. s \<notin> set sanitized_names \<longrightarrow> yaml_index after s = yaml_index spare_document s"
    using sanitized_form[of "[spare_document]"] by (simp_all add: after list_all_iff)
  have "section_reduced (''rainlangs'', picked [''address'', ''network'']) spare_document after"
    by (rule form(1)[rule_format]) (simp add: reduced_sections_def)
  moreover have "distinct (map fst ?rl)" by simp
  ultimately obtain es where es: "yaml_index after ''rainlangs'' =
       Yaml_Hash (map (\<lambda>(name, fields). (Yaml_String name, Yaml_Hash (picked [''address'', ''network''] fields))) es)"
      "sorted (map fst es)" "set es = {(name, fields). (Yaml_String name, Yaml_Hash fields) \<in> set ?rl}"
    unfolding section_reduced_def fst_conv snd_conv before(1) strict_yaml.case entries_reduced_def by blast
  moreover have "yaml_index after ''version'' = Yaml_String ''6''"
    using form(2) before(2) by (simp add: sanitized_names_def reduced_sections_def)
  moreover have "set (map fst es) = {''a'', ''b''}"
  proof -
    have "x \<in> set es \<Longrightarrow> fst x \<in> {''a'', ''b''}" for x
      unfolding es(3) by (cases x) (simp, blast)
    moreover have "(''a'', [(Yaml_String ''network'', Yaml_String ''base''), (Yaml_String ''address'', Yaml_String ''0x1'')]) \<in> set es"
      "(''b'', [(Yaml_String ''note'', Yaml_String ''x''), (Yaml_String ''address'', Yaml_String ''0x2'')]) \<in> set es"
      unfolding es(3) by simp_all
    ultimately show ?thesis by (force simp: image_iff)
  qed
  ultimately show ?thesis unfolding after list.sel by blast
qed

section \<open>What is parsed stays the same\<close>

lemma sanitized_section:
  assumes "(s, on_hash (each_entry (sanitize_entry al))) \<in> set section_updates"
  shows "section_entries s (sanitize_all d) = section_entries s (sanitize_document s al d)"
proof (cases d)
  case (Yaml_Hash h)
  note get = moved_get[OF section_updates_distinct assms, of h, unfolded fst_conv snd_conv]
  show ?thesis
    by (auto simp: section_entries_def optional_hash_def sanitize_all_def sanitize_document_section on_section_hash
        Yaml_Hash fold_updates_get[OF section_updates_distinct] get update_field_def on_hash_def
        split: option.splits elim!: as_hash.elims)
qed (simp_all add: sanitize_all_def sanitize_document_def)

lemma sanitized_entries_all:
  assumes "(s, on_hash (each_entry (sanitize_entry al))) \<in> set section_updates"
  shows "all_entries s (sanitize_all_documents docs) = all_entries s (map (sanitize_document s al) docs)"
  using sanitized_section[OF assms] by (simp add: sanitize_all_documents_map comp_def)

lemma untouched_entries:
  assumes "s \<notin> fst ` set section_updates"
  shows "all_entries s (sanitize_all_documents docs) = all_entries s docs"
  using section_entries_cong[OF untouched_section[OF assms]] by (simp add: sanitize_all_documents_map comp_def)

definition kept :: "('a, 'e) result \<Rightarrow> ('a, 'e) result \<Rightarrow> bool" where
  "kept before after \<longleftrightarrow> (is_ok before \<longrightarrow> after = before)"

lemma keptI: "(\<And>x. r = Ok x \<Longrightarrow> r' = Ok x) \<Longrightarrow> kept r r'"
  by (cases r) (auto simp: kept_def)

lemma section_names:
  "''subgraphs'' \<notin> fst ` set section_updates" "''metaboards'' \<notin> fst ` set section_updates"
  "''local-db-remotes'' \<notin> fst ` set section_updates"
  by (simp_all add: section_updates_def)

lemma sanitized_networks:
  assumes "string_keyed ''networks'' docs" "parse_all_networks T remote docs = Ok networks"
  shows "parse_all_networks T remote (sanitize_all_documents docs) = Ok networks"
proof -
  have "all_entries ''networks'' (sanitize_all_documents docs) = all_entries ''networks'' (sanitize_networks docs)"
    unfolding sanitize_networks_def by (rule sanitized_entries_all) (simp add: section_updates_def)
  then have "parse_all_networks T remote (sanitize_all_documents docs) = parse_all_networks T remote (sanitize_networks docs)"
    by (rule networks_same_section)
  then show ?thesis using sanitize_keeps_networks[OF assms] by simp
qed

lemma sanitized_syncs:
  assumes "parse_all_syncs docs = Ok syncs"
  shows "parse_all_syncs (sanitize_all_documents docs) = Ok syncs"
proof -
  have "all_entries ''local-db-sync'' (sanitize_all_documents docs) = all_entries ''local-db-sync'' (sanitize_syncs docs)"
    unfolding sanitize_syncs_def by (rule sanitized_entries_all) (simp add: section_updates_def)
  then show ?thesis using sanitize_keeps_syncs[OF assms]
    by (simp add: parse_all_syncs_def parse_sync_documents_entries)
qed

lemma untouched_subgraphs: "parse_all_subgraphs T (sanitize_all_documents docs) = parse_all_subgraphs T docs"
  by (simp only: parse_all_subgraphs_def collect_documents_entries untouched_entries[OF section_names(1)])

lemma untouched_metaboards: "parse_all_metaboards T (sanitize_all_documents docs) = parse_all_metaboards T docs"
  by (simp only: parse_all_metaboards_def collect_documents_entries untouched_entries[OF section_names(2)])

lemma untouched_remotes: "parse_all_remotes T (sanitize_all_documents docs) = parse_all_remotes T docs"
proof -
  have "optional_hash (sanitize_all d) ''local-db-remotes'' = optional_hash d ''local-db-remotes''" for d
    by (simp add: optional_hash_def untouched_section[OF section_names(3)])
  then have "parse_remote_documents T (map sanitize_all docs) st = parse_remote_documents T docs st" for st
    by (induction docs arbitrary: st) (auto intro: rbind_cong)
  then show ?thesis by (simp add: parse_all_remotes_def sanitize_all_documents_map)
qed

lemma sanitized_raindexes:
  assumes "string_keyed ''networks'' docs" "string_keyed ''raindexes'' docs"
    and "parse_all_raindexes T remote docs = Ok raindexes"
  shows "parse_all_raindexes T remote (sanitize_all_documents docs) = Ok raindexes"
proof -
  from assms(3) obtain n s r where n: "parse_all_networks T remote docs = Ok n"
    and s: "parse_all_subgraphs T docs = Ok s" "parse_all_remotes T docs = Ok r"
    and c: "collect_documents ''raindexes'' None (parse_raindex T n s r) docs Map.empty = Ok raindexes"
    and req: "required ''raindexes'' raindexes = Ok raindexes"
    by (auto simp: parse_all_raindexes_def required_def ok_iff split: if_splits)
  have "all_entries ''raindexes'' (sanitize_all_documents docs) = all_entries ''raindexes'' (sanitize_raindexes docs)"
    unfolding sanitize_raindexes_def by (rule sanitized_entries_all) (simp add: section_updates_def)
  moreover have "collect_documents ''raindexes'' None (parse_raindex T n s r) (sanitize_raindexes docs) Map.empty = Ok raindexes"
    unfolding sanitize_raindexes_def by (rule raindex_section.sanitize_keeps[OF assms(2) c])
  ultimately have "collect_documents ''raindexes'' None (parse_raindex T n s r) (sanitize_all_documents docs) Map.empty = Ok raindexes"
    by (simp add: collect_documents_entries)
  then show ?thesis using sanitized_networks[OF assms(1) n] s req
    by (simp add: parse_all_raindexes_def untouched_subgraphs untouched_remotes)
qed

lemma sanitized_rainlangs:
  assumes "string_keyed ''networks'' docs" "string_keyed ''rainlangs'' docs"
    and "parse_all_rainlangs T remote docs = Ok rainlangs"
  shows "parse_all_rainlangs T remote (sanitize_all_documents docs) = Ok rainlangs"
proof -
  from assms(3) obtain n where n: "parse_all_networks T remote docs = Ok n"
    and c: "collect_documents ''rainlangs'' None (parse_rainlang T n) docs Map.empty = Ok rainlangs"
    and req: "required ''rainlangs'' rainlangs = Ok rainlangs"
    by (auto simp: parse_all_rainlangs_def required_def ok_iff split: if_splits)
  have "all_entries ''rainlangs'' (sanitize_all_documents docs) = all_entries ''rainlangs'' (sanitize_rainlangs docs)"
    unfolding sanitize_rainlangs_def by (rule sanitized_entries_all) (simp add: section_updates_def)
  moreover have "collect_documents ''rainlangs'' None (parse_rainlang T n) (sanitize_rainlangs docs) Map.empty = Ok rainlangs"
    unfolding sanitize_rainlangs_def by (rule rainlang_section.sanitize_keeps[OF assms(2) c])
  ultimately have "collect_documents ''rainlangs'' None (parse_rainlang T n) (sanitize_all_documents docs) Map.empty = Ok rainlangs"
    by (simp add: collect_documents_entries)
  then show ?thesis using sanitized_networks[OF assms(1) n] req by (simp add: parse_all_rainlangs_def)
qed

lemma sanitized_sources:
  assumes "string_keyed ''using-networks-from'' docs" "parse_all_remote_networks T docs = Ok sources"
  shows "parse_all_remote_networks T (sanitize_all_documents docs) = Ok sources"
proof -
  have "all_entries ''using-networks-from'' (sanitize_all_documents docs) =
      all_entries ''using-networks-from'' (sanitize_remote_networks docs)"
    unfolding sanitize_remote_networks_def by (rule sanitized_entries_all) (simp add: section_updates_def)
  moreover have "parse_all_remote_networks T (sanitize_remote_networks docs) = Ok sources"
    using remote_networks_section.sanitize_keeps[OF assms(1) assms(2)[unfolded parse_all_remote_networks_def]]
    by (simp add: parse_all_remote_networks_def sanitize_remote_networks_def)
  ultimately show ?thesis by (simp add: parse_all_remote_networks_def collect_documents_entries)
qed

lemma sanitized_tokens:
  assumes "string_keyed ''networks'' docs" "string_keyed ''tokens'' docs"
    and "parse_all_networks T remote docs = Ok networks" "local_tokens T networks docs = Ok tokens"
  shows "local_tokens T networks (sanitize_all_documents docs) = Ok (\<lambda>k. map_option without_logo (tokens k))"
proof -
  have "all_entries ''tokens'' (sanitize_all_documents docs) = all_entries ''tokens'' (sanitize_tokens docs)"
    unfolding sanitize_tokens_def by (rule sanitized_entries_all) (simp add: section_updates_def)
  then show ?thesis using sanitize_drops_logos[OF assms(2,4)] by (simp add: local_tokens_entries)
qed

definition named_sections :: "string list" where
  "named_sections = [''networks'', ''raindexes'', ''rainlangs'', ''using-networks-from'', ''tokens'']"

text \<open>
  Claim C25. Sanitising does not change the configuration: whatever parsed before parses to the same after
  all sections were sanitised, for the networks, the sources of remote networks, the sync settings, the
  raindexes and the rainlangs; subgraphs, metaboards and remotes of the local database are read alike in
  any case, and the local tokens are the same but for their logos, which the sanitiser drops. (The names in
  the sections have to be strings. Nothing is said of orders, scenarios, deployments, charts and the
  builder: the order of scenarios, for one, decides whether they are accepted.)
\<close>
theorem sanitize_keeps_configuration:
  assumes "list_all (\<lambda>s. string_keyed s docs) named_sections" and "docs' = sanitize_all_documents docs"
  shows "kept (parse_all_networks T remote docs) (parse_all_networks T remote docs') \<and>
    kept (parse_all_remote_networks T docs) (parse_all_remote_networks T docs') \<and>
    kept (parse_all_syncs docs) (parse_all_syncs docs') \<and>
    kept (parse_all_raindexes T remote docs) (parse_all_raindexes T remote docs') \<and>
    kept (parse_all_rainlangs T remote docs) (parse_all_rainlangs T remote docs') \<and>
    parse_all_subgraphs T docs' = parse_all_subgraphs T docs \<and>
    parse_all_metaboards T docs' = parse_all_metaboards T docs \<and>
    parse_all_remotes T docs' = parse_all_remotes T docs \<and>
    (parse_all_networks T remote docs = Ok networks \<and> local_tokens T networks docs = Ok tokens \<longrightarrow>
      local_tokens T networks docs' = Ok (\<lambda>k. map_option without_logo (tokens k)))"
proof -
  have keyed: "string_keyed ''networks'' docs" "string_keyed ''raindexes'' docs" "string_keyed ''rainlangs'' docs"
    "string_keyed ''using-networks-from'' docs" "string_keyed ''tokens'' docs"
    using assms(1) by (simp_all add: named_sections_def)
  show ?thesis unfolding assms(2)
    by (intro conjI keptI impI sanitized_networks[OF keyed(1)] sanitized_sources[OF keyed(4)] sanitized_syncs
        sanitized_raindexes[OF keyed(1,2)] sanitized_rainlangs[OF keyed(1,3)] untouched_subgraphs
        untouched_metaboards untouched_remotes sanitized_tokens[OF keyed(1,5)]) auto
qed

theorem sanitize_keeps_configuration_witness:
  "parse_all_networks plain_codec [] (sanitize_all_documents [usdc_document]) = Ok [''base'' \<mapsto> usdc_network] \<and>
   parse_all_syncs (sanitize_all_documents [usdc_document]) = Ok Map.empty"
proof -
  have "list_all (\<lambda>s. string_keyed s [usdc_document]) named_sections"
    by (simp add: named_sections_def string_keyed_def section_entries_def optional_hash_def usdc_document_def hash_get_def)
  from sanitize_keeps_configuration[OF this refl, of plain_codec "[]" "[''base'' \<mapsto> usdc_network]" Map.empty]
  have "kept (parse_all_networks plain_codec [] [usdc_document]) (parse_all_networks plain_codec [] (sanitize_all_documents [usdc_document]))"
    "kept (parse_all_syncs [usdc_document]) (parse_all_syncs (sanitize_all_documents [usdc_document]))" by blast+
  moreover have "parse_all_syncs [usdc_document] = Ok Map.empty"
    by (simp add: parse_all_syncs_def optional_hash_def usdc_document_def hash_get_def)
  ultimately show ?thesis using usdc_networks by (simp add: kept_def)
qed

end
