(* ===== verification/Settings_Yaml.thy ===== *)
theory Settings_Yaml
  imports Settings_Sanitize
begin

text \<open>
  The settings as a whole: opening and validating the documents and the getters of \<open>RaindexYaml\<close>
  (\<open>settings/src/yaml/raindex.rs\<close>), and the networks and tokens fetched from remote lists
  (\<open>remote_networks.rs\<close>, \<open>remote/chains.rs\<close>).

  The loader of documents and the HTTP client are arguments. A \<open>HashMap\<close> that is iterated
  over comes with the order of its iteration, also an argument.
\<close>

section \<open>Opening the documents\<close>

record yaml_validation =
  yv_networks :: bool
  yv_remote_networks :: bool
  yv_tokens :: bool
  yv_remote_tokens :: bool
  yv_subgraphs :: bool
  yv_local_db_remotes :: bool
  yv_local_db_sync :: bool
  yv_raindexes :: bool
  yv_metaboards :: bool
  yv_rainlangs :: bool

definition validation_full :: yaml_validation where
  "validation_full = \<lparr>yv_networks = True, yv_remote_networks = True, yv_tokens = True, yv_remote_tokens = True,
     yv_subgraphs = True, yv_local_db_remotes = True, yv_local_db_sync = True, yv_raindexes = True,
     yv_metaboards = True, yv_rainlangs = True\<rparr>"

definition validation_default :: yaml_validation where
  "validation_default = \<lparr>yv_networks = False, yv_remote_networks = False, yv_tokens = False, yv_remote_tokens = False,
     yv_subgraphs = False, yv_local_db_remotes = False, yv_local_db_sync = False, yv_raindexes = False,
     yv_metaboards = False, yv_rainlangs = False\<rparr>"

record raindex_yaml =
  ry_documents :: "strict_yaml list"
  ry_remote_networks :: "(string \<times> network_cfg) list"
  ry_remote_tokens :: "(string \<times> token_cfg) list"

definition load_document :: "(string \<Rightarrow> (strict_yaml list, ext_error) result) \<Rightarrow> string \<Rightarrow> (strict_yaml, yaml_error) result" where
  "load_document load source =
     rbind (map_err Scan_Error (load source)) (\<lambda>docs.
     case docs of [] \<Rightarrow> Err Empty_File | doc # _ \<Rightarrow> Ok doc)"

definition check_if :: "bool \<Rightarrow> ('a, yaml_error) result \<Rightarrow> (unit, yaml_error) result" where
  "check_if wanted parsed = (if wanted then rbind parsed (\<lambda>_. Ok ()) else Ok ())"

definition raindex_yaml_new ::
  "(string \<Rightarrow> (strict_yaml list, ext_error) result) \<Rightarrow> text_codec \<Rightarrow> string list \<Rightarrow> yaml_validation
   \<Rightarrow> (raindex_yaml, yaml_error) result" where
  "raindex_yaml_new load T sources validate =
     rbind (rmap (load_document load) sources) (\<lambda>documents.
     rbind (validate_spec_version documents) (\<lambda>_.
     let documents = sanitize_all_documents documents in
     rbind (check_if (yv_networks validate) (parse_all_networks T [] documents)) (\<lambda>_.
     rbind (check_if (yv_remote_networks validate) (parse_all_remote_networks T documents)) (\<lambda>_.
     rbind (check_if (yv_tokens validate) (parse_all_tokens T [] [] documents)) (\<lambda>_.
     rbind (check_if (yv_remote_tokens validate) (parse_remote_tokens T documents)) (\<lambda>_.
     rbind (check_if (yv_subgraphs validate) (parse_all_subgraphs T documents)) (\<lambda>_.
     rbind (check_if (yv_local_db_remotes validate) (parse_all_remotes T documents)) (\<lambda>_.
     rbind (check_if (yv_local_db_sync validate) (parse_all_syncs documents)) (\<lambda>_.
     rbind (check_if (yv_raindexes validate) (parse_all_raindexes T [] documents)) (\<lambda>_.
     rbind (check_if (yv_metaboards validate) (parse_all_metaboards T documents)) (\<lambda>_.
     rbind (check_if (yv_rainlangs validate) (parse_all_rainlangs T [] documents)) (\<lambda>_.
     Ok \<lparr>ry_documents = documents, ry_remote_networks = [], ry_remote_tokens = []\<rparr>))))))))))))"

section \<open>Getters\<close>

definition get_networks :: "text_codec \<Rightarrow> raindex_yaml \<Rightarrow> (string \<Rightarrow> network_cfg option, yaml_error) result" where
  "get_networks T y = parse_all_networks T (ry_remote_networks y) (ry_documents y)"

definition get_tokens :: "text_codec \<Rightarrow> raindex_yaml \<Rightarrow> (string \<Rightarrow> token_cfg option, yaml_error) result" where
  "get_tokens T y = parse_all_tokens T (ry_remote_networks y) (ry_remote_tokens y) (ry_documents y)"

definition get_raindexes :: "text_codec \<Rightarrow> raindex_yaml \<Rightarrow> (string \<Rightarrow> raindex_cfg option, yaml_error) result" where
  "get_raindexes T y = parse_all_raindexes T (ry_remote_networks y) (ry_documents y)"

definition get_rainlangs :: "text_codec \<Rightarrow> raindex_yaml \<Rightarrow> (string \<Rightarrow> rainlang_cfg option, yaml_error) result" where
  "get_rainlangs T y = parse_all_rainlangs T (ry_remote_networks y) (ry_documents y)"

definition get_remote_networks :: "text_codec \<Rightarrow> raindex_yaml \<Rightarrow> (string \<Rightarrow> remote_networks_cfg option, yaml_error) result" where
  "get_remote_networks T y = parse_all_remote_networks T (ry_documents y)"

definition get_remote_tokens :: "text_codec \<Rightarrow> raindex_yaml \<Rightarrow> (url list option, yaml_error) result" where
  "get_remote_tokens T y = parse_remote_tokens T (ry_documents y)"

definition get_subgraphs :: "text_codec \<Rightarrow> raindex_yaml \<Rightarrow> (string \<Rightarrow> subgraph_cfg option, yaml_error) result" where
  "get_subgraphs T y = parse_all_subgraphs T (ry_documents y)"

definition get_metaboards :: "text_codec \<Rightarrow> raindex_yaml \<Rightarrow> (string \<Rightarrow> metaboard_cfg option, yaml_error) result" where
  "get_metaboards T y = parse_all_metaboards T (ry_documents y)"

definition get_local_db_remotes :: "text_codec \<Rightarrow> raindex_yaml \<Rightarrow> (string \<Rightarrow> local_db_remote_cfg option, yaml_error) result" where
  "get_local_db_remotes T y = parse_all_remotes T (ry_documents y)"

definition get_local_db_syncs :: "raindex_yaml \<Rightarrow> (string \<Rightarrow> local_db_sync_cfg option, yaml_error) result" where
  "get_local_db_syncs y = parse_all_syncs (ry_documents y)"

type_synonym 'c iteration = "(string \<Rightarrow> 'c option) \<Rightarrow> (string \<times> 'c) list"

definition iterates :: "'c iteration \<Rightarrow> bool" where
  \<comment> \<open>every entry once, in some order\<close>
  "iterates order \<longleftrightarrow> (\<forall>m. finite (dom m) \<longrightarrow> distinct (map fst (order m)) \<and> map_of (order m) = m)"

definition get_network_by_chain_id ::
  "text_codec \<Rightarrow> network_cfg iteration \<Rightarrow> raindex_yaml \<Rightarrow> u32 \<Rightarrow> (network_cfg, yaml_error) result" where
  "get_network_by_chain_id T order y chain_id =
     rbind (get_networks T y) (\<lambda>networks.
     ok_or (find (\<lambda>network. nc_chain_id network = chain_id) (map snd (order networks)))
       (Yaml_Not_Found (''network with chain-id: '' @ show_word chain_id)))"

definition get_raindex_by_address ::
  "text_codec \<Rightarrow> raindex_cfg iteration \<Rightarrow> raindex_yaml \<Rightarrow> address \<Rightarrow> (raindex_cfg, yaml_error) result" where
  "get_raindex_by_address T order y addr =
     rbind (get_raindexes T y) (\<lambda>raindexes.
     ok_or (find (\<lambda>raindex. rx_address raindex = addr) (map snd (order raindexes)))
       (Yaml_Not_Found (''raindex with address: '' @ tc_show_address T addr)))"

definition raindexes_of_network ::
  "raindex_cfg iteration \<Rightarrow> (string \<Rightarrow> raindex_cfg option) \<Rightarrow> string \<Rightarrow> raindex_cfg list" where
  "raindexes_of_network order raindexes network_key =
     sort_key rx_key (map snd (filter (\<lambda>(_, raindex_cfg). nc_key (rx_network raindex_cfg) = network_key)
       (order raindexes)))"

definition get_raindexes_by_network_key ::
  "text_codec \<Rightarrow> raindex_cfg iteration \<Rightarrow> raindex_yaml \<Rightarrow> string \<Rightarrow> (raindex_cfg list, yaml_error) result" where
  "get_raindexes_by_network_key T order y network_key =
     rbind (get_raindexes T y) (\<lambda>all_raindexes.
     let raindexes = raindexes_of_network order all_raindexes network_key in
     if raindexes = [] then Err (Yaml_Not_Found (''raindex with network key: '' @ network_key))
     else Ok raindexes)"

definition get_raindexes_by_chain_id ::
  "text_codec \<Rightarrow> network_cfg iteration \<Rightarrow> raindex_cfg iteration \<Rightarrow> raindex_yaml \<Rightarrow> u32
   \<Rightarrow> (raindex_cfg list, yaml_error) result" where
  "get_raindexes_by_chain_id T network_order order y chain_id =
     rbind (get_network_by_chain_id T network_order y chain_id) (\<lambda>network.
     rbind (get_raindexes T y) (\<lambda>all_raindexes.
     let raindexes = raindexes_of_network order all_raindexes (nc_key network) in
     if raindexes = [] then Err (Yaml_Not_Found (''raindex with chain-id: '' @ show_word chain_id))
     else Ok raindexes))"

section \<open>Remote networks and tokens\<close>

record remote_chain =
  rc_name :: string
  rc_rpc :: "url list"
  rc_currency_symbol :: string
  rc_short_name :: string
  rc_chain_id :: u32
  rc_network_id :: u32

record 'w remote_client =
  rm_url_path :: "url \<Rightarrow> string"
  rm_url_scheme :: "url \<Rightarrow> string"
  rm_chains :: "url \<Rightarrow> (remote_chain list, ext_error, 'w) io"
  rm_tokens :: "url \<Rightarrow> (remote_token list, ext_error, 'w) io"

definition supported_rpc :: "'w remote_client \<Rightarrow> url \<Rightarrow> bool" where
  "supported_rpc C rpc \<longleftrightarrow> \<not> contains (rm_url_path C rpc) ''API_KEY'' \<and> strip_prefix ''ws'' (rm_url_scheme C rpc) = None"

definition try_into_network_cfg :: "'w remote_client \<Rightarrow> remote_chain \<Rightarrow> (network_cfg, ext_error) result" where
  "try_into_network_cfg C chain =
     (if rc_rpc chain = [] then Err ''cannot find any rpc urls for this chain''
      else case find (supported_rpc C) (rc_rpc chain) of
        Some rpc \<Rightarrow> Ok \<lparr>nc_key = rc_short_name chain, nc_rpcs = [rpc], nc_chain_id = rc_chain_id chain,
             nc_label = Some (rc_name chain), nc_network_id = Some (rc_network_id chain),
             nc_currency = Some (rc_currency_symbol chain)\<rparr>
      | None \<Rightarrow> Err ''provided rpc urls are not supported'')"

fun add_remote_chains ::
  "'w remote_client \<Rightarrow> remote_chain list \<Rightarrow> (string \<times> network_cfg) list
   \<Rightarrow> ((string \<times> network_cfg) list, yaml_error) result" where
  "add_remote_chains C [] networks = Ok networks"
| "add_remote_chains C (chain # more_chains) networks =
     rbind (map_err Parse_Remote_Networks_Error (try_into_network_cfg C chain)) (\<lambda>network.
     if map_of networks (nc_key network) \<noteq> None then
       Err (Parse_Remote_Networks_Error (''Conflicting remote network in response, a network with key '' @
         quoted (nc_key network) @ '' already exists''))
     else add_remote_chains C more_chains (networks @ [(nc_key network, network)]))"

fun fetch_networks ::
  "'w remote_client \<Rightarrow> (string \<times> remote_networks_cfg) list \<Rightarrow> (string \<times> network_cfg) list
   \<Rightarrow> ((string \<times> network_cfg) list, yaml_error, 'w) io" where
  \<comment> \<open>the message of an unknown format displays the literal 0 instead of the format\<close>
  "fetch_networks C [] networks = io_return networks"
| "fetch_networks C ((_, remote_network) # more_networks) networks =
     (if rn_format remote_network = ''chainid'' then
        io_bind (io_map_err Parse_Remote_Networks_Error (rm_chains C (rn_url remote_network))) (\<lambda>listed.
        io_bind (io_pure (add_remote_chains C listed networks)) (fetch_networks C more_networks))
      else io_fail (Parse_Remote_Networks_Error ''Unknown format: 0''))"

definition fetch_remote_networks ::
  "'w remote_client \<Rightarrow> text_codec \<Rightarrow> remote_networks_cfg iteration \<Rightarrow> raindex_yaml
   \<Rightarrow> ((string \<times> network_cfg) list, yaml_error, 'w) io" where
  "fetch_remote_networks C T source_order y =
     io_bind (io_pure (get_remote_networks T y)) (\<lambda>sources. fetch_networks C (source_order sources) [])"

definition fetch_remote_tokens ::
  "'w remote_client \<Rightarrow> text_codec \<Rightarrow> network_cfg iteration \<Rightarrow> raindex_yaml
   \<Rightarrow> ((string \<times> token_cfg) list option, yaml_error, 'w) io" where
  "fetch_remote_tokens C T network_order y =
     io_bind (io_pure (get_remote_tokens T y)) (\<lambda>remote_tokens_cfg.
     case remote_tokens_cfg of
       None \<Rightarrow> io_return None
     | Some urls \<Rightarrow>
         io_bind (io_pure (get_networks T y)) (\<lambda>networks.
         io_bind (fetch_tokens (rm_tokens C) T (network_order networks) urls []) (\<lambda>tokens. io_return (Some tokens))))"

definition fetch_remote_data ::
  "'w remote_client \<Rightarrow> text_codec \<Rightarrow> remote_networks_cfg iteration \<Rightarrow> network_cfg iteration \<Rightarrow> raindex_yaml \<Rightarrow> 'w
   \<Rightarrow> (((string \<times> network_cfg) list \<times> (string \<times> token_cfg) list, yaml_error) result \<times> raindex_yaml) \<times> 'w" where
  \<comment> \<open>the result and the handler with its cache, which keeps the networks when the tokens fail\<close>
  "fetch_remote_data C T source_order network_order y w =
     (case fetch_remote_networks C T source_order y w of
        (Err e, w) \<Rightarrow> ((Err e, y), w)
      | (Ok remote_networks, w) \<Rightarrow>
          let y = (if remote_networks = [] then y else y\<lparr>ry_remote_networks := remote_networks\<rparr>) in
          (case fetch_remote_tokens C T network_order y w of
             (Err e, w) \<Rightarrow> ((Err e, y), w)
           | (Ok None, w) \<Rightarrow> ((Ok (remote_networks, []), y), w)
           | (Ok (Some tokens), w) \<Rightarrow> ((Ok (remote_networks, tokens), y\<lparr>ry_remote_tokens := tokens\<rparr>), w)))"

section \<open>Validated settings are readable\<close>

lemma sanitized_version: "validate_spec_version (sanitize_all_documents docs) = validate_spec_version docs"
proof -
  have "require_string (sanitize_all d) (Some ''version'') l = require_string d (Some ''version'') l" for d l
    by (rule accessors_cong untouched_section)+ (simp add: section_updates_def)
  then have "spec_version_from i (map sanitize_all docs) v = spec_version_from i docs v" for i v
    by (induction docs arbitrary: i v) (auto simp: Let_def intro: rbind_cong split: option.split)
  then show ?thesis by (simp add: validate_spec_version_def parse_spec_version_def sanitize_all_documents_map)
qed

lemma check_if_Ok [ok_iff]: "check_if wanted parsed = Ok u \<longleftrightarrow> (wanted \<longrightarrow> (\<exists>x. parsed = Ok x))"
  by (auto simp: check_if_def ok_iff)

text \<open>
  Settings opened with full validation are sanitised, are of the current version of the format, and the
  getters of the validated sections succeed, as they parse what the validation parsed. (The sentry flag,
  the accounts and the network of a given name are not validated.)
\<close>
lemma validated_settings_are_readable:
  assumes "raindex_yaml_new load T sources validation_full = Ok y"
  shows "sanitize_all_documents (ry_documents y) = ry_documents y \<and> validate_spec_version (ry_documents y) = Ok () \<and>
    is_ok (get_networks T y) \<and> is_ok (get_remote_networks T y) \<and> is_ok (get_tokens T y) \<and>
    is_ok (get_remote_tokens T y) \<and> is_ok (get_subgraphs T y) \<and> is_ok (get_local_db_remotes T y) \<and>
    is_ok (get_local_db_syncs y) \<and> is_ok (get_raindexes T y) \<and> is_ok (get_metaboards T y) \<and>
    is_ok (get_rainlangs T y)"
proof -
  obtain docs where docs: "validate_spec_version docs = Ok ()" "ry_documents y = sanitize_all_documents docs"
    and cache: "ry_remote_networks y = []" "ry_remote_tokens y = []"
    and ok: "\<exists>x. parse_all_networks T [] (ry_documents y) = Ok x" "\<exists>x. parse_all_remote_networks T (ry_documents y) = Ok x"
    "\<exists>x. parse_all_tokens T [] [] (ry_documents y) = Ok x" "\<exists>x. parse_remote_tokens T (ry_documents y) = Ok x"
    "\<exists>x. parse_all_subgraphs T (ry_documents y) = Ok x" "\<exists>x. parse_all_remotes T (ry_documents y) = Ok x"
    "\<exists>x. parse_all_syncs (ry_documents y) = Ok x" "\<exists>x. parse_all_raindexes T [] (ry_documents y) = Ok x"
    "\<exists>x. parse_all_metaboards T (ry_documents y) = Ok x" "\<exists>x. parse_all_rainlangs T [] (ry_documents y) = Ok x"
    using assms by (auto simp: raindex_yaml_new_def validation_full_def Let_def rbind_Ok_iff check_if_Ok)
  have "sanitize_all_documents (ry_documents y) = ry_documents y"
    by (simp add: docs(2) sanitize_all_documents_map sanitize_all_twice)
  with ok docs(1) show ?thesis
    by (auto simp: cache docs(2) sanitized_version get_networks_def get_remote_networks_def get_tokens_def
        get_remote_tokens_def get_subgraphs_def get_local_db_remotes_def get_local_db_syncs_def get_raindexes_def
        get_metaboards_def get_rainlangs_def)
qed

definition settings_document :: strict_yaml where
  "settings_document =
     (let plain = (\<lambda>fields. Yaml_Hash (map (\<lambda>(k, v). (Yaml_String k, Yaml_String v)) fields)) in
      Yaml_Hash
       [(Yaml_String ''version'', Yaml_String ''6''),
        (Yaml_String ''networks'', Yaml_Hash [(Yaml_String ''base'', usdc_entry)]),
        (Yaml_String ''subgraphs'', plain [(''base'', ''https://sg'')]),
        (Yaml_String ''metaboards'', plain [(''base'', ''https://mb'')]),
        (Yaml_String ''tokens'', Yaml_Hash [(Yaml_String ''usdc'', plain [(''network'', ''base''), (''address'', ''7'')])]),
        (Yaml_String ''rainlangs'', Yaml_Hash [(Yaml_String ''base'', plain [(''address'', ''7'')])]),
        (Yaml_String ''raindexes'', Yaml_Hash
          [(Yaml_String ''zeta'', plain [(''address'', ''7''), (''network'', ''base''), (''subgraph'', ''base''), (''deployment-block'', ''7'')]),
           (Yaml_String ''alpha'', plain [(''address'', ''7''), (''network'', ''base''), (''subgraph'', ''base''), (''deployment-block'', ''7'')])])])"

definition settings_raindex :: "string \<Rightarrow> raindex_cfg" where
  "settings_raindex key = \<lparr>rx_key = key, rx_address = 7, rx_network = usdc_network,
     rx_subgraph = \<lparr>sg_key = ''base'', sg_url = ''https://sg''\<rparr>, rx_local_db_remote = None, rx_label = None,
     rx_deployment_block = 7\<rparr>"

lemma settings_networks: "parse_all_networks plain_codec [] [settings_document] = Ok [''base'' \<mapsto> usdc_network]"
proof -
  have "require_hash settings_document (Some ''networks'') (Some ''root'') = Ok [(Yaml_String ''base'', usdc_entry)]"
    by (simp add: settings_document_def require_hash_def hash_get_def)
  then show ?thesis by (simp add: parse_all_networks_def usdc_entry_parses)
qed

lemma plain_parse_address: "tc_parse_address plain_codec ''7'' = Ok 7"
  using plain_address by (simp add: plain_codec_def)

lemma settings_sections:
  "parse_all_subgraphs plain_codec [settings_document] = Ok [''base'' \<mapsto> \<lparr>sg_key = ''base'', sg_url = ''https://sg''\<rparr>]"
  "parse_all_metaboards plain_codec [settings_document] = Ok [''base'' \<mapsto> \<lparr>mb_key = ''base'', mb_url = ''https://mb''\<rparr>]"
  "parse_all_remotes plain_codec [settings_document] = Ok Map.empty"
  "parse_all_syncs [settings_document] = Ok Map.empty"
  "parse_all_remote_networks plain_codec [settings_document] = Ok Map.empty"
  "\<exists>m. parse_all_rainlangs plain_codec [] [settings_document] = Ok m"
  "\<exists>t. local_tokens plain_codec [''base'' \<mapsto> usdc_network] [settings_document] = Ok [''usdc'' \<mapsto> t]"
  unfolding parse_all_rainlangs_def settings_networks
  by (simp_all add: parse_all_subgraphs_def parse_all_metaboards_def parse_all_remotes_def parse_all_syncs_def
      parse_all_remote_networks_def settings_document_def Let_def require_hash_def hash_get_def optional_hash_def
      parse_subgraph_def parse_metaboard_def require_string_def plain_url required_def parse_rainlang_def
      address_field_def plain_parse_address optional_string_def unwrap_string_def reference_def local_tokens_def
      parse_token_def opt_result_def) (rule exI, rule refl)

lemma settings_raindexes:
  "parse_all_raindexes plain_codec [] [settings_document] =
     Ok [''zeta'' \<mapsto> settings_raindex ''zeta'', ''alpha'' \<mapsto> settings_raindex ''alpha'']"
proof -
  have "parse_unsigned (2 ^ 64) ''7'' = Ok 7"
    using parse_unsigned_show[of 7 "2 ^ 64"] plain_address(2) by simp
  then have "parse_raindex plain_codec [''base'' \<mapsto> usdc_network] [''base'' \<mapsto> \<lparr>sg_key = ''base'', sg_url = ''https://sg''\<rparr>]
      Map.empty key (Yaml_Hash [(Yaml_String ''address'', Yaml_String ''7''), (Yaml_String ''network'', Yaml_String ''base''),
        (Yaml_String ''subgraph'', Yaml_String ''base''), (Yaml_String ''deployment-block'', Yaml_String ''7'')]) =
      Ok (settings_raindex key)" for key
    by (simp add: parse_raindex_def address_field_def require_string_def hash_get_def plain_parse_address
        unwrap_string_def optional_string_def reference_def settings_raindex_def)
  then have "collect_documents ''raindexes'' None (parse_raindex plain_codec [''base'' \<mapsto> usdc_network]
      [''base'' \<mapsto> \<lparr>sg_key = ''base'', sg_url = ''https://sg''\<rparr>] Map.empty) [settings_document] Map.empty =
    Ok [''zeta'' \<mapsto> settings_raindex ''zeta'', ''alpha'' \<mapsto> settings_raindex ''alpha'']"
    by (simp add: require_hash_def settings_document_def Let_def hash_get_def)
  then show ?thesis
    by (simp add: parse_all_raindexes_def settings_networks settings_sections(1,3) required_def)
qed

lemma settings_named: "list_all (\<lambda>s. string_keyed s [settings_document]) named_sections"
  by (simp add: named_sections_def string_keyed_def section_entries_def optional_hash_def settings_document_def
      hash_get_def Let_def)

lemma settings_open:
  "raindex_yaml_new (\<lambda>s. Ok [settings_document]) plain_codec [''settings''] validation_full =
     Ok \<lparr>ry_documents = sanitize_all_documents [settings_document], ry_remote_networks = [], ry_remote_tokens = []\<rparr>"
proof -
  have keyed: "string_keyed ''networks'' [settings_document]" "string_keyed ''raindexes'' [settings_document]"
    "string_keyed ''rainlangs'' [settings_document]" "string_keyed ''using-networks-from'' [settings_document]"
    "string_keyed ''tokens'' [settings_document]"
    using settings_named by (simp_all add: named_sections_def)
  obtain rainlangs t where rainlangs: "parse_all_rainlangs plain_codec [] [settings_document] = Ok rainlangs"
    and t: "local_tokens plain_codec [''base'' \<mapsto> usdc_network] [settings_document] = Ok [''usdc'' \<mapsto> t]"
    using settings_sections by blast
  let ?docs = "sanitize_all_documents [settings_document]"
  note networks = sanitized_networks[OF keyed(1) settings_networks]
  have "local_tokens plain_codec [''base'' \<mapsto> usdc_network] ?docs = Ok (\<lambda>k. map_option without_logo ([''usdc'' \<mapsto> t] k))"
    by (rule sanitized_tokens[OF keyed(1,5) settings_networks t])
  moreover have "(\<lambda>k. map_option without_logo ([''usdc'' \<mapsto> t] k)) = [''usdc'' \<mapsto> without_logo t]" by (simp add: fun_eq_iff)
  ultimately have "\<exists>tokens. parse_all_tokens plain_codec [] [] ?docs = Ok tokens"
    by (simp add: parse_all_tokens_def networks required_def)
  then obtain tokens where tokens: "parse_all_tokens plain_codec [] [] ?docs = Ok tokens" by blast
  have "yaml_index (sanitize_all settings_document) ''using-tokens-from'' = yaml_index settings_document ''using-tokens-from''"
    by (rule untouched_section) (simp add: section_updates_def)
  then have remote: "parse_remote_tokens plain_codec ?docs = Ok None"
    by (simp add: parse_remote_tokens_def sanitize_all_documents_map optional_vec_def settings_document_def hash_get_def Let_def)
  have version: "validate_spec_version [settings_document] = Ok ()"
    by (simp add: validate_spec_version_def parse_spec_version_def settings_document_def require_string_def
        hash_get_def current_spec_version_def Let_def)
  show ?thesis
    by (simp add: raindex_yaml_new_def load_document_def version validation_full_def check_if_def networks tokens remote
        sanitized_sources[OF keyed(4) settings_sections(5)] untouched_subgraphs untouched_metaboards untouched_remotes
        sanitized_syncs[OF settings_sections(4)] sanitized_raindexes[OF keyed(1,2) settings_raindexes]
        sanitized_rainlangs[OF keyed(1,3) rainlangs] settings_sections(1-3))
qed

lemma validated_settings_are_readable_example:
  "\<exists>y. raindex_yaml_new (\<lambda>s. Ok [settings_document]) plain_codec [''settings''] validation_full = Ok y \<and>
     is_ok (get_raindexes plain_codec y) \<and> is_ok (get_tokens plain_codec y)"
  using validated_settings_are_readable[OF settings_open] settings_open by blast

section \<open>The raindexes of a network\<close>

lemma raindex_keys:
  assumes "get_raindexes T y = Ok raindexes"
  shows "raindexes k = Some r \<Longrightarrow> rx_key r = k" "finite (dom raindexes)"
proof -
  from assms obtain n s rs where c: "collect_entries ''raindexes'' (parse_raindex T n s rs)
      (all_entries ''raindexes'' (ry_documents y)) Map.empty = Ok raindexes"
    by (auto simp: get_raindexes_def parse_all_raindexes_def required_def collect_documents_entries ok_iff split: if_splits)
  show "raindexes k = Some r \<Longrightarrow> rx_key r = k"
    by (rule collect_entries_all[OF c, where P = "\<lambda>k r. rx_key r = k"]) (auto simp: parse_raindex_def Let_def ok_iff)
  show "finite (dom raindexes)" using collect_entries_finite[OF c] by simp
qed

lemma raindexes_of_network_spec:
  fixes network_key
  assumes "iterates order" "get_raindexes T y = Ok raindexes"
  defines "rs \<equiv> raindexes_of_network order raindexes network_key"
  shows "sorted (map rx_key rs)" "distinct (map rx_key rs)"
    "set rs = {r. raindexes (rx_key r) = Some r \<and> nc_key (rx_network r) = network_key}"
proof -
  note keys = raindex_keys[OF assms(2)]
  from assms(1) keys(2) have o: "distinct (map fst (order raindexes))" "map_of (order raindexes) = raindexes"
    by (auto simp: iterates_def)
  then have entries: "(k, r) \<in> set (order raindexes) \<longleftrightarrow> raindexes k = Some r" for k r
    by (metis map_of_eq_Some_iff)
  then have same: "map rx_key (map snd (order raindexes)) = map fst (order raindexes)"
    using keys(1) by auto
  show "sorted (map rx_key rs)" by (simp add: rs_def raindexes_of_network_def)
  show "set rs = {r. raindexes (rx_key r) = Some r \<and> nc_key (rx_network r) = network_key}"
  proof -
    have "r \<in> set rs \<longleftrightarrow> (\<exists>k. (k, r) \<in> set (order raindexes)) \<and> nc_key (rx_network r) = network_key" for r
      by (simp add: rs_def raindexes_of_network_def image_iff)
    moreover have "(\<exists>k. raindexes k = Some r) \<longleftrightarrow> raindexes (rx_key r) = Some r" for r using keys(1) by auto
    ultimately show ?thesis by (simp add: entries set_eq_iff)
  qed
  let ?own = "\<lambda>r. nc_key (rx_network r) = network_key"
  have "map snd (filter (\<lambda>(_, r). ?own r) (order raindexes)) = filter ?own (map snd (order raindexes))"
    by (simp add: filter_map comp_def case_prod_unfold)
  moreover have "distinct (map rx_key (filter ?own (map snd (order raindexes))))"
    using o(1) same by (metis distinct_map_filter)
  ultimately show "distinct (map rx_key rs)"
    by (simp add: rs_def raindexes_of_network_def distinct_map)
qed

text \<open>
  The raindexes of a network are listed by name, each once and none missing, and whatever order
  the hash map of the settings is iterated in gives the same list; without any the network is not found.
\<close>
lemma raindexes_by_network:
  assumes "iterates order" and "iterates order'" and "get_raindexes T y = Ok raindexes"
  shows "\<exists>rs. get_raindexes_by_network_key T order y network_key =
      (if rs = [] then Err (Yaml_Not_Found (''raindex with network key: '' @ network_key)) else Ok rs) \<and>
    sorted (map rx_key rs) \<and> distinct (map rx_key rs) \<and>
    set rs = {r. raindexes (rx_key r) = Some r \<and> nc_key (rx_network r) = network_key} \<and>
    get_raindexes_by_network_key T order' y network_key = get_raindexes_by_network_key T order y network_key"
proof -
  note spec = raindexes_of_network_spec[OF assms(1,3), of network_key]
  note spec' = raindexes_of_network_spec[OF assms(2,3), of network_key]
  have "inj_on rx_key (set (raindexes_of_network order raindexes network_key) \<union>
      set (raindexes_of_network order' raindexes network_key))"
    unfolding spec(3) spec'(3) Un_absorb by (rule inj_onI) (metis (mono_tags, lifting) mem_Collect_eq option.inject)
  then have "raindexes_of_network order' raindexes network_key = raindexes_of_network order raindexes network_key"
    by (intro map_sorted_distinct_set_unique[OF _ spec'(1,2) spec(1,2)]) (simp_all only: spec(3) spec'(3) Un_absorb)
  then show ?thesis
    by (intro exI[of _ "raindexes_of_network order raindexes network_key"])
      (simp add: get_raindexes_by_network_key_def assms(3) Let_def spec)
qed

definition by_name :: "'c iteration" where
  "by_name m = map (\<lambda>k. (k, the (m k))) (sorted_list_of_set (dom m))"

lemma by_name_map: "distinct (map fst (by_name m))" "finite (dom m) \<Longrightarrow> map_of (by_name m) = m"
proof -
  have keys: "map fst (by_name m) = sorted_list_of_set (dom m)" by (simp add: by_name_def comp_def)
  then show "distinct (map fst (by_name m))" by simp
  show "finite (dom m) \<Longrightarrow> map_of (by_name m) = m" by (force simp: by_name_def map_of_map_keys fun_eq_iff)
qed

lemma map_of_rev: "distinct (map fst xs) \<Longrightarrow> map_of (rev xs) = map_of xs"
  by (metis distinct_rev map_of_inject_set rev_map set_rev)

lemma by_name_iterates: "iterates by_name" "iterates (\<lambda>m. rev (by_name m))"
  by (simp_all add: iterates_def by_name_map map_of_rev flip: rev_map)

lemma raindexes_by_network_example:
  "\<exists>rs. get_raindexes_by_network_key plain_codec (\<lambda>m. rev (by_name m))
     \<lparr>ry_documents = [settings_document], ry_remote_networks = [], ry_remote_tokens = []\<rparr> ''base'' = Ok rs \<and>
     map rx_key rs = [''alpha'', ''zeta'']"
proof -
  let ?y = "\<lparr>ry_documents = [settings_document], ry_remote_networks = [], ry_remote_tokens = []\<rparr>"
  let ?m = "[''zeta'' \<mapsto> settings_raindex ''zeta'', ''alpha'' \<mapsto> settings_raindex ''alpha'']"
  have y: "get_raindexes plain_codec ?y = Ok ?m"
    by (simp add: get_raindexes_def settings_raindexes)
  from raindexes_by_network[OF by_name_iterates(2,1) y, of "''base''"] obtain rs where
    got: "get_raindexes_by_network_key plain_codec (\<lambda>m. rev (by_name m)) ?y ''base'' =
      (if rs = [] then Err (Yaml_Not_Found (''raindex with network key: '' @ ''base'')) else Ok rs)"
    and rs: "sorted (map rx_key rs)" "distinct (map rx_key rs)"
      "set rs = {r. ?m (rx_key r) = Some r \<and> nc_key (rx_network r) = ''base''}" by blast
  have "{r. ?m (rx_key r) = Some r \<and> nc_key (rx_network r) = ''base''} = {settings_raindex ''alpha'', settings_raindex ''zeta''}"
    by (auto simp: settings_raindex_def usdc_network_def split: if_splits)
  then have set: "set rs = {settings_raindex ''alpha'', settings_raindex ''zeta''}" using rs(3) by simp
  have "sorted [''alpha'', ''zeta'']" by code_simp
  moreover have "set (map rx_key rs) = set [''alpha'', ''zeta'']" by (simp add: set settings_raindex_def)
  ultimately have "map rx_key rs = [''alpha'', ''zeta'']"
    using sorted_distinct_set_unique[OF rs(1,2)] by simp
  moreover from this have "rs \<noteq> []" by auto
  ultimately show ?thesis using got by auto
qed

section \<open>Fetched networks\<close>

lemma add_remote_chains_Ok:
  assumes "add_remote_chains C listed nets = Ok nets'" "distinct (map fst nets)"
    "\<forall>(k, n) \<in> set nets. nc_key n = k \<and> (\<exists>u. nc_rpcs n = [u] \<and> supported_rpc C u)"
  shows "distinct (map fst nets') \<and> (\<forall>(k, n) \<in> set nets'. nc_key n = k \<and> (\<exists>u. nc_rpcs n = [u] \<and> supported_rpc C u))"
  using assms
proof (induction C listed nets rule: add_remote_chains.induct)
  case (2 C chain more nets)
  from 2(2) obtain n where n: "try_into_network_cfg C chain = Ok n" "map_of nets (nc_key n) = None"
    "add_remote_chains C more (nets @ [(nc_key n, n)]) = Ok nets'"
    unfolding add_remote_chains.simps rbind_Ok_iff map_err_Ok_iff by (metis result.distinct(1))
  have "\<exists>u. nc_rpcs n = [u] \<and> supported_rpc C u"
    using n(1) by (auto simp: try_into_network_cfg_def find_Some_iff split: if_splits option.splits)
  moreover have "nc_key n \<notin> fst ` set nets" using n(2) by (simp add: map_of_eq_None_iff)
  moreover from this have "\<forall>u. (nc_key n, u) \<notin> set nets" by force
  ultimately show ?case using 2 n by simp
qed simp

lemma fetch_networks_Ok:
  assumes "fetch_networks C sources nets w = (Ok nets', w')" "distinct (map fst nets)"
    "\<forall>(k, n) \<in> set nets. nc_key n = k \<and> (\<exists>u. nc_rpcs n = [u] \<and> supported_rpc C u)"
  shows "distinct (map fst nets') \<and> (\<forall>(k, n) \<in> set nets'. nc_key n = k \<and> (\<exists>u. nc_rpcs n = [u] \<and> supported_rpc C u))"
  using assms
proof (induction sources arbitrary: nets w)
  case (Cons source sources)
  obtain k r where s: "source = (k, r)" by force
  from Cons.prems(1) obtain listed nets1 w1 where "add_remote_chains C listed nets = Ok nets1"
    "fetch_networks C sources nets1 w1 = (Ok nets', w')"
    by (auto simp: s ok_iff split: if_splits)
  with Cons.IH add_remote_chains_Ok[OF _ Cons.prems(2,3)] show ?case by blast
qed simp

lemma merge_disjoint:
  "distinct (map fst remote) \<Longrightarrow> fst ` set remote \<inter> dom m = {} \<Longrightarrow>
    merge_remote_networks remote m = Ok (m ++ map_of remote)"
proof (induction remote arbitrary: m)
  case (Cons e remote)
  obtain key n where e: "e = (key, n)" by force
  have "fst ` set remote \<inter> dom (m(key \<mapsto> n)) = {}" "m key = None" "key \<notin> dom (map_of remote)"
    using Cons.prems by (auto simp: e dom_map_of_conv_image_fst)
  with Cons.IH[of "m(key \<mapsto> n)"] Cons.prems(1) show ?case
    by (simp add: e map_add_upd_left del: fun_upd_apply)
qed simp

lemma merge_overlap: "merge_remote_networks remote m = Ok m' \<Longrightarrow> fst ` set remote \<inter> dom m = {}"
  by (induction remote m rule: merge_remote_networks.induct) (auto split: if_splits)

text \<open>
  Networks fetched from the remote lists are served beside those of the documents: each under
  its short name with one usable RPC, none replacing a network of the documents (a name in both makes
  reading the networks fail), and fetching leaves the documents alone, also when it fails.
\<close>
lemma fetched_networks_are_served:
  assumes "fetch_remote_data C T source_order network_order y w = ((r, y'), w')" and "ry_remote_networks y = []"
    and "parse_network_documents T (ry_documents y) Map.empty = Ok local"
  shows "ry_documents y' = ry_documents y \<and>
    (\<forall>nets toks. r = Ok (nets, toks) \<longrightarrow> ry_remote_networks y' = nets \<and>
      (\<forall>(k, n) \<in> set nets. nc_key n = k \<and> (\<exists>u. nc_rpcs n = [u] \<and> supported_rpc C u)) \<and>
      (if dom local \<inter> fst ` set nets \<noteq> {} then \<not> is_ok (get_networks T y')
       else if dom local \<union> fst ` set nets = {} then \<not> is_ok (get_networks T y')
       else get_networks T y' = Ok (local ++ map_of nets)))"
proof (intro conjI allI impI)
  show docs: "ry_documents y' = ry_documents y"
    using assms(1) by (auto simp: fetch_remote_data_def Let_def split: prod.splits result.splits option.splits if_splits)
  fix nets toks
  assume r: "r = Ok (nets, toks)"
  obtain w1 where fetched: "fetch_remote_networks C T source_order y w = (Ok nets, w1)"
    and remote: "ry_remote_networks y' = nets"
    using assms(1,2) r by (auto simp: fetch_remote_data_def Let_def split: prod.splits result.splits option.splits if_splits)
  show "ry_remote_networks y' = nets" by (rule remote)
  from fetched obtain sources w2 where "fetch_networks C sources [] w2 = (Ok nets, w1)"
    by (auto simp: fetch_remote_networks_def ok_iff)
  from fetch_networks_Ok[OF this] have nets: "distinct (map fst nets)"
    "\<forall>(k, n) \<in> set nets. nc_key n = k \<and> (\<exists>u. nc_rpcs n = [u] \<and> supported_rpc C u)" by simp_all
  show "\<forall>(k, n) \<in> set nets. nc_key n = k \<and> (\<exists>u. nc_rpcs n = [u] \<and> supported_rpc C u)" by (rule nets(2))
  have get: "get_networks T y' = rbind (merge_remote_networks nets local) (\<lambda>networks.
      if networks = Map.empty then Err (Yaml_Field (Missing ''networks'') ''root'') else Ok networks)"
    by (simp add: get_networks_def parse_all_networks_def docs remote assms(3))
  show "if dom local \<inter> fst ` set nets \<noteq> {} then \<not> is_ok (get_networks T y')
       else if dom local \<union> fst ` set nets = {} then \<not> is_ok (get_networks T y')
       else get_networks T y' = Ok (local ++ map_of nets)"
  proof (cases "dom local \<inter> fst ` set nets = {}")
    case True
    then have "merge_remote_networks nets local = Ok (local ++ map_of nets)"
      by (intro merge_disjoint nets(1)) blast
    moreover have "local ++ map_of nets = Map.empty \<longleftrightarrow> dom local \<union> fst ` set nets = {}"
      by (simp only: dom_eq_empty_conv[symmetric] dom_map_add dom_map_of_conv_image_fst Un_commute)
    ultimately show ?thesis using True by (auto simp: get)
  next
    case False
    with merge_overlap[of nets local] have "\<not> is_ok (merge_remote_networks nets local)"
      by (cases "merge_remote_networks nets local") auto
    with False show ?thesis by (cases "merge_remote_networks nets local") (simp_all add: get)
  qed
qed

definition listing_document :: strict_yaml where
  "listing_document = Yaml_Hash
     [(Yaml_String ''networks'', Yaml_Hash [(Yaml_String ''base'', usdc_entry)]),
      (Yaml_String ''using-networks-from'', Yaml_Hash [(Yaml_String ''chainlist'', Yaml_Hash
        [(Yaml_String ''url'', Yaml_String ''https://chains''), (Yaml_String ''format'', Yaml_String ''chainid'')])])]"

definition listing_client :: "nat remote_client" where
  "listing_client = \<lparr>rm_url_path = id, rm_url_scheme = takeWhile (\<lambda>c. c \<noteq> CHR 0x3A),
     rm_chains = (\<lambda>u w. (Ok [\<lparr>rc_name = ''Ethereum'', rc_rpc = [''wss://b'', ''https://b''],
        rc_currency_symbol = ''ETH'', rc_short_name = ''eth'', rc_chain_id = 1, rc_network_id = 1\<rparr>], Suc w)),
     rm_tokens = (\<lambda>u w. (Ok [], w))\<rparr>"

lemma fetched_networks_are_served_example:
  "\<exists>y' n. snd (fst (fetch_remote_data listing_client plain_codec (\<lambda>m. case m ''chainlist'' of None \<Rightarrow> [] | Some c \<Rightarrow> [(''chainlist'', c)])
     by_name \<lparr>ry_documents = [listing_document], ry_remote_networks = [], ry_remote_tokens = []\<rparr> 0)) = y' \<and>
     get_networks plain_codec y' = Ok [''base'' \<mapsto> usdc_network, ''eth'' \<mapsto> n] \<and> nc_rpcs n = [''https://b'']"
proof -
  let ?y = "\<lparr>ry_documents = [listing_document], ry_remote_networks = [], ry_remote_tokens = []\<rparr>"
  let ?order = "\<lambda>m. case m ''chainlist'' of None \<Rightarrow> [] | Some c \<Rightarrow> [(''chainlist'', c)]"
  let ?n = "\<lparr>nc_key = ''eth'', nc_rpcs = [''https://b''], nc_chain_id = 1, nc_label = Some ''Ethereum'',
     nc_network_id = Some 1, nc_currency = Some ''ETH''\<rparr>"
  have "get_remote_networks plain_codec ?y =
      Ok [''chainlist'' \<mapsto> \<lparr>rn_key = ''chainlist'', rn_url = ''https://chains'', rn_format = ''chainid''\<rparr>]"
    by (simp add: get_remote_networks_def parse_all_remote_networks_def listing_document_def require_hash_def
        hash_get_def parse_remote_source_def require_string_def plain_url Let_def)
  moreover have "try_into_network_cfg listing_client \<lparr>rc_name = ''Ethereum'', rc_rpc = [''wss://b'', ''https://b''],
        rc_currency_symbol = ''ETH'', rc_short_name = ''eth'', rc_chain_id = 1, rc_network_id = 1\<rparr> = Ok ?n"
    by (simp add: try_into_network_cfg_def supported_rpc_def listing_client_def)
  ultimately have "fetch_remote_networks listing_client plain_codec ?order ?y 0 = (Ok [(''eth'', ?n)], 1)"
    by (simp add: fetch_remote_networks_def io_defs listing_client_def)
  moreover have "fetch_remote_tokens listing_client plain_codec by_name
      (?y\<lparr>ry_remote_networks := [(''eth'', ?n)]\<rparr>) 1 = (Ok None, 1)"
    by (simp add: fetch_remote_tokens_def get_remote_tokens_def parse_remote_tokens_def optional_vec_def
        listing_document_def hash_get_def io_defs)
  ultimately have run: "fetch_remote_data listing_client plain_codec ?order by_name ?y 0 =
      ((Ok ([(''eth'', ?n)], []), ?y\<lparr>ry_remote_networks := [(''eth'', ?n)]\<rparr>), 1)"
    by (simp add: fetch_remote_data_def)
  have "parse_network_documents plain_codec (ry_documents ?y) Map.empty = Ok [''base'' \<mapsto> usdc_network]"
    by (simp add: listing_document_def require_hash_def hash_get_def usdc_entry_parses)
  from fetched_networks_are_served[OF run _ this]
  have "get_networks plain_codec (?y\<lparr>ry_remote_networks := [(''eth'', ?n)]\<rparr>) = Ok [''base'' \<mapsto> usdc_network, ''eth'' \<mapsto> ?n]"
    by simp
  with run show ?thesis
    by (intro exI[of _ "?y\<lparr>ry_remote_networks := [(''eth'', ?n)]\<rparr>"] exI[of _ ?n]) simp
qed

end
