(* ===== verification/Runner_Targets.thy ===== *)
theory Runner_Targets
  imports Sync_Engine Settings_Yaml
begin

text \<open>
  What a runner is told to sync: the targets built from the settings
  (\<open>local_db/pipeline/runner/utils.rs\<close>), the settings of one network
  (\<open>raindex_client/local_db/pipeline/runner/config.rs\<close>) and the entries of the manifests
  (\<open>local_db/pipeline/runner/remotes.rs\<close>).

  The raindexes of the settings are an association list with distinct keys: their \<open>HashMap\<close> in its
  iteration order, which reading the settings takes as an argument, like the display of settings errors.
\<close>

section \<open>Settings\<close>

record parsed_runner_settings =
  ps_raindexes :: "(string \<times> raindex_cfg) list"
  ps_syncs :: "string \<Rightarrow> local_db_sync_cfg option"

record runner_target =
  tg_raindex_key :: string
  tg_manifest_url :: url
  tg_network_key :: string
  tg_inputs :: sync_inputs

abbreviation target_id :: "runner_target \<Rightarrow> raindex_identifier" where
  "target_id t \<equiv> in_raindex_id (tg_inputs t)"

definition raindex_id_of :: "raindex_cfg \<Rightarrow> raindex_identifier" where
  "raindex_id_of raindex =
     \<lparr>ri_chain_id = nc_chain_id (rx_network raindex), ri_raindex_address = rx_address raindex\<rparr>"

definition configured_sync_networks :: "parsed_runner_settings \<Rightarrow> network_cfg list" where
  \<comment> \<open>collected into a map by key: of several raindexes of a network the last one read counts\<close>
  "configured_sync_networks settings =
     (let networks = map (\<lambda>(_, raindex). (nc_key (rx_network raindex), rx_network raindex))
            (filter (\<lambda>(_, raindex). ps_syncs settings (nc_key (rx_network raindex)) \<noteq> None)
              (ps_raindexes settings)) in
      map (\<lambda>key. the (map_of (rev networks) key)) (sort (remdups (map fst networks))))"

definition parse_runner_settings_from_yaml ::
  "(yaml_error \<Rightarrow> ext_error) \<Rightarrow> text_codec \<Rightarrow> raindex_cfg iteration \<Rightarrow> raindex_yaml
   \<Rightarrow> (parsed_runner_settings, local_db_error) result" where
  "parse_runner_settings_from_yaml display T order y =
     rbind (map_err (\<lambda>e. Settings_Yaml (display e)) (get_raindexes T y)) (\<lambda>raindexes.
     rbind (map_err (\<lambda>e. Settings_Yaml (display e)) (get_local_db_syncs y)) (\<lambda>syncs.
     Ok \<lparr>ps_raindexes = order raindexes, ps_syncs = syncs\<rparr>))"

definition parse_runner_settings ::
  "(yaml_error \<Rightarrow> ext_error) \<Rightarrow> (string \<Rightarrow> (strict_yaml list, ext_error) result) \<Rightarrow> text_codec
   \<Rightarrow> raindex_cfg iteration \<Rightarrow> string \<Rightarrow> (parsed_runner_settings, local_db_error) result" where
  "parse_runner_settings display load T order settings_yaml =
     rbind (map_err (\<lambda>e. Settings_Yaml (display e)) (raindex_yaml_new load T [settings_yaml] validation_default))
       (parse_runner_settings_from_yaml display T order)"

definition map_sync_to_engine ::
  "local_db_sync_cfg \<Rightarrow> (fetch_config \<times> finality_config, local_db_error) result" where
  "map_sync_to_engine sync =
     rbind (map_err Fetch_Config_Error
       (fetch_config_new (ucast (ls_batch_size sync)) (unat (ls_max_concurrent_batches sync))
          (unat (ls_max_concurrent_batches sync)) (unat (ls_retry_attempts sync))
          (ls_retry_delay_ms sync) (ls_rate_limit_delay_ms sync))) (\<lambda>fetch.
     Ok (fetch, \<lparr>fin_depth = ls_finality_depth sync\<rparr>))"

definition build_runner_target ::
  "(string \<Rightarrow> local_db_sync_cfg option) \<Rightarrow> string \<times> raindex_cfg \<Rightarrow> (runner_target, local_db_error) result" where
  "build_runner_target syncs entry = (case entry of (key, raindex) \<Rightarrow>
     let network_key = nc_key (rx_network raindex) in
     rbind (ok_or (syncs network_key) (Missing_Local_Db_Sync_For_Network network_key)) (\<lambda>sync_cfg.
     rbind (map_sync_to_engine sync_cfg) (\<lambda>(fetch, finality).
     let inputs = \<lparr>in_raindex_id = raindex_id_of raindex, in_metadata_rpcs = nc_rpcs (rx_network raindex),
           in_cfg = \<lparr>sy_deployment_block = rx_deployment_block raindex, sy_fetch = fetch,
             sy_finality = finality,
             sy_window_overrides = \<lparr>wo_start_block = None, wo_end_block = None\<rparr>,
             sy_max_blocks_per_cycle = None\<rparr>,
           in_dump_str = None, in_defer_analyze = False,
           in_block_number_threshold = ls_bootstrap_block_threshold sync_cfg,
           in_manifest_end_block = 0\<rparr> in
     rbind (ok_or (rx_local_db_remote raindex) (Missing_Local_Db_Remote key)) (\<lambda>remote.
     Ok \<lparr>tg_raindex_key = key, tg_manifest_url = lr_url remote, tg_network_key = network_key,
         tg_inputs = inputs\<rparr>))))"

definition build_runner_targets ::
  "(string \<times> raindex_cfg) list \<Rightarrow> (string \<Rightarrow> local_db_sync_cfg option)
   \<Rightarrow> (runner_target list, local_db_error) result" where
  "build_runner_targets raindexes syncs = rmap (build_runner_target syncs) raindexes"

definition group_targets_by_network :: "runner_target list \<Rightarrow> string \<Rightarrow> runner_target list option" where
  "group_targets_by_network targets key =
     (case filter (\<lambda>t. tg_network_key t = key) targets of [] \<Rightarrow> None | ts \<Rightarrow> Some ts)"

section \<open>The settings of one network\<close>

record network_runner_config =
  nr_network_key :: string
  nr_chain_id :: u32
  nr_settings :: parsed_runner_settings

definition max_chunks_per_client_cycle :: u64 where
  "max_chunks_per_client_cycle = 100"

definition from_global_settings ::
  "parsed_runner_settings \<Rightarrow> string \<Rightarrow> (network_runner_config, local_db_error) result" where
  "from_global_settings global network_key =
     (let filtered_raindexes =
            filter (\<lambda>(_, raindex_cfg). nc_key (rx_network raindex_cfg) = network_key) (ps_raindexes global) in
      case filtered_raindexes of
        [] \<Rightarrow> Err (Custom_Error (''no raindexes found for network: '' @ network_key))
      | (_, raindex_cfg) # _ \<Rightarrow>
          Ok \<lparr>nr_network_key = network_key, nr_chain_id = nc_chain_id (rx_network raindex_cfg),
              nr_settings = \<lparr>ps_raindexes = filtered_raindexes,
                ps_syncs = (\<lambda>k. if k = network_key then ps_syncs global k else None)\<rparr>\<rparr>)"

definition cap_target :: "runner_target \<Rightarrow> runner_target" where
  "cap_target target =
     target\<lparr>tg_inputs := (tg_inputs target)\<lparr>in_cfg := (in_cfg (tg_inputs target))
       \<lparr>sy_max_blocks_per_cycle :=
          Some (saturating_mul (fc_chunk_size (sy_fetch (in_cfg (tg_inputs target))))
                  max_chunks_per_client_cycle)\<rparr>\<rparr>\<rparr>"

definition build_targets :: "network_runner_config \<Rightarrow> (runner_target list, local_db_error) result" where
  "build_targets config =
     rbind (build_runner_targets (ps_raindexes (nr_settings config)) (ps_syncs (nr_settings config)))
       (\<lambda>targets. Ok (map cap_target targets))"

section \<open>Manifests\<close>

type_synonym manifest_map = "url \<Rightarrow> local_db_manifest option"

definition unique :: "'a list \<Rightarrow> 'a list" where
  \<comment> \<open>\<open>Itertools::unique\<close>: the first occurrence of each element\<close>
  "unique xs = rev (remdups (rev xs))"

definition collect_manifest_urls :: "(string \<times> raindex_cfg) list \<Rightarrow> (url list, local_db_error) result" where
  "collect_manifest_urls raindexes =
     rbind (rmap (\<lambda>(key, raindex). ok_or (map_option lr_url (rx_local_db_remote raindex))
              (Missing_Local_Db_Remote key)) raindexes) (\<lambda>urls. Ok (unique urls))"

definition get_manifests ::
  "(url list \<Rightarrow> (manifest_map, ext_error, 'w) io) \<Rightarrow> (string \<times> raindex_cfg) list
   \<Rightarrow> (manifest_map, local_db_error, 'w) io" where
  \<comment> \<open>\<open>fetch_multiple_manifests\<close>, the HTTP requests, is the first argument\<close>
  "get_manifests fetch_multiple_manifests raindexes =
     io_bind (io_pure (collect_manifest_urls raindexes)) (\<lambda>urls.
     if urls = [] then io_return Map.empty
     else io_map_err Manifest_Fetch (fetch_multiple_manifests urls))"

definition lookup_manifest_entry :: "manifest_map \<Rightarrow> runner_target \<Rightarrow> manifest_raindex option" where
  "lookup_manifest_entry manifest_map target =
     (case manifest_map (tg_manifest_url target) of
        None \<Rightarrow> None
      | Some manifest \<Rightarrow>
          manifest_find manifest (ri_chain_id (target_id target)) (ri_raindex_address (target_id target)))"

section \<open>Properties\<close>

definition target_of :: "string \<times> raindex_cfg \<Rightarrow> local_db_sync_cfg \<Rightarrow> runner_target \<Rightarrow> bool" where
  \<comment> \<open>what a target says of the raindex it was built for\<close>
  "target_of entry sync t \<longleftrightarrow> (let raindex = snd entry; input = tg_inputs t; cfg = in_cfg input in
     tg_raindex_key t = fst entry \<and> tg_network_key t = nc_key (rx_network raindex) \<and>
     target_id t = raindex_id_of raindex \<and> in_metadata_rpcs input = nc_rpcs (rx_network raindex) \<and>
     (\<exists>remote. rx_local_db_remote raindex = Some remote \<and> tg_manifest_url t = lr_url remote) \<and>
     sy_deployment_block cfg = rx_deployment_block raindex \<and>
     unat (fc_chunk_size (sy_fetch cfg)) = unat (ls_batch_size sync) \<and>
     fin_depth (sy_finality cfg) = ls_finality_depth sync \<and>
     in_block_number_threshold input = ls_bootstrap_block_threshold sync \<and>
     sy_window_overrides cfg = \<lparr>wo_start_block = None, wo_end_block = None\<rparr> \<and>
     in_dump_str input = None)"

lemma build_runner_target_Ok:
  assumes "build_runner_target syncs e = Ok t"
  obtains sync where "syncs (nc_key (rx_network (snd e))) = Some sync" "target_of e sync t"
    "sy_max_blocks_per_cycle (in_cfg (tg_inputs t)) = None"
    "fc_chunk_size (sy_fetch (in_cfg (tg_inputs t))) \<noteq> 0"
proof -
  from assms obtain sync where "syncs (nc_key (rx_network (snd e))) = Some sync" and
    "target_of e sync t" "sy_max_blocks_per_cycle (in_cfg (tg_inputs t)) = None"
    "fc_chunk_size (sy_fetch (in_cfg (tg_inputs t))) \<noteq> 0"
    by (cases e) (auto simp: build_runner_target_def map_sync_to_engine_def fetch_config_new_def
        target_of_def Let_def ok_iff unat_ucast_le split: if_splits)
  then show thesis by (rule that)
qed

lemma cap_target_simps [simp]:
  "tg_raindex_key (cap_target t) = tg_raindex_key t"
  "target_id (cap_target t) = target_id t"
  "target_of e sync (cap_target t) = target_of e sync t"
  by (simp_all add: cap_target_def target_of_def Let_def)

lemma cap_target_bound:
  "\<exists>n. sy_max_blocks_per_cycle (in_cfg (tg_inputs (cap_target t))) = Some n \<and>
     unat n = min (100 * unat (fc_chunk_size (sy_fetch (in_cfg (tg_inputs t))))) (2 ^ 64 - 1)"
  by (simp add: cap_target_def unat_saturating_mul max_chunks_per_client_cycle_def mult.commute)

text \<open>
  The runner of a network syncs every raindex of that network and no other: its
  targets correspond one to one, in order, to the raindexes configured on the network, each with
  the identity, deployment block, RPCs and manifest of its raindex and the batch size, finality
  depth and threshold of the network's sync settings; every cycle is capped at a hundred batches.
\<close>
lemma network_targets_match_settings:
  assumes "from_global_settings global network_key = Ok config" "build_targets config = Ok targets"
  shows "\<exists>sync. ps_syncs global network_key = Some sync \<and>
    list_all2 (\<lambda>entry t. target_of entry sync t \<and> (\<exists>n.
        sy_max_blocks_per_cycle (in_cfg (tg_inputs t)) = Some n \<and>
        unat n = min (100 * unat (ls_batch_size sync)) (2 ^ 64 - 1) \<and> 0 < unat n))
      (filter (\<lambda>(_, raindex). nc_key (rx_network raindex) = network_key) (ps_raindexes global)) targets"
proof -
  let ?rs = "filter (\<lambda>(_, raindex). nc_key (rx_network raindex) = network_key) (ps_raindexes global)"
  have config: "ps_raindexes (nr_settings config) = ?rs"
    "ps_syncs (nr_settings config) = (\<lambda>k. if k = network_key then ps_syncs global k else None)"
    "?rs \<noteq> []"
    using assms(1) by (auto simp: from_global_settings_def Let_def split: list.splits)
  from assms(2) obtain ts where ts: "rmap (build_runner_target (ps_syncs (nr_settings config))) ?rs = Ok ts"
    and targets: "targets = map cap_target ts"
    by (auto simp: build_targets_def build_runner_targets_def ok_iff config(1))
  have each: "\<exists>sync. ps_syncs global network_key = Some sync \<and> target_of (?rs ! i) sync (ts ! i) \<and>
      fc_chunk_size (sy_fetch (in_cfg (tg_inputs (ts ! i)))) \<noteq> 0" if "i < length ?rs" for i
  proof -
    have key: "nc_key (rx_network (snd (?rs ! i))) = network_key"
      using nth_mem[OF that] by (auto simp: case_prod_beta)
    from rmap_Ok_nth[OF ts that] show ?thesis
      by (rule build_runner_target_Ok) (auto simp: config(2) key split: if_splits)
  qed
  from each[of 0] config(3) obtain sync where sync: "ps_syncs global network_key = Some sync"
    by auto
  have "list_all2 (\<lambda>entry t. target_of entry sync t \<and> (\<exists>n.
        sy_max_blocks_per_cycle (in_cfg (tg_inputs t)) = Some n \<and>
        unat n = min (100 * unat (ls_batch_size sync)) (2 ^ 64 - 1) \<and> 0 < unat n)) ?rs targets"
    unfolding list_all2_conv_all_nth
  proof (intro conjI allI impI)
    show "length ?rs = length targets" using rmap_Ok_length[OF ts] by (simp add: targets)
  next
    fix i
    assume i: "i < length ?rs"
    have len: "length ts = length ?rs" by (rule rmap_Ok_length[OF ts])
    from each[OF i] sync have t: "target_of (?rs ! i) sync (ts ! i)"
      and nz: "fc_chunk_size (sy_fetch (in_cfg (tg_inputs (ts ! i)))) \<noteq> 0" by auto
    show "target_of (?rs ! i) sync (targets ! i)" using t i len by (simp add: targets)
    have "unat (fc_chunk_size (sy_fetch (in_cfg (tg_inputs (ts ! i))))) = unat (ls_batch_size sync)"
      using t by (simp add: target_of_def Let_def)
    moreover have "0 < unat (fc_chunk_size (sy_fetch (in_cfg (tg_inputs (ts ! i)))))"
      using nz by (simp add: unat_gt_0)
    ultimately show "\<exists>n. sy_max_blocks_per_cycle (in_cfg (tg_inputs (targets ! i))) = Some n \<and>
        unat n = min (100 * unat (ls_batch_size sync)) (2 ^ 64 - 1) \<and> 0 < unat n"
      using cap_target_bound[of "ts ! i"] i len by (auto simp: targets)
  qed
  with sync show ?thesis by blast
qed

section \<open>Concrete settings\<close>

definition example_sync_cfg :: local_db_sync_cfg where
  "example_sync_cfg = \<lparr>ls_key = ''base'', ls_batch_size = 10, ls_max_concurrent_batches = 5,
     ls_retry_attempts = 3, ls_retry_delay_ms = 100, ls_rate_limit_delay_ms = 50,
     ls_finality_depth = 12, ls_bootstrap_block_threshold = 50, ls_sync_interval_ms = 5000\<rparr>"

definition example_raindex :: "string \<Rightarrow> u32 \<Rightarrow> raindex_cfg" where
  "example_raindex network chain_id = \<lparr>rx_key = ''rx'', rx_address = 7,
     rx_network = \<lparr>nc_key = network, nc_rpcs = [''https://rpc''], nc_chain_id = chain_id,
       nc_label = None, nc_network_id = None, nc_currency = None\<rparr>,
     rx_subgraph = \<lparr>sg_key = network, sg_url = ''https://sg''\<rparr>,
     rx_local_db_remote = Some \<lparr>lr_key = ''r'', lr_url = ''https://m''\<rparr>, rx_label = None,
     rx_deployment_block = 100\<rparr>"

definition example_settings :: parsed_runner_settings where
  "example_settings = \<lparr>ps_raindexes = [(''a'', example_raindex ''base'' 1), (''b'', example_raindex ''flare'' 14)],
     ps_syncs = [''base'' \<mapsto> example_sync_cfg]\<rparr>"

lemmas settings_eval = from_global_settings_def build_targets_def build_runner_targets_def
  build_runner_target_def map_sync_to_engine_def fetch_config_new_def example_settings_def
  example_raindex_def example_sync_cfg_def

lemma network_targets_match_settings_example:
  "\<exists>config targets. from_global_settings example_settings ''base'' = Ok config \<and>
     build_targets config = Ok targets \<and> map tg_raindex_key targets = [''a''] \<and>
     (\<exists>sync. ps_syncs example_settings ''base'' = Some sync \<and> list_all2 (\<lambda>entry t. target_of entry sync t)
        [(''a'', example_raindex ''base'' 1)] targets)"
proof -
  have "\<exists>config targets. from_global_settings example_settings ''base'' = Ok config \<and>
      build_targets config = Ok targets \<and> map tg_raindex_key targets = [''a'']"
    by (simp add: settings_eval Let_def)
  then obtain config targets where run: "from_global_settings example_settings ''base'' = Ok config"
    "build_targets config = Ok targets" "map tg_raindex_key targets = [''a'']"
    by (elim exE conjE)
  have "filter (\<lambda>(_, raindex). nc_key (rx_network raindex) = ''base'') (ps_raindexes example_settings)
      = [(''a'', example_raindex ''base'' 1)]"
    by (simp add: example_settings_def example_raindex_def)
  with network_targets_match_settings[OF run(1,2)] run show ?thesis
    by (auto elim!: list_all2_mono)
qed

end
