(* ===== verification/Bootstrap.thy ===== *)
theory Bootstrap
  imports Sync_Engine Manifest
begin

text \<open>
  \<open>local_db/pipeline/adapters/bootstrap.rs\<close> and the client's adapter
  \<open>raindex_client/local_db/pipeline/bootstrap.rs\<close>: bringing the database to the expected schema
  before the first sync, and seeding a raindex from a dump when that is quicker than syncing.

  The SQL scripts of the schema are the record \<open>schema_ops\<close>. The flag \<open>wasm\<close> is the build target,
  on which the import of a dump depends.
\<close>

section \<open>The shared operations\<close>

record required_table =
  rt_name :: string
  rt_columns :: "string list"

record schema_ops =
  sch_clear_tables :: sql_batch
  sch_create_tables :: sql_batch
  sch_create_views :: sql_batch
  sch_insert_db_metadata :: "u32 \<Rightarrow> sql_statement"
  sch_clear_raindex_data :: "raindex_identifier \<Rightarrow> sql_batch"
  sch_required_table_schema :: "required_table list"

definition required_tables :: "string list" where
  "required_tables = [''db_metadata'', ''target_watermarks'', ''sync_status'', ''raw_events'',
     ''deposits'', ''withdrawals'', ''order_events'', ''order_ios'', ''take_orders'',
     ''take_order_contexts'', ''context_values'', ''clear_v3_events'', ''after_clear_v2_events'',
     ''meta_events'', ''erc20_tokens'', ''interpreter_store_sets'', ''vault_balance_changes'',
     ''running_vault_balances'', ''derived_vault_deltas'', ''derived_trades'']"

definition vacuum_stmt :: sql_statement where
  "vacuum_stmt = sql_new ''VACUUM;''"

record bootstrap_state =
  bs_has_required_tables :: bool
  bs_last_synced_block :: "u64 option"

abbreviation lowercase :: "string \<Rightarrow> string" where
  "lowercase s \<equiv> map to_ascii_lowercase s"

definition expected_version :: "u32 option \<Rightarrow> u32" where
  "expected_version v = (case v of None \<Rightarrow> db_schema_version | Some n \<Rightarrow> n)"

definition ensure_schema :: "'w db_ops \<Rightarrow> u32 option \<Rightarrow> (unit, local_db_error, 'w) io" where
  "ensure_schema db version =
     io_bind (dbq (db_metadata_versions db)) (\<lambda>rows.
       case rows of
         found # _ \<Rightarrow>
           if found \<noteq> expected_version version
           then io_fail (Schema_Version_Mismatch (expected_version version) found)
           else io_return ()
       | [] \<Rightarrow> io_fail Missing_Db_Metadata_Row)"

definition inspect_state ::
  "'w db_ops \<Rightarrow> raindex_identifier \<Rightarrow> (bootstrap_state, local_db_error, 'w) io" where
  "inspect_state db raindex_id =
     io_bind (dbq (db_tables db)) (\<lambda>existing.
     let existing_set = set (map lowercase existing);
         has_required_tables = list_all (\<lambda>t. lowercase t \<in> existing_set) required_tables in
     io_bind (if ''target_watermarks'' \<in> existing_set
              then io_bind (dbq (db_watermark db raindex_id)) (\<lambda>rows.
                io_return (case rows of [] \<Rightarrow> None | r # _ \<Rightarrow> Some (tw_last_block r)))
              else io_return None) (\<lambda>last_synced_block.
     io_return \<lparr>bs_has_required_tables = has_required_tables,
                bs_last_synced_block = last_synced_block\<rparr>))"

definition reset_db ::
  "schema_ops \<Rightarrow> 'w db_ops \<Rightarrow> u32 option \<Rightarrow> (unit, local_db_error, 'w) io" where
  "reset_db S db version =
     io_bind (dbq (db_execute_batch db (sch_clear_tables S))) (\<lambda>_.
     io_bind (dbq (db_query_text db vacuum_stmt)) (\<lambda>_.
     io_bind (dbq (db_execute_batch db (sch_create_tables S))) (\<lambda>_.
     io_bind (dbq (db_query_text db (sch_insert_db_metadata S (expected_version version)))) (\<lambda>_.
     io_bind (dbq (db_execute_batch db (sch_create_views S))) (\<lambda>_.
     io_return ())))))"

definition check_integrity :: "'w db_ops \<Rightarrow> (bool, local_db_error, 'w) io" where
  "check_integrity db =
     io_bind (dbq (db_quick_check db)) (\<lambda>rows.
     io_return (case rows of [] \<Rightarrow> False | row # _ \<Rightarrow> eq_ignore_ascii_case row ''ok''))"

definition clear_raindex_data ::
  "schema_ops \<Rightarrow> 'w db_ops \<Rightarrow> raindex_identifier \<Rightarrow> (unit, local_db_error, 'w) io" where
  "clear_raindex_data S db raindex_id =
     io_bind (dbq (db_execute_batch db (sch_clear_raindex_data S raindex_id))) (\<lambda>_. io_return ())"

section \<open>The client's adapter\<close>

definition fetch_existing_tables :: "'w db_ops \<Rightarrow> (string set, local_db_error, 'w) io" where
  "fetch_existing_tables db =
     io_bind (dbq (db_tables db)) (\<lambda>existing. io_return (set (map lowercase existing)))"

definition has_required_tables :: "string set \<Rightarrow> bool" where
  "has_required_tables existing = list_all (\<lambda>t. lowercase t \<in> existing) required_tables"

fun schema_shape_loop ::
  "'w db_ops \<Rightarrow> string set \<Rightarrow> required_table list \<Rightarrow> (bool, local_db_error, 'w) io" where
  "schema_shape_loop db existing_tables [] w = (Ok True, w)"
| "schema_shape_loop db existing_tables (t # ts) w =
     (if rt_name t \<notin> existing_tables then (Ok False, w)
      else case dbq (db_table_columns db (rt_name t)) w of
        (Err e, w1) \<Rightarrow> (Err e, w1)
      | (Ok actual_columns, w1) \<Rightarrow>
          if list_ex (\<lambda>c. c \<notin> set (map lowercase actual_columns)) (rt_columns t)
          then (Ok False, w1) else schema_shape_loop db existing_tables ts w1)"

definition has_required_schema_shape ::
  "schema_ops \<Rightarrow> 'w db_ops \<Rightarrow> string set \<Rightarrow> (bool, local_db_error, 'w) io" where
  "has_required_schema_shape S db existing_tables =
     schema_shape_loop db existing_tables (sch_required_table_schema S)"

definition check_threshold :: "u64 \<Rightarrow> u64 option \<Rightarrow> u32 \<Rightarrow> (unit, local_db_error) result" where
  "check_threshold latest_block last_synced_block block_number_threshold =
     (case last_synced_block of
        None \<Rightarrow> Ok ()
      | Some last_block \<Rightarrow>
          let threshold = ucast block_number_threshold in
          if threshold < saturating_sub latest_block last_block
          then Err (Block_Sync_Threshold_Exceeded latest_block last_block threshold)
          else Ok ())"

definition is_fresh_db :: "'w db_ops \<Rightarrow> raindex_identifier \<Rightarrow> (bool, local_db_error, 'w) io" where
  "is_fresh_db db raindex_id =
     io_bind (dbq (db_watermark db raindex_id)) (\<lambda>rows. io_return (rows = []))"

definition apply_dump ::
  "bool \<Rightarrow> 'w db_ops \<Rightarrow> string option \<Rightarrow> sql_batch option \<Rightarrow> (unit, local_db_error, 'w) io" where
  "apply_dump wasm db dump_sql dump_stmt =
     (case (if wasm then dump_sql else None) of
        Some sql \<Rightarrow>
          io_bind (dbq (db_cache_size_query db)) (\<lambda>_.
          io_bind (io_map_err Dump_Import_Failed (db_execute_sql_dump db sql)) (\<lambda>_.
          io_return ()))
      | None \<Rightarrow>
          io_bind (dbq (db_query_text db (sql_new ''PRAGMA cache_size = -25000''))) (\<lambda>_.
          case dump_stmt of
            Some stmts \<Rightarrow> io_bind (dbq (db_execute_batch db stmts)) (\<lambda>_. io_return ())
          | None \<Rightarrow> io_return ()))"

definition client_engine_run ::
  "bool \<Rightarrow> schema_ops \<Rightarrow> 'w db_ops \<Rightarrow> bootstrap_config \<Rightarrow> (unit, local_db_error, 'w) io" where
  "client_engine_run wasm S db config =
     io_bind (inspect_state db (bo_raindex_id config)) (\<lambda>state.
     if bo_dump_sql config \<noteq> None \<or> bo_dump_stmt config \<noteq> None then
       io_bind (is_fresh_db db (bo_raindex_id config)) (\<lambda>fresh.
       if fresh then apply_dump wasm db (bo_dump_sql config) (bo_dump_stmt config)
       else case check_threshold (bo_latest_block config) (bs_last_synced_block state)
                   (bo_block_number_threshold config) of
         Ok _ \<Rightarrow> io_return ()
       | Err _ \<Rightarrow>
           io_bind (clear_raindex_data S db (bo_raindex_id config)) (\<lambda>_.
           apply_dump wasm db (bo_dump_sql config) (bo_dump_stmt config)))
     else io_return ())"

definition runner_health :: "'w db_ops \<Rightarrow> (bool, local_db_error, 'w) io" where
  \<comment> \<open>the first \<open>match\<close> of \<open>runner_run\<close>\<close>
  "runner_health db w =
     (case check_integrity db w of
        (Ok is_healthy, w1) \<Rightarrow> (Ok is_healthy, w1)
      | (Err (Query_Error err), w1) \<Rightarrow>
          if is_worker_unavailable err then (Err (Query_Error err), w1) else (Ok False, w1)
      | (Err _, w1) \<Rightarrow> (Ok False, w1))"

definition runner_upgrade ::
  "schema_ops \<Rightarrow> 'w db_ops \<Rightarrow> u32 option \<Rightarrow> string set \<Rightarrow> (unit, local_db_error, 'w) io" where
  \<comment> \<open>\<open>runner_run\<close> from the check of \<open>ensure_schema\<close> on\<close>
  "runner_upgrade S db version existing_tables =
     io_bind (io_try (ensure_schema db version)) (\<lambda>schema.
     case schema of
       Err err \<Rightarrow>
         (case err of
            Missing_Db_Metadata_Row \<Rightarrow> reset_db S db version
          | Schema_Version_Mismatch _ _ \<Rightarrow> reset_db S db version
          | _ \<Rightarrow> io_fail err)
     | Ok _ \<Rightarrow>
         io_bind (if \<not> has_required_tables existing_tables then io_return False
                  else has_required_schema_shape S db existing_tables) (\<lambda>shape_ok.
         if \<not> shape_ok then reset_db S db version
         else dbq (db_execute_batch db (sch_create_views S))))"

definition client_runner_run ::
  "schema_ops \<Rightarrow> 'w db_ops \<Rightarrow> u32 option \<Rightarrow> (unit, local_db_error, 'w) io" where
  "client_runner_run S db version =
     io_bind (runner_health db) (\<lambda>is_healthy.
     if \<not> is_healthy then
       io_bind (dbq (db_wipe_and_recreate db)) (\<lambda>_. reset_db S db version)
     else
       io_bind (fetch_existing_tables db) (\<lambda>existing_tables.
       if ''db_metadata'' \<notin> existing_tables then reset_db S db version
       else runner_upgrade S db version existing_tables))"

section \<open>Properties\<close>

lemma check_threshold_Ok:
  "check_threshold latest synced thr = Ok () \<longleftrightarrow>
   (\<forall>n. synced = Some n \<longrightarrow> unat latest - unat n \<le> unat thr)"
  by (auto simp: check_threshold_def Let_def word_less_nat_alt unat_saturating_sub unat_ucast_le
      split: option.splits)

text \<open>
  A dump is imported exactly when it is needed: with no dump nothing is written; with a
  dump it is imported once when the raindex has no watermark yet, and, after the raindex's data is
  cleared, when the watermark lags the dump by more blocks than the threshold; a watermark that is
  close enough, or ahead of the dump, is kept.
\<close>
lemma dump_imported_iff_needed:
  assumes "client_engine_run wasm S db config w = (Ok (), w')"
  shows "\<exists>state w1. inspect_state db (bo_raindex_id config) w = (Ok state, w1) \<and>
    (if bo_dump_sql config = None \<and> bo_dump_stmt config = None then w' = w1
     else \<exists>rows w2. db_watermark db (bo_raindex_id config) w1 = (Ok rows, w2) \<and>
       (if rows = []
        then apply_dump wasm db (bo_dump_sql config) (bo_dump_stmt config) w2 = (Ok (), w')
        else if \<exists>n. bs_last_synced_block state = Some n \<and>
               unat (bo_block_number_threshold config) < unat (bo_latest_block config) - unat n
        then \<exists>w3. clear_raindex_data S db (bo_raindex_id config) w2 = (Ok (), w3) \<and>
               apply_dump wasm db (bo_dump_sql config) (bo_dump_stmt config) w3 = (Ok (), w')
        else w' = w2))"
proof -
  from assms obtain state w1 where ins: "inspect_state db (bo_raindex_id config) w = (Ok state, w1)"
    by (auto simp: client_engine_run_def ok_iff)
  show ?thesis
  proof (cases "bo_dump_sql config = None \<and> bo_dump_stmt config = None")
    case True
    with assms ins show ?thesis by (auto simp: client_engine_run_def ok_iff)
  next
    case False
    with assms ins obtain rows w2 where wm: "db_watermark db (bo_raindex_id config) w1 = (Ok rows, w2)"
      by (auto simp: client_engine_run_def is_fresh_db_def ok_iff)
    let ?thr = "check_threshold (bo_latest_block config) (bs_last_synced_block state)
      (bo_block_number_threshold config)"
    have thr: "(\<exists>n. bs_last_synced_block state = Some n \<and>
        unat (bo_block_number_threshold config) < unat (bo_latest_block config) - unat n) \<longleftrightarrow>
        ?thr \<noteq> Ok ()"
      by (auto simp: check_threshold_Ok not_le)
    have rest: "(if rows = [] then apply_dump wasm db (bo_dump_sql config) (bo_dump_stmt config) w2
        else (case ?thr of Ok _ \<Rightarrow> io_return () | Err _ \<Rightarrow>
          io_bind (clear_raindex_data S db (bo_raindex_id config)) (\<lambda>_.
            apply_dump wasm db (bo_dump_sql config) (bo_dump_stmt config))) w2) = (Ok (), w')"
      using assms ins False wm by (auto simp: client_engine_run_def is_fresh_db_def io_defs
          split: if_splits)
    have imported: "if rows = []
        then apply_dump wasm db (bo_dump_sql config) (bo_dump_stmt config) w2 = (Ok (), w')
        else if \<exists>n. bs_last_synced_block state = Some n \<and>
               unat (bo_block_number_threshold config) < unat (bo_latest_block config) - unat n
        then \<exists>w3. clear_raindex_data S db (bo_raindex_id config) w2 = (Ok (), w3) \<and>
               apply_dump wasm db (bo_dump_sql config) (bo_dump_stmt config) w3 = (Ok (), w')
        else w' = w2"
      unfolding thr using rest by (cases ?thr) (auto simp: ok_iff split: if_splits)
    show ?thesis
      unfolding if_not_P[OF False] using ins wm imported by (intro exI conjI)
  qed
qed

lemma schema_shape_True:
  "schema_shape_loop db existing ts w = (Ok True, w') \<Longrightarrow> t \<in> set ts \<Longrightarrow>
   rt_name t \<in> existing \<and> (\<exists>w1 w2 columns. db_table_columns db (rt_name t) w1 = (Ok columns, w2) \<and>
     set (rt_columns t) \<subseteq> set (map lowercase columns))"
proof (induction ts arbitrary: w)
  case Nil
  then show ?case by simp
next
  case (Cons u ts)
  then show ?case
    by (fastforce simp: io_map_err_def list_ex_iff split: if_splits prod.splits result.splits)
qed

lemma upgrade_Ok:
  assumes up: "runner_upgrade S db version existing w = (Ok (), w')"
    and no_reset: "\<not> (\<exists>w1. reset_db S db version w1 = (Ok (), w'))"
  shows "\<exists>found rest w1 w2. db_metadata_versions db w = (Ok (found # rest), w1) \<and>
    found = expected_version version \<and> has_required_tables existing \<and>
    has_required_schema_shape S db existing w1 = (Ok True, w2) \<and>
    db_execute_batch db (sch_create_views S) w2 = (Ok (), w')"
proof -
  from up obtain sr w1 where es: "ensure_schema db version w = (sr, w1)"
    by (cases "ensure_schema db version w")
  show ?thesis
  proof (cases sr)
    case (Err err)
    with up es no_reset show ?thesis
      by (cases err) (auto simp: runner_upgrade_def io_try_def io_bind_def)
  next
    case (Ok u)
    from es[unfolded Ok] obtain rows where rows: "db_metadata_versions db w = (Ok rows, w1)"
      and found: "\<exists>rest. rows = expected_version version # rest"
      by (cases "db_metadata_versions db w"; cases "fst (db_metadata_versions db w)")
        (auto simp: ensure_schema_def io_defs neq_Nil_conv split: list.split_asm if_split_asm)
    then have "\<exists>found rest. db_metadata_versions db w = (Ok (found # rest), w1) \<and>
        found = expected_version version"
      by blast
    moreover from up es Ok have "io_bind (if \<not> has_required_tables existing then io_return False
        else has_required_schema_shape S db existing) (\<lambda>shape_ok.
          if \<not> shape_ok then reset_db S db version
          else dbq (db_execute_batch db (sch_create_views S))) w1 = (Ok (), w')"
      by (simp add: runner_upgrade_def io_try_def io_bind_def)
    ultimately show ?thesis using no_reset by (auto simp: ok_iff split: if_splits)
  qed
qed

text \<open>
  Claim C14. After the runner's bootstrap succeeds the database has the expected schema: either
  it was rebuilt from the scripts, or its metadata names the expected version, every required
  table exists with every required column, and the views were created last.
\<close>
theorem runner_leaves_expected_schema:
  assumes "client_runner_run S db version w = (Ok (), w')"
  shows "(\<exists>w1. reset_db S db version w1 = (Ok (), w')) \<or>
    (\<exists>tables w1 w2 w3 w4 found rest w5.
       db_tables db w1 = (Ok tables, w2) \<and>
       (\<forall>t\<in>set required_tables. lowercase t \<in> set (map lowercase tables)) \<and>
       db_metadata_versions db w3 = (Ok (found # rest), w4) \<and> found = expected_version version \<and>
       (\<forall>t\<in>set (sch_required_table_schema S). \<exists>w6 w7 columns.
          rt_name t \<in> set (map lowercase tables) \<and>
          db_table_columns db (rt_name t) w6 = (Ok columns, w7) \<and>
          set (rt_columns t) \<subseteq> set (map lowercase columns)) \<and>
       db_execute_batch db (sch_create_views S) w5 = (Ok (), w'))"
proof (cases "\<exists>w1. reset_db S db version w1 = (Ok (), w')")
  case True
  then show ?thesis by blast
next
  case False
  obtain existing w1 w2 where ex: "fetch_existing_tables db w1 = (Ok existing, w2)"
    and up: "runner_upgrade S db version existing w2 = (Ok (), w')"
    using assms False by (auto simp: client_runner_run_def ok_iff split: if_splits)
  from ex obtain tables where tables: "db_tables db w1 = (Ok tables, w2)"
    and existing: "existing = set (map lowercase tables)"
    by (auto simp: fetch_existing_tables_def ok_iff)
  from upgrade_Ok[OF up False] obtain found more w3 w4 where
    meta: "db_metadata_versions db w2 = (Ok (found # more), w3)" "found = expected_version version"
    and req: "has_required_tables existing"
    and shape: "has_required_schema_shape S db existing w3 = (Ok True, w4)"
    and views: "db_execute_batch db (sch_create_views S) w4 = (Ok (), w')"
    by blast
  have "\<forall>t\<in>set required_tables. lowercase t \<in> set (map lowercase tables)"
    using req by (simp add: has_required_tables_def list_all_iff existing)
  moreover have "\<forall>t\<in>set (sch_required_table_schema S). \<exists>w6 w7 columns.
      rt_name t \<in> set (map lowercase tables) \<and>
      db_table_columns db (rt_name t) w6 = (Ok columns, w7) \<and>
      set (rt_columns t) \<subseteq> set (map lowercase columns)"
    using schema_shape_True[OF shape[unfolded has_required_schema_shape_def]]
    unfolding existing by blast
  ultimately show ?thesis using tables meta views by blast
qed

text \<open>
  Claim C15. A busy database is not wiped: when the integrity check cannot be answered because the
  worker is importing a dump, timed out or is not initialised, the bootstrap returns that error
  and does nothing else.
\<close>
theorem busy_worker_is_not_wiped:
  assumes "db_quick_check db w = (Err e, w1)" "is_worker_unavailable e"
  shows "client_runner_run S db version w = (Err (Query_Error e), w1)"
  using assms by (simp add: client_runner_run_def runner_health_def check_integrity_def io_defs)

section \<open>Concrete runs\<close>

text \<open>
  A database that records what was done to it: the world is the list of actions, \<open>True\<close> for a
  batch. Its watermark is at block 100, its tables are the required ones with no column demanded.
\<close>

definition example_schema :: schema_ops where
  "example_schema = \<lparr>sch_clear_tables = batch_new,
     sch_create_tables = batch_new, sch_create_views = batch_new,
     sch_insert_db_metadata = (\<lambda>_. sql_new ''meta''), sch_clear_raindex_data = (\<lambda>_. batch_add (sql_new ''clear'') batch_new),
     sch_required_table_schema = [\<lparr>rt_name = ''raw_events'', rt_columns = [''log_index'']\<rparr>]\<rparr>"

definition example_bootstrap_db :: "query_error option \<Rightarrow> string list db_ops" where
  "example_bootstrap_db busy = \<lparr>
     db_execute_batch = (\<lambda>b w. (Ok (), w @ map sql_text (batch_statements b))),
     db_query_text = (\<lambda>s w. (Ok [], w @ [sql_text s])),
     db_execute_sql_dump = (\<lambda>d w. (Ok (), w @ [d])),
     db_wipe_and_recreate = (\<lambda>w. (Ok (), w @ [''wipe''])),
     db_watermark = (\<lambda>i w. (Ok [example_watermark i 100], w)),
     db_store_addresses = (\<lambda>_ w. (Ok [], w)),
     db_tables = (\<lambda>w. (Ok required_tables, w)),
     db_table_columns = (\<lambda>_ w. (Ok [''log_index''], w)),
     db_metadata_versions = (\<lambda>w. (Ok [5], w)),
     db_quick_check = (\<lambda>w. (case busy of None \<Rightarrow> Ok [''ok''] | Some e \<Rightarrow> Err e, w)),
     db_cache_size_query = (\<lambda>w. (Ok (), w))\<rparr>"

definition example_bootstrap_config :: bootstrap_config where
  "example_bootstrap_config = \<lparr>bo_raindex_id = \<lparr>ri_chain_id = 1, ri_raindex_address = 7\<rparr>,
     bo_dump_sql = None, bo_dump_stmt = Some (batch_add (sql_new ''dump'') batch_new), bo_latest_block = 200,
     bo_block_number_threshold = 50, bo_deployment_block = 1\<rparr>"

lemmas bootstrap_eval = client_engine_run_def inspect_state_def is_fresh_db_def apply_dump_def
  check_threshold_def clear_raindex_data_def example_schema_def example_bootstrap_db_def
  example_bootstrap_config_def io_defs sql_new_def saturating_sub_def
  batch_new_def batch_add_def

lemma lowercase_required: "lowercase ` set required_tables = set required_tables"
proof -
  have "map lowercase required_tables = required_tables" by code_simp
  then show ?thesis by (metis set_map)
qed

lemma example_engine_run:
  "client_engine_run False example_schema (example_bootstrap_db None) example_bootstrap_config [] =
   (Ok (), [''clear'', ''PRAGMA cache_size = -25000'', ''dump''])"
  by (simp add: bootstrap_eval lowercase_required) (simp add: required_tables_def)

lemma dump_imported_iff_needed_example:
  "\<exists>w2 w3. clear_raindex_data example_schema (example_bootstrap_db None)
       (bo_raindex_id example_bootstrap_config) w2 = (Ok (), w3) \<and>
     apply_dump False (example_bootstrap_db None) (bo_dump_sql example_bootstrap_config)
       (bo_dump_stmt example_bootstrap_config) w3 =
     (Ok (), [''clear'', ''PRAGMA cache_size = -25000'', ''dump''])"
  using dump_imported_iff_needed[OF example_engine_run] by (auto simp: bootstrap_eval)

lemma example_runner_run:
  "client_runner_run example_schema (example_bootstrap_db None) None [] = (Ok (), [])"
proof -
  have "eq_ignore_ascii_case ''ok'' ''ok''" "lowercase ''log_index'' = ''log_index''" by code_simp+
  moreover have "''db_metadata'' \<in> set required_tables" "''raw_events'' \<in> set required_tables"
    "list_all (\<lambda>t. lowercase t \<in> set required_tables) required_tables" by code_simp+
  ultimately show ?thesis
    by (simp add: client_runner_run_def runner_health_def check_integrity_def lowercase_required
        fetch_existing_tables_def runner_upgrade_def ensure_schema_def expected_version_def
        db_schema_version_def has_required_tables_def has_required_schema_shape_def bootstrap_eval)
qed

theorem runner_leaves_expected_schema_witness:
  "db_execute_batch (example_bootstrap_db None) (sch_create_views example_schema) [] = (Ok (), []) \<and>
   (\<exists>tables w1 w2. db_tables (example_bootstrap_db None) w1 = (Ok tables, w2))"
  using runner_leaves_expected_schema[OF example_runner_run]
  by (auto simp: bootstrap_eval)

theorem busy_worker_is_not_wiped_witness:
  "client_runner_run example_schema (example_bootstrap_db (Some (Database ''Query timeout''))) None []
   = (Err (Query_Error (Database ''Query timeout'')), [])"
  by (rule busy_worker_is_not_wiped)
    (simp_all add: bootstrap_eval is_worker_unavailable_def)

end
