(* ===== verification/Client_Runner.thy ===== *)
theory Client_Runner
  imports Runner_Targets Bootstrap
begin

text \<open>
  \<open>raindex_client/local_db/pipeline/runner/mod.rs\<close>: the runner of one network. A run takes the
  leadership, loads the manifests, downloads the dumps that are needed until they are provisioned,
  and runs the sync engine of every target.

  The environment (\<open>RunnerEnvironment\<close>: manifests, dumps, engines) and the leadership are the record
  \<open>runner_env\<close>; a leadership guard has no content the runner reads, so the held guard is a flag.
  The futures that the code joins are run one after the other, each to its end.
\<close>

section \<open>Reports\<close>

datatype target_stage = Manifest_Fetch_Stage | Dump_Download | Engine_Build | Engine_Run | Export_Stage

record target_failure =
  tf_raindex_id :: raindex_identifier
  tf_raindex_key :: "string option"
  tf_stage :: target_stage
  tf_error :: local_db_error

record run_report =
  rr_successes :: "sync_outcome list"
  rr_failures :: "target_failure list"

datatype run_outcome = Report run_report | Not_Leader

section \<open>The runner\<close>

definition max_dump_import_attempts :: u32 where
  "max_dump_import_attempts = 3"

record runner_state =
  ru_manifest_map :: manifest_map
  ru_manifests_loaded :: bool
  ru_has_provisioned_dumps :: bool
  ru_failed_dump_imports :: "raindex_identifier \<Rightarrow> u32 option"
  ru_leadership_guard :: bool

record 'w runner_env =
  re_raindexes :: "(string \<times> raindex_cfg) list"
  re_base_targets :: "runner_target list"
  re_fetch_manifests :: "(string \<times> raindex_cfg) list \<Rightarrow> (manifest_map, local_db_error, 'w) io"
  re_download_dump :: "url \<Rightarrow> (string, local_db_error, 'w) io"
  re_build_engine :: "runner_target \<Rightarrow> ('w engine, local_db_error) result"
  re_acquire :: "(bool, local_db_error, 'w) io"
  re_on_phase :: "sync_phase \<Rightarrow> 'w \<Rightarrow> 'w"
  re_error_text :: "local_db_error \<Rightarrow> string"

definition runner_init :: "bool \<Rightarrow> runner_state" where
  \<comment> \<open>\<open>from_config\<close>, then \<open>with_initial_leadership\<close>\<close>
  "runner_init guard = \<lparr>ru_manifest_map = Map.empty, ru_manifests_loaded = False,
     ru_has_provisioned_dumps = False, ru_failed_dump_imports = Map.empty,
     ru_leadership_guard = guard\<rparr>"

definition needs_initial_provisioning :: "runner_state \<Rightarrow> bool" where
  "needs_initial_provisioning st \<longleftrightarrow> \<not> ru_manifests_loaded st \<or> \<not> ru_has_provisioned_dumps st"

definition should_download_dump ::
  "'w db_ops \<Rightarrow> runner_target \<Rightarrow> manifest_raindex \<Rightarrow> (bool, local_db_error, 'w) io" where
  "should_download_dump db target entry =
     io_bind (dbq (db_watermark db (target_id target))) (\<lambda>rows.
     io_return (case rows of
       [] \<Rightarrow> True
     | row # _ \<Rightarrow> ucast (in_block_number_threshold (tg_inputs target)) <
         saturating_sub (mr_end_block entry) (tw_last_block row)))"

definition dump_failure :: "runner_target \<Rightarrow> local_db_error \<Rightarrow> target_failure" where
  "dump_failure target error = \<lparr>tf_raindex_id = target_id target,
     tf_raindex_key = Some (tg_raindex_key target), tf_stage = Dump_Download, tf_error = error\<rparr>"

definition provision_target ::
  "'w runner_env \<Rightarrow> runner_state \<Rightarrow> 'w db_ops \<Rightarrow> runner_target \<Rightarrow> (runner_target, target_failure, 'w) io" where
  "provision_target env st db target =
     (case lookup_manifest_entry (ru_manifest_map st) target of
        None \<Rightarrow> io_return target
      | Some entry \<Rightarrow>
          io_bind (io_map_err (dump_failure target) (should_download_dump db target entry)) (\<lambda>download.
          let target = target\<lparr>tg_inputs := (tg_inputs target)\<lparr>in_manifest_end_block := mr_end_block entry\<rparr>\<rparr>;
              import_retries_exhausted = (case ru_failed_dump_imports st (target_id target) of
                None \<Rightarrow> False | Some attempts \<Rightarrow> max_dump_import_attempts \<le> attempts) in
          if \<not> download \<or> import_retries_exhausted then io_return target
          else
            io_bind (\<lambda>w. (Ok (), re_on_phase env Downloading_Initial_Dump w)) (\<lambda>_.
            io_bind (io_map_err (dump_failure target) (re_download_dump env (mr_dump_url entry))) (\<lambda>sql.
            io_return (target\<lparr>tg_inputs := (tg_inputs target)\<lparr>in_dump_str := Some sql\<rparr>\<rparr>)))))"

definition provision_dumps ::
  "'w runner_env \<Rightarrow> runner_state \<Rightarrow> 'w db_ops \<Rightarrow> runner_target list \<Rightarrow> 'w
   \<Rightarrow> (runner_target list \<times> target_failure list) \<times> 'w" where
  "provision_dumps env st db targets w =
     (case io_map_all (provision_target env st db) targets w of (results, w') \<Rightarrow>
        ((oks results, errs results), w'))"

definition execute_target ::
  "bool \<Rightarrow> 'w runner_env \<Rightarrow> 'w db_ops \<Rightarrow> runner_target \<Rightarrow> (sync_outcome, target_failure, 'w) io" where
  "execute_target wasm env db target =
     (let failure = (\<lambda>stage error. \<lparr>tf_raindex_id = target_id target,
            tf_raindex_key = Some (tg_raindex_key target), tf_stage = stage, tf_error = error\<rparr>) in
      io_bind (io_pure (map_err (failure Engine_Build) (re_build_engine env target))) (\<lambda>engine.
      io_map_err (failure Engine_Run) (engine_run wasm engine db (tg_inputs target))))"

definition execute_targets ::
  "bool \<Rightarrow> 'w runner_env \<Rightarrow> 'w db_ops \<Rightarrow> runner_target list \<Rightarrow> 'w \<Rightarrow> run_report \<times> 'w" where
  "execute_targets wasm env db targets w =
     (if targets = [] then (\<lparr>rr_successes = [], rr_failures = []\<rparr>, w)
      else case io_map_all (execute_target wasm env db) targets w of (results, w') \<Rightarrow>
        (\<lparr>rr_successes = oks results, rr_failures = errs results\<rparr>, w'))"

fun is_dump_import_failed :: "local_db_error \<Rightarrow> bool" where
  "is_dump_import_failed (Dump_Import_Failed _) = True"
| "is_dump_import_failed _ = False"

definition attempts_of :: "(raindex_identifier \<Rightarrow> u32 option) \<Rightarrow> raindex_identifier \<Rightarrow> u32" where
  "attempts_of tried i = (case tried i of None \<Rightarrow> 0 | Some n \<Rightarrow> n)"

fun count_import_failures ::
  "target_failure list \<Rightarrow> (raindex_identifier \<Rightarrow> u32 option) \<Rightarrow> bool
   \<Rightarrow> (raindex_identifier \<Rightarrow> u32 option) \<times> bool" where
  "count_import_failures [] tried retryable = (tried, retryable)"
| "count_import_failures (failure # failures) tried retryable =
     (if is_dump_import_failed (tf_error failure) then
        let attempts = attempts_of tried (tf_raindex_id failure) + 1 in
        count_import_failures failures (tried(tf_raindex_id failure \<mapsto> attempts))
          (retryable \<or> attempts < max_dump_import_attempts)
      else count_import_failures failures tried retryable)"

definition defer_analyze :: "bool \<Rightarrow> runner_target list \<Rightarrow> runner_target list" where
  "defer_analyze had_downloaded_dump targets =
     (if had_downloaded_dump
      then map (\<lambda>t. t\<lparr>tg_inputs := (tg_inputs t)\<lparr>in_defer_analyze := True\<rparr>\<rparr>) targets else targets)"

definition run_provisioning ::
  "bool \<Rightarrow> 'w runner_env \<Rightarrow> 'w db_ops \<Rightarrow> runner_state \<Rightarrow> 'w \<Rightarrow> run_report \<times> runner_state \<times> 'w" where
  \<comment> \<open>the branch \<open>needs_provisioning\<close> of a run\<close>
  "run_provisioning wasm env db st w =
     (case provision_dumps env st db (re_base_targets env) w of ((provisioned, provisioning_failures), w1) \<Rightarrow>
      let had_downloaded_dump = wasm \<and> list_ex (\<lambda>t. in_dump_str (tg_inputs t) \<noteq> None) provisioned in
      case execute_targets wasm env db (defer_analyze had_downloaded_dump provisioned) w1 of (report, w2) \<Rightarrow>
      case count_import_failures (rr_failures report) (ru_failed_dump_imports st) False of
        (tried, had_retryable_import_failure) \<Rightarrow>
      let w3 = (if had_downloaded_dump then snd (db_query_text db (sql_new ''ANALYZE'') w2) else w2) in
      (\<lparr>rr_successes = rr_successes report, rr_failures = provisioning_failures @ rr_failures report\<rparr>,
       st\<lparr>ru_failed_dump_imports := tried,
          ru_has_provisioned_dumps := provisioning_failures = [] \<and> \<not> had_retryable_import_failure\<rparr>,
       w3))"

definition manifest_failure :: "'w runner_env \<Rightarrow> local_db_error \<Rightarrow> target_failure" where
  "manifest_failure env error =
     (case re_raindexes env of
        (key, raindex) # _ \<Rightarrow> \<lparr>tf_raindex_id = raindex_id_of raindex, tf_raindex_key = Some key,
          tf_stage = Manifest_Fetch_Stage, tf_error = error\<rparr>
      | [] \<Rightarrow> \<lparr>tf_raindex_id = \<lparr>ri_chain_id = 0, ri_raindex_address = 0\<rparr>, tf_raindex_key = None,
          tf_stage = Manifest_Fetch_Stage,
          tf_error = Custom_Error (''no raindexes configured: '' @ re_error_text env error)\<rparr>)"

definition run_as_leader ::
  "bool \<Rightarrow> 'w runner_env \<Rightarrow> 'w db_ops \<Rightarrow> runner_state \<Rightarrow> 'w \<Rightarrow> run_report \<times> runner_state \<times> 'w" where
  \<comment> \<open>a run from the loading of the manifests on\<close>
  "run_as_leader wasm env db st w =
     (case (if ru_manifests_loaded st then (Ok (ru_manifest_map st), w)
            else re_fetch_manifests env (re_raindexes env) (re_on_phase env Fetching_Sync_Manifest w)) of
        (Err error, w1) \<Rightarrow> (\<lparr>rr_successes = [], rr_failures = [manifest_failure env error]\<rparr>, st, w1)
      | (Ok manifests, w1) \<Rightarrow>
          let st1 = st\<lparr>ru_manifest_map := manifests, ru_manifests_loaded := True\<rparr> in
          if \<not> ru_has_provisioned_dumps st1 then run_provisioning wasm env db st1 w1
          else case execute_targets wasm env db (re_base_targets env) w1 of (report, w2) \<Rightarrow> (report, st1, w2))"

definition run_with_phase_callback ::
  "bool \<Rightarrow> 'w runner_env \<Rightarrow> 'w db_ops \<Rightarrow> runner_state \<Rightarrow> 'w
   \<Rightarrow> (run_outcome, local_db_error) result \<times> runner_state \<times> 'w" where
  "run_with_phase_callback wasm env db st w =
     (case (if ru_leadership_guard st then (Ok True, w) else re_acquire env w) of
        (Err e, w1) \<Rightarrow> (Err e, st, w1)
      | (Ok False, w1) \<Rightarrow> (Ok Not_Leader, st, w1)
      | (Ok True, w1) \<Rightarrow>
          (case run_as_leader wasm env db (st\<lparr>ru_leadership_guard := True\<rparr>) w1 of
             (report, st1, w2) \<Rightarrow> (Ok (Report report), st1, w2)))"

section \<open>Every target is reported\<close>

lemma engine_run_id: "engine_run wasm E db input w = (Ok out, w') \<Longrightarrow> so_raindex_id out = in_raindex_id input"
  by (auto simp: engine_run_def ok_iff Let_def split: if_splits)

lemma execute_target_id:
  "execute_target wasm env db t w = (r, w') \<Longrightarrow>
   (case r of Ok out \<Rightarrow> so_raindex_id out | Err f \<Rightarrow> tf_raindex_id f) = target_id t"
  by (auto simp: execute_target_def io_defs Let_def map_err_Err_iff dest!: engine_run_id
      split: prod.splits result.splits)

lemma provision_target_id:
  "provision_target env st db t w = (r, w') \<Longrightarrow>
   (case r of Ok t' \<Rightarrow> target_id t' | Err f \<Rightarrow> tf_raindex_id f) = target_id t"
  by (auto simp: provision_target_def dump_failure_def io_defs Let_def map_err_Err_iff
      split: option.splits prod.splits result.splits if_splits)

lemma map_all_ids:
  assumes "io_map_all f ts w = (rs, w')" "\<And>t w r w'. f t w = (r, w') \<Longrightarrow> h r = g t"
  shows "map h rs = map g ts"
  using io_map_all_results[OF assms(1)] assms(2) by (induction rule: list_all2_induct) auto

lemma execute_targets_ids:
  assumes "execute_targets wasm env db ts w = (report, w')"
  shows "image_mset so_raindex_id (mset (rr_successes report)) +
    image_mset tf_raindex_id (mset (rr_failures report)) = mset (map target_id ts)"
proof (cases "ts = []")
  case True
  with assms show ?thesis by (auto simp: execute_targets_def)
next
  case False
  with assms obtain rs where rs: "io_map_all (execute_target wasm env db) ts w = (rs, w')"
    and report: "report = \<lparr>rr_successes = oks rs, rr_failures = errs rs\<rparr>"
    by (auto simp: execute_targets_def split: prod.splits)
  have "map (case_result so_raindex_id tf_raindex_id) rs = map target_id ts"
    by (rule map_all_ids[OF rs]) (rule execute_target_id)
  then show ?thesis unfolding report by (simp add: mset_oks_errs)
qed

lemma provision_dumps_ids:
  assumes "provision_dumps env st db ts w = ((provisioned, failures), w')"
  shows "mset (map target_id provisioned) + image_mset tf_raindex_id (mset failures) = mset (map target_id ts)"
proof -
  from assms obtain rs where rs: "io_map_all (provision_target env st db) ts w = (rs, w')"
    and out: "provisioned = oks rs" "failures = errs rs"
    by (auto simp: provision_dumps_def split: prod.splits)
  have "map (case_result target_id tf_raindex_id) rs = map target_id ts"
    by (rule map_all_ids[OF rs]) (rule provision_target_id)
  then show ?thesis unfolding out by (simp add: mset_oks_errs)
qed

lemma defer_analyze_ids: "map target_id (defer_analyze b ts) = map target_id ts"
  by (simp add: defer_analyze_def)

lemma run_provisioning_ids:
  assumes "run_provisioning wasm env db st w = (report, st', w')"
  shows "image_mset so_raindex_id (mset (rr_successes report)) +
    image_mset tf_raindex_id (mset (rr_failures report)) = mset (map target_id (re_base_targets env))"
proof -
  obtain provisioned failures w1 where
    prov: "provision_dumps env st db (re_base_targets env) w = ((provisioned, failures), w1)"
    by (metis surj_pair)
  define b where "b = (wasm \<and> list_ex (\<lambda>t. in_dump_str (tg_inputs t) \<noteq> None) provisioned)"
  obtain r w2 where ex: "execute_targets wasm env db (defer_analyze b provisioned) w1 = (r, w2)" by force
  have "report = \<lparr>rr_successes = rr_successes r, rr_failures = failures @ rr_failures r\<rparr>"
    using assms prov ex by (auto simp: run_provisioning_def Let_def b_def split: prod.splits)
  then show ?thesis
    using provision_dumps_ids[OF prov] execute_targets_ids[OF ex]
    by (simp add: defer_analyze_ids[unfolded mset_map] ac_simps flip: mset_map)
qed

lemma report_covers_targets:
  assumes "run_with_phase_callback wasm env db st w = (Ok (Report report), st', w')"
    and "ru_manifests_loaded st'"
  shows "image_mset so_raindex_id (mset (rr_successes report)) +
    image_mset tf_raindex_id (mset (rr_failures report)) = mset (map target_id (re_base_targets env))"
proof -
  from assms(1) obtain w1 where lead: "run_as_leader wasm env db (st\<lparr>ru_leadership_guard := True\<rparr>) w1
      = (report, st', w')"
    by (auto simp: run_with_phase_callback_def split: prod.splits result.splits bool.splits if_splits)
  show ?thesis
    using lead assms(2)
    by (auto simp: run_as_leader_def Let_def dest: run_provisioning_ids execute_targets_ids
        split: prod.splits result.splits if_splits)
qed

lemma unloaded_report:
  assumes "run_with_phase_callback wasm env db st w = (Ok (Report report), st', w')"
    and "\<not> ru_manifests_loaded st'"
  shows "\<exists>e w1 w2. re_fetch_manifests env (re_raindexes env) w1 = (Err e, w2) \<and>
    report = \<lparr>rr_successes = [], rr_failures = [manifest_failure env e]\<rparr>"
proof -
  from assms(1) obtain w1 where lead: "run_as_leader wasm env db (st\<lparr>ru_leadership_guard := True\<rparr>) w1
      = (report, st', w')"
    by (auto simp: run_with_phase_callback_def split: prod.splits result.splits bool.splits if_splits)
  obtain r w2 where fetch: "re_fetch_manifests env (re_raindexes env)
      (re_on_phase env Fetching_Sync_Manifest w1) = (r, w2)" by force
  have "\<exists>e. r = Err e \<and> report = \<lparr>rr_successes = [], rr_failures = [manifest_failure env e]\<rparr>"
    using lead assms(2) fetch
    by (cases r) (auto simp: run_as_leader_def run_provisioning_def Let_def
        split: prod.splits if_splits)
  with fetch show ?thesis by blast
qed

text \<open>
  Claim C18. No target is lost: the report of a run in which the manifests are loaded has exactly
  one success or failure for every target of the runner, whichever of them failed to download a
  dump, to build an engine or to sync. Only when the manifests could not be fetched is no target
  run, and then the report is the one failure of that fetch.
\<close>
theorem every_target_is_reported:
  assumes "run_with_phase_callback wasm env db st w = (Ok (Report report), st', w')"
  shows "if ru_manifests_loaded st'
    then image_mset so_raindex_id (mset (rr_successes report)) +
      image_mset tf_raindex_id (mset (rr_failures report)) = mset (map target_id (re_base_targets env))
    else \<exists>e w1 w2. re_fetch_manifests env (re_raindexes env) w1 = (Err e, w2) \<and>
      report = \<lparr>rr_successes = [], rr_failures = [manifest_failure env e]\<rparr>"
proof (cases "ru_manifests_loaded st'")
  case True
  then show ?thesis using report_covers_targets[OF assms] by simp
next
  case False
  then show ?thesis using unloaded_report[OF assms] by simp
qed

section \<open>Provisioning ends\<close>

text \<open>
  What the counting of failed imports rests on: the targets are told apart by their identity and
  start without a dump (as \<open>build_runner_target\<close> makes them), and an import fails only where there
  is a dump to import.
\<close>

definition imports_need_dumps :: "bool \<Rightarrow> 'w runner_env \<Rightarrow> 'w db_ops \<Rightarrow> bool" where
  "imports_need_dumps wasm env db \<longleftrightarrow>
     (\<forall>t w f w'. execute_target wasm env db t w = (Err f, w') \<longrightarrow> is_dump_import_failed (tf_error f) \<longrightarrow>
        in_dump_str (tg_inputs t) \<noteq> None)"

definition dumpless_targets :: "runner_target list \<Rightarrow> bool" where
  "dumpless_targets ts \<longleftrightarrow>
     distinct (map target_id ts) \<and> list_all (\<lambda>t. in_dump_str (tg_inputs t) = None) ts"

abbreviation tries :: "runner_state \<Rightarrow> raindex_identifier \<Rightarrow> nat" where
  "tries st i \<equiv> unat (attempts_of (ru_failed_dump_imports st) i)"

lemma count_import_failures:
  assumes "distinct (map tf_raindex_id fs)"
  shows "count_import_failures fs tried b = (tried', b') \<Longrightarrow>
    (\<forall>i. attempts_of tried' i = attempts_of tried i +
       (if \<exists>f\<in>set fs. tf_raindex_id f = i \<and> is_dump_import_failed (tf_error f) then 1 else 0)) \<and>
    (b' \<longleftrightarrow> b \<or> (\<exists>f\<in>set fs. is_dump_import_failed (tf_error f) \<and>
       attempts_of tried (tf_raindex_id f) + 1 < max_dump_import_attempts))"
  using assms
proof (induction fs arbitrary: tried b)
  case Nil
  then show ?case by simp
next
  case (Cons f fs)
  show ?case
  proof (cases "is_dump_import_failed (tf_error f)")
    case False
    with Cons show ?thesis by simp
  next
    case True
    let ?i = "tf_raindex_id f"
    let ?tried = "tried(?i \<mapsto> attempts_of tried ?i + 1)"
    have others: "\<forall>g\<in>set fs. tf_raindex_id g \<noteq> ?i" using Cons.prems(2) by simp (metis image_eqI)
    have upd: "attempts_of ?tried j = (if j = ?i then attempts_of tried ?i + 1 else attempts_of tried j)" for j
      by (simp add: attempts_of_def)
    have "count_import_failures fs ?tried (b \<or> attempts_of tried ?i + 1 < max_dump_import_attempts)
        = (tried', b')"
      using Cons.prems(1) True by (simp add: Let_def del: fun_upd_apply)
    from Cons.IH[OF this] Cons.prems(2) True others show ?thesis
      by (auto simp: upd simp del: fun_upd_apply)
  qed
qed

text \<open>An import that fails in a run belongs to a target with fewer than three failures before it.\<close>

lemma provision_target_dump:
  assumes "provision_target env st db t w = (Ok t', w')"
    and "in_dump_str (tg_inputs t) = None" "in_dump_str (tg_inputs t') \<noteq> None"
  shows "tries st (target_id t') < 3"
proof -
  have "target_id t' = target_id t" using provision_target_id[OF assms(1)] by simp
  moreover have "case ru_failed_dump_imports st (target_id t) of None \<Rightarrow> True
      | Some n \<Rightarrow> \<not> max_dump_import_attempts \<le> n"
    using assms
    by (auto simp: provision_target_def ok_iff Let_def
        dest!: arg_cong[where f = "\<lambda>t. in_dump_str (tg_inputs t)"] split: option.splits if_splits)
  ultimately show ?thesis
    by (simp add: attempts_of_def max_dump_import_attempts_def word_le_nat_alt split: option.splits)
qed

lemma provisioned_tries:
  assumes "provision_dumps env st db ts w = ((provisioned, failures), w')"
    and "dumpless_targets ts" "t \<in> set provisioned" "in_dump_str (tg_inputs t) \<noteq> None"
  shows "tries st (target_id t) < 3"
proof -
  from assms(1) obtain rs where rs: "io_map_all (provision_target env st db) ts w = (rs, w')"
    and "provisioned = oks rs" by (auto simp: provision_dumps_def split: prod.splits)
  with assms(3) have "Ok t \<in> set rs" by (simp add: set_oks)
  with io_map_all_results[OF rs] obtain t0 w1 w2 where "t0 \<in> set ts"
    "provision_target env st db t0 w1 = (Ok t, w2)"
    by (fastforce simp: list_all2_conv_all_nth in_set_conv_nth)
  then show ?thesis
    using assms(2,4) by (intro provision_target_dump[of env st db t0 w1])
      (auto simp: dumpless_targets_def list_all_iff)
qed

lemma executed_failure:
  assumes "execute_targets wasm env db ts w = (report, w')" "f \<in> set (rr_failures report)"
  obtains t w1 w2 where "t \<in> set ts" "execute_target wasm env db t w1 = (Err f, w2)"
    "tf_raindex_id f = target_id t"
proof (cases "ts = []")
  case True
  with assms that show thesis by (auto simp: execute_targets_def)
next
  case False
  with assms obtain rs where rs: "io_map_all (execute_target wasm env db) ts w = (rs, w')"
    and "Err f \<in> set rs"
    by (auto simp: execute_targets_def set_errs split: prod.splits)
  with io_map_all_results[OF rs] obtain t w1 w2 where "t \<in> set ts"
    "execute_target wasm env db t w1 = (Err f, w2)"
    by (fastforce simp: list_all2_conv_all_nth in_set_conv_nth)
  with that execute_target_id[of wasm env db t w1 "Err f" w2] show thesis by simp
qed

lemma distinct_submset:
  assumes "mset xs \<subseteq># mset ys" "distinct ys"
  shows "distinct xs"
proof -
  obtain zs where "mset ys = mset (xs @ zs)"
    using assms(1) ex_mset[of "mset ys - mset xs"] by (metis mset_append subset_mset.add_diff_inverse)
  with assms(2) have "distinct (xs @ zs)" using mset_eq_imp_distinct_iff by blast
  then show ?thesis by simp
qed

definition import_budget :: "'w runner_env \<Rightarrow> runner_state \<Rightarrow> nat" where
  \<comment> \<open>how many failed imports are still retried\<close>
  "import_budget env st = (\<Sum>i\<in>set (map target_id (re_base_targets env)). 3 - tries st i)"

lemma run_provisioning_tries:
  assumes run: "run_provisioning wasm env db st w = (report, st', w')"
    and rules: "dumpless_targets (re_base_targets env)" "imports_need_dumps wasm env db"
    and bound: "\<And>i. tries st i \<le> 3"
  shows "tries st i \<le> tries st' i" "tries st' i \<le> 3"
    and "list_all (\<lambda>f. tf_stage f \<noteq> Dump_Download) (rr_failures report) \<Longrightarrow>
      ru_has_provisioned_dumps st' \<or> import_budget env st' < import_budget env st"
proof -
  obtain provisioned failures w1 where
    prov: "provision_dumps env st db (re_base_targets env) w = ((provisioned, failures), w1)"
    by (metis surj_pair)
  define b where "b = (wasm \<and> list_ex (\<lambda>t. in_dump_str (tg_inputs t) \<noteq> None) provisioned)"
  obtain r w2 where ex: "execute_targets wasm env db (defer_analyze b provisioned) w1 = (r, w2)" by force
  obtain tried retry where
    cnt: "count_import_failures (rr_failures r) (ru_failed_dump_imports st) False = (tried, retry)" by force
  have out: "report = \<lparr>rr_successes = rr_successes r, rr_failures = failures @ rr_failures r\<rparr>"
    "st' = st\<lparr>ru_failed_dump_imports := tried,
       ru_has_provisioned_dumps := failures = [] \<and> \<not> retry\<rparr>"
    using run prov ex cnt by (auto simp: run_provisioning_def Let_def b_def split: prod.splits)
  have covered: "image_mset so_raindex_id (mset (rr_successes r)) +
      image_mset tf_raindex_id (mset (failures @ rr_failures r)) = mset (map target_id (re_base_targets env))"
    using run_provisioning_ids[OF run] by (simp add: out(1))
  have "image_mset tf_raindex_id (mset (rr_failures r)) \<subseteq># mset (map target_id (re_base_targets env))"
    unfolding covered[symmetric] by simp
  then have sub: "mset (map tf_raindex_id (rr_failures r)) \<subseteq># mset (map target_id (re_base_targets env))"
    by simp
  have ids: "set (map tf_raindex_id (rr_failures r)) \<subseteq> set (map target_id (re_base_targets env))"
    using set_mset_mono[OF sub] by simp
  have dist: "distinct (map tf_raindex_id (rr_failures r))"
    using distinct_submset[OF sub] rules(1) by (simp add: dumpless_targets_def)
  note counted = count_import_failures[OF dist cnt]
  then have count_j: "attempts_of tried j = attempts_of (ru_failed_dump_imports st) j +
      (if \<exists>f\<in>set (rr_failures r). tf_raindex_id f = j \<and> is_dump_import_failed (tf_error f) then 1 else 0)"
    for j by (rule conjunct1[THEN spec])
  have few: "tries st (tf_raindex_id f) < 3"
    if "f \<in> set (rr_failures r)" "is_dump_import_failed (tf_error f)" for f
  proof -
    from executed_failure[OF ex that(1)] obtain t v v' where t: "t \<in> set (defer_analyze b provisioned)"
      "execute_target wasm env db t v = (Err f, v')" "tf_raindex_id f = target_id t" .
    then have "in_dump_str (tg_inputs t) \<noteq> None"
      using rules(2) that(2) unfolding imports_need_dumps_def by blast
    with t(1,3) provisioned_tries[OF prov rules(1)] show ?thesis
      by (auto simp: defer_analyze_def split: if_splits)
  qed
  have step: "tries st' j = tries st j +
      (if \<exists>f\<in>set (rr_failures r). tf_raindex_id f = j \<and> is_dump_import_failed (tf_error f) then 1 else 0)" for j
  proof (cases "\<exists>f\<in>set (rr_failures r). tf_raindex_id f = j \<and> is_dump_import_failed (tf_error f)")
    case True
    note add = count_j[of j, unfolded if_P[OF True]]
    from True few have "tries st j < 3" by blast
    then have "unat (attempts_of (ru_failed_dump_imports st) j + 1) = tries st j + 1"
      by (simp add: unat_word_ariths)
    then show ?thesis unfolding if_P[OF True] by (simp add: out(2) add)
  next
    case False
    from count_j[of j, unfolded if_not_P[OF False]] show ?thesis
      unfolding if_not_P[OF False] by (simp add: out(2))
  qed
  then show mono: "tries st i \<le> tries st' i" for i by simp
  show "tries st' i \<le> 3"
    using step[of i] few[THEN Suc_leI] bound[of i] by (force split: if_splits)
  assume ok: "list_all (\<lambda>f. tf_stage f \<noteq> Dump_Download) (rr_failures report)"
  have "tf_stage f = Dump_Download" if "f \<in> set failures" for f
  proof -
    from prov obtain rs where rs: "io_map_all (provision_target env st db) (re_base_targets env) w = (rs, w1)"
      and "failures = errs rs" by (auto simp: provision_dumps_def split: prod.splits)
    with that have "Err f \<in> set rs" by (simp add: set_errs)
    with io_map_all_results[OF rs] obtain t w1 w2 where "provision_target env st db t w1 = (Err f, w2)"
      by (auto simp: list_all2_conv_all_nth in_set_conv_nth)
    then show ?thesis
      by (auto simp: provision_target_def dump_failure_def io_defs Let_def map_err_Err_iff
          split: option.splits prod.splits result.splits if_splits)
  qed
  with ok out(1) have none: "failures = []" by (cases failures) auto
  show "ru_has_provisioned_dumps st' \<or> import_budget env st' < import_budget env st"
  proof (cases retry)
    case False
    with none show ?thesis by (simp add: out(2))
  next
    case True
    with counted obtain f where f: "f \<in> set (rr_failures r)" "is_dump_import_failed (tf_error f)" by auto
    have "import_budget env st' < import_budget env st"
      unfolding import_budget_def
    proof (rule sum_strict_mono_ex1)
      show "\<forall>i\<in>set (map target_id (re_base_targets env)). 3 - tries st' i \<le> 3 - tries st i"
        using mono by (auto intro: diff_le_mono2)
      have "3 - tries st' (tf_raindex_id f) < 3 - tries st (tf_raindex_id f)"
        using step[of "tf_raindex_id f"] few[OF f] f by auto
      then show "\<exists>i\<in>set (map target_id (re_base_targets env)). 3 - tries st' i < 3 - tries st i"
        using f ids by (intro bexI[of _ "tf_raindex_id f"]) auto
    qed simp
    then show ?thesis ..
  qed
qed

text \<open>
  A history of runs, with the number of good ones: those in which the runner leads, has its
  manifests and downloads every dump it asks for. Any other run may come between them, and between
  two runs the world is arbitrary: other processes use the chain and the database too.
\<close>

inductive runner_history :: "bool \<Rightarrow> 'w runner_env \<Rightarrow> 'w db_ops \<Rightarrow> nat \<Rightarrow> runner_state \<Rightarrow> runner_state \<Rightarrow> bool"
  for wasm env db where
  no_run: "runner_history wasm env db 0 st st"
| good_run: "runner_history wasm env db n st st1 \<Longrightarrow>
    run_with_phase_callback wasm env db st1 w = (Ok (Report report), st2, w') \<Longrightarrow>
    ru_manifests_loaded st2 \<Longrightarrow> list_all (\<lambda>f. tf_stage f \<noteq> Dump_Download) (rr_failures report) \<Longrightarrow>
    runner_history wasm env db (Suc n) st st2"
| any_run: "runner_history wasm env db n st st1 \<Longrightarrow>
    run_with_phase_callback wasm env db st1 w = (r, st2, w') \<Longrightarrow>
    runner_history wasm env db n st st2"

lemma run_cases:
  assumes "run_with_phase_callback wasm env db st w = (r, st', w')"
  obtains (steady) "ru_has_provisioned_dumps st' = ru_has_provisioned_dumps st"
      "ru_failed_dump_imports st' = ru_failed_dump_imports st"
      "ru_has_provisioned_dumps st \<or> (\<forall>report. r = Ok (Report report) \<longrightarrow> \<not> ru_manifests_loaded st')"
    | (provisioning) st1 w1 report where "\<not> ru_has_provisioned_dumps st" "r = Ok (Report report)"
      "ru_failed_dump_imports st1 = ru_failed_dump_imports st"
      "run_provisioning wasm env db st1 w1 = (report, st', w')"
proof (cases "\<exists>report w1. r = Ok (Report report) \<and>
    run_as_leader wasm env db (st\<lparr>ru_leadership_guard := True\<rparr>) w1 = (report, st', w')")
  case False
  with assms have "st' = st" "\<forall>report. r \<noteq> Ok (Report report)"
    by (auto simp: run_with_phase_callback_def split: prod.splits result.splits bool.splits if_splits)
  then show thesis by (intro steady) auto
next
  case True
  then obtain report w1 where r: "r = Ok (Report report)" and
    lead: "run_as_leader wasm env db (st\<lparr>ru_leadership_guard := True\<rparr>) w1 = (report, st', w')" by blast
  show thesis
  proof (cases "ru_manifests_loaded st' \<and> \<not> ru_has_provisioned_dumps st")
    case False
    with lead show thesis
      by (intro steady) (auto simp: run_as_leader_def run_provisioning_def Let_def
          split: prod.splits result.splits if_splits)
  next
    case True
    with lead obtain manifests w2 where
      "run_provisioning wasm env db (st\<lparr>ru_leadership_guard := True, ru_manifest_map := manifests,
         ru_manifests_loaded := True\<rparr>) w2 = (report, st', w') \<or> \<not> ru_manifests_loaded st \<and> st' = st\<lparr>ru_leadership_guard := True\<rparr>"
      by (auto simp: run_as_leader_def Let_def split: prod.splits result.splits if_splits)
    with True r provisioning[of report "st\<lparr>ru_leadership_guard := True, ru_manifest_map := manifests,
         ru_manifests_loaded := True\<rparr>" w2] show thesis by auto
  qed
qed

lemma history_progress:
  assumes "runner_history wasm env db n (runner_init guard) st"
    and "dumpless_targets (re_base_targets env)" "imports_need_dumps wasm env db"
  shows "(\<forall>i. tries st i \<le> 3) \<and>
    (ru_has_provisioned_dumps st \<or> import_budget env st + n \<le> 3 * length (re_base_targets env))"
  using assms(1)
proof (induction n "runner_init guard" st rule: runner_history.induct)
  case no_run
  have "import_budget env (runner_init guard) \<le> 3 * card (set (map target_id (re_base_targets env)))"
    by (simp add: import_budget_def runner_init_def attempts_of_def)
  also have "\<dots> \<le> 3 * length (re_base_targets env)"
    using card_length[of "map target_id (re_base_targets env)"] by simp
  finally show ?case by (simp add: runner_init_def attempts_of_def)
next
  case (good_run n st1 w report st2 w')
  from good_run(3) show ?case
  proof (cases rule: run_cases)
    case steady
    with good_run(2,4) show ?thesis by simp
  next
    case (provisioning st1' w1 rep)
    then have same: "tries st1' = tries st1" "import_budget env st1' = import_budget env st1" and
      run: "run_provisioning wasm env db st1' w1 = (report, st2, w')"
      by (auto simp: import_budget_def)
    note step = run_provisioning_tries[OF run assms(2,3)]
    have "tries st1' i \<le> 3" for i using good_run(2) fun_cong[OF same(1), of i] by simp
    with step good_run(2,5) provisioning(1) same show ?thesis by fastforce
  qed
next
  case (any_run n st1 w r st2 w')
  from any_run(3) show ?case
  proof (cases rule: run_cases)
    case steady
    with any_run(2) show ?thesis by (simp add: import_budget_def)
  next
    case (provisioning st1' w1 rep)
    then have same: "tries st1' = tries st1" and
      run: "run_provisioning wasm env db st1' w1 = (rep, st2, w')" by auto
    have "tries st1' i \<le> 3" for i using any_run(2) fun_cong[OF same, of i] by simp
    note step = run_provisioning_tries(1,2)[OF run assms(2,3) this]
    have "import_budget env st2 \<le> import_budget env st1"
      unfolding import_budget_def
    proof (rule sum_mono)
      show "3 - tries st2 i \<le> 3 - tries st1 i" for i
        using step(1)[of i] fun_cong[OF same, of i] by simp
    qed
    with step(2) any_run(2) provisioning(1) show ?thesis by auto
  qed
qed

text \<open>
  Claim C19. A dump whose import keeps failing is given up: in any history of runs of a fresh
  runner no target has more than three failed imports counted, and after more than three good
  runs per target (the runner leads, has its manifests and downloads the dumps it asks for) the
  dumps count as provisioned and the targets sync from the node. This is for targets with distinct
  identities that start without a dump, and engines that report a failed import only of a dump.
\<close>
theorem provisioning_terminates:
  assumes "runner_history wasm env db n (runner_init guard) st"
    and "dumpless_targets (re_base_targets env)" "imports_need_dumps wasm env db"
  shows "(\<forall>i. unat (attempts_of (ru_failed_dump_imports st) i) \<le> 3) \<and>
    (3 * length (re_base_targets env) < n \<longrightarrow> ru_has_provisioned_dumps st)"
  using history_progress[OF assms] by auto

section \<open>Downloading and importing agree\<close>

text \<open>
  A dump is downloaded exactly when the bootstrap would import it: on a database whose
  tables and watermarks read the same throughout, the decision to download agrees with what the
  bootstrap does with a dump for the same target, manifest entry and threshold: it imports it,
  or, when the decision is not to download, would leave the database alone.
\<close>
lemma download_iff_import:
  assumes reads: "\<And>w. db_watermark db (target_id target) w = (Ok rows, w)"
    "\<And>w. db_tables db w = (Ok tables, w)" "''target_watermarks'' \<in> set (map lowercase tables)"
    and config: "bo_raindex_id config = target_id target" "bo_latest_block config = mr_end_block entry"
      "bo_block_number_threshold config = in_block_number_threshold (tg_inputs target)"
      "bo_dump_stmt config = Some dump"
    and decision: "should_download_dump db target entry w = (Ok download, w1)"
  shows "client_engine_run wasm S db config w =
    (if \<not> download then (Ok (), w)
     else if rows = [] then apply_dump wasm db (bo_dump_sql config) (bo_dump_stmt config) w
     else io_bind (clear_raindex_data S db (target_id target))
            (\<lambda>_. apply_dump wasm db (bo_dump_sql config) (bo_dump_stmt config)) w)"
  using decision
  by (cases rows) (auto simp: client_engine_run_def inspect_state_def is_fresh_db_def check_threshold_def
      should_download_dump_def reads config io_defs Let_def simp del: set_map)

section \<open>Concrete runs\<close>

definition example_target :: runner_target where
  "example_target = \<lparr>tg_raindex_key = ''a'', tg_manifest_url = ''https://m'', tg_network_key = ''base'',
     tg_inputs = \<lparr>in_raindex_id = \<lparr>ri_chain_id = 1, ri_raindex_address = 7\<rparr>, in_metadata_rpcs = [],
       in_cfg = example_sync_config, in_dump_str = None, in_defer_analyze = False,
       in_block_number_threshold = 50, in_manifest_end_block = 0\<rparr>\<rparr>"

definition example_entry :: manifest_raindex where
  "example_entry = \<lparr>mr_address = 7, mr_dump_url = ''https://d'', mr_end_block = 200,
     mr_end_block_hash = [], mr_end_block_time_ms = 1\<rparr>"

text \<open>A runner whose only target downloads a dump and fails to import it in every run.\<close>

definition stuck_manifests :: manifest_map where
  "stuck_manifests = [''https://m'' \<mapsto> \<lparr>lm_manifest_version = 1, lm_db_schema_version = 1,
     lm_networks = [(''base'', \<lparr>mn_chain_id = 1, mn_raindexes = [example_entry]\<rparr>)]\<rparr>]"

definition stuck_env :: "string list runner_env" where
  "stuck_env = \<lparr>re_raindexes = [], re_base_targets = [example_target],
     re_fetch_manifests = (\<lambda>_ w. (Ok stuck_manifests, w)), re_download_dump = (\<lambda>_ w. (Ok ''dump'', w)),
     re_build_engine = (\<lambda>t. Err (case in_dump_str (tg_inputs t) of
       None \<Rightarrow> Custom_Error ''no node'' | Some _ \<Rightarrow> Dump_Import_Failed Invalid_Response)),
     re_acquire = (\<lambda>w. (Ok True, w)), re_on_phase = (\<lambda>_ w. w), re_error_text = (\<lambda>_. [])\<rparr>"

definition stuck_state :: "u32 option \<Rightarrow> bool \<Rightarrow> runner_state" where
  "stuck_state attempts done = \<lparr>ru_manifest_map = stuck_manifests, ru_manifests_loaded = True,
     ru_has_provisioned_dumps = done, ru_failed_dump_imports = (\<lambda>i. if i = target_id example_target
       then attempts else None), ru_leadership_guard = True\<rparr>"

definition stuck_report :: "local_db_error \<Rightarrow> run_report" where
  "stuck_report e = \<lparr>rr_successes = [], rr_failures = [\<lparr>tf_raindex_id = target_id example_target,
     tf_raindex_key = Some ''a'', tf_stage = Engine_Build, tf_error = e\<rparr>]\<rparr>"

lemmas runner_eval = run_with_phase_callback_def run_as_leader_def run_provisioning_def
  provision_dumps_def provision_target_def execute_targets_def execute_target_def defer_analyze_def
  lookup_manifest_entry_def stuck_env_def stuck_report_def attempts_of_def max_dump_import_attempts_def
  stuck_manifests_def manifest_find_def example_entry_def should_download_dump_def
  example_bootstrap_db_def saturating_sub_def

lemma stuck_first:
  "run_with_phase_callback False stuck_env (example_bootstrap_db None) (runner_init False) w =
    (Ok (Report (stuck_report (Dump_Import_Failed Invalid_Response))), stuck_state (Some 1) False, w)"
  by (simp add: runner_eval runner_init_def stuck_state_def io_defs Let_def fun_eq_iff example_target_def)

lemma stuck_next:
  "run_with_phase_callback False stuck_env (example_bootstrap_db None) (stuck_state (Some 1) False) w =
    (Ok (Report (stuck_report (Dump_Import_Failed Invalid_Response))), stuck_state (Some 2) False, w)"
  "run_with_phase_callback False stuck_env (example_bootstrap_db None) (stuck_state (Some 2) False) w =
    (Ok (Report (stuck_report (Dump_Import_Failed Invalid_Response))), stuck_state (Some 3) True, w)"
  "run_with_phase_callback False stuck_env (example_bootstrap_db None) (stuck_state (Some 3) True) w =
    (Ok (Report (stuck_report (Custom_Error ''no node''))), stuck_state (Some 3) True, w)"
  by (simp_all add: runner_eval stuck_state_def io_defs Let_def fun_eq_iff example_target_def
      word_le_nat_alt)

lemma stuck_history:
  "runner_history False stuck_env (example_bootstrap_db None) 4 (runner_init False) (stuck_state (Some 3) True)"
proof -
  have loaded: "ru_manifests_loaded (stuck_state a d)" for a d by (simp add: stuck_state_def)
  have ok: "list_all (\<lambda>f. tf_stage f \<noteq> Dump_Download) (rr_failures (stuck_report e))" for e
    by (simp add: stuck_report_def)
  have "runner_history False stuck_env (example_bootstrap_db None) (Suc (Suc (Suc (Suc 0))))
      (runner_init False) (stuck_state (Some 3) True)"
    by (rule good_run[OF good_run[OF good_run[OF good_run[OF no_run stuck_first loaded ok]
      stuck_next(1) loaded ok] stuck_next(2) loaded ok] stuck_next(3) loaded ok])
  then show ?thesis by (simp add: eval_nat_numeral)
qed

lemma stuck_rules: "dumpless_targets (re_base_targets stuck_env)"
  "imports_need_dumps False stuck_env db"
  by (auto simp: dumpless_targets_def imports_need_dumps_def stuck_env_def example_target_def
      execute_target_def io_defs Let_def split: option.splits)

theorem provisioning_terminates_witness:
  "runner_history False stuck_env (example_bootstrap_db None) 4 (runner_init False) (stuck_state (Some 3) True) \<and>
   ru_has_provisioned_dumps (stuck_state (Some 3) True) \<and>
   unat (attempts_of (ru_failed_dump_imports (stuck_state (Some 3) True)) (target_id example_target)) \<le> 3"
proof -
  have few: "3 * length (re_base_targets stuck_env) < 4" by (simp add: stuck_env_def)
  from provisioning_terminates[OF stuck_history stuck_rules] few stuck_history show ?thesis by blast
qed

theorem every_target_is_reported_witness:
  "run_with_phase_callback False stuck_env (example_bootstrap_db None) (runner_init False) [] =
     (Ok (Report (stuck_report (Dump_Import_Failed Invalid_Response))), stuck_state (Some 1) False, []) \<and>
   image_mset tf_raindex_id (mset (rr_failures (stuck_report (Dump_Import_Failed Invalid_Response))))
     = {#target_id example_target#}"
  using every_target_is_reported[OF stuck_first[of "[]"]] stuck_first[of "[]"]
  by (simp add: stuck_state_def stuck_env_def stuck_report_def)

lemma download_iff_import_example:
  "should_download_dump (example_bootstrap_db None) example_target example_entry [] = (Ok True, []) \<and>
   fst (client_engine_run False example_schema (example_bootstrap_db None) example_bootstrap_config []) = Ok ()"
proof -
  let ?db = "example_bootstrap_db None"
  have reads: "db_watermark ?db (target_id example_target) w = (Ok [example_watermark (target_id example_target) 100], w)"
    "db_tables ?db w = (Ok required_tables, w)" for w
    by (simp_all add: example_bootstrap_db_def)
  have marks: "''target_watermarks'' \<in> set (map lowercase required_tables)"
    unfolding set_map lowercase_required by (simp add: required_tables_def)
  have dec: "should_download_dump ?db example_target example_entry [] = (Ok True, [])"
    by (simp add: should_download_dump_def example_bootstrap_db_def io_defs example_target_def
        example_entry_def saturating_sub_def)
  have cfg: "bo_raindex_id example_bootstrap_config = target_id example_target"
    "bo_latest_block example_bootstrap_config = mr_end_block example_entry"
    "bo_block_number_threshold example_bootstrap_config = in_block_number_threshold (tg_inputs example_target)"
    "bo_dump_stmt example_bootstrap_config = Some (batch_add (sql_new ''dump'') batch_new)"
    by (simp_all add: example_bootstrap_config_def example_target_def example_entry_def)
  from download_iff_import[OF reads marks cfg dec, of False example_schema] dec show ?thesis
    by (simp add: bootstrap_eval)
qed

end
