(* ===== verification/Sync_Status.thy ===== *)
theory Sync_Status
  imports Runner_Targets "HOL-Library.Product_Lexorder"
begin

text \<open>
  \<open>raindex_client/local_db/status.rs\<close> and \<open>state.rs\<close>: the status the client shows of its syncing,
  and the choice between the local database and the subgraph for a query.

  The two \<open>HashMap\<close>s of the store are association lists with distinct keys, in their iteration
  order. What the store means is the pair of maps \<open>store_abs\<close>: every operation is an operation on
  the maps, and the snapshot does not depend on the order of the lists.
\<close>

section \<open>Statuses\<close>

datatype local_db_status = Active | Syncing | Failure

datatype scheduler_state = Leading | Not_Leading

record raindex_sync_status =
  rs_raindex_id :: raindex_identifier
  rs_status :: local_db_status
  rs_scheduler_state :: scheduler_state
  rs_phase_message :: "string option"
  rs_error :: "string option"

record network_sync_status =
  ns_chain_id :: u32
  ns_status :: local_db_status
  ns_scheduler_state :: scheduler_state
  ns_error :: "string option"

fun to_message :: "sync_phase \<Rightarrow> string" where
  "to_message Preparing_Local_Database = ''Preparing local database''"
| "to_message Fetching_Sync_Manifest = ''Fetching sync manifest''"
| "to_message Downloading_Initial_Dump = ''Downloading initial dump''"
| "to_message Fetching_Latest_Block = ''Fetching latest block''"
| "to_message Running_Bootstrap = ''Running bootstrap''"
| "to_message Computing_Sync_Window = ''Computing sync window''"
| "to_message Fetching_Raindex_Logs = ''Fetching raindex logs''"
| "to_message Decoding_Raindex_Logs = ''Decoding raindex logs''"
| "to_message Fetching_Store_Logs = ''Fetching interpreter store logs''"
| "to_message Decoding_Store_Logs = ''Decoding interpreter store logs''"
| "to_message Fetching_Token_Metadata = ''Fetching missing token metadata''"
| "to_message Building_Sql_Batch = ''Building SQL batch''"
| "to_message Persisting_To_Database = ''Persisting to database''"
| "to_message Running_Post_Sync_Export = ''Running post-sync export''"
| "to_message Idle = ''No work for current window''"

definition raindex_syncing :: "raindex_identifier \<Rightarrow> sync_phase \<Rightarrow> raindex_sync_status" where
  "raindex_syncing i phase = \<lparr>rs_raindex_id = i, rs_status = Syncing, rs_scheduler_state = Leading,
     rs_phase_message = Some (to_message phase), rs_error = None\<rparr>"

definition raindex_active :: "raindex_identifier \<Rightarrow> scheduler_state \<Rightarrow> raindex_sync_status" where
  "raindex_active i state = \<lparr>rs_raindex_id = i, rs_status = Active, rs_scheduler_state = state,
     rs_phase_message = None, rs_error = None\<rparr>"

definition raindex_failure :: "raindex_identifier \<Rightarrow> string \<Rightarrow> raindex_sync_status" where
  "raindex_failure i error = \<lparr>rs_raindex_id = i, rs_status = Failure, rs_scheduler_state = Leading,
     rs_phase_message = None, rs_error = Some error\<rparr>"

definition network_active :: "u32 \<Rightarrow> scheduler_state \<Rightarrow> network_sync_status" where
  "network_active chain_id state = \<lparr>ns_chain_id = chain_id, ns_status = Active,
     ns_scheduler_state = state, ns_error = None\<rparr>"

definition network_syncing :: "u32 \<Rightarrow> network_sync_status" where
  "network_syncing chain_id = \<lparr>ns_chain_id = chain_id, ns_status = Syncing,
     ns_scheduler_state = Leading, ns_error = None\<rparr>"

definition network_failure :: "u32 \<Rightarrow> string \<Rightarrow> network_sync_status" where
  "network_failure chain_id error = \<lparr>ns_chain_id = chain_id, ns_status = Failure,
     ns_scheduler_state = Leading, ns_error = Some error\<rparr>"

section \<open>Snapshots\<close>

record network_snapshot =
  sn_chain_id :: u32
  sn_network_key :: "string option"
  sn_status :: local_db_status
  sn_scheduler_state :: scheduler_state
  sn_raindex_count :: nat
  sn_ready :: bool
  sn_error :: "string option"

record raindex_snapshot =
  sr_raindex_id :: raindex_identifier
  sr_raindex_key :: "string option"
  sr_network_key :: "string option"
  sr_status :: local_db_status
  sr_scheduler_state :: scheduler_state
  sr_ready :: bool
  sr_phase_message :: "string option"
  sr_last_synced_block :: "u64 option"
  sr_updated_at :: "string option"
  sr_error :: "string option"

record sync_snapshot =
  ss_configured :: bool
  ss_healthy :: bool
  ss_status :: local_db_status
  ss_scheduler_state :: scheduler_state
  ss_networks :: "network_snapshot list"
  ss_raindexes :: "raindex_snapshot list"

definition network_snapshot_new :: "u32 \<Rightarrow> string option \<Rightarrow> network_snapshot" where
  "network_snapshot_new chain_id network_key = \<lparr>sn_chain_id = chain_id, sn_network_key = network_key,
     sn_status = Syncing, sn_scheduler_state = Leading, sn_raindex_count = 0, sn_ready = False,
     sn_error = None\<rparr>"

definition network_apply_status :: "network_sync_status \<Rightarrow> network_snapshot \<Rightarrow> network_snapshot" where
  "network_apply_status status n = n\<lparr>sn_status := ns_status status,
     sn_scheduler_state := ns_scheduler_state status, sn_error := ns_error status\<rparr>"

definition raindex_snapshot_new ::
  "raindex_identifier \<Rightarrow> string option \<Rightarrow> string option \<Rightarrow> raindex_snapshot" where
  "raindex_snapshot_new i raindex_key network_key = \<lparr>sr_raindex_id = i, sr_raindex_key = raindex_key,
     sr_network_key = network_key, sr_status = Syncing, sr_scheduler_state = Leading,
     sr_ready = False, sr_phase_message = None, sr_last_synced_block = None, sr_updated_at = None,
     sr_error = None\<rparr>"

definition raindex_apply_status :: "raindex_sync_status \<Rightarrow> raindex_snapshot \<Rightarrow> raindex_snapshot" where
  "raindex_apply_status status r = r\<lparr>sr_status := rs_status status,
     sr_scheduler_state := rs_scheduler_state status, sr_phase_message := rs_phase_message status,
     sr_error := rs_error status\<rparr>"

definition id_key :: "raindex_identifier \<Rightarrow> u32 \<times> address" where
  "id_key i = (ri_chain_id i, ri_raindex_address i)"

definition key_id :: "u32 \<times> address \<Rightarrow> raindex_identifier" where
  "key_id k = \<lparr>ri_chain_id = fst k, ri_raindex_address = snd k\<rparr>"

definition snapshot_from_parts :: "network_snapshot list \<Rightarrow> raindex_snapshot list \<Rightarrow> sync_snapshot" where
  "snapshot_from_parts networks0 raindexes0 =
     (let networks = sort_key sn_chain_id networks0;
          raindexes = sort_key (\<lambda>r. id_key (sr_raindex_id r)) raindexes0;
          configured = (networks \<noteq> [] \<or> raindexes \<noteq> []);
          all_statuses = map sn_status networks @ map sr_status raindexes;
          has_failure = (Failure \<in> set all_statuses);
          has_syncing = (Syncing \<in> set all_statuses);
          scheduler = (case find (\<lambda>n. sn_scheduler_state n = Not_Leading) networks of
            Some _ \<Rightarrow> Not_Leading | None \<Rightarrow> Leading);
          status = (if \<not> configured then Active else if has_failure then Failure
            else if has_syncing then Syncing else Active) in
      \<lparr>ss_configured = configured, ss_healthy = (\<not> has_failure), ss_status = status,
       ss_scheduler_state = scheduler, ss_networks = networks, ss_raindexes = raindexes\<rparr>)"

section \<open>The store\<close>

record snapshot_store =
  st_networks :: "(u32 \<times> network_snapshot) list"
  st_raindexes :: "(raindex_identifier \<times> raindex_snapshot) list"

definition store_new :: snapshot_store where
  "store_new = \<lparr>st_networks = [], st_raindexes = []\<rparr>"

definition entry_update :: "'k \<Rightarrow> 'v \<Rightarrow> ('v \<Rightarrow> 'v) \<Rightarrow> ('k \<times> 'v) list \<Rightarrow> ('k \<times> 'v) list" where
  \<comment> \<open>\<open>f\<close> on the entry of \<open>k\<close>, inserted as \<open>v\<close> first when there is none\<close>
  "entry_update k v f m =
     (if map_of m k = None then m @ [(k, f v)]
      else map (\<lambda>(j, x). (j, if j = k then f x else x)) m)"

definition seed_network :: "u32 \<Rightarrow> string option \<Rightarrow> snapshot_store \<Rightarrow> snapshot_store" where
  "seed_network chain_id network_key s =
     s\<lparr>st_networks := entry_update chain_id (network_snapshot_new chain_id network_key) id (st_networks s)\<rparr>"

definition seed_raindex ::
  "raindex_identifier \<Rightarrow> string option \<Rightarrow> string option \<Rightarrow> snapshot_store \<Rightarrow> snapshot_store" where
  "seed_raindex i raindex_key network_key s =
     (let chain_id = ri_chain_id i;
          raindexes = entry_update i (raindex_snapshot_new i raindex_key network_key) id (st_raindexes s);
          count = length (filter (\<lambda>(_, r). ri_chain_id (sr_raindex_id r) = chain_id) raindexes) in
      s\<lparr>st_raindexes := raindexes,
        st_networks := map (\<lambda>(c, n). (c, if c = chain_id then n\<lparr>sn_raindex_count := count\<rparr> else n))
          (st_networks s)\<rparr>)"

definition update_network :: "network_sync_status \<Rightarrow> snapshot_store \<Rightarrow> snapshot_store" where
  "update_network status s =
     s\<lparr>st_networks := entry_update (ns_chain_id status) (network_snapshot_new (ns_chain_id status) None)
         (network_apply_status status) (st_networks s)\<rparr>"

definition update_raindex :: "raindex_sync_status \<Rightarrow> snapshot_store \<Rightarrow> snapshot_store" where
  "update_raindex status s =
     s\<lparr>st_raindexes := entry_update (rs_raindex_id status)
         (raindex_snapshot_new (rs_raindex_id status) None None)
         (raindex_apply_status status) (st_raindexes s)\<rparr>"

definition network_ready :: "network_snapshot \<Rightarrow> network_snapshot" where
  "network_ready n = n\<lparr>sn_ready := True,
     sn_status := (if sn_status n \<noteq> Failure then Active else sn_status n)\<rparr>"

definition raindex_ready :: "raindex_snapshot \<Rightarrow> raindex_snapshot" where
  "raindex_ready r =
     (if sr_status r \<noteq> Failure then r\<lparr>sr_ready := True, sr_status := Active, sr_phase_message := None\<rparr>
      else r\<lparr>sr_ready := True\<rparr>)"

definition mark_ready :: "u32 \<Rightarrow> snapshot_store \<Rightarrow> snapshot_store" where
  "mark_ready chain_id s =
     s\<lparr>st_networks := map (\<lambda>(c, n). (c, if c = chain_id then network_ready n else n)) (st_networks s),
       st_raindexes := map (\<lambda>(i, r). (i, if ri_chain_id (sr_raindex_id r) = chain_id
         then raindex_ready r else r)) (st_raindexes s)\<rparr>"

definition snapshot :: "snapshot_store \<Rightarrow> sync_snapshot" where
  "snapshot s = snapshot_from_parts (map snd (st_networks s)) (map snd (st_raindexes s))"

definition seed :: "parsed_runner_settings \<Rightarrow> snapshot_store" where
  \<comment> \<open>\<open>LocalDbSyncStatusStore::seed\<close>: the store is replaced\<close>
  "seed settings =
     fold (\<lambda>(raindex_key, raindex) s.
       if ps_syncs settings (nc_key (rx_network raindex)) = None then s
       else seed_raindex (raindex_id_of raindex) (Some raindex_key) (Some (nc_key (rx_network raindex)))
              (seed_network (nc_chain_id (rx_network raindex)) (Some (nc_key (rx_network raindex))) s))
     (sort_key fst (ps_raindexes settings)) store_new"

section \<open>Where to read\<close>

datatype query_source = Source_Local_Db | Source_Subgraph

record local_db_state =
  ld_has_db :: bool
  ld_ready :: "u32 set"
  ld_sync_configured_chains :: "u32 set"

definition compute_chain_ids ::
  "(string list, yaml_error) result \<Rightarrow> (string \<Rightarrow> network_cfg option, yaml_error) result \<Rightarrow> u32 set" where
  \<comment> \<open>of the keys of the sync settings and the networks of the document\<close>
  "compute_chain_ids syncs networks =
     (case (syncs, networks) of
        (Ok sync_keys, Ok nets) \<Rightarrow> set (List.map_filter (\<lambda>k. map_option nc_chain_id (nets k)) sync_keys)
      | _ \<Rightarrow> {})"

definition query_source_of :: "local_db_state \<Rightarrow> u32 \<Rightarrow> query_source" where
  "query_source_of st chain_id =
     (if ld_has_db st \<and> chain_id \<in> ld_sync_configured_chains st \<and> chain_id \<in> ld_ready st
      then Source_Local_Db else Source_Subgraph)"

definition classify_chains :: "local_db_state \<Rightarrow> network_cfg list \<Rightarrow> bool \<times> u32 list \<times> u32 list" where
  \<comment> \<open>whether the local database is used, the chains read from it and those read from the subgraph\<close>
  "classify_chains st networks =
     fold (\<lambda>net (local_db, local_ids, sg_ids).
       case query_source_of st (nc_chain_id net) of
         Source_Local_Db \<Rightarrow> (True, local_ids @ [nc_chain_id net], sg_ids)
       | Source_Subgraph \<Rightarrow> (local_db, local_ids, sg_ids @ [nc_chain_id net]))
     networks (False, [], [])"

section \<open>What the store means\<close>

record store_spec =
  sp_networks :: "u32 \<rightharpoonup> network_snapshot"
  sp_raindexes :: "raindex_identifier \<rightharpoonup> raindex_snapshot"

definition store_abs :: "snapshot_store \<Rightarrow> store_spec" where
  "store_abs s = \<lparr>sp_networks = map_of (st_networks s), sp_raindexes = map_of (st_raindexes s)\<rparr>"

definition keyed :: "('v \<Rightarrow> 'k) \<Rightarrow> ('k \<times> 'v) list \<Rightarrow> bool" where
  \<comment> \<open>a map whose values hold the key they are stored under\<close>
  "keyed key m \<longleftrightarrow> distinct (map fst m) \<and> (\<forall>(k, v) \<in> set m. key v = k)"

definition store_ok :: "snapshot_store \<Rightarrow> bool" where
  "store_ok s \<longleftrightarrow> keyed sn_chain_id (st_networks s) \<and> keyed sr_raindex_id (st_raindexes s)"

datatype store_op =
    Op_Seed_Network u32 "string option"
  | Op_Seed_Raindex raindex_identifier "string option" "string option"
  | Op_Update_Network network_sync_status
  | Op_Update_Raindex raindex_sync_status
  | Op_Mark_Ready u32

fun run_op :: "store_op \<Rightarrow> snapshot_store \<Rightarrow> snapshot_store" where
  "run_op (Op_Seed_Network c k) = seed_network c k"
| "run_op (Op_Seed_Raindex i rk nk) = seed_raindex i rk nk"
| "run_op (Op_Update_Network status) = update_network status"
| "run_op (Op_Update_Raindex status) = update_raindex status"
| "run_op (Op_Mark_Ready c) = mark_ready c"

definition upd_or :: "'k \<Rightarrow> 'v \<Rightarrow> ('v \<Rightarrow> 'v) \<Rightarrow> ('k \<rightharpoonup> 'v) \<Rightarrow> ('k \<rightharpoonup> 'v)" where
  "upd_or k v f m = m(k \<mapsto> f (case m k of None \<Rightarrow> v | Some x \<Rightarrow> x))"

fun spec_op :: "store_op \<Rightarrow> store_spec \<Rightarrow> store_spec" where
  "spec_op (Op_Seed_Network c k) a =
     a\<lparr>sp_networks := upd_or c (network_snapshot_new c k) id (sp_networks a)\<rparr>"
| "spec_op (Op_Seed_Raindex i rk nk) a =
     (let raindexes = upd_or i (raindex_snapshot_new i rk nk) id (sp_raindexes a);
          count = card {j \<in> dom raindexes. ri_chain_id j = ri_chain_id i} in
      a\<lparr>sp_raindexes := raindexes,
        sp_networks := (\<lambda>c. if c = ri_chain_id i
          then map_option (\<lambda>n. n\<lparr>sn_raindex_count := count\<rparr>) (sp_networks a c) else sp_networks a c)\<rparr>)"
| "spec_op (Op_Update_Network status) a =
     a\<lparr>sp_networks := upd_or (ns_chain_id status) (network_snapshot_new (ns_chain_id status) None)
        (network_apply_status status) (sp_networks a)\<rparr>"
| "spec_op (Op_Update_Raindex status) a =
     a\<lparr>sp_raindexes := upd_or (rs_raindex_id status) (raindex_snapshot_new (rs_raindex_id status) None None)
        (raindex_apply_status status) (sp_raindexes a)\<rparr>"
| "spec_op (Op_Mark_Ready chain_id) a =
     a\<lparr>sp_networks := (\<lambda>c. if c = chain_id then map_option network_ready (sp_networks a c)
          else sp_networks a c),
       sp_raindexes := (\<lambda>i. if ri_chain_id i = chain_id then map_option raindex_ready (sp_raindexes a i)
          else sp_raindexes a i)\<rparr>"

definition spec_snapshot :: "store_spec \<Rightarrow> sync_snapshot" where
  \<comment> \<open>the worst of the statuses, and the entries in the order of their keys\<close>
  "spec_snapshot a =
     (let statuses = sn_status ` ran (sp_networks a) \<union> sr_status ` ran (sp_raindexes a) in
      \<lparr>ss_configured = (sp_networks a \<noteq> Map.empty \<or> sp_raindexes a \<noteq> Map.empty),
       ss_healthy = (Failure \<notin> statuses),
       ss_status = (if Failure \<in> statuses then Failure else if Syncing \<in> statuses then Syncing else Active),
       ss_scheduler_state =
         (if Not_Leading \<in> sn_scheduler_state ` ran (sp_networks a) then Not_Leading else Leading),
       ss_networks = map (\<lambda>c. the (sp_networks a c)) (sorted_list_of_set (dom (sp_networks a))),
       ss_raindexes = map (\<lambda>k. the (sp_raindexes a (key_id k)))
         (sorted_list_of_set (id_key ` dom (sp_raindexes a)))\<rparr>)"

section \<open>Updating an entry\<close>

lemma map_of_map_cond [simp]:
  "map_of (map (\<lambda>(j, x). (j, g j x)) m) k = map_option (g k) (map_of m k)"
  by (induction m) auto

lemma fst_map_cond [simp]: "fst \<circ> (\<lambda>(j, x). (j, g j x)) = fst"
  by (rule ext) (simp add: case_prod_beta)

lemma keyed_map:
  "keyed key m \<Longrightarrow> (\<And>j x. key (g j x) = key x) \<Longrightarrow> keyed key (map (\<lambda>(j, x). (j, g j x)) m)"
  by (auto simp: keyed_def)

lemma keyed_entry_update:
  assumes "keyed key m" and "key v = k" and "\<And>x. key (f x) = key x"
  shows "keyed key (entry_update k v f m)"
proof (cases "map_of m k")
  case None
  then show ?thesis using assms by (auto simp: keyed_def entry_update_def map_of_eq_None_iff)
next
  case (Some x)
  then show ?thesis
    unfolding entry_update_def using assms by (auto intro!: keyed_map)
qed

lemma entry_update_abs: "map_of (entry_update k v f m) = upd_or k v f (map_of m)"
proof (rule ext, cases "map_of m k")
  fix j
  case None
  then show "map_of (entry_update k v f m) j = upd_or k v f (map_of m) j"
    by (cases "j = k") (auto simp: entry_update_def upd_or_def map_add_def split: option.splits)
next
  fix j
  case (Some x)
  then show "map_of (entry_update k v f m) j = upd_or k v f (map_of m) j"
    by (cases "j = k") (simp_all add: entry_update_def upd_or_def option.map_ident)
qed

lemma filter_keys_card:
  assumes "distinct (map fst m)" and "\<forall>(j, x) \<in> set m. P x \<longleftrightarrow> Q j"
  shows "length (filter (\<lambda>(_, x). P x) m) = card {j \<in> dom (map_of m). Q j}"
proof -
  have eq: "filter (\<lambda>(_, x). P x) m = filter (\<lambda>jx. Q (fst jx)) m"
    using assms(2) by (intro filter_cong) auto
  have "length (filter (\<lambda>jx. Q (fst jx)) m) = length (filter Q (map fst m))"
    by (induction m) auto
  also have "\<dots> = card (set (filter Q (map fst m)))"
    using assms(1) by (intro distinct_card [symmetric]) (rule distinct_filter)
  also have "set (filter Q (map fst m)) = {j \<in> dom (map_of m). Q j}"
    by (auto simp: dom_map_of_conv_image_fst)
  finally show ?thesis using eq by simp
qed

section \<open>Every operation keeps the store well formed\<close>

lemma snapshot_new_fields [simp]:
  "sn_chain_id (network_snapshot_new c k) = c"
  "sr_raindex_id (raindex_snapshot_new i rk nk) = i"
  "sn_chain_id (network_apply_status status n) = sn_chain_id n"
  "sr_raindex_id (raindex_apply_status rstatus r) = sr_raindex_id r"
  "sn_chain_id (network_ready n) = sn_chain_id n"
  "sr_raindex_id (raindex_ready r) = sr_raindex_id r"
  by (simp_all add: network_snapshot_new_def raindex_snapshot_new_def network_apply_status_def
      raindex_apply_status_def network_ready_def raindex_ready_def)

lemma store_ok_new [simp]: "store_ok store_new"
  by (simp add: store_ok_def store_new_def keyed_def)

lemma store_ok_run_op: "store_ok s \<Longrightarrow> store_ok (run_op p s)"
  by (cases p) (auto simp: store_ok_def seed_network_def seed_raindex_def update_network_def
      update_raindex_def mark_ready_def Let_def intro!: keyed_entry_update keyed_map)

section \<open>Every operation implements its specification\<close>

lemma raindex_count_spec:
  assumes "keyed sr_raindex_id m"
  shows "length (filter (\<lambda>(_, r). ri_chain_id (sr_raindex_id r) = c) m)
     = card {j \<in> dom (map_of m). ri_chain_id j = c}"
  using assms by (intro filter_keys_card) (auto simp: keyed_def)

lemma map_of_raindex_ready:
  assumes "keyed sr_raindex_id m"
  shows "map_option (\<lambda>r. if ri_chain_id (sr_raindex_id r) = c then raindex_ready r else r) (map_of m i)
     = (if ri_chain_id i = c then map_option raindex_ready (map_of m i) else map_of m i)"
  using assms by (cases "map_of m i") (auto simp: keyed_def dest!: map_of_SomeD)

lemma run_op_refines: 
  assumes ok: "store_ok s"
  shows "store_abs (run_op p s) = spec_op p (store_abs s)"
proof (cases p)
  case (Op_Seed_Raindex i rk nk)
  let ?m = "entry_update i (raindex_snapshot_new i rk nk) id (st_raindexes s)"
  have "keyed sr_raindex_id ?m"
    using ok by (auto simp: store_ok_def intro!: keyed_entry_update)
  note count = raindex_count_spec [OF this, of "ri_chain_id i", unfolded entry_update_abs]
  show ?thesis
    unfolding Op_Seed_Raindex run_op.simps seed_raindex_def Let_def count
    by (auto simp: store_abs_def Let_def entry_update_abs option.map_ident intro!: ext)
next
  case (Op_Mark_Ready c)
  then show ?thesis using ok
    by (auto simp: store_abs_def mark_ready_def store_ok_def map_of_raindex_ready option.map_ident
        intro!: ext)
qed (simp_all add: store_abs_def seed_network_def update_network_def update_raindex_def
    entry_update_abs)

lemma run_ops_refine:
  "store_ok s \<Longrightarrow> store_ok (fold run_op ops s) \<and> store_abs (fold run_op ops s) = fold spec_op ops (store_abs s)"
  by (induction ops arbitrary: s) (simp_all add: store_ok_run_op run_op_refines)

section \<open>The snapshot depends on the maps only\<close>

lemma key_id_inverse [simp]: "key_id (id_key i) = i"
  by (simp add: key_id_def id_key_def)

lemma map_snd_keys: "distinct (map fst m) \<Longrightarrow> map snd m = map (\<lambda>k. the (map_of m k)) (map fst m)"
  unfolding map_map by (intro map_cong refl) (auto simp: map_of_is_SomeI)

lemma keyed_Some: "keyed key m \<Longrightarrow> map_of m k = Some v \<Longrightarrow> key v = k"
  by (auto simp: keyed_def dest!: map_of_SomeD)

lemma keyed_sort:
  fixes f :: "'k \<Rightarrow> 'o :: linorder"
  assumes keyed: "keyed key m" and inv: "\<And>k. h (f k) = k"
  shows "sort_key (\<lambda>v. f (key v)) (map snd m)
     = map (\<lambda>y. the (map_of m (h y))) (sorted_list_of_set (f ` dom (map_of m)))"
    (is "_ = map ?val (sorted_list_of_set ?keys)")
proof (rule sort_key_inj_key_eq)
  have dist: "distinct (map fst m)" and inj_f: "inj_on f (dom (map_of m))"
    using keyed by (auto simp: keyed_def intro: inj_on_inverseI inv)
  have "mset (sorted_list_of_set ?keys) = mset_set ?keys"
    by (metis sorted_list_of_set.sorted_key_list_of_set_unique finite_dom_map_of finite_imageI
        mset_set_set sorted_list_of_set)
  also have "\<dots> = mset_set (set (map f (map fst m)))"
    by (simp add: dom_map_of_conv_image_fst image_image)
  also have "\<dots> = mset (map f (map fst m))"
    using inj_f dist by (intro mset_set_set) (simp only: distinct_map set_map dom_map_of_conv_image_fst)
  finally show "mset (map snd m) = mset (map ?val (sorted_list_of_set ?keys))"
    by (subst map_snd_keys [OF dist]) (simp add: image_mset.compositionality comp_def inv)
  show "inj_on (\<lambda>v. f (key v)) (set (map snd m))"
  proof (rule inj_onI)
    fix v w assume "v \<in> set (map snd m)" "w \<in> set (map snd m)" "f (key v) = f (key w)"
    moreover have "key v = key w" using \<open>f (key v) = f (key w)\<close> by (metis inv)
    ultimately have "(key w, v) \<in> set m" "(key w, w) \<in> set m"
      using keyed by (auto simp: keyed_def)
    with dist show "v = w" by (rule eq_key_imp_eq_value)
  qed
  have "map (\<lambda>v. f (key v)) (map ?val (sorted_list_of_set ?keys)) = sorted_list_of_set ?keys"
    unfolding map_map by (rule map_idI) (auto simp: inv keyed_Some [OF keyed] finite_dom_map_of)
  then show "sorted (map (\<lambda>v. f (key v)) (map ?val (sorted_list_of_set ?keys)))" by simp
qed

lemma keyed_ran: "keyed key m \<Longrightarrow> ran (map_of m) = snd ` set m"
  by (simp add: keyed_def ran_distinct)

lemma find_Not_Leading:
  "(case find (\<lambda>n. f n = Not_Leading) xs of Some _ \<Rightarrow> Not_Leading | None \<Rightarrow> Leading)
   = (if Not_Leading \<in> f ` set xs then Not_Leading else Leading)"
  by (induction xs) auto

lemma sort_key_eq_Nil: "sort_key f xs = [] \<longleftrightarrow> xs = []"
  by (metis length_0_conv length_sort)

lemma snapshot_from_parts_spec:
  "snapshot_from_parts ns rs =
     (let statuses = sn_status ` set ns \<union> sr_status ` set rs in
      \<lparr>ss_configured = (ns \<noteq> [] \<or> rs \<noteq> []), ss_healthy = (Failure \<notin> statuses),
       ss_status = (if Failure \<in> statuses then Failure else if Syncing \<in> statuses then Syncing else Active),
       ss_scheduler_state =
         (if Not_Leading \<in> sn_scheduler_state ` set ns then Not_Leading else Leading),
       ss_networks = sort_key sn_chain_id ns,
       ss_raindexes = sort_key (\<lambda>r. id_key (sr_raindex_id r)) rs\<rparr>)"
  unfolding snapshot_from_parts_def Let_def find_Not_Leading
  by (cases "ns = [] \<and> rs = []") (simp_all add: sort_key_eq_Nil)

lemma snapshot_refines:
  assumes ok: "store_ok s"
  shows "snapshot s = spec_snapshot (store_abs s)"
proof -
  let ?n = "st_networks s" and ?r = "st_raindexes s"
  have keyed: "keyed sn_chain_id ?n" "keyed sr_raindex_id ?r"
    using ok by (simp_all add: store_ok_def)
  have ns: "sort_key sn_chain_id (map snd ?n) = map (\<lambda>c. the (map_of ?n c)) (sorted_list_of_set (dom (map_of ?n)))"
    using keyed_sort [OF keyed(1), of id id] by simp
  have rs: "sort_key (\<lambda>r. id_key (sr_raindex_id r)) (map snd ?r)
      = map (\<lambda>k. the (map_of ?r (key_id k))) (sorted_list_of_set (id_key ` dom (map_of ?r)))"
    using keyed(2) by (rule keyed_sort) simp
  show ?thesis
    unfolding snapshot_def snapshot_from_parts_spec ns rs
    by (simp add: spec_snapshot_def store_abs_def keyed [THEN keyed_ran])
qed

definition spec_new :: store_spec where
  "spec_new = \<lparr>sp_networks = Map.empty, sp_raindexes = Map.empty\<rparr>"

lemma store_abs_new [simp]: "store_abs store_new = spec_new"
  by (simp add: store_abs_def store_new_def spec_new_def)

text \<open>
  Claim C20. The status store refines a pair of maps: after any sequence of seedings, status updates
  and readiness marks its contents are what the same operations give on the maps, every entry stands
  under the identifier it holds, and the snapshot is the one computed from the maps, so that it is
  independent of the order in which the hash maps list their entries.
\<close>

theorem status_store_refines:
  "store_abs (fold run_op ops store_new) = fold spec_op ops spec_new
   \<and> store_ok (fold run_op ops store_new)
   \<and> snapshot (fold run_op ops store_new) = spec_snapshot (fold spec_op ops spec_new)"
  using run_ops_refine [OF store_ok_new, of ops]
  by (simp add: snapshot_refines)

section \<open>The seeded store\<close>

definition synced_raindexes :: "parsed_runner_settings \<Rightarrow> (string \<times> raindex_cfg) list" where
  "synced_raindexes settings =
     filter (\<lambda>(_, raindex). ps_syncs settings (nc_key (rx_network raindex)) \<noteq> None)
       (sort_key fst (ps_raindexes settings))"

definition seed_ops :: "string \<times> raindex_cfg \<Rightarrow> store_op list" where
  "seed_ops entry = (case entry of (raindex_key, raindex) \<Rightarrow>
     [Op_Seed_Network (nc_chain_id (rx_network raindex)) (Some (nc_key (rx_network raindex))),
      Op_Seed_Raindex (raindex_id_of raindex) (Some raindex_key) (Some (nc_key (rx_network raindex)))])"

lemma fold_skip: "fold (\<lambda>x s. if P x then s else f x s) xs s = fold f (filter (\<lambda>x. \<not> P x) xs) s"
  by (induction xs arbitrary: s) auto

lemma fold_concat_map: "fold (\<lambda>x. fold f (g x)) xs s = fold f (concat (map g xs)) s"
  by (induction xs arbitrary: s) auto

lemma seed_is_ops: "seed settings = fold run_op (concat (map seed_ops (synced_raindexes settings))) store_new"
  unfolding seed_def synced_raindexes_def fold_concat_map [symmetric] case_prod_beta fold_skip
  by (simp add: seed_ops_def case_prod_beta comp_def)

fun seeded :: "(string \<times> raindex_cfg) list \<Rightarrow> store_spec \<Rightarrow> bool" where
  \<comment> \<open>what the specification holds once the entries are seeded\<close>
  "seeded es a \<longleftrightarrow>
     dom (sp_networks a) = (\<lambda>e. nc_chain_id (rx_network (snd e))) ` set es
   \<and> dom (sp_raindexes a) = (\<lambda>e. raindex_id_of (snd e)) ` set es
   \<and> (\<forall>c n. sp_networks a c = Some n \<longrightarrow> sn_status n = Syncing \<and> \<not> sn_ready n
        \<and> sn_raindex_count n = card {i \<in> dom (sp_raindexes a). ri_chain_id i = c})
   \<and> (\<forall>i r. sp_raindexes a i = Some r \<longrightarrow> sr_status r = Syncing \<and> \<not> sr_ready r)"

lemma count_other_chain:
  "ri_chain_id i \<noteq> c \<Longrightarrow> {j. (j = i \<or> j \<in> D) \<and> ri_chain_id j = c} = {j \<in> D. ri_chain_id j = c}"
  by auto

lemma dom_upd_or [simp]: "dom (upd_or k v f m) = insert k (dom m)"
  by (auto simp: upd_or_def)

lemma upd_or_SomeD:
  "upd_or k v id m j = Some x \<Longrightarrow> m j = Some x \<or> j = k \<and> x = v"
  by (auto simp: upd_or_def split: if_splits option.splits)

lemma seeded_step:
  assumes "seeded es a"
  shows "seeded (es @ [e]) (fold spec_op (seed_ops e) a)"
proof -
  obtain key raindex where e: "e = (key, raindex)" by (cases e)
  let ?c = "nc_chain_id (rx_network raindex)" and ?i = "raindex_id_of raindex"
  let ?a = "fold spec_op (seed_ops e) a"
  have chain [simp]: "ri_chain_id ?i = ?c" by (simp add: raindex_id_of_def)
  have networks: "dom (sp_networks ?a) = insert ?c (dom (sp_networks a))"
    by (auto simp: e seed_ops_def Let_def split: if_splits) (auto simp: upd_or_def split: if_splits)
  have raindexes: "dom (sp_raindexes ?a) = insert ?i (dom (sp_raindexes a))"
    by (simp add: e seed_ops_def Let_def)
  have counts: "sn_status n = Syncing \<and> \<not> sn_ready n
      \<and> sn_raindex_count n = card {i \<in> dom (sp_raindexes ?a). ri_chain_id i = c}"
    if n: "sp_networks ?a c = Some n" for c n
  proof (cases "c = ?c")
    case True
    with n assms show ?thesis
      by (auto simp: e seed_ops_def Let_def network_snapshot_new_def dest!: upd_or_SomeD)
  next
    case False
    with n assms show ?thesis unfolding raindexes
      by (auto simp: e seed_ops_def Let_def count_other_chain dest!: upd_or_SomeD)
  qed
  have "sr_status r = Syncing \<and> \<not> sr_ready r" if "sp_raindexes ?a i = Some r" for i r
    using that assms by (auto simp: e seed_ops_def Let_def raindex_snapshot_new_def dest!: upd_or_SomeD)
  with counts networks raindexes assms show ?thesis by (simp add: e)
qed

lemma seeded_all: "seeded es (fold spec_op (concat (map seed_ops es)) spec_new)"
proof (induction es rule: rev_induct)
  case Nil
  show ?case by (simp add: spec_new_def)
next
  case (snoc e es)
  then show ?case using seeded_step [of es _ e] by (simp del: seeded.simps)
qed

text \<open>
  Seeding the status store from the settings lists exactly the chains of the raindexes whose
  network has sync settings and exactly those raindexes; every entry starts as syncing and not
  ready, and the raindex count of a chain is the number of its raindexes.
\<close>

lemma seed_lists_synced_raindexes:
  "seeded (synced_raindexes settings) (store_abs (seed settings))"
  using run_ops_refine [OF store_ok_new] seeded_all [of "synced_raindexes settings"]
  by (simp add: seed_is_ops del: seeded.simps)

section \<open>Choosing the source\<close>

lemma classify_chains_partition:
  "classify_chains st networks =
     (let local = filter (\<lambda>c. query_source_of st c = Source_Local_Db) (map nc_chain_id networks);
          sg = filter (\<lambda>c. query_source_of st c = Source_Subgraph) (map nc_chain_id networks) in
      (local \<noteq> [], local, sg))"
proof -
  let ?step = "\<lambda>net (local_db, local_ids, sg_ids). case query_source_of st (nc_chain_id net) of
         Source_Local_Db \<Rightarrow> (True, local_ids @ [nc_chain_id net], sg_ids)
       | Source_Subgraph \<Rightarrow> (local_db, local_ids, sg_ids @ [nc_chain_id net])"
  have "fold ?step networks (b, ls, ss) =
     (let local = filter (\<lambda>c. query_source_of st c = Source_Local_Db) (map nc_chain_id networks) in
      (b \<or> local \<noteq> [], ls @ local,
       ss @ filter (\<lambda>c. query_source_of st c = Source_Subgraph) (map nc_chain_id networks)))" for b ls ss
    by (induction networks arbitrary: b ls ss) (auto split: query_source.splits)
  then show ?thesis unfolding classify_chains_def by (simp add: Let_def)
qed

end
