(* ===== verification/Scheduler.thy ===== *)
theory Scheduler
  imports Client_Runner Sync_Status
begin

text \<open>
  The scheduler (\<open>raindex_client/local_db/pipeline/runner/scheduler/\<close>): one loop per network runs the
  network's runner, records what happened in the status store and waits before the next cycle.
  \<open>mod.rs\<close> paces the loops, \<open>native.rs\<close> and \<open>wasm.rs\<close> are the two loops.

  A loop is the function of one cycle and the relation \<open>loop_run\<close> of the sequences of cycles it can
  make: the stop flag is set by another thread at any moment, so a loop can end after any cycle. The
  status store is shared with the runner, whose status bus writes to it during a run; the set of the
  ready chains is not given to the runner. \<open>readable\<close> is \<open>LocalDbError::to_readable_msg\<close>, whose texts
  come from the error types of other crates.
\<close>

section \<open>Pacing\<close>

definition max_failure_backoff_ms :: u64 where
  "max_failure_backoff_ms = 5 * 60 * 1000"

definition stop_poll_ms :: u64 where
  "stop_poll_ms = 250"

datatype cycle_result = Caught_Up | Behind | Failed

definition cycle_result_of :: "(run_outcome, local_db_error) result \<Rightarrow> cycle_result" where
  "cycle_result_of result = (case result of
     Err _ \<Rightarrow> Failed
   | Ok Not_Leader \<Rightarrow> Caught_Up
   | Ok (Report report) \<Rightarrow>
       if rr_failures report \<noteq> [] then Failed
       else if list_ex (\<lambda>s. \<not> so_caught_up s) (rr_successes report) then Behind
       else Caught_Up)"

definition checked_shl :: "u64 \<Rightarrow> u32 \<Rightarrow> u64 option" where
  "checked_shl x n = (if n < 64 then Some (push_bit (unat n) x) else None)"

definition next_cycle_delay_ms :: "u64 \<Rightarrow> u32 \<Rightarrow> u64" where
  "next_cycle_delay_ms interval_ms consecutive_failures =
     (if consecutive_failures = 0 then interval_ms
      else let ceiling = max max_failure_backoff_ms interval_ms;
               factor = (case checked_shl 1 (min consecutive_failures 32) of Some f \<Rightarrow> f | None \<Rightarrow> - 1) in
           min (saturating_mul interval_ms factor) ceiling)"

fun next_delay_ms :: "u64 \<Rightarrow> cycle_result \<Rightarrow> u32 \<Rightarrow> u64 \<times> u32" where
  "next_delay_ms interval_ms Failed failures =
     (let failures = saturating_add failures 1 in (next_cycle_delay_ms interval_ms failures, failures))"
| "next_delay_ms interval_ms Behind failures = (0, 0)"
| "next_delay_ms interval_ms Caught_Up failures = (interval_ms, 0)"

lemma nap_shorter: "0 < (r :: u64) \<Longrightarrow> unat (r - min r stop_poll_ms) < unat r"
  by (auto simp: stop_poll_ms_def min_def unat_sub word_less_nat_alt)

function sleep_unless_stopped :: "(nat \<Rightarrow> bool) \<Rightarrow> nat \<Rightarrow> u64 \<Rightarrow> u64 list" where
  \<comment> \<open>the lengths of the naps; \<open>stop n\<close> is what the load number \<open>n\<close> of the stop flag reads\<close>
  "sleep_unless_stopped stop n remaining =
     (if 0 < remaining \<and> \<not> stop n then
        let step = min remaining stop_poll_ms in
        step # sleep_unless_stopped stop (Suc n) (remaining - step)
      else [])"
  by pat_completeness auto
termination
  by (relation "measure (\<lambda>(stop, n, remaining). unat remaining)") (auto simp: nap_shorter)

declare sleep_unless_stopped.simps [simp del]

section \<open>The native loop\<close>

type_synonym run_result = "(run_outcome, local_db_error) result"

record ('r, 'w) native_loop =
  nl_runner :: 'r
  nl_store :: snapshot_store
  nl_ready :: "u32 set"
  nl_failures :: u32
  nl_world :: 'w

type_synonym ('r, 'w) native_runner =
  "'r \<Rightarrow> snapshot_store \<times> 'w \<Rightarrow> run_result \<times> 'r \<times> snapshot_store \<times> 'w"

definition record_native_failure ::
  "(local_db_error \<Rightarrow> string) \<Rightarrow> u32 \<Rightarrow> target_failure \<Rightarrow> snapshot_store \<Rightarrow> snapshot_store" where
  "record_native_failure readable chain_id failure store =
     (let msg = readable (tf_error failure) in
      update_network (network_failure chain_id msg)
        (update_raindex (raindex_failure (tf_raindex_id failure) msg) store))"

definition record_native ::
  "(local_db_error \<Rightarrow> string) \<Rightarrow> u32 \<Rightarrow> run_result \<Rightarrow> snapshot_store \<times> u32 set \<Rightarrow> snapshot_store \<times> u32 set" where
  "record_native readable chain_id result state = (case state of (store, ready) \<Rightarrow>
     case result of
       Ok (Report report) \<Rightarrow>
         if rr_failures report = [] \<and> cycle_result_of result = Caught_Up then
           (update_network (network_active chain_id Leading) (mark_ready chain_id store), insert chain_id ready)
         else if rr_failures report = [] then (update_network (network_syncing chain_id) store, ready)
         else (fold (record_native_failure readable chain_id) (rr_failures report) store, ready)
     | Ok Not_Leader \<Rightarrow>
         (update_network (network_active chain_id Not_Leading) (mark_ready chain_id store), insert chain_id ready)
     | Err err \<Rightarrow>
         (update_network \<lparr>ns_chain_id = chain_id, ns_status = Failure, ns_scheduler_state = Leading,
            ns_error = Some (readable err)\<rparr> store, ready))"

definition native_cycle ::
  "('r, 'w) native_runner \<Rightarrow> (local_db_error \<Rightarrow> string) \<Rightarrow> u32 \<Rightarrow> u64 \<Rightarrow> ('r, 'w) native_loop
   \<Rightarrow> run_result \<times> u64 \<times> ('r, 'w) native_loop" where
  "native_cycle run_once readable chain_id interval_ms st =
     (case run_once (nl_runner st) (nl_store st, nl_world st) of (result, runner, store, w) \<Rightarrow>
      case record_native readable chain_id result (store, nl_ready st) of (store, ready) \<Rightarrow>
      case next_delay_ms interval_ms (cycle_result_of result) (nl_failures st) of (delay, failures) \<Rightarrow>
      (result, delay, \<lparr>nl_runner = runner, nl_store = store, nl_ready = ready, nl_failures = failures,
         nl_world = w\<rparr>))"

definition native_start :: "u32 \<Rightarrow> 'r \<Rightarrow> snapshot_store \<Rightarrow> u32 set \<Rightarrow> 'w \<Rightarrow> ('r, 'w) native_loop" where
  "native_start chain_id runner store ready w = \<lparr>nl_runner = runner,
     nl_store = update_network (network_syncing chain_id) store, nl_ready = ready, nl_failures = 0,
     nl_world = w\<rparr>"

section \<open>The loop in the browser\<close>

datatype emission = Emit_Network network_sync_status | Emit_Raindex raindex_sync_status

text \<open>What a loop shares with the status bus of its runner: the store, the statuses handed to the
  callback, and the scheduler state of the thread.\<close>

record status_sink =
  sk_store :: snapshot_store
  sk_emitted :: "emission list"
  sk_scheduler :: scheduler_state

definition emit_network_status :: "bool \<Rightarrow> network_sync_status \<Rightarrow> status_sink \<Rightarrow> status_sink" where
  "emit_network_status callback status sink =
     sink\<lparr>sk_store := update_network status (sk_store sink),
       sk_emitted := sk_emitted sink @ (if callback then [Emit_Network status] else [])\<rparr>"

definition emit_raindex_status :: "bool \<Rightarrow> raindex_sync_status \<Rightarrow> status_sink \<Rightarrow> status_sink" where
  "emit_raindex_status callback status sink =
     sink\<lparr>sk_store := update_raindex status (sk_store sink),
       sk_emitted := sk_emitted sink @ (if callback then [Emit_Raindex status] else [])\<rparr>"

definition emit_raindex_sync_statuses ::
  "bool \<Rightarrow> raindex_identifier list \<Rightarrow> sync_phase \<Rightarrow> status_sink \<Rightarrow> status_sink" where
  "emit_raindex_sync_statuses callback ids phase =
     fold (\<lambda>i. emit_raindex_status callback (raindex_syncing i phase)) ids"

definition emit_raindex_active_statuses ::
  "bool \<Rightarrow> raindex_identifier list \<Rightarrow> scheduler_state \<Rightarrow> status_sink \<Rightarrow> status_sink" where
  "emit_raindex_active_statuses callback ids state =
     fold (\<lambda>i. emit_raindex_status callback (raindex_active i state)) ids"

definition emit_initial_sync_statuses :: "bool \<Rightarrow> parsed_runner_settings \<Rightarrow> status_sink \<Rightarrow> status_sink" where
  "emit_initial_sync_statuses callback settings sink =
     fst (fold (\<lambda>(_, raindex) (sink, emitted_networks).
       let chain_id = nc_chain_id (rx_network raindex) in
       if ps_syncs settings (nc_key (rx_network raindex)) = None then (sink, emitted_networks)
       else
         let sink = (if chain_id \<notin> emitted_networks
               then emit_network_status callback (network_syncing chain_id) sink else sink) in
         (emit_raindex_status callback (raindex_syncing (raindex_id_of raindex) Preparing_Local_Database) sink,
          insert chain_id emitted_networks))
     (ps_raindexes settings) (sink, {}))"

record ('r, 'w) wasm_loop =
  wl_runner :: 'r
  wl_sink :: status_sink
  wl_ready :: "u32 set"
  wl_was_leader_last_cycle :: bool
  wl_failures :: u32
  wl_world :: 'w

type_synonym ('r, 'w) wasm_runner =
  "(sync_phase \<Rightarrow> status_sink \<Rightarrow> status_sink) \<Rightarrow> 'r \<Rightarrow> status_sink \<times> 'w
   \<Rightarrow> run_result \<times> 'r \<times> status_sink \<times> 'w"

fun stage_debug :: "target_stage \<Rightarrow> string" where
  "stage_debug Manifest_Fetch_Stage = ''ManifestFetch''"
| "stage_debug Dump_Download = ''DumpDownload''"
| "stage_debug Engine_Build = ''EngineBuild''"
| "stage_debug Engine_Run = ''EngineRun''"
| "stage_debug Export_Stage = ''Export''"

definition wasm_failure_msg :: "(local_db_error \<Rightarrow> string) \<Rightarrow> target_failure \<Rightarrow> string" where
  "wasm_failure_msg readable failure =
     ''raindex '' @ address_hex (ri_raindex_address (tf_raindex_id failure)) @ '' failed at '' @
     stage_debug (tf_stage failure) @ '': '' @ readable (tf_error failure)"

definition record_wasm ::
  "(local_db_error \<Rightarrow> string) \<Rightarrow> bool \<Rightarrow> u32 \<Rightarrow> raindex_identifier list \<Rightarrow> run_result
   \<Rightarrow> status_sink \<times> u32 set \<Rightarrow> status_sink \<times> u32 set \<times> bool" where
  \<comment> \<open>the new value of \<open>was_leader_last_cycle\<close> comes last\<close>
  "record_wasm readable callback chain_id ids result state = (case state of (sink, ready) \<Rightarrow>
     case result of
       Ok (Report report) \<Rightarrow>
         let sink = sink\<lparr>sk_scheduler := Leading\<rparr> in
         (case rr_failures report of
            [] \<Rightarrow>
              if cycle_result_of result = Caught_Up then
                (emit_network_status callback (network_active chain_id Leading)
                   (emit_raindex_active_statuses callback ids Leading
                      (sink\<lparr>sk_store := mark_ready chain_id (sk_store sink)\<rparr>)),
                 insert chain_id ready, True)
              else (emit_network_status callback (network_syncing chain_id) sink, ready, True)
          | first # _ \<Rightarrow>
              let msg = wasm_failure_msg readable first in
              (emit_network_status callback (network_failure chain_id msg)
                 (emit_raindex_status callback (raindex_failure (tf_raindex_id first) msg) sink),
               ready, True))
     | Ok Not_Leader \<Rightarrow>
         let sink = sink\<lparr>sk_scheduler := Not_Leading, sk_store := mark_ready chain_id (sk_store sink)\<rparr> in
         (emit_network_status callback (network_active chain_id Not_Leading)
            (emit_raindex_active_statuses callback ids Not_Leading sink),
          insert chain_id ready, False)
     | Err err \<Rightarrow> (emit_network_status callback (network_failure chain_id (readable err)) sink, ready, True))"

definition wasm_cycle ::
  "('r, 'w) wasm_runner \<Rightarrow> (local_db_error \<Rightarrow> string) \<Rightarrow> bool \<Rightarrow> u32 \<Rightarrow> raindex_identifier list \<Rightarrow> u32
   \<Rightarrow> ('r, 'w) wasm_loop \<Rightarrow> run_result \<times> u64 \<times> ('r, 'w) wasm_loop" where
  "wasm_cycle run_once readable callback chain_id ids interval_ms st =
     (let sink = (if wl_was_leader_last_cycle st
            then emit_network_status callback (network_syncing chain_id) (wl_sink st) else wl_sink st) in
      case run_once (emit_raindex_sync_statuses callback ids) (wl_runner st) (sink, wl_world st) of
        (result, runner, sink, w) \<Rightarrow>
      case record_wasm readable callback chain_id ids result (sink, wl_ready st) of
        (sink, ready, was_leader) \<Rightarrow>
      case next_delay_ms (ucast interval_ms) (cycle_result_of result) (wl_failures st) of (delay, failures) \<Rightarrow>
      (result, delay, \<lparr>wl_runner = runner, wl_sink = sink, wl_ready = ready,
         wl_was_leader_last_cycle = was_leader, wl_failures = failures, wl_world = w\<rparr>))"

definition wasm_start ::
  "bool \<Rightarrow> u32 \<Rightarrow> raindex_identifier list \<Rightarrow> 'r \<Rightarrow> status_sink \<Rightarrow> u32 set \<Rightarrow> 'w \<Rightarrow> ('r, 'w) wasm_loop" where
  "wasm_start callback chain_id ids runner sink ready w = \<lparr>wl_runner = runner,
     wl_sink = emit_raindex_sync_statuses callback ids Preparing_Local_Database
       (emit_network_status callback (network_syncing chain_id) sink),
     wl_ready = ready, wl_was_leader_last_cycle = False, wl_failures = 0, wl_world = w\<rparr>"

definition wasm_interval :: "local_db_sync_cfg \<Rightarrow> u32" where
  \<comment> \<open>\<open>as u32\<close>: the low half of the interval of the settings\<close>
  "wasm_interval sync_cfg = ucast (ls_sync_interval_ms sync_cfg)"

section \<open>Starting the loops\<close>

definition spawn_network ::
  "parsed_runner_settings \<Rightarrow> network_cfg \<Rightarrow> (network_runner_config \<times> runner_target list \<times> u64) option" where
  \<comment> \<open>the body of the loop over the networks: \<open>None\<close> where it logs and continues\<close>
  "spawn_network settings network =
     (case from_global_settings settings (nc_key network) of
        Err _ \<Rightarrow> None
      | Ok config \<Rightarrow>
          (case ps_syncs settings (nc_key network) of
             None \<Rightarrow> None
           | Some sync_cfg \<Rightarrow>
               (case build_targets config of
                  Err _ \<Rightarrow> None
                | Ok targets \<Rightarrow> Some (config, targets, ls_sync_interval_ms sync_cfg))))"

definition native_start_all ::
  "parsed_runner_settings \<Rightarrow> (snapshot_store \<times> (network_runner_config \<times> runner_target list \<times> u64) list,
     local_db_error) result" where
  \<comment> \<open>\<open>start\<close> when the bootstrap succeeds and the stop flag stays clear: the seeded store and the loops\<close>
  "native_start_all settings =
     (let networks = configured_sync_networks settings in
      if networks = [] then Err (Custom_Error ''no networks found in settings'')
      else Ok (seed settings, List.map_filter (spawn_network settings) networks))"

section \<open>Sequences of cycles\<close>

inductive loop_run :: "('s \<Rightarrow> run_result \<times> u64 \<times> 's) \<Rightarrow> 's \<Rightarrow> (run_result \<times> u64) list \<Rightarrow> 's \<Rightarrow> bool"
  for cycle s0 where
  loop_start: "loop_run cycle s0 [] s0"
| loop_cycle: "loop_run cycle s0 hist s \<Longrightarrow> cycle s = (result, delay, s') \<Longrightarrow>
    loop_run cycle s0 (hist @ [(result, delay)]) s'"

inductive_cases loop_run_snocE: "loop_run cycle s0 (hist @ [x]) s"

definition failed_cycle :: "run_result \<times> u64 \<Rightarrow> bool" where
  "failed_cycle x \<longleftrightarrow> cycle_result_of (fst x) = Failed"

definition trailing_failures :: "(run_result \<times> u64) list \<Rightarrow> nat" where
  "trailing_failures hist = length (takeWhile failed_cycle (rev hist))"

definition paced_delay :: "nat \<Rightarrow> cycle_result \<Rightarrow> nat \<Rightarrow> nat" where
  \<comment> \<open>the delay as a number, after the given number of failures in a row\<close>
  "paced_delay interval r failures = (case r of
     Behind \<Rightarrow> 0 | Caught_Up \<Rightarrow> interval
   | Failed \<Rightarrow> min (interval * 2 ^ min failures 32) (max 300000 interval))"

section \<open>The pace\<close>

lemma unat_shl_1:
  assumes "n < (64 :: u32)"
  shows "unat (push_bit (unat n) (1 :: u64)) = 2 ^ unat n"
proof -
  have "unat n < 64" using assms by (simp add: word_less_nat_alt)
  then have "(2 :: nat) ^ unat n < 2 ^ 64" by (intro power_strict_increasing) simp_all
  then show ?thesis unfolding unsigned_push_bit_eq by (simp add: push_bit_eq_mult take_bit_eq_mod)
qed

lemma unat_max: "unat (max (a :: 'n :: len word) b) = max (unat a) (unat b)"
  by (simp add: max_def word_le_nat_alt)

lemma unat_min: "unat (min (a :: 'n :: len word) b) = min (unat a) (unat b)"
  by (simp add: min_def word_le_nat_alt)

lemma next_cycle_delay_closed:
  assumes "0 < f"
  shows "unat (next_cycle_delay_ms i f) = min (unat i * 2 ^ min (unat f) 32) (max 300000 (unat i))"
proof -
  have m: "min f 32 < 64" by (simp add: min_def word_less_nat_alt word_le_nat_alt)
  have u: "unat (min f 32) = min (unat f) 32" by (simp add: unat_min)
  have cap: "max 300000 (unat i) \<le> 2 ^ 64 - 1"
    using unat_le_max [of i] by simp
  have "f \<noteq> 0" using assms by auto
  then have "unat (next_cycle_delay_ms i f) =
      min (min (unat i * 2 ^ min (unat f) 32) (2 ^ 64 - 1)) (max 300000 (unat i))"
    using m unat_shl_1 [OF m]
    by (simp add: next_cycle_delay_ms_def checked_shl_def Let_def unat_min unat_max unat_saturating_mul
        u max_failure_backoff_ms_def)
  also have "\<dots> = min (unat i * 2 ^ min (unat f) 32) (max 300000 (unat i))"
    using cap by linarith
  finally show ?thesis .
qed

lemma next_delay_closed:
  assumes "next_delay_ms i r f = (d, f')"
  shows "unat d = paced_delay (unat i) r (unat f')"
    and "unat f' = (if r = Failed then min (unat f + 1) (2 ^ 32 - 1) else 0)"
proof -
  have "unat f' = min (unat f + 1) (2 ^ 32 - 1)" if "r = Failed"
    using assms that by (auto simp: Let_def unat_saturating_add)
  moreover from this have "0 < f'" if "r = Failed"
    using that by (simp add: word_less_nat_alt)
  ultimately show "unat d = paced_delay (unat i) r (unat f')"
    and "unat f' = (if r = Failed then min (unat f + 1) (2 ^ 32 - 1) else 0)"
    using assms by (cases r; auto simp: paced_delay_def Let_def next_cycle_delay_closed)+
qed

lemma trailing_failures_snoc:
  "trailing_failures (hist @ [x]) = (if failed_cycle x then Suc (trailing_failures hist) else 0)"
  by (simp add: trailing_failures_def)

section \<open>What a loop promises\<close>

locale scheduler_loop =
  fixes cycle :: "'s \<Rightarrow> run_result \<times> u64 \<times> 's"
    and ready :: "'s \<Rightarrow> u32 set"
    and failures :: "'s \<Rightarrow> u32"
    and chain :: u32
    and interval :: u64
  assumes cycle_ready: "cycle s = (r, d, s') \<Longrightarrow>
      ready s' = (if cycle_result_of r = Caught_Up then insert chain (ready s) else ready s)"
    and cycle_pace: "cycle s = (r, d, s') \<Longrightarrow>
      next_delay_ms interval (cycle_result_of r) (failures s) = (d, failures s')"
begin

lemma ready_iff:
  assumes "loop_run cycle s hist s'"
  shows "ready s' = ready s \<union> (if \<exists>(r, d) \<in> set hist. cycle_result_of r = Caught_Up then {chain} else {})"
  using assms
proof (induction rule: loop_run.induct)
  case (loop_cycle hist s' r d s'')
  then show ?case using cycle_ready [OF loop_cycle(2)] by (auto split: if_splits)
qed simp

lemma failures_trailing:
  assumes "loop_run cycle s hist s'" and "failures s = 0"
  shows "unat (failures s') = min (trailing_failures hist) (2 ^ 32 - 1)"
  using assms
proof (induction rule: loop_run.induct)
  case (loop_cycle hist s' r d s'')
  then show ?case
    using next_delay_closed(2) [OF cycle_pace [OF loop_cycle(2)]]
    by (simp add: trailing_failures_snoc failed_cycle_def) linarith
qed (simp add: trailing_failures_def)

lemma delay_closed:
  assumes "loop_run cycle s (hist @ [(r, d)]) s'" and "failures s = 0"
  shows "unat d = paced_delay (unat interval) (cycle_result_of r) (trailing_failures (hist @ [(r, d)]))"
proof -
  from assms(1) obtain s1 where cyc: "cycle s1 = (r, d, s')"
    by (auto elim: loop_run_snocE)
  have "min (min n (2 ^ 32 - 1)) 32 = min n 32" for n :: nat by simp
  then show ?thesis
    using next_delay_closed(1) [OF cycle_pace [OF cyc]] failures_trailing [OF assms]
    by (auto simp: paced_delay_def split: cycle_result.splits)
qed

end

lemma caught_up_report:
  "cycle_result_of (Ok (Report report)) = Caught_Up \<longleftrightarrow>
     rr_failures report = [] \<and> list_all so_caught_up (rr_successes report)"
  by (auto simp: cycle_result_of_def list_ex_iff list_all_iff)

lemma cycle_result_simps [simp]:
  "cycle_result_of (Err e) = Failed" "cycle_result_of (Ok Not_Leader) = Caught_Up"
  by (simp_all add: cycle_result_of_def)

lemma record_native_ready:
  "record_native readable chain r (store, ready) = (store', ready') \<Longrightarrow>
     ready' = (if cycle_result_of r = Caught_Up then insert chain ready else ready)"
  by (auto simp: record_native_def caught_up_report split: result.splits run_outcome.splits if_splits)

lemma record_wasm_ready:
  "record_wasm readable callback chain ids r (sink, ready) = (sink', ready', leader) \<Longrightarrow>
     ready' = (if cycle_result_of r = Caught_Up then insert chain ready else ready)"
  by (auto simp: record_wasm_def caught_up_report Let_def
      split: result.splits run_outcome.splits list.splits if_splits)

interpretation native: scheduler_loop
  "native_cycle run_once readable chain interval" nl_ready nl_failures chain interval
  for run_once :: "('r, 'w) native_runner" and readable chain interval
proof unfold_locales
  fix s r d and s' :: "('r, 'w) native_loop"
  assume cyc: "native_cycle run_once readable chain interval s = (r, d, s')"
  show "nl_ready s' = (if cycle_result_of r = Caught_Up then insert chain (nl_ready s) else nl_ready s)"
    using cyc by (clarsimp simp: native_cycle_def split: prod.splits) (drule record_native_ready, simp)
  show "next_delay_ms interval (cycle_result_of r) (nl_failures s) = (d, nl_failures s')"
    using cyc by (auto simp: native_cycle_def split: prod.splits)
qed

interpretation wasm: scheduler_loop
  "wasm_cycle run_once readable callback chain ids interval" wl_ready wl_failures chain "ucast interval"
  for run_once :: "('r, 'w) wasm_runner" and readable callback chain ids interval
proof unfold_locales
  fix s r d and s' :: "('r, 'w) wasm_loop"
  assume cyc: "wasm_cycle run_once readable callback chain ids interval s = (r, d, s')"
  show "wl_ready s' = (if cycle_result_of r = Caught_Up then insert chain (wl_ready s) else wl_ready s)"
    using cyc by (clarsimp simp: wasm_cycle_def Let_def split: prod.splits) (drule record_wasm_ready, simp)
  show "next_delay_ms (ucast interval) (cycle_result_of r) (wl_failures s) = (d, wl_failures s')"
    using cyc by (auto simp: wasm_cycle_def Let_def split: prod.splits)
qed

text \<open>
  The wait after a cycle depends on the results so far only: nothing after a cycle that
  stopped short, the interval after one that caught up, and after \<open>f\<close> failures in a row the interval
  times \<open>2^f\<close> (\<open>f\<close> at most 32), never more than five minutes or the interval, whichever is longer.
  The saturating and checked arithmetic of the code never shows, whatever the interval and however
  long the failures last.
\<close>

lemma native_pace:
  assumes "loop_run (native_cycle run_once readable chain interval)
      (native_start chain runner store ready w) (hist @ [(r, d)]) s"
  shows "unat d = paced_delay (unat interval) (cycle_result_of r) (trailing_failures (hist @ [(r, d)]))"
  using assms by (rule native.delay_closed) (simp add: native_start_def)

text \<open>
  The browser loop waits the same way, at the interval its \<open>as u32\<close> leaves.
\<close>

lemma wasm_pace:
  assumes "loop_run (wasm_cycle run_once readable callback chain ids interval)
      (wasm_start callback chain ids runner sink ready w) (hist @ [(r, d)]) s"
  shows "unat d = paced_delay (unat interval) (cycle_result_of r) (trailing_failures (hist @ [(r, d)]))"
proof -
  have "unat (ucast interval :: u64) = unat interval"
    using unat_le_max [of interval] by (simp add: unsigned_ucast_eq take_bit_nat_eq_self_iff)
  with wasm.delay_closed [OF assms] show ?thesis by (simp add: wasm_start_def)
qed

lemma wasm_interval_truncates: "unat (wasm_interval cfg) = unat (ls_sync_interval_ms cfg) mod 2 ^ 32"
  by (simp add: wasm_interval_def unsigned_ucast_eq take_bit_eq_mod)

section \<open>Naps\<close>

lemma sleep_naps:
  "list_all (\<lambda>x. 0 < x \<and> x \<le> stop_poll_ms) (sleep_unless_stopped stop n d)"
proof (induction stop n d rule: sleep_unless_stopped.induct)
  case (1 stop n d)
  then show ?case
    by (subst sleep_unless_stopped.simps) (auto simp: Let_def stop_poll_ms_def min_def)
qed

lemma sleep_stop: "stop (n + k) \<Longrightarrow> length (sleep_unless_stopped stop n d) \<le> k"
proof (induction stop n d arbitrary: k rule: sleep_unless_stopped.induct)
  case (1 stop n d)
  then show ?case
    by (subst sleep_unless_stopped.simps, cases k) (auto simp: Let_def)
qed

lemma sleep_total:
  "sum_list (map unat (sleep_unless_stopped (\<lambda>_. False) n d)) = unat d"
proof (induction "\<lambda>_ :: nat. False" n d rule: sleep_unless_stopped.induct)
  case (1 n d)
  have "unat (d - min d stop_poll_ms) = unat d - unat (min d stop_poll_ms)"
    by (intro unat_sub) simp
  moreover have "unat (min d stop_poll_ms) \<le> unat d" by (simp add: unat_min)
  ultimately show ?case
    using 1 by (subst sleep_unless_stopped.simps) (auto simp: Let_def word_gt_0)
qed

text \<open>
  The wait between two cycles ends: it is a sequence of naps of at most 250 ms each, at
  most \<open>k\<close> of them when the load number \<open>k\<close> of the stop flag finds it set, and when the flag is never
  set the naps add up to the delay exactly.
\<close>

lemma sleep_ends:
  "list_all (\<lambda>x. 0 < x \<and> x \<le> stop_poll_ms) (sleep_unless_stopped stop 0 d)
   \<and> (stop k \<longrightarrow> length (sleep_unless_stopped stop 0 d) \<le> k)
   \<and> ((\<forall>i. \<not> stop i) \<longrightarrow> sum_list (map unat (sleep_unless_stopped stop 0 d)) = unat d)"
proof -
  have "stop = (\<lambda>_. False)" if "\<forall>i. \<not> stop i" using that by auto
  then show ?thesis using sleep_naps sleep_stop [of stop 0 k d] sleep_total [of 0 d] by auto
qed

lemma sleep_ends_example:
  "length (sleep_unless_stopped (\<lambda>n. n = 1) 0 600) = 1 \<and>
   sum_list (map unat (sleep_unless_stopped (\<lambda>_. False) 0 600)) = 600"
proof -
  have "length (sleep_unless_stopped (\<lambda>n. n = 1) 0 600) \<le> 1"
    using sleep_ends [of "\<lambda>n. n = 1" 600 1] by simp
  moreover have "sleep_unless_stopped (\<lambda>n. n = 1) 0 600 \<noteq> []"
    by (subst sleep_unless_stopped.simps) (simp add: Let_def)
  moreover have "sum_list (map unat (sleep_unless_stopped (\<lambda>_. False) 0 600)) = 600"
    using sleep_ends [of "\<lambda>_. False" 600 0] by simp
  ultimately show ?thesis by (cases "sleep_unless_stopped (\<lambda>n. n = 1) 0 600") auto
qed

section \<open>Readiness\<close>

definition client_run_once ::
  "(snapshot_store \<times> 'w) runner_env \<Rightarrow> (snapshot_store \<times> 'w) db_ops \<Rightarrow> (runner_state, 'w) native_runner" where
  \<comment> \<open>\<open>NativeRunner for NativeClientRunner\<close>: the client's runner, outside of the browser\<close>
  "client_run_once env db = run_with_phase_callback False env db"

lemma loop_run_cycles:
  "loop_run cycle s0 hist s \<Longrightarrow> (r, d) \<in> set hist \<Longrightarrow> \<exists>s1 s2. cycle s1 = (r, d, s2)"
  by (induction rule: loop_run.induct) auto

lemma report_without_failure_loaded:
  assumes "run_with_phase_callback wasm env db st w = (Ok (Report report), st', w')"
    and "rr_failures report = []"
  shows "ru_manifests_loaded st'"
  using assms
  by (auto simp: run_with_phase_callback_def run_as_leader_def run_provisioning_def Let_def
      split: prod.splits result.splits bool.splits if_splits)

text \<open>
  Claim C17. A chain becomes ready for local queries only after a cycle in which the client was not
  the leader, or in which every target of the network's runner succeeded and reached the block it
  was asked to sync to: no failed, missing or partly synced target is behind a ready chain.
\<close>

theorem ready_chain_is_synced:
  assumes run: "loop_run (native_cycle (client_run_once env db) readable chain interval)
      (native_start chain runner store ready0 w) hist s"
    and new: "chain \<notin> ready0" "chain \<in> nl_ready s"
  shows "\<exists>(r, d) \<in> set hist. r = Ok Not_Leader \<or>
    (\<exists>report. r = Ok (Report report) \<and> rr_failures report = [] \<and>
       image_mset so_raindex_id (mset (rr_successes report)) = mset (map target_id (re_base_targets env)) \<and>
       list_all so_caught_up (rr_successes report))"
proof -
  obtain r d where rd: "(r, d) \<in> set hist" "cycle_result_of r = Caught_Up"
    using native.ready_iff [OF run] new by (auto simp: native_start_def split: if_splits)
  obtain s1 s2 where cyc: "native_cycle (client_run_once env db) readable chain interval s1 = (r, d, s2)"
    using loop_run_cycles [OF run rd(1)] by blast
  then obtain st' w' where once: "run_with_phase_callback False env db (nl_runner s1) (nl_store s1, nl_world s1)
      = (r, st', w')"
    by (auto simp: native_cycle_def client_run_once_def split: prod.splits)
  show ?thesis
  proof (cases r)
    case (Err e)
    with rd show ?thesis by simp
  next
    case (Ok outcome)
    show ?thesis
    proof (cases outcome)
      case Not_Leader
      with rd Ok show ?thesis by auto
    next
      case (Report report)
      with rd Ok have none: "rr_failures report = []" "list_all so_caught_up (rr_successes report)"
        by (simp_all add: caught_up_report)
      note once [unfolded Ok Report]
      from report_covers_targets [OF this report_without_failure_loaded [OF this none(1)]] none rd(1) Ok Report
      show ?thesis by (intro bexI [of _ "(r, d)"]) auto
    qed
  qed
qed

section \<open>The status of a network\<close>

fun status_of_cycle :: "cycle_result \<Rightarrow> local_db_status" where
  "status_of_cycle Caught_Up = Active"
| "status_of_cycle Behind = Syncing"
| "status_of_cycle Failed = Failure"

lemma update_network_status:
  "\<exists>n. map_of (st_networks (update_network status store)) (ns_chain_id status) = Some n \<and>
     sn_status n = ns_status status \<and> sn_error n = ns_error status"
  by (simp add: update_network_def entry_update_abs upd_or_def network_apply_status_def)

lemma network_status_fields [simp]:
  "ns_chain_id (network_active c st) = c" "ns_status (network_active c st) = Active"
  "ns_chain_id (network_syncing c) = c" "ns_status (network_syncing c) = Syncing"
  "ns_chain_id (network_failure c e) = c" "ns_status (network_failure c e) = Failure"
  by (simp_all add: network_active_def network_syncing_def network_failure_def)

lemma record_native_status:
  assumes "record_native readable chain r (store, ready) = (store', ready')"
  shows "\<exists>n. map_of (st_networks store') chain = Some n \<and> sn_status n = status_of_cycle (cycle_result_of r)"
proof -
  have upd: "\<exists>n. map_of (st_networks (update_network status st)) chain = Some n \<and> sn_status n = ns_status status"
    if "ns_chain_id status = chain" for status st
    using update_network_status [of status st] that by auto
  show ?thesis
  proof (cases r)
    case (Err e)
    with assms show ?thesis
      using upd [of "\<lparr>ns_chain_id = chain, ns_status = Failure, ns_scheduler_state = Leading,
        ns_error = Some (readable e)\<rparr>" store]
      by (auto simp: record_native_def)
  next
    case (Ok outcome)
    show ?thesis
    proof (cases outcome)
      case Not_Leader
      with assms Ok show ?thesis using upd [of "network_active chain Not_Leading"]
        by (auto simp: record_native_def)
    next
      case (Report report)
      show ?thesis
      proof (cases "rr_failures report" rule: rev_cases)
        case Nil
        with assms Ok Report show ?thesis
          using upd [of "network_active chain Leading"] upd [of "network_syncing chain"]
          by (auto simp: record_native_def cycle_result_of_def split: if_splits)
      next
        case (snoc fs f)
        with assms Ok Report show ?thesis
          using upd [of "network_failure chain (readable (tf_error f))"]
          by (auto simp: record_native_def cycle_result_of_def record_native_failure_def Let_def)
      qed
    qed
  qed
qed

text \<open>
  After every cycle the status store shows the network as the cycle left it: active when it
  caught up, syncing when it stopped short, failed when a target or the whole run failed, whatever
  the store held before and the runner wrote into it.
\<close>

lemma native_cycle_shows_status:
  assumes "native_cycle run_once readable chain interval st = (r, d, st')"
  shows "\<exists>n. map_of (st_networks (nl_store st')) chain = Some n \<and>
    sn_status n = status_of_cycle (cycle_result_of r)"
proof -
  from assms obtain store ready store' where
    "record_native readable chain r (store, ready) = (store', nl_ready st')" "nl_store st' = store'"
    by (auto simp: native_cycle_def split: prod.splits)
  then show ?thesis using record_native_status by blast
qed

section \<open>Concrete loops\<close>

text \<open>An engine with nothing to sync, and a runner that leads with one such target.\<close>

definition idle_engine :: "'w engine" where
  "idle_engine = \<lparr>en_bootstrap_run = (\<lambda>_ w. (Ok (), w)), en_window_compute = (\<lambda>_ _ _ w. (Ok (11, 10), w)),
     en_latest_block = (\<lambda>w. (Ok 10, w)), en_block_hash = (\<lambda>_ w. (Ok 0, w)),
     en_fetch_raindex = (\<lambda>_ _ _ _ w. (Ok [], w)), en_fetch_stores = (\<lambda>_ _ _ _ w. (Ok [], w)),
     en_decode = (\<lambda>_. Ok []), en_load_existing = (\<lambda>_ _ w. (Ok [], w)),
     en_fetch_missing = (\<lambda>_ _ w. (Ok [], w)), en_build_batch = (\<lambda>_ _ _ _ _. Ok batch_new),
     en_persist = (\<lambda>_ w. (Ok (), w)), en_export_dump = (\<lambda>_ _ w. (Ok (), w)),
     en_send = (\<lambda>_ w. (Ok (), w))\<rparr>"

definition idle_env :: "(snapshot_store \<times> unit) runner_env" where
  "idle_env = \<lparr>re_raindexes = [], re_base_targets = [example_target],
     re_fetch_manifests = (\<lambda>_ w. (Ok Map.empty, w)), re_download_dump = (\<lambda>_ w. (Ok ''dump'', w)),
     re_build_engine = (\<lambda>_. Ok idle_engine), re_acquire = (\<lambda>w. (Ok True, w)),
     re_on_phase = (\<lambda>_ w. w), re_error_text = (\<lambda>_. [])\<rparr>"

definition idle_report :: run_report where
  "idle_report = \<lparr>rr_successes = [\<lparr>so_raindex_id = target_id example_target, so_start_block = 11,
     so_target_block = 10, so_fetched_logs = 0, so_caught_up = True, so_decoded_events = 0\<rparr>],
     rr_failures = []\<rparr>"

lemma idle_run: "\<exists>st'. client_run_once idle_env db (runner_init False) w = (Ok (Report idle_report), st', w)"
  by (simp add: client_run_once_def runner_eval runner_init_def io_defs Let_def idle_env_def idle_engine_def
      idle_report_def engine_run_def bootstrap_phase_def compute_window_phase_def example_target_def)

definition idle_db :: "(snapshot_store \<times> unit) db_ops" where
  "idle_db = \<lparr>db_execute_batch = (\<lambda>b w. (Ok (), w)), db_query_text = (\<lambda>s w. (Ok [], w)),
     db_execute_sql_dump = (\<lambda>s w. (Ok (), w)), db_wipe_and_recreate = (\<lambda>w. (Ok (), w)),
     db_watermark = (\<lambda>i w. (Ok [], w)), db_store_addresses = (\<lambda>i w. (Ok [], w)),
     db_tables = (\<lambda>w. (Ok [], w)), db_table_columns = (\<lambda>t w. (Ok [], w)),
     db_metadata_versions = (\<lambda>w. (Ok [], w)), db_quick_check = (\<lambda>w. (Ok [], w)),
     db_cache_size_query = (\<lambda>w. (Ok (), w))\<rparr>"

lemma one_cycle:
  assumes "run_once (nl_runner s) (nl_store s, nl_world s) = (r, runner, store, w)"
  shows "\<exists>d s'. native_cycle run_once readable chain interval s = (r, d, s') \<and>
    loop_run (native_cycle run_once readable chain interval) s [(r, d)] s'"
proof -
  obtain d s' where cyc: "native_cycle run_once readable chain interval s = (r, d, s')"
    using assms unfolding native_cycle_def by (simp add: case_prod_beta)
  let ?cycle = "native_cycle run_once readable chain interval"
  have "loop_run ?cycle s ([] @ [(r, d)]) s'"
    using loop_run.loop_start cyc by (rule loop_run.loop_cycle)
  with cyc show ?thesis by auto
qed

abbreviation idle_cycle :: "(runner_state, unit) native_loop \<Rightarrow> run_result \<times> u64 \<times> (runner_state, unit) native_loop" where
  "idle_cycle \<equiv> native_cycle (client_run_once idle_env idle_db) (\<lambda>_. ''failed'') 1 10000"

abbreviation idle_start :: "(runner_state, unit) native_loop" where
  "idle_start \<equiv> native_start 1 (runner_init False) store_new {} ()"

lemma idle_loop:
  "\<exists>d s. loop_run idle_cycle idle_start [(Ok (Report idle_report), d)] s \<and> nl_ready s = {1}"
proof -
  obtain st' where once: "client_run_once idle_env idle_db (nl_runner idle_start) (nl_store idle_start, nl_world idle_start)
      = (Ok (Report idle_report), st', nl_store idle_start, nl_world idle_start)"
    using idle_run [of idle_db] by (auto simp: native_start_def)
  obtain d s where cyc: "idle_cycle idle_start = (Ok (Report idle_report), d, s)"
    and run: "loop_run idle_cycle idle_start [(Ok (Report idle_report), d)] s"
    using one_cycle [of "client_run_once idle_env idle_db", OF once] by blast
  have "nl_ready s = {1}"
    using native.cycle_ready [OF cyc] by (simp add: caught_up_report idle_report_def native_start_def)
  with run show ?thesis by blast
qed

theorem ready_chain_is_synced_witness:
  "\<exists>d s. loop_run idle_cycle idle_start [(Ok (Report idle_report), d)] s \<and> 1 \<in> nl_ready s \<and>
     image_mset so_raindex_id (mset (rr_successes idle_report)) = mset (map target_id (re_base_targets idle_env)) \<and>
     list_all so_caught_up (rr_successes idle_report)"
proof -
  obtain d s where run: "loop_run idle_cycle idle_start [(Ok (Report idle_report), d)] s" "1 \<in> nl_ready s"
    using idle_loop by auto
  from ready_chain_is_synced [OF run(1) _ run(2)] run show ?thesis by auto
qed

abbreviation failing_cycle :: "(unit, unit) native_loop \<Rightarrow> run_result \<times> u64 \<times> (unit, unit) native_loop" where
  "failing_cycle \<equiv> native_cycle (\<lambda>r w. (Err Db_Panicked, r, w)) (\<lambda>_. ''failed'') 1 10000"

lemma native_pace_example:
  "\<exists>d s. loop_run failing_cycle (native_start 1 () store_new {} ()) [(Err Db_Panicked, d)] s
     \<and> unat d = 20000"
proof -
  obtain d s where run: "loop_run failing_cycle (native_start 1 () store_new {} ()) [(Err Db_Panicked, d)] s"
    using one_cycle [of "\<lambda>r w. (Err Db_Panicked, r, w)" "native_start 1 () store_new {} ()"] by force
  have "trailing_failures [(Err Db_Panicked, d)] = 1"
    by (simp add: trailing_failures_def failed_cycle_def)
  with native_pace [of _ _ _ _ _ _ _ _ "[]", simplified, OF run] run show ?thesis
    by (auto simp: paced_delay_def)
qed

lemma native_cycle_shows_status_example:
  "\<exists>d s n. failing_cycle (native_start 1 () store_new {} ()) = (Err Db_Panicked, d, s)
     \<and> map_of (st_networks (nl_store s)) 1 = Some n \<and> sn_status n = Failure"
proof -
  obtain d s where cyc: "failing_cycle (native_start 1 () store_new {} ()) = (Err Db_Panicked, d, s)"
    using one_cycle [of "\<lambda>r w. (Err Db_Panicked, r, w)" "native_start 1 () store_new {} ()"] by force
  with native_cycle_shows_status [OF cyc] show ?thesis by auto
qed

section \<open>Every synced network has a loop\<close>

lemma configured_network:
  assumes "network \<in> set (configured_sync_networks settings)"
  shows "\<exists>key raindex. (key, raindex) \<in> set (ps_raindexes settings) \<and> rx_network raindex = network \<and>
    ps_syncs settings (nc_key network) \<noteq> None"
proof -
  let ?nets = "map (\<lambda>(_, raindex). (nc_key (rx_network raindex), rx_network raindex))
    (filter (\<lambda>(_, raindex). ps_syncs settings (nc_key (rx_network raindex)) \<noteq> None) (ps_raindexes settings))"
  obtain key where key: "key \<in> fst ` set ?nets" and net: "network = the (map_of (rev ?nets) key)"
    using assms unfolding configured_sync_networks_def Let_def by auto
  have "map_of (rev ?nets) key \<noteq> None"
    using key by (subst map_of_eq_None_iff) (simp add: image_iff)
  with net have "map_of (rev ?nets) key = Some network" by auto
  from map_of_SomeD [OF this] show ?thesis by auto
qed

lemma spawn_configured:
  assumes "network \<in> set (configured_sync_networks settings)"
  shows "spawn_network settings network \<noteq> None \<longleftrightarrow>
    (\<exists>config targets. from_global_settings settings (nc_key network) = Ok config \<and> build_targets config = Ok targets)"
    and "\<exists>config. from_global_settings settings (nc_key network) = Ok config"
proof -
  obtain key raindex sync where r: "(key, raindex) \<in> set (ps_raindexes settings)" "rx_network raindex = network"
    "ps_syncs settings (nc_key network) = Some sync"
    using configured_network [OF assms] by blast
  then have "filter (\<lambda>(_, raindex_cfg). nc_key (rx_network raindex_cfg) = nc_key network)
      (ps_raindexes settings) \<noteq> []"
    by (auto simp: filter_empty_conv)
  then show "\<exists>config. from_global_settings settings (nc_key network) = Ok config"
    by (auto simp: from_global_settings_def Let_def split: list.splits)
  then show "spawn_network settings network \<noteq> None \<longleftrightarrow>
    (\<exists>config targets. from_global_settings settings (nc_key network) = Ok config \<and> build_targets config = Ok targets)"
    using r by (auto simp: spawn_network_def split: result.splits)
qed

end
