(* ===== verification/Sql_Script.thy ===== *)
theory Sql_Script
  imports Sql
begin

text \<open>
  \<open>common/src/local_db/query/sql_script.rs\<close>: splitting an embedded SQL script into statements. The
  four flags of the source are one mode, of which at most one is set at a time; a slice of the
  script is the text read since it began.
\<close>

section \<open>The scanner\<close>

datatype mode = Code | Line_Comment | Block_Comment | Single_Quote | Double_Quote

record scan_state =
  ss_mode :: mode
  ss_executable :: bool
  ss_slice :: string \<comment> \<open>\<open>sql[start..idx]\<close>\<close>
  ss_statements :: "string list"

definition start_state :: scan_state where
  "start_state = \<lparr>ss_mode = Code, ss_executable = False, ss_slice = [], ss_statements = []\<rparr>"

definition finish_slice :: "scan_state \<Rightarrow> scan_state" where
  \<comment> \<open>push the slice when it holds executable SQL and start the next one\<close>
  "finish_slice s =
     (let statement = trim (ss_slice s) in
      s\<lparr>ss_statements := (if ss_executable s \<and> statement \<noteq> []
                           then ss_statements s @ [statement] else ss_statements s),
        ss_slice := [], ss_executable := False\<rparr>)"

abbreviation eat :: "string \<Rightarrow> scan_state \<Rightarrow> scan_state" where
  "eat cs s \<equiv> s\<lparr>ss_slice := ss_slice s @ cs\<rparr>"

text \<open>
  One turn of the loop: how many characters it reads (two when it also takes the peeked one) and
  the state after it.
\<close>

definition scan_turn :: "char \<Rightarrow> char option \<Rightarrow> scan_state \<Rightarrow> bool \<times> scan_state" where
  "scan_turn ch nxt s =
     (case ss_mode s of
        Line_Comment \<Rightarrow>
          (False, eat [ch] (if ch = CHR 0x0A then s\<lparr>ss_mode := Code\<rparr> else s))
      | Block_Comment \<Rightarrow>
          if ch = CHR ''*'' \<and> nxt = Some CHR ''/''
          then (True, eat ''*/'' (s\<lparr>ss_mode := Code\<rparr>)) else (False, eat [ch] s)
      | Single_Quote \<Rightarrow>
          if ch = CHR 0x27 then
            if nxt = Some CHR 0x27 then (True, eat [ch, ch] s)
            else (False, eat [ch] (s\<lparr>ss_mode := Code\<rparr>))
          else (False, eat [ch] s)
      | Double_Quote \<Rightarrow>
          if ch = CHR 0x22 then
            if nxt = Some CHR 0x22 then (True, eat [ch, ch] s)
            else (False, eat [ch] (s\<lparr>ss_mode := Code\<rparr>))
          else (False, eat [ch] s)
      | Code \<Rightarrow>
          if ch = CHR ''-'' \<and> nxt = Some CHR ''-''
          then (True, eat ''--'' (s\<lparr>ss_mode := Line_Comment\<rparr>))
          else if ch = CHR ''/'' \<and> nxt = Some CHR ''*''
          then (True, eat ''/*'' (s\<lparr>ss_mode := Block_Comment\<rparr>))
          else if ch = CHR 0x27
          then (False, eat [ch] (s\<lparr>ss_executable := True, ss_mode := Single_Quote\<rparr>))
          else if ch = CHR 0x22
          then (False, eat [ch] (s\<lparr>ss_executable := True, ss_mode := Double_Quote\<rparr>))
          else if ch = CHR '';'' then (False, finish_slice (eat [ch] s))
          else if \<not> is_whitespace ch then (False, eat [ch] (s\<lparr>ss_executable := True\<rparr>))
          else (False, eat [ch] s))"

function scan :: "string \<Rightarrow> scan_state \<Rightarrow> scan_state" where
  "scan [] s = s"
| "scan (ch # rest) s =
     (let (two, s') = scan_turn ch (case rest of [] \<Rightarrow> None | c # _ \<Rightarrow> Some c) s
      in scan (if two then drop 1 rest else rest) s')"
  by pat_completeness auto

termination scan
  by (relation "measure (\<lambda>(cs, s). length cs)") auto

definition split_statements :: "string \<Rightarrow> string list" where
  "split_statements sql = ss_statements (finish_slice (scan sql start_state))"

definition script_statement_batch :: "string \<Rightarrow> sql_batch" where
  "script_statement_batch sql = \<lparr>batch_statements = map sql_new (split_statements sql)\<rparr>"

section \<open>Reading forward\<close>

abbreviation sq :: char where "sq \<equiv> CHR 0x27"
abbreviation dq :: char where "dq \<equiv> CHR 0x22"

abbreviation next_char :: "string \<Rightarrow> char option" where
  "next_char ds \<equiv> (case ds of [] \<Rightarrow> None | c # _ \<Rightarrow> Some c)"

declare scan.simps(2) [simp del]

lemma scan_one: "scan_turn c (next_char ds) s = (False, s') \<Longrightarrow> scan (c # ds) s = scan ds s'"
  unfolding scan.simps(2) by simp

lemma scan_two: "scan_turn c (Some d) s = (True, s') \<Longrightarrow> scan (c # d # ds) s = scan ds s'"
  unfolding scan.simps(2) [of c] by simp

lemma scan_turn_semicolon:
  "scan_turn CHR '';'' n s =
   (False, (if ss_mode s = Code then finish_slice (eat '';'' s) else eat '';'' s))"
  by (cases "ss_mode s") (auto simp: scan_turn_def)

text \<open>A text that the scanner takes as one statement.\<close>

definition complete_statement :: "string \<Rightarrow> bool" where
  "complete_statement s \<longleftrightarrow> s \<noteq> [] \<and> last s = CHR '';'' \<and> ss_mode (scan s start_state) = Code \<and>
     split_statements s = [trim s]"

section \<open>The grammar of a script\<close>

text \<open>
  What a script is made of, without the scanner: characters of code, texts in single and names in
  double quotes (a quote inside is doubled), comments up to the end of the line and comments
  between \<open>/*\<close> and \<open>*/\<close>. A statement is pieces up to a semicolon; only a piece that is neither a
  blank nor a comment makes it one to execute.
\<close>

datatype piece =
    Char_Piece char | Quoted string | Named string | Line_Remark string | Block_Remark string

definition in_quotes :: "char \<Rightarrow> string \<Rightarrow> string" where
  "in_quotes q t = [q] @ concat (map (\<lambda>c. if c = q then [q, q] else [c]) t) @ [q]"

fun piece_text :: "piece \<Rightarrow> string" where
  "piece_text (Char_Piece c) = [c]"
| "piece_text (Quoted t) = in_quotes sq t"
| "piece_text (Named t) = in_quotes dq t"
| "piece_text (Line_Remark t) = ''--'' @ t @ [CHR 0x0A]"
| "piece_text (Block_Remark t) = ''/*'' @ t @ ''*/''"

fun piece_ok :: "piece \<Rightarrow> bool" where
  "piece_ok (Char_Piece c) \<longleftrightarrow> c \<noteq> sq \<and> c \<noteq> dq \<and> c \<noteq> CHR '';''"
| "piece_ok (Quoted t) \<longleftrightarrow> True"
| "piece_ok (Named t) \<longleftrightarrow> True"
| "piece_ok (Line_Remark t) \<longleftrightarrow> CHR 0x0A \<notin> set t"
| "piece_ok (Block_Remark t) \<longleftrightarrow> \<not> contains t ''*/''"

fun may_follow :: "piece \<Rightarrow> char \<Rightarrow> bool" where
  \<comment> \<open>the next character does not make another token of the piece\<close>
  "may_follow (Char_Piece c) d \<longleftrightarrow>
     \<not> (c = CHR ''-'' \<and> d = CHR ''-'') \<and> \<not> (c = CHR ''/'' \<and> d = CHR ''*'')"
| "may_follow (Quoted t) d \<longleftrightarrow> d \<noteq> sq"
| "may_follow (Named t) d \<longleftrightarrow> d \<noteq> dq"
| "may_follow (Line_Remark t) d \<longleftrightarrow> True"
| "may_follow (Block_Remark t) d \<longleftrightarrow> True"

fun piece_runs :: "piece \<Rightarrow> bool" where
  "piece_runs (Char_Piece c) \<longleftrightarrow> \<not> is_whitespace c"
| "piece_runs (Quoted t) \<longleftrightarrow> True"
| "piece_runs (Named t) \<longleftrightarrow> True"
| "piece_runs (Line_Remark t) \<longleftrightarrow> False"
| "piece_runs (Block_Remark t) \<longleftrightarrow> False"

definition pieces_text :: "piece list \<Rightarrow> string" where
  "pieces_text ps = concat (map piece_text ps)"

fun pieces_ok :: "piece list \<Rightarrow> bool" where
  "pieces_ok [] \<longleftrightarrow> True"
| "pieces_ok (p # ps) \<longleftrightarrow> piece_ok p \<and> pieces_ok ps \<and>
     (case pieces_text ps of [] \<Rightarrow> True | c # _ \<Rightarrow> may_follow p c)"

definition statement_text :: "piece list \<Rightarrow> string" where
  "statement_text ps = pieces_text ps @ '';''"

definition script_text :: "piece list list \<Rightarrow> piece list \<Rightarrow> string" where
  "script_text statements rest = concat (map statement_text statements) @ pieces_text rest"

lemma pieces_text_simps [simp]:
  "pieces_text [] = []" "pieces_text (p # ps) = piece_text p @ pieces_text ps"
  by (simp_all add: pieces_text_def)

section \<open>Scanning the pieces\<close>

definition after :: "scan_state \<Rightarrow> string \<Rightarrow> bool \<Rightarrow> scan_state" where
  "after s t x = s\<lparr>ss_slice := ss_slice s @ t, ss_executable := ss_executable s \<or> x\<rparr>"

lemma after_simps [simp]:
  "ss_mode (after s t x) = ss_mode s" "after s [] False = s"
  "after (after s t x) u y = after s (t @ u) (x \<or> y)"
  by (auto simp: after_def)

lemma back_in_mode [simp]:
  "ss_mode s = m \<Longrightarrow> (s\<lparr>ss_mode := k, ss_slice := x, ss_executable := e\<rparr>)\<lparr>ss_mode := m\<rparr>
     = s\<lparr>ss_slice := x, ss_executable := e\<rparr>"
  "ss_mode s = m \<Longrightarrow> s\<lparr>ss_mode := m\<rparr> = s"
  by (cases s; simp)+

lemma mode_slice: "s\<lparr>ss_mode := m, ss_slice := x\<rparr> = s\<lparr>ss_slice := x, ss_mode := m\<rparr>"
  by simp

lemma exec_slice: "s\<lparr>ss_executable := e, ss_slice := x\<rparr> = s\<lparr>ss_slice := x, ss_executable := e\<rparr>"
  by simp

abbreviation to_code :: "string \<Rightarrow> scan_state \<Rightarrow> scan_state" where
  "to_code t s \<equiv> s\<lparr>ss_slice := ss_slice s @ t, ss_mode := Code\<rparr>"

lemma scan_in_quotes:
  assumes "ss_mode s = m" "(m, q) \<in> {(Single_Quote, sq), (Double_Quote, dq)}"
    and "next_char rest \<noteq> Some q"
  shows "scan (concat (map (\<lambda>c. if c = q then [q, q] else [c]) t) @ q # rest) s =
    scan rest (to_code (concat (map (\<lambda>c. if c = q then [q, q] else [c]) t) @ [q]) s)"
  using assms(1)
proof (induction t arbitrary: s)
  case Nil
  have "scan_turn q (next_char rest) s = (False, eat [q] (s\<lparr>ss_mode := Code\<rparr>))"
    using assms(2,3) Nil by (auto simp: scan_turn_def)
  from scan_one[OF this] show ?case by (simp add: mode_slice)
next
  case (Cons c t)
  show ?case
  proof (cases "c = q")
    case True
    have "scan_turn q (Some q) s = (True, eat [q, q] s)"
      using assms(2) Cons.prems by (auto simp: scan_turn_def)
    from scan_two[OF this] Cons.IH[of "eat [q, q] s"] Cons.prems True show ?thesis by simp
  next
    case False
    have turn: "scan_turn c n s = (False, eat [c] s)" for n
    proof -
      have "ss_mode s = Single_Quote \<and> c \<noteq> sq \<or> ss_mode s = Double_Quote \<and> c \<noteq> dq"
        using assms(2) Cons.prems False by auto
      then show ?thesis unfolding scan_turn_def by (elim disjE conjE) simp_all
    qed
    let ?dbl = "\<lambda>t. concat (map (\<lambda>c. if c = q then [q, q] else [c]) t)"
    have "scan (c # ?dbl t @ q # rest) s = scan (?dbl t @ q # rest) (eat [c] s)"
      by (rule scan_one) (fact turn)
    moreover have "?dbl (c # t) = c # ?dbl t" using False by simp
    ultimately show ?thesis using Cons.IH[of "eat [c] s"] Cons.prems by (simp only:) simp
  qed
qed

lemma scan_line_remark:
  assumes "ss_mode s = Line_Comment" "CHR 0x0A \<notin> set t"
  shows "scan (t @ CHR 0x0A # rest) s = scan rest (to_code (t @ [CHR 0x0A]) s)"
  using assms
proof (induction t arbitrary: s)
  case Nil
  then have "scan_turn CHR 0x0A n s = (False, eat [CHR 0x0A] (s\<lparr>ss_mode := Code\<rparr>))" for n
    by (simp add: scan_turn_def)
  from scan_one[OF this] show ?case by (simp add: mode_slice)
next
  case (Cons c t)
  then have "scan_turn c n s = (False, eat [c] s)" for n by (auto simp: scan_turn_def)
  from scan_one[OF this] Cons.IH[of "eat [c] s"] Cons.prems show ?case by simp
qed

lemma scan_block_remark:
  assumes "ss_mode s = Block_Comment" "\<not> contains t ''*/''"
  shows "scan (t @ CHR ''*'' # CHR ''/'' # rest) s = scan rest (to_code (t @ ''*/'') s)"
  using assms
proof (induction t arbitrary: s)
  case Nil
  then have "scan_turn CHR ''*'' (Some CHR ''/'') s = (True, eat ''*/'' (s\<lparr>ss_mode := Code\<rparr>))"
    by (simp add: scan_turn_def)
  from scan_two[OF this] show ?case by (simp add: mode_slice)
next
  case (Cons c t)
  have "\<not> (c = CHR ''*'' \<and> next_char (t @ ''*/'' @ rest) = Some CHR ''/'')"
    using Cons.prems(2) by (cases t) auto
  then have "scan_turn c (next_char (t @ ''*/'' @ rest)) s = (False, eat [c] s)"
    using Cons.prems(1) by (auto simp: scan_turn_def)
  from scan_one[OF this] Cons.IH[of "eat [c] s"] Cons.prems show ?case by simp
qed

lemma scan_piece:
  assumes "ss_mode s = Code" "piece_ok p" "\<And>c ds. rest = c # ds \<Longrightarrow> may_follow p c"
  shows "scan (piece_text p @ rest) s = scan rest (after s (piece_text p) (piece_runs p))"
proof (cases p)
  case (Char_Piece c)
  have "scan_turn c (next_char rest) s = (False, after s [c] (\<not> is_whitespace c))"
    using assms Char_Piece by (cases rest) (auto simp: scan_turn_def after_def)
  from scan_one[OF this] Char_Piece show ?thesis by simp
next
  case (Quoted t)
  let ?s = "eat [sq] (s\<lparr>ss_executable := True, ss_mode := Single_Quote\<rparr>)"
  have "scan_turn sq n s = (False, ?s)" for n using assms(1) by (simp add: scan_turn_def)
  from scan_one[OF this] scan_in_quotes[of ?s Single_Quote sq rest t] assms(1,3) Quoted
  show ?thesis by (cases rest) (auto simp: in_quotes_def after_def exec_slice)
next
  case (Named t)
  let ?s = "eat [dq] (s\<lparr>ss_executable := True, ss_mode := Double_Quote\<rparr>)"
  have "scan_turn dq n s = (False, ?s)" for n using assms(1) by (simp add: scan_turn_def)
  from scan_one[OF this] scan_in_quotes[of ?s Double_Quote dq rest t] assms(1,3) Named
  show ?thesis by (cases rest) (auto simp: in_quotes_def after_def exec_slice)
next
  case (Line_Remark t)
  let ?s = "eat ''--'' (s\<lparr>ss_mode := Line_Comment\<rparr>)"
  have "scan_turn CHR ''-'' (Some CHR ''-'') s = (True, ?s)"
    using assms(1) by (simp add: scan_turn_def)
  from scan_two[OF this] scan_line_remark[of ?s t rest] assms(1,2) Line_Remark
  show ?thesis by (simp add: after_def)
next
  case (Block_Remark t)
  let ?s = "eat ''/*'' (s\<lparr>ss_mode := Block_Comment\<rparr>)"
  have "scan_turn CHR ''/'' (Some CHR ''*'') s = (True, ?s)"
    using assms(1) by (simp add: scan_turn_def)
  from scan_two[OF this] scan_block_remark[of ?s t rest] assms(1,2) Block_Remark
  show ?thesis by (simp add: after_def)
qed

lemma may_follow_semicolon: "may_follow p CHR '';''"
  by (cases p) auto

lemma scan_pieces:
  assumes "ss_mode s = Code" "pieces_ok ps" "rest = [] \<or> hd rest = CHR '';''"
  shows "scan (pieces_text ps @ rest) s = scan rest (after s (pieces_text ps) (list_ex piece_runs ps))"
  using assms(1,2)
proof (induction ps arbitrary: s)
  case Nil
  then show ?case by simp
next
  case (Cons p ps)
  have "scan (piece_text p @ pieces_text ps @ rest) s =
      scan (pieces_text ps @ rest) (after s (piece_text p) (piece_runs p))"
    using Cons.prems assms(3) may_follow_semicolon[of p]
    by (intro scan_piece) (auto split: list.splits)
  then show ?case using Cons.IH[of "after s (piece_text p) (piece_runs p)"] Cons.prems by simp
qed

lemma trim_Nil: "trim s = [] \<longleftrightarrow> (\<forall>c\<in>set s. is_whitespace c)"
proof -
  have "trim s = [] \<longleftrightarrow> (\<forall>c\<in>set (dropWhile is_whitespace s). is_whitespace c)"
    by (simp add: trim_def trim_start_def trim_end_def dropWhile_eq_Nil_conv)
  also have "\<dots> \<longleftrightarrow> (\<forall>c\<in>set s. is_whitespace c)" by (induction s) auto
  finally show ?thesis .
qed

lemma runs_text:
  assumes "list_ex piece_runs ps"
  shows "trim (pieces_text ps @ t) \<noteq> []"
proof -
  have "\<exists>c\<in>set (piece_text p). \<not> is_whitespace c" if "piece_runs p" for p
    using that by (cases p) (auto simp: in_quotes_def is_whitespace_def)
  then show ?thesis using assms by (force simp: trim_Nil pieces_text_def list_ex_iff)
qed

lemma scan_statements:
  assumes "list_all pieces_ok pss"
  shows "scan (concat (map statement_text pss) @ rest) (start_state\<lparr>ss_statements := found\<rparr>) =
    scan rest (start_state\<lparr>ss_statements :=
      found @ map (\<lambda>ps. trim (statement_text ps)) (filter (list_ex piece_runs) pss)\<rparr>)"
  using assms
proof (induction pss arbitrary: found)
  case Nil
  then show ?case by simp
next
  case (Cons ps pss)
  let ?s = "start_state\<lparr>ss_statements := found\<rparr>"
  let ?new = "if list_ex piece_runs ps then [trim (statement_text ps)] else []"
  let ?tail = "concat (map statement_text pss) @ rest"
  let ?read = "after ?s (pieces_text ps) (list_ex piece_runs ps)"
  have "scan (pieces_text ps @ CHR '';'' # ?tail) ?s = scan (CHR '';'' # ?tail) ?read"
    using Cons.prems by (intro scan_pieces) (simp_all add: start_state_def)
  also have "\<dots> = scan ?tail (finish_slice (eat '';'' ?read))"
    by (rule scan_one) (simp add: scan_turn_semicolon start_state_def)
  also have "finish_slice (eat '';'' ?read) = start_state\<lparr>ss_statements := found @ ?new\<rparr>"
    using runs_text[of ps "'';''"]
    by (simp add: finish_slice_def after_def start_state_def statement_text_def Let_def)
  finally show ?case using Cons.IH[of "found @ ?new"] Cons.prems by (simp add: statement_text_def)
qed

section \<open>Properties\<close>

text \<open>
  Claim C16. A script is split statement by statement. Of a script that is well-formed after the
  grammar (statements ended by semicolons, then possibly one more without), the splitter returns
  exactly the statements with something to execute, trimmed and in order, whatever semicolons,
  quotes or comment marks stand inside their texts, names and comments; a statement of blanks and
  comments only is left out.
\<close>
theorem split_joined_statements:
  assumes "list_all pieces_ok statements" "pieces_ok rest"
  shows "split_statements (script_text statements rest) =
    map (\<lambda>ps. trim (statement_text ps)) (filter (list_ex piece_runs) statements) @
    (if list_ex piece_runs rest then [trim (pieces_text rest)] else [])"
proof -
  let ?found = "map (\<lambda>ps. trim (statement_text ps)) (filter (list_ex piece_runs) statements)"
  let ?s = "start_state\<lparr>ss_statements := ?found\<rparr>"
  have "scan (script_text statements rest) start_state = scan (pieces_text rest) ?s"
    using scan_statements[OF assms(1), of "pieces_text rest" "[]"]
    by (simp add: script_text_def start_state_def)
  also have "\<dots> = after ?s (pieces_text rest) (list_ex piece_runs rest)"
    using scan_pieces[OF _ assms(2), of ?s "[]"] by (simp add: start_state_def)
  finally show ?thesis
    using runs_text[of rest "[]"]
    by (simp add: split_statements_def finish_slice_def after_def start_state_def Let_def)
qed

definition example_script :: "piece list list" where
  "example_script =
     [map Char_Piece ''SELECT '' @ [Quoted (''a;--'' @ [sq] @ ''b''), Char_Piece CHR '' '',
        Named (''c;/*'' @ [dq]), Line_Remark '' d; it'', Char_Piece CHR ''-'', Char_Piece CHR ''1''],
      [Line_Remark '' only; a comment''],
      [Block_Remark '' x; **'', Char_Piece CHR '' ''] @ map Char_Piece ''DROP y'']"

theorem split_joined_statements_witness:
  "split_statements (script_text example_script [Block_Remark ''end;'']) =
   [''SELECT '' @ [sq] @ ''a;--'' @ [sq, sq] @ ''b'' @ [sq] @ '' '' @ [dq] @ ''c;/*'' @ [dq, dq, dq] @
      ''-- d; it'' @ [CHR 0x0A] @ ''-1;'',
    ''/* x; ***/ DROP y;'']"
proof -
  have "list_all pieces_ok example_script" "pieces_ok [Block_Remark ''end;'']"
    by (simp_all add: example_script_def in_quotes_def)
  from split_joined_statements[OF this] show ?thesis
    by (simp add: example_script_def statement_text_def in_quotes_def trim_def trim_start_def
        trim_end_def is_whitespace_def)
qed

end
