(* ===== verification/Export.thy ===== *)
theory Export
  imports Sql_Script Bootstrap
begin

text \<open>
  \<open>common/src/local_db/export.rs\<close>: the dump of one raindex, a text of \<open>INSERT\<close> statements between
  \<open>BEGIN;\<close> and \<open>COMMIT;\<close>. A native client reads a dump line by line, each line as a statement.

  A JSON value is as \<open>serde_json\<close> has it; numbers are the text they print as, and \<open>json_text\<close> is the
  printer of arrays and objects. The two queries are the fields of \<open>export_db\<close>. Strings are lists of
  bytes here: the limit of a statement is in bytes.
\<close>

section \<open>Values\<close>

datatype json =
    J_Null
  | J_Bool bool
  | J_Number string
  | J_String string
  | J_Array "json list"
  | J_Object "(string \<times> json) list"

datatype export_error = Row_Not_Object | Missing_Column string | Missing_Target_Watermark u32 address

record 'w export_db =
  xd_columns :: "sql_statement \<Rightarrow> (string list, query_error, 'w) io"
  xd_rows :: "sql_statement \<Rightarrow> (json list, query_error, 'w) io"
  xd_json_text :: "json \<Rightarrow> string"
  xd_error_text :: "export_error \<Rightarrow> ext_error"

definition skipped_tables :: "string list" where
  "skipped_tables = [''db_metadata'', ''sync_status'', ''raw_events'', ''take_order_contexts'', ''context_values'']"

definition max_insert_rows :: nat where
  "max_insert_rows = 256"

definition max_insert_bytes :: nat where
  "max_insert_bytes = 256 * 1024"

definition double_quotes :: "string \<Rightarrow> string" where
  \<comment> \<open>\<open>replace('\'', "''")\<close>\<close>
  "double_quotes s = concat (map (\<lambda>c. if c = sq then [sq, sq] else [c]) s)"

definition format_sql_value :: "(json \<Rightarrow> string) \<Rightarrow> json \<Rightarrow> string" where
  "format_sql_value json_text v = (case v of
     J_Null \<Rightarrow> ''NULL''
   | J_Bool b \<Rightarrow> if b then ''1'' else ''0''
   | J_Number n \<Rightarrow> n
   | J_String s \<Rightarrow> [sq] @ double_quotes s @ [sq]
   | other \<Rightarrow> [sq] @ double_quotes (json_text other) @ [sq])"

definition format_row_values ::
  "(json \<Rightarrow> string) \<Rightarrow> json \<Rightarrow> string list \<Rightarrow> (string, export_error) result" where
  "format_row_values json_text row columns = (case row of
     J_Object obj \<Rightarrow>
       rbind (rmap (\<lambda>col. rbind (ok_or (map_of obj col) (Missing_Column col))
                (\<lambda>value. Ok (format_sql_value json_text value))) columns)
         (\<lambda>formatted. Ok (join '', '' formatted))
   | _ \<Rightarrow> Err Row_Not_Object)"

section \<open>Statements\<close>

definition name_quoted :: "string \<Rightarrow> string" where
  "name_quoted name = [dq] @ name @ [dq]"

definition insert_prefix :: "string \<Rightarrow> string list \<Rightarrow> string" where
  "insert_prefix table columns =
     ''INSERT INTO '' @ name_quoted table @ '' ('' @ join '', '' (map name_quoted columns) @ '') VALUES ''"

fun insert_loop ::
  "(json \<Rightarrow> (string, export_error) result) \<Rightarrow> string \<Rightarrow> nat \<Rightarrow> nat \<Rightarrow> json list
   \<Rightarrow> string \<Rightarrow> string \<Rightarrow> nat \<Rightarrow> (string, export_error) result" where
  \<comment> \<open>the loop over the rows, with the out, the open statement and its number of rows\<close>
  "insert_loop row_values stem max_rows max_bytes [] out statement n =
     Ok (if 0 < n then out @ statement @ '';'' @ [CHR 0x0A] else out)"
| "insert_loop row_values stem max_rows max_bytes (row # rows) out statement n =
     rbind (row_values row) (\<lambda>values_sql.
     let tuple = ''('' @ values_sql @ '')'';
         full = (0 < n \<and> (n = max_rows \<or> max_bytes < length statement + 2 + length tuple + 2));
         out = (if full then out @ statement @ '';'' @ [CHR 0x0A] else out);
         statement = (if full then [] else statement);
         n = (if full then 0 else n);
         statement = statement @ (if n = 0 then stem else '', '') @ tuple in
     insert_loop row_values stem max_rows max_bytes rows out statement (n + 1))"

definition build_insert_statements_bounded ::
  "(json \<Rightarrow> string) \<Rightarrow> string \<Rightarrow> string list \<Rightarrow> json list \<Rightarrow> nat \<Rightarrow> nat \<Rightarrow> (string, export_error) result" where
  "build_insert_statements_bounded json_text table columns rows max_rows max_bytes =
     insert_loop (\<lambda>row. format_row_values json_text row columns) (insert_prefix table columns)
       max_rows max_bytes rows [] [] 0"

definition build_insert_statements ::
  "(json \<Rightarrow> string) \<Rightarrow> string \<Rightarrow> string list \<Rightarrow> json list \<Rightarrow> (string, export_error) result" where
  "build_insert_statements json_text table columns rows =
     build_insert_statements_bounded json_text table columns rows max_insert_rows max_insert_bytes"

definition has_target_filters :: "string list \<Rightarrow> bool" where
  "has_target_filters columns \<longleftrightarrow>
     list_ex (\<lambda>c. eq_ignore_ascii_case c ''chain_id'') columns \<and>
     list_ex (\<lambda>c. eq_ignore_ascii_case c ''raindex_address'') columns"

definition order_columns :: "string list \<Rightarrow> string list" where
  "order_columns columns =
     fold (\<lambda>column order. if name_quoted column \<in> set order then order else order @ [name_quoted column])
       columns
       ((if list_ex (\<lambda>c. eq_ignore_ascii_case c ''chain_id'') columns then [name_quoted ''chain_id''] else []) @
        (if list_ex (\<lambda>c. eq_ignore_ascii_case c ''raindex_address'') columns
         then [name_quoted ''raindex_address''] else []))"

definition build_select_statement :: "string \<Rightarrow> string list \<Rightarrow> raindex_identifier \<Rightarrow> sql_statement" where
  "build_select_statement table columns raindex_id =
     snd (sql_push (Text (address_hex (ri_raindex_address raindex_id)))
       (snd (sql_push (U64 (ucast (ri_chain_id raindex_id)))
         (sql_new (''SELECT '' @ join '', '' (map name_quoted columns) @ '' FROM '' @ name_quoted table @
            '' WHERE chain_id = ?1 AND raindex_address = ?2 ORDER BY '' @
            join '', '' (order_columns columns) @ '';'')))))"

definition export_fetch_table_columns :: "'w export_db \<Rightarrow> string \<Rightarrow> (string list, local_db_error, 'w) io" where
  "export_fetch_table_columns db table =
     dbq (xd_columns db (sql_new (''PRAGMA table_info('' @ [sq] @ table @ [sq] @ '')'')))"

fun export_tables ::
  "'w export_db \<Rightarrow> raindex_identifier \<Rightarrow> string list \<Rightarrow> string \<Rightarrow> bool
   \<Rightarrow> (string \<times> bool, local_db_error, 'w) io" where
  \<comment> \<open>the loop over the tables, with \<open>inserts\<close> and \<open>had_rows\<close>\<close>
  "export_tables db raindex_id [] inserts had_rows = io_return (inserts, had_rows)"
| "export_tables db raindex_id (table # tables) inserts had_rows =
     io_bind (export_fetch_table_columns db table) (\<lambda>columns.
     if \<not> has_target_filters columns then export_tables db raindex_id tables inserts had_rows
     else
       io_bind (dbq (xd_rows db (build_select_statement table columns raindex_id))) (\<lambda>rows.
       if rows = [] then export_tables db raindex_id tables inserts had_rows
       else
         io_bind (io_pure (map_err (\<lambda>e. Export_Error (xd_error_text db e))
                    (build_insert_statements (xd_json_text db) table columns rows))) (\<lambda>table_sql.
         export_tables db raindex_id tables
           ((if had_rows then inserts else inserts @ ''BEGIN;'' @ [CHR 0x0A]) @ table_sql) True)))"

definition exported_tables :: "string list" where
  "exported_tables = filter (\<lambda>t. t \<notin> set skipped_tables) required_tables"

definition export_data_only ::
  "'w export_db \<Rightarrow> raindex_identifier \<Rightarrow> (string option, local_db_error, 'w) io" where
  "export_data_only db raindex_id =
     io_bind (export_tables db raindex_id exported_tables [] False) (\<lambda>(inserts, had_rows).
     io_return (if had_rows then Some (inserts @ ''COMMIT;'' @ [CHR 0x0A]) else None))"

section \<open>Grouping the rows\<close>

definition insert_sql :: "string \<Rightarrow> string list \<Rightarrow> string" where
  \<comment> \<open>the statement of a group of tuples, without the end of its line\<close>
  "insert_sql stem tuples = stem @ join '', '' tuples @ '';''"

abbreviation tuple_sql :: "string \<Rightarrow> string" where
  "tuple_sql values_sql \<equiv> ''('' @ values_sql @ '')''"

abbreviation as_line :: "string \<Rightarrow> string" where
  "as_line l \<equiv> l @ [CHR 0x0A]"

definition group_ok :: "nat \<Rightarrow> nat \<Rightarrow> string \<Rightarrow> string list \<Rightarrow> bool" where
  "group_ok max_rows max_bytes stem g \<longleftrightarrow> g \<noteq> [] \<and> length g \<le> max_rows \<and>
     (length g = 1 \<or> length (as_line (insert_sql stem g)) \<le> max_bytes)"

lemma join_snoc: "xs \<noteq> [] \<Longrightarrow> join sep (xs @ [x]) = join sep xs @ sep @ x"
  by (induction sep xs rule: join.induct) auto

definition open_group :: "nat \<Rightarrow> nat \<Rightarrow> string \<Rightarrow> string list \<Rightarrow> string \<Rightarrow> nat \<Rightarrow> bool" where
  "open_group max_rows max_bytes stem cur statement n \<longleftrightarrow> n = length cur \<and>
     (if cur = [] then statement = [] else statement = stem @ join '', '' cur \<and> group_ok max_rows max_bytes stem cur)"

lemma insert_loop_groups:
  assumes "insert_loop rv stem max_rows max_bytes rows out statement n = Ok sql"
    and "open_group max_rows max_bytes stem cur statement n" and "0 < max_rows"
  shows "\<exists>vals groups. rmap rv rows = Ok vals \<and> concat groups = cur @ map tuple_sql vals \<and>
    sql = out @ concat (map (\<lambda>g. as_line (insert_sql stem g)) groups) \<and>
    list_all (group_ok max_rows max_bytes stem) groups"
  using assms(1,2)
proof (induction rows arbitrary: out statement n cur)
  case Nil
  show ?case
  proof (cases "cur = []")
    case True
    with Nil show ?thesis by (intro exI [of _ "[]"]) (simp add: open_group_def)
  next
    case False
    with Nil show ?thesis
      by (intro exI [of _ "[]"] exI [of _ "[cur]"]) (auto simp: open_group_def insert_sql_def)
  qed
next
  case (Cons row rows)
  from Cons.prems(1) obtain v where v: "rv row = Ok v" by (auto simp: ok_iff)
  let ?t = "tuple_sql v"
  let ?full = "0 < n \<and> (n = max_rows \<or> max_bytes < length statement + 2 + length ?t + 2)"
  show ?case
  proof (cases ?full)
    case True
    then have cur: "cur \<noteq> []" "group_ok max_rows max_bytes stem cur" "statement = stem @ join '', '' cur"
      using Cons.prems(2) by (auto simp: open_group_def split: if_splits)
    have rest: "insert_loop rv stem max_rows max_bytes rows (out @ statement @ '';'' @ [CHR 0x0A])
        (stem @ ?t) 1 = Ok sql"
      using Cons.prems(1) True by (simp add: v Let_def)
    have "open_group max_rows max_bytes stem [?t] (stem @ ?t) 1"
      using assms(3) by (simp add: open_group_def group_ok_def)
    from Cons.IH [OF rest this] obtain vals groups where
      ih: "rmap rv rows = Ok vals" "concat groups = [?t] @ map tuple_sql vals"
        "sql = (out @ statement @ '';'' @ [CHR 0x0A]) @ concat (map (\<lambda>g. as_line (insert_sql stem g)) groups)"
        "list_all (group_ok max_rows max_bytes stem) groups" by blast
    then show ?thesis
      by (intro exI [of _ "v # vals"] exI [of _ "cur # groups"]) (simp add: v cur insert_sql_def)
  next
    case False
    let ?st = "statement @ (if n = 0 then stem else '', '') @ ?t"
    have rest: "insert_loop rv stem max_rows max_bytes rows out ?st (n + 1) = Ok sql"
      using Cons.prems(1) unfolding insert_loop.simps v rbind.simps Let_def if_not_P [OF False] .
    have "open_group max_rows max_bytes stem (cur @ [?t]) ?st (n + 1)"
      using Cons.prems(2) False assms(3)
      by (cases "cur = []") (auto simp: open_group_def group_ok_def join_snoc insert_sql_def)
    from Cons.IH [OF rest this] obtain vals groups where
      ih: "rmap rv rows = Ok vals" "concat groups = (cur @ [?t]) @ map tuple_sql vals"
        "sql = out @ concat (map (\<lambda>g. as_line (insert_sql stem g)) groups)"
        "list_all (group_ok max_rows max_bytes stem) groups" by blast
    then show ?thesis by (intro exI [of _ "v # vals"] exI [of _ groups]) (simp add: v)
  qed
qed

text \<open>
  The insert statements of a table hold every row exactly once and in order, as one tuple
  per row; no statement has more than the maximal number of rows, and none is longer than the
  maximal number of bytes unless it holds a single row.
\<close>

lemma inserts_hold_every_row:
  assumes "build_insert_statements_bounded json_text table columns rows max_rows max_bytes = Ok sql"
    and "0 < max_rows"
  shows "\<exists>vals groups. rmap (\<lambda>row. format_row_values json_text row columns) rows = Ok vals \<and>
    concat groups = map tuple_sql vals \<and>
    sql = concat (map (\<lambda>g. as_line (insert_sql (insert_prefix table columns) g)) groups) \<and>
    list_all (group_ok max_rows max_bytes (insert_prefix table columns)) groups"
  using insert_loop_groups [OF assms(1) [unfolded build_insert_statements_bounded_def], of "[]"] assms(2)
  by (simp add: open_group_def)

section \<open>Texts that leave the scanner in code\<close>

text \<open>
  \<open>passes N cs\<close>: from code, the scanner reads \<open>cs\<close> and is in code again, with no statement finished,
  whatever follows that does not begin with a character of \<open>N\<close>.
\<close>

definition passes :: "char set \<Rightarrow> string \<Rightarrow> bool" where
  "passes N cs \<longleftrightarrow> (\<forall>s ds. ss_mode s = Code \<longrightarrow> (ds \<noteq> [] \<longrightarrow> hd ds \<notin> N) \<longrightarrow>
     (\<exists>x. (ss_executable s \<longrightarrow> x) \<and>
        scan (cs @ ds) s = scan ds (s\<lparr>ss_slice := ss_slice s @ cs, ss_executable := x\<rparr>)))"

lemma passesD:
  assumes "passes N cs" "ss_mode s = Code" "ds \<noteq> [] \<longrightarrow> hd ds \<notin> N"
  shows "\<exists>x. (ss_executable s \<longrightarrow> x) \<and>
    scan (cs @ ds) s = scan ds (s\<lparr>ss_slice := ss_slice s @ cs, ss_executable := x\<rparr>)"
  using assms unfolding passes_def by blast

lemma passes_Nil [simp]: "passes N []"
  unfolding passes_def
proof (intro allI impI)
  fix s :: scan_state and ds
  show "\<exists>x. (ss_executable s \<longrightarrow> x) \<and>
      scan ([] @ ds) s = scan ds (s\<lparr>ss_slice := ss_slice s @ [], ss_executable := x\<rparr>)"
    by (rule exI [of _ "ss_executable s"]) simp
qed

lemma passes_mono: "passes N cs \<Longrightarrow> N \<subseteq> M \<Longrightarrow> passes M cs"
  unfolding passes_def by blast

lemma passes_append:
  assumes "passes N a" "passes M b" "b \<noteq> []" "hd b \<notin> N"
  shows "passes M (a @ b)"
  unfolding passes_def
proof (intro allI impI)
  fix s :: scan_state and ds
  assume s: "ss_mode s = Code" and ds: "ds \<noteq> [] \<longrightarrow> hd ds \<notin> M"
  have "b @ ds \<noteq> [] \<longrightarrow> hd (b @ ds) \<notin> N" using assms(3,4) by simp
  from passesD [OF assms(1) s this] obtain x where x: "ss_executable s \<longrightarrow> x"
    "scan (a @ b @ ds) s = scan (b @ ds) (s\<lparr>ss_slice := ss_slice s @ a, ss_executable := x\<rparr>)" by blast
  let ?s = "s\<lparr>ss_slice := ss_slice s @ a, ss_executable := x\<rparr>"
  have "ss_mode ?s = Code" using s by simp
  from passesD [OF assms(2) this ds] obtain y where "x \<longrightarrow> y"
    "scan (b @ ds) ?s = scan ds (s\<lparr>ss_slice := ss_slice s @ a @ b, ss_executable := y\<rparr>)" by auto
  with x show "\<exists>y. (ss_executable s \<longrightarrow> y) \<and>
      scan ((a @ b) @ ds) s = scan ds (s\<lparr>ss_slice := ss_slice s @ a @ b, ss_executable := y\<rparr>)"
    by auto
qed

definition plain_char :: "char \<Rightarrow> bool" where
  "plain_char c \<longleftrightarrow> c \<noteq> sq \<and> c \<noteq> dq \<and> c \<noteq> CHR '';'' \<and> c \<noteq> CHR ''-'' \<and> c \<noteq> CHR ''/''"

lemma next_char_neq: "(ds \<noteq> [] \<Longrightarrow> hd ds \<notin> N) \<Longrightarrow> c \<in> N \<Longrightarrow> next_char ds \<noteq> Some c"
  by (cases ds) auto

lemma passes_one:
  assumes "\<And>s ds. ss_mode s = Code \<Longrightarrow> (ds \<noteq> [] \<Longrightarrow> hd ds \<notin> N) \<Longrightarrow>
    \<exists>x. (ss_executable s \<longrightarrow> x) \<and> scan_turn c (next_char ds) s = (False, s\<lparr>ss_slice := ss_slice s @ [c], ss_executable := x\<rparr>)"
  shows "passes N [c]"
  unfolding passes_def
proof (intro allI impI)
  fix s :: scan_state and ds
  assume "ss_mode s = Code" "ds \<noteq> [] \<longrightarrow> hd ds \<notin> N"
  with assms [of s ds] obtain x where "ss_executable s \<longrightarrow> x"
    "scan_turn c (next_char ds) s = (False, s\<lparr>ss_slice := ss_slice s @ [c], ss_executable := x\<rparr>)" by blast
  with scan_one show "\<exists>x. (ss_executable s \<longrightarrow> x) \<and>
      scan ([c] @ ds) s = scan ds (s\<lparr>ss_slice := ss_slice s @ [c], ss_executable := x\<rparr>)"
    by fastforce
qed

lemma passes_plain: "plain_char c \<Longrightarrow> passes {} [c]"
  by (rule passes_one, rule exI [of _ "ss_executable _ \<or> \<not> is_whitespace c"])
    (auto simp: scan_turn_def plain_char_def)

lemma passes_plains: "list_all plain_char cs \<Longrightarrow> passes {} cs"
proof (induction cs)
  case (Cons c cs)
  show ?case
  proof (cases cs)
    case Nil
    with Cons show ?thesis by (simp add: passes_plain)
  next
    case (Cons d ds)
    then have "passes {} ([c] @ cs)"
      using Cons.IH Cons.prems by (intro passes_append [OF passes_plain]) auto
    then show ?thesis by simp
  qed
qed simp

text \<open>A printed number: no quotes or semicolons, and no minus sign before another or at the end.\<close>

fun number_ok :: "string \<Rightarrow> bool" where
  "number_ok [] = True"
| "number_ok (c # cs) \<longleftrightarrow> (plain_char c \<or> c = CHR ''-'' \<and> cs \<noteq> [] \<and> hd cs \<noteq> CHR ''-'') \<and> number_ok cs"

lemma passes_minus: "passes {CHR ''-''} ''-''"
proof (rule passes_one)
  fix s :: scan_state and ds
  assume "ss_mode s = Code" "ds \<noteq> [] \<Longrightarrow> hd ds \<notin> {CHR ''-''}"
  then show "\<exists>x. (ss_executable s \<longrightarrow> x) \<and> scan_turn CHR ''-'' (next_char ds) s =
      (False, s\<lparr>ss_slice := ss_slice s @ ''-'', ss_executable := x\<rparr>)"
    using next_char_neq [of ds "{CHR ''-''}" "CHR ''-''"]
    by (intro exI [of _ True]) (simp add: scan_turn_def is_whitespace_def)
qed

lemma passes_number: "number_ok n \<Longrightarrow> passes {} n"
proof (induction n)
  case (Cons c cs)
  show ?case
  proof (cases "cs = []")
    case True
    with Cons show ?thesis by (auto simp: passes_plain)
  next
    case False
    with Cons have "passes {CHR ''-''} [c] \<and> hd cs \<noteq> CHR ''-'' \<or> passes {} [c]"
      by (auto simp: passes_plain passes_minus)
    moreover have "passes {} cs" using Cons by simp
    ultimately have "passes {} ([c] @ cs)"
      using passes_append [of "{CHR ''-''}" "[c]" "{}" cs] passes_append [of "{}" "[c]" "{}" cs] False
      by blast
    then show ?thesis by simp
  qed
qed simp

lemma back_in_code:
  "ss_mode s = Code \<Longrightarrow> s\<lparr>ss_executable := e, ss_slice := x, ss_mode := Code\<rparr> = s\<lparr>ss_slice := x, ss_executable := e\<rparr>"
  by (cases s) simp

lemma scan_single_quoted:
  assumes "ss_mode s = Single_Quote" and "ds \<noteq> [] \<longrightarrow> hd ds \<noteq> sq"
  shows "scan (double_quotes t @ sq # ds) s =
    scan ds (s\<lparr>ss_slice := ss_slice s @ double_quotes t @ [sq], ss_mode := Code\<rparr>)"
  using assms(1)
proof (induction t arbitrary: s)
  case Nil
  have "next_char ds \<noteq> Some sq" using assms(2) by (cases ds) auto
  with Nil have "scan_turn sq (next_char ds) s = (False, eat [sq] (s\<lparr>ss_mode := Code\<rparr>))"
    by (simp add: scan_turn_def)
  from scan_one [OF this] show ?case by (simp add: double_quotes_def mode_slice)
next
  case (Cons c t)
  show ?case
  proof (cases "c = sq")
    case True
    have "scan_turn sq (Some sq) s = (True, eat [sq, sq] s)" using Cons.prems by (simp add: scan_turn_def)
    from scan_two [OF this] Cons.IH [of "eat [sq, sq] s"] Cons.prems True
    show ?thesis by (simp add: double_quotes_def)
  next
    case False
    have "scan_turn c n s = (False, eat [c] s)" for n using Cons.prems False by (simp add: scan_turn_def)
    from scan_one [OF this] Cons.IH [of "eat [c] s"] Cons.prems False
    show ?thesis by (simp add: double_quotes_def)
  qed
qed

lemma scan_double_quoted:
  assumes "ss_mode s = Double_Quote" and "ds \<noteq> [] \<longrightarrow> hd ds \<noteq> dq" and "dq \<notin> set t"
  shows "scan (t @ dq # ds) s = scan ds (s\<lparr>ss_slice := ss_slice s @ t @ [dq], ss_mode := Code\<rparr>)"
  using assms(1,3)
proof (induction t arbitrary: s)
  case Nil
  have "next_char ds \<noteq> Some dq" using assms(2) by (cases ds) auto
  with Nil have "scan_turn dq (next_char ds) s = (False, eat [dq] (s\<lparr>ss_mode := Code\<rparr>))"
    by (simp add: scan_turn_def)
  from scan_one [OF this] show ?case by (simp add: mode_slice)
next
  case (Cons c t)
  have "scan_turn c n s = (False, eat [c] s)" for n using Cons.prems by (auto simp: scan_turn_def)
  from scan_one [OF this] Cons.IH [of "eat [c] s"] Cons.prems show ?case by simp
qed

lemma passes_quoted: "passes {sq} ([sq] @ double_quotes t @ [sq])"
  unfolding passes_def
proof (intro allI impI)
  fix s :: scan_state and ds
  assume s: "ss_mode s = Code" "ds \<noteq> [] \<longrightarrow> hd ds \<notin> {sq}"
  let ?s = "eat [sq] (s\<lparr>ss_executable := True, ss_mode := Single_Quote\<rparr>)"
  have "scan_turn sq n s = (False, ?s)" for n using s by (simp add: scan_turn_def)
  from scan_one [OF this] scan_single_quoted [of ?s ds t] s
  show "\<exists>x. (ss_executable s \<longrightarrow> x) \<and> scan (([sq] @ double_quotes t @ [sq]) @ ds) s =
      scan ds (s\<lparr>ss_slice := ss_slice s @ [sq] @ double_quotes t @ [sq], ss_executable := x\<rparr>)"
    by (intro exI [of _ True]) (simp add: back_in_code exec_slice)
qed

lemma passes_name: "dq \<notin> set name \<Longrightarrow> passes {dq} (name_quoted name)"
  unfolding passes_def
proof (intro allI impI)
  fix s :: scan_state and ds
  assume name: "dq \<notin> set name" and s: "ss_mode s = Code" "ds \<noteq> [] \<longrightarrow> hd ds \<notin> {dq}"
  let ?s = "eat [dq] (s\<lparr>ss_executable := True, ss_mode := Double_Quote\<rparr>)"
  have "scan_turn dq n s = (False, ?s)" for n using s by (simp add: scan_turn_def)
  from scan_one [OF this] scan_double_quoted [of ?s ds name] s name
  show "\<exists>x. (ss_executable s \<longrightarrow> x) \<and> scan (name_quoted name @ ds) s =
      scan ds (s\<lparr>ss_slice := ss_slice s @ name_quoted name, ss_executable := x\<rparr>)"
    by (intro exI [of _ True]) (simp add: name_quoted_def back_in_code exec_slice)
qed

lemma passes_join:
  assumes "list_all (\<lambda>x. passes N x \<and> x \<noteq> []) xs" and "CHR '','' \<notin> N"
  shows "passes N (join '', '' xs)"
  using assms(1)
proof (induction "'', ''" xs rule: join.induct)
  case (3 x y ys)
  have "passes {} '', ''" by (rule passes_plains) (simp add: plain_char_def)
  moreover have "passes N (join '', '' (y # ys))" using 3 by simp
  moreover have "join '', '' (y # ys) \<noteq> []" using 3(2) by (cases ys) auto
  ultimately have "passes N ('', '' @ join '', '' (y # ys))"
    by (intro passes_append [of "{}"]) auto
  then show ?case using 3(2) assms(2) passes_append [of N x N "'', '' @ join '', '' (y # ys)"] by simp
qed auto

section \<open>Complete statements\<close>

definition value_ok :: "(json \<Rightarrow> string) \<Rightarrow> json \<Rightarrow> bool" where
  \<comment> \<open>numbers as they are printed, and no line break in a text\<close>
  "value_ok json_text v = (case v of
     J_Null \<Rightarrow> True | J_Bool b \<Rightarrow> True
   | J_Number n \<Rightarrow> n \<noteq> [] \<and> number_ok n \<and> CHR 0x0A \<notin> set n
   | J_String s \<Rightarrow> CHR 0x0A \<notin> set s
   | other \<Rightarrow> CHR 0x0A \<notin> set (json_text other))"

definition row_ok :: "(json \<Rightarrow> string) \<Rightarrow> json \<Rightarrow> bool" where
  "row_ok json_text row = (case row of J_Object obj \<Rightarrow> list_all (\<lambda>(k, v). value_ok json_text v) obj | _ \<Rightarrow> True)"

definition name_ok :: "string \<Rightarrow> bool" where
  "name_ok name \<longleftrightarrow> dq \<notin> set name \<and> CHR 0x0A \<notin> set name"

definition piece_ok :: "string \<Rightarrow> bool" where
  \<comment> \<open>a piece of a statement that stays on its line\<close>
  "piece_ok cs \<longleftrightarrow> passes {sq} cs \<and> cs \<noteq> [] \<and> CHR 0x0A \<notin> set cs"

lemma set_double_quotes: "set (double_quotes t) = set t"
  by (induction t) (auto simp: double_quotes_def)

lemma format_value_ok: "value_ok jt v \<Longrightarrow> piece_ok (format_sql_value jt v)"
proof -
  have quoted: "piece_ok ([sq] @ double_quotes t @ [sq])" if "CHR 0x0A \<notin> set t" for t
    using that passes_quoted [of t] by (simp add: piece_ok_def set_double_quotes)
  have plain: "piece_ok cs" if "list_all plain_char cs" "cs \<noteq> []" "CHR 0x0A \<notin> set cs" for cs
    using that passes_mono [OF passes_plains] by (simp add: piece_ok_def)
  assume "value_ok jt v"
  then show ?thesis
    using quoted passes_mono [OF passes_number, of _ "{sq}"]
    by (cases v) (auto simp: format_sql_value_def value_ok_def plain_char_def piece_ok_def intro!: plain [unfolded piece_ok_def])
qed

definition text_ok :: "string \<Rightarrow> bool" where
  "text_ok cs \<longleftrightarrow> passes {} cs \<and> cs \<noteq> [] \<and> CHR 0x0A \<notin> set cs"

lemma set_join: "CHR 0x0A \<notin> set sep \<Longrightarrow> list_all (\<lambda>x. CHR 0x0A \<notin> set x) xs \<Longrightarrow> CHR 0x0A \<notin> set (join sep xs)"
  by (induction sep xs rule: join.induct) auto

lemma plain_text_ok: "list_all plain_char cs \<Longrightarrow> cs \<noteq> [] \<Longrightarrow> CHR 0x0A \<notin> set cs \<Longrightarrow> text_ok cs"
  by (simp add: text_ok_def passes_plains)

lemma text_ok_append:
  assumes "text_ok a" "passes N b" "b \<noteq> [] \<Longrightarrow> CHR 0x0A \<notin> set b" "text_ok c" "hd c \<notin> N"
  shows "text_ok (a @ b @ c)"
proof (cases "b = []")
  case True
  with assms show ?thesis by (auto simp: text_ok_def intro: passes_append [of "{}"])
next
  case False
  have "passes {} (b @ c)" using assms(2,4,5) by (intro passes_append [of N]) (auto simp: text_ok_def)
  with False assms show ?thesis by (auto simp: text_ok_def intro: passes_append [of "{}"])
qed

lemma formatted_pieces:
  assumes "rmap (\<lambda>col. rbind (ok_or (map_of obj col) (Missing_Column col))
      (\<lambda>value. Ok (format_sql_value jt value))) columns = Ok formatted"
    and "list_all (\<lambda>(k, v). value_ok jt v) obj"
  shows "list_all piece_ok formatted"
  using assms(1)
proof (induction columns arbitrary: formatted)
  case (Cons c cs)
  then obtain v fs where v: "map_of obj c = Some v" "formatted = format_sql_value jt v # fs"
    and rest: "rmap (\<lambda>col. rbind (ok_or (map_of obj col) (Missing_Column col))
      (\<lambda>value. Ok (format_sql_value jt value))) cs = Ok fs"
    by (auto simp: ok_iff)
  have "value_ok jt v" using assms(2) map_of_SomeD [OF v(1)] by (auto simp: list_all_iff)
  with Cons.IH [OF rest] v(2) show ?case by (simp add: format_value_ok)
qed simp

lemma tuple_ok:
  assumes "format_row_values jt row columns = Ok v" "row_ok jt row"
  shows "text_ok (tuple_sql v)"
proof -
  from assms(1) obtain obj formatted where obj: "row = J_Object obj"
    and f: "rmap (\<lambda>col. rbind (ok_or (map_of obj col) (Missing_Column col))
      (\<lambda>value. Ok (format_sql_value jt value))) columns = Ok formatted"
    and v: "v = join '', '' formatted"
    by (cases row) (auto simp: format_row_values_def ok_iff)
  have pieces: "list_all piece_ok formatted"
    using formatted_pieces [OF f] assms(2) by (simp add: obj row_ok_def)
  have "passes {sq} v" unfolding v
    by (rule passes_join) (use pieces in \<open>auto simp: list_all_iff piece_ok_def\<close>)
  moreover have "CHR 0x0A \<notin> set v" unfolding v
    by (rule set_join) (use pieces in \<open>auto simp: list_all_iff piece_ok_def\<close>)
  ultimately show ?thesis
    by (intro text_ok_append [of _ "{sq}"] plain_text_ok) (auto simp: plain_char_def)
qed

definition insert_tail :: "string \<Rightarrow> string list \<Rightarrow> string" where
  "insert_tail table columns =
     ''NSERT INTO '' @ name_quoted table @ '' ('' @ join '', '' (map name_quoted columns) @ '') VALUES ''"

lemma insert_tail_ok:
  assumes "name_ok table" "list_all name_ok columns"
  shows "text_ok (insert_tail table columns)"
proof -
  have "list_all (\<lambda>x. passes {dq} x \<and> x \<noteq> []) (map name_quoted columns)"
    using assms(2) passes_name by (fastforce simp: list_all_iff name_ok_def name_quoted_def)
  moreover have "list_all (\<lambda>x. CHR 0x0A \<notin> set x) (map name_quoted columns)"
    using assms(2) by (auto simp: list_all_iff name_ok_def name_quoted_def)
  ultimately have "passes {dq} (join '', '' (map name_quoted columns))"
    "CHR 0x0A \<notin> set (join '', '' (map name_quoted columns))"
    using passes_join [of "{dq}"] set_join [of "'', ''"] by auto
  then have "text_ok ('' ('' @ join '', '' (map name_quoted columns) @ '') VALUES '')"
    by (intro text_ok_append [of _ "{dq}"] plain_text_ok) (auto simp: plain_char_def)
  moreover have "text_ok ''NSERT INTO ''" by (rule plain_text_ok) (auto simp: plain_char_def)
  ultimately show ?thesis unfolding insert_tail_def
    using assms(1) text_ok_append [of "''NSERT INTO ''" "{dq}" "name_quoted table"
      "'' ('' @ join '', '' (map name_quoted columns) @ '') VALUES ''"]
    by (simp add: name_ok_def passes_name) (simp add: name_quoted_def)
qed

lemma text_complete:
  assumes "text_ok body" "body' = CHR ''I'' # body @ '';''"
  shows "complete_statement body'" "CHR 0x0A \<notin> set body'"
proof -
  let ?s = "eat ''I'' (start_state\<lparr>ss_executable := True\<rparr>)"
  have "scan_turn CHR ''I'' n start_state = (False, ?s)" for n
    by (simp add: scan_turn_def start_state_def is_whitespace_def)
  from scan_one [OF this] have first: "scan body' start_state = scan (body @ '';'') ?s"
    by (simp add: assms(2))
  have "passes {} body" "ss_mode ?s = Code" using assms(1) by (simp_all add: text_ok_def start_state_def)
  from passesD [OF this, of "'';''"] have
    "scan (body @ '';'') ?s = scan '';'' (?s\<lparr>ss_slice := ''I'' @ body, ss_executable := True\<rparr>)"
    by (auto simp: start_state_def)
  also have "\<dots> = finish_slice (start_state\<lparr>ss_slice := body', ss_executable := True\<rparr>)"
    by (simp add: scan.simps(2) scan_turn_semicolon start_state_def assms(2))
  finally have fin: "scan body' start_state = finish_slice (start_state\<lparr>ss_slice := body', ss_executable := True\<rparr>)"
    by (simp add: first)
  have "trim body' \<noteq> []"
    by (simp add: assms(2) trim_def trim_start_def trim_end_def is_whitespace_def)
  then show "complete_statement body'"
    unfolding complete_statement_def split_statements_def fin
    by (simp add: assms(2) finish_slice_def start_state_def Let_def)
  show "CHR 0x0A \<notin> set body'" using assms by (simp add: text_ok_def)
qed

lemma insert_complete:
  assumes "name_ok table" "list_all name_ok columns" "g \<noteq> []" "list_all text_ok g"
  shows "complete_statement (insert_sql (insert_prefix table columns) g)"
    "CHR 0x0A \<notin> set (insert_sql (insert_prefix table columns) g)"
proof -
  have "passes {} (join '', '' g)" "join '', '' g \<noteq> []" "CHR 0x0A \<notin> set (join '', '' g)"
    using assms(3,4) passes_join [of "{}" g] set_join [of "'', ''" g]
    by (cases g rule: remdups_adj.cases; auto simp: text_ok_def list_all_iff)+
  then have body: "text_ok (insert_tail table columns @ join '', '' g)"
    using insert_tail_ok [OF assms(1,2)] passes_append [of "{}"] by (auto simp: text_ok_def)
  have "insert_sql (insert_prefix table columns) g =
      CHR ''I'' # (insert_tail table columns @ join '', '' g) @ '';''"
    by (simp add: insert_sql_def insert_prefix_def insert_tail_def)
  from text_complete [OF body this]
  show "complete_statement (insert_sql (insert_prefix table columns) g)"
    "CHR 0x0A \<notin> set (insert_sql (insert_prefix table columns) g)" .
qed

section \<open>Lines\<close>

lemma split_inclusive_line: "CHR 0x0A \<notin> set l \<Longrightarrow> split_inclusive (as_line l @ t) = as_line l # split_inclusive t"
  by (induction l) auto

lemma text_lines_of_lines:
  assumes "list_all (\<lambda>l. CHR 0x0A \<notin> set l \<and> l \<noteq> [] \<and> last l \<noteq> CHR 0x0D) ls"
  shows "text_lines (concat (map as_line ls)) = ls"
  using assms
proof (induction ls)
  case Nil
  show ?case by (simp add: text_lines_def)
next
  case (Cons l ls)
  then have "split_inclusive (as_line l @ concat (map as_line ls)) = as_line l # split_inclusive (concat (map as_line ls))"
    by (intro split_inclusive_line) simp
  with Cons show ?case by (simp add: text_lines_def strip_line_end_def butlast_append)
qed

definition insert_line :: "string \<Rightarrow> bool" where
  \<comment> \<open>a complete insert statement on one line\<close>
  "insert_line l \<longleftrightarrow> complete_statement l \<and> (\<exists>rest. l = ''INSERT INTO '' @ rest) \<and> CHR 0x0A \<notin> set l"

lemma insert_line_fields: "insert_line l \<Longrightarrow> CHR 0x0A \<notin> set l \<and> l \<noteq> [] \<and> last l \<noteq> CHR 0x0D"
  by (auto simp: insert_line_def complete_statement_def)

text \<open>
  What an export has to say, without the loop over the tables and its text: the rows of the tables
  that can be filtered by the raindex, read in order, and for each table the insert statements
  that hold all its rows, each once and in order, some rows to a statement.
\<close>

fun read_tables ::
  "'w export_db \<Rightarrow> raindex_identifier \<Rightarrow> string list
   \<Rightarrow> ((string \<times> string list \<times> json list) list, local_db_error, 'w) io" where
  "read_tables db raindex_id [] = io_return []"
| "read_tables db raindex_id (table # tables) =
     io_bind (export_fetch_table_columns db table) (\<lambda>columns.
     io_bind (if has_target_filters columns
              then dbq (xd_rows db (build_select_statement table columns raindex_id))
              else io_return []) (\<lambda>rows.
     io_bind (read_tables db raindex_id tables) (\<lambda>read.
     io_return (if rows = [] then read else (table, columns, rows) # read))))"

fun table_inserts ::
  "(json \<Rightarrow> string) \<Rightarrow> string \<times> string list \<times> json list \<Rightarrow> string list \<Rightarrow> bool" where
  "table_inserts jt (table, columns, rows) ls \<longleftrightarrow>
     (\<exists>vals groups. rmap (\<lambda>row. format_row_values jt row columns) rows = Ok vals \<and>
        concat groups = map tuple_sql vals \<and>
        list_all (group_ok max_insert_rows max_insert_bytes (insert_prefix table columns)) groups \<and>
        ls = map (insert_sql (insert_prefix table columns)) groups)"

lemma table_lines:
  assumes "build_insert_statements jt table columns rows = Ok sql" "name_ok table"
    "list_all name_ok columns" "list_all (row_ok jt) rows"
  shows "\<exists>ls. sql = concat (map as_line ls) \<and> list_all insert_line ls \<and>
    table_inserts jt (table, columns, rows) ls \<and> (rows \<noteq> [] \<longrightarrow> ls \<noteq> [])"
proof -
  let ?stem = "insert_prefix table columns"
  have "insert_loop (\<lambda>row. format_row_values jt row columns) ?stem max_insert_rows max_insert_bytes rows [] [] 0 = Ok sql"
    using assms(1) by (simp add: build_insert_statements_def build_insert_statements_bounded_def)
  from insert_loop_groups [OF this, of "[]"] obtain vals groups where
    vals: "rmap (\<lambda>row. format_row_values jt row columns) rows = Ok vals"
    and groups: "concat groups = map tuple_sql vals"
      "sql = concat (map (\<lambda>g. as_line (insert_sql ?stem g)) groups)"
      "list_all (group_ok max_insert_rows max_insert_bytes ?stem) groups"
    by (auto simp: open_group_def max_insert_rows_def)
  have tuples: "list_all (\<lambda>v. text_ok (tuple_sql v)) vals"
    using vals assms(4)
    by (induction rows arbitrary: vals) (auto simp: ok_iff dest: tuple_ok)
  have "insert_line (insert_sql ?stem g)" if "g \<in> set groups" for g
  proof -
    have "g \<noteq> []" using that groups(3) by (auto simp: list_all_iff group_ok_def)
    moreover have "list_all text_ok g"
    proof -
      have "set g \<subseteq> set (map tuple_sql vals)" using that unfolding groups(1) [symmetric] by auto
      with tuples show ?thesis by (auto simp: list_all_iff)
    qed
    ultimately show ?thesis
      using insert_complete [OF assms(2,3)] by (auto simp: insert_line_def insert_sql_def insert_prefix_def)
  qed
  moreover have "groups \<noteq> []" if "rows \<noteq> []"
    using that vals groups(1) by (cases rows) (auto simp: ok_iff)
  moreover have "table_inserts jt (table, columns, rows) (map (insert_sql ?stem) groups)"
    using vals groups by auto
  ultimately show ?thesis using groups(2)
    by (intro exI [of _ "map (insert_sql ?stem) groups"])
      (auto simp: list_all_iff comp_def simp del: table_inserts.simps)
qed

definition plain_db :: "'w export_db \<Rightarrow> bool" where
  \<comment> \<open>the columns have plain names, and no text of a row has a line break\<close>
  "plain_db db \<longleftrightarrow>
     (\<forall>st w cols w'. xd_columns db st w = (Ok cols, w') \<longrightarrow> list_all name_ok cols) \<and>
     (\<forall>st w rows w'. xd_rows db st w = (Ok rows, w') \<longrightarrow> list_all (row_ok (xd_json_text db)) rows)"

lemma plain_dbD:
  assumes "plain_db db"
  shows "dbq (xd_columns db st) w = (Ok cols, w') \<Longrightarrow> list_all name_ok cols"
    and "dbq (xd_rows db st) w = (Ok rows, w') \<Longrightarrow> list_all (row_ok (xd_json_text db)) rows"
  using assms unfolding plain_db_def io_map_err_Ok_iff by blast+

definition dump_text :: "bool \<Rightarrow> string list \<Rightarrow> string" where
  "dump_text had_rows ls = (if had_rows then concat (map as_line (''BEGIN;'' # ls)) else [])"

lemma read_tables_skip:
  assumes "export_fetch_table_columns db table w = (Ok cols, w1)"
    and "if has_target_filters cols
         then dbq (xd_rows db (build_select_statement table cols i)) w1 = (Ok [], w2) else w2 = w1"
  shows "read_tables db i (table # tables) w = read_tables db i tables w2"
  using assms
  by (cases "read_tables db i tables w2")
    (auto simp: io_bind_def io_return_def split: if_splits result.splits)

lemma export_tables_lines:
  assumes "plain_db db" "list_all name_ok tables"
    and "export_tables db i tables (dump_text had ls) had w = (Ok (inserts, had'), w')"
    and "had = (ls \<noteq> [])"
  shows "\<exists>read lss. read_tables db i tables w = (Ok read, w') \<and>
    list_all2 (table_inserts (xd_json_text db)) read lss \<and> list_all insert_line (concat lss) \<and>
    inserts = dump_text had' (ls @ concat lss) \<and> had' = (ls @ concat lss \<noteq> [])"
  using assms(2-)
proof (induction tables arbitrary: had ls w)
  case Nil
  then show ?case by (intro exI [of _ "[]"]) (auto simp: io_defs)
next
  case (Cons table tables)
  from Cons.prems(2) obtain cols w1 where cols: "export_fetch_table_columns db table w = (Ok cols, w1)"
    by (auto simp: ok_iff)
  then have cols_ok: "list_all name_ok cols"
    unfolding export_fetch_table_columns_def by (rule plain_dbD(1) [OF assms(1)])
  show ?case
  proof (cases "has_target_filters cols")
    case False
    with Cons read_tables_skip [OF cols, of i w1 tables] cols show ?thesis
      by (simp add: io_bind_def del: read_tables.simps)
  next
    case True
    let ?st = "build_select_statement table cols i"
    from Cons.prems(2) True cols obtain rows w2 where rows: "dbq (xd_rows db ?st) w1 = (Ok rows, w2)"
      by (auto simp: io_bind_def split: prod.splits result.splits)
    then have rows_ok: "list_all (row_ok (xd_json_text db)) rows"
      by (rule plain_dbD(2) [OF assms(1)])
    show ?thesis
    proof (cases "rows = []")
      case True
      with Cons cols rows \<open>has_target_filters cols\<close> read_tables_skip [OF cols, of i w2 tables]
      show ?thesis by (simp add: io_bind_def del: read_tables.simps)
    next
      case False
      from Cons.prems(2) True cols rows False obtain sql where
        sql: "build_insert_statements (xd_json_text db) table cols rows = Ok sql"
        and rest: "export_tables db i tables
          ((if had then dump_text had ls else dump_text had ls @ ''BEGIN;'' @ [CHR 0x0A]) @ sql) True w2
          = (Ok (inserts, had'), w')"
        by (auto simp: io_bind_def io_pure_def map_err_Ok_iff split: prod.splits result.splits)
      from table_lines [OF sql _ cols_ok rows_ok] Cons.prems(1) False obtain ts where
        ts: "sql = concat (map as_line ts)" "list_all insert_line ts" "ts \<noteq> []"
          "table_inserts (xd_json_text db) (table, cols, rows) ts"
        by (auto simp del: table_inserts.simps)
      have joined: "(if had then dump_text had ls else dump_text had ls @ ''BEGIN;'' @ [CHR 0x0A]) @ sql =
          dump_text True (ls @ ts)"
        using Cons.prems(3) by (simp add: dump_text_def ts(1))
      from Cons.IH [OF _ rest [unfolded joined]] Cons.prems(1) ts(3) obtain read lss where
        "read_tables db i tables w2 = (Ok read, w')"
        "list_all2 (table_inserts (xd_json_text db)) read lss" "list_all insert_line (concat lss)"
        "inserts = dump_text had' ((ls @ ts) @ concat lss)" "had' = ((ls @ ts) @ concat lss \<noteq> [])"
        by auto
      with True False cols rows ts show ?thesis
        by (intro exI [of _ "(table, cols, rows) # read"] exI [of _ "ts # lss"])
          (simp add: io_bind_def io_return_def del: table_inserts.simps io_map_err_Ok_iff)
    qed
  qed
qed

lemma export_lines:
  assumes "plain_db db" "export_data_only db i w = (Ok (Some dump), w')"
  shows "\<exists>read lss. read_tables db i exported_tables w = (Ok read, w') \<and>
    list_all2 (table_inserts (xd_json_text db)) read lss \<and>
    dump = concat (map as_line (''BEGIN;'' # concat lss @ [''COMMIT;''])) \<and>
    list_all insert_line (concat lss) \<and> concat lss \<noteq> []"
proof -
  from assms(2) obtain inserts where
    tabs: "export_tables db i exported_tables [] False w = (Ok (inserts, True), w')"
    and dump: "dump = inserts @ ''COMMIT;'' @ [CHR 0x0A]"
    by (auto simp: export_data_only_def ok_iff split: if_splits)
  have names: "list_all name_ok exported_tables"
    by (simp add: exported_tables_def required_tables_def skipped_tables_def name_ok_def)
  from export_tables_lines [OF assms(1) names, of i False "[]" w inserts True w'] tabs
  obtain read lss where "read_tables db i exported_tables w = (Ok read, w')"
    "list_all2 (table_inserts (xd_json_text db)) read lss" "list_all insert_line (concat lss)"
    "inserts = dump_text True (concat lss)" "concat lss \<noteq> []"
    by (auto simp: dump_text_def simp del: table_inserts.simps)
  then show ?thesis using dump
    by (intro exI [of _ read] exI [of _ lss]) (simp add: dump_text_def del: table_inserts.simps)
qed

section \<open>Reading a dump back\<close>

lemma dump_statements_lines: "batch_statements (dump_statements dump) = map sql_new (text_lines dump)"
proof -
  have "batch_statements (fold (\<lambda>line b. batch_add (sql_new line) b) ls b) = batch_statements b @ map sql_new ls" for ls b
    by (induction ls arbitrary: b) (simp_all add: batch_add_def)
  then show ?thesis by (simp add: dump_statements_def batch_new_def)
qed

lemma begin_commit: "is_begin ''BEGIN;''" "is_commit ''COMMIT;''"
  by (simp_all add: is_begin_def is_commit_def normalized_def trim_def trim_start_def trim_end_def
      is_whitespace_def eq_ignore_ascii_case_def)

text \<open>
  Claim C22. A dump holds every row and is read back statement by statement: the lines into which a
  native client cuts an exported dump are \<open>BEGIN;\<close>, for each table that was read the insert
  statements of all its rows in order, and \<open>COMMIT;\<close>; every one of them is a complete statement,
  whatever quotes, semicolons or comment marks stand in the exported texts, and the batch made of
  them is a transaction around exactly these inserts. (This needs column names without quotes and
  texts without line breaks.)
\<close>

theorem dump_reads_back:
  assumes "plain_db db" and "export_data_only db i w = (Ok (Some dump), w')"
  shows "\<exists>read lss. read_tables db i exported_tables w = (Ok read, w') \<and>
    list_all2 (table_inserts (xd_json_text db)) read lss \<and> concat lss \<noteq> [] \<and>
    text_lines dump = ''BEGIN;'' # concat lss @ [''COMMIT;''] \<and>
    list_all complete_statement (concat lss) \<and> is_transaction (dump_statements dump) \<and>
    inner_statements (dump_statements dump) = map sql_new (concat lss)"
proof -
  from export_lines [OF assms] obtain read lss where
    read: "read_tables db i exported_tables w = (Ok read, w')"
      "list_all2 (table_inserts (xd_json_text db)) read lss" and
    dump: "dump = concat (map as_line (''BEGIN;'' # concat lss @ [''COMMIT;'']))"
    and ls: "list_all insert_line (concat lss)" "concat lss \<noteq> []" by blast
  let ?ls = "concat lss"
  have lines: "text_lines dump = ''BEGIN;'' # ?ls @ [''COMMIT;'']" unfolding dump
    by (rule text_lines_of_lines) (use ls insert_line_fields in \<open>auto simp: list_all_iff\<close>)
  then have batch: "batch_statements (dump_statements dump) =
      sql_new ''BEGIN;'' # map sql_new ?ls @ [sql_new ''COMMIT;'']"
    by (simp add: dump_statements_lines)
  then have trans: "is_transaction (dump_statements dump)"
    by (simp add: is_transaction_def begin_commit sql_new_def)
  with batch have "inner_statements (dump_statements dump) = map sql_new ?ls"
    by (simp add: inner_statements_def)
  moreover have "list_all complete_statement ?ls"
    using ls(1) by (auto simp: list_all_iff insert_line_def)
  ultimately show ?thesis
    using read ls(2) lines trans by blast
qed

text \<open>
  With a line break in a text the lines are not statements: the export writes it as it is, and the
  client cuts the statement in two.
\<close>

lemma line_break_cuts_statement:
  "\<exists>sql a b. build_insert_statements (\<lambda>_. []) ''t'' [''c''] [J_Object [(''c'', J_String [CHR ''x'', CHR 0x0A, CHR ''y''])]] = Ok sql
     \<and> text_lines sql = [a, b] \<and> \<not> complete_statement a \<and> \<not> complete_statement b"
  by (simp add: build_insert_statements_def build_insert_statements_bounded_def format_row_values_def
      format_sql_value_def double_quotes_def insert_prefix_def name_quoted_def text_lines_def
      strip_line_end_def complete_statement_def max_insert_rows_def Let_def
      scan.simps(2) scan_turn_def start_state_def finish_slice_def is_whitespace_def)

definition example_export_db :: "unit export_db" where
  "example_export_db = \<lparr>
     xd_columns = (\<lambda>st w. (Ok (if sql_text st = ''PRAGMA table_info('' @ [sq] @ ''deposits'' @ [sq] @ '')''
       then [''chain_id'', ''raindex_address'', ''note''] else []), w)),
     xd_rows = (\<lambda>st w. (Ok [J_Object [(''chain_id'', J_Number ''1''), (''raindex_address'', J_String ''0x07''),
       (''note'', J_String ([sq] @ ''; DROP --''))]], w)),
     xd_json_text = (\<lambda>_. []), xd_error_text = (\<lambda>_. [])\<rparr>"

theorem dump_reads_back_witness:
  "\<exists>dump l. export_data_only example_export_db \<lparr>ri_chain_id = 1, ri_raindex_address = 7\<rparr> () = (Ok (Some dump), ()) \<and>
     text_lines dump = [''BEGIN;'', l, ''COMMIT;''] \<and>
     l = insert_sql (insert_prefix ''deposits'' [''chain_id'', ''raindex_address'', ''note''])
       [''(1, '' @ [sq] @ ''0x07'' @ [sq] @ '', '' @ [sq, sq, sq] @ ''; DROP --'' @ [sq] @ '')'']"
proof -
  let ?id = "\<lparr>ri_chain_id = 1, ri_raindex_address = 7\<rparr>"
  let ?rows = "[J_Object [(''chain_id'', J_Number ''1''), (''raindex_address'', J_String ''0x07''),
       (''note'', J_String ([sq] @ ''; DROP --''))]]"
  have plain: "plain_db example_export_db"
    by (auto simp: plain_db_def example_export_db_def name_ok_def row_ok_def value_ok_def plain_char_def)
  have "\<exists>dump. export_data_only example_export_db ?id () = (Ok (Some dump), ())"
    by (simp add: export_data_only_def exported_tables_def required_tables_def skipped_tables_def
        export_fetch_table_columns_def example_export_db_def has_target_filters_def
        eq_ignore_ascii_case_def to_ascii_lowercase_def io_defs sql_new_def build_insert_statements_def
        build_insert_statements_bounded_def format_row_values_def Let_def)
  then obtain dump where run: "export_data_only example_export_db ?id () = (Ok (Some dump), ())"
    by blast
  have read: "read_tables example_export_db ?id exported_tables ()
      = (Ok [(''deposits'', [''chain_id'', ''raindex_address'', ''note''], ?rows)], ())"
    by (simp add: exported_tables_def required_tables_def skipped_tables_def
        export_fetch_table_columns_def example_export_db_def has_target_filters_def
        eq_ignore_ascii_case_def to_ascii_lowercase_def io_defs sql_new_def Let_def)
  let ?t = "''(1, '' @ [sq] @ ''0x07'' @ [sq] @ '', '' @ [sq, sq, sq] @ ''; DROP --'' @ [sq] @ '')''"
  have vals: "rmap (\<lambda>row. format_row_values (xd_json_text example_export_db) row
      [''chain_id'', ''raindex_address'', ''note'']) ?rows = Ok [butlast (tl ?t)]"
    by (simp add: format_row_values_def format_sql_value_def double_quotes_def)
  from dump_reads_back [OF plain run] read obtain lss where
    one: "list_all2 (table_inserts (xd_json_text example_export_db))
       [(''deposits'', [''chain_id'', ''raindex_address'', ''note''], ?rows)] lss" and
    lines: "text_lines dump = ''BEGIN;'' # concat lss @ [''COMMIT;'']" by auto
  from one vals obtain groups where g: "concat groups = [?t]"
    "list_all (group_ok max_insert_rows max_insert_bytes
       (insert_prefix ''deposits'' [''chain_id'', ''raindex_address'', ''note''])) groups"
    "lss = [map (insert_sql (insert_prefix ''deposits'' [''chain_id'', ''raindex_address'', ''note''])) groups]"
    by (auto simp: list_all2_Cons1)
  from g(1,2) have "groups = [[?t]]"
    by (cases groups) (auto simp: group_ok_def append_eq_Cons_conv list_all_iff split: list.splits)
  with lines run g(3) show ?thesis by auto
qed

lemma inserts_hold_every_row_example:
  "\<exists>sql groups. build_insert_statements_bounded (\<lambda>_. []) ''t'' [''c'']
       [J_Object [(''c'', J_Number ''1'')], J_Object [(''c'', J_Null)], J_Object [(''c'', J_Bool True)]] 2 100 = Ok sql \<and>
     concat groups = [''(1)'', ''(NULL)'', ''(1)''] \<and>
     list_all (group_ok 2 100 (insert_prefix ''t'' [''c''])) groups"
proof -
  let ?rows = "[J_Object [(''c'', J_Number ''1'')], J_Object [(''c'', J_Null)], J_Object [(''c'', J_Bool True)]]"
  obtain sql where sql: "build_insert_statements_bounded (\<lambda>_. []) ''t'' [''c''] ?rows 2 100 = Ok sql"
    by (simp add: build_insert_statements_bounded_def format_row_values_def Let_def)
  have "rmap (\<lambda>row. format_row_values (\<lambda>_. []) row [''c'']) ?rows = Ok [''1'', ''NULL'', ''1'']"
    by (simp add: format_row_values_def format_sql_value_def)
  with inserts_hold_every_row [OF sql] sql show ?thesis by auto
qed

end
