(* ===== verification/Producer.thy ===== *)
theory Producer
  imports Export Client_Runner
begin

text \<open>
  The producer of dumps (\<open>cli/src/commands/local_db/pipeline/\<close>): it syncs every raindex of the settings
  into a database of its own, exports it, and publishes a manifest of the dumps.

  The files and paths are operations of the record \<open>producer_env\<close>. The map of targets and the map of
  exports are association lists in their iteration order; the tasks of the targets run one after
  the other, and their results come in the order of the targets.
\<close>

section \<open>The bootstrap of the producer\<close>

definition producer_engine_run ::
  "schema_ops \<Rightarrow> 'w db_ops \<Rightarrow> bootstrap_config \<Rightarrow> (unit, local_db_error, 'w) io" where
  "producer_engine_run S db config =
     io_bind (reset_db S db None) (\<lambda>_.
     case bo_dump_stmt config of
       Some dump_stmt \<Rightarrow> dbq (db_execute_batch db dump_stmt)
     | None \<Rightarrow> io_return ())"

definition producer_runner_run :: "(unit, local_db_error, 'w) io" where
  "producer_runner_run = io_fail Invalid_Bootstrap_Implementation"

section \<open>Exporting a dump\<close>

record export_metadata =
  em_dump_path :: string
  em_end_block :: u64
  em_end_block_hash :: string
  em_end_block_time_ms :: u64

record 'w producer_env =
  pe_raindexes :: "(string \<times> raindex_cfg) list"
  pe_targets :: "runner_target list"
  pe_out_root :: string
  pe_release_base_url :: url
  pe_codec :: text_codec
  pe_yaml_text :: "yaml_error \<Rightarrow> ext_error"
  pe_fetch_manifests :: "(string \<times> raindex_cfg) list \<Rightarrow> (manifest_map, local_db_error, 'w) io"
  pe_download_dump :: "url \<Rightarrow> (string, local_db_error, 'w) io"
  pe_build_engine :: "runner_target \<Rightarrow> ('w engine, local_db_error) result"
  pe_create_dir :: "string \<Rightarrow> (unit, local_db_error, 'w) io"
  pe_remove_db :: "string \<Rightarrow> (unit, local_db_error, 'w) io"
  pe_open_db :: "string \<Rightarrow> 'w db_ops"
  pe_open_export :: "string \<Rightarrow> 'w export_db"
  pe_write_gz :: "string \<Rightarrow> string \<Rightarrow> (unit, local_db_error, 'w) io"
  pe_write_manifest :: "strict_yaml \<Rightarrow> string \<Rightarrow> (unit, local_db_error, 'w) io"

definition chain_folder :: "string \<Rightarrow> raindex_identifier \<Rightarrow> string" where
  "chain_folder out_root i = out_root @ ''/'' @ show_word (ri_chain_id i)"

definition export_dump ::
  "'w producer_env \<Rightarrow> 'w export_db \<Rightarrow> 'w db_ops \<Rightarrow> runner_target \<Rightarrow> sync_outcome
   \<Rightarrow> (export_metadata option, local_db_error, 'w) io" where
  "export_dump E xdb db target outcome =
     io_bind (export_data_only xdb (target_id target)) (\<lambda>dump.
     case dump of
       None \<Rightarrow> io_return None
     | Some dump_sql \<Rightarrow>
         let folder = chain_folder (pe_out_root E) (target_id target);
             dump_path = folder @ ''/'' @ show_word (ri_chain_id (target_id target)) @ ''-'' @
               tc_show_address (pe_codec E) (ri_raindex_address (target_id target)) @ ''.sql.gz'' in
         io_bind (pe_create_dir E folder) (\<lambda>_.
         io_bind (pe_write_gz E dump_path dump_sql) (\<lambda>_.
         io_bind (dbq (db_watermark db (target_id target))) (\<lambda>rows.
         case rows of
           [] \<Rightarrow> io_fail (Export_Error (xd_error_text xdb (Missing_Target_Watermark
                   (ri_chain_id (target_id target)) (ri_raindex_address (target_id target)))))
         | row # _ \<Rightarrow> io_return (Some \<lparr>em_dump_path = dump_path, em_end_block = so_target_block outcome,
             em_end_block_hash = tc_show_bytes (pe_codec E) (tw_last_hash row),
             em_end_block_time_ms = tw_updated_at row\<rparr>)))))"

section \<open>The job of a target\<close>

definition db_path_for_target :: "'w producer_env \<Rightarrow> runner_target \<Rightarrow> (string, local_db_error, 'w) io" where
  "db_path_for_target E target =
     (let folder = chain_folder (pe_out_root E) (target_id target) in
      io_bind (pe_create_dir E folder) (\<lambda>_.
      io_return (folder @ ''/'' @ tc_show_address (pe_codec E) (ri_raindex_address (target_id target)) @ ''.db'')))"

definition run_raindex_job ::
  "bool \<Rightarrow> 'w producer_env \<Rightarrow> manifest_map \<Rightarrow> runner_target
   \<Rightarrow> (sync_outcome \<times> export_metadata option, target_failure, 'w) io" where
  "run_raindex_job wasm E manifests target =
     (let mk_failure = (\<lambda>stage error. \<lparr>tf_raindex_id = target_id target,
            tf_raindex_key = Some (tg_raindex_key target), tf_stage = stage, tf_error = error\<rparr>) in
      io_bind (case lookup_manifest_entry manifests target of
                 Some entry \<Rightarrow>
                   io_bind (io_map_err (mk_failure Dump_Download) (pe_download_dump E (mr_dump_url entry)))
                     (\<lambda>dump_sql. io_return (target\<lparr>tg_inputs := (tg_inputs target)\<lparr>in_dump_str := Some dump_sql\<rparr>\<rparr>))
               | None \<Rightarrow> io_return target) (\<lambda>target.
      io_bind (io_map_err (mk_failure Engine_Run) (db_path_for_target E target)) (\<lambda>db_path.
      io_bind (io_map_err (mk_failure Engine_Run) (pe_remove_db E db_path)) (\<lambda>_.
      let db = pe_open_db E db_path in
      io_bind (io_pure (map_err (mk_failure Engine_Build) (pe_build_engine E target))) (\<lambda>engine.
      io_bind (io_map_err (mk_failure Engine_Run) (engine_run wasm engine db (tg_inputs target))) (\<lambda>outcome.
      io_bind (io_map_err (mk_failure Export_Stage)
                 (export_dump E (pe_open_export E db_path) db target outcome)) (\<lambda>exported_dump.
      io_return (outcome, exported_dump))))))))"

section \<open>The manifest\<close>

type_synonym per_network = "(string \<times> u32 \<times> manifest_raindex list) list"

definition push_entry ::
  "per_network \<Rightarrow> string \<Rightarrow> u32 \<Rightarrow> manifest_raindex \<Rightarrow> (per_network, local_db_error) result" where
  "push_entry per network_key chain_id raindex =
     (case map_of per network_key of
        None \<Rightarrow> Ok (per @ [(network_key, chain_id, [raindex])])
      | Some (expected, _) \<Rightarrow>
          if expected \<noteq> chain_id then Err (Runner_Network_Chain_Id_Mismatch network_key expected chain_id)
          else Ok (map (\<lambda>(k, c, rs). (k, c, if k = network_key then rs @ [raindex] else rs)) per))"

definition trim_end_slashes :: "string \<Rightarrow> string" where
  "trim_end_slashes s = rev (dropWhile (\<lambda>c. c = CHR ''/'') (rev s))"

definition build_dump_url ::
  "text_codec \<Rightarrow> url \<Rightarrow> u32 \<Rightarrow> address \<Rightarrow> (url, local_db_error) result" where
  "build_dump_url T base_url chain_id raindex_address =
     (let url_str = trim_end_slashes base_url @ ''/'' @ show_word chain_id @ ''-'' @
            tc_show_address T raindex_address @ ''.sql.gz'' in
      map_err (Dump_Url_Construction_Failed url_str) (tc_parse_url T url_str))"

type_synonym exports = "(raindex_identifier \<times> export_metadata option) list"
type_synonym target_lookup = "(raindex_identifier \<times> runner_target) list"

definition export_of :: "exports \<Rightarrow> raindex_identifier \<Rightarrow> export_metadata option" where
  "export_of exports i = (case map_of exports i of Some (Some e) \<Rightarrow> Some e | _ \<Rightarrow> None)"

definition exported_entry ::
  "text_codec \<Rightarrow> url \<Rightarrow> raindex_identifier \<Rightarrow> export_metadata \<Rightarrow> (manifest_raindex, local_db_error) result" where
  "exported_entry T base_url i export =
     rbind (build_dump_url T base_url (ri_chain_id i) (ri_raindex_address i)) (\<lambda>dump_url.
     rbind (map_err Db_From_Hex_Error (tc_parse_bytes T (em_end_block_hash export))) (\<lambda>end_block_hash.
     Ok \<lparr>mr_address = ri_raindex_address i, mr_dump_url = dump_url, mr_end_block = em_end_block export,
         mr_end_block_hash = end_block_hash, mr_end_block_time_ms = em_end_block_time_ms export\<rparr>))"

fun record_exports ::
  "text_codec \<Rightarrow> url \<Rightarrow> exports \<Rightarrow> target_lookup \<Rightarrow> sync_outcome list \<Rightarrow> per_network
   \<Rightarrow> (per_network, local_db_error) result" where
  "record_exports T base_url exports lookup [] per = Ok per"
| "record_exports T base_url exports lookup (success # successes) per =
     (let i = so_raindex_id success in
      case export_of exports i of
        None \<Rightarrow> record_exports T base_url exports lookup successes per
      | Some export \<Rightarrow>
          rbind (ok_or (map_of lookup i) (Missing_Runner_Target (ri_chain_id i) (ri_raindex_address i)))
            (\<lambda>target.
          rbind (exported_entry T base_url i export) (\<lambda>raindex.
          rbind (push_entry per (tg_network_key target) (ri_chain_id i) raindex)
            (record_exports T base_url exports lookup successes))))"

definition already_recorded :: "per_network \<Rightarrow> string \<Rightarrow> address \<Rightarrow> bool" where
  "already_recorded per network_key raindex_address =
     (case map_of per network_key of
        None \<Rightarrow> False
      | Some (_, raindexes) \<Rightarrow> list_ex (\<lambda>r. mr_address r = raindex_address) raindexes)"

definition previous_entry :: "manifest_map \<Rightarrow> runner_target \<Rightarrow> raindex_identifier \<Rightarrow> manifest_raindex option" where
  "previous_entry previous target i =
     (case previous (tg_manifest_url target) of
        None \<Rightarrow> None
      | Some manifest \<Rightarrow> manifest_find manifest (ri_chain_id i) (ri_raindex_address i))"

fun carry_forward ::
  "manifest_map \<Rightarrow> target_lookup \<Rightarrow> per_network \<Rightarrow> (per_network, local_db_error) result" where
  "carry_forward previous [] per = Ok per"
| "carry_forward previous ((i, target) # lookup) per =
     (if already_recorded per (tg_network_key target) (ri_raindex_address i)
      then carry_forward previous lookup per
      else case previous_entry previous target i of
        None \<Rightarrow> carry_forward previous lookup per
      | Some raindex \<Rightarrow>
          rbind (push_entry per (tg_network_key target) (ri_chain_id i) raindex)
            (carry_forward previous lookup))"

fun push_all :: "string \<Rightarrow> manifest_raindex list \<Rightarrow> local_db_manifest \<Rightarrow> (local_db_manifest, yaml_error) result" where
  "push_all key [] manifest = Ok manifest"
| "push_all key (r # rs) manifest = rbind (push_raindex key r manifest) (push_all key rs)"

fun add_networks ::
  "per_network \<Rightarrow> string list \<Rightarrow> local_db_manifest \<Rightarrow> (local_db_manifest, yaml_error) result" where
  \<comment> \<open>\<open>per_network.remove(&key)\<close>: the keys are distinct\<close>
  "add_networks per [] manifest = Ok manifest"
| "add_networks per (key # keys) manifest =
     (case map_of per key of
        None \<Rightarrow> add_networks per keys manifest
      | Some (chain_id, raindexes) \<Rightarrow>
          rbind (add_network key chain_id manifest) (\<lambda>manifest.
          rbind (push_all key (sort_key mr_address raindexes) manifest)
            (add_networks per keys)))"

definition build_manifest ::
  "text_codec \<Rightarrow> (yaml_error \<Rightarrow> ext_error) \<Rightarrow> sync_outcome list \<Rightarrow> exports \<Rightarrow> target_lookup \<Rightarrow> url
   \<Rightarrow> manifest_map \<Rightarrow> (local_db_manifest, local_db_error) result" where
  "build_manifest T yaml_text successes exports lookup base_url previous =
     rbind (record_exports T base_url exports lookup successes []) (\<lambda>recorded.
     rbind (carry_forward previous lookup recorded) (\<lambda>per.
     map_err (\<lambda>e. Settings_Yaml (yaml_text e)) (add_networks per (sort (map fst per)) manifest_new)))"

section \<open>A run of the producer\<close>

record producer_report =
  pr_successes :: "sync_outcome list"
  pr_failures :: "target_failure list"
  pr_exports :: exports

definition target_lookup_of :: "runner_target list \<Rightarrow> target_lookup" where
  "target_lookup_of targets = fold (\<lambda>t m. map_insert (target_id t) t m) targets []"

definition collect_exports :: "(sync_outcome \<times> export_metadata option) list \<Rightarrow> exports" where
  "collect_exports done = fold (\<lambda>(out, export) m. map_insert (so_raindex_id out) export m) done []"

definition producer_run ::
  "bool \<Rightarrow> 'w producer_env \<Rightarrow> (producer_report, local_db_error, 'w) io" where
  "producer_run wasm E w =
     (case pe_fetch_manifests E (pe_raindexes E) w of
        (Err error, w1) \<Rightarrow>
          (Ok \<lparr>pr_successes = [], pr_failures = [\<lparr>tf_raindex_id = \<lparr>ri_chain_id = 0, ri_raindex_address = 0\<rparr>,
             tf_raindex_key = None, tf_stage = Manifest_Fetch_Stage, tf_error = error\<rparr>], pr_exports = []\<rparr>, w1)
      | (Ok manifests, w1) \<Rightarrow>
          (case io_map_all (run_raindex_job wasm E manifests) (pe_targets E) w1 of (results, w2) \<Rightarrow>
           let exports = collect_exports (oks results);
               report = \<lparr>pr_successes = map fst (oks results), pr_failures = errs results, pr_exports = exports\<rparr> in
           case build_manifest (pe_codec E) (pe_yaml_text E) (map fst (oks results)) exports
                  (target_lookup_of (pe_targets E)) (pe_release_base_url E) manifests of
             Err e \<Rightarrow> (Err e, w2)
           | Ok manifest \<Rightarrow>
               if lm_networks manifest = [] then (Ok report, w2)
               else io_bind (pe_write_manifest E (to_yaml_node (pe_codec E) manifest)
                               (pe_out_root E @ ''/manifest.yaml'')) (\<lambda>_. io_return report) w2))"

section \<open>What is published for a target\<close>

definition entry_of :: "per_network \<Rightarrow> string \<Rightarrow> address \<Rightarrow> manifest_raindex option" where
  "entry_of per key a =
     (case map_of per key of None \<Rightarrow> None | Some (_, rs) \<Rightarrow> find (\<lambda>r. mr_address r = a) rs)"

definition recorded ::
  "text_codec \<Rightarrow> url \<Rightarrow> exports \<Rightarrow> sync_outcome list \<Rightarrow> raindex_identifier \<Rightarrow> manifest_raindex option" where
  \<comment> \<open>the entry of a dump made in this run\<close>
  "recorded T base_url exports successes i =
     (if list_ex (\<lambda>s. so_raindex_id s = i) successes
      then (case export_of exports i of
              None \<Rightarrow> None
            | Some e \<Rightarrow> (case exported_entry T base_url i e of Ok r \<Rightarrow> Some r | Err _ \<Rightarrow> None))
      else None)"

definition published ::
  "text_codec \<Rightarrow> url \<Rightarrow> exports \<Rightarrow> sync_outcome list \<Rightarrow> manifest_map \<Rightarrow> raindex_identifier \<Rightarrow> runner_target
   \<Rightarrow> manifest_raindex option" where
  "published T base_url exports successes previous i target =
     (case recorded T base_url exports successes i of
        Some r \<Rightarrow> Some r | None \<Rightarrow> previous_entry previous target i)"

definition networks_match :: "target_lookup \<Rightarrow> bool" where
  \<comment> \<open>a network of the settings has one name and one chain\<close>
  "networks_match lookup \<longleftrightarrow> list_all (\<lambda>(i, t). list_all (\<lambda>(j, u).
     (tg_network_key t = tg_network_key u) = (ri_chain_id i = ri_chain_id j)) lookup) lookup"

lemma networks_matchD:
  "networks_match lookup \<Longrightarrow> (i, t) \<in> set lookup \<Longrightarrow> (j, u) \<in> set lookup \<Longrightarrow>
   (tg_network_key t = tg_network_key u) = (ri_chain_id i = ri_chain_id j)"
  by (fastforce simp: networks_match_def list_all_iff)

lemma same_identifier:
  "networks_match lookup \<Longrightarrow> (i, t) \<in> set lookup \<Longrightarrow> (j, u) \<in> set lookup \<Longrightarrow>
   tg_network_key t = tg_network_key u \<Longrightarrow> ri_raindex_address i = ri_raindex_address j \<Longrightarrow> i = j"
  by (auto dest: networks_matchD intro: raindex_identifier.equality)

lemma map_of_map_values:
  "map_of (map (\<lambda>(k, c, rs). (k, c, f k rs)) per) key =
     (case map_of per key of None \<Rightarrow> None | Some (c, rs) \<Rightarrow> Some (c, f key rs))"
  by (induction per) auto

lemma find_append: "find P (xs @ ys) = (case find P xs of None \<Rightarrow> find P ys | Some x \<Rightarrow> Some x)"
  by (induction xs) auto

lemma push_entry_entry:
  assumes "push_entry per k c r = Ok per'"
  shows "entry_of per' key a = (case entry_of per key a of
      Some e \<Rightarrow> Some e | None \<Rightarrow> if key = k \<and> a = mr_address r then Some r else None)"
  using assms
  by (auto simp: push_entry_def entry_of_def map_of_map_values find_append map_add_def
      split: option.splits if_splits)

lemma push_entry_chain:
  assumes "push_entry per k c r = Ok per'"
  shows "map_option fst (map_of per' key) = (if key = k then Some c else map_option fst (map_of per key))"
  using assms
  by (auto simp: push_entry_def map_of_map_values map_add_def split: option.splits if_splits)

lemma push_entry_keys:
  assumes "push_entry per k c r = Ok per'" "distinct (map fst per)"
  shows "distinct (map fst per')"
proof -
  have "map fst (map (\<lambda>(k', c, rs). (k', c, if k' = k then rs @ [r] else rs)) per) = map fst per"
    by auto
  then show ?thesis using assms
    by (auto simp: push_entry_def map_of_eq_None_iff simp del: map_map split: option.splits if_splits)
qed

lemma exported_entry_address:
  "exported_entry T base_url i e = Ok r \<Longrightarrow> mr_address r = ri_raindex_address i"
  by (auto simp: exported_entry_def ok_iff)

lemma previous_entry_address:
  "previous_entry previous t i = Some r \<Longrightarrow> mr_address r = ri_raindex_address i"
  by (auto simp: previous_entry_def manifest_find_def find_Some_iff split: option.splits)

lemma record_exports_entry:
  assumes "networks_match lookup" "map_of lookup i = Some t"
    and "record_exports T base_url exports lookup successes per = Ok per'"
  shows "entry_of per' (tg_network_key t) (ri_raindex_address i) =
    (case entry_of per (tg_network_key t) (ri_raindex_address i) of
       Some r \<Rightarrow> Some r | None \<Rightarrow> recorded T base_url exports successes i)"
  using assms(3)
proof (induction successes arbitrary: per)
  case Nil
  then show ?case by (simp add: recorded_def split: option.splits)
next
  case (Cons s ss)
  let ?j = "so_raindex_id s"
  show ?case
  proof (cases "export_of exports ?j")
    case None
    then have "recorded T base_url exports (s # ss) i = recorded T base_url exports ss i"
      by (cases "?j = i") (auto simp: recorded_def)
    moreover have "record_exports T base_url exports lookup ss per = Ok per'"
      using Cons.prems None by (simp add: Let_def)
    ultimately show ?thesis using Cons.IH by (simp split: option.splits)
  next
    case (Some e)
    with Cons.prems obtain u r per1 where u: "map_of lookup ?j = Some u"
      and r: "exported_entry T base_url ?j e = Ok r"
      and push: "push_entry per (tg_network_key u) (ri_chain_id ?j) r = Ok per1"
      and rest: "record_exports T base_url exports lookup ss per1 = Ok per'"
      by (auto simp: Let_def ok_iff)
    note mem = map_of_SomeD[OF assms(2)] map_of_SomeD[OF u]
    show ?thesis
    proof (cases "?j = i")
      case True
      with assms(2) u r Some have "tg_network_key u = tg_network_key t" "mr_address r = ri_raindex_address i"
        "recorded T base_url exports (s # ss) i = Some r"
        by (auto simp: recorded_def dest: exported_entry_address)
      then show ?thesis using Cons.IH[OF rest] push_entry_entry[OF push] by (auto split: option.splits)
    next
      case False
      then have "\<not> (tg_network_key t = tg_network_key u \<and> ri_raindex_address i = mr_address r)"
        using same_identifier[OF assms(1) mem] exported_entry_address[OF r] by auto
      moreover have "recorded T base_url exports (s # ss) i = recorded T base_url exports ss i"
        using False by (simp add: recorded_def)
      ultimately show ?thesis using Cons.IH[OF rest] push_entry_entry[OF push] by (auto split: option.splits)
    qed
  qed
qed

lemma already_recorded_iff: "already_recorded per k a \<longleftrightarrow> entry_of per k a \<noteq> None"
proof -
  have "list_ex (\<lambda>r. mr_address r = a) rs \<longleftrightarrow> find (\<lambda>r. mr_address r = a) rs \<noteq> None" for rs
    by (auto simp: list_ex_iff find_None_iff)
  then show ?thesis by (auto simp: already_recorded_def entry_of_def split: option.splits)
qed

lemma carry_forward_keeps:
  assumes "carry_forward previous ts per = Ok per'" "entry_of per k a = Some r"
  shows "entry_of per' k a = Some r"
  using assms
  by (induction previous ts per rule: carry_forward.induct)
    (auto simp: ok_iff push_entry_entry split: if_splits option.splits)

lemma carry_forward_entry:
  assumes "networks_match lookup" "(i, t) \<in> set lookup" "distinct (map fst lookup)"
    and "set ts \<subseteq> set lookup" "carry_forward previous ts per = Ok per'" "distinct (map fst ts)"
  shows "entry_of per' (tg_network_key t) (ri_raindex_address i) =
    (case entry_of per (tg_network_key t) (ri_raindex_address i) of
       Some r \<Rightarrow> Some r | None \<Rightarrow> if (i, t) \<in> set ts then previous_entry previous t i else None)"
  using assms(4-)
proof (induction ts arbitrary: per)
  case Nil
  then show ?case by (simp split: option.splits)
next
  case (Cons p ts)
  obtain j u where p: "p = (j, u)" by (cases p)
  then have ju: "(j, u) \<in> set lookup" using Cons.prems(1) by simp
  let ?k = "tg_network_key t" and ?a = "ri_raindex_address i"
  show ?case
  proof (cases "(j, u) = (i, t)")
    case True
    then have notin: "(i, t) \<notin> set ts" using Cons.prems(3) p by (auto simp: rev_image_eqI)
    show ?thesis
    proof (cases "entry_of per ?k ?a")
      case (Some r)
      then show ?thesis using carry_forward_keeps[OF Cons.prems(2)] by simp
    next
      case None
      with Cons.prems notin p True show ?thesis
        by (auto simp: already_recorded_iff ok_iff Cons.IH push_entry_entry
            dest!: previous_entry_address split: option.splits)
    qed
  next
    case False
    then have "j \<noteq> i" using assms(2,3) ju by (auto dest: eq_key_imp_eq_value)
    then have apart: "tg_network_key t = tg_network_key u \<Longrightarrow> ri_raindex_address i \<noteq> ri_raindex_address j"
      using same_identifier[OF assms(1,2) ju] by auto
    have mem: "(i, t) \<in> set (p # ts) \<longleftrightarrow> (i, t) \<in> set ts" using False p by auto
    show ?thesis
    proof (cases "already_recorded per (tg_network_key u) (ri_raindex_address j) \<or> previous_entry previous u j = None")
      case True
      then have "carry_forward previous ts per = Ok per'"
        using Cons.prems(2) p by (auto split: if_splits)
      with Cons show ?thesis unfolding mem by simp
    next
      case False
      then obtain r per1 where r: "previous_entry previous u j = Some r"
        and push: "push_entry per (tg_network_key u) (ri_chain_id j) r = Ok per1"
        and rest: "carry_forward previous ts per1 = Ok per'"
        using Cons.prems(2) p by (auto simp: ok_iff)
      have "entry_of per1 ?k ?a = entry_of per ?k ?a"
        unfolding push_entry_entry[OF push] using apart previous_entry_address[OF r]
        by (auto split: option.splits)
      with Cons rest show ?thesis unfolding mem by simp
    qed
  qed
qed

text \<open>The networks of the manifest: one per name, with the chain of its targets.\<close>

definition chains_from :: "target_lookup \<Rightarrow> per_network \<Rightarrow> bool" where
  "chains_from lookup per \<longleftrightarrow> distinct (map fst per) \<and>
     (\<forall>k c. map_option fst (map_of per k) = Some c \<longrightarrow>
        (\<exists>(i, t) \<in> set lookup. tg_network_key t = k \<and> ri_chain_id i = c))"

lemma chains_fromD:
  assumes "chains_from lookup per" "map_of per k = Some (c, rs)"
  obtains i t where "(i, t) \<in> set lookup" "tg_network_key t = k" "ri_chain_id i = c"
proof -
  have "map_option fst (map_of per k) = Some c" using assms(2) by simp
  with assms(1) show ?thesis using that unfolding chains_from_def by blast
qed

lemma push_entry_chains:
  assumes "chains_from lookup per" "(i, t) \<in> set lookup"
    and "push_entry per (tg_network_key t) (ri_chain_id i) r = Ok per'"
  shows "chains_from lookup per'"
  using assms push_entry_keys[OF assms(3)]
  by (auto simp: chains_from_def push_entry_chain[OF assms(3)])

lemma record_exports_chains:
  "record_exports T base_url exports lookup ss per = Ok per' \<Longrightarrow> chains_from lookup per \<Longrightarrow>
   chains_from lookup per'"
  by (induction T base_url exports lookup ss per rule: record_exports.induct)
    (auto simp: Let_def ok_iff dest: push_entry_chains[OF _ map_of_SomeD] split: option.splits)

lemma carry_forward_chains:
  "carry_forward previous ts per = Ok per' \<Longrightarrow> set ts \<subseteq> set lookup \<Longrightarrow> chains_from lookup per \<Longrightarrow>
   chains_from lookup per'"
  by (induction previous ts per rule: carry_forward.induct)
    (auto simp: ok_iff dest: push_entry_chains split: option.splits if_splits)

definition network_of :: "per_network \<Rightarrow> string \<Rightarrow> manifest_network" where
  "network_of per key =
     (case map_of per key of
        None \<Rightarrow> \<lparr>mn_chain_id = 0, mn_raindexes = []\<rparr>
      | Some (c, rs) \<Rightarrow> \<lparr>mn_chain_id = c, mn_raindexes = sort_key mr_address rs\<rparr>)"

lemma push_all_Ok:
  assumes "push_all key rs m = Ok m'" "lm_networks m = ns @ [(key, n)]" "key \<notin> fst ` set ns"
  shows "m' = m\<lparr>lm_networks := ns @ [(key, n\<lparr>mn_raindexes := mn_raindexes n @ rs\<rparr>)]\<rparr>"
  using assms
proof (induction rs arbitrary: m n)
  case Nil
  then show ?case by (cases m) simp
next
  case (Cons r rs)
  let ?n = "network_push_raindex r n"
  have "map (\<lambda>(k, n). (k, if k = key then network_push_raindex r n else n)) ns = ns"
    using Cons.prems(3) by (intro map_idI) (auto simp: image_iff)
  then have "push_raindex key r m = Ok (m\<lparr>lm_networks := ns @ [(key, ?n)]\<rparr>)"
    using Cons.prems(2,3) by (auto simp: push_raindex_def map_add_def map_of_eq_None_iff split: option.splits)
  with Cons.prems have "push_all key rs (m\<lparr>lm_networks := ns @ [(key, ?n)]\<rparr>) = Ok m'" by simp
  from Cons.IH[OF this _ Cons.prems(3)] show ?case by (simp add: network_push_raindex_def)
qed

lemma add_networks_Ok:
  assumes "add_networks per keys m = Ok m'" "set keys \<subseteq> fst ` set per" "distinct keys"
    and "set keys \<inter> fst ` set (lm_networks m) = {}"
  shows "m' = m\<lparr>lm_networks := lm_networks m @ map (\<lambda>k. (k, network_of per k)) keys\<rparr>"
  using assms
proof (induction keys arbitrary: m)
  case Nil
  then show ?case by simp
next
  case (Cons k ks)
  obtain c rs where k: "map_of per k = Some (c, rs)"
    using Cons.prems(2) by (cases "map_of per k") (auto simp: map_of_eq_None_iff)
  let ?m1 = "m\<lparr>lm_networks := lm_networks m @ [(k, \<lparr>mn_chain_id = c, mn_raindexes = []\<rparr>)]\<rparr>"
  obtain m2 where m1: "add_network k c m = Ok ?m1"
    and push: "push_all k (sort_key mr_address rs) ?m1 = Ok m2"
    and rest: "add_networks per ks m2 = Ok m'"
    using Cons.prems(1) k by (auto simp: ok_iff add_network_def split: if_splits)
  have m2: "m2 = m\<lparr>lm_networks := lm_networks m @ [(k, network_of per k)]\<rparr>"
    using push_all_Ok[OF push, of "lm_networks m"] Cons.prems(4) k by (simp add: network_of_def)
  show ?case using Cons.IH[OF rest] Cons.prems unfolding m2 by auto
qed

lemma build_manifest_Ok:
  assumes "build_manifest T yaml_text successes exports lookup base_url previous = Ok m"
  obtains per0 per where "record_exports T base_url exports lookup successes [] = Ok per0"
    and "carry_forward previous lookup per0 = Ok per" and "chains_from lookup per"
    and "m = manifest_new\<lparr>lm_networks := map (\<lambda>k. (k, network_of per k)) (sort (map fst per))\<rparr>"
    and "add_networks per (sort (map fst per)) manifest_new = Ok m"
proof -
  from assms obtain per0 per where per0: "record_exports T base_url exports lookup successes [] = Ok per0"
    and per: "carry_forward previous lookup per0 = Ok per"
    and m: "add_networks per (sort (map fst per)) manifest_new = Ok m"
    by (auto simp: build_manifest_def ok_iff)
  have "chains_from lookup []" by (simp add: chains_from_def)
  from record_exports_chains[OF per0 this] carry_forward_chains[OF per] have ch: "chains_from lookup per"
    by blast
  then have "distinct (map fst per)" by (simp add: chains_from_def)
  then have "m = manifest_new\<lparr>lm_networks := map (\<lambda>k. (k, network_of per k)) (sort (map fst per))\<rparr>"
    using add_networks_Ok[OF m] by (simp add: manifest_new_def)
  from that[OF per0 per ch this m] show ?thesis .
qed

lemma find_filter: "find P xs = (case filter P xs of [] \<Rightarrow> None | y # _ \<Rightarrow> Some y)"
  by (induction xs) auto

lemma find_sort_key: "find (\<lambda>x. f x = k) (sort_key f xs) = find (\<lambda>x. f x = k) xs"
  by (simp only: find_filter sort_key_stable)

lemma find_network:
  assumes "\<And>k n. (k, n) \<in> set ns \<Longrightarrow> mn_chain_id n = c \<longleftrightarrow> k = key" "distinct (map fst ns)"
  shows "find (\<lambda>n. mn_chain_id n = c) (map snd ns) = map_of ns key"
  using assms
proof (induction ns)
  case (Cons p ns)
  then have IH: "find (\<lambda>n. mn_chain_id n = c) (map snd ns) = map_of ns key" by simp
  have "mn_chain_id (snd p) = c \<longleftrightarrow> fst p = key" using Cons.prems(1)[of "fst p" "snd p"] by simp
  with IH show ?case by (cases p) auto
qed simp

lemma manifest_find_entry:
  assumes "networks_match lookup" "(i, t) \<in> set lookup" "chains_from lookup per"
  shows "manifest_find (m\<lparr>lm_networks := map (\<lambda>k. (k, network_of per k)) (sort (map fst per))\<rparr>)
      (ri_chain_id i) (ri_raindex_address i) = entry_of per (tg_network_key t) (ri_raindex_address i)"
proof -
  let ?ns = "map (\<lambda>k. (k, network_of per k)) (sort (map fst per))"
  have chain: "mn_chain_id n = ri_chain_id i \<longleftrightarrow> k = tg_network_key t" if "(k, n) \<in> set ?ns" for k n
  proof -
    from that have k: "k \<in> fst ` set per" and n: "n = network_of per k" by auto
    then obtain c rs where c: "map_of per k = Some (c, rs)"
      by (cases "map_of per k") (auto simp: map_of_eq_None_iff)
    from assms(3) c obtain j u where ju: "(j, u) \<in> set lookup"
      and eqs: "tg_network_key u = k" "ri_chain_id j = c" by (rule chains_fromD)
    have "mn_chain_id n = c" using n c by (simp add: network_of_def)
    with networks_matchD[OF assms(1,2) ju] eqs show ?thesis by metis
  qed
  have dist: "distinct (map fst ?ns)" using assms(3) by (simp add: chains_from_def comp_def)
  have "find (\<lambda>n. mn_chain_id n = ri_chain_id i) (map snd ?ns) = map_of ?ns (tg_network_key t)"
    by (rule find_network[OF chain dist])
  also have "\<dots> = map_option (\<lambda>_. network_of per (tg_network_key t)) (map_of per (tg_network_key t))"
  proof -
    have "tg_network_key t \<in> set (sort (map fst per)) \<longleftrightarrow> map_of per (tg_network_key t) \<noteq> None"
      by (simp add: map_of_eq_None_iff)
    then show ?thesis
      by (cases "map_of per (tg_network_key t)") (simp_all add: map_of_map_restrict restrict_map_def)
  qed
  finally show ?thesis
    by (simp add: manifest_find_def entry_of_def network_of_def find_sort_key split: option.splits prod.splits)
qed

section \<open>The published manifest\<close>

definition entries_ok :: "text_codec \<Rightarrow> per_network \<Rightarrow> bool" where
  "entries_ok T per \<longleftrightarrow> list_all (\<lambda>(k, c, rs). list_all (raindex_ok T) rs) per"

definition previous_ok :: "text_codec \<Rightarrow> manifest_map \<Rightarrow> bool" where
  "previous_ok T previous \<longleftrightarrow> (\<forall>u m. previous u = Some m \<longrightarrow> manifest_ok T m)"

definition exports_positive :: "exports \<Rightarrow> bool" where
  \<comment> \<open>no dump ends at block or at time zero\<close>
  "exports_positive exports \<longleftrightarrow> list_all (\<lambda>(i, export). case export of
     None \<Rightarrow> True | Some e \<Rightarrow> em_end_block e \<noteq> 0 \<and> em_end_block_time_ms e \<noteq> 0) exports"

lemma push_entry_ok:
  assumes "entries_ok T per" "raindex_ok T r" "push_entry per k c r = Ok per'"
  shows "entries_ok T per'"
  using assms by (auto simp: entries_ok_def push_entry_def list_all_iff split: option.splits if_splits) blast+

lemma exported_entry_ok:
  assumes "codec_laws T" "exports_positive exports" "export_of exports i = Some e"
    and "exported_entry T base_url i e = Ok r"
  shows "raindex_ok T r"
proof -
  have "(i, Some e) \<in> set exports"
    using assms(3) by (auto simp: export_of_def dest: map_of_SomeD split: option.splits)
  then have "em_end_block e \<noteq> 0" "em_end_block_time_ms e \<noteq> 0"
    using assms(2) by (auto simp: exports_positive_def list_all_iff)
  then show ?thesis using assms(4) codec_lawsD[OF assms(1)]
    by (auto simp: exported_entry_def build_dump_url_def raindex_ok_def Let_def ok_iff)
qed

lemma record_exports_ok:
  "codec_laws T \<Longrightarrow> exports_positive exports \<Longrightarrow> entries_ok T per \<Longrightarrow>
   record_exports T base_url exports lookup ss per = Ok per' \<Longrightarrow> entries_ok T per'"
  by (induction T base_url exports lookup ss per rule: record_exports.induct)
    (auto simp: Let_def ok_iff dest: exported_entry_ok push_entry_ok split: option.splits)

lemma previous_entry_ok:
  assumes "previous_ok T previous" "previous_entry previous t i = Some r"
  shows "raindex_ok T r"
proof -
  from assms(2) obtain m n where m: "previous (tg_manifest_url t) = Some m"
    and n: "find (\<lambda>n. mn_chain_id n = ri_chain_id i) (map snd (lm_networks m)) = Some n"
    and r: "find (\<lambda>r. mr_address r = ri_raindex_address i) (mn_raindexes n) = Some r"
    by (auto simp: previous_entry_def manifest_find_def split: option.splits)
  have "n \<in> set (map snd (lm_networks m))" "r \<in> set (mn_raindexes n)"
    using n r by (auto simp: find_Some_iff)
  moreover have "manifest_ok T m" using assms(1) m by (simp add: previous_ok_def)
  ultimately show ?thesis by (fastforce simp: manifest_ok_def network_ok_def list_all_iff)
qed

lemma carry_forward_ok:
  "previous_ok T previous \<Longrightarrow> entries_ok T per \<Longrightarrow> carry_forward previous ts per = Ok per' \<Longrightarrow>
   entries_ok T per'"
  by (induction previous ts per rule: carry_forward.induct)
    (auto simp: ok_iff dest: previous_entry_ok push_entry_ok split: option.splits if_splits)

lemma push_all_ok:
  "manifest_ok T m \<Longrightarrow> list_all (raindex_ok T) rs \<Longrightarrow> push_all k rs m = Ok m' \<Longrightarrow> manifest_ok T m'"
  by (induction k rs m rule: push_all.induct) (auto simp: ok_iff dest: push_raindex_ok)

lemma add_networks_ok:
  "entries_ok T per \<Longrightarrow> manifest_ok T m \<Longrightarrow> add_networks per keys m = Ok m' \<Longrightarrow> manifest_ok T m'"
proof (induction per keys m rule: add_networks.induct)
  case (2 per k ks m)
  show ?case
  proof (cases "map_of per k")
    case (Some n)
    then obtain c rs where n: "n = (c, rs)" "(k, c, rs) \<in> set per"
      by (cases n) (auto dest: map_of_SomeD)
    then have rs: "list_all (raindex_ok T) (sort_key mr_address rs)"
      using "2.prems"(1) by (auto simp: entries_ok_def list_all_iff)
    from "2.prems"(3) Some n obtain m1 m2 where "add_network k c m = Ok m1"
      "push_all k (sort_key mr_address rs) m1 = Ok m2" "add_networks per ks m2 = Ok m'"
      by (auto simp: ok_iff)
    moreover from this have "manifest_ok T m2"
      using add_network_ok[OF "2.prems"(2)] push_all_ok[OF _ rs] by blast
    ultimately show ?thesis using "2.IH"(2)[OF Some n(1)[symmetric]] "2.prems"(1) by blast
  qed (use 2 in auto)
qed auto

lemma map_of_same_keys:
  "map fst xs = map fst ys \<Longrightarrow> map_of xs = map_of ys \<Longrightarrow> distinct (map fst xs) \<Longrightarrow> xs = ys"
proof (induction xs arbitrary: ys)
  case (Cons p xs)
  then obtain q zs where ys: "ys = q # zs" by (cases ys) auto
  with Cons.prems have k: "fst q = fst p" by simp
  have v: "snd q = snd p" using fun_cong[OF Cons.prems(2), of "fst p"] ys k by simp
  have "map_of xs x = map_of zs x" for x
  proof (cases "x = fst p")
    case True
    have "fst ` set xs = fst ` set zs" using Cons.prems(1) ys by (metis list.sel(3) map_tl set_map)
    moreover have "fst p \<notin> fst ` set xs" using Cons.prems(3) by simp
    ultimately have "map_of xs x = None" "map_of zs x = None" using True by (simp_all add: map_of_eq_None_iff)
    then show ?thesis by simp
  next
    case False
    then show ?thesis using fun_cong[OF Cons.prems(2), of x] ys k by simp
  qed
  then have "xs = zs" using Cons.IH[of zs] Cons.prems ys by auto
  then show ?case using ys k v by (simp add: prod_eq_iff)
qed simp

lemma built_manifest_reads_back:
  assumes "codec_laws T" "previous_ok T previous" "exports_positive exports"
    and build: "build_manifest T yaml_text successes exports lookup base_url previous = Ok m"
  shows "parse_manifest_doc T (to_yaml_node T m) = Ok m"
proof -
  from build obtain per0 per where per0: "record_exports T base_url exports lookup successes [] = Ok per0"
    and per: "carry_forward previous lookup per0 = Ok per" and "chains_from lookup per"
    and m: "m = manifest_new\<lparr>lm_networks := map (\<lambda>k. (k, network_of per k)) (sort (map fst per))\<rparr>"
    and add: "add_networks per (sort (map fst per)) manifest_new = Ok m" by (rule build_manifest_Ok)
  have "entries_ok T []" by (simp add: entries_ok_def)
  with assms per0 per have "entries_ok T per" by (blast intro: record_exports_ok carry_forward_ok)
  then have ok: "manifest_ok T m" using add by (rule add_networks_ok[OF _ manifest_new_ok])
  from manifest_parses_back[OF ok] obtain networks where
    p: "parse_manifest_doc T (to_yaml_node T m) = Ok (m\<lparr>lm_networks := networks\<rparr>)"
    and eq: "map_of networks = map_of (lm_networks m)" "map fst networks = sort (map fst (lm_networks m))"
    by blast
  have "map fst (lm_networks m) = sort (map fst per)" unfolding m by (simp add: comp_def)
  then have "map fst networks = map fst (lm_networks m)" using eq(2) by (simp only: sorted_sort_id[OF sorted_sort])
  moreover have "distinct (map fst (lm_networks m))" using ok by (simp add: manifest_ok_def)
  ultimately have "networks = lm_networks m" using eq(1) by (intro map_of_same_keys) simp_all
  with p show ?thesis by simp
qed

lemma built_manifest_entry:
  assumes "networks_match lookup" "distinct (map fst lookup)" "map_of lookup i = Some t"
    and build: "build_manifest T yaml_text successes exports lookup base_url previous = Ok m"
  shows "manifest_find m (ri_chain_id i) (ri_raindex_address i) =
    published T base_url exports successes previous i t"
proof -
  from build obtain per0 per where per0: "record_exports T base_url exports lookup successes [] = Ok per0"
    and per: "carry_forward previous lookup per0 = Ok per" and ch: "chains_from lookup per"
    and m: "m = manifest_new\<lparr>lm_networks := map (\<lambda>k. (k, network_of per k)) (sort (map fst per))\<rparr>"
    by (rule build_manifest_Ok)
  have it: "(i, t) \<in> set lookup" using assms(3) by (rule map_of_SomeD)
  have "entry_of per0 (tg_network_key t) (ri_raindex_address i) = recorded T base_url exports successes i"
    using record_exports_entry[OF assms(1,3) per0] by (simp add: entry_of_def)
  then have "entry_of per (tg_network_key t) (ri_raindex_address i) =
      published T base_url exports successes previous i t"
    using carry_forward_entry[OF assms(1) it assms(2) subset_refl per assms(2)] it
    by (simp add: published_def)
  then show ?thesis unfolding m by (simp add: manifest_find_entry[OF assms(1) it ch])
qed

section \<open>A run, from the targets to the clients\<close>

definition named_targets :: "runner_target list \<Rightarrow> target_lookup" where
  "named_targets targets = map (\<lambda>t. (target_id t, t)) targets"

lemma target_lookup_distinct:
  assumes "distinct (map target_id targets)"
  shows "target_lookup_of targets = named_targets targets"
proof -
  have "distinct (map fst m @ map target_id ts) \<Longrightarrow>
      fold (\<lambda>t m. map_insert (target_id t) t m) ts m = m @ named_targets ts" for ts and m :: target_lookup
  proof (induction ts arbitrary: m)
    case (Cons t ts)
    then have "filter (\<lambda>e. fst e \<noteq> target_id t) m = m" by (intro filter_True) (force simp: image_iff)
    then have "map_insert (target_id t) t m = m @ [(target_id t, t)]" by (simp add: map_insert_def)
    with Cons show ?case by (simp add: named_targets_def)
  qed (simp add: named_targets_def)
  from this[of "[]" targets] assms show ?thesis by (simp add: target_lookup_of_def)
qed

lemma run_raindex_job_id:
  "run_raindex_job wasm E manifests t w = (r, w') \<Longrightarrow>
   (case r of Ok (out, _) \<Rightarrow> so_raindex_id out | Err f \<Rightarrow> tf_raindex_id f) = target_id t"
  by (auto simp: run_raindex_job_def io_bind_def io_return_def io_pure_def io_map_err_def Let_def map_err_Err_iff
      dest!: engine_run_id split: option.splits prod.splits result.splits)

lemma producer_run_Ok:
  assumes "producer_run wasm E w = (Ok report, w')"
    and "pe_fetch_manifests E (pe_raindexes E) w = (Ok manifests, w1)"
  obtains results w2 m where
    "io_map_all (run_raindex_job wasm E manifests) (pe_targets E) w1 = (results, w2)"
    "report = \<lparr>pr_successes = map fst (oks results), pr_failures = errs results,
       pr_exports = collect_exports (oks results)\<rparr>"
    "build_manifest (pe_codec E) (pe_yaml_text E) (pr_successes report) (pr_exports report)
       (target_lookup_of (pe_targets E)) (pe_release_base_url E) manifests = Ok m"
    "if lm_networks m = [] then w' = w2 else pe_write_manifest E (to_yaml_node (pe_codec E) m)
       (pe_out_root E @ ''/manifest.yaml'') w2 = (Ok (), w')"
proof -
  obtain results w2 where r: "io_map_all (run_raindex_job wasm E manifests) (pe_targets E) w1 = (results, w2)"
    by (cases "io_map_all (run_raindex_job wasm E manifests) (pe_targets E) w1")
  with assms show ?thesis
    by (auto simp: producer_run_def Let_def io_bind_def io_return_def
        intro!: that[OF r] split: prod.splits result.splits if_splits)
qed

text \<open>
  Claim C21. What a run of the producer publishes is what clients find: the manifest it writes (it
  writes none when there is no network to list) parses back to itself, and a client that looks up a
  target in it gets the entry of the dump made in this run if there is one, with the dump's end
  block, hash, time and URL, and otherwise, when the target failed or exported nothing, the
  entry of the manifest published before. This is for targets with distinct identities whose network
  names and chain ids correspond one to one (two networks of one chain would share an entry list of the
  manifest), dumps that end at a positive block and time, manifests before that parse, and a codec
  that reads back the addresses and hashes it prints.
\<close>
theorem published_dump_is_served:
  assumes "producer_run wasm E w = (Ok report, w')"
    and "pe_fetch_manifests E (pe_raindexes E) w = (Ok manifests, w1)"
    and "codec_laws (pe_codec E)" "previous_ok (pe_codec E) manifests" "exports_positive (pr_exports report)"
    and "distinct (map target_id (pe_targets E))" "networks_match (named_targets (pe_targets E))"
    and "t \<in> set (pe_targets E)"
  shows "\<exists>m. (lm_networks m = [] \<or> (\<exists>w2. pe_write_manifest E (to_yaml_node (pe_codec E) m)
        (pe_out_root E @ ''/manifest.yaml'') w2 = (Ok (), w'))) \<and>
    parse_manifest_doc (pe_codec E) (to_yaml_node (pe_codec E) m) = Ok m \<and>
    lookup_manifest_entry (\<lambda>_. Some m) t =
      published (pe_codec E) (pe_release_base_url E) (pr_exports report) (pr_successes report) manifests
        (target_id t) t"
proof -
  from assms(1,2) obtain m w2 where
    build: "build_manifest (pe_codec E) (pe_yaml_text E) (pr_successes report) (pr_exports report)
      (target_lookup_of (pe_targets E)) (pe_release_base_url E) manifests = Ok m"
    and written: "if lm_networks m = [] then w' = w2 else pe_write_manifest E (to_yaml_node (pe_codec E) m)
      (pe_out_root E @ ''/manifest.yaml'') w2 = (Ok (), w')" by (rule producer_run_Ok)
  have lookup: "target_lookup_of (pe_targets E) = named_targets (pe_targets E)"
    using assms(6) by (rule target_lookup_distinct)
  have dist: "distinct (map fst (named_targets (pe_targets E)))"
    using assms(6) by (simp add: named_targets_def comp_def)
  moreover have "(target_id t, t) \<in> set (named_targets (pe_targets E))"
    using assms(8) by (auto simp: named_targets_def)
  ultimately have t: "map_of (named_targets (pe_targets E)) (target_id t) = Some t" by simp
  have "parse_manifest_doc (pe_codec E) (to_yaml_node (pe_codec E) m) = Ok m"
    using built_manifest_reads_back[OF assms(3-5) build] .
  moreover have "lookup_manifest_entry (\<lambda>_. Some m) t = published (pe_codec E) (pe_release_base_url E)
      (pr_exports report) (pr_successes report) manifests (target_id t) t"
    using built_manifest_entry[OF assms(7) dist t build[unfolded lookup]]
    by (simp add: lookup_manifest_entry_def)
  ultimately show ?thesis using written by (metis (full_types))
qed

text \<open>
  No target of the producer is lost: when the manifests could be fetched, the report has
  exactly one success or failure for every target, whichever of download, engine and export failed.
\<close>
lemma producer_reports_every_target:
  assumes "producer_run wasm E w = (Ok report, w')"
    and "pe_fetch_manifests E (pe_raindexes E) w = (Ok manifests, w1)"
  shows "image_mset so_raindex_id (mset (pr_successes report)) +
    image_mset tf_raindex_id (mset (pr_failures report)) = mset (map target_id (pe_targets E))"
proof -
  from assms obtain results w2 where
    run: "io_map_all (run_raindex_job wasm E manifests) (pe_targets E) w1 = (results, w2)"
    and report: "report = \<lparr>pr_successes = map fst (oks results), pr_failures = errs results,
       pr_exports = collect_exports (oks results)\<rparr>" by (rule producer_run_Ok)
  have "map (case_result (so_raindex_id \<circ> fst) tf_raindex_id) results = map target_id (pe_targets E)"
    using io_map_all_results[OF run]
    by (induction rule: list_all2_induct) (auto dest!: run_raindex_job_id split: result.splits prod.splits)
  then show ?thesis using mset_oks_errs[of "so_raindex_id \<circ> fst" results tf_raindex_id]
    by (simp add: report image_mset.compositionality)
qed

section \<open>A run in which the only target fails\<close>

definition kept_manifest :: local_db_manifest where
  "kept_manifest = manifest_new\<lparr>lm_networks := [(''base'', \<lparr>mn_chain_id = 1, mn_raindexes = [example_entry]\<rparr>)]\<rparr>"

definition kept_env :: "string list producer_env" where
  "kept_env = \<lparr>pe_raindexes = [], pe_targets = [example_target], pe_out_root = ''out'',
     pe_release_base_url = ''https://r/'', pe_codec = plain_codec, pe_yaml_text = (\<lambda>_. []),
     pe_fetch_manifests = (\<lambda>_ w. (Ok [''https://m'' \<mapsto> kept_manifest], w)),
     pe_download_dump = (\<lambda>_ w. (Ok ''dump'', w)), pe_build_engine = (\<lambda>_. Err Invalid_Bootstrap_Implementation),
     pe_create_dir = (\<lambda>_ w. (Ok (), w)), pe_remove_db = (\<lambda>_ w. (Ok (), w)),
     pe_open_db = (\<lambda>_. example_bootstrap_db None),
     pe_open_export = (\<lambda>_. \<lparr>xd_columns = (\<lambda>_ w. (Ok [], w)), xd_rows = (\<lambda>_ w. (Ok [], w)),
       xd_json_text = (\<lambda>_. []), xd_error_text = (\<lambda>_. [])\<rparr>),
     pe_write_gz = (\<lambda>_ _ w. (Ok (), w)), pe_write_manifest = (\<lambda>_ path w. (Ok (), path # w))\<rparr>"

definition kept_report :: producer_report where
  "kept_report = \<lparr>pr_successes = [], pr_failures = [\<lparr>tf_raindex_id = target_id example_target,
     tf_raindex_key = Some ''a'', tf_stage = Engine_Build, tf_error = Invalid_Bootstrap_Implementation\<rparr>], pr_exports = []\<rparr>"

lemma kept_fetch: "pe_fetch_manifests kept_env (pe_raindexes kept_env) w = (Ok [''https://m'' \<mapsto> kept_manifest], w)"
  by (simp add: kept_env_def)

lemma kept_job: "run_raindex_job False kept_env [''https://m'' \<mapsto> kept_manifest] example_target w =
    (Err \<lparr>tf_raindex_id = target_id example_target, tf_raindex_key = Some ''a'', tf_stage = Engine_Build,
       tf_error = Invalid_Bootstrap_Implementation\<rparr>, w)"
  by (simp add: run_raindex_job_def kept_env_def db_path_for_target_def lookup_manifest_entry_def io_defs
      kept_manifest_def manifest_find_def example_target_def example_entry_def Let_def)

lemma kept_build: "build_manifest plain_codec (\<lambda>_. []) [] [] [(target_id example_target, example_target)]
    ''https://r/'' [''https://m'' \<mapsto> kept_manifest] = Ok kept_manifest"
proof -
  have "trim ''base'' \<noteq> []" by code_simp
  then show ?thesis
    by (simp add: build_manifest_def already_recorded_def previous_entry_def kept_manifest_def manifest_new_def
        manifest_find_def example_target_def example_entry_def push_entry_def add_network_def
        push_raindex_def network_push_raindex_def)
qed

lemma kept_run: "producer_run False kept_env w = (Ok kept_report, ''out/manifest.yaml'' # w)"
proof -
  have targets: "pe_targets kept_env = [example_target]" by (simp add: kept_env_def)
  have "target_lookup_of [example_target] = [(target_id example_target, example_target)]"
    by (simp add: target_lookup_of_def map_insert_def)
  then show ?thesis
    using kept_build by (simp add: producer_run_def kept_fetch targets kept_job Let_def kept_report_def
        collect_exports_def) (simp add: kept_env_def kept_manifest_def io_defs)
qed

lemma kept_previous: "previous_ok plain_codec [''https://m'' \<mapsto> kept_manifest]"
proof -
  have "trim ''base'' \<noteq> []" by code_simp
  moreover have "raindex_ok plain_codec example_entry"
    using codec_lawsD(1,2)[OF plain_codec_laws]
    by (simp add: raindex_ok_def example_entry_def) (simp add: plain_codec_def)
  ultimately have "manifest_ok plain_codec kept_manifest"
    by (simp add: manifest_ok_def kept_manifest_def manifest_new_def network_ok_def)
  then show ?thesis by (simp add: previous_ok_def)
qed

theorem published_dump_is_served_witness:
  "\<exists>m. parse_manifest_doc plain_codec (to_yaml_node plain_codec m) = Ok m \<and>
     lookup_manifest_entry (\<lambda>_. Some m) example_target = Some example_entry"
proof -
  have pub: "published plain_codec ''https://r/'' (pr_exports kept_report) (pr_successes kept_report)
      [''https://m'' \<mapsto> kept_manifest] (target_id example_target) example_target = Some example_entry"
    by (simp add: published_def recorded_def kept_report_def previous_entry_def kept_manifest_def manifest_find_def
        example_target_def example_entry_def)
  have env: "pe_codec kept_env = plain_codec" "pe_targets kept_env = [example_target]"
    "pe_release_base_url kept_env = ''https://r/''" by (simp_all add: kept_env_def)
  have pos: "exports_positive (pr_exports kept_report)" by (simp add: exports_positive_def kept_report_def)
  have match: "networks_match (named_targets [example_target])"
    by (simp add: networks_match_def named_targets_def)
  show ?thesis
    using published_dump_is_served[OF kept_run[of "[]"] kept_fetch, where t = example_target, unfolded env pub]
      plain_codec_laws kept_previous pos match by auto
qed

lemma producer_reports_every_target_example:
  "image_mset so_raindex_id (mset (pr_successes kept_report)) +
   image_mset tf_raindex_id (mset (pr_failures kept_report)) = mset (map target_id (pe_targets kept_env))"
  using producer_reports_every_target[OF kept_run[of "[]"] kept_fetch] .

end
