(* ===== verification/Settings_Emit.thy ===== *)
theory Settings_Emit
  imports Settings_Sanitize
begin

text \<open>
  Printing the documents of the settings as one (\<open>settings/src/yaml/emitter.rs\<close>): the documents are merged,
  the later ones counting more, and the sections are written in a fixed order. The printer of the YAML
  library is an argument.
\<close>

section \<open>Printing the documents as one\<close>

definition canonical_root_keys :: "string list" where
  "canonical_root_keys = [''version'', ''sentry'', ''networks'', ''subgraphs'', ''metaboards'', ''tokens'',
     ''rainlangs'', ''raindexes'', ''orders'', ''scenarios'', ''deployments'', ''charts'', ''builder'', ''accounts'',
     ''remote-networks'', ''remote-tokens'', ''local-db-remotes'', ''local-db-syncs'']"

function deep_merge_hash :: "yaml_hash \<Rightarrow> yaml_hash \<Rightarrow> yaml_hash" where
  "deep_merge_hash base [] = base"
| "deep_merge_hash base ((key, value) # incoming) =
     deep_merge_hash
       (hash_insert key
         (case (hash_get key base, value) of
            (Some (Yaml_Hash existing_hash), Yaml_Hash incoming_hash) \<Rightarrow>
              Yaml_Hash (deep_merge_hash existing_hash incoming_hash)
          | _ \<Rightarrow> value) base) incoming"
  by pat_completeness auto

termination deep_merge_hash
  by (relation "measure (\<lambda>(base, incoming). size_list (size_prod size size) incoming)") auto

definition merge_documents :: "strict_yaml list \<Rightarrow> yaml_hash" where
  "merge_documents documents = fold (\<lambda>document merged_hash. case document of
       Yaml_Hash h \<Rightarrow> deep_merge_hash merged_hash h | _ \<Rightarrow> merged_hash) documents []"

definition ordered_root :: "yaml_hash \<Rightarrow> yaml_hash" where
  "ordered_root merged_hash = snd (fold (\<lambda>key (merged_hash, ordered_hash).
     case hash_get (Yaml_String key) merged_hash of
       Some value \<Rightarrow> (hash_remove (Yaml_String key) merged_hash, hash_insert (Yaml_String key) value ordered_hash)
     | None \<Rightarrow> (merged_hash, ordered_hash)) canonical_root_keys (merged_hash, []))"

definition emitted_document :: "strict_yaml list \<Rightarrow> strict_yaml" where
  "emitted_document documents = Yaml_Hash (ordered_root (merge_documents documents))"

function trim_start_matches :: "string \<Rightarrow> string \<Rightarrow> string" where
  "trim_start_matches pat s =
     (if pat = [] then s else case strip_prefix pat s of Some r \<Rightarrow> trim_start_matches pat r | None \<Rightarrow> s)"
  by pat_completeness auto

termination trim_start_matches
  by (relation "measure (\<lambda>(p, s). length s)") (auto simp: strip_prefix_Some)

definition yaml_text :: "(strict_yaml \<Rightarrow> (string, ext_error) result) \<Rightarrow> strict_yaml \<Rightarrow> (string, yaml_error) result" where
  "yaml_text dump document =
     rbind (map_err Emit_Error (dump document)) (\<lambda>out_str.
     Ok (if strip_prefix ''---'' out_str \<noteq> None then trim_start (trim_start_matches ''---'' out_str) else out_str))"

definition emit_documents :: "(strict_yaml \<Rightarrow> (string, ext_error) result) \<Rightarrow> strict_yaml list \<Rightarrow> (string, yaml_error) result" where
  "emit_documents dump documents = yaml_text dump (emitted_document documents)"

section \<open>What the printed document says\<close>

inductive unique_keys :: "strict_yaml \<Rightarrow> bool" where
  \<comment> \<open>the hash maps of the loader: no key twice, at any depth of maps\<close>
  "unique_keys (Yaml_String s)"
| "unique_keys (Yaml_Array xs)"
| "unique_keys Bad_Value"
| "distinct (map fst h) \<Longrightarrow> (\<And>k v. (k, v) \<in> set h \<Longrightarrow> unique_keys v) \<Longrightarrow> unique_keys (Yaml_Hash h)"

inductive_simps unique_keys_Hash [simp]: "unique_keys (Yaml_Hash h)"

fun settles :: "strict_yaml \<Rightarrow> string list \<Rightarrow> string option option" where
  \<comment> \<open>what a document says of a path: nothing, or that there is this string or none\<close>
  "settles (Yaml_Hash h) [] = Some None"
| "settles (Yaml_Hash h) (k # path) =
     (case hash_get (Yaml_String k) h of None \<Rightarrow> None | Some v \<Rightarrow> settles v path)"
| "settles (Yaml_String s) [] = Some (Some s)"
| "settles v path = Some None"

definition setting :: "strict_yaml \<Rightarrow> string list \<Rightarrow> string option" where
  "setting doc path = (case settles doc path of None \<Rightarrow> None | Some r \<Rightarrow> r)"

lemma setting_Hash [simp]:
  "setting (Yaml_Hash h) [] = None"
  "setting (Yaml_Hash h) (k # path) =
     (case hash_get (Yaml_String k) h of None \<Rightarrow> None | Some v \<Rightarrow> setting v path)"
  by (simp_all add: setting_def split: option.split)

lemma setting_string [simp]: "setting v [] = as_str v" "as_hash v = None \<Longrightarrow> setting v (k # path) = None"
  by (cases v; simp add: setting_def)+

lemma as_hash_None: "as_hash v = None \<longleftrightarrow> (\<forall>h. v \<noteq> Yaml_Hash h)"
  by (cases v) auto

definition merged_value :: "strict_yaml option \<Rightarrow> strict_yaml \<Rightarrow> strict_yaml" where
  "merged_value existing value = (case (existing, value) of
     (Some (Yaml_Hash existing_hash), Yaml_Hash incoming_hash) \<Rightarrow> Yaml_Hash (deep_merge_hash existing_hash incoming_hash)
   | _ \<Rightarrow> value)"

lemma deep_merge_Cons:
  "deep_merge_hash base ((key, v) # incoming) =
     deep_merge_hash (hash_insert key (merged_value (hash_get key base) v) base) incoming"
  by (simp add: merged_value_def)

lemma plain_value:
  assumes "as_hash v = None"
  shows "merged_value b v = v" "settles v path = Some (setting v path)"
  using assms by (cases v; cases path; simp add: merged_value_def setting_def split: option.split strict_yaml.split)+

lemma deep_merge_get:
  "distinct (map fst incoming) \<Longrightarrow> hash_get k (deep_merge_hash base incoming) =
     (case hash_get k incoming of None \<Rightarrow> hash_get k base | Some v \<Rightarrow> Some (merged_value (hash_get k base) v))"
proof (induction incoming arbitrary: base)
  case (Cons e incoming)
  obtain key v where e: "e = (key, v)" by force
  have "hash_get key incoming = None"
    using Cons.prems by (auto simp: e hash_get_def map_of_eq_None_iff)
  with Cons show ?case
    by (simp add: e deep_merge_Cons hash_get_def[of _ "(key, v) # incoming"] flip: hash_get_def
        del: deep_merge_hash.simps split: option.split)
qed simp

lemma merged_setting:
  assumes "unique_keys (Yaml_Hash incoming)"
  shows "setting (Yaml_Hash (deep_merge_hash base incoming)) path =
    (case settles (Yaml_Hash incoming) path of None \<Rightarrow> setting (Yaml_Hash base) path | Some r \<Rightarrow> r)"
  using assms
proof (induction path arbitrary: base incoming)
  case (Cons k path)
  let ?k = "Yaml_String k"
  show ?case
  proof (cases "hash_get ?k incoming")
    case None
    with Cons.prems show ?thesis by (simp add: deep_merge_get)
  next
    case (Some v)
    then have "unique_keys v" using Cons.prems by (auto simp: hash_get_def dest: map_of_SomeD)
    have "setting (merged_value (hash_get ?k base) v) path = (case settles v path of
        None \<Rightarrow> (case hash_get ?k base of None \<Rightarrow> None | Some b \<Rightarrow> setting b path) | Some r \<Rightarrow> r)"
    proof (cases "as_hash v")
      case None
      then show ?thesis by (simp add: plain_value)
    next
      case (Some h)
      then have v: "v = Yaml_Hash h" by (cases v) auto
      show ?thesis
      proof (cases "\<exists>g. hash_get ?k base = Some (Yaml_Hash g)")
        case True
        with Cons.IH \<open>unique_keys v\<close> show ?thesis by (auto simp: v merged_value_def split: option.split)
      next
        case False
        then have "(case hash_get ?k base of None \<Rightarrow> None | Some b \<Rightarrow> setting b path) = None" if "path \<noteq> []"
          using that by (cases path) (auto split: option.split simp: as_hash_None)
        moreover have "merged_value (hash_get ?k base) v = v"
          using False by (auto simp: merged_value_def v split: option.split strict_yaml.split)
        ultimately show ?thesis
          by (cases path) (auto simp: v setting_def split: option.splits)
      qed
    qed
    with Some Cons.prems show ?thesis by (simp add: deep_merge_get split: option.split)
  qed
qed simp

definition last_word :: "strict_yaml list \<Rightarrow> string list \<Rightarrow> string option" where
  \<comment> \<open>the reference: the last document that is a map and says something of the path\<close>
  "last_word docs path =
     (case List.map_filter (\<lambda>d. if as_hash d = None then None else settles d path) (rev docs) of
        [] \<Rightarrow> None | r # _ \<Rightarrow> r)"

lemma merge_documents_snoc:
  "merge_documents (docs @ [d]) =
     (case as_hash d of None \<Rightarrow> merge_documents docs | Some h \<Rightarrow> deep_merge_hash (merge_documents docs) h)"
  by (cases d) (simp_all add: merge_documents_def)

lemma merged_documents_setting:
  "list_all unique_keys docs \<Longrightarrow> setting (Yaml_Hash (merge_documents docs)) (k # path) = last_word docs (k # path)"
proof (induction docs rule: rev_induct)
  case (snoc d docs)
  then have IH: "setting (Yaml_Hash (merge_documents docs)) (k # path) = last_word docs (k # path)" by simp
  show ?case
  proof (cases "as_hash d")
    case None
    with IH show ?thesis by (simp add: merge_documents_snoc last_word_def map_filter_simps)
  next
    case (Some h)
    then have d: "d = Yaml_Hash h" by (cases d) auto
    with snoc.prems have "unique_keys (Yaml_Hash h)" by simp
    from merged_setting[OF this, of "merge_documents docs" "k # path"] IH show ?thesis
      by (simp add: merge_documents_snoc d last_word_def map_filter_simps del: setting_Hash settles.simps
          split: option.split)
  qed
qed (simp add: merge_documents_def last_word_def map_filter_simps)

lemma ordered_fold:
  "hash_get (Yaml_String k) (snd (fold (\<lambda>key (m, ordered_hash).
     case hash_get (Yaml_String key) m of
       Some v \<Rightarrow> (hash_remove (Yaml_String key) m, hash_insert (Yaml_String key) v ordered_hash)
     | None \<Rightarrow> (m, ordered_hash)) keys (m, ordered_hash))) =
   (if k \<in> set keys \<and> hash_get (Yaml_String k) m \<noteq> None then hash_get (Yaml_String k) m
    else hash_get (Yaml_String k) ordered_hash)"
  by (induction keys arbitrary: m ordered_hash) (auto simp: hash_get_remove split: option.splits)

lemma ordered_root_get:
  "hash_get (Yaml_String k) (ordered_root m) =
     (if k \<in> set canonical_root_keys then hash_get (Yaml_String k) m else None)"
  by (simp add: ordered_root_def ordered_fold del: fold.simps)

text \<open>
  The printed document says, at every path, what the last document says that settles the path,
  provided the path starts at one of the root keys the printer knows; of any other root key it says nothing.
\<close>
lemma emitted_settings:
  assumes "list_all unique_keys docs"
  shows "setting (emitted_document docs) (k # path) =
    (if k \<in> set canonical_root_keys then last_word docs (k # path) else None)"
  using merged_documents_setting[OF assms, of k path]
  by (simp add: emitted_document_def ordered_root_get)

lemma emitted_settings_example:
  "\<forall>field. setting (emitted_document
     [Yaml_Hash [(Yaml_String ''networks'', Yaml_Hash [(Yaml_String ''base'', Yaml_Hash
        [(Yaml_String ''chain-id'', Yaml_String ''1''), (Yaml_String ''label'', Yaml_String ''Base'')])])],
      Yaml_Hash [(Yaml_String ''networks'', Yaml_Hash [(Yaml_String ''base'', Yaml_Hash
        [(Yaml_String ''chain-id'', Yaml_String ''8453'')])])]])
     [''networks'', ''base'', field] =
   (if field = ''chain-id'' then Some ''8453'' else if field = ''label'' then Some ''Base'' else None)"
  by (rule allI, subst emitted_settings) (auto simp: unique_keys.intros canonical_root_keys_def last_word_def map_filter_simps hash_get_def)

section \<open>Printing one document\<close>

lemma emitted_index:
  assumes "unique_keys (Yaml_Hash h)"
  shows "yaml_index (emitted_document [Yaml_Hash h]) k =
    (if k \<in> set canonical_root_keys then yaml_index (Yaml_Hash h) k else Bad_Value)"
  using assms
  by (auto simp: emitted_document_def ordered_root_get merge_documents_def deep_merge_get merged_value_def split: option.split)

lemma entries_of_one: "section_entries s d = section_entries s d' \<Longrightarrow> all_entries s [d] = all_entries s [d']"
  by simp

lemma same_sections:
  assumes same: "\<And>s. s \<in> set canonical_root_keys \<Longrightarrow> yaml_index d' s = yaml_index d s"
  shows "parse_all_networks T remote [d'] = parse_all_networks T remote [d]"
    "parse_all_subgraphs T [d'] = parse_all_subgraphs T [d]"
    "parse_all_metaboards T [d'] = parse_all_metaboards T [d]"
    "parse_all_remotes T [d'] = parse_all_remotes T [d]"
    "parse_all_tokens T remote tokens [d'] = parse_all_tokens T remote tokens [d]"
    "parse_all_rainlangs T remote [d'] = parse_all_rainlangs T remote [d]"
    "parse_all_raindexes T remote [d'] = parse_all_raindexes T remote [d]"
proof -
  have entries: "all_entries s [d'] = all_entries s [d]" if "s \<in> set canonical_root_keys" for s
    by (rule entries_of_one section_entries_cong same that)+
  have key: "''networks'' \<in> set canonical_root_keys" "''subgraphs'' \<in> set canonical_root_keys"
    "''metaboards'' \<in> set canonical_root_keys" "''tokens'' \<in> set canonical_root_keys"
    "''rainlangs'' \<in> set canonical_root_keys" "''raindexes'' \<in> set canonical_root_keys"
    "''local-db-remotes'' \<in> set canonical_root_keys"
    by (simp_all add: canonical_root_keys_def)
  show networks: "parse_all_networks T remote [d'] = parse_all_networks T remote [d]"
    by (rule networks_same_section entries key)+
  have collect: "collect_documents s l p [d'] m = collect_documents s l p [d] m" if "s \<in> set canonical_root_keys" for s l p m
    by (simp only: collect_documents_entries entries[OF that])
  show remotes: "parse_all_remotes T [d'] = parse_all_remotes T [d]"
    by (simp add: parse_all_remotes_def optional_hash_def same[OF key(7)])
  show subgraphs: "parse_all_subgraphs T [d'] = parse_all_subgraphs T [d]"
    by (simp only: parse_all_subgraphs_def collect[OF key(2)])
  show "parse_all_metaboards T [d'] = parse_all_metaboards T [d]"
    by (simp only: parse_all_metaboards_def collect[OF key(3)])
  show "parse_all_tokens T remote tokens [d'] = parse_all_tokens T remote tokens [d]"
    by (simp only: parse_all_tokens_def local_tokens_def networks collect[OF key(4)])
  show "parse_all_rainlangs T remote [d'] = parse_all_rainlangs T remote [d]"
    by (simp only: parse_all_rainlangs_def networks collect[OF key(5)])
  show "parse_all_raindexes T remote [d'] = parse_all_raindexes T remote [d]"
    by (simp only: parse_all_raindexes_def networks subgraphs remotes collect[OF key(6)])
qed

lemma dropped_sections:
  assumes "yaml_index d ''local-db-sync'' = Bad_Value" "yaml_index d ''using-networks-from'' = Bad_Value"
    "yaml_index d ''using-tokens-from'' = Bad_Value"
  shows "parse_all_syncs [d] = Ok Map.empty" "parse_all_remote_networks T [d] = Ok Map.empty"
    "parse_remote_tokens T [d] = Ok None"
  using assms
  by (simp_all add: parse_all_syncs_def parse_all_remote_networks_def require_hash_def parse_remote_tokens_def
      optional_hash_def optional_vec_def)

text \<open>
  Claim C26. A printed document keeps the networks, subgraphs, metaboards, tokens, rainlangs, raindexes and
  the remotes of the local database, and loses every sync setting and every remote list of networks or
  tokens, whose section names the printer does not know.
\<close>
theorem emitted_configuration:
  assumes "unique_keys (Yaml_Hash h)" and "doc = Yaml_Hash h" and "out = emitted_document [doc]"
  shows "parse_all_networks T remote [out] = parse_all_networks T remote [doc] \<and>
    parse_all_subgraphs T [out] = parse_all_subgraphs T [doc] \<and>
    parse_all_metaboards T [out] = parse_all_metaboards T [doc] \<and>
    parse_all_remotes T [out] = parse_all_remotes T [doc] \<and>
    parse_all_tokens T remote tokens [out] = parse_all_tokens T remote tokens [doc] \<and>
    parse_all_rainlangs T remote [out] = parse_all_rainlangs T remote [doc] \<and>
    parse_all_raindexes T remote [out] = parse_all_raindexes T remote [doc] \<and>
    parse_all_syncs [out] = Ok Map.empty \<and> parse_all_remote_networks T [out] = Ok Map.empty \<and>
    parse_remote_tokens T [out] = Ok None"
proof -
  have idx: "yaml_index out k = (if k \<in> set canonical_root_keys then yaml_index doc k else Bad_Value)" for k
    using emitted_index[OF assms(1)] by (simp only: assms(2,3))
  have kept: "\<And>s. s \<in> set canonical_root_keys \<Longrightarrow> yaml_index out s = yaml_index doc s" by (simp add: idx)
  have "yaml_index out ''local-db-sync'' = Bad_Value" "yaml_index out ''using-networks-from'' = Bad_Value"
    "yaml_index out ''using-tokens-from'' = Bad_Value"
    by (simp_all add: idx canonical_root_keys_def)
  note lost = dropped_sections[OF this]
  show ?thesis using same_sections[OF kept] lost by blast
qed

theorem emitted_configuration_witness:
  "parse_all_networks plain_codec [] [emitted_document [usdc_document]] = Ok [''base'' \<mapsto> usdc_network]"
proof -
  have "unique_keys usdc_document" by (auto simp: usdc_document_def unique_keys.intros)
  from emitted_configuration[OF this[unfolded usdc_document_def] usdc_document_def refl, of plain_codec "[]" "[]"]
  show ?thesis by (simp add: usdc_networks)
qed

end
