(* ===== verification/Settings_Context.thy ===== *)
theory Settings_Context
  imports Settings_Tokens
begin

text \<open>
  The context in which orders and scenarios are read (\<open>settings/src/yaml/context.rs\<close>): the order and its
  tokens that placeholders refer to, the tokens left to be selected, and the replacement of the
  placeholders of a text. The records of orders (\<open>order.rs\<close>) are declared here, as contexts hold one.

  The display of an address for debugging and the parser of 256-bit numbers belong to third-party crates
  and are fields of \<open>order_codec\<close>.
\<close>

section \<open>Orders and contexts\<close>

record order_codec =
  oc_text :: text_codec
  oc_debug_address :: "address \<Rightarrow> string"
  oc_parse_u256 :: "string \<Rightarrow> (u256, ext_error) result"

record order_io_cfg =
  io_token_key :: string
  io_token :: "token_cfg option"
  io_vault_id :: "u256 option"

record order_cfg =
  od_key :: string
  od_inputs :: "order_io_cfg list"
  od_outputs :: "order_io_cfg list"
  od_network :: network_cfg
  od_rainlang :: "rainlang_cfg option"
  od_raindex :: "raindex_cfg option"
  od_oracle_url :: "string option"

record order_builder_context =
  bc_current_deployment :: "string option"
  bc_current_order :: "string option"

record yaml_cache =
  yc_remote_networks :: "(string \<times> network_cfg) list"
  yc_remote_tokens :: "(string \<times> token_cfg) list"

record settings_context =
  cx_order :: "order_cfg option"
  cx_select_tokens :: "string list option"
  cx_builder_context :: "order_builder_context option"
  cx_yaml_cache :: "yaml_cache option"

datatype context_error =
    No_Order
  | Invalid_Path string
  | Invalid_Index string
  | Property_Not_Found string

fun display_context_error :: "context_error \<Rightarrow> string" where
  "display_context_error No_Order = ''No order in context''"
| "display_context_error (Invalid_Path p) = ''Invalid path: '' @ p"
| "display_context_error (Invalid_Index i) = ''Invalid index: '' @ i"
| "display_context_error (Property_Not_Found p) = ''Property not found: '' @ p"

definition context_new :: settings_context where
  "context_new = \<lparr>cx_order = None, cx_select_tokens = None, cx_builder_context = None, cx_yaml_cache = None\<rparr>"

definition from_context :: "settings_context option \<Rightarrow> settings_context" where
  "from_context context = (case context of None \<Rightarrow> context_new | Some cx \<Rightarrow> cx)"

definition add_order :: "order_cfg \<Rightarrow> settings_context \<Rightarrow> settings_context" where
  "add_order order cx = cx\<lparr>cx_order := Some order\<rparr>"

definition add_select_tokens :: "string list \<Rightarrow> settings_context \<Rightarrow> settings_context" where
  "add_select_tokens select_tokens cx = cx\<lparr>cx_select_tokens := Some select_tokens\<rparr>"

definition add_current_deployment :: "string \<Rightarrow> settings_context \<Rightarrow> settings_context" where
  "add_current_deployment deployment cx = cx\<lparr>cx_builder_context := Some (case cx_builder_context cx of
       Some bc \<Rightarrow> bc\<lparr>bc_current_deployment := Some deployment\<rparr>
     | None \<Rightarrow> \<lparr>bc_current_deployment = Some deployment, bc_current_order = None\<rparr>)\<rparr>"

definition add_current_order :: "string \<Rightarrow> settings_context \<Rightarrow> settings_context" where
  "add_current_order order cx = cx\<lparr>cx_builder_context := Some (case cx_builder_context cx of
       Some bc \<Rightarrow> bc\<lparr>bc_current_order := Some order\<rparr>
     | None \<Rightarrow> \<lparr>bc_current_deployment = None, bc_current_order = Some order\<rparr>)\<rparr>"

definition set_remote_networks :: "(string \<times> network_cfg) list \<Rightarrow> settings_context \<Rightarrow> settings_context" where
  "set_remote_networks remote_networks cx = cx\<lparr>cx_yaml_cache := Some (case cx_yaml_cache cx of
       Some cache \<Rightarrow> cache\<lparr>yc_remote_networks := remote_networks\<rparr>
     | None \<Rightarrow> \<lparr>yc_remote_networks = remote_networks, yc_remote_tokens = []\<rparr>)\<rparr>"

definition set_remote_tokens :: "(string \<times> token_cfg) list \<Rightarrow> settings_context \<Rightarrow> settings_context" where
  "set_remote_tokens remote_tokens cx = cx\<lparr>cx_yaml_cache := Some (case cx_yaml_cache cx of
       Some cache \<Rightarrow> cache\<lparr>yc_remote_tokens := remote_tokens\<rparr>
     | None \<Rightarrow> \<lparr>yc_remote_networks = [], yc_remote_tokens = remote_tokens\<rparr>)\<rparr>"

definition current_deployment :: "settings_context \<Rightarrow> string option" where
  "current_deployment cx = Option.bind (cx_builder_context cx) bc_current_deployment"

definition current_order :: "settings_context \<Rightarrow> string option" where
  "current_order cx = Option.bind (cx_builder_context cx) bc_current_order"

definition remote_networks_of :: "settings_context option \<Rightarrow> (string \<times> network_cfg) list" where
  \<comment> \<open>what the section parsers take from their context\<close>
  "remote_networks_of context = (case Option.bind context cx_yaml_cache of
     None \<Rightarrow> [] | Some cache \<Rightarrow> yc_remote_networks cache)"

definition remote_tokens_of :: "settings_context option \<Rightarrow> (string \<times> token_cfg) list" where
  "remote_tokens_of context = (case Option.bind context cx_yaml_cache of
     None \<Rightarrow> [] | Some cache \<Rightarrow> yc_remote_tokens cache)"

definition is_select_token :: "settings_context \<Rightarrow> string \<Rightarrow> bool" where
  "is_select_token cx key = (case cx_select_tokens cx of None \<Rightarrow> False | Some tokens \<Rightarrow> key \<in> set tokens)"

section \<open>Paths\<close>

definition dots :: "string list \<Rightarrow> string" where
  "dots parts = join ''.'' parts"

definition resolve_token_path :: "order_codec \<Rightarrow> token_cfg \<Rightarrow> string list \<Rightarrow> (string, context_error) result" where
  "resolve_token_path C token parts =
     (case parts of
        [] \<Rightarrow> Err (Invalid_Path (dots parts))
      | p # _ \<Rightarrow>
          if p = ''address'' then Ok (oc_debug_address C (tk_address token))
          else if p = ''symbol'' then ok_or (tk_symbol token) (Property_Not_Found ''symbol'')
          else if p = ''label'' then ok_or (tk_label token) (Property_Not_Found ''label'')
          else if p = ''decimals'' then
            rbind (ok_or (tk_decimals token) (Property_Not_Found ''decimals'')) (\<lambda>d. Ok (show_word d))
          else Err (Invalid_Path (dots parts)))"

definition resolve_io_path ::
  "order_codec \<Rightarrow> order_io_cfg list \<Rightarrow> string list \<Rightarrow> (string, context_error) result" where
  \<comment> \<open>indices of 64 bits\<close>
  "resolve_io_path C ios parts =
     (case parts of
        [] \<Rightarrow> Err (Invalid_Path (dots parts))
      | i # rest \<Rightarrow>
          rbind (map_err (\<lambda>_. Invalid_Index i) (parse_unsigned (2 ^ 64) i)) (\<lambda>index.
          if length ios \<le> index then Err (Invalid_Index (show_nat index))
          else let io = ios ! index in
            (case rest of
               [] \<Rightarrow> Err (Invalid_Path (dots parts))
             | p # rest \<Rightarrow>
                 if p = ''token'' then
                   (case io_token io of
                      Some token \<Rightarrow> resolve_token_path C token rest
                    | None \<Rightarrow> Err (Property_Not_Found ''token''))
                 else if p = ''vault-id'' then
                   (case io_vault_id io of
                      Some vault_id \<Rightarrow> Ok (show_word vault_id)
                    | None \<Rightarrow> Err (Property_Not_Found ''vault-id''))
                 else Err (Invalid_Path (dots parts)))))"

definition resolve_order_path ::
  "order_codec \<Rightarrow> settings_context \<Rightarrow> string list \<Rightarrow> (string, context_error) result" where
  "resolve_order_path C cx parts =
     rbind (ok_or (cx_order cx) No_Order) (\<lambda>order.
     case parts of
       [] \<Rightarrow> Err (Invalid_Path (dots parts))
     | p # rest \<Rightarrow>
         if p = ''inputs'' then resolve_io_path C (od_inputs order) rest
         else if p = ''outputs'' then resolve_io_path C (od_outputs order) rest
         else Err (Invalid_Path (dots parts)))"

definition resolve_path :: "order_codec \<Rightarrow> settings_context \<Rightarrow> string \<Rightarrow> (string, context_error) result" where
  "resolve_path C cx path =
     (case split_str ''.'' path of
        p # rest \<Rightarrow> if p = ''order'' then resolve_order_path C cx rest else Err (Invalid_Path path)
      | [] \<Rightarrow> Err (Invalid_Path path))"

definition select_token_key_for_path :: "settings_context \<Rightarrow> string \<Rightarrow> string option" where
  "select_token_key_for_path cx path =
     (case split_str ''.'' path of
        root # side # i # _ \<Rightarrow>
          if root \<noteq> ''order'' then None
          else (case (parse_unsigned (2 ^ 64) i, cx_order cx) of
            (Ok index, Some order) \<Rightarrow>
              let ios = (if side = ''inputs'' then od_inputs order
                    else if side = ''outputs'' then od_outputs order else []) in
              if index < length ios \<and> is_select_token cx (io_token_key (ios ! index))
              then Some (io_token_key (ios ! index)) else None
          | _ \<Rightarrow> None)
      | _ \<Rightarrow> None)"

section \<open>Placeholders\<close>

definition replacement_of ::
  "order_codec \<Rightarrow> settings_context \<Rightarrow> bool \<Rightarrow> string \<Rightarrow> (string option, context_error) result" where
  \<comment> \<open>\<open>None\<close>: the placeholder of a token to be selected stays\<close>
  "replacement_of C cx allow_select_tokens var =
     (case resolve_path C cx var of
        Ok value \<Rightarrow> Ok (Some value)
      | Err e \<Rightarrow>
          if allow_select_tokens \<and> e = Property_Not_Found ''token'' \<and> select_token_key_for_path cx var \<noteq> None
          then Ok None else Err e)"

function interpolate_internal ::
  "order_codec \<Rightarrow> settings_context \<Rightarrow> bool \<Rightarrow> string \<Rightarrow> (string, context_error) result" where
  \<comment> \<open>on the text from \<open>start\<close>; the text before it is not looked at again\<close>
  "interpolate_internal C cx allow_select_tokens input =
     (case split_once ''${'' input of
        None \<Rightarrow> Ok input
      | Some (before, after) \<Rightarrow>
          (case split_once ''}'' after of
             None \<Rightarrow> Ok input
           | Some (var, rest) \<Rightarrow>
               rbind (replacement_of C cx allow_select_tokens var) (\<lambda>replacement.
               rbind (interpolate_internal C cx allow_select_tokens rest) (\<lambda>rest'.
               Ok (before @ (case replacement of Some r \<Rightarrow> r | None \<Rightarrow> ''${'' @ var @ ''}'') @ rest')))))"
  by pat_completeness auto

termination interpolate_internal
  by (relation "measure (\<lambda>(C, cx, allow, input). length input)") (auto dest!: split_once_Some)

declare interpolate_internal.simps [simp del]

definition interpolate :: "order_codec \<Rightarrow> settings_context \<Rightarrow> string \<Rightarrow> (string, context_error) result" where
  "interpolate C cx input = interpolate_internal C cx False input"

definition interpolate_with_select_tokens ::
  "order_codec \<Rightarrow> settings_context \<Rightarrow> string \<Rightarrow> (string, context_error) result" where
  "interpolate_with_select_tokens C cx input = interpolate_internal C cx True input"

section \<open>Templates\<close>

datatype piece = Lit string | Placeholder string

fun piece_text :: "piece \<Rightarrow> string" where
  "piece_text (Lit s) = s"
| "piece_text (Placeholder var) = ''${'' @ var @ ''}''"

fun well_formed_piece :: "piece \<Rightarrow> bool" where
  "well_formed_piece (Lit s) \<longleftrightarrow> CHR ''$'' \<notin> set s"
| "well_formed_piece (Placeholder var) \<longleftrightarrow> CHR ''}'' \<notin> set var"

definition template_text :: "piece list \<Rightarrow> string" where
  "template_text ps = concat (map piece_text ps)"

fun piece_value :: "order_codec \<Rightarrow> settings_context \<Rightarrow> bool \<Rightarrow> piece \<Rightarrow> (string, context_error) result" where
  \<comment> \<open>the reference: texts stand for themselves, placeholders for their values\<close>
  "piece_value C cx allow (Lit s) = Ok s"
| "piece_value C cx allow (Placeholder var) =
     rbind (replacement_of C cx allow var) (\<lambda>r. Ok (case r of Some v \<Rightarrow> v | None \<Rightarrow> piece_text (Placeholder var)))"

lemma split_once_here: "split_once pat (pat @ s) = Some ([], s)"
proof -
  have "strip_prefix pat (pat @ s) = Some s" by (simp add: strip_prefix_Some)
  then show ?thesis by (subst split_once.simps) simp
qed

lemma split_once_skip:
  assumes "p # ps = pat" "p \<notin> set before"
  shows "split_once pat (before @ s) = map_option (\<lambda>(b, a). (before @ b, a)) (split_once pat s)"
  using assms(2)
proof (induction before)
  case (Cons c cs)
  then have "strip_prefix pat (c # cs @ s) = None" using assms(1) by auto
  with Cons show ?case
    by (subst split_once.simps) (auto simp: option.map_comp comp_def case_prod_unfold)
qed (cases "split_once pat s"; simp add: case_prod_unfold)

lemma interpolate_lit:
  assumes "CHR ''$'' \<notin> set lit"
  shows "interpolate_internal C cx allow (lit @ s) = rbind (interpolate_internal C cx allow s) (\<lambda>r. Ok (lit @ r))"
proof -
  have "split_once ''${'' (lit @ s) = map_option (\<lambda>(b, a). (lit @ b, a)) (split_once ''${'' s)"
    by (rule split_once_skip[OF _ assms]) simp
  then show ?thesis
    by (subst (1 2) interpolate_internal.simps)
      (auto simp: rbind_assoc split: option.split prod.split intro!: rbind_cong)
qed

lemma interpolate_placeholder:
  assumes "CHR ''}'' \<notin> set var"
  shows "interpolate_internal C cx allow (''${'' @ var @ ''}'' @ s) =
    rbind (piece_value C cx allow (Placeholder var)) (\<lambda>v. rbind (interpolate_internal C cx allow s) (\<lambda>r. Ok (v @ r)))"
proof -
  have "split_once ''${'' (''${'' @ var @ ''}'' @ s) = Some ([], var @ ''}'' @ s)" by (rule split_once_here)
  moreover have "split_once ''}'' (var @ ''}'' @ s) = Some (var, s)" using split_once_char[OF assms] by simp
  ultimately show ?thesis
    by (subst interpolate_internal.simps)
      (auto simp: rbind_assoc split: option.split intro!: rbind_cong)
qed

text \<open>
  Claim C27. The replacement of placeholders is substitution: a text made of literal pieces and
  placeholders becomes the concatenation of the literals and the values of the placeholders, with the
  first placeholder that has no value as the error; a value is never looked at again, even when it
  contains placeholders itself, and the placeholders of tokens still to be selected are left as they are.
\<close>
theorem interpolation_is_substitution:
  assumes "list_all well_formed_piece ps"
  shows "interpolate_internal C cx allow (template_text ps) =
    rbind (rmap (piece_value C cx allow) ps) (\<lambda>vs. Ok (concat vs))"
  using assms
proof (induction ps)
  case Nil
  show ?case by (simp add: template_text_def interpolate_internal.simps split_once.simps)
next
  case (Cons p ps)
  show ?case
  proof (cases p)
    case (Lit s)
    with Cons interpolate_lit[of s C cx allow "template_text ps"] show ?thesis
      by (simp add: template_text_def rbind_assoc)
  next
    case (Placeholder var)
    with Cons interpolate_placeholder[of var C cx allow "template_text ps"] show ?thesis
      by (simp add: template_text_def rbind_assoc)
  qed
qed

lemma show_nat_chars: "c \<in> set (show_nat n) \<Longrightarrow> \<exists>d < 10. c = digit_char d"
proof (induction n rule: show_nat.induct)
  case (1 n)
  then show ?case
    by (subst (asm) show_nat.simps) (force split: if_splits simp del: digit_char.simps)
qed

lemma show_nat_no_dot: "CHR ''.'' \<notin> set (show_nat n)"
proof
  assume "CHR ''.'' \<in> set (show_nat n)"
  then obtain d where "d < 10" "CHR ''.'' = digit_char d" using show_nat_chars by blast
  then show False by (auto dest!: arg_cong[where f = "of_char :: char \<Rightarrow> nat"])
qed

lemma resolve_vault_id:
  assumes "cx_order cx = Some order" "i < length (od_inputs order)" "i < 2 ^ 64"
    "io_vault_id (od_inputs order ! i) = Some v"
  shows "resolve_path C cx (dots [''order'', ''inputs'', show_nat i, ''vault-id'']) = Ok (show_word v)"
proof -
  have "split_str ''.'' (dots [''order'', ''inputs'', show_nat i, ''vault-id'']) =
      [''order'', ''inputs'', show_nat i, ''vault-id'']"
    unfolding dots_def by (rule split_join) (simp_all add: show_nat_no_dot)
  then show ?thesis
    using assms parse_unsigned_show[OF assms(3)]
    by (simp add: resolve_path_def resolve_order_path_def resolve_io_path_def Let_def)
qed

definition vault_order :: order_cfg where
  "vault_order = \<lparr>od_key = ''o'',
     od_inputs = [\<lparr>io_token_key = ''usdc'', io_token = None, io_vault_id = Some 7\<rparr>], od_outputs = [],
     od_network = \<lparr>nc_key = ''base'', nc_rpcs = [], nc_chain_id = 1, nc_label = None, nc_network_id = None, nc_currency = None\<rparr>,
     od_rainlang = None, od_raindex = None, od_oracle_url = None\<rparr>"

definition plain_order_codec :: order_codec where
  "plain_order_codec = \<lparr>oc_text = plain_codec, oc_debug_address = show_word,
     oc_parse_u256 = (\<lambda>s. rbind (parse_unsigned (2 ^ 256) s) (\<lambda>n. Ok (of_nat n)))\<rparr>"

theorem interpolation_is_substitution_witness:
  "interpolate_internal plain_order_codec (add_order vault_order context_new) True ''id: ${order.inputs.0.vault-id}!'' = Ok ''id: 7!''"
proof -
  let ?C = plain_order_codec
  let ?cx = "add_order vault_order context_new"
  have path: "dots [''order'', ''inputs'', show_nat 0, ''vault-id''] = ''order.inputs.0.vault-id''"
    by (simp add: dots_def) code_simp
  have "resolve_path ?C ?cx (dots [''order'', ''inputs'', show_nat 0, ''vault-id'']) = Ok (show_word (7 :: u256))"
    by (rule resolve_vault_id[where order = vault_order]) (simp_all add: add_order_def vault_order_def)
  moreover have "show_word (7 :: u256) = ''7''" by code_simp
  ultimately have var: "replacement_of ?C ?cx True ''order.inputs.0.vault-id'' = Ok (Some ''7'')"
    by (simp only: path replacement_of_def result.case)
  let ?ps = "[Lit ''id: '', Placeholder ''order.inputs.0.vault-id'', Lit ''!'']"
  have "interpolate_internal ?C ?cx True (template_text ?ps) = Ok ''id: 7!''"
    by (subst interpolation_is_substitution) (simp_all add: var)
  then show ?thesis by (simp add: template_text_def)
qed

end
