(* ===== verification/Settings_Orders.thy ===== *)
theory Settings_Orders
  imports Settings_Context
begin

text \<open>
  Orders (\<open>settings/src/order.rs\<close>): an order takes its network from the first of its parts that has one,
  and every other part must agree with it. The vault ids of an order are kept twice, in the document and
  in the configuration read from it, and two operations write both.

  A document shared by reference is passed in and returned, also by a run that fails.
\<close>

section \<open>Errors\<close>

fun display_field_error :: "field_error_kind \<Rightarrow> string" where
  "display_field_error (Missing field) = ''Missing required field '' @ quoted field"
| "display_field_error (Invalid_Type field expected) = ''Field '' @ quoted field @ '' must be '' @ expected"
| "display_field_error (Invalid_Value field reason) = ''Invalid value for field '' @ quoted field @ '': '' @ reason"

fun display_yaml_error :: "yaml_error \<Rightarrow> string" where
  "display_yaml_error (Scan_Error e) = e"
| "display_yaml_error (Emit_Error e) = e"
| "display_yaml_error (Url_Parse_Error e) = e"
| "display_yaml_error (Ruint_Parse_Error e) = e"
| "display_yaml_error (Yaml_Field kind location) = display_field_error kind @ '' in '' @ location"
| "display_yaml_error (Yaml_Parse_Error e) = ''YAML parse error: '' @ e"
| "display_yaml_error (Key_Not_Found key) = ''Key '' @ quoted key @ '' not found''"
| "display_yaml_error (Key_Shadowing key location) = ''Key '' @ quoted key @ '' is already defined in '' @ location"
| "display_yaml_error Read_Lock_Error = ''Failed to acquire read lock''"
| "display_yaml_error Write_Lock_Error = ''Failed to acquire write lock''"
| "display_yaml_error Empty_File = ''YAML file is empty''"
| "display_yaml_error Convert_Error = ''Error while converting to YAML string''"
| "display_yaml_error Invalid_Trait_Function = ''Invalid trait function''"
| "display_yaml_error (Yaml_Not_Found what) = what @ '' not found''"
| "display_yaml_error (Parse_Network_Config_Source_Error e) = display_network_error e"
| "display_yaml_error (Parse_Token_Config_Source_Error e) = e"
| "display_yaml_error (Parse_Raindex_Config_Source_Error e) = e"
| "display_yaml_error (Parse_Rainlang_Config_Source_Error e) = e"
| "display_yaml_error (Parse_Order_Config_Source_Error e) = e"
| "display_yaml_error (Parse_Scenario_Config_Source_Error e) = e"
| "display_yaml_error (Parse_Deployment_Config_Source_Error e) = e"
| "display_yaml_error (Context_Error e) = e"
| "display_yaml_error (Parse_Remote_Networks_Error e) = e"
| "display_yaml_error (Parse_Remote_Tokens_Error e) = e"
| "display_yaml_error Yaml_Panicked = ''''"

definition mismatch :: "string \<Rightarrow> string \<Rightarrow> string \<Rightarrow> yaml_error" where
  "mismatch part expected found =
     Parse_Order_Config_Source_Error (part @ '' does not match: expected '' @ expected @ '', found '' @ found)"

definition network_not_found :: yaml_error where
  "network_not_found = Parse_Order_Config_Source_Error ''Network not found for Order: ''"

section \<open>Parsing orders\<close>

datatype vault_type = Vault_Input | Vault_Output

fun side_name :: "vault_type \<Rightarrow> string" where
  "side_name Vault_Input = ''inputs''"
| "side_name Vault_Output = ''outputs''"

definition io_location :: "vault_type \<Rightarrow> nat \<Rightarrow> string \<Rightarrow> string" where
  "io_location vault_type i order_key =
     (case vault_type of Vault_Input \<Rightarrow> ''input'' | Vault_Output \<Rightarrow> ''output'') @ '' index '' @ quoted (show_nat i) @
     '' in order '' @ quoted order_key"

definition token_mismatch :: "vault_type \<Rightarrow> string \<Rightarrow> string \<Rightarrow> string \<Rightarrow> yaml_error" where
  "token_mismatch vault_type key =
     mismatch ((case vault_type of Vault_Input \<Rightarrow> ''Input'' | Vault_Output \<Rightarrow> ''Output'') @
       '' token network with key: '' @ key)"

definition validate_vault_id :: "order_codec \<Rightarrow> string \<Rightarrow> (u256, ext_error) result" where
  "validate_vault_id C value = map_err (\<lambda>e. ''Failed to parse vault id: '' @ e) (oc_parse_u256 C value)"

definition join_network ::
  "network_cfg option \<Rightarrow> network_cfg \<Rightarrow> (string \<Rightarrow> string \<Rightarrow> yaml_error) \<Rightarrow> (network_cfg option, yaml_error) result" where
  "join_network network found error =
     (case network of
        Some n \<Rightarrow> if found \<noteq> n then Err (error (nc_key n) (nc_key found)) else Ok network
      | None \<Rightarrow> Ok (Some found))"

record order_env =
  \<comment> \<open>what all orders of a run are read with\<close>
  oe_codec :: order_codec
  oe_rainlangs :: "(string \<Rightarrow> rainlang_cfg option, yaml_error) result"
  oe_raindexes :: "(string \<Rightarrow> raindex_cfg option, yaml_error) result"
  oe_tokens :: "(string \<Rightarrow> token_cfg option, yaml_error) result"
  oe_context :: "settings_context option"

definition vault_id_of ::
  "order_codec \<Rightarrow> string \<Rightarrow> strict_yaml \<Rightarrow> (u256 option, yaml_error) result" where
  "vault_id_of C location io =
     opt_result (\<lambda>id. map_err (\<lambda>e. Yaml_Field (Invalid_Value ''vault-id'' e) location) (validate_vault_id C id))
       (optional_string io ''vault-id'')"

definition io_token_of ::
  "order_env \<Rightarrow> vault_type \<Rightarrow> string \<Rightarrow> string \<Rightarrow> network_cfg option
   \<Rightarrow> (token_cfg option \<times> network_cfg option, yaml_error) result" where
  "io_token_of E vault_type location token_name network =
     (case (case oe_tokens E of Ok tokens \<Rightarrow> tokens token_name | Err _ \<Rightarrow> None) of
        Some token \<Rightarrow>
          rbind (join_network network (tk_network token) (token_mismatch vault_type token_name))
            (\<lambda>network. Ok (Some token, network))
      | None \<Rightarrow>
          (case oe_context E of
             Some context \<Rightarrow>
               if \<not> is_select_token context token_name
               then Err (Yaml_Field (Invalid_Value ''token'' (''missing yaml data for token '' @ quoted token_name)) location)
               else Ok (None, network)
           | None \<Rightarrow> Ok (None, network)))"

definition parse_order_io ::
  "order_env \<Rightarrow> vault_type \<Rightarrow> string \<Rightarrow> nat \<Rightarrow> strict_yaml \<Rightarrow> network_cfg option
   \<Rightarrow> (order_io_cfg \<times> network_cfg option, yaml_error) result" where
  "parse_order_io E vault_type order_key i io network =
     (let location = io_location vault_type i order_key in
      rbind (require_string io (Some ''token'') (Some location)) (\<lambda>token_name.
      rbind (io_token_of E vault_type location token_name network) (\<lambda>(order_token, network).
      rbind (vault_id_of (oe_codec E) location io) (\<lambda>vault_id.
      Ok (\<lparr>io_token_key = token_name, io_token = order_token, io_vault_id = vault_id\<rparr>, network)))))"

fun parse_order_ios ::
  "order_env \<Rightarrow> vault_type \<Rightarrow> string \<Rightarrow> nat \<Rightarrow> strict_yaml list \<Rightarrow> network_cfg option
   \<Rightarrow> (order_io_cfg list \<times> network_cfg option, yaml_error) result" where
  "parse_order_ios E vault_type order_key i [] network = Ok ([], network)"
| "parse_order_ios E vault_type order_key i (io # ios) network =
     rbind (parse_order_io E vault_type order_key i io network) (\<lambda>(c, network).
     rbind (parse_order_ios E vault_type order_key (Suc i) ios network) (\<lambda>(cs, network).
     Ok (c # cs, network)))"

definition order_part ::
  "string \<Rightarrow> (string \<Rightarrow> 'p option, yaml_error) result \<Rightarrow> ('p \<Rightarrow> network_cfg) \<Rightarrow> string \<Rightarrow> string option
   \<Rightarrow> network_cfg option \<Rightarrow> ('p option \<times> network_cfg option, yaml_error) result" where
  \<comment> \<open>the rainlang and the raindex an order names\<close>
  "order_part section_name parsed network_of what part_name network =
     (case part_name of
        None \<Rightarrow> Ok (None, network)
      | Some part_name \<Rightarrow>
          rbind (map_err (\<lambda>e. Yaml_Field (Invalid_Value section_name (display_yaml_error e)) ''root'') parsed) (\<lambda>parts.
          rbind (ok_or (parts part_name) (Key_Not_Found part_name)) (\<lambda>part.
          rbind (join_network network (network_of part) (mismatch what)) (\<lambda>network.
          Ok (Some part, network)))))"

definition parse_order :: "order_env \<Rightarrow> string \<Rightarrow> strict_yaml \<Rightarrow> (order_cfg, yaml_error) result" where
  "parse_order E order_key order_yaml =
     (let location = ''order '' @ quoted order_key in
      rbind (order_part ''rainlangs'' (oe_rainlangs E) rl_network ''Rainlang network''
               (optional_string order_yaml ''rainlang'') None) (\<lambda>(rainlang, network).
      rbind (order_part ''raindexes'' (oe_raindexes E) rx_network ''Raindex network''
               (optional_string order_yaml ''raindex'') network) (\<lambda>(raindex, network).
      rbind (require_vec order_yaml ''inputs'' (Some location)) (\<lambda>ios.
      rbind (parse_order_ios E Vault_Input order_key 0 ios network) (\<lambda>(inputs, network).
      rbind (require_vec order_yaml ''outputs'' (Some location)) (\<lambda>ios.
      rbind (parse_order_ios E Vault_Output order_key 0 ios network) (\<lambda>(outputs, network).
      rbind (ok_or network network_not_found) (\<lambda>network.
      Ok \<lparr>od_key = order_key, od_inputs = inputs, od_outputs = outputs, od_network = network, od_rainlang = rainlang,
          od_raindex = raindex, od_oracle_url = optional_string order_yaml ''oracle-url''\<rparr>))))))))"

definition order_tokens ::
  "settings_context option \<Rightarrow> (string \<Rightarrow> token_cfg option, yaml_error) result
   \<Rightarrow> ((string \<Rightarrow> token_cfg option, yaml_error) result, yaml_error) result" where
  \<comment> \<open>with tokens to be selected, only a missing section is tolerated\<close>
  "order_tokens context tokens =
     (if Option.bind context cx_select_tokens = None then Ok tokens
      else (case tokens of
              Ok tokens \<Rightarrow> Ok (Ok tokens)
            | Err err \<Rightarrow> if err = Yaml_Field (Missing ''tokens'') ''root'' then Ok (Err err) else Err err))"

definition selected_entries :: "string option \<Rightarrow> yaml_hash \<Rightarrow> yaml_hash" where
  \<comment> \<open>the \<open>continue\<close> on every entry but the current one\<close>
  "selected_entries current entries =
     (case current of
        None \<Rightarrow> entries
      | Some current \<Rightarrow> filter (\<lambda>(key_yaml, _). (case as_str key_yaml of Some s \<Rightarrow> s | None \<Rightarrow> []) = current) entries)"

fun selected_documents ::
  "string \<Rightarrow> string option \<Rightarrow> (string \<Rightarrow> strict_yaml \<Rightarrow> ('c, yaml_error) result) \<Rightarrow> strict_yaml list
   \<Rightarrow> (string \<Rightarrow> 'c option) \<Rightarrow> (string \<Rightarrow> 'c option, yaml_error) result" where
  "selected_documents section_name current parse_entry [] found = Ok found"
| "selected_documents section_name current parse_entry (document # documents) found =
     rbind (case require_hash document (Some section_name) None of
              Ok entries \<Rightarrow> collect_entries section_name parse_entry (selected_entries current entries) found
            | Err _ \<Rightarrow> Ok found)
       (selected_documents section_name current parse_entry documents)"

definition parse_all_orders ::
  "order_codec \<Rightarrow> settings_context option \<Rightarrow> strict_yaml list \<Rightarrow> (string \<Rightarrow> order_cfg option, yaml_error) result" where
  "parse_all_orders C context documents =
     (let T = oc_text C; remote = remote_networks_of context in
      rbind (order_tokens context (parse_all_tokens T remote (remote_tokens_of context) documents)) (\<lambda>tokens.
      rbind (selected_documents ''orders'' (Option.bind context current_order)
               (parse_order \<lparr>oe_codec = C, oe_rainlangs = parse_all_rainlangs T remote documents,
                  oe_raindexes = parse_all_raindexes T remote documents, oe_tokens = tokens, oe_context = context\<rparr>)
               documents Map.empty)
        (required ''orders'')))"

section \<open>Reading an order without parsing it\<close>

definition join_key ::
  "string option \<Rightarrow> string \<Rightarrow> (string \<Rightarrow> string \<Rightarrow> yaml_error) \<Rightarrow> (string option, yaml_error) result" where
  "join_key network_key key error =
     (case network_key of
        Some existing_key \<Rightarrow> if existing_key \<noteq> key then Err (error existing_key key) else Ok network_key
      | None \<Rightarrow> Ok (Some key))"

fun io_network_key ::
  "strict_yaml list \<Rightarrow> vault_type \<Rightarrow> string \<Rightarrow> nat \<Rightarrow> strict_yaml list \<Rightarrow> string option
   \<Rightarrow> (string option, yaml_error) result" where
  \<comment> \<open>an output is checked, but its network is never taken\<close>
  "io_network_key documents vault_type order_key i [] network_key = Ok network_key"
| "io_network_key documents vault_type order_key i (io # ios) network_key =
     rbind (require_string io (Some ''token'') (Some (io_location vault_type i order_key))) (\<lambda>token_key.
     rbind (case token_network_key documents token_key of
              Ok key \<Rightarrow>
                if vault_type = Vault_Output \<and> network_key = None then Ok network_key
                else join_key network_key key (token_mismatch vault_type token_key)
            | Err _ \<Rightarrow> Ok network_key)
       (io_network_key documents vault_type order_key (Suc i) ios))"

definition part_network_key ::
  "(string \<Rightarrow> (string, yaml_error) result) \<Rightarrow> string \<Rightarrow> string option \<Rightarrow> string option
   \<Rightarrow> (string option, yaml_error) result" where
  "part_network_key key_of what part_key network_key =
     (case part_key of
        Some part_key \<Rightarrow> rbind (key_of part_key) (\<lambda>key. join_key network_key key (mismatch what))
      | None \<Rightarrow> Ok network_key)"

definition order_yaml_network_key ::
  "strict_yaml list \<Rightarrow> string \<Rightarrow> strict_yaml \<Rightarrow> string option \<Rightarrow> (string option, yaml_error) result" where
  "order_yaml_network_key documents order_key order_yaml network_key =
     (let location = ''order '' @ quoted order_key in
      rbind (part_network_key (rainlang_network_key documents) ''Rainlang network''
               (optional_string order_yaml ''rainlang'') network_key) (\<lambda>network_key.
      rbind (part_network_key (raindex_network_key documents) ''Raindex network''
               (optional_string order_yaml ''raindex'') network_key) (\<lambda>network_key.
      rbind (require_vec order_yaml ''inputs'' (Some location)) (\<lambda>inputs.
      rbind (io_network_key documents Vault_Input order_key 0 inputs network_key) (\<lambda>network_key.
      rbind (require_vec order_yaml ''outputs'' (Some location)) (\<lambda>outputs.
      io_network_key documents Vault_Output order_key 0 outputs network_key))))))"

definition order_yaml_in :: "string \<Rightarrow> strict_yaml \<Rightarrow> strict_yaml option" where
  "order_yaml_in order_key document =
     (case require_hash document (Some ''orders'') None of
        Ok orders_hash \<Rightarrow> hash_get (Yaml_String order_key) orders_hash | Err _ \<Rightarrow> None)"

fun network_key_in ::
  "strict_yaml list \<Rightarrow> string \<Rightarrow> strict_yaml list \<Rightarrow> string option \<Rightarrow> (string option, yaml_error) result" where
  "network_key_in documents order_key [] network_key = Ok network_key"
| "network_key_in documents order_key (document # rest) network_key =
     rbind (case order_yaml_in order_key document of
              Some order_yaml \<Rightarrow> order_yaml_network_key documents order_key order_yaml network_key
            | None \<Rightarrow> Ok network_key)
       (network_key_in documents order_key rest)"

definition order_network_key :: "strict_yaml list \<Rightarrow> string \<Rightarrow> (string, yaml_error) result" where
  "order_network_key documents order_key =
     rbind (network_key_in documents order_key documents None) (\<lambda>network_key.
     ok_or network_key network_not_found)"

fun vault_ids_of ::
  "vault_type \<Rightarrow> string \<Rightarrow> nat \<Rightarrow> strict_yaml list \<Rightarrow> (string \<Rightarrow> string option option)
   \<Rightarrow> (string \<Rightarrow> string option option, yaml_error) result" where
  "vault_ids_of vault_type order_key idx [] vault_ids = Ok vault_ids"
| "vault_ids_of vault_type order_key idx (item # items) vault_ids =
     rbind (require_string item (Some ''token'') (Some (io_location vault_type idx order_key))) (\<lambda>token.
     vault_ids_of vault_type order_key (Suc idx) items (vault_ids(token \<mapsto> optional_string item ''vault-id'')))"

fun vault_ids_in ::
  "vault_type \<Rightarrow> string \<Rightarrow> strict_yaml list \<Rightarrow> (string \<Rightarrow> string option option)
   \<Rightarrow> (string \<Rightarrow> string option option, yaml_error) result" where
  "vault_ids_in vault_type order_key [] vault_ids = Ok vault_ids"
| "vault_ids_in vault_type order_key (document # documents) vault_ids =
     rbind (case order_yaml_in order_key document of
              Some order_yaml \<Rightarrow>
                rbind (require_vec order_yaml (side_name vault_type) (Some (''order '' @ quoted order_key))) (\<lambda>items.
                vault_ids_of vault_type order_key 0 items vault_ids)
            | None \<Rightarrow> Ok vault_ids)
       (vault_ids_in vault_type order_key documents)"

definition parse_vault_ids ::
  "strict_yaml list \<Rightarrow> string \<Rightarrow> vault_type \<Rightarrow> (string \<Rightarrow> string option option, yaml_error) result" where
  "parse_vault_ids documents order_key vault_type =
     rbind (vault_ids_in vault_type order_key documents Map.empty) (\<lambda>vault_ids.
     if vault_ids = Map.empty then Err (Yaml_Field (Invalid_Type ''orders'' ''a map'') ''root'') else Ok vault_ids)"

fun io_token_keys_in :: "string \<Rightarrow> strict_yaml list \<Rightarrow> (string list, yaml_error) result" where
  "io_token_keys_in order_key [] = Ok []"
| "io_token_keys_in order_key (document # documents) =
     (let location = ''order '' @ quoted order_key;
          token_of = (\<lambda>io. require_string io (Some ''token'') (Some location)) in
      rbind (case order_yaml_in order_key document of
               Some order_yaml \<Rightarrow>
                 rbind (require_vec order_yaml ''inputs'' (Some location)) (\<lambda>inputs.
                 rbind (require_vec order_yaml ''outputs'' (Some location)) (\<lambda>outputs.
                 rmap token_of (inputs @ outputs)))
             | None \<Rightarrow> Ok []) (\<lambda>keys.
      rbind (io_token_keys_in order_key documents) (\<lambda>further. Ok (keys @ further))))"

definition parse_io_token_keys :: "strict_yaml list \<Rightarrow> string \<Rightarrow> (string list, yaml_error) result" where
  \<comment> \<open>from a \<open>BTreeSet\<close>\<close>
  "parse_io_token_keys documents order_key =
     rbind (io_token_keys_in order_key documents) (\<lambda>keys. Ok (sorted_list_of_set (set keys)))"

section \<open>Writing vault ids\<close>

fun ios_of :: "vault_type \<Rightarrow> order_cfg \<Rightarrow> order_io_cfg list" where
  "ios_of Vault_Input order = od_inputs order"
| "ios_of Vault_Output order = od_outputs order"

fun with_ios :: "vault_type \<Rightarrow> order_io_cfg list \<Rightarrow> order_cfg \<Rightarrow> order_cfg" where
  "with_ios Vault_Input ios order = order\<lparr>od_inputs := ios\<rparr>"
| "with_ios Vault_Output ios order = order\<lparr>od_outputs := ios\<rparr>"

definition order_slot ::
  "string \<Rightarrow> strict_yaml \<Rightarrow> (yaml_hash \<times> yaml_hash \<times> yaml_hash, yaml_error) result" where
  \<comment> \<open>the nested hashes of the document, its orders and the order\<close>
  "order_slot key document =
     (case document of
        Yaml_Hash document_hash \<Rightarrow>
          (case hash_get (Yaml_String ''orders'') document_hash of
             Some (Yaml_Hash orders) \<Rightarrow>
               (case hash_get (Yaml_String key) orders of
                  Some (Yaml_Hash order) \<Rightarrow> Ok (document_hash, orders, order)
                | _ \<Rightarrow> Err (Yaml_Field (Missing key) ''orders''))
           | _ \<Rightarrow> Err (Yaml_Field (Missing ''orders'') ''root''))
      | _ \<Rightarrow> Err (Yaml_Field (Invalid_Type ''document'' ''a map'') ''root''))"

definition put_order :: "string \<Rightarrow> yaml_hash \<Rightarrow> yaml_hash \<Rightarrow> yaml_hash \<Rightarrow> strict_yaml" where
  "put_order key document_hash orders order =
     Yaml_Hash (hash_update (Yaml_String ''orders'')
       (Yaml_Hash (hash_update (Yaml_String key) (Yaml_Hash order) orders)) document_hash)"

definition names_token :: "string \<Rightarrow> strict_yaml \<Rightarrow> bool" where
  "names_token token item = (case item of
     Yaml_Hash item_map \<Rightarrow> hash_get (Yaml_String ''token'') item_map = Some (Yaml_String token) | _ \<Rightarrow> False)"

fun token_position :: "string \<Rightarrow> strict_yaml list \<Rightarrow> nat option" where
  "token_position token [] = None"
| "token_position token (item # items) =
     (if names_token token item then Some 0 else map_option Suc (token_position token items))"

definition write_vault_id :: "u256 option \<Rightarrow> yaml_hash \<Rightarrow> yaml_hash" where
  "write_vault_id vault_id item_map = (case vault_id of
     Some v \<Rightarrow> hash_insert (Yaml_String ''vault-id'') (Yaml_String (show_word v)) item_map
   | None \<Rightarrow> hash_remove (Yaml_String ''vault-id'') item_map)"

definition new_vault_id ::
  "order_codec \<Rightarrow> vault_type \<Rightarrow> string \<Rightarrow> string \<Rightarrow> string option \<Rightarrow> (u256 option, yaml_error) result" where
  "new_vault_id C vault_type token order_key vault_id =
     (case vault_id of
        None \<Rightarrow> Ok None
      | Some v \<Rightarrow>
          if v = [] then Ok None
          else rbind (map_err (\<lambda>e. Yaml_Field (Invalid_Value ''vault-id'' e)
                 (''token '' @ quoted token @ '' in '' @ side_name vault_type @ '' of order '' @ quoted order_key))
                 (validate_vault_id C v)) (\<lambda>v. Ok (Some v)))"

definition update_vault_id ::
  "order_codec \<Rightarrow> vault_type \<Rightarrow> string \<Rightarrow> string option \<Rightarrow> order_cfg \<Rightarrow> strict_yaml
   \<Rightarrow> strict_yaml \<times> (order_cfg, yaml_error) result" where
  "update_vault_id C vault_type token vault_id order document =
     (let location = ''order '' @ quoted (od_key order); vec_key = side_name vault_type in
      case new_vault_id C vault_type token (od_key order) vault_id of
        Err e \<Rightarrow> (document, Err e)
      | Ok new_id \<Rightarrow>
      (case order_slot (od_key order) document of
         Err e \<Rightarrow> (document, Err e)
       | Ok (document_hash, orders, order_hash) \<Rightarrow>
       (case hash_get (Yaml_String vec_key) order_hash of
          Some (Yaml_Array vec) \<Rightarrow>
            (case token_position token vec of
               None \<Rightarrow> (document, Err (Yaml_Field (Invalid_Value vec_key (''token '' @ quoted token @ '' not found'')) location))
             | Some idx \<Rightarrow>
                 (case vec ! idx of
                    Yaml_Hash item_map \<Rightarrow>
                      (put_order (od_key order) document_hash orders (hash_update (Yaml_String vec_key)
                         (Yaml_Array (vec[idx := Yaml_Hash (write_vault_id new_id item_map)])) order_hash),
                       let ios = ios_of vault_type order in
                       if length ios \<le> idx then Err Yaml_Panicked
                       else Ok (with_ios vault_type (ios[idx := (ios ! idx)\<lparr>io_vault_id := new_id\<rparr>]) order))
                  | _ \<Rightarrow> (document, Err (Yaml_Field (Invalid_Type vec_key ''a hash'') location))))
        | _ \<Rightarrow> (document, Err (Yaml_Field (Missing vec_key) location)))))"

fun fill_vault_ids ::
  "u256 \<Rightarrow> string \<Rightarrow> string \<Rightarrow> nat \<Rightarrow> strict_yaml list \<Rightarrow> strict_yaml list \<times> (unit, yaml_error) result" where
  "fill_vault_ids vault_id what order_key index [] = ([], Ok ())"
| "fill_vault_ids vault_id what order_key index (Yaml_Hash item_hash # items) =
     (let (items', r) = fill_vault_ids vault_id what order_key (Suc index) items in
      ((if hash_get (Yaml_String ''vault-id'') item_hash = None
        then Yaml_Hash (hash_insert (Yaml_String ''vault-id'') (Yaml_String (show_word vault_id)) item_hash)
        else Yaml_Hash item_hash) # items', r))"
| "fill_vault_ids vault_id what order_key index (item # items) =
     (item # items, Err (Yaml_Field (Invalid_Type (what @ '' index: '' @ show_nat index) ''a hash'')
        (''order '' @ quoted order_key)))"

definition filled :: "u256 \<Rightarrow> order_io_cfg \<Rightarrow> order_io_cfg" where
  "filled vault_id io = io\<lparr>io_vault_id := Some (case io_vault_id io of Some v \<Rightarrow> v | None \<Rightarrow> vault_id)\<rparr>"

definition populate_vault_ids ::
  "u256 \<Rightarrow> order_cfg \<Rightarrow> strict_yaml \<Rightarrow> strict_yaml \<times> (order_cfg, yaml_error) result" where
  \<comment> \<open>the random vault id is an argument; on an error the entries before it stay filled in the document\<close>
  "populate_vault_ids vault_id order document =
     (let location = ''order '' @ quoted (od_key order) in
      case order_slot (od_key order) document of
        Err e \<Rightarrow> (document, Err e)
      | Ok (document_hash, orders, order_hash) \<Rightarrow>
      (let put = put_order (od_key order) document_hash orders in
       case hash_get (Yaml_String ''inputs'') order_hash of
         Some (Yaml_Array inputs) \<Rightarrow>
           (let (inputs, r) = fill_vault_ids vault_id ''input'' (od_key order) 0 inputs;
                order_hash = hash_update (Yaml_String ''inputs'') (Yaml_Array inputs) order_hash in
            case r of
              Err e \<Rightarrow> (put order_hash, Err e)
            | Ok _ \<Rightarrow>
            (case hash_get (Yaml_String ''outputs'') order_hash of
               Some (Yaml_Array outputs) \<Rightarrow>
                 (let (outputs, r) = fill_vault_ids vault_id ''output'' (od_key order) 0 outputs in
                  (put (hash_update (Yaml_String ''outputs'') (Yaml_Array outputs) order_hash),
                   rbind r (\<lambda>_. Ok (order\<lparr>od_inputs := map (filled vault_id) (od_inputs order),
                                        od_outputs := map (filled vault_id) (od_outputs order)\<rparr>))))
             | _ \<Rightarrow> (put order_hash, Err (Yaml_Field (Missing ''outputs'') location))))
       | _ \<Rightarrow> (document, Err (Yaml_Field (Missing ''inputs'') location))))"

section \<open>One network\<close>

lemma join_network_Ok:
  "join_network network found error = Ok network' \<Longrightarrow> network' = Some found \<and> (\<forall>n. network = Some n \<longrightarrow> n = found)"
  by (auto simp: join_network_def split: option.splits if_splits)

definition grows_to :: "'a option \<Rightarrow> 'a option \<Rightarrow> bool" where
  "grows_to x y \<longleftrightarrow> (\<forall>a. x = Some a \<longrightarrow> y = Some a)"

lemma grows_to_refl [simp]: "grows_to x x" by (simp add: grows_to_def)

lemma grows_to_trans: "grows_to x y \<Longrightarrow> grows_to y z \<Longrightarrow> grows_to x z" by (simp add: grows_to_def)

lemma order_part_Ok:
  assumes "order_part s parsed network_of what name network = Ok (part, network')"
  shows "grows_to network network' \<and> (\<forall>p. part = Some p \<longrightarrow> network' = Some (network_of p)) \<and>
    (part = None \<longleftrightarrow> name = None) \<and>
    (\<forall>k. name = Some k \<longrightarrow> (\<exists>ps. parsed = Ok ps \<and> ps k = part)) \<and> (part = None \<longrightarrow> network' = network)"
  using assms by (auto simp: order_part_def grows_to_def ok_iff split: option.splits dest!: join_network_Ok)

definition uses_network :: "network_cfg option \<Rightarrow> order_io_cfg \<Rightarrow> bool" where
  "uses_network network io \<longleftrightarrow> (\<forall>t. io_token io = Some t \<longrightarrow> network = Some (tk_network t))"

lemma io_token_of_Ok:
  assumes "io_token_of E vt location name network = Ok (token, network')"
  shows "grows_to network network' \<and> (\<forall>t. token = Some t \<longrightarrow> network' = Some (tk_network t)) \<and> (token = None \<longrightarrow> network' = network)"
  using assms
  by (auto simp: io_token_of_def grows_to_def ok_iff split: option.splits if_splits result.splits dest!: join_network_Ok)

lemma parse_order_io_Ok:
  assumes "parse_order_io E vt key i io network = Ok (c, network')"
  shows "grows_to network network' \<and> uses_network network' c"
  using assms by (auto simp: parse_order_io_def Let_def ok_iff uses_network_def dest!: io_token_of_Ok)

lemma parse_order_ios_Ok:
  assumes "parse_order_ios E vt key i ios network = Ok (cs, network')"
  shows "grows_to network network' \<and> (\<forall>c\<in>set cs. uses_network network' c) \<and> length cs = length ios"
  using assms
proof (induction ios arbitrary: i network cs)
  case (Cons io ios)
  then obtain c n1 cs' where one: "parse_order_io E vt key i io network = Ok (c, n1)"
    and rest: "parse_order_ios E vt key (Suc i) ios n1 = Ok (cs', network')" and cs: "cs = c # cs'"
    by (auto simp: ok_iff)
  from parse_order_io_Ok[OF one] Cons.IH[OF rest] show ?case
    by (auto simp: cs uses_network_def grows_to_def)
qed simp

lemma ios_without_tokens:
  assumes "parse_order_ios E vt key i ios network = Ok (cs, network')" "\<forall>c\<in>set cs. io_token c = None"
  shows "network' = network"
  using assms
proof (induction ios arbitrary: i network cs)
  case (Cons io ios)
  then obtain c n1 cs' where one: "parse_order_io E vt key i io network = Ok (c, n1)"
    and rest: "parse_order_ios E vt key (Suc i) ios n1 = Ok (cs', network')" and cs: "cs = c # cs'"
    by (auto simp: ok_iff)
  have "n1 = network"
    using one Cons.prems(2) by (auto simp: cs parse_order_io_def Let_def ok_iff dest!: io_token_of_Ok)
  with Cons.IH[OF rest] Cons.prems(2) show ?case by (simp add: cs)
qed simp

lemma parse_order_parts:
  assumes "parse_order E key y = Ok order"
  obtains n1 n2 n3 inputs outputs where
    "order_part ''rainlangs'' (oe_rainlangs E) rl_network ''Rainlang network'' (optional_string y ''rainlang'') None =
       Ok (od_rainlang order, n1)"
    "order_part ''raindexes'' (oe_raindexes E) rx_network ''Raindex network'' (optional_string y ''raindex'') n1 =
       Ok (od_raindex order, n2)"
    "require_vec y ''inputs'' (Some (''order '' @ quoted key)) = Ok inputs"
    "parse_order_ios E Vault_Input key 0 inputs n2 = Ok (od_inputs order, n3)"
    "require_vec y ''outputs'' (Some (''order '' @ quoted key)) = Ok outputs"
    "parse_order_ios E Vault_Output key 0 outputs n3 = Ok (od_outputs order, Some (od_network order))"
    "od_key order = key" "od_oracle_url order = optional_string y ''oracle-url''"
proof -
  from assms obtain rainlang n1 raindex n2 inputs cs n3 outputs ds n4 where
    "order_part ''rainlangs'' (oe_rainlangs E) rl_network ''Rainlang network'' (optional_string y ''rainlang'') None = Ok (rainlang, n1)"
    "order_part ''raindexes'' (oe_raindexes E) rx_network ''Raindex network'' (optional_string y ''raindex'') n1 = Ok (raindex, n2)"
    "require_vec y ''inputs'' (Some (''order '' @ quoted key)) = Ok inputs"
    "parse_order_ios E Vault_Input key 0 inputs n2 = Ok (cs, n3)"
    "require_vec y ''outputs'' (Some (''order '' @ quoted key)) = Ok outputs"
    "parse_order_ios E Vault_Output key 0 outputs n3 = Ok (ds, Some n4)"
    "order = \<lparr>od_key = key, od_inputs = cs, od_outputs = ds, od_network = n4, od_rainlang = rainlang,
       od_raindex = raindex, od_oracle_url = optional_string y ''oracle-url''\<rparr>"
    by (auto simp: parse_order_def Let_def ok_iff)
  then show thesis by (intro that) simp_all
qed

lemma parse_order_network:
  assumes "parse_order E key y = Ok order"
  shows "od_key order = key \<and>
    (\<forall>r. od_rainlang order = Some r \<longrightarrow> rl_network r = od_network order) \<and>
    (\<forall>r. od_raindex order = Some r \<longrightarrow> rx_network r = od_network order) \<and>
    (\<forall>io\<in>set (od_inputs order @ od_outputs order). \<forall>t. io_token io = Some t \<longrightarrow> tk_network t = od_network order) \<and>
    (od_rainlang order \<noteq> None \<or> od_raindex order \<noteq> None \<or>
     (\<exists>io\<in>set (od_inputs order @ od_outputs order). io_token io \<noteq> None))"
proof -
  from assms show ?thesis
  proof (rule parse_order_parts)
    fix n1 n2 n3 inputs outputs
    assume parts: "order_part ''rainlangs'' (oe_rainlangs E) rl_network ''Rainlang network'' (optional_string y ''rainlang'') None =
         Ok (od_rainlang order, n1)"
      "order_part ''raindexes'' (oe_raindexes E) rx_network ''Raindex network'' (optional_string y ''raindex'') n1 =
         Ok (od_raindex order, n2)"
      and ios: "parse_order_ios E Vault_Input key 0 inputs n2 = Ok (od_inputs order, n3)"
        "parse_order_ios E Vault_Output key 0 outputs n3 = Ok (od_outputs order, Some (od_network order))"
      and key: "od_key order = key"
    note p = order_part_Ok[OF parts(1)] order_part_Ok[OF parts(2)]
    note i = parse_order_ios_Ok[OF ios(1)] parse_order_ios_Ok[OF ios(2)]
    have "n3 = None" if "od_rainlang order = None" "od_raindex order = None" "\<forall>io\<in>set (od_inputs order). io_token io = None"
      using p ios_without_tokens[OF ios(1)] that by simp
    then have "od_rainlang order \<noteq> None \<or> od_raindex order \<noteq> None \<or>
        (\<exists>io\<in>set (od_inputs order @ od_outputs order). io_token io \<noteq> None)"
      using ios_without_tokens[OF ios(2)] by (metis UnCI option.distinct(1) set_append)
    moreover have "\<forall>r. od_rainlang order = Some r \<longrightarrow> rl_network r = od_network order"
      "\<forall>r. od_raindex order = Some r \<longrightarrow> rx_network r = od_network order"
      using p(1)[THEN conjunct2, THEN conjunct1] p(2)[THEN conjunct2, THEN conjunct1] p(2)[THEN conjunct1]
        i(1)[THEN conjunct1] i(2)[THEN conjunct1]
      unfolding grows_to_def by (metis option.inject)+
    moreover have "\<forall>io\<in>set (od_inputs order @ od_outputs order). \<forall>t. io_token io = Some t \<longrightarrow> tk_network t = od_network order"
      using i unfolding uses_network_def grows_to_def by (metis Un_iff option.inject set_append)
    ultimately show ?thesis using key by (intro conjI)
  qed
qed

section \<open>The orders of the documents\<close>

lemma selected_entries_append:
  "selected_entries c (xs @ ys) = selected_entries c xs @ selected_entries c ys"
  by (simp add: selected_entries_def split: option.split)

lemma selected_documents_entries:
  "selected_documents s c p docs m = collect_entries s p (selected_entries c (all_entries s docs)) m"
proof (induction docs arbitrary: m)
  case (Cons d ds)
  then have "selected_documents s c p ds = collect_entries s p (selected_entries c (all_entries s ds))" by (intro ext)
  then show ?case
    by (simp add: require_hash_section collect_entries_append section_entries_def[of _ d] selected_entries_append
        split: option.splits) (simp add: selected_entries_def split: option.splits)
qed (simp add: selected_entries_def split: option.split)

lemma collect_entries_keeps:
  "collect_entries s p es m = Ok m' \<Longrightarrow> m i = Some y \<Longrightarrow> m' i = Some y"
proof (induction es arbitrary: m)
  case (Cons e es)
  obtain j w where e: "e = (j, w)" by force
  let ?j = "case as_str j of Some s \<Rightarrow> s | None \<Rightarrow> []"
  from Cons.prems(1) obtain x where "m ?j = None" and rest: "collect_entries s p es (m(?j \<mapsto> x)) = Ok m'"
    by (auto simp: e ok_iff Let_def simp del: fun_upd_apply split: if_splits)
  with Cons.prems(2) have "(m(?j \<mapsto> x)) i = Some y" by auto
  with Cons.IH[OF rest] show ?case .
qed simp

lemma collect_entries_member:
  assumes "collect_entries s p es m = Ok m'" "(key_yaml, v) \<in> set es"
  defines "k \<equiv> (case as_str key_yaml of Some s \<Rightarrow> s | None \<Rightarrow> [])"
  shows "m k = None \<and> (\<exists>c. m' k = Some c \<and> p k v = Ok c)"
  using assms(1,2)
proof (induction es arbitrary: m)
  case (Cons e es)
  obtain j w where e: "e = (j, w)" by force
  let ?j = "case as_str j of Some s \<Rightarrow> s | None \<Rightarrow> []"
  from Cons.prems(1) obtain x where x: "p ?j w = Ok x" "m ?j = None" and rest: "collect_entries s p es (m(?j \<mapsto> x)) = Ok m'"
    by (auto simp: e ok_iff Let_def simp del: fun_upd_apply split: if_splits)
  show ?case
  proof (cases "(key_yaml, v) \<in> set es")
    case True
    from Cons.IH[OF rest this] show ?thesis by (auto split: if_splits)
  next
    case False
    with Cons.prems(2) e have "j = key_yaml" "w = v" by auto
    with x collect_entries_keeps[OF rest, of ?j x] show ?thesis by (auto simp: k_def)
  qed
qed simp

lemma collect_entries_from:
  assumes "collect_entries s p es m = Ok m'" "m k = None" "m' k = Some c"
  shows "\<exists>key_yaml v. (key_yaml, v) \<in> set es \<and> (case as_str key_yaml of Some s \<Rightarrow> s | None \<Rightarrow> []) = k \<and> p k v = Ok c"
  using assms
proof (induction es arbitrary: m)
  case (Cons e es)
  obtain j w where e: "e = (j, w)" by force
  let ?j = "case as_str j of Some s \<Rightarrow> s | None \<Rightarrow> []"
  from Cons.prems(1) obtain x where x: "p ?j w = Ok x" and rest: "collect_entries s p es (m(?j \<mapsto> x)) = Ok m'"
    by (auto simp: e ok_iff Let_def simp del: fun_upd_apply split: if_splits)
  show ?case
  proof (cases "?j = k")
    case True
    with collect_entries_keeps[OF rest, of k x] Cons.prems(3) x show ?thesis by (auto simp: e)
  next
    case False
    with Cons.IH[OF rest _ Cons.prems(3)] Cons.prems(2) show ?thesis by (auto simp: e)
  qed
qed simp

lemma all_orders_collected:
  assumes "parse_all_orders C context docs = Ok m"
  obtains tokens where
    "order_tokens context (parse_all_tokens (oc_text C) (remote_networks_of context) (remote_tokens_of context) docs) = Ok tokens"
    "collect_entries ''orders'' (parse_order \<lparr>oe_codec = C,
       oe_rainlangs = parse_all_rainlangs (oc_text C) (remote_networks_of context) docs,
       oe_raindexes = parse_all_raindexes (oc_text C) (remote_networks_of context) docs,
       oe_tokens = tokens, oe_context = context\<rparr>)
       (selected_entries (Option.bind context current_order) (all_entries ''orders'' docs)) Map.empty = Ok m"
    "m \<noteq> Map.empty"
  using assms that
  by (auto simp: parse_all_orders_def Let_def ok_iff selected_documents_entries required_def split: if_splits)

lemma parsed_order_network:
  assumes "parse_all_orders C context docs = Ok m" "m k = Some order"
  shows "od_key order = k \<and>
    (\<forall>r. od_rainlang order = Some r \<longrightarrow> rl_network r = od_network order) \<and>
    (\<forall>r. od_raindex order = Some r \<longrightarrow> rx_network r = od_network order) \<and>
    (\<forall>io\<in>set (od_inputs order @ od_outputs order). \<forall>t. io_token io = Some t \<longrightarrow> tk_network t = od_network order) \<and>
    (od_rainlang order \<noteq> None \<or> od_raindex order \<noteq> None \<or>
     (\<exists>io\<in>set (od_inputs order @ od_outputs order). io_token io \<noteq> None))"
proof -
  from assms(1) obtain E entries where
    collected: "collect_entries ''orders'' (parse_order E) entries Map.empty = Ok m"
    by (rule all_orders_collected) blast
  show ?thesis
    by (rule collect_entries_all[OF collected, where P = "\<lambda>k order. od_key order = k \<and>
      (\<forall>r. od_rainlang order = Some r \<longrightarrow> rl_network r = od_network order) \<and>
      (\<forall>r. od_raindex order = Some r \<longrightarrow> rx_network r = od_network order) \<and>
      (\<forall>io\<in>set (od_inputs order @ od_outputs order). \<forall>t. io_token io = Some t \<longrightarrow> tk_network t = od_network order) \<and>
      (od_rainlang order \<noteq> None \<or> od_raindex order \<noteq> None \<or>
       (\<exists>io\<in>set (od_inputs order @ od_outputs order). io_token io \<noteq> None))"])
      (erule parse_order_network, simp, rule assms(2))
qed

text \<open>
  Claim C29. Every order that is read belongs to one network: its rainlang, its raindex and all its known
  tokens are on the network of the order, and at least one of them is there for the network to come from.
\<close>
theorem order_shares_one_network:
  assumes "parse_all_orders C context docs = Ok m" "m k = Some order"
  shows "od_key order = k \<and>
    (\<forall>r. od_rainlang order = Some r \<longrightarrow> rl_network r = od_network order) \<and>
    (\<forall>r. od_raindex order = Some r \<longrightarrow> rx_network r = od_network order) \<and>
    (\<forall>io\<in>set (od_inputs order @ od_outputs order). \<forall>t. io_token io = Some t \<longrightarrow> tk_network t = od_network order) \<and>
    (od_rainlang order \<noteq> None \<or> od_raindex order \<noteq> None \<or>
     (\<exists>io\<in>set (od_inputs order @ od_outputs order). io_token io \<noteq> None))"
  by (rule parsed_order_network[OF assms])

section \<open>The network key read from the document\<close>

lemma parsed_networks_keyed:
  assumes "parse_all_networks T [] docs = Ok nets" "nets n = Some c"
  shows "nc_key c = n"
proof -
  have loop: "parse_network_cfg_entries T es m0 = Ok m \<Longrightarrow> (\<And>k c. m0 k = Some c \<Longrightarrow> nc_key c = k) \<Longrightarrow> m k = Some c \<Longrightarrow> nc_key c = k"
    for es m0 m k c
  proof (induction es arbitrary: m0)
    case (Cons e es)
    obtain j w where e: "e = (j, w)" by force
    let ?j = "case as_str j of Some s \<Rightarrow> s | None \<Rightarrow> []"
    from Cons.prems(1) obtain x where x: "parse_network_cfg T ?j w = Ok x"
      and rest: "parse_network_cfg_entries T es (m0(?j \<mapsto> x)) = Ok m"
      by (auto simp: e ok_iff Let_def simp del: fun_upd_apply split: if_splits)
    from x have "nc_key x = ?j" by (auto simp: parse_network_cfg_def Let_def ok_iff)
    then show ?case by (intro Cons.IH[OF rest _ Cons.prems(3)]) (auto split: if_splits intro: Cons.prems(2))
  qed simp
  from assms(1) have "parse_network_cfg_entries T (all_entries ''networks'' docs) Map.empty = Ok nets"
    by (auto simp: parse_all_networks_def ok_iff parse_network_documents_entries split: if_splits)
  from loop[OF this _ assms(2)] show ?thesis by simp
qed

lemma entry_of_section:
  "require_hash d (Some s) l = Ok h \<Longrightarrow> hash_get (Yaml_String k) h = Some v \<Longrightarrow> d \<in> set docs \<Longrightarrow>
    (Yaml_String k, v) \<in> set (all_entries s docs)"
  by (auto simp: require_hash_def section_entries_def optional_hash_def hash_get_def ok_iff
      dest!: map_of_SomeD intro!: bexI[of _ d] split: option.splits if_splits)

lemma unwrap_network:
  "unwrap_or (require_string v (Some f) l) k = unwrap_string (optional_string v f) k"
  by (auto simp: require_string_def optional_string_def unwrap_string_def split: option.splits)

lemma rainlang_key_found:
  assumes "rainlang_network_key docs k = Ok key" "set docs \<subseteq> set all"
  shows "\<exists>v. (Yaml_String k, v) \<in> set (all_entries ''rainlangs'' all) \<and> key = unwrap_string (optional_string v ''network'') k"
  using assms
proof (induction docs)
  case (Cons d docs)
  then obtain h where h: "require_hash d (Some ''rainlangs'') None = Ok h" by (auto split: result.splits)
  show ?case
  proof (cases "hash_get (Yaml_String k) h")
    case (Some v)
    with Cons.prems h entry_of_section[OF h Some, of all] show ?thesis
      by (intro exI[of _ v]) (simp add: unwrap_network)
  qed (use Cons h in auto)
qed simp

lemma raindex_key_found:
  assumes "raindex_network_key docs k = Ok key" "set docs \<subseteq> set all"
  shows "\<exists>v. (Yaml_String k, v) \<in> set (all_entries ''raindexes'' all) \<and> key = unwrap_string (optional_string v ''network'') k"
  using assms
proof (induction docs)
  case (Cons d docs)
  show ?case
  proof (cases "require_hash d (Some ''raindexes'') None")
    case (Ok h)
    show ?thesis
    proof (cases "hash_get (Yaml_String k) h")
      case (Some v)
      with Cons.prems Ok entry_of_section[OF Ok Some, of all] show ?thesis
        by (intro exI[of _ v]) (simp add: unwrap_network)
    qed (use Cons Ok in auto)
  qed (use Cons in auto)
qed simp

lemma token_key_found:
  assumes "token_network_key docs k = Ok key" "set docs \<subseteq> set all"
  shows "\<exists>v. (Yaml_String k, v) \<in> set (all_entries ''tokens'' all) \<and> optional_string v ''network'' = Some key"
  using assms
proof (induction docs)
  case (Cons d docs)
  show ?case
  proof (cases "require_hash d (Some ''tokens'') None")
    case (Ok h)
    show ?thesis
    proof (cases "hash_get (Yaml_String k) h")
      case (Some v)
      with Cons.prems Ok entry_of_section[OF Ok Some, of all] show ?thesis
        by (intro exI[of _ v]) (auto simp: require_string_def optional_string_def ok_iff split: if_splits)
    qed (use Cons Ok in auto)
  qed (use Cons in auto)
qed simp

lemma rainlang_key_agrees:
  assumes "parse_all_rainlangs T [] docs = Ok rs" "rs k = Some r" "rainlang_network_key docs k = Ok key"
  shows "nc_key (rl_network r) = key"
proof -
  from assms(1) obtain nets where nets: "parse_all_networks T [] docs = Ok nets"
    and found: "collect_entries ''rainlangs'' (parse_rainlang T nets) (all_entries ''rainlangs'' docs) Map.empty = Ok rs"
    by (auto simp: parse_all_rainlangs_def required_def ok_iff collect_documents_entries split: if_splits)
  from rainlang_key_found[OF assms(3) subset_refl] obtain v where
    v: "(Yaml_String k, v) \<in> set (all_entries ''rainlangs'' docs)" "key = unwrap_string (optional_string v ''network'') k" by blast
  from collect_entries_member[OF found v(1)] assms(2) have "parse_rainlang T nets k v = Ok r" by simp
  then have "nets key = Some (rl_network r)" by (auto simp: parse_rainlang_def Let_def ok_iff reference_def v(2))
  then show ?thesis by (rule parsed_networks_keyed[OF nets])
qed

lemma raindex_key_agrees:
  assumes "parse_all_raindexes T [] docs = Ok rs" "rs k = Some r" "raindex_network_key docs k = Ok key"
  shows "nc_key (rx_network r) = key"
proof -
  from assms(1) obtain nets sgs remotes where nets: "parse_all_networks T [] docs = Ok nets"
    and found: "collect_entries ''raindexes'' (parse_raindex T nets sgs remotes) (all_entries ''raindexes'' docs) Map.empty = Ok rs"
    by (auto simp: parse_all_raindexes_def required_def ok_iff collect_documents_entries split: if_splits)
  from raindex_key_found[OF assms(3) subset_refl] obtain v where
    v: "(Yaml_String k, v) \<in> set (all_entries ''raindexes'' docs)" "key = unwrap_string (optional_string v ''network'') k" by blast
  from collect_entries_member[OF found v(1)] assms(2) have "parse_raindex T nets sgs remotes k v = Ok r" by simp
  then have "nets key = Some (rx_network r)" by (auto simp: parse_raindex_def Let_def ok_iff reference_def v(2))
  then show ?thesis by (rule parsed_networks_keyed[OF nets])
qed

lemma token_key_agrees:
  assumes "parse_all_tokens T [] [] docs = Ok ts" "token_network_key docs k = Ok key"
  shows "\<exists>t. ts k = Some t \<and> nc_key (tk_network t) = key"
proof -
  from assms(1) obtain nets where nets: "parse_all_networks T [] docs = Ok nets"
    and found: "collect_entries ''tokens'' (parse_token T nets) (all_entries ''tokens'' docs) Map.empty = Ok ts"
    by (auto simp: parse_all_tokens_def local_tokens_def required_def ok_iff collect_documents_entries split: if_splits)
  from token_key_found[OF assms(2) subset_refl] obtain v where
    v: "(Yaml_String k, v) \<in> set (all_entries ''tokens'' docs)" "optional_string v ''network'' = Some key" by blast
  from collect_entries_member[OF found v(1)] obtain t where t: "ts k = Some t" "parse_token T nets k v = Ok t" by auto
  then have "nets key = Some (tk_network t)"
    using v(2) by (auto simp: parse_token_def Let_def ok_iff reference_def require_string_def optional_string_def split: if_splits)
  with t(1) parsed_networks_keyed[OF nets] show ?thesis by blast
qed

definition agrees :: "string option \<Rightarrow> network_cfg option \<Rightarrow> bool" where
  "agrees network_key network \<longleftrightarrow> (\<forall>n. network_key = Some n \<longrightarrow> (\<exists>c. network = Some c \<and> nc_key c = n))"

lemma join_key_Ok:
  "join_key network_key key error = Ok network_key' \<Longrightarrow> network_key' = Some key \<and> (\<forall>n. network_key = Some n \<longrightarrow> n = key)"
  by (auto simp: join_key_def split: option.splits if_splits)

lemma part_key_agrees:
  assumes "part_network_key key_of what name (map_option nc_key n) = Ok nk"
    and "order_part s parsed network_of what' name n = Ok (part, n')"
    and "\<And>k ps r key. parsed = Ok ps \<Longrightarrow> ps k = Some r \<Longrightarrow> key_of k = Ok key \<Longrightarrow> nc_key (network_of r) = key"
  shows "nk = map_option nc_key n'"
proof (cases name)
  case (Some k)
  with assms(1,2) obtain key ps r where "key_of k = Ok key" "parsed = Ok ps" "ps k = Some r"
    and nk: "join_key (map_option nc_key n) key (mismatch what) = Ok nk"
    and n': "join_network n (network_of r) (mismatch what') = Ok n'"
    by (auto simp: part_network_key_def order_part_def ok_iff)
  with assms(3) join_key_Ok[OF nk] join_network_Ok[OF n'] show ?thesis by simp
qed (use assms(1,2) in \<open>simp add: part_network_key_def order_part_def\<close>)

lemma io_key_Cons:
  assumes "io_network_key docs vt key i (io # ios) nk = Ok nk'"
  obtains token nk1 where "require_string io (Some ''token'') (Some (io_location vt i key)) = Ok token"
    "(case token_network_key docs token of Ok k \<Rightarrow>
        if vt = Vault_Output \<and> nk = None then Ok nk else join_key nk k (token_mismatch vt token)
      | Err _ \<Rightarrow> Ok nk) = Ok nk1"
    "io_network_key docs vt key (Suc i) ios nk1 = Ok nk'"
  using assms by (auto simp: ok_iff)

lemma io_key_grows: "io_network_key docs vt key i ios nk = Ok nk' \<Longrightarrow> grows_to nk nk'"
proof (induction ios arbitrary: i nk)
  case (Cons io ios)
  from Cons.prems show ?case
  proof (rule io_key_Cons)
    fix token nk1
    assume "(case token_network_key docs token of Ok k \<Rightarrow>
        if vt = Vault_Output \<and> nk = None then Ok nk else join_key nk k (token_mismatch vt token)
      | Err _ \<Rightarrow> Ok nk) = Ok nk1" and rest: "io_network_key docs vt key (Suc i) ios nk1 = Ok nk'"
    then have "grows_to nk nk1"
      by (auto simp: grows_to_def split: result.splits if_splits dest!: join_key_Ok)
    with Cons.IH[OF rest] show ?thesis using grows_to_trans by blast
  qed
qed simp

lemma io_key_agrees:
  assumes "oe_tokens E = Ok ts" "\<And>k key. token_network_key docs k = Ok key \<Longrightarrow> \<exists>t. ts k = Some t \<and> nc_key (tk_network t) = key"
  shows "io_network_key docs vt key i ios nk = Ok nk' \<Longrightarrow> parse_order_ios E vt key i ios n = Ok (cs, n') \<Longrightarrow>
    agrees nk n \<Longrightarrow> agrees nk' n'"
proof (induction ios arbitrary: i nk n cs)
  case (Cons io ios)
  let ?loc = "Some (io_location vt i key)"
  from Cons.prems(1) obtain token nk1 where token: "require_string io (Some ''token'') ?loc = Ok token"
    and nk1: "(case token_network_key docs token of Ok k \<Rightarrow>
        if vt = Vault_Output \<and> nk = None then Ok nk else join_key nk k (token_mismatch vt token)
      | Err _ \<Rightarrow> Ok nk) = Ok nk1"
    and rest_key: "io_network_key docs vt key (Suc i) ios nk1 = Ok nk'"
    using io_key_Cons[OF Cons.prems(1)] by blast
  from Cons.prems(2) obtain c n1 cs' where one: "parse_order_io E vt key i io n = Ok (c, n1)"
    and rest: "parse_order_ios E vt key (Suc i) ios n1 = Ok (cs', n')" by (auto simp: ok_iff)
  from one token obtain t where t: "io_token_of E vt (io_location vt i key) token n = Ok (t, n1)"
    by (auto simp: parse_order_io_def Let_def ok_iff)
  have grown: "grows_to n n1" using io_token_of_Ok[OF t] by simp
  have "agrees nk1 n1"
  proof (cases "token_network_key docs token")
    case (Ok k)
    with assms(2) obtain u where u: "ts token = Some u" "nc_key (tk_network u) = k" by blast
    with t assms(1) have "n1 = Some (tk_network u)" by (auto simp: io_token_of_def ok_iff dest!: join_network_Ok)
    with nk1 Ok u(2) show ?thesis by (auto simp: agrees_def split: if_splits dest!: join_key_Ok)
  next
    case Err
    with nk1 Cons.prems(3) grown show ?thesis by (auto simp: agrees_def grows_to_def)
  qed
  from Cons.IH[OF rest_key rest this] show ?case .
qed simp

lemma order_key_agrees:
  assumes E: "oe_rainlangs E = parse_all_rainlangs T [] docs" "oe_raindexes E = parse_all_raindexes T [] docs"
      "oe_tokens E = parse_all_tokens T [] [] docs" "oe_context E = None"
    and order: "parse_order E k y = Ok order" and key: "order_yaml_network_key docs k y None = Ok (Some n)"
  shows "n = nc_key (od_network order)"
proof -
  from order show ?thesis
  proof (rule parse_order_parts)
    fix n1 n2 n3 inputs outputs
    assume parts: "order_part ''rainlangs'' (oe_rainlangs E) rl_network ''Rainlang network'' (optional_string y ''rainlang'') None =
         Ok (od_rainlang order, n1)"
      "order_part ''raindexes'' (oe_raindexes E) rx_network ''Raindex network'' (optional_string y ''raindex'') n1 =
         Ok (od_raindex order, n2)"
      and ios: "require_vec y ''inputs'' (Some (''order '' @ quoted k)) = Ok inputs"
        "parse_order_ios E Vault_Input k 0 inputs n2 = Ok (od_inputs order, n3)"
        "require_vec y ''outputs'' (Some (''order '' @ quoted k)) = Ok outputs"
        "parse_order_ios E Vault_Output k 0 outputs n3 = Ok (od_outputs order, Some (od_network order))"
    from key ios(1,3) obtain k1 k2 k3 where
      keys: "part_network_key (rainlang_network_key docs) ''Rainlang network'' (optional_string y ''rainlang'') (map_option nc_key (None :: network_cfg option)) = Ok k1"
        "part_network_key (raindex_network_key docs) ''Raindex network'' (optional_string y ''raindex'') k1 = Ok k2"
        "io_network_key docs Vault_Input k 0 inputs k2 = Ok k3" "io_network_key docs Vault_Output k 0 outputs k3 = Ok (Some n)"
      by (auto simp: order_yaml_network_key_def Let_def ok_iff)
    have k1: "k1 = map_option nc_key n1"
      by (rule part_key_agrees[OF keys(1) parts(1)]) (auto simp: E intro: rainlang_key_agrees)
    have k2: "k2 = map_option nc_key n2"
      by (rule part_key_agrees[OF keys(2)[unfolded k1] parts(2)]) (auto simp: E intro: raindex_key_agrees)
    show ?thesis
    proof (cases "oe_tokens E")
      case (Ok ts)
      note tokens = token_key_agrees[OF Ok[unfolded E(3)]]
      have "agrees k2 n2" by (auto simp: agrees_def k2)
      with keys(3) ios(2) have "agrees k3 n3" by (rule io_key_agrees[OF Ok tokens, rotated])
      with keys(4) ios(4) have "agrees (Some n) (Some (od_network order))" by (rule io_key_agrees[OF Ok tokens, rotated])
      then show ?thesis by (simp add: agrees_def)
    next
      case (Err e)
      have none: "parse_order_ios E vt k i ios m = Ok (cs, m') \<Longrightarrow> m' = m" for vt i ios m cs m'
      proof (induction ios arbitrary: i m cs)
        case (Cons io ios)
        then show ?case
          by (auto simp: ok_iff parse_order_io_def io_token_of_def Let_def Err E(4))
      qed simp
      from none[OF ios(2)] none[OF ios(4)] have "n2 = Some (od_network order)" by simp
      then have "k2 = Some (nc_key (od_network order))" by (simp add: k2)
      with io_key_grows[OF keys(3)] io_key_grows[OF keys(4)] show ?thesis by (simp add: grows_to_def)
    qed
  qed
qed

lemma order_yaml_key_grows:
  assumes "order_yaml_network_key docs k y nk = Ok nk'" shows "grows_to nk nk'"
proof -
  have part: "part_network_key key_of what name m = Ok m' \<Longrightarrow> grows_to m m'" for key_of what name m m'
    by (auto simp: part_network_key_def grows_to_def ok_iff split: option.splits dest!: join_key_Ok)
  from assms show ?thesis
    by (auto simp: order_yaml_network_key_def Let_def ok_iff dest!: part io_key_grows) (meson grows_to_trans)
qed

lemma order_yaml_in_entries:
  "order_yaml_in k d = Some y \<Longrightarrow> d \<in> set docs \<Longrightarrow> (Yaml_String k, y) \<in> set (all_entries ''orders'' docs)"
  unfolding order_yaml_in_def by (cases "require_hash d (Some ''orders'') None") (auto intro: entry_of_section simp del: set_concat)

text \<open>
  Claim C30. The network key that is read from an order without parsing the settings is the key of the
  network that the parsed order belongs to.
\<close>
theorem order_network_key_agrees:
  assumes "parse_all_orders C None docs = Ok m" "m k = Some order" "order_network_key docs k = Ok n"
  shows "nc_key (od_network order) = n"
proof -
  let ?T = "oc_text C"
  let ?E = "\<lparr>oe_codec = C, oe_rainlangs = parse_all_rainlangs ?T [] docs, oe_raindexes = parse_all_raindexes ?T [] docs,
    oe_tokens = parse_all_tokens ?T [] [] docs, oe_context = None\<rparr>"
  from assms(1) have collected: "collect_entries ''orders'' (parse_order ?E) (all_entries ''orders'' docs) Map.empty = Ok m"
    by (rule all_orders_collected) (simp add: order_tokens_def selected_entries_def remote_networks_of_def remote_tokens_of_def)
  have parsed: "parse_order ?E k y = Ok order" if "order_yaml_in k d = Some y" "d \<in> set docs" for d y
    using collect_entries_member[OF collected order_yaml_in_entries[OF that]] assms(2) by simp
  have "nk' = Some n \<Longrightarrow> (\<forall>j. nk = Some j \<longrightarrow> j = nc_key (od_network order)) \<Longrightarrow> n = nc_key (od_network order)"
    if "network_key_in docs k ds nk = Ok nk'" "set ds \<subseteq> set docs" for ds nk nk'
    using that
  proof (induction ds arbitrary: nk)
    case (Cons d ds)
    show ?case
    proof (cases "order_yaml_in k d")
      case None
      with Cons show ?thesis by simp
    next
      case (Some y)
      with Cons.prems(3) obtain nk1 where one: "order_yaml_network_key docs k y nk = Ok nk1"
        and rest: "network_key_in docs k ds nk1 = Ok nk'" by (auto simp: ok_iff)
      have y: "parse_order ?E k y = Ok order" using parsed Some Cons.prems(4) by simp
      have "\<forall>j. nk1 = Some j \<longrightarrow> j = nc_key (od_network order)"
      proof (cases nk)
        case None
        with one order_key_agrees[OF _ _ _ _ y, of ?T docs] show ?thesis by auto
      next
        case (Some i)
        with order_yaml_key_grows[OF one] Cons.prems(2) show ?thesis by (simp add: grows_to_def)
      qed
      with Cons.IH[OF Cons.prems(1) _ rest] Cons.prems(4) show ?thesis by simp
    qed
  qed simp
  with assms(3) show ?thesis by (force simp: order_network_key_def ok_iff)
qed

section \<open>Reading only the current order\<close>

lemma collect_single:
  assumes "collect_entries s p es m = Ok m'" "m k = None" "m' k = Some c"
  shows "collect_entries s p (selected_entries (Some k) es) Map.empty = Ok [k \<mapsto> c]"
  using assms
proof (induction es arbitrary: m)
  case (Cons e es)
  obtain j w where e: "e = (j, w)" by force
  let ?j = "case as_str j of Some s \<Rightarrow> s | None \<Rightarrow> []"
  from Cons.prems(1) obtain x where x: "p ?j w = Ok x" "m ?j = None" and rest: "collect_entries s p es (m(?j \<mapsto> x)) = Ok m'"
    by (auto simp: e ok_iff Let_def simp del: fun_upd_apply split: if_splits)
  show ?case
  proof (cases "?j = k")
    case True
    have "selected_entries (Some k) es = []"
    proof (rule ccontr)
      assume "selected_entries (Some k) es \<noteq> []"
      then obtain i v where "(i, v) \<in> set es" "(case as_str i of Some s \<Rightarrow> s | None \<Rightarrow> []) = k"
        by (auto simp: selected_entries_def filter_empty_conv)
      with collect_entries_member[OF rest this(1)] True show False by simp
    qed
    moreover from collect_entries_keeps[OF rest, of k x] True Cons.prems(3) have "x = c" by simp
    ultimately show ?thesis using x(1) True by (simp add: e selected_entries_def Let_def fun_upd_def)
  next
    case False
    then have "selected_entries (Some k) (e # es) = selected_entries (Some k) es" by (simp add: e selected_entries_def)
    with Cons.IH[OF rest _ Cons.prems(3)] Cons.prems(2) False show ?thesis by simp
  qed
qed simp

lemma parse_order_scope:
  "parse_order (E\<lparr>oe_context := Some (add_current_order k cx)\<rparr>) = parse_order (E\<lparr>oe_context := Some cx\<rparr>)"
proof -
  let ?E = "E\<lparr>oe_context := Some (add_current_order k cx)\<rparr>" and ?F = "E\<lparr>oe_context := Some cx\<rparr>"
  have "is_select_token (add_current_order k cx) = is_select_token cx"
    by (simp add: fun_eq_iff is_select_token_def add_current_order_def)
  then have io: "parse_order_io ?E vt key i io = parse_order_io ?F vt key i io" for vt key i io
    by (simp add: fun_eq_iff parse_order_io_def io_token_of_def cong: option.case_cong)
  have "parse_order_ios ?E vt key i ios = parse_order_ios ?F vt key i ios" for vt key i ios
    by (induction ios arbitrary: i) (simp_all add: fun_eq_iff io)
  then show ?thesis by (simp add: fun_eq_iff parse_order_def)
qed

lemma scoped_order:
  assumes "parse_all_orders C (Some cx) docs = Ok m" "current_order cx = None" "m k = Some order"
  shows "parse_all_orders C (Some (add_current_order k cx)) docs = Ok [k \<mapsto> order]"
proof -
  let ?T = "oc_text C" and ?cx = "add_current_order k cx"
  have same: "remote_networks_of (Some ?cx) = remote_networks_of (Some cx)" "remote_tokens_of (Some ?cx) = remote_tokens_of (Some cx)"
    "order_tokens (Some ?cx) = order_tokens (Some cx)" "current_order ?cx = Some k"
    by (simp_all add: fun_eq_iff remote_networks_of_def remote_tokens_of_def order_tokens_def add_current_order_def
        current_order_def split: option.split)
  from assms(1) show ?thesis
  proof (rule all_orders_collected)
    fix tokens
    let ?E = "\<lambda>cx. \<lparr>oe_codec = C, oe_rainlangs = parse_all_rainlangs ?T (remote_networks_of (Some cx)) docs,
       oe_raindexes = parse_all_raindexes ?T (remote_networks_of (Some cx)) docs, oe_tokens = tokens, oe_context = Some cx\<rparr>"
    assume tokens: "order_tokens (Some cx) (parse_all_tokens ?T (remote_networks_of (Some cx)) (remote_tokens_of (Some cx)) docs) = Ok tokens"
      and found: "collect_entries ''orders'' (parse_order (?E cx)) (selected_entries (Option.bind (Some cx) current_order)
        (all_entries ''orders'' docs)) Map.empty = Ok m"
    have "parse_order (?E ?cx) = parse_order (?E cx)" using parse_order_scope[where E = "?E cx" and k = k and cx = cx] by (simp add: same)
    with collect_single[OF found _ assms(3)]
    have "collect_entries ''orders'' (parse_order (?E ?cx)) (selected_entries (Some k) (all_entries ''orders'' docs)) Map.empty = Ok [k \<mapsto> order]"
      by (simp add: assms(2) selected_entries_def[of None])
    with tokens show ?thesis
      by (simp add: parse_all_orders_def Let_def same selected_documents_entries required_def)
  qed
qed

section \<open>Document and configuration in step\<close>

definition reads_order :: "order_env \<Rightarrow> strict_yaml \<Rightarrow> order_cfg \<Rightarrow> bool" where
  "reads_order E document order \<longleftrightarrow>
     (\<exists>y. order_yaml_in (od_key order) document = Some y \<and> parse_order E (od_key order) y = Ok order)"

lemma require_vec_hash:
  "require_vec y f l = Ok items \<longleftrightarrow> (\<exists>h. y = Yaml_Hash h \<and> hash_get (Yaml_String f) h = Some (Yaml_Array items))"
proof
  assume ok: "require_vec y f l = Ok items"
  then have "yaml_index y f = Yaml_Array items"
    by (cases "yaml_index y f") (auto simp: require_vec_def ok_iff split: if_splits)
  then show "\<exists>h. y = Yaml_Hash h \<and> hash_get (Yaml_String f) h = Some (Yaml_Array items)"
    by (cases y) (auto simp: yaml_index_def split: option.splits)
qed (auto simp: require_vec_def)

lemma require_token:
  "require_string io (Some f) l = Ok t \<longleftrightarrow> (\<exists>h. io = Yaml_Hash h \<and> hash_get (Yaml_String f) h = Some (Yaml_String t))"
proof
  assume ok: "require_string io (Some f) l = Ok t"
  then have "yaml_index io f = Yaml_String t"
    by (cases "yaml_index io f") (auto simp: require_string_def ok_iff split: if_splits)
  then show "\<exists>h. io = Yaml_Hash h \<and> hash_get (Yaml_String f) h = Some (Yaml_String t)"
    by (cases io) (auto simp: yaml_index_def split: option.splits)
qed (auto simp: require_string_def)

lemma order_slot_reads:
  assumes "order_yaml_in key document = Some (Yaml_Hash oh)"
  obtains dh os where "order_slot key document = Ok (dh, os, oh)"
proof -
  from assms obtain os where os: "require_hash document (Some ''orders'') None = Ok os" "hash_get (Yaml_String key) os = Some (Yaml_Hash oh)"
    by (auto simp: order_yaml_in_def split: result.splits)
  then have "yaml_index document ''orders'' = Yaml_Hash os"
    by (cases "yaml_index document ''orders''") (auto simp: require_hash_def ok_iff split: if_splits)
  then obtain dh where "document = Yaml_Hash dh" "hash_get (Yaml_String ''orders'') dh = Some (Yaml_Hash os)"
    by (cases document) (auto simp: yaml_index_def split: option.splits)
  with os(2) show thesis by (intro that[of dh os]) (simp add: order_slot_def)
qed

lemma order_slot_Ok:
  assumes "order_slot key document = Ok (dh, os, oh)"
  shows "document = Yaml_Hash dh" "hash_get (Yaml_String ''orders'') dh = Some (Yaml_Hash os)"
    "hash_get (Yaml_String key) os = Some (Yaml_Hash oh)"
proof -
  obtain h where document: "document = Yaml_Hash h" using assms by (cases document) (simp_all add: order_slot_def)
  obtain g where orders: "hash_get (Yaml_String ''orders'') h = Some (Yaml_Hash g)"
    using assms unfolding document order_slot_def by (simp split: option.split_asm strict_yaml.split_asm)
  obtain f where "hash_get (Yaml_String key) g = Some (Yaml_Hash f)"
    using assms unfolding document order_slot_def by (simp add: orders split: option.split_asm strict_yaml.split_asm)
  with assms document orders show "document = Yaml_Hash dh" "hash_get (Yaml_String ''orders'') dh = Some (Yaml_Hash os)"
    "hash_get (Yaml_String key) os = Some (Yaml_Hash oh)" by (simp_all add: order_slot_def)
qed

lemma put_order_reads:
  assumes "order_slot key document = Ok (dh, os, oh)"
  shows "order_yaml_in k (put_order key dh os oh') = (if k = key then Some (Yaml_Hash oh') else order_yaml_in k document)"
    "s \<noteq> ''orders'' \<Longrightarrow> yaml_index (put_order key dh os oh') s = yaml_index document s"
proof -
  note slot = order_slot_Ok[OF assms]
  then show "order_yaml_in k (put_order key dh os oh') = (if k = key then Some (Yaml_Hash oh') else order_yaml_in k document)"
    by (simp add: put_order_def order_yaml_in_def require_hash_def hash_get_update)
  show "yaml_index (put_order key dh os oh') s = yaml_index document s" if "s \<noteq> ''orders''"
    using that slot by (simp add: put_order_def hash_get_update)
qed

lemma names_token_parsed:
  "parse_order_io E vt key i item n = Ok (c, n') \<Longrightarrow> names_token token item \<longleftrightarrow> io_token_key c = token"
  by (auto simp: parse_order_io_def Let_def ok_iff require_token names_token_def)

lemma parse_order_ios_nth:
  assumes "parse_order_ios E vt key i items n = Ok (cs, n')" "j < length items"
  shows "\<exists>m m'. parse_order_io E vt key (i + j) (items ! j) m = Ok (cs ! j, m')"
  using assms
proof (induction items arbitrary: i n cs j)
  case (Cons io items)
  then obtain c n1 cs' where one: "parse_order_io E vt key i io n = Ok (c, n1)"
    and rest: "parse_order_ios E vt key (Suc i) items n1 = Ok (cs', n')" and cs: "cs = c # cs'"
    by (auto simp: ok_iff)
  show ?case
  proof (cases j)
    case 0
    with one cs show ?thesis by auto
  next
    case (Suc k)
    with Cons.IH[OF rest, of k] Cons.prems(2) cs show ?thesis by simp
  qed
qed simp

lemma parse_order_ios_replace:
  assumes "parse_order_ios E vt key i items n = Ok (cs, n')" "length items' = length items" "length cs' = length cs"
    and "\<And>j m m'. j < length items \<Longrightarrow> parse_order_io E vt key (i + j) (items ! j) m = Ok (cs ! j, m') \<Longrightarrow>
      parse_order_io E vt key (i + j) (items' ! j) m = Ok (cs' ! j, m')"
  shows "parse_order_ios E vt key i items' n = Ok (cs', n')"
  using assms
proof (induction items arbitrary: i n cs items' cs')
  case (Cons io items)
  from Cons.prems(1) obtain c n1 ds where one: "parse_order_io E vt key i io n = Ok (c, n1)"
    and rest: "parse_order_ios E vt key (Suc i) items n1 = Ok (ds, n')" and cs: "cs = c # ds"
    by (auto simp: ok_iff)
  from Cons.prems(2,3) cs obtain io' items'' c' ds' where new: "items' = io' # items''" "cs' = c' # ds'"
    and len: "length items'' = length items" "length ds' = length ds"
    by (cases items'; cases cs') auto
  have "parse_order_io E vt key i io' n = Ok (c', n1)"
    using Cons.prems(4)[of 0 n n1] one by (simp add: new cs)
  moreover have "parse_order_ios E vt key (Suc i) items'' n1 = Ok (ds', n')"
    by (rule Cons.IH[OF rest len]) (use Cons.prems(4) in \<open>force simp: new cs\<close>)
  ultimately show ?case by (simp add: new)
qed simp

lemma token_position_Some:
  "token_position token items = Some i \<longleftrightarrow>
    i < length items \<and> names_token token (items ! i) \<and> (\<forall>j<i. \<not> names_token token (items ! j))"
proof (induction items arbitrary: i)
  case (Cons item items)
  show ?case by (cases i) (auto simp: Cons All_less_Suc2)
qed simp

lemma token_position_None: "token_position token items = None \<longleftrightarrow> (\<forall>item\<in>set items. \<not> names_token token item)"
  by (induction items) auto

lemma parse_order_side:
  assumes "parse_order E key (Yaml_Hash h) = Ok order"
  obtains items n n' where "hash_get (Yaml_String (side_name vt)) h = Some (Yaml_Array items)"
    "parse_order_ios E vt key 0 items n = Ok (ios_of vt order, n')"
  using assms
proof (rule parse_order_parts)
  fix n2 n3 inputs outputs
  assume "require_vec (Yaml_Hash h) ''inputs'' (Some (''order '' @ quoted key)) = Ok inputs"
    "parse_order_ios E Vault_Input key 0 inputs n2 = Ok (od_inputs order, n3)"
    "require_vec (Yaml_Hash h) ''outputs'' (Some (''order '' @ quoted key)) = Ok outputs"
    "parse_order_ios E Vault_Output key 0 outputs n3 = Ok (od_outputs order, Some (od_network order))"
  with that show ?thesis by (cases vt) (auto simp: require_vec_hash)
qed

lemma parse_order_replace:
  assumes "parse_order E key y = Ok order"
    and vecs: "\<And>f l. require_vec y' f l = (if f = side_name vt then Ok items' else require_vec y f l)"
    and strings: "\<And>f. f \<noteq> side_name vt \<Longrightarrow> optional_string y' f = optional_string y f"
    and ios: "\<And>l items n n'. require_vec y (side_name vt) l = Ok items \<Longrightarrow> parse_order_ios E vt key 0 items n = Ok (ios_of vt order, n')
      \<Longrightarrow> parse_order_ios E vt key 0 items' n = Ok (ios', n')"
  shows "parse_order E key y' = Ok (with_ios vt ios' order)"
  using assms(1)
proof (rule parse_order_parts)
  have sides: "side_name vt \<noteq> ''rainlang''" "side_name vt \<noteq> ''raindex''" "side_name vt \<noteq> ''oracle-url''" by (cases vt; simp)+
  fix n1 n2 n3 inputs outputs
  assume parts: "order_part ''rainlangs'' (oe_rainlangs E) rl_network ''Rainlang network'' (optional_string y ''rainlang'') None =
       Ok (od_rainlang order, n1)"
    "order_part ''raindexes'' (oe_raindexes E) rx_network ''Raindex network'' (optional_string y ''raindex'') n1 =
       Ok (od_raindex order, n2)"
    and sides_ok: "require_vec y ''inputs'' (Some (''order '' @ quoted key)) = Ok inputs"
      "parse_order_ios E Vault_Input key 0 inputs n2 = Ok (od_inputs order, n3)"
      "require_vec y ''outputs'' (Some (''order '' @ quoted key)) = Ok outputs"
      "parse_order_ios E Vault_Output key 0 outputs n3 = Ok (od_outputs order, Some (od_network order))"
    and rest: "od_key order = key" "od_oracle_url order = optional_string y ''oracle-url''"
  show ?thesis
  proof (cases vt)
    case Vault_Input
    with ios[of _ inputs n2 n3] sides_ok have "parse_order_ios E Vault_Input key 0 items' n2 = Ok (ios', n3)" by simp
    with Vault_Input parts sides_ok rest sides strings show ?thesis
      unfolding parse_order_def Let_def vecs by (cases order) simp
  next
    case Vault_Output
    with ios[of _ outputs n3 "Some (od_network order)"] sides_ok
    have "parse_order_ios E Vault_Output key 0 items' n3 = Ok (ios', Some (od_network order))" by simp
    with Vault_Output parts sides_ok rest sides strings show ?thesis
      unfolding parse_order_def Let_def vecs by (cases order) simp
  qed
qed

lemma parse_order_with_ios:
  assumes "parse_order E key (Yaml_Hash h) = Ok order" "hash_get (Yaml_String (side_name vt)) h = Some (Yaml_Array items)"
    and "\<And>n n'. parse_order_ios E vt key 0 items n = Ok (ios_of vt order, n') \<Longrightarrow> parse_order_ios E vt key 0 items' n = Ok (ios', n')"
  shows "parse_order E key (Yaml_Hash (hash_update (Yaml_String (side_name vt)) (Yaml_Array items') h)) = Ok (with_ios vt ios' order)"
proof (rule parse_order_replace[OF assms(1)])
  let ?y = "Yaml_Hash (hash_update (Yaml_String (side_name vt)) (Yaml_Array items') h)"
  have index: "yaml_index ?y f = (if f = side_name vt then Yaml_Array items' else yaml_index (Yaml_Hash h) f)" for f
    using assms(2) by (auto simp: hash_get_update)
  show "require_vec ?y f l = (if f = side_name vt then Ok items' else require_vec (Yaml_Hash h) f l)" for f l
    unfolding require_vec_def index by simp
  show "optional_string ?y f = optional_string (Yaml_Hash h) f" if "f \<noteq> side_name vt" for f
    using that by (simp only: optional_string_def index if_False)
qed (use assms(2,3) in \<open>simp add: require_vec_hash\<close>)

definition vault_ids_print :: "order_codec \<Rightarrow> bool" where
  \<comment> \<open>a printed 256-bit number is parsed to itself\<close>
  "vault_ids_print C \<longleftrightarrow> (\<forall>v. oc_parse_u256 C (show_word v) = Ok v)"

lemma parse_written_io:
  assumes "parse_order_io E vt key i (Yaml_Hash h) n = Ok (c, n')" "vault_ids_print (oe_codec E)"
  shows "parse_order_io E vt key i (Yaml_Hash (write_vault_id v h)) n = Ok (c\<lparr>io_vault_id := v\<rparr>, n')"
proof -
  have get: "hash_get (Yaml_String f) (write_vault_id v h) =
      (if f = ''vault-id'' then map_option (\<lambda>v. Yaml_String (show_word v)) v else hash_get (Yaml_String f) h)" for f
    by (simp add: write_vault_id_def hash_get_remove split: option.split)
  have token: "require_string (Yaml_Hash (write_vault_id v h)) (Some ''token'') l = require_string (Yaml_Hash h) (Some ''token'') l" for l
    by (simp add: require_string_def get)
  have vault: "vault_id_of (oe_codec E) l (Yaml_Hash (write_vault_id v h)) = Ok v" for l
    using assms(2) by (simp add: vault_id_of_def optional_string_def get opt_result_def validate_vault_id_def
        vault_ids_print_def split: option.split)
  from assms(1) show ?thesis
    by (auto simp: parse_order_io_def Let_def token vault ok_iff)
qed

lemma reads_order_side:
  assumes "reads_order E document order"
  obtains dh os oh items n n' where "order_slot (od_key order) document = Ok (dh, os, oh)"
    "parse_order E (od_key order) (Yaml_Hash oh) = Ok order"
    "hash_get (Yaml_String (side_name vt)) oh = Some (Yaml_Array items)"
    "parse_order_ios E vt (od_key order) 0 items n = Ok (ios_of vt order, n')"
proof -
  from assms obtain y where y: "order_yaml_in (od_key order) document = Some y" "parse_order E (od_key order) y = Ok order"
    by (auto simp: reads_order_def)
  from y(2) obtain oh where oh: "y = Yaml_Hash oh" by (rule parse_order_parts) (auto simp: require_vec_hash)
  from y(2) have parsed: "parse_order E (od_key order) (Yaml_Hash oh) = Ok order" by (simp add: oh)
  obtain dh os where slot: "order_slot (od_key order) document = Ok (dh, os, oh)"
    using order_slot_reads[OF y(1)[unfolded oh]] by blast
  show thesis using parse_order_side[OF parsed, of vt] that[OF slot parsed] by blast
qed

lemma od_key_with_ios [simp]: "od_key (with_ios vt ios order) = od_key order"
  by (cases vt) simp_all

lemma ios_of_with_ios [simp]: "ios_of vt (with_ios vt ios order) = ios"
  by (cases vt) simp_all

text \<open>
  Claim C31. Setting or removing the vault id of a token of an order keeps the document and the
  configuration in step: parsing the written document gives the updated configuration, in which only the
  first entry of the token has changed, and the other orders and sections of the document stay. The only
  error, once the vault id is a valid number, is a token that the order does not have, and then nothing
  is written.
\<close>
theorem update_vault_id_in_step:
  assumes "reads_order E document order" "vault_ids_print (oe_codec E)"
    and "new_vault_id (oe_codec E) vt token (od_key order) vault_id = Ok new_id"
  shows "(case update_vault_id (oe_codec E) vt token vault_id order document of
      (document', Ok order') \<Rightarrow>
        reads_order E document' order' \<and>
        (\<forall>k. k \<noteq> od_key order \<longrightarrow> order_yaml_in k document' = order_yaml_in k document) \<and>
        (\<forall>s. s \<noteq> ''orders'' \<longrightarrow> yaml_index document' s = yaml_index document s) \<and>
        (\<exists>i < length (ios_of vt order). io_token_key (ios_of vt order ! i) = token \<and>
           (\<forall>j < i. io_token_key (ios_of vt order ! j) \<noteq> token) \<and>
           order' = with_ios vt ((ios_of vt order)[i := (ios_of vt order ! i)\<lparr>io_vault_id := new_id\<rparr>]) order)
    | (document', Err e) \<Rightarrow> document' = document \<and> token \<notin> io_token_key ` set (ios_of vt order))"
proof -
  from assms(1) show ?thesis
  proof (rule reads_order_side)
    fix dh os oh items n n'
    let ?ios = "ios_of vt order" and ?key = "od_key order"
    assume slot: "order_slot ?key document = Ok (dh, os, oh)" and order: "parse_order E ?key (Yaml_Hash oh) = Ok order"
      and items: "hash_get (Yaml_String (side_name vt)) oh = Some (Yaml_Array items)"
      and ios: "parse_order_ios E vt ?key 0 items n = Ok (?ios, n')"
    have len: "length ?ios = length items" using parse_order_ios_Ok[OF ios] by simp
    have names: "names_token token (items ! j) \<longleftrightarrow> io_token_key (?ios ! j) = token" if "j < length items" for j
      using parse_order_ios_nth[OF ios that] names_token_parsed by blast
    show ?thesis
    proof (cases "token_position token items")
      case None
      then have "\<forall>j < length items. \<not> names_token token (items ! j)" by (simp add: token_position_None)
      then have "token \<notin> io_token_key ` set ?ios" using names len by (auto simp: in_set_conv_nth)
      with None show ?thesis by (simp add: update_vault_id_def Let_def assms(3) slot items)
    next
      case (Some i)
      then have i: "i < length items" "names_token token (items ! i)" "\<forall>j<i. \<not> names_token token (items ! j)"
        by (simp_all add: token_position_Some)
      from i(2) obtain h where h: "items ! i = Yaml_Hash h" by (auto simp: names_token_def split: strict_yaml.splits)
      let ?items' = "items[i := Yaml_Hash (write_vault_id new_id h)]"
      let ?ios' = "?ios[i := (?ios ! i)\<lparr>io_vault_id := new_id\<rparr>]"
      let ?oh' = "hash_update (Yaml_String (side_name vt)) (Yaml_Array ?items') oh"
      have result: "update_vault_id (oe_codec E) vt token vault_id order document = (put_order ?key dh os ?oh', Ok (with_ios vt ?ios' order))"
        using i(1) len by (simp add: update_vault_id_def Let_def assms(3) slot items Some h)
      have "parse_order E ?key (Yaml_Hash ?oh') = Ok (with_ios vt ?ios' order)"
      proof (rule parse_order_with_ios[OF order items])
        fix m m' assume "parse_order_ios E vt ?key 0 items m = Ok (?ios, m')"
        then show "parse_order_ios E vt ?key 0 ?items' m = Ok (?ios', m')"
          by (rule parse_order_ios_replace) (use i(1) h len parse_written_io[OF _ assms(2)] in \<open>auto simp: nth_list_update\<close>)
      qed
      then have "reads_order E (put_order ?key dh os ?oh') (with_ios vt ?ios' order)"
        by (simp add: reads_order_def put_order_reads[OF slot])
      with i len names show ?thesis
        by (simp add: result put_order_reads[OF slot]) (intro exI[of _ i], auto)
    qed
  qed
qed

definition textual_vault_ids :: "strict_yaml \<Rightarrow> bool" where
  \<comment> \<open>no entry of the order has a vault id that is not a text\<close>
  "textual_vault_ids y \<longleftrightarrow> (\<forall>vt items h v. optional_vec y (side_name vt) = Some items \<longrightarrow> Yaml_Hash h \<in> set items \<longrightarrow>
     hash_get (Yaml_String ''vault-id'') h = Some v \<longrightarrow> as_str v \<noteq> None)"

definition fill_item :: "u256 \<Rightarrow> strict_yaml \<Rightarrow> strict_yaml" where
  "fill_item vault_id item = (case item of
     Yaml_Hash h \<Rightarrow> if hash_get (Yaml_String ''vault-id'') h = None then Yaml_Hash (write_vault_id (Some vault_id) h) else item
   | _ \<Rightarrow> item)"

lemma fill_vault_ids_Ok:
  assumes "list_all (\<lambda>item. as_hash item \<noteq> None) items"
  shows "fill_vault_ids v what key i items = (map (fill_item v) items, Ok ())"
  using assms
proof (induction items arbitrary: i)
  case (Cons item items)
  then obtain h where "item = Yaml_Hash h" by (cases item) auto
  with Cons show ?case by (simp add: fill_item_def write_vault_id_def)
qed simp

lemma parsed_items_hash:
  assumes "parse_order_ios E vt key i items n = Ok (cs, n')"
  shows "list_all (\<lambda>item. as_hash item \<noteq> None) items"
  unfolding list_all_length
proof (intro allI impI)
  fix j assume "j < length items"
  from parse_order_ios_nth[OF assms this] show "as_hash (items ! j) \<noteq> None"
    by (auto simp: parse_order_io_def Let_def ok_iff require_token)
qed

lemma parse_filled_item:
  assumes "parse_order_io E vt key i item n = Ok (c, n')" "vault_ids_print (oe_codec E)"
    and "\<And>h x. item = Yaml_Hash h \<Longrightarrow> hash_get (Yaml_String ''vault-id'') h = Some x \<Longrightarrow> as_str x \<noteq> None"
  shows "parse_order_io E vt key i (fill_item v item) n = Ok (filled v c, n')"
proof -
  from assms(1) obtain h where h: "item = Yaml_Hash h" by (auto simp: parse_order_io_def Let_def ok_iff require_token)
  have vault: "io_vault_id c = None \<longleftrightarrow> optional_string (Yaml_Hash h) ''vault-id'' = None"
    using assms(1) by (auto simp: h parse_order_io_def Let_def ok_iff vault_id_of_def opt_result_def split: option.splits)
  show ?thesis
  proof (cases "hash_get (Yaml_String ''vault-id'') h")
    case None
    then have "io_vault_id c = None" using vault by (simp add: optional_string_def)
    then show ?thesis
      using parse_written_io[OF assms(1)[unfolded h] assms(2), of "Some v"] None by (simp add: h fill_item_def filled_def)
  next
    case (Some x)
    with assms(3)[OF h Some] vault obtain w where "io_vault_id c = Some w" by (auto simp: optional_string_def)
    then have "filled v c = c" by (simp add: filled_def)
    with assms(1) Some show ?thesis by (simp add: h fill_item_def)
  qed
qed

lemma parse_order_filled:
  assumes "parse_order E key (Yaml_Hash oh) = Ok order" "vault_ids_print (oe_codec E)"
    "hash_get (Yaml_String (side_name vt)) oh = Some (Yaml_Array items)"
    and "\<And>h x. Yaml_Hash h \<in> set items \<Longrightarrow> hash_get (Yaml_String ''vault-id'') h = Some x \<Longrightarrow> as_str x \<noteq> None"
  shows "parse_order E key (Yaml_Hash (hash_update (Yaml_String (side_name vt)) (Yaml_Array (map (fill_item v) items)) oh)) =
    Ok (with_ios vt (map (filled v) (ios_of vt order)) order)"
proof (rule parse_order_with_ios[OF assms(1,3)])
  fix m m' assume ios: "parse_order_ios E vt key 0 items m = Ok (ios_of vt order, m')"
  have len: "length (ios_of vt order) = length items" using parse_order_ios_Ok[OF ios] by simp
  from ios show "parse_order_ios E vt key 0 (map (fill_item v) items) m = Ok (map (filled v) (ios_of vt order), m')"
  proof (rule parse_order_ios_replace)
    fix j k k' assume j: "j < length items" and one: "parse_order_io E vt key (0 + j) (items ! j) k = Ok (ios_of vt order ! j, k')"
    have "as_str x \<noteq> None" if "items ! j = Yaml_Hash h" "hash_get (Yaml_String ''vault-id'') h = Some x" for h x
      using assms(4)[of h x] that nth_mem[OF j] by simp
    from parse_filled_item[OF one assms(2) this] j len
    show "parse_order_io E vt key (0 + j) (map (fill_item v) items ! j) k = Ok (map (filled v) (ios_of vt order) ! j, k')"
      by simp
  qed (simp_all add: len)
qed

text \<open>
  Claim C32. Filling the vault ids of an order that was read from the document always succeeds when the
  vault ids of the document are texts: afterwards every input and output has a vault id, those that were
  there are kept and all others are the one given, and parsing the written document gives the filled
  configuration.
\<close>
theorem populate_vault_ids_in_step:
  assumes "order_yaml_in (od_key order) document = Some y" "parse_order E (od_key order) y = Ok order"
    and "vault_ids_print (oe_codec E)" "textual_vault_ids y"
  shows "\<exists>document' order'. populate_vault_ids v order document = (document', Ok order') \<and>
    reads_order E document' order' \<and>
    order' = order\<lparr>od_inputs := map (filled v) (od_inputs order), od_outputs := map (filled v) (od_outputs order)\<rparr> \<and>
    (\<forall>io\<in>set (od_inputs order' @ od_outputs order'). io_vault_id io \<noteq> None) \<and>
    (\<forall>k. k \<noteq> od_key order \<longrightarrow> order_yaml_in k document' = order_yaml_in k document)"
proof -
  let ?key = "od_key order"
  from assms(2) obtain oh where y: "y = Yaml_Hash oh" by (rule parse_order_parts) (auto simp: require_vec_hash)
  note order = assms(2)[unfolded y]
  obtain dh os where slot: "order_slot ?key document = Ok (dh, os, oh)"
    using order_slot_reads[OF assms(1)[unfolded y]] by blast
  obtain ins n n' where ins: "hash_get (Yaml_String ''inputs'') oh = Some (Yaml_Array ins)"
    "parse_order_ios E Vault_Input ?key 0 ins n = Ok (od_inputs order, n')"
    using parse_order_side[OF order, of Vault_Input] by auto
  obtain outs m m' where outs: "hash_get (Yaml_String ''outputs'') oh = Some (Yaml_Array outs)"
    "parse_order_ios E Vault_Output ?key 0 outs m = Ok (od_outputs order, m')"
    using parse_order_side[OF order, of Vault_Output] by auto
  have textual: "as_str x \<noteq> None" if "hash_get (Yaml_String (side_name vt)) oh = Some (Yaml_Array items)"
    "Yaml_Hash h \<in> set items" "hash_get (Yaml_String ''vault-id'') h = Some x" for vt items h x
  proof -
    have "optional_vec y (side_name vt) = Some items" by (simp add: optional_vec_def y that(1))
    with assms(4) that(2,3) show ?thesis unfolding textual_vault_ids_def by blast
  qed
  let ?oh1 = "hash_update (Yaml_String ''inputs'') (Yaml_Array (map (fill_item v) ins)) oh"
  let ?oh2 = "hash_update (Yaml_String ''outputs'') (Yaml_Array (map (fill_item v) outs)) ?oh1"
  let ?order1 = "order\<lparr>od_inputs := map (filled v) (od_inputs order)\<rparr>"
  let ?order2 = "?order1\<lparr>od_outputs := map (filled v) (od_outputs order)\<rparr>"
  have outs1: "hash_get (Yaml_String ''outputs'') ?oh1 = Some (Yaml_Array outs)" by (simp add: hash_get_update outs(1))
  have one: "parse_order E ?key (Yaml_Hash ?oh1) = Ok ?order1"
    using parse_order_filled[OF order assms(3), of Vault_Input ins v] ins(1) textual[of Vault_Input ins] by auto
  have two: "parse_order E ?key (Yaml_Hash ?oh2) = Ok ?order2"
    using parse_order_filled[OF one assms(3), of Vault_Output outs v] outs1 textual[of Vault_Output outs] outs(1) by auto
  have "populate_vault_ids v order document = (put_order ?key dh os ?oh2, Ok ?order2)"
    by (simp add: populate_vault_ids_def Let_def slot ins(1) outs(1) hash_get_update
        fill_vault_ids_Ok[OF parsed_items_hash[OF ins(2)]] fill_vault_ids_Ok[OF parsed_items_hash[OF outs(2)]])
  moreover have "reads_order E (put_order ?key dh os ?oh2) ?order2"
    using two by (simp add: reads_order_def put_order_reads[OF slot])
  moreover have "\<forall>io\<in>set (od_inputs ?order2 @ od_outputs ?order2). io_vault_id io \<noteq> None"
    by (auto simp: filled_def)
  ultimately show ?thesis by (simp add: put_order_reads[OF slot])
qed

section \<open>A concrete order\<close>

definition order_entry :: strict_yaml where
  "order_entry = Yaml_Hash
     [(Yaml_String ''inputs'', Yaml_Array [Yaml_Hash [(Yaml_String ''token'', Yaml_String ''usdc'')]]),
      (Yaml_String ''outputs'', Yaml_Array [Yaml_Hash [(Yaml_String ''token'', Yaml_String ''usdc''),
         (Yaml_String ''vault-id'', Yaml_String ''7'')]])]"

definition order_document :: strict_yaml where
  "order_document = Yaml_Hash
     [(Yaml_String ''networks'', Yaml_Hash [(Yaml_String ''base'', usdc_entry)]),
      (Yaml_String ''tokens'', Yaml_Hash [(Yaml_String ''usdc'', Yaml_Hash
         [(Yaml_String ''network'', Yaml_String ''base''), (Yaml_String ''address'', Yaml_String ''7'')])]),
      (Yaml_String ''orders'', Yaml_Hash [(Yaml_String ''o'', order_entry)])]"

definition usdc_token :: token_cfg where
  "usdc_token = \<lparr>tk_key = ''usdc'', tk_network = usdc_network, tk_address = 7, tk_decimals = None, tk_label = None,
     tk_symbol = None, tk_logo_uri = None, tk_extensions = None\<rparr>"

definition usdc_order :: order_cfg where
  "usdc_order = \<lparr>od_key = ''o'',
     od_inputs = [\<lparr>io_token_key = ''usdc'', io_token = Some usdc_token, io_vault_id = None\<rparr>],
     od_outputs = [\<lparr>io_token_key = ''usdc'', io_token = Some usdc_token, io_vault_id = Some 7\<rparr>],
     od_network = usdc_network, od_rainlang = None, od_raindex = None, od_oracle_url = None\<rparr>"

definition usdc_env :: order_env where
  "usdc_env = \<lparr>oe_codec = plain_order_codec,
     oe_rainlangs = parse_all_rainlangs plain_codec [] [order_document],
     oe_raindexes = parse_all_raindexes plain_codec [] [order_document],
     oe_tokens = Ok [''usdc'' \<mapsto> usdc_token], oe_context = None\<rparr>"

lemma plain_prints_vault_ids: "vault_ids_print plain_order_codec"
proof -
  have "parse_unsigned (2 ^ 256) (show_word v) = Ok (unat v)" for v :: u256
    by (rule parse_unsigned_show) (use unsigned_less[of v] in simp)
  then show ?thesis by (simp add: vault_ids_print_def plain_order_codec_def)
qed

lemma plain_vault_7: "oc_parse_u256 plain_order_codec ''7'' = Ok 7"
proof -
  have "show_word (7 :: u256) = ''7''" by code_simp
  with plain_prints_vault_ids show ?thesis unfolding vault_ids_print_def by metis
qed

lemma order_document_tokens: "parse_all_tokens plain_codec [] [] [order_document] = Ok [''usdc'' \<mapsto> usdc_token]"
proof -
  have "require_hash order_document (Some ''networks'') (Some ''root'') = Ok [(Yaml_String ''base'', usdc_entry)]"
    by (simp add: order_document_def require_hash_def hash_get_def)
  then have networks: "parse_all_networks plain_codec [] [order_document] = Ok [''base'' \<mapsto> usdc_network]"
    by (simp add: parse_all_networks_def usdc_entry_parses)
  have "tc_parse_address plain_codec ''7'' = Ok 7" using plain_address by (simp add: plain_codec_def)
  then show ?thesis
    unfolding parse_all_tokens_def networks
    by (simp add: local_tokens_def order_document_def parse_token_def address_field_def require_hash_def
        require_string_def hash_get_def reference_def optional_string_def opt_result_def required_def Let_def usdc_token_def)
qed

lemma usdc_order_parses: "parse_order usdc_env ''o'' order_entry = Ok usdc_order"
  by (simp add: parse_order_def usdc_env_def order_entry_def order_part_def optional_string_def require_vec_def
      parse_order_io_def require_string_def hash_get_def io_token_of_def join_network_def vault_id_of_def opt_result_def
      validate_vault_id_def plain_vault_7 usdc_order_def usdc_token_def Let_def)

lemma usdc_order_read: "order_yaml_in ''o'' order_document = Some order_entry"
  by (simp add: order_yaml_in_def order_document_def require_hash_def hash_get_def)

lemma usdc_orders: "parse_all_orders plain_order_codec None [order_document] = Ok [''o'' \<mapsto> usdc_order]"
proof -
  have "oc_text plain_order_codec = plain_codec" by (simp add: plain_order_codec_def)
  moreover have "require_hash order_document (Some ''orders'') None = Ok [(Yaml_String ''o'', order_entry)]"
    by (simp add: order_document_def require_hash_def hash_get_def)
  ultimately show ?thesis
    using order_document_tokens usdc_order_parses
    by (simp add: parse_all_orders_def remote_networks_of_def remote_tokens_of_def order_tokens_def
        selected_entries_def usdc_env_def required_def)
qed

theorem order_shares_one_network_witness:
  "map (map_option tk_network \<circ> io_token) (od_inputs usdc_order) = [Some (od_network usdc_order)]"
  using order_shares_one_network[OF usdc_orders, of "''o''" usdc_order] by (simp add: usdc_order_def)

theorem order_network_key_agrees_witness: "order_network_key [order_document] ''o'' = Ok (nc_key usdc_network)"
proof -
  have "token_network_key [order_document] ''usdc'' = Ok ''base''"
    by (simp add: order_document_def require_hash_def require_string_def hash_get_def)
  then have "order_network_key [order_document] ''o'' = Ok ''base''"
    by (simp add: order_network_key_def usdc_order_read order_yaml_network_key_def part_network_key_def order_entry_def
        optional_string_def require_vec_def require_string_def hash_get_def join_key_def Let_def)
  with order_network_key_agrees[OF usdc_orders _ this, of usdc_order] show ?thesis by (simp add: usdc_order_def)
qed

theorem update_vault_id_in_step_witness:
  "\<exists>document' order'. update_vault_id plain_order_codec Vault_Input ''usdc'' (Some ''7'') usdc_order order_document =
     (document', Ok order') \<and> reads_order usdc_env document' order'"
proof -
  have codec: "oe_codec usdc_env = plain_order_codec" by (simp add: usdc_env_def)
  have key: "od_key usdc_order = ''o''" by (simp add: usdc_order_def)
  have reads: "reads_order usdc_env order_document usdc_order"
    by (simp add: reads_order_def key usdc_order_read usdc_order_parses)
  have new: "new_vault_id (oe_codec usdc_env) Vault_Input ''usdc'' (od_key usdc_order) (Some ''7'') = Ok (Some 7)"
    by (simp add: new_vault_id_def validate_vault_id_def codec plain_vault_7)
  have "''usdc'' \<in> io_token_key ` set (ios_of Vault_Input usdc_order)" by (simp add: usdc_order_def)
  with update_vault_id_in_step[OF reads _ new] plain_prints_vault_ids show ?thesis
    by (auto simp: codec split: prod.splits result.splits)
qed

theorem populate_vault_ids_in_step_witness:
  "\<exists>document' order'. populate_vault_ids 5 usdc_order order_document = (document', Ok order') \<and>
     reads_order usdc_env document' order' \<and> map io_vault_id (od_inputs order' @ od_outputs order') = [Some 5, Some 7]"
proof -
  have codec: "oe_codec usdc_env = plain_order_codec" by (simp add: usdc_env_def)
  have key: "od_key usdc_order = ''o''" by (simp add: usdc_order_def)
  have "textual_vault_ids order_entry"
    unfolding textual_vault_ids_def
  proof (intro allI impI)
    fix vt items h v
    assume "optional_vec order_entry (side_name vt) = Some items" "Yaml_Hash h \<in> set items"
      "hash_get (Yaml_String ''vault-id'') h = Some v"
    then show "as_str v \<noteq> None"
      by (cases vt) (auto simp: order_entry_def optional_vec_def hash_get_def split: if_splits)
  qed
  from populate_vault_ids_in_step[of usdc_order order_document order_entry usdc_env 5, OF _ _ _ this]
  have "\<exists>document' order'. populate_vault_ids 5 usdc_order order_document = (document', Ok order') \<and>
      reads_order usdc_env document' order' \<and>
      order' = usdc_order\<lparr>od_inputs := map (filled 5) (od_inputs usdc_order), od_outputs := map (filled 5) (od_outputs usdc_order)\<rparr>"
    using plain_prints_vault_ids by (auto simp: key codec usdc_order_read usdc_order_parses)
  then show ?thesis by (auto simp: usdc_order_def filled_def)
qed

end
