(* ===== verification/Settings_Scenarios.thy ===== *)
theory Settings_Scenarios
  imports Settings_Context Settings_Sanitize
begin

text \<open>
  Scenarios (\<open>settings/src/scenario.rs\<close>) and the block ranges of their fuzz runs (\<open>blocks.rs\<close>): the tree
  of scenarios under \<open>scenarios\<close> is flattened into a map with dotted names, every scenario inheriting the
  bindings and the rainlang of its parent.

  The reader of the \<open>blocks\<close> text is the YAML deserialiser of a third-party crate and an argument; hash
  maps are association lists where their iteration order can show.
\<close>

section \<open>Blocks\<close>

datatype block_cfg = Block_Number u64 | Genesis | Latest

record block_range =
  br_start :: block_cfg
  br_end :: block_cfg

datatype blocks_cfg =
    Range_With_Interval block_range u32
  | Simple_Range block_range

datatype block_error = Invalid_Block_Range

fun to_block_number :: "block_cfg \<Rightarrow> u64 \<Rightarrow> u64" where
  "to_block_number (Block_Number n) latest_block = n"
| "to_block_number Genesis latest_block = 0"
| "to_block_number Latest latest_block = latest_block"

definition validate_range :: "block_range \<Rightarrow> u64 \<Rightarrow> (unit, block_error) result" where
  "validate_range r latest_block =
     (if to_block_number (br_end r) latest_block < to_block_number (br_start r) latest_block
      then Err Invalid_Block_Range else Ok ())"

definition show_range :: "block_range \<Rightarrow> string" where
  "show_range r =
     (case br_start r of Block_Number n \<Rightarrow> show_word n | _ \<Rightarrow> []) @ ''..'' @
     (case br_end r of Block_Number n \<Rightarrow> show_word n | _ \<Rightarrow> [])"

definition parse_block :: "block_cfg \<Rightarrow> string \<Rightarrow> (block_cfg, string) result" where
  "parse_block unset s =
     (if s = [] then Ok unset
      else rbind (map_err (\<lambda>_. ''Invalid block number'') (parse_unsigned (2 ^ 64) s)) (\<lambda>n. Ok (Block_Number (of_nat n))))"

definition parse_range :: "string \<Rightarrow> (block_range, string) result" where
  "parse_range s =
     (case split_str ''..'' s of
        [from, to] \<Rightarrow>
          rbind (parse_block Genesis from) (\<lambda>start_block.
          rbind (parse_block Latest to) (\<lambda>end_block.
          Ok \<lparr>br_start = start_block, br_end = end_block\<rparr>))
      | _ \<Rightarrow> Err (''Invalid range syntax: '' @ s))"

partial_function (option) interval_blocks :: "u64 \<Rightarrow> u64 \<Rightarrow> u64 \<Rightarrow> u64 list \<Rightarrow> u64 list option" where
  \<comment> \<open>\<open>None\<close>: the loop does not end; additions wrap around, as in a release build\<close>
  "interval_blocks current_block end_block interval blocks =
     (if current_block \<le> end_block
      then interval_blocks (current_block + interval) end_block interval (blocks @ [current_block])
      else Some blocks)"

definition expand_to_block_numbers :: "blocks_cfg \<Rightarrow> u64 \<Rightarrow> (u64 list, block_error) result option" where
  "expand_to_block_numbers blocks latest_block =
     (case blocks of
        Range_With_Interval r interval \<Rightarrow>
          (case validate_range r latest_block of
             Err e \<Rightarrow> Some (Err e)
           | Ok _ \<Rightarrow> map_option Ok (interval_blocks (to_block_number (br_start r) latest_block)
               (to_block_number (br_end r) latest_block) (ucast interval) []))
      | Simple_Range r \<Rightarrow>
          Some (rbind (validate_range r latest_block) (\<lambda>_.
            Ok (map of_nat [unat (to_block_number (br_start r) latest_block) ..<
                            Suc (unat (to_block_number (br_end r) latest_block))]))))"

section \<open>Scenarios\<close>

record scenario_cfg =
  sc_key :: string
  sc_bindings :: "string \<Rightarrow> string option"
  sc_runs :: "u64 option"
  sc_blocks :: "blocks_cfg option"
  sc_rainlang :: rainlang_cfg

record scenario_parent =
  sp_key :: string
  sp_bindings :: "(string \<Rightarrow> string option) option"
  sp_rainlang :: "rainlang_cfg option"

type_synonym scenarios = "string \<Rightarrow> scenario_cfg option"

record scenario_env =
  \<comment> \<open>what is the same for all scenarios of a run\<close>
  se_codec :: order_codec
  se_read_blocks :: "string \<Rightarrow> blocks_cfg option"
  se_rainlangs :: "string \<Rightarrow> rainlang_cfg option"
  se_context :: "settings_context option"

definition yaml_name :: "strict_yaml \<Rightarrow> string" where
  "yaml_name k = (case as_str k of Some s \<Rightarrow> s | None \<Rightarrow> [])"

definition map_put :: "string \<Rightarrow> 'v \<Rightarrow> (string \<times> 'v) list \<Rightarrow> (string \<times> 'v) list" where
  "map_put k v m = filter (\<lambda>e. fst e \<noteq> k) m @ [(k, v)]"

definition interpolated :: "scenario_env \<Rightarrow> string \<Rightarrow> (string, yaml_error) result" where
  "interpolated E s = (case se_context E of
     Some cx \<Rightarrow> map_err (\<lambda>e. Context_Error (display_context_error e)) (interpolate_with_select_tokens (se_codec E) cx s)
   | None \<Rightarrow> Ok s)"

fun read_bindings ::
  "scenario_env \<Rightarrow> string \<Rightarrow> yaml_hash \<Rightarrow> (string \<times> string) list \<Rightarrow> ((string \<times> string) list, yaml_error) result" where
  "read_bindings E scenario_key [] current_bindings = Ok current_bindings"
| "read_bindings E scenario_key ((k, v) # bindings) current_bindings =
     (let binding_key = yaml_name k;
          location = ''binding key '' @ quoted binding_key @ '' in scenario '' @ quoted scenario_key in
      rbind (require_string v None (Some location)) (\<lambda>binding_value.
      rbind (interpolated E binding_value) (\<lambda>interpolated_value.
      read_bindings E scenario_key bindings (map_put binding_key interpolated_value current_bindings))))"

fun merge_bindings ::
  "scenario_env \<Rightarrow> (string \<Rightarrow> string option) option \<Rightarrow> (string \<times> string) list \<Rightarrow> (string \<Rightarrow> string option)
   \<Rightarrow> (string \<Rightarrow> string option, yaml_error) result" where
  \<comment> \<open>the values are interpolated a second time\<close>
  "merge_bindings E parent_bindings [] bindings = Ok bindings"
| "merge_bindings E parent_bindings ((k, v) # current_bindings) bindings =
     (if (case Option.bind parent_bindings (\<lambda>pb. pb k) of Some parent_value \<Rightarrow> parent_value \<noteq> v | None \<Rightarrow> False)
      then Err (Parse_Scenario_Config_Source_Error (''Parent binding shadowed by child: '' @ k))
      else rbind (interpolated E v) (\<lambda>binding_value.
        merge_bindings E parent_bindings current_bindings (bindings(k \<mapsto> binding_value))))"

definition scenario_bindings ::
  "scenario_env \<Rightarrow> scenario_parent \<Rightarrow> string \<Rightarrow> strict_yaml \<Rightarrow> (string \<Rightarrow> string option, yaml_error) result" where
  "scenario_bindings E parent_scenario scenario_key scenario_yaml =
     rbind (case optional_hash scenario_yaml ''bindings'' of
              Some bindings \<Rightarrow> read_bindings E scenario_key bindings []
            | None \<Rightarrow> Ok []) (\<lambda>current_bindings.
     merge_bindings E (sp_bindings parent_scenario) current_bindings
       (case sp_bindings parent_scenario of Some pb \<Rightarrow> pb | None \<Rightarrow> Map.empty))"

definition validate_runs :: "string \<Rightarrow> (u64, yaml_error) result" where
  "validate_runs value =
     map_err (\<lambda>_. Parse_Scenario_Config_Source_Error ''Failed to parse runs'')
       (rbind (parse_unsigned (2 ^ 64) value) (\<lambda>n. Ok (of_nat n)))"

definition validate_blocks :: "scenario_env \<Rightarrow> string \<Rightarrow> (blocks_cfg, yaml_error) result" where
  "validate_blocks E value =
     ok_or (se_read_blocks E value)
       (Parse_Scenario_Config_Source_Error (''Failed to parse blocks: '' @ value))"

definition hash_string :: "yaml_hash \<Rightarrow> string \<Rightarrow> string \<Rightarrow> (string, yaml_error) result" where
  "hash_string h field location =
     rbind (ok_or (hash_get (Yaml_String field) h) (Yaml_Field (Missing field) location)) (\<lambda>v.
     ok_or (as_str v) (Yaml_Field (Missing field) location))"

definition scenario_blocks :: "scenario_env \<Rightarrow> string \<Rightarrow> strict_yaml \<Rightarrow> (blocks_cfg option, yaml_error) result" where
  "scenario_blocks E scenario_key scenario_yaml =
     (case optional_string scenario_yaml ''blocks'' of
        Some blocks \<Rightarrow> rbind (validate_blocks E blocks) (\<lambda>b. Ok (Some b))
      | None \<Rightarrow>
          (case optional_hash scenario_yaml ''blocks'' of
             Some blocks \<Rightarrow>
               let location = ''blocks in scenario '' @ quoted scenario_key in
               rbind (hash_string blocks ''range'' location) (\<lambda>range_text.
               rbind (hash_string blocks ''interval'' location) (\<lambda>interval.
               rbind (validate_blocks E (''range: '' @ range_text @ [CHR 0x0A] @ ''interval: '' @ interval))
                 (\<lambda>b. Ok (Some b))))
           | None \<Rightarrow> Ok None))"

definition scenario_rainlang ::
  "scenario_env \<Rightarrow> scenario_parent \<Rightarrow> string \<Rightarrow> strict_yaml \<Rightarrow> rainlang_cfg option
   \<Rightarrow> (rainlang_cfg option, yaml_error) result" where
  \<comment> \<open>the rainlang known so far is replaced by the scenario's own\<close>
  "scenario_rainlang E parent_scenario scenario_key scenario_yaml rainlang =
     rbind (case se_rainlangs E scenario_key of
              Some reg \<Rightarrow> Ok (Some reg)
            | None \<Rightarrow>
                (case optional_string scenario_yaml ''rainlang'' of
                   Some rainlang_name \<Rightarrow>
                     rbind (ok_or (se_rainlangs E rainlang_name) (Key_Not_Found rainlang_name)) (\<lambda>r. Ok (Some r))
                 | None \<Rightarrow> Ok None)) (\<lambda>current_rainlang.
     case current_rainlang of
       None \<Rightarrow> Ok rainlang
     | Some current \<Rightarrow>
         if (case sp_rainlang parent_scenario of Some p \<Rightarrow> rl_key current \<noteq> rl_key p | None \<Rightarrow> False)
         then Err (Parse_Scenario_Config_Source_Error (''Parent rainlang shadowed by child: '' @ rl_key current))
         else Ok (Some current))"

definition child_name :: "string \<Rightarrow> string \<Rightarrow> string" where
  "child_name parent_key scenario_key =
     (if parent_key = [] then scenario_key else parent_key @ ''.'' @ scenario_key)"

definition scenario_entry ::
  "scenario_env \<Rightarrow> scenario_parent \<Rightarrow> string \<Rightarrow> strict_yaml \<Rightarrow> rainlang_cfg option \<Rightarrow> scenarios
   \<Rightarrow> (scenario_cfg, yaml_error) result" where
  \<comment> \<open>the scenario itself; the name that must not exist yet is the undotted one\<close>
  "scenario_entry E parent_scenario scenario_key scenario_yaml rainlang scenarios =
     rbind (scenario_bindings E parent_scenario scenario_key scenario_yaml) (\<lambda>bindings.
     rbind (case optional_string scenario_yaml ''runs'' of
              Some runs \<Rightarrow> rbind (validate_runs runs) (\<lambda>n. Ok (Some n)) | None \<Rightarrow> Ok None) (\<lambda>runs.
     rbind (scenario_blocks E scenario_key scenario_yaml) (\<lambda>blocks.
     rbind (scenario_rainlang E parent_scenario scenario_key scenario_yaml rainlang) (\<lambda>rainlang.
     if scenarios scenario_key \<noteq> None then Err (Key_Shadowing scenario_key ''scenarios'')
     else let key = child_name (sp_key parent_scenario) scenario_key in
       rbind (ok_or rainlang (Parse_Scenario_Config_Source_Error (''Rainlang not found: '' @ scenario_key))) (\<lambda>r.
       Ok \<lparr>sc_key = key, sc_bindings = bindings, sc_runs = runs, sc_blocks = blocks, sc_rainlang = r\<rparr>)))))"

function validate_scenario ::
    "scenario_env \<Rightarrow> scenario_parent \<Rightarrow> string \<Rightarrow> strict_yaml \<Rightarrow> rainlang_cfg option \<Rightarrow> scenarios
     \<Rightarrow> (rainlang_cfg option \<times> scenarios, yaml_error) result"
  and validate_children ::
    "scenario_env \<Rightarrow> scenario_cfg \<Rightarrow> yaml_hash \<Rightarrow> rainlang_cfg option \<Rightarrow> scenarios
     \<Rightarrow> (rainlang_cfg option \<times> scenarios, yaml_error) result" where
  "validate_scenario E parent_scenario scenario_key scenario_yaml rainlang scenarios =
     rbind (scenario_entry E parent_scenario scenario_key scenario_yaml rainlang scenarios) (\<lambda>scenario.
     let scenarios = scenarios(sc_key scenario \<mapsto> scenario) in
     (case optional_hash scenario_yaml ''scenarios'' of
        Some scenarios_yaml \<Rightarrow> validate_children E scenario scenarios_yaml (Some (sc_rainlang scenario)) scenarios
      | None \<Rightarrow> Ok (Some (sc_rainlang scenario), scenarios)))"
| "validate_children E scenario [] rainlang scenarios = Ok (rainlang, scenarios)"
| "validate_children E scenario ((child_key, child_scenario_yaml) # scenarios_yaml) rainlang scenarios =
     rbind (validate_scenario E
              \<lparr>sp_key = sc_key scenario, sp_bindings = Some (sc_bindings scenario), sp_rainlang = rainlang\<rparr>
              (yaml_name child_key) child_scenario_yaml rainlang scenarios) (\<lambda>(rainlang, scenarios).
     validate_children E scenario scenarios_yaml rainlang scenarios)"
  by pat_completeness auto

lemma optional_hash_size: "optional_hash v f = Some h \<Longrightarrow> size_list (size_prod size size) h < size v"
proof -
  assume h: "optional_hash v f = Some h"
  then obtain g where v: "v = Yaml_Hash g" by (cases v) (auto simp: optional_hash_def yaml_index_def)
  with h have "hash_get (Yaml_String f) g = Some (Yaml_Hash h)"
    by (auto simp: optional_hash_def split: option.splits elim: as_hash.elims)
  then have "size (Yaml_Hash h) < size_list (size_prod size size) g" by (rule hash_get_size)
  then show ?thesis by (simp add: v)
qed

termination validate_scenario
  by (relation "measure (\<lambda>x. case x of Inl (E, p, k, y, r, s) \<Rightarrow> size y | Inr (E, c, ys, r, s) \<Rightarrow> size_list (size_prod size size) ys)")
    (auto dest!: optional_hash_size)

fun parse_scenario_entries :: "scenario_env \<Rightarrow> yaml_hash \<Rightarrow> scenarios \<Rightarrow> (scenarios, yaml_error) result" where
  "parse_scenario_entries E [] scenarios = Ok scenarios"
| "parse_scenario_entries E ((key_yaml, scenario_yaml) # entries) scenarios =
     (let scenario_key = yaml_name key_yaml in
      rbind (validate_scenario E \<lparr>sp_key = [], sp_bindings = None, sp_rainlang = None\<rparr>
               scenario_key scenario_yaml None scenarios) (\<lambda>(rainlang, scenarios).
      if rainlang = None then Err (Parse_Scenario_Config_Source_Error (''Rainlang not found: '' @ scenario_key))
      else parse_scenario_entries E entries scenarios))"

fun parse_scenario_documents :: "scenario_env \<Rightarrow> strict_yaml list \<Rightarrow> scenarios \<Rightarrow> (scenarios, yaml_error) result" where
  "parse_scenario_documents E [] scenarios = Ok scenarios"
| "parse_scenario_documents E (document # documents) scenarios =
     rbind (case require_hash document (Some ''scenarios'') None of
              Ok scenarios_hash \<Rightarrow> parse_scenario_entries E scenarios_hash scenarios
            | Err _ \<Rightarrow> Ok scenarios)
       (parse_scenario_documents E documents)"

definition parse_all_scenarios ::
  "order_codec \<Rightarrow> (string \<Rightarrow> blocks_cfg option) \<Rightarrow> settings_context option \<Rightarrow> strict_yaml list
   \<Rightarrow> (scenarios, yaml_error) result" where
  "parse_all_scenarios C read_blocks context documents =
     rbind (parse_all_rainlangs (oc_text C) (remote_networks_of context) documents) (\<lambda>rainlangs.
     rbind (parse_scenario_documents \<lparr>se_codec = C, se_read_blocks = read_blocks, se_rainlangs = rainlangs,
              se_context = context\<rparr> documents Map.empty)
       (required ''scenarios''))"

section \<open>Updating bindings\<close>

definition write_all :: "yaml_hash \<Rightarrow> yaml_hash \<Rightarrow> yaml_hash" where
  "write_all updates h = fold (\<lambda>(k, v). hash_insert k v) updates h"

definition overwrite_bindings :: "yaml_hash \<Rightarrow> yaml_hash \<Rightarrow> yaml_hash" where
  \<comment> \<open>in the order of the bindings that are overwritten\<close>
  "overwrite_bindings new_bindings h =
     write_all (concat (map (\<lambda>(k, _). case hash_get k new_bindings of Some v \<Rightarrow> [(k, v)] | None \<Rightarrow> []) h)) h"

fun write_scenario_bindings ::
  "yaml_hash \<Rightarrow> string \<Rightarrow> string list \<Rightarrow> yaml_hash \<Rightarrow> yaml_hash \<Rightarrow> yaml_hash \<times> (unit, yaml_error) result" where
  \<comment> \<open>from a scenario down the path of names; the last one takes the bindings that no scenario had\<close>
  "write_scenario_bindings new_bindings base_scenario [] unhandled scenario =
     (case hash_get (Yaml_String ''bindings'') scenario of
        Some (Yaml_Hash bindings) \<Rightarrow>
          (hash_update (Yaml_String ''bindings'')
             (Yaml_Hash (write_all (filter (\<lambda>(k, _). hash_get k bindings = None) unhandled)
                (overwrite_bindings new_bindings bindings))) scenario, Ok ())
      | _ \<Rightarrow> (scenario, Ok ()))"
| "write_scenario_bindings new_bindings base_scenario (part # parts) unhandled scenario =
     (let (scenario, unhandled) =
            (case hash_get (Yaml_String ''bindings'') scenario of
               Some (Yaml_Hash bindings) \<Rightarrow>
                 (hash_update (Yaml_String ''bindings'') (Yaml_Hash (overwrite_bindings new_bindings bindings)) scenario,
                  filter (\<lambda>(k, _). hash_get k bindings = None) unhandled)
             | _ \<Rightarrow> (scenario, unhandled)) in
      case hash_get (Yaml_String ''scenarios'') scenario of
        Some (Yaml_Hash sub_scenarios) \<Rightarrow>
          (case hash_get (Yaml_String part) sub_scenarios of
             Some (Yaml_Hash sub_scenario) \<Rightarrow>
               (let (sub_scenario, r) = write_scenario_bindings new_bindings base_scenario parts unhandled sub_scenario in
                (hash_update (Yaml_String ''scenarios'')
                   (Yaml_Hash (hash_update (Yaml_String part) (Yaml_Hash sub_scenario) sub_scenarios)) scenario, r))
           | _ \<Rightarrow> (scenario, Err (Yaml_Field (Missing part) (''sub scenarios of '' @ quoted base_scenario))))
      | _ \<Rightarrow> (scenario, Err (Yaml_Field (Missing ''scenarios'') (part @ '' of '' @ quoted base_scenario))))"

definition write_document_bindings ::
  "string \<Rightarrow> (string \<times> string) list \<Rightarrow> strict_yaml \<Rightarrow> strict_yaml \<times> (unit, yaml_error) result" where
  "write_document_bindings key bindings document =
     (let scenario_parts = split_str ''.'' key; base_scenario = hd scenario_parts;
          new_bindings = map (\<lambda>(k, v). (Yaml_String k, Yaml_String v)) bindings in
      case document of
        Yaml_Hash document_hash \<Rightarrow>
          (case hash_get (Yaml_String ''scenarios'') document_hash of
             Some (Yaml_Hash scenarios) \<Rightarrow>
               (case hash_get (Yaml_String base_scenario) scenarios of
                  Some (Yaml_Hash scenario) \<Rightarrow>
                    (let (scenario, r) = write_scenario_bindings new_bindings base_scenario (tl scenario_parts) new_bindings scenario in
                     (Yaml_Hash (hash_update (Yaml_String ''scenarios'')
                        (Yaml_Hash (hash_update (Yaml_String base_scenario) (Yaml_Hash scenario) scenarios)) document_hash), r))
                | _ \<Rightarrow> (document, Err (Yaml_Field (Missing base_scenario) ''scenarios'')))
           | _ \<Rightarrow> (document, Err (Yaml_Field (Missing ''scenarios'') ''root'')))
      | _ \<Rightarrow> (document, Err (Yaml_Field (Invalid_Type ''document'' ''a hash'') ''root'')))"

definition update_bindings ::
  "order_codec \<Rightarrow> (string \<Rightarrow> blocks_cfg option) \<Rightarrow> (string \<times> string) list \<Rightarrow> scenario_cfg \<Rightarrow> nat \<Rightarrow> strict_yaml list
   \<Rightarrow> strict_yaml list \<times> (scenario_cfg, yaml_error) result" where
  \<comment> \<open>the scenario's document is the one at \<open>i\<close>; it stays written when the new bindings do not parse\<close>
  "update_bindings C read_blocks bindings scenario i documents =
     (let (document, r) = write_document_bindings (sc_key scenario) bindings (documents ! i);
          documents = documents[i := document] in
      (documents, rbind r (\<lambda>_. entry_named (sc_key scenario) (parse_all_scenarios C read_blocks None documents))))"

section \<open>Expanding blocks\<close>

lemma interval_zero_diverges: "current_block \<le> end_block \<Longrightarrow> interval_blocks current_block end_block 0 blocks = None"
proof -
  have "interval = 0 \<longrightarrow> \<not> current_block \<le> end_block"
    if "interval_blocks current_block end_block interval blocks = Some y" for current_block end_block interval blocks y
    using that
    by (rule interval_blocks.raw_induct[where P = "\<lambda>c e i b y. i = 0 \<longrightarrow> \<not> c \<le> e", rotated]) (auto split: if_splits)
  then show "current_block \<le> end_block \<Longrightarrow> ?thesis" by (metis not_None_eq)
qed

lemma interval_blocks_steps:
  fixes current_block end_block interval :: u64
  assumes "interval \<noteq> 0" "unat end_block + unat interval < 2 ^ 64"
  shows "interval_blocks current_block end_block interval blocks = Some (blocks @ map (\<lambda>i. current_block + of_nat i * interval)
    [0 ..< (if current_block \<le> end_block then Suc ((unat end_block - unat current_block) div unat interval) else 0)])"
proof (induction "unat end_block - unat current_block" arbitrary: current_block blocks rule: less_induct)
  case less
  show ?case
  proof (cases "current_block \<le> end_block")
    case True
    let ?next = "current_block + interval"
    have pos: "0 < unat interval" using assms(1) by (simp add: unat_gt_0)
    have le: "unat current_block \<le> unat end_block" using True by (simp add: word_le_nat_alt)
    then have "unat ?next = unat current_block + unat interval" using assms(2) by (simp add: unat_word_ariths)
    then have step: "?next \<le> end_block \<longleftrightarrow> unat interval \<le> unat end_block - unat current_block"
      "unat end_block - unat ?next = unat end_block - unat current_block - unat interval"
      using le by (auto simp: word_le_nat_alt)
    then have IH: "interval_blocks ?next end_block interval (blocks @ [current_block]) =
        Some ((blocks @ [current_block]) @ map (\<lambda>i. ?next + of_nat i * interval)
          [0 ..< (if ?next \<le> end_block then Suc ((unat end_block - unat ?next) div unat interval) else 0)])"
      if "unat end_block - unat current_block \<noteq> 0"
      using less[of ?next "blocks @ [current_block]"] pos that by simp
    have count: "(if ?next \<le> end_block then Suc ((unat end_block - unat ?next) div unat interval) else 0) =
        (unat end_block - unat current_block) div unat interval"
      using pos by (simp add: step le_div_geq)
    have steps: "map (\<lambda>i. current_block + of_nat i * interval) [0..<Suc n] =
        current_block # map (\<lambda>i. ?next + of_nat i * interval) [0..<n]" for n
      by (simp add: upt_conv_Cons map_Suc_upt[symmetric] algebra_simps del: upt_Suc)
    show ?thesis
    proof (cases "unat end_block - unat current_block = 0")
      case False
      with IH True show ?thesis by (subst interval_blocks.simps) (simp add: count steps del: upt_Suc)
    next
      case zero: True
      then have "\<not> ?next \<le> end_block" using step(1) pos by simp
      then have "interval_blocks ?next end_block interval (blocks @ [current_block]) = Some (blocks @ [current_block])"
        by (subst interval_blocks.simps) simp
      with zero True show ?thesis by (subst interval_blocks.simps) simp
    qed
  qed (subst interval_blocks.simps, simp)
qed

text \<open>
  A valid range with an interval expands to its blocks in steps of the interval, from the start
  up to the end, when the last addition does not overflow; with an interval of zero, which the settings
  accept, the expansion never ends.
\<close>
lemma blocks_expand:
  assumes "validate_range r latest_block = Ok ()"
    and "unat (to_block_number (br_end r) latest_block) + unat interval < 2 ^ 64"
  defines "start_block \<equiv> to_block_number (br_start r) latest_block"
    and "end_block \<equiv> to_block_number (br_end r) latest_block"
  shows "expand_to_block_numbers (Range_With_Interval r interval) latest_block =
    (if interval = 0 then None
     else Some (Ok (map (\<lambda>i. start_block + of_nat i * ucast interval)
       [0 ..< Suc ((unat end_block - unat start_block) div unat interval)])))"
proof -
  have le: "start_block \<le> end_block"
    using assms(1) by (auto simp: validate_range_def start_block_def end_block_def split: if_splits)
  have cast: "unat (ucast interval :: u64) = unat interval" by (rule unat_ucast_le) simp
  show ?thesis
  proof (cases "interval = 0")
    case True
    then show ?thesis
      using interval_zero_diverges[OF le] assms(1)
      by (simp add: expand_to_block_numbers_def start_block_def end_block_def)
  next
    case False
    have "ucast interval \<noteq> (0 :: u64)"
      using False cast by (metis unat_eq_zero)
    with interval_blocks_steps[of "ucast interval" end_block start_block "[]"] assms(1,2) le False show ?thesis
      by (simp add: expand_to_block_numbers_def cast end_block_def start_block_def del: upt_Suc)
  qed
qed

lemma blocks_expand_example:
  "expand_to_block_numbers (Range_With_Interval \<lparr>br_start = Block_Number 10, br_end = Latest\<rparr> 5) 21 =
     Some (Ok [10, 15, 20]) \<and>
   expand_to_block_numbers (Range_With_Interval \<lparr>br_start = Block_Number 10, br_end = Latest\<rparr> 0) 21 = None"
  using blocks_expand[of "\<lparr>br_start = Block_Number 10, br_end = Latest\<rparr>" 21 5]
    blocks_expand[of "\<lparr>br_start = Block_Number 10, br_end = Latest\<rparr>" 21 0]
  by (simp add: validate_range_def upt_rec)

lemma split_range:
  assumes "CHR ''.'' \<notin> set a" "CHR ''.'' \<notin> set b"
  shows "split_str ''..'' (a @ ''..'' @ b) = [a, b]"
proof -
  have none: "split_once ''..'' b = None"
    using assms(2) by (induction b) (subst split_once.simps, force)+
  have "split_once ''..'' (a @ ''..'' @ b) = Some (a, b)"
    using split_once_skip[of "CHR ''.''" "''.''" "''..''" a "''..'' @ b"] assms(1) split_once_here[of "''..''" b] by simp
  with none show ?thesis by (subst split_str.simps, subst split_str.simps) simp
qed

lemma range_roundtrip:
  assumes "br_start r \<noteq> Latest" "br_end r \<noteq> Genesis"
  shows "parse_range (show_range r) = Ok (r :: block_range)"
proof -
  have number: "parse_block u (show_word (n :: u64)) = Ok (Block_Number n)" for u n
  proof -
    have "unat n < 2 ^ 64" using unsigned_less[of n] by simp
    then have "parse_unsigned (2 ^ 64) (show_word n) = Ok (unat n)" by (rule parse_unsigned_show)
    moreover have "show_word n \<noteq> []" using show_nat_head[of "unat n"] by auto
    ultimately show ?thesis by (simp add: parse_block_def)
  qed
  have "CHR ''.'' \<notin> set (case b of Block_Number n \<Rightarrow> show_word n | _ \<Rightarrow> [])" for b
    by (simp add: show_nat_no_dot split: block_cfg.split)
  note parts = split_range[OF this this, of "br_start r" "br_end r"]
  have "parse_block Genesis (case br_start r of Block_Number n \<Rightarrow> show_word n | _ \<Rightarrow> []) = Ok (br_start r)"
    "parse_block Latest (case br_end r of Block_Number n \<Rightarrow> show_word n | _ \<Rightarrow> []) = Ok (br_end r)"
    using assms by (cases "br_start r"; simp add: number; simp add: parse_block_def)
      (use assms in \<open>cases "br_end r"; simp add: number; simp add: parse_block_def\<close>)
  then show ?thesis using parts by (simp add: parse_range_def show_range_def)
qed

section \<open>The tree behind the flattened scenarios\<close>

definition own_list :: "yaml_hash \<Rightarrow> (string \<times> string) list \<Rightarrow> (string \<times> string) list" where
  "own_list h m = fold (\<lambda>(k, v) m. map_put (yaml_name k) (the (as_str v)) m) h m"

definition own_bindings :: "strict_yaml \<Rightarrow> string \<Rightarrow> string option" where
  "own_bindings y = (case optional_hash y ''bindings'' of Some h \<Rightarrow> map_of (own_list h []) | None \<Rightarrow> Map.empty)"

definition own_rainlang :: "scenario_env \<Rightarrow> string \<Rightarrow> strict_yaml \<Rightarrow> rainlang_cfg option" where
  "own_rainlang E scenario_key y = (case se_rainlangs E scenario_key of
     Some r \<Rightarrow> Some r | None \<Rightarrow> Option.bind (optional_string y ''rainlang'') (se_rainlangs E))"

record scenario_node =
  nd_key :: string
  nd_yaml :: strict_yaml
  nd_bindings :: "string \<Rightarrow> string option"

inductive child_of :: "scenario_node \<Rightarrow> scenario_node \<Rightarrow> bool" where
  "optional_hash (nd_yaml n) ''scenarios'' = Some h \<Longrightarrow> (k, z) \<in> set h \<Longrightarrow>
     child_of n \<lparr>nd_key = child_name (nd_key n) (yaml_name k), nd_yaml = z, nd_bindings = nd_bindings n ++ own_bindings z\<rparr>"

inductive_cases child_ofE: "child_of n n'"

definition no_shadow :: "scenario_node \<Rightarrow> bool" where
  \<comment> \<open>no scenario below changes a binding it inherits\<close>
  "no_shadow n \<longleftrightarrow> (\<forall>n' n''. child_of\<^sup>*\<^sup>* n n' \<longrightarrow> child_of n' n'' \<longrightarrow> nd_bindings n' \<subseteq>\<^sub>m nd_bindings n'')"

lemma map_put_map_of: "map_of (map_put k v m) = (map_of m)(k \<mapsto> v)"
  by (auto simp: map_put_def map_of_filter_key fun_eq_iff map_add_def split: option.split)

lemma map_put_distinct: "distinct (map fst m) \<Longrightarrow> distinct (map fst (map_put k v m))"
  by (auto simp: map_put_def distinct_map intro: inj_on_subset)

lemma read_bindings_Ok:
  assumes "se_context E = None"
  shows "read_bindings E key h m = Ok m' \<Longrightarrow> m' = own_list h m \<and> (distinct (map fst m) \<longrightarrow> distinct (map fst m'))"
  using assms
proof (induction h arbitrary: m)
  case (Cons e h)
  obtain k v where e: "e = (k, v)" by force
  from Cons.prems obtain s where "as_str v = Some s" "read_bindings E key h (map_put (yaml_name k) s m) = Ok m'"
    by (auto simp: e Let_def ok_iff require_string_def interpolated_def)
  with Cons.IH[of "map_put (yaml_name k) s m"] Cons.prems(2) show ?case
    by (auto simp: e own_list_def dest: map_put_distinct)
qed (simp add: own_list_def)

lemma merge_bindings_Ok:
  assumes "se_context E = None"
  shows "merge_bindings E (Some pb) m b = Ok b' \<Longrightarrow> distinct (map fst m) \<Longrightarrow> b' = b ++ map_of m \<and>
      (\<forall>k v. map_of m k = Some v \<longrightarrow> pb k = None \<or> pb k = Some v)"
    and "merge_bindings E None m b = Ok b' \<Longrightarrow> distinct (map fst m) \<Longrightarrow> b' = b ++ map_of m"
proof -
  have "merge_bindings E p m b = Ok b' \<Longrightarrow> distinct (map fst m) \<Longrightarrow> b' = b ++ map_of m \<and>
      (\<forall>k v. map_of m k = Some v \<longrightarrow> (\<forall>pb w. p = Some pb \<and> pb k = Some w \<longrightarrow> w = v))" for p
    using assms
  proof (induction m arbitrary: b)
    case (Cons e m)
    obtain k v where e: "e = (k, v)" by force
    from Cons.prems have rec: "merge_bindings E p m (b(k \<mapsto> v)) = Ok b'"
      and ok: "\<forall>pb w. p = Some pb \<and> pb k = Some w \<longrightarrow> w = v"
      by (auto simp: e interpolated_def simp del: fun_upd_apply split: if_splits option.splits)
    from Cons.prems(2) have "k \<notin> dom (map_of m)" by (auto simp: e dom_map_of_conv_image_fst)
    then have "b(k \<mapsto> v) ++ map_of m = b ++ map_of (e # m)" by (simp add: e map_add_upd_left)
    note eq = this
    have "distinct (map fst m)" using Cons.prems(2) by (simp add: e)
    note IH = Cons.IH[OF rec this Cons.prems(3)]
    then have "b' = b ++ map_of (e # m)" using eq by (simp only:)
    moreover have "\<forall>j u. map_of (e # m) j = Some u \<longrightarrow> (\<forall>pb w. p = Some pb \<and> pb j = Some w \<longrightarrow> w = u)"
      using IH ok by (auto simp: e)
    ultimately show ?case by blast
  qed simp
  from this[of "Some pb"] this[of None]
  show "merge_bindings E (Some pb) m b = Ok b' \<Longrightarrow> distinct (map fst m) \<Longrightarrow> b' = b ++ map_of m \<and>
      (\<forall>k v. map_of m k = Some v \<longrightarrow> pb k = None \<or> pb k = Some v)"
    and "merge_bindings E None m b = Ok b' \<Longrightarrow> distinct (map fst m) \<Longrightarrow> b' = b ++ map_of m"
    by auto (metis not_None_eq)
qed

lemma scenario_bindings_Ok:
  assumes "se_context E = None" "scenario_bindings E p key y = Ok b"
  defines "inherited \<equiv> (case sp_bindings p of Some pb \<Rightarrow> pb | None \<Rightarrow> Map.empty)"
  shows "b = inherited ++ own_bindings y \<and> inherited \<subseteq>\<^sub>m b"
proof -
  from assms(2) obtain m where m: "(case optional_hash y ''bindings'' of
      Some h \<Rightarrow> read_bindings E key h [] | None \<Rightarrow> Ok []) = Ok m"
    and merged: "merge_bindings E (sp_bindings p) m inherited = Ok b"
    by (auto simp: scenario_bindings_def ok_iff inherited_def)
  from m have own: "own_bindings y = map_of m" and d: "distinct (map fst m)"
    using read_bindings_Ok[OF assms(1)] by (auto simp: own_bindings_def split: option.splits)
  show ?thesis
  proof (cases "sp_bindings p")
    case None
    with merged have "merge_bindings E None m Map.empty = Ok b" by (simp add: inherited_def)
    from merge_bindings_Ok(2)[OF assms(1) this d] None show ?thesis by (simp add: own inherited_def)
  next
    case (Some pb)
    with merged have "merge_bindings E (Some pb) m pb = Ok b" by (simp add: inherited_def)
    from merge_bindings_Ok(1)[OF assms(1) this d] Some show ?thesis
      by (auto simp: own inherited_def map_le_def map_add_def split: option.split) (metis option.distinct(1) option.inject)
  qed
qed

lemma scenario_entry_Ok:
  assumes E: "se_context E = None" "\<And>n r. se_rainlangs E n = Some r \<Longrightarrow> rl_key r = n"
    and ok: "scenario_entry E p key y rl scs = Ok sc" and rl: "sp_rainlang p = rl"
    and known: "\<And>r. rl = Some r \<Longrightarrow> se_rainlangs E (rl_key r) = Some r"
  defines "inherited \<equiv> (case sp_bindings p of Some pb \<Rightarrow> pb | None \<Rightarrow> Map.empty)"
  shows "sc_key sc = child_name (sp_key p) key" "sc_bindings sc = inherited ++ own_bindings y"
    "inherited \<subseteq>\<^sub>m sc_bindings sc" "se_rainlangs E (rl_key (sc_rainlang sc)) = Some (sc_rainlang sc)"
    "case rl of Some r \<Rightarrow> sc_rainlang sc = r | None \<Rightarrow> own_rainlang E key y = Some (sc_rainlang sc)"
proof -
  from ok obtain b r where b: "scenario_bindings E p key y = Ok b" and r: "scenario_rainlang E p key y rl = Ok (Some r)"
    and sc: "sc_key sc = child_name (sp_key p) key" "sc_bindings sc = b" "sc_rainlang sc = r"
    by (auto simp: scenario_entry_def ok_iff Let_def ok_or_Ok_iff split: if_splits)
  show "sc_key sc = child_name (sp_key p) key" by (rule sc)
  show "sc_bindings sc = inherited ++ own_bindings y" "inherited \<subseteq>\<^sub>m sc_bindings sc"
    using scenario_bindings_Ok[OF E(1) b] unfolding sc inherited_def by blast+
  have r': "if own_rainlang E key y = None then rl = Some r
    else own_rainlang E key y = Some r \<and> (\<forall>q. rl = Some q \<longrightarrow> rl_key r = rl_key q)"
  proof (cases "se_rainlangs E key")
    case None
    show ?thesis
    proof (cases "optional_string y ''rainlang''")
      case (Some name)
      with None r rl show ?thesis
        by (cases "se_rainlangs E name") (auto simp: scenario_rainlang_def own_rainlang_def split: option.splits if_splits)
    qed (use None r in \<open>simp add: scenario_rainlang_def own_rainlang_def\<close>)
  qed (use r rl in \<open>auto simp: scenario_rainlang_def own_rainlang_def split: option.splits if_splits\<close>)
  have own_known: "own_rainlang E key y = Some q \<Longrightarrow> se_rainlangs E (rl_key q) = Some q" for q
    using E(2) by (auto simp: own_rainlang_def bind_eq_Some_conv split: option.splits)
  show "se_rainlangs E (rl_key (sc_rainlang sc)) = Some (sc_rainlang sc)"
    using r' own_known known by (auto simp: sc split: if_splits)
  show "case rl of Some r \<Rightarrow> sc_rainlang sc = r | None \<Rightarrow> own_rainlang E key y = Some (sc_rainlang sc)"
  proof (cases rl)
    case None
    with r' show ?thesis by (simp add: sc split: if_splits)
  next
    case (Some q)
    show ?thesis
    proof (cases "own_rainlang E key y")
      case None
      with r' Some show ?thesis by (simp add: sc)
    next
      case (Some p)
      with r' \<open>rl = Some q\<close> have "own_rainlang E key y = Some r" "rl_key r = rl_key q" by simp_all
      with own_known[OF this(1)] known[OF \<open>rl = Some q\<close>] have "r = q" by (metis option.inject)
      with \<open>rl = Some q\<close> show ?thesis unfolding sc by simp
    qed
  qed
qed

lemma reachable_children:
  assumes "child_of\<^sup>*\<^sup>* n n'"
  obtains "n' = n" | k z h where "optional_hash (nd_yaml n) ''scenarios'' = Some h" "(k, z) \<in> set h"
    "child_of\<^sup>*\<^sup>* \<lparr>nd_key = child_name (nd_key n) (yaml_name k), nd_yaml = z, nd_bindings = nd_bindings n ++ own_bindings z\<rparr> n'"
  using assms
proof (cases rule: converse_rtranclpE)
  case base
  then show ?thesis using that(1) by simp
next
  case (step m)
  from step(1) show ?thesis
  proof (cases rule: child_of.cases)
    case (1 h k z)
    then show ?thesis using that(2)[OF 1(2,3)] step(2) by simp
  qed
qed

lemma no_shadowI:
  assumes "\<And>k z h. optional_hash (nd_yaml n) ''scenarios'' = Some h \<Longrightarrow> (k, z) \<in> set h \<Longrightarrow>
    nd_bindings n \<subseteq>\<^sub>m nd_bindings n ++ own_bindings z \<and>
    no_shadow \<lparr>nd_key = child_name (nd_key n) (yaml_name k), nd_yaml = z, nd_bindings = nd_bindings n ++ own_bindings z\<rparr>"
  shows "no_shadow n"
  unfolding no_shadow_def
proof (intro allI impI)
  fix n' n'' assume "child_of\<^sup>*\<^sup>* n n'" and c: "child_of n' n''"
  from this(1) show "nd_bindings n' \<subseteq>\<^sub>m nd_bindings n''"
  proof (cases rule: reachable_children)
    case 1
    with c assms show ?thesis by (auto elim!: child_ofE)
  next
    case (2 k z h)
    with assms[OF 2(1,2)] c show ?thesis unfolding no_shadow_def by blast
  qed
qed

definition recorded :: "rainlang_cfg \<Rightarrow> scenario_node \<Rightarrow> scenarios \<Rightarrow> scenarios \<Rightarrow> bool" where
  \<comment> \<open>the scenarios from a node down are in the map, and only they are new there\<close>
  "recorded r n scs scs' \<longleftrightarrow>
     (\<forall>n'. child_of\<^sup>*\<^sup>* n n' \<longrightarrow> scs' (nd_key n') \<noteq> None) \<and> no_shadow n \<and> dom scs \<subseteq> dom scs' \<and>
     (\<forall>K sc. scs' K = Some sc \<longrightarrow> scs K = Some sc \<or>
        (sc_key sc = K \<and> sc_rainlang sc = r \<and> (\<exists>y. child_of\<^sup>*\<^sup>* n \<lparr>nd_key = K, nd_yaml = y, nd_bindings = sc_bindings sc\<rparr>)))"

definition parent_bindings :: "scenario_parent \<Rightarrow> string \<Rightarrow> string option" where
  "parent_bindings p = (case sp_bindings p of Some pb \<Rightarrow> pb | None \<Rightarrow> Map.empty)"

lemma validate_scenario_recorded:
  assumes E: "se_context E = None" "\<And>n r. se_rainlangs E n = Some r \<Longrightarrow> rl_key r = n"
  shows "validate_scenario E p key y rl scs = Ok (rl', scs') \<Longrightarrow> sp_rainlang p = rl \<Longrightarrow>
      (\<And>r. rl = Some r \<Longrightarrow> se_rainlangs E (rl_key r) = Some r) \<Longrightarrow>
      \<exists>r. rl' = Some r \<and> se_rainlangs E (rl_key r) = Some r \<and> (rl = None \<or> rl = rl') \<and>
        (rl = None \<longrightarrow> own_rainlang E key y = Some r) \<and>
        parent_bindings p \<subseteq>\<^sub>m parent_bindings p ++ own_bindings y \<and>
        recorded r \<lparr>nd_key = child_name (sp_key p) key, nd_yaml = y, nd_bindings = parent_bindings p ++ own_bindings y\<rparr> scs scs'"
    and "validate_children E sc ys rl scs = Ok (rl', scs') \<Longrightarrow> rl = Some (sc_rainlang sc) \<Longrightarrow>
      se_rainlangs E (rl_key (sc_rainlang sc)) = Some (sc_rainlang sc) \<Longrightarrow>
      rl' = rl \<and> dom scs \<subseteq> dom scs' \<and>
      (\<forall>(k, z) \<in> set ys. sc_bindings sc \<subseteq>\<^sub>m sc_bindings sc ++ own_bindings z \<and>
        (let n = \<lparr>nd_key = child_name (sc_key sc) (yaml_name k), nd_yaml = z, nd_bindings = sc_bindings sc ++ own_bindings z\<rparr>
         in no_shadow n \<and> (\<forall>n'. child_of\<^sup>*\<^sup>* n n' \<longrightarrow> scs' (nd_key n') \<noteq> None))) \<and>
      (\<forall>K s. scs' K = Some s \<longrightarrow> scs K = Some s \<or> (sc_key s = K \<and> sc_rainlang s = sc_rainlang sc \<and>
        (\<exists>(k, z) \<in> set ys. \<exists>y. child_of\<^sup>*\<^sup>* \<lparr>nd_key = child_name (sc_key sc) (yaml_name k), nd_yaml = z,
           nd_bindings = sc_bindings sc ++ own_bindings z\<rparr> \<lparr>nd_key = K, nd_yaml = y, nd_bindings = sc_bindings s\<rparr>)))"
  using E
proof (induction E p key y rl scs and E sc ys rl scs arbitrary: rl' scs' and rl' scs'
    rule: validate_scenario_validate_children.induct)
  case (1 E p key y rl scs)
  from 1(2) obtain sc where entry: "scenario_entry E p key y rl scs = Ok sc"
    and rest: "(case optional_hash y ''scenarios'' of
        Some ys \<Rightarrow> validate_children E sc ys (Some (sc_rainlang sc)) (scs(sc_key sc \<mapsto> sc))
      | None \<Rightarrow> Ok (Some (sc_rainlang sc), scs(sc_key sc \<mapsto> sc))) = Ok (rl', scs')"
    by (auto simp: ok_iff Let_def simp del: fun_upd_apply)
  note e = scenario_entry_Ok[OF 1(5,6) entry 1(3,4), folded parent_bindings_def]
  let ?n = "\<lparr>nd_key = child_name (sp_key p) key, nd_yaml = y, nd_bindings = parent_bindings p ++ own_bindings y\<rparr>"
  have "rl' = Some (sc_rainlang sc) \<and> recorded (sc_rainlang sc) ?n scs scs'"
  proof (cases "optional_hash y ''scenarios''")
    case None
    have only: "n' = ?n" if "child_of\<^sup>*\<^sup>* ?n n'" for n'
      using that None by (cases rule: reachable_children) auto
    have "no_shadow ?n" by (rule no_shadowI) (simp add: None)
    moreover have scs': "scs' = scs(child_name (sp_key p) key \<mapsto> sc)" "rl' = Some (sc_rainlang sc)"
      using rest None e(1) by simp_all
    moreover have "scs' (nd_key n') \<noteq> None" if "child_of\<^sup>*\<^sup>* ?n n'" for n'
      using only[OF that] scs'(1) by simp
    moreover have "scs K = Some s \<or> (sc_key s = K \<and> sc_rainlang s = sc_rainlang sc \<and>
        (\<exists>y. child_of\<^sup>*\<^sup>* ?n \<lparr>nd_key = K, nd_yaml = y, nd_bindings = sc_bindings s\<rparr>))" if "scs' K = Some s" for K s
    proof (cases "K = child_name (sp_key p) key")
      case True
      then have "s = sc" using that scs'(1) by simp
      then show ?thesis using e(1,2) True by auto
    qed (use that scs'(1) in simp)
    ultimately show ?thesis unfolding recorded_def by auto
  next
    case (Some ys)
    with rest have children: "validate_children E sc ys (Some (sc_rainlang sc)) (scs(sc_key sc \<mapsto> sc)) = Ok (rl', scs')" by simp
    note IH = 1(1)[OF entry refl Some children refl e(4) 1(5,6)]
    let ?child = "\<lambda>k z. \<lparr>nd_key = child_name (nd_key ?n) (yaml_name k), nd_yaml = z, nd_bindings = nd_bindings ?n ++ own_bindings z\<rparr>"
    have kids: "sc_bindings sc \<subseteq>\<^sub>m sc_bindings sc ++ own_bindings z" "no_shadow (?child k z)"
      "\<And>n'. child_of\<^sup>*\<^sup>* (?child k z) n' \<Longrightarrow> scs' (nd_key n') \<noteq> None" if "(k, z) \<in> set ys" for k z
      using IH that by (auto simp: e(1,2) Let_def)
    have "dom (scs(sc_key sc \<mapsto> sc)) \<subseteq> dom scs'" using IH by blast
    then have dom: "dom scs \<subseteq> dom scs'" "scs' (sc_key sc) \<noteq> None" by auto
    have "scs' (nd_key n') \<noteq> None" if "child_of\<^sup>*\<^sup>* ?n n'" for n'
      using that
    proof (cases rule: reachable_children)
      case 1
      then show ?thesis using dom(2) by (simp add: e(1))
    next
      case (2 k z h)
      with Some have "(k, z) \<in> set ys" by simp
      from kids(3)[OF this 2(3)] show ?thesis .
    qed
    moreover have "no_shadow ?n"
      by (rule no_shadowI) (use kids(1,2) Some e(2) in auto)
    moreover have "scs K = Some s \<or> (sc_key s = K \<and> sc_rainlang s = sc_rainlang sc \<and>
        (\<exists>y. child_of\<^sup>*\<^sup>* ?n \<lparr>nd_key = K, nd_yaml = y, nd_bindings = sc_bindings s\<rparr>))" if "scs' K = Some s" for K s
    proof -
      have "(scs(sc_key sc \<mapsto> sc)) K = Some s \<or> (sc_key s = K \<and> sc_rainlang s = sc_rainlang sc \<and>
          (\<exists>(k, z) \<in> set ys. \<exists>y. child_of\<^sup>*\<^sup>* (?child k z) \<lparr>nd_key = K, nd_yaml = y, nd_bindings = sc_bindings s\<rparr>))"
        using IH that by (simp add: e(1,2))
      then show ?thesis
      proof
        assume "(scs(sc_key sc \<mapsto> sc)) K = Some s"
        then have "scs K = Some s \<or> (K = sc_key sc \<and> s = sc)" by (auto split: if_splits)
        then show ?thesis using e(1,2) by auto
      next
        assume new: "sc_key s = K \<and> sc_rainlang s = sc_rainlang sc \<and>
          (\<exists>(k, z) \<in> set ys. \<exists>y. child_of\<^sup>*\<^sup>* (?child k z) \<lparr>nd_key = K, nd_yaml = y, nd_bindings = sc_bindings s\<rparr>)"
        then obtain k z y where "(k, z) \<in> set ys" "child_of\<^sup>*\<^sup>* (?child k z) \<lparr>nd_key = K, nd_yaml = y, nd_bindings = sc_bindings s\<rparr>"
          by blast
        moreover from this(1) Some have "child_of ?n (?child k z)" by (intro child_of.intros) simp_all
        ultimately show ?thesis using new by (meson converse_rtranclp_into_rtranclp)
      qed
    qed
    ultimately show ?thesis using IH dom(1) unfolding recorded_def by blast
  qed
  with e 1(3) show ?case
    by (intro exI[of _ "sc_rainlang sc"]) (auto split: option.splits)
next
  case (2 E sc rl scs)
  from 2(1) show ?case by simp
next
  case (3 E sc k z ys rl scs)
  let ?p = "\<lparr>sp_key = sc_key sc, sp_bindings = Some (sc_bindings sc), sp_rainlang = rl\<rparr>"
  from 3(3) obtain rl1 scs1 where one: "validate_scenario E ?p (yaml_name k) z rl scs = Ok (rl1, scs1)"
    and rest: "validate_children E sc ys rl1 scs1 = Ok (rl', scs')"
    by (auto simp: ok_iff)
  have pb: "parent_bindings ?p = sc_bindings sc" by (simp add: parent_bindings_def)
  have rl: "se_rainlangs E (rl_key r) = Some r" if "rl = Some r" for r using that 3(4,5) by simp
  from 3(1)[OF one _ rl 3(6,7), unfolded pb] 3(4) have first: "rl1 = rl" "sc_bindings sc \<subseteq>\<^sub>m sc_bindings sc ++ own_bindings z"
    "recorded (sc_rainlang sc) \<lparr>nd_key = child_name (sc_key sc) (yaml_name k), nd_yaml = z,
       nd_bindings = sc_bindings sc ++ own_bindings z\<rparr> scs scs1" by auto
  note IH = 3(2)[OF one refl rest _ 3(5,6,7)]
  have rest_ok: "rl' = rl \<and> dom scs1 \<subseteq> dom scs'" "\<forall>(k, z) \<in> set ys. sc_bindings sc \<subseteq>\<^sub>m sc_bindings sc ++ own_bindings z \<and>
        (let n = \<lparr>nd_key = child_name (sc_key sc) (yaml_name k), nd_yaml = z, nd_bindings = sc_bindings sc ++ own_bindings z\<rparr>
         in no_shadow n \<and> (\<forall>n'. child_of\<^sup>*\<^sup>* n n' \<longrightarrow> scs' (nd_key n') \<noteq> None))"
    "\<forall>K s. scs' K = Some s \<longrightarrow> scs1 K = Some s \<or> (sc_key s = K \<and> sc_rainlang s = sc_rainlang sc \<and>
        (\<exists>(k, z) \<in> set ys. \<exists>y. child_of\<^sup>*\<^sup>* \<lparr>nd_key = child_name (sc_key sc) (yaml_name k), nd_yaml = z,
           nd_bindings = sc_bindings sc ++ own_bindings z\<rparr> \<lparr>nd_key = K, nd_yaml = y, nd_bindings = sc_bindings s\<rparr>))"
    using IH 3(4) first(1) by simp_all
  show ?case
    using rest_ok first unfolding recorded_def by (auto simp: Let_def) blast+
qed

section \<open>All scenarios of the settings\<close>

definition root_scenarios :: "yaml_hash \<Rightarrow> scenario_node set" where
  "root_scenarios entries = (\<lambda>(k, z). \<lparr>nd_key = yaml_name k, nd_yaml = z, nd_bindings = own_bindings z\<rparr>) ` set entries"

lemma parse_scenario_entries_append:
  "parse_scenario_entries E (xs @ ys) m = rbind (parse_scenario_entries E xs m) (parse_scenario_entries E ys)"
proof (induction xs arbitrary: m)
  case (Cons e xs)
  obtain k v where e: "e = (k, v)" by force
  show ?case
    by (cases "validate_scenario E \<lparr>sp_key = [], sp_bindings = None, sp_rainlang = None\<rparr> (yaml_name k) v None m")
      (auto simp: e Cons Let_def)
qed simp

lemma parse_scenario_documents_entries:
  "parse_scenario_documents E docs m = parse_scenario_entries E (all_entries ''scenarios'' docs) m"
proof (induction docs arbitrary: m)
  case (Cons d ds)
  then have "parse_scenario_documents E ds = parse_scenario_entries E (all_entries ''scenarios'' ds)" by (intro ext)
  then show ?case
    by (simp add: require_hash_section parse_scenario_entries_append section_entries_def[of _ d] split: option.splits)
qed simp

lemma parse_scenario_entries_recorded:
  assumes E: "se_context E = None" "\<And>n r. se_rainlangs E n = Some r \<Longrightarrow> rl_key r = n"
  shows "parse_scenario_entries E es scs = Ok m \<Longrightarrow>
    dom scs \<subseteq> dom m \<and>
    (\<forall>n\<in>root_scenarios es. no_shadow n \<and> (\<forall>n'. child_of\<^sup>*\<^sup>* n n' \<longrightarrow> m (nd_key n') \<noteq> None)) \<and>
    (\<forall>K sc. m K = Some sc \<longrightarrow> scs K = Some sc \<or>
       (sc_key sc = K \<and> (\<exists>n\<in>root_scenarios es. own_rainlang E (nd_key n) (nd_yaml n) = Some (sc_rainlang sc) \<and>
          (\<exists>y. child_of\<^sup>*\<^sup>* n \<lparr>nd_key = K, nd_yaml = y, nd_bindings = sc_bindings sc\<rparr>))))"
proof (induction es arbitrary: scs)
  case (Cons e es)
  obtain k z where e: "e = (k, z)" by force
  let ?p = "\<lparr>sp_key = [], sp_bindings = None, sp_rainlang = None\<rparr> :: scenario_parent"
  let ?n = "\<lparr>nd_key = yaml_name k, nd_yaml = z, nd_bindings = own_bindings z\<rparr>"
  from Cons.prems obtain rl scs1 where one: "validate_scenario E ?p (yaml_name k) z None scs = Ok (rl, scs1)"
    and rest: "parse_scenario_entries E es scs1 = Ok m"
    by (auto simp: e ok_iff Let_def split: if_splits)
  have "parent_bindings ?p = Map.empty" "child_name (sp_key ?p) (yaml_name k) = yaml_name k"
    by (simp_all add: parent_bindings_def child_name_def)
  with validate_scenario_recorded(1)[OF E one] obtain r where
    r: "own_rainlang E (yaml_name k) z = Some r" and rec: "recorded r ?n scs scs1" by auto
  note IH = Cons.IH[OF rest]
  have roots: "root_scenarios (e # es) = insert ?n (root_scenarios es)" by (simp add: root_scenarios_def e)
  note grows = IH[THEN conjunct1] and kept = IH[THEN conjunct2, THEN conjunct1] and new = IH[THEN conjunct2, THEN conjunct2]
  have "sc_key sc = K \<and> (\<exists>n\<in>insert ?n (root_scenarios es). own_rainlang E (nd_key n) (nd_yaml n) = Some (sc_rainlang sc) \<and>
          (\<exists>y. child_of\<^sup>*\<^sup>* n \<lparr>nd_key = K, nd_yaml = y, nd_bindings = sc_bindings sc\<rparr>))"
    if "m K = Some sc" "scs K \<noteq> Some sc" for K sc
  proof (cases "scs1 K = Some sc")
    case True
    with rec that(2) have "sc_key sc = K \<and> sc_rainlang sc = r \<and>
        (\<exists>y. child_of\<^sup>*\<^sup>* ?n \<lparr>nd_key = K, nd_yaml = y, nd_bindings = sc_bindings sc\<rparr>)"
      unfolding recorded_def by blast
    with r show ?thesis by simp
  next
    case False
    with new that(1) show ?thesis by blast
  qed
  moreover have "dom scs \<subseteq> dom m" using rec grows unfolding recorded_def by blast
  moreover have "no_shadow n \<and> (\<forall>n'. child_of\<^sup>*\<^sup>* n n' \<longrightarrow> m (nd_key n') \<noteq> None)" if "n \<in> insert ?n (root_scenarios es)" for n
  proof (cases "n = ?n")
    case True
    with rec grows show ?thesis unfolding recorded_def by blast
  next
    case False
    with that kept show ?thesis by simp
  qed
  ultimately show ?case unfolding roots by blast
qed (simp add: root_scenarios_def)

lemma parsed_rainlangs_keyed:
  assumes "parse_all_rainlangs T remote docs = Ok rainlangs" "rainlangs n = Some r"
  shows "rl_key r = n"
proof -
  from assms(1) obtain nets where found:
    "collect_entries ''rainlangs'' (parse_rainlang T nets) (all_entries ''rainlangs'' docs) Map.empty = Ok rainlangs"
    by (auto simp: parse_all_rainlangs_def required_def ok_iff collect_documents_entries split: if_splits)
  have "parse_rainlang T nets k v = Ok c \<Longrightarrow> rl_key c = k" for k v c
    by (auto simp: parse_rainlang_def Let_def ok_iff)
  then show ?thesis
    using collect_entries_all[OF found, of "\<lambda>k c. rl_key c = k" n r] assms(2) by auto
qed

text \<open>
  Claim C28. The scenarios that are read, when no context is given to interpolate with, are the flattened
  trees under the scenario sections: each has its dotted path as its name, the bindings of its ancestors
  with its own, and the rainlang of the root of its tree; every scenario of a tree is there; and no
  scenario of a tree changes a binding it inherits.
\<close>
theorem scenarios_flatten_the_tree:
  assumes "parse_all_rainlangs (oc_text C) [] docs = Ok rainlangs"
    and "parse_all_scenarios C read_blocks None docs = Ok m"
  defines "roots \<equiv> root_scenarios (all_entries ''scenarios'' docs)"
    and "E \<equiv> \<lparr>se_codec = C, se_read_blocks = read_blocks, se_rainlangs = rainlangs, se_context = None\<rparr>"
  shows "(\<forall>K sc. m K = Some sc \<longrightarrow> sc_key sc = K \<and>
      (\<exists>n\<in>roots. own_rainlang E (nd_key n) (nd_yaml n) = Some (sc_rainlang sc) \<and>
         (\<exists>y. child_of\<^sup>*\<^sup>* n \<lparr>nd_key = K, nd_yaml = y, nd_bindings = sc_bindings sc\<rparr>))) \<and>
    (\<forall>n\<in>roots. no_shadow n \<and> (\<forall>n'. child_of\<^sup>*\<^sup>* n n' \<longrightarrow> m (nd_key n') \<noteq> None))"
proof -
  have "remote_networks_of None = []" by (simp add: remote_networks_of_def)
  with assms(1,2) have "parse_scenario_entries E (all_entries ''scenarios'' docs) Map.empty = Ok m"
    by (auto simp: parse_all_scenarios_def E_def required_def ok_iff parse_scenario_documents_entries split: if_splits)
  from parse_scenario_entries_recorded[OF _ _ this] parsed_rainlangs_keyed[OF assms(1)] show ?thesis
    unfolding roots_def by (simp add: E_def)
qed

definition buy_scenario :: strict_yaml where
  "buy_scenario = Yaml_Hash [(Yaml_String ''bindings'', Yaml_Hash [(Yaml_String ''raise'', Yaml_String ''2'')])]"

definition base_scenario :: strict_yaml where
  "base_scenario = Yaml_Hash
     [(Yaml_String ''bindings'', Yaml_Hash [(Yaml_String ''amount'', Yaml_String ''1'')]),
      (Yaml_String ''scenarios'', Yaml_Hash [(Yaml_String ''buy'', buy_scenario)])]"

definition scenario_document :: strict_yaml where
  "scenario_document = Yaml_Hash
     [(Yaml_String ''networks'', Yaml_Hash [(Yaml_String ''base'', usdc_entry)]),
      (Yaml_String ''rainlangs'', Yaml_Hash [(Yaml_String ''base'', Yaml_Hash [(Yaml_String ''address'', Yaml_String ''7'')])]),
      (Yaml_String ''scenarios'', Yaml_Hash [(Yaml_String ''base'', base_scenario)])]"

lemma scenario_document_rainlangs:
  "parse_all_rainlangs plain_codec [] [scenario_document] =
     Ok [''base'' \<mapsto> \<lparr>rl_key = ''base'', rl_address = 7, rl_network = usdc_network\<rparr>]"
proof -
  have "require_hash scenario_document (Some ''networks'') (Some ''root'') = Ok [(Yaml_String ''base'', usdc_entry)]"
    by (simp add: scenario_document_def require_hash_def hash_get_def)
  then have networks: "parse_all_networks plain_codec [] [scenario_document] = Ok [''base'' \<mapsto> usdc_network]"
    by (simp add: parse_all_networks_def usdc_entry_parses)
  have "tc_parse_address plain_codec ''7'' = Ok 7" using plain_address by (simp add: plain_codec_def)
  then show ?thesis
    unfolding parse_all_rainlangs_def networks
    by (simp add: scenario_document_def parse_rainlang_def address_field_def require_hash_def
        require_string_def hash_get_def reference_def optional_string_def unwrap_string_def required_def Let_def)
qed

theorem scenarios_flatten_the_tree_witness:
  "\<exists>m. parse_all_scenarios plain_order_codec (\<lambda>_. None) None [scenario_document] = Ok m \<and> m ''base.buy'' \<noteq> None"
proof -
  let ?root = "\<lparr>nd_key = ''base'', nd_yaml = base_scenario, nd_bindings = own_bindings base_scenario\<rparr>"
  have codec: "oc_text plain_order_codec = plain_codec" by (simp add: plain_order_codec_def)
  obtain m where m: "parse_all_scenarios plain_order_codec (\<lambda>_. None) None [scenario_document] = Ok m"
    using scenario_document_rainlangs
    by (simp add: parse_all_scenarios_def codec remote_networks_of_def)
      (simp add: scenario_document_def base_scenario_def buy_scenario_def scenario_entry_def
        scenario_bindings_def interpolated_def scenario_blocks_def scenario_rainlang_def child_name_def
        require_hash_def require_string_def hash_get_def optional_hash_def optional_string_def yaml_index_def
        map_put_def yaml_name_def required_def Let_def)
  have root: "?root \<in> root_scenarios (all_entries ''scenarios'' [scenario_document])"
    by (simp add: root_scenarios_def section_entries_def scenario_document_def optional_hash_def
        yaml_index_def hash_get_def yaml_name_def)
  have child: "child_of ?root \<lparr>nd_key = child_name (nd_key ?root) (yaml_name (Yaml_String ''buy'')), nd_yaml = buy_scenario,
      nd_bindings = nd_bindings ?root ++ own_bindings buy_scenario\<rparr>"
    by (rule child_of.intros[of _ "[(Yaml_String ''buy'', buy_scenario)]"]) (simp_all add: base_scenario_def optional_hash_def yaml_index_def hash_get_def)
  note tree = scenarios_flatten_the_tree[OF scenario_document_rainlangs[folded codec] m, THEN conjunct2]
  have "m (child_name (nd_key ?root) (yaml_name (Yaml_String ''buy''))) \<noteq> None"
    using bspec[OF tree root, THEN conjunct2, rule_format, OF r_into_rtranclp[of child_of, OF child]] by simp
  with m show ?thesis by (simp add: child_name_def yaml_name_def)
qed

section \<open>What an update of the bindings writes\<close>

lemma hash_get_write_all:
  "distinct (map fst updates) \<Longrightarrow>
    hash_get k (write_all updates h) = (case hash_get k updates of Some v \<Rightarrow> Some v | None \<Rightarrow> hash_get k h)"
proof (induction updates arbitrary: h)
  case (Cons e updates)
  obtain j v where e: "e = (j, v)" by force
  have "hash_get j updates = None" using Cons.prems by (simp add: e hash_get_def map_of_eq_None_iff)
  moreover have "hash_get k ((j, v) # updates) = (if k = j then Some v else hash_get k updates)" by (simp add: hash_get_def)
  moreover have "hash_get k (write_all updates (hash_insert j v h)) =
      (case hash_get k updates of Some v \<Rightarrow> Some v | None \<Rightarrow> hash_get k (hash_insert j v h))"
    by (rule Cons.IH) (use Cons.prems in simp)
  ultimately show ?case by (simp add: e write_all_def split: option.split)
qed (simp add: write_all_def)

lemma hash_get_overwrite:
  assumes "distinct (map fst h)"
  shows "hash_get k (overwrite_bindings new_bindings h) =
    (if hash_get k h = None then None else case hash_get k new_bindings of Some v \<Rightarrow> Some v | None \<Rightarrow> hash_get k h)"
proof -
  let ?us = "\<lambda>h. concat (map (\<lambda>(k, _). case hash_get k new_bindings of Some v \<Rightarrow> [(k, v)] | None \<Rightarrow> []) h)"
  have fst_us: "fst ` set (?us h) \<subseteq> fst ` set h" for h by (auto split: option.splits intro: rev_image_eqI)
  have "distinct (map fst (?us h))"
    using assms
  proof (induction h)
    case (Cons e h)
    obtain j v where e: "e = (j, v)" by force
    have "j \<notin> fst ` set (?us h)" using Cons.prems fst_us[of h] by (auto simp: e simp del: set_concat)
    with Cons show ?case by (simp add: e del: set_concat split: option.split)
  qed simp
  moreover have "hash_get k (?us h) = (if hash_get k h = None then None else hash_get k new_bindings)"
    by (induction h) (auto simp: hash_get_def split: option.splits)
  ultimately show ?thesis by (simp add: overwrite_bindings_def hash_get_write_all split: option.split)
qed

text \<open>
  The last scenario of the path, when it has bindings at all, ends with every binding that no scenario of
  the path had and with the new values of its own; its other bindings stay.
\<close>
lemma lowest_scenario_bindings:
  assumes "hash_get (Yaml_String ''bindings'') scenario = Some (Yaml_Hash bindings)"
    "distinct (map fst bindings)" "distinct (map fst unhandled)"
    and "\<And>k v. hash_get k unhandled = Some v \<Longrightarrow> hash_get k new_bindings = Some v"
  obtains bindings' where
    "write_scenario_bindings new_bindings base [] unhandled scenario =
       (hash_update (Yaml_String ''bindings'') (Yaml_Hash bindings') scenario, Ok ())"
    "\<And>k. hash_get k bindings' = (case hash_get k (if hash_get k bindings = None then unhandled else new_bindings) of
       Some v \<Rightarrow> Some v | None \<Rightarrow> hash_get k bindings)"
proof -
  let ?rest = "filter (\<lambda>(k, _). hash_get k bindings = None) unhandled"
  have rest: "hash_get k ?rest = (if hash_get k bindings = None then hash_get k unhandled else None)" for k
    by (induction unhandled) (auto simp: hash_get_def)
  have "distinct (map fst ?rest)" using assms(3) by (auto simp: distinct_map intro: inj_on_subset)
  then have "hash_get k (write_all ?rest (overwrite_bindings new_bindings bindings)) =
      (case hash_get k (if hash_get k bindings = None then unhandled else new_bindings) of
         Some v \<Rightarrow> Some v | None \<Rightarrow> hash_get k bindings)" for k
    by (simp add: hash_get_write_all rest hash_get_overwrite[OF assms(2)] split: option.split)
  then show thesis using that assms(1) by simp
qed

end
