(* ===== verification/Settings_Deployments.thy ===== *)
theory Settings_Deployments
  imports Settings_Orders Settings_Scenarios
begin

text \<open>
  Deployments (\<open>settings/src/deployment.rs\<close>): the pair of an order and a scenario, read with a context
  that holds the order, so that the placeholders of the scenario can refer to it. A context may name one
  deployment, and then nothing else is read.
\<close>

record deployment_cfg =
  dp_key :: string
  dp_scenario :: scenario_cfg
  dp_order :: order_cfg

fun deployment_order_key :: "strict_yaml list \<Rightarrow> string \<Rightarrow> (string, yaml_error) result" where
  "deployment_order_key [] deployment_key =
     Err (Yaml_Field (Missing ''order'') (''deployment '' @ quoted deployment_key))"
| "deployment_order_key (document # documents) deployment_key =
     (case require_hash document (Some ''deployments'') None of
        Ok deployments_hash \<Rightarrow>
          (case hash_get (Yaml_String deployment_key) deployments_hash of
             Some deployment_yaml \<Rightarrow> require_string deployment_yaml (Some ''order'') None
           | None \<Rightarrow> deployment_order_key documents deployment_key)
      | Err _ \<Rightarrow> deployment_order_key documents deployment_key)"

definition same_rainlang :: "rainlang_cfg \<Rightarrow> rainlang_cfg \<Rightarrow> bool" where
  "same_rainlang r r' \<longleftrightarrow> rl_address r = rl_address r' \<and> rl_network r = rl_network r'"

definition parse_deployment ::
  "order_codec \<Rightarrow> (string \<Rightarrow> blocks_cfg option) \<Rightarrow> settings_context option \<Rightarrow> strict_yaml list \<Rightarrow> string \<Rightarrow> strict_yaml
   \<Rightarrow> (deployment_cfg, yaml_error) result" where
  "parse_deployment C read_blocks context documents deployment_key deployment_yaml =
     (let location = ''deployment '' @ quoted deployment_key; cx = from_context context in
      rbind (require_string deployment_yaml (Some ''order'') (Some location)) (\<lambda>order_key.
      let cx = add_current_order order_key cx in
      rbind (entry_named order_key (parse_all_orders C (Some cx) documents)) (\<lambda>order.
      let cx = add_order order cx in
      rbind (require_string deployment_yaml (Some ''scenario'') (Some location)) (\<lambda>scenario_key.
      rbind (entry_named scenario_key (parse_all_scenarios C read_blocks (Some cx) documents)) (\<lambda>scenario.
      if (case od_rainlang order of Some r \<Rightarrow> \<not> same_rainlang r (sc_rainlang scenario) | None \<Rightarrow> False)
      then Err (Parse_Deployment_Config_Source_Error ''Scenario and Order do not match'')
      else Ok \<lparr>dp_key = deployment_key, dp_scenario = scenario, dp_order = order\<rparr>)))))"

definition parse_all_deployments ::
  "order_codec \<Rightarrow> (string \<Rightarrow> blocks_cfg option) \<Rightarrow> settings_context option \<Rightarrow> strict_yaml list
   \<Rightarrow> (string \<Rightarrow> deployment_cfg option, yaml_error) result" where
  "parse_all_deployments C read_blocks context documents =
     (let current = Option.bind context current_deployment in
      rbind (selected_documents ''deployments'' current (parse_deployment C read_blocks context documents) documents Map.empty)
        (\<lambda>deployments. case current of
             Some d \<Rightarrow> if deployments d = None then Err (Yaml_Field (Missing d) ''deployments'') else required ''deployments'' deployments
           | None \<Rightarrow> required ''deployments'' deployments))"

section \<open>What a context is read for\<close>

definition same_reading :: "settings_context \<Rightarrow> settings_context \<Rightarrow> bool" where
  \<comment> \<open>the contexts differ in the current deployment only\<close>
  "same_reading cx cx' \<longleftrightarrow> cx_order cx = cx_order cx' \<and> cx_select_tokens cx = cx_select_tokens cx' \<and>
     cx_yaml_cache cx = cx_yaml_cache cx' \<and> current_order cx = current_order cx'"

lemma interpolate_same:
  assumes "same_reading cx cx'"
  shows "interpolate_internal C cx allow s = interpolate_internal C cx' allow s"
proof -
  have eqs: "cx_order cx = cx_order cx'" "is_select_token cx = is_select_token cx'"
    using assms by (simp_all add: fun_eq_iff same_reading_def is_select_token_def)
  have "resolve_path C cx var = resolve_path C cx' var" for var
    unfolding resolve_path_def resolve_order_path_def eqs(1) ..
  moreover have "select_token_key_for_path cx var = select_token_key_for_path cx' var" for var
    unfolding select_token_key_for_path_def eqs ..
  ultimately have "replacement_of C cx allow var = replacement_of C cx' allow var" for var
    unfolding replacement_of_def by (simp only:)
  then show ?thesis
  proof (induction s rule: measure_induct_rule[where f = length])
    case (less s)
    show ?case
    proof (cases "split_once ''${'' s")
      case (Some p)
      then obtain before after where p: "split_once ''${'' s = Some (before, after)" by (cases p) simp
      show ?thesis
      proof (cases "split_once ''}'' after")
        case (Some q)
        then obtain var rest where q: "split_once ''}'' after = Some (var, rest)" by (cases q) simp
        have "length rest < length s" using split_once_Some[OF p] split_once_Some[OF q] by simp
        with less p q show ?thesis by (simp add: interpolate_internal.simps[of C _ allow s])
      qed (simp add: p interpolate_internal.simps[of C _ allow s])
    qed (simp add: interpolate_internal.simps[of C _ allow s])
  qed
qed

definition same_env :: "scenario_env \<Rightarrow> scenario_env \<Rightarrow> bool" where
  "same_env E E' \<longleftrightarrow> se_read_blocks E = se_read_blocks E' \<and> se_rainlangs E = se_rainlangs E' \<and>
     (\<forall>s. interpolated E s = interpolated E' s)"

lemma scenario_entry_same:
  assumes "same_env E E'"
  shows "scenario_entry E p key y rl scs = scenario_entry E' p key y rl scs"
proof -
  have step: "interpolated E s = interpolated E' s" for s using assms by (simp add: same_env_def)
  have "read_bindings E key h m = read_bindings E' key h m" for h m
  proof (induction h arbitrary: m)
    case (Cons e h)
    then show ?case by (cases e) (auto simp: Let_def step intro!: rbind_cong)
  qed simp
  moreover have "merge_bindings E pb m b = merge_bindings E' pb m b" for pb m b
  proof (induction m arbitrary: b)
    case (Cons e m)
    then show ?case by (cases e) (auto simp: step simp del: fun_upd_apply intro!: rbind_cong)
  qed simp
  ultimately have "scenario_bindings E p key y = scenario_bindings E' p key y"
    unfolding scenario_bindings_def by (simp only:)
  moreover have "scenario_blocks E key y = scenario_blocks E' key y"
  proof -
    have "validate_blocks E = validate_blocks E'"
      using assms by (simp add: fun_eq_iff validate_blocks_def same_env_def)
    then show ?thesis unfolding scenario_blocks_def by (simp only:)
  qed
  moreover have "scenario_rainlang E p key y rl = scenario_rainlang E' p key y rl"
  proof -
    have "se_rainlangs E = se_rainlangs E'" using assms by (simp add: same_env_def)
    then show ?thesis unfolding scenario_rainlang_def by (simp only:)
  qed
  ultimately show ?thesis by (simp add: scenario_entry_def)
qed

lemma scenario_tree_same:
  "same_env E E' \<Longrightarrow> validate_scenario E p key y rl scs = validate_scenario E' p key y rl scs"
  "same_env E E' \<Longrightarrow> validate_children E sc ys rl scs = validate_children E' sc ys rl scs"
proof (induction E p key y rl scs and E sc ys rl scs rule: validate_scenario_validate_children.induct)
  case (1 E p key y rl scs)
  show ?case
  proof (cases "scenario_entry E p key y rl scs")
    case (Ok sc)
    note same = Ok[unfolded scenario_entry_same[OF 1(2)]]
    show ?thesis
    proof (cases "optional_hash y ''scenarios''")
      case (Some ys)
      show ?thesis using 1(1)[OF Ok refl Some 1(2)] by (simp add: Ok same Some Let_def del: fun_upd_apply)
    qed (simp add: Ok same)
  next
    case (Err e)
    then show ?thesis using Err[unfolded scenario_entry_same[OF 1(2)]] by simp
  qed
next
  case (3 E sc k z ys rl scs)
  then show ?case by (auto intro!: rbind_cong)
qed simp

lemma scenarios_same:
  assumes "same_reading cx cx'"
  shows "parse_all_scenarios C rb (Some cx) docs = parse_all_scenarios C rb (Some cx') docs"
proof -
  let ?E = "\<lambda>rainlangs cx. \<lparr>se_codec = C, se_read_blocks = rb, se_rainlangs = rainlangs, se_context = Some cx\<rparr>"
  have env: "same_env (?E rainlangs cx) (?E rainlangs cx')" for rainlangs
    by (simp add: same_env_def interpolated_def interpolate_with_select_tokens_def interpolate_same[OF assms])
  have "parse_scenario_entries (?E rainlangs cx) es m = parse_scenario_entries (?E rainlangs cx') es m" for rainlangs es m
  proof (induction es arbitrary: m)
    case (Cons e es)
    obtain k y where e: "e = (k, y)" by force
    show ?case
      by (auto simp: e Let_def scenario_tree_same(1)[OF env] Cons.IH simp del: validate_scenario.simps fun_upd_apply intro!: rbind_cong)
  qed simp
  moreover have "remote_networks_of (Some cx) = remote_networks_of (Some cx')"
    using assms by (simp add: remote_networks_of_def same_reading_def)
  ultimately show ?thesis by (simp add: parse_all_scenarios_def parse_scenario_documents_entries)
qed

lemma orders_same:
  assumes "same_reading cx cx'"
  shows "parse_all_orders C (Some cx) docs = parse_all_orders C (Some cx') docs"
proof -
  have same: "remote_networks_of (Some cx) = remote_networks_of (Some cx')" "remote_tokens_of (Some cx) = remote_tokens_of (Some cx')"
    "order_tokens (Some cx) = order_tokens (Some cx')" "is_select_token cx = is_select_token cx'" "current_order cx = current_order cx'"
    using assms by (simp_all add: fun_eq_iff same_reading_def remote_networks_of_def remote_tokens_of_def order_tokens_def is_select_token_def)
  have "parse_order (E\<lparr>oe_context := Some cx\<rparr>) = parse_order (E\<lparr>oe_context := Some cx'\<rparr>)" for E
  proof -
    let ?E = "E\<lparr>oe_context := Some cx\<rparr>" and ?F = "E\<lparr>oe_context := Some cx'\<rparr>"
    have io: "parse_order_io ?E vt key i io = parse_order_io ?F vt key i io" for vt key i io
      by (simp add: fun_eq_iff parse_order_io_def io_token_of_def same(4) cong: option.case_cong)
    have "parse_order_ios ?E vt key i ios = parse_order_ios ?F vt key i ios" for vt key i ios
      by (induction ios arbitrary: i) (simp_all add: fun_eq_iff io)
    then show ?thesis by (simp add: fun_eq_iff parse_order_def)
  qed
  from this[of "\<lparr>oe_codec = C, oe_rainlangs = r, oe_raindexes = x, oe_tokens = t, oe_context = None\<rparr>" for r x t]
  show ?thesis by (simp add: parse_all_orders_def same)
qed

section \<open>Deployments\<close>

lemma parse_deployment_Ok:
  assumes "parse_deployment C rb context docs key y = Ok d"
  obtains order_key scenario_key orders scenarios where
    "require_string y (Some ''order'') (Some (''deployment '' @ quoted key)) = Ok order_key"
    "parse_all_orders C (Some (add_current_order order_key (from_context context))) docs = Ok orders"
    "orders order_key = Some (dp_order d)"
    "require_string y (Some ''scenario'') (Some (''deployment '' @ quoted key)) = Ok scenario_key"
    "parse_all_scenarios C rb (Some (add_order (dp_order d) (add_current_order order_key (from_context context)))) docs = Ok scenarios"
    "scenarios scenario_key = Some (dp_scenario d)" "dp_key d = key"
    "\<forall>r. od_rainlang (dp_order d) = Some r \<longrightarrow> same_rainlang r (sc_rainlang (dp_scenario d))"
proof -
  from assms obtain order_key order scenario_key scenario where
    "require_string y (Some ''order'') (Some (''deployment '' @ quoted key)) = Ok order_key"
    and order: "entry_named order_key (parse_all_orders C (Some (add_current_order order_key (from_context context))) docs) = Ok order"
    and "require_string y (Some ''scenario'') (Some (''deployment '' @ quoted key)) = Ok scenario_key"
    and scenario: "entry_named scenario_key (parse_all_scenarios C rb (Some (add_order order
      (add_current_order order_key (from_context context)))) docs) = Ok scenario"
    and "d = \<lparr>dp_key = key, dp_scenario = scenario, dp_order = order\<rparr>"
    and "\<forall>r. od_rainlang order = Some r \<longrightarrow> same_rainlang r (sc_rainlang scenario)"
    by (auto simp: parse_deployment_def Let_def ok_iff split: if_splits option.splits)
  moreover from order obtain orders where "parse_all_orders C (Some (add_current_order order_key (from_context context))) docs = Ok orders"
    "orders order_key = Some order" by (auto simp: entry_named_def ok_iff)
  moreover from scenario obtain scenarios where
    "parse_all_scenarios C rb (Some (add_order order (add_current_order order_key (from_context context)))) docs = Ok scenarios"
    "scenarios scenario_key = Some scenario" by (auto simp: entry_named_def ok_iff)
  ultimately show thesis using that[where order_key = order_key and scenario_key = scenario_key and orders = orders and scenarios = scenarios] by simp
qed

lemma deployment_same:
  assumes "\<And>k. same_reading (add_current_order k (from_context c)) (add_current_order k (from_context c'))"
    "\<And>k order. same_reading (add_order order (add_current_order k (from_context c))) (add_order order (add_current_order k (from_context c')))"
  shows "parse_deployment C rb c docs = parse_deployment C rb c' docs"
  by (simp add: fun_eq_iff parse_deployment_def Let_def orders_same[OF assms(1)] scenarios_same[OF assms(2)])

lemma deployment_scope:
  "parse_deployment C rb (Some (add_current_deployment k cx)) docs = parse_deployment C rb (Some cx) docs"
  by (rule deployment_same)
    (simp_all add: same_reading_def from_context_def add_current_order_def add_current_deployment_def add_order_def
      current_order_def split: option.split)

text \<open>
  Claim C33. A context that names a deployment changes nothing for it: when the settings can be read as a
  whole, reading them for one deployment gives that deployment, with the same order and the same scenario,
  and nothing else.
\<close>
theorem scoped_deployment_is_the_same:
  assumes "parse_all_deployments C rb (Some cx) docs = Ok m" "current_deployment cx = None" "m k = Some d"
  shows "parse_all_deployments C rb (Some (add_current_deployment k cx)) docs = Ok [k \<mapsto> d]"
proof -
  from assms(1,2) have found: "collect_entries ''deployments'' (parse_deployment C rb (Some cx) docs)
      (all_entries ''deployments'' docs) Map.empty = Ok m"
    by (auto simp: parse_all_deployments_def Let_def ok_iff selected_documents_entries selected_entries_def required_def split: if_splits)
  have "current_deployment (add_current_deployment k cx) = Some k"
    by (simp add: current_deployment_def add_current_deployment_def split: option.split)
  with collect_single[OF found _ assms(3)] show ?thesis
    by (simp add: parse_all_deployments_def Let_def selected_documents_entries deployment_scope required_def)
qed

lemma scenarios_keyed:
  assumes "\<And>K s. scs K = Some s \<Longrightarrow> sc_key s = K"
  shows "validate_scenario E p key y rl scs = Ok (rl', scs') \<Longrightarrow> scs' K = Some s \<Longrightarrow> sc_key s = K"
    and "validate_children E sc ys rl scs = Ok (rl', scs') \<Longrightarrow> scs' K = Some s \<Longrightarrow> sc_key s = K"
  using assms
proof (induction E p key y rl scs and E sc ys rl scs arbitrary: rl' scs' K s and rl' scs' K s
    rule: validate_scenario_validate_children.induct)
  case (1 E p key y rl scs)
  from 1(2) obtain sc where entry: "scenario_entry E p key y rl scs = Ok sc"
    and rest: "(case optional_hash y ''scenarios'' of
        Some ys \<Rightarrow> validate_children E sc ys (Some (sc_rainlang sc)) (scs(sc_key sc \<mapsto> sc))
      | None \<Rightarrow> Ok (Some (sc_rainlang sc), scs(sc_key sc \<mapsto> sc))) = Ok (rl', scs')"
    by (auto simp: ok_iff Let_def simp del: fun_upd_apply)
  have keyed: "sc_key s = K" if "(scs(sc_key sc \<mapsto> sc)) K = Some s" for K s
    using that 1(4) by (auto split: if_splits)
  show ?case
  proof (cases "optional_hash y ''scenarios''")
    case None
    with rest have "scs' = scs(sc_key sc \<mapsto> sc)" by simp
    with 1(3) keyed[of K s] show ?thesis by (simp only:)
  next
    case (Some ys)
    with rest have "validate_children E sc ys (Some (sc_rainlang sc)) (scs(sc_key sc \<mapsto> sc)) = Ok (rl', scs')" by simp
    from 1(1)[OF entry refl Some this 1(3) keyed] show ?thesis .
  qed
next
  case (2 E sc rl scs)
  from 2(1,2) 2(3)[of K s] show ?case by simp
next
  case (3 E sc k z ys rl scs)
  from 3(3) obtain rl1 scs1 where one: "validate_scenario E \<lparr>sp_key = sc_key sc, sp_bindings = Some (sc_bindings sc), sp_rainlang = rl\<rparr>
      (yaml_name k) z rl scs = Ok (rl1, scs1)" and rest: "validate_children E sc ys rl1 scs1 = Ok (rl', scs')"
    by (auto simp: ok_iff)
  have "sc_key s = K" if "scs1 K = Some s" for K s by (rule 3(1)[OF one that 3(5)])
  from 3(2)[OF one refl rest 3(4) this] show ?case .
qed

lemma parsed_scenarios_keyed:
  assumes "parse_all_scenarios C rb context docs = Ok m" "m K = Some s"
  shows "sc_key s = K"
proof -
  have loop: "parse_scenario_entries E es m0 = Ok m \<Longrightarrow> (\<And>K s. m0 K = Some s \<Longrightarrow> sc_key s = K) \<Longrightarrow> sc_key s = K" for E es m0
  proof (induction es arbitrary: m0)
    case Nil
    with assms(2) show ?case by simp
  next
    case (Cons e es)
    obtain k z where e: "e = (k, z)" by force
    from Cons.prems(1) obtain rl m1 where one: "validate_scenario E \<lparr>sp_key = [], sp_bindings = None, sp_rainlang = None\<rparr>
        (yaml_name k) z None m0 = Ok (rl, m1)" and rest: "parse_scenario_entries E es m1 = Ok m"
      by (auto simp: e ok_iff Let_def split: if_splits)
    show ?case
      by (rule Cons.IH[OF rest]) (rule scenarios_keyed(1)[OF Cons.prems(2) one])
  qed
  from assms(1) obtain E where "parse_scenario_entries E (all_entries ''scenarios'' docs) Map.empty = Ok m"
    by (auto simp: parse_all_scenarios_def ok_iff required_def parse_scenario_documents_entries split: if_splits)
  from loop[OF this] show ?thesis by simp
qed

text \<open>
  Claim C34. The parts of a deployment belong together: it pairs the order and the scenario that its entry
  names, and when the order names a rainlang, the scenario runs on a rainlang with the same address, on
  the network of the order.
\<close>
theorem deployment_is_consistent:
  assumes "parse_all_deployments C rb context docs = Ok m" "m k = Some d"
  shows "dp_key d = k \<and>
    (\<exists>key_yaml y. (key_yaml, y) \<in> set (all_entries ''deployments'' docs) \<and> yaml_name key_yaml = k \<and>
       optional_string y ''order'' = Some (od_key (dp_order d)) \<and>
       optional_string y ''scenario'' = Some (sc_key (dp_scenario d))) \<and>
    (\<forall>r. od_rainlang (dp_order d) = Some r \<longrightarrow> rl_address (sc_rainlang (dp_scenario d)) = rl_address r \<and>
       rl_network (sc_rainlang (dp_scenario d)) = od_network (dp_order d))"
proof -
  define es where "es = selected_entries (Option.bind context current_deployment) (all_entries ''deployments'' docs)"
  from assms(1) have found: "collect_entries ''deployments'' (parse_deployment C rb context docs) es Map.empty = Ok m"
    by (auto simp: parse_all_deployments_def Let_def ok_iff selected_documents_entries es_def required_def
        split: option.splits if_splits)
  obtain key_yaml y where e: "(key_yaml, y) \<in> set es" "yaml_name key_yaml = k" and d: "parse_deployment C rb context docs k y = Ok d"
    using collect_entries_from[OF found _ assms(2)] by (auto simp: yaml_name_def)
  have "(key_yaml, y) \<in> set (all_entries ''deployments'' docs)"
    using e(1) by (auto simp: es_def selected_entries_def simp del: set_concat split: option.splits)
  from d show ?thesis
  proof (rule parse_deployment_Ok)
    fix order_key scenario_key orders scenarios
    assume names: "require_string y (Some ''order'') (Some (''deployment '' @ quoted k)) = Ok order_key"
        "require_string y (Some ''scenario'') (Some (''deployment '' @ quoted k)) = Ok scenario_key"
      and orders: "parse_all_orders C (Some (add_current_order order_key (from_context context))) docs = Ok orders"
        "orders order_key = Some (dp_order d)"
      and scenarios: "parse_all_scenarios C rb (Some (add_order (dp_order d) (add_current_order order_key (from_context context)))) docs = Ok scenarios"
        "scenarios scenario_key = Some (dp_scenario d)"
      and rest: "dp_key d = k" "\<forall>r. od_rainlang (dp_order d) = Some r \<longrightarrow> same_rainlang r (sc_rainlang (dp_scenario d))"
    have plain: "optional_string y f = Some t" if "require_string y (Some f) l = Ok t" for f l t
      using that by (auto simp: require_token optional_string_def)
    note network = parsed_order_network[OF orders]
    with rest(2) have "\<forall>r. od_rainlang (dp_order d) = Some r \<longrightarrow> rl_address (sc_rainlang (dp_scenario d)) = rl_address r \<and>
       rl_network (sc_rainlang (dp_scenario d)) = od_network (dp_order d)" by (simp add: same_rainlang_def)
    with rest(1) \<open>(key_yaml, y) \<in> set (all_entries ''deployments'' docs)\<close> e(2) plain[OF names(1)] plain[OF names(2)]
      network parsed_scenarios_keyed[OF scenarios] show ?thesis by (simp del: set_concat) blast
  qed
qed

section \<open>A concrete deployment\<close>

definition rainlang_order_entry :: strict_yaml where
  "rainlang_order_entry = Yaml_Hash
     [(Yaml_String ''rainlang'', Yaml_String ''base''),
      (Yaml_String ''inputs'', Yaml_Array [Yaml_Hash [(Yaml_String ''token'', Yaml_String ''usdc'')]]),
      (Yaml_String ''outputs'', Yaml_Array [])]"

definition deployment_document :: strict_yaml where
  "deployment_document = Yaml_Hash
     [(Yaml_String ''networks'', Yaml_Hash [(Yaml_String ''base'', usdc_entry)]),
      (Yaml_String ''rainlangs'', Yaml_Hash [(Yaml_String ''base'', Yaml_Hash [(Yaml_String ''address'', Yaml_String ''7'')])]),
      (Yaml_String ''tokens'', Yaml_Hash [(Yaml_String ''usdc'', Yaml_Hash
         [(Yaml_String ''network'', Yaml_String ''base''), (Yaml_String ''address'', Yaml_String ''7'')])]),
      (Yaml_String ''orders'', Yaml_Hash [(Yaml_String ''o'', rainlang_order_entry)]),
      (Yaml_String ''scenarios'', Yaml_Hash [(Yaml_String ''s'', Yaml_Hash [(Yaml_String ''rainlang'', Yaml_String ''base'')])]),
      (Yaml_String ''deployments'', Yaml_Hash [(Yaml_String ''d'', Yaml_Hash
         [(Yaml_String ''order'', Yaml_String ''o''), (Yaml_String ''scenario'', Yaml_String ''s'')])])]"

definition base_rainlang :: rainlang_cfg where
  "base_rainlang = \<lparr>rl_key = ''base'', rl_address = 7, rl_network = usdc_network\<rparr>"

definition rainlang_order :: order_cfg where
  "rainlang_order = \<lparr>od_key = ''o'',
     od_inputs = [\<lparr>io_token_key = ''usdc'', io_token = Some usdc_token, io_vault_id = None\<rparr>], od_outputs = [],
     od_network = usdc_network, od_rainlang = Some base_rainlang, od_raindex = None, od_oracle_url = None\<rparr>"

definition plain_scenario :: scenario_cfg where
  "plain_scenario = \<lparr>sc_key = ''s'', sc_bindings = Map.empty, sc_runs = None, sc_blocks = None, sc_rainlang = base_rainlang\<rparr>"

lemma deployment_document_sections:
  "parse_all_rainlangs plain_codec [] [deployment_document] = Ok [''base'' \<mapsto> base_rainlang]"
  "parse_all_tokens plain_codec [] [] [deployment_document] = Ok [''usdc'' \<mapsto> usdc_token]"
proof -
  have "require_hash deployment_document (Some ''networks'') (Some ''root'') = Ok [(Yaml_String ''base'', usdc_entry)]"
    by (simp add: deployment_document_def require_hash_def hash_get_def)
  then have networks: "parse_all_networks plain_codec [] [deployment_document] = Ok [''base'' \<mapsto> usdc_network]"
    by (simp add: parse_all_networks_def usdc_entry_parses)
  have seven: "tc_parse_address plain_codec ''7'' = Ok 7" using plain_address by (simp add: plain_codec_def)
  then show "parse_all_rainlangs plain_codec [] [deployment_document] = Ok [''base'' \<mapsto> base_rainlang]"
    unfolding parse_all_rainlangs_def networks
    by (simp add: deployment_document_def parse_rainlang_def address_field_def require_hash_def base_rainlang_def
        require_string_def hash_get_def reference_def optional_string_def unwrap_string_def required_def Let_def)
  from seven show "parse_all_tokens plain_codec [] [] [deployment_document] = Ok [''usdc'' \<mapsto> usdc_token]"
    unfolding parse_all_tokens_def networks
    by (simp add: local_tokens_def deployment_document_def parse_token_def address_field_def require_hash_def
        require_string_def hash_get_def reference_def optional_string_def opt_result_def required_def Let_def usdc_token_def)
qed

lemma deployments_parse:
  "parse_all_deployments plain_order_codec (\<lambda>_. None) (Some context_new) [deployment_document] =
     Ok [''d'' \<mapsto> \<lparr>dp_key = ''d'', dp_scenario = plain_scenario, dp_order = rainlang_order\<rparr>]"
proof -
  let ?C = plain_order_codec and ?cx = "add_current_order ''o'' context_new"
  have codec: "oc_text ?C = plain_codec" by (simp add: plain_order_codec_def)
  have contexts: "remote_networks_of (Some ?cx) = []" "remote_tokens_of (Some ?cx) = []" "cx_select_tokens ?cx = None"
    "current_order ?cx = Some ''o''" "remote_networks_of (Some (add_order rainlang_order ?cx)) = []"
    by (simp_all add: remote_networks_of_def remote_tokens_of_def add_current_order_def context_new_def current_order_def add_order_def)
  have "require_hash deployment_document (Some ''orders'') None = Ok [(Yaml_String ''o'', rainlang_order_entry)]"
    by (simp add: deployment_document_def require_hash_def hash_get_def)
  moreover have "parse_order \<lparr>oe_codec = ?C, oe_rainlangs = Ok [''base'' \<mapsto> base_rainlang], oe_raindexes = x,
      oe_tokens = Ok [''usdc'' \<mapsto> usdc_token], oe_context = c\<rparr> ''o'' rainlang_order_entry = Ok rainlang_order" for x c
    by (simp add: parse_order_def rainlang_order_entry_def order_part_def optional_string_def require_vec_def
        parse_order_io_def require_string_def hash_get_def io_token_of_def join_network_def vault_id_of_def opt_result_def
        rainlang_order_def usdc_token_def base_rainlang_def Let_def)
  ultimately have orders: "parse_all_orders ?C (Some ?cx) [deployment_document] = Ok [''o'' \<mapsto> rainlang_order]"
    by (simp add: parse_all_orders_def contexts codec order_tokens_def deployment_document_sections selected_entries_def required_def)
  have "require_hash deployment_document (Some ''scenarios'') None =
      Ok [(Yaml_String ''s'', Yaml_Hash [(Yaml_String ''rainlang'', Yaml_String ''base'')])]"
    by (simp add: deployment_document_def require_hash_def hash_get_def)
  then have scenarios: "parse_all_scenarios ?C (\<lambda>_. None) (Some (add_order rainlang_order ?cx)) [deployment_document] = Ok [''s'' \<mapsto> plain_scenario]"
    by (simp add: parse_all_scenarios_def contexts codec deployment_document_sections scenario_entry_def scenario_bindings_def
        scenario_blocks_def scenario_rainlang_def child_name_def optional_hash_def optional_string_def hash_get_def
        yaml_name_def required_def Let_def plain_scenario_def base_rainlang_def)
  have "require_hash deployment_document (Some ''deployments'') None = Ok [(Yaml_String ''d'', Yaml_Hash
         [(Yaml_String ''order'', Yaml_String ''o''), (Yaml_String ''scenario'', Yaml_String ''s'')])]"
    by (simp add: deployment_document_def require_hash_def hash_get_def)
  moreover have "od_rainlang rainlang_order = Some base_rainlang" "same_rainlang base_rainlang (sc_rainlang plain_scenario)"
    by (simp_all add: rainlang_order_def plain_scenario_def same_rainlang_def)
  moreover have "current_deployment context_new = None" by (simp add: current_deployment_def context_new_def)
  ultimately show ?thesis
    by (simp add: parse_all_deployments_def selected_entries_def parse_deployment_def from_context_def require_string_def
        hash_get_def entry_named_def orders scenarios required_def Let_def)
qed

theorem scoped_deployment_is_the_same_witness:
  "parse_all_deployments plain_order_codec (\<lambda>_. None) (Some (add_current_deployment ''d'' context_new)) [deployment_document] =
     Ok [''d'' \<mapsto> \<lparr>dp_key = ''d'', dp_scenario = plain_scenario, dp_order = rainlang_order\<rparr>]"
  using scoped_deployment_is_the_same[OF deployments_parse, of "''d''"]
  by (simp add: current_deployment_def context_new_def)

theorem deployment_is_consistent_witness:
  "rl_network (sc_rainlang plain_scenario) = od_network rainlang_order"
proof -
  have "od_rainlang rainlang_order = Some base_rainlang" by (simp add: rainlang_order_def)
  with deployment_is_consistent[OF deployments_parse, of "''d''"] show ?thesis by simp
qed

end
