(* ===== verification/Quote_Rpc.thy ===== *)
theory Quote_Rpc
  imports Take_Candidates Preflight
begin

text \<open>
  \<open>quote/src/rpc.rs\<close> and the parts of \<open>quote.rs\<close> and \<open>error.rs\<close> it uses: quoting a batch of targets.
  The targets are grouped by raindex and cut into chunks; a chunk is one call of the raindex's own
  \<open>multicall\<close>. That call reverts as a whole when one of its quotes reverts, so a reverting chunk is
  bisected until the reverting targets are isolated; a chunk that one RPC cannot answer is given to the
  next.

  The fields of \<open>quote_node\<close> are the code outside the repository: the ABI coders, the RPC call under the
  timeout of \<open>tokio\<close> (\<open>None\<close> when it ran out), and the decoder of revert data, which looks selectors
  up over the network. The registry argument is \<open>None\<close> in every call and part of that decoder. The
  functions modelled are those of native builds. Groups are quoted one after another; in the code they
  run concurrently.

  \<open>Quote_Panicked\<close> stands for a panic: a slice or an index out of range, or \<open>unwrap\<close> of \<open>None\<close>.
\<close>

section \<open>Data\<close>

record quote_v3 =
  qc_order :: order_v4
  qc_input_io_index :: u256
  qc_output_io_index :: u256
  qc_signed_context :: "signed_context_v2 list"

record quote_target =
  qt_quote_config :: quote_v3
  qt_raindex :: address

record 'f order_quote_value =
  oqv_max_output :: 'f
  oqv_ratio :: 'f

record quote3_return =
  qr_exists :: bool
  qr_output_max :: b256
  qr_io_ratio :: b256

datatype failed_quote =
    Non_Existent
  | Revert_Error string
  | Corrupt_Return_Data string
  | Revert_Error_Decode_Failed string

type_synonym 'f quote_result = "('f order_quote_value, failed_quote) result"

datatype quote_error =
    Quote_Url_Error ext_error
  | Quote_From_Hex_Error ext_error
  | Quote_Order_Detail_Error ext_error
  | Quote_Subgraph_Error ext_error
  | Alloy_Sol_Types_Error string
  | Invalid_Quote_Target u256
  | Pair_Selection_Length_Mismatch nat nat
  | Chunk_Reverted failed_quote
  | Transport_Error string
  | Quote_Panicked

datatype rpc_error = Error_Resp string "bytes option" | Rpc_Failure string

type_synonym read_provider = "string list"

record ('f, 'w) quote_node =
  qn_encode_quote3 :: "quote_v3 \<Rightarrow> bytes"
  qn_encode_multicall :: "bytes list \<Rightarrow> bytes"
  qn_decode_multicall :: "bytes \<Rightarrow> (bytes list, ext_error) result"
  qn_decode_quote3 :: "bytes \<Rightarrow> (quote3_return, ext_error) result"
  qn_from_raw :: "b256 \<Rightarrow> 'f"
  qn_parse_url :: "string \<Rightarrow> (string, ext_error) result"
  qn_call :: "read_provider \<Rightarrow> u64 \<Rightarrow> tx_request \<Rightarrow> block_id \<Rightarrow> 'w \<Rightarrow> (bytes, rpc_error) result option \<times> 'w"
  qn_decode_revert :: "bytes \<Rightarrow> 'w \<Rightarrow> (string, string) result \<times> 'w"
  qn_block_number :: "read_provider \<Rightarrow> u64 \<Rightarrow> 'w \<Rightarrow> (u64, ext_error) result option \<times> 'w"

definition show_failed_quote :: "failed_quote \<Rightarrow> string" where
  "show_failed_quote failed = (case failed of
     Non_Existent \<Rightarrow> ''Order does not exist''
   | Revert_Error e \<Rightarrow> e
   | Corrupt_Return_Data e \<Rightarrow> ''Corrupt return data: '' @ e
   | Revert_Error_Decode_Failed e \<Rightarrow> e)"

definition show_quote_error :: "quote_error \<Rightarrow> string" where
  "show_quote_error error = (case error of
     Quote_Url_Error e \<Rightarrow> e
   | Quote_From_Hex_Error e \<Rightarrow> e
   | Quote_Order_Detail_Error e \<Rightarrow> e
   | Quote_Subgraph_Error e \<Rightarrow> e
   | Alloy_Sol_Types_Error e \<Rightarrow> e
   | Invalid_Quote_Target i \<Rightarrow>
       ''Invalid quote target: index '' @ show_word i @ '' is out of bounds for this Order''
   | Pair_Selection_Length_Mismatch expected actual \<Rightarrow>
       ''Quote pair selections must align with orders: expected '' @ show_nat expected @ '', got '' @
       show_nat actual
   | Chunk_Reverted failed \<Rightarrow> ''Quote chunk reverted: '' @ show_failed_quote failed
   | Transport_Error e \<Rightarrow> ''RPC transport error: '' @ e
   | Quote_Panicked \<Rightarrow> '''')"

section \<open>Slices and slots\<close>

definition vec_slice :: "'a list \<Rightarrow> nat \<Rightarrow> nat \<Rightarrow> ('a list, quote_error) result" where
  \<comment> \<open>\<open>&xs[a..b]\<close>\<close>
  "vec_slice xs a b = (if a \<le> b \<and> b \<le> length xs then Ok (take (b - a) (drop a xs)) else Err Quote_Panicked)"

fun scatter :: "(nat \<times> 'a) list \<Rightarrow> 'a option list \<Rightarrow> ('a option list, quote_error) result" where
  \<comment> \<open>\<open>slots[i] = Some(x)\<close> for the pairs \<open>(i, x)\<close> in turn\<close>
  "scatter [] slots = Ok slots"
| "scatter ((i, x) # xs) slots =
     (if i < length slots then scatter xs (slots[i := Some x]) else Err Quote_Panicked)"

definition unwrap_slots :: "'a option list \<Rightarrow> ('a list, quote_error) result" where
  "unwrap_slots slots = rmap (\<lambda>slot. ok_or slot Quote_Panicked) slots"

definition step_by :: "nat \<Rightarrow> nat \<Rightarrow> nat list" where
  \<comment> \<open>\<open>(0..n).step_by(k)\<close>\<close>
  "step_by n k = map (\<lambda>i. i * k) [0..<(n + k - 1) div k]"

section \<open>Providers\<close>

definition mk_read_provider :: "string list \<Rightarrow> (read_provider, ext_error) result" where
  "mk_read_provider rpcs = (if rpcs = [] then Err ''No RPC URLs provided'' else Ok rpcs)"

definition rpc_attempt_timeout_ms :: u64 where
  "rpc_attempt_timeout_ms = 3000"

definition default_quote_chunk_size :: nat where
  "default_quote_chunk_size = 16"

definition normalize_chunk_size :: "nat option \<Rightarrow> nat" where
  "normalize_chunk_size chunk_size =
     max (case chunk_size of Some n \<Rightarrow> n | None \<Rightarrow> default_quote_chunk_size) 1"

section \<open>One call\<close>

definition read_quote :: "('f, 'w) quote_node \<Rightarrow> bytes \<Rightarrow> 'f quote_result" where
  "read_quote N element = (case qn_decode_quote3 N element of
     Ok ret \<Rightarrow>
       if qr_exists ret
       then Ok \<lparr>oqv_max_output = qn_from_raw N (qr_output_max ret), oqv_ratio = qn_from_raw N (qr_io_ratio ret)\<rparr>
       else Err Non_Existent
   | Err e \<Rightarrow> Err (Corrupt_Return_Data (''Failed to decode quote3 return: '' @ e)))"

definition read_multicall ::
  "('f, 'w) quote_node \<Rightarrow> quote_target list \<Rightarrow> bytes \<Rightarrow> ('f quote_result list, quote_error) result" where
  "read_multicall N quote_targets response =
     rbind (map_err (\<lambda>e. Alloy_Sol_Types_Error (''failed to decode multicall results: '' @ e))
              (qn_decode_multicall N response)) (\<lambda>decoded.
     if length decoded \<noteq> length quote_targets then
       Err (Alloy_Sol_Types_Error (''multicall length mismatch: expected '' @
         show_nat (length quote_targets) @ '', got '' @ show_nat (length decoded)))
     else Ok (map (read_quote N) decoded))"

definition multicall_tx :: "('f, 'w) quote_node \<Rightarrow> quote_target list \<Rightarrow> address \<Rightarrow> address \<Rightarrow> tx_request" where
  "multicall_tx N quote_targets raindex counterparty =
     \<lparr>tx_to = raindex, tx_from = counterparty,
      tx_input = qn_encode_multicall N (map (\<lambda>t. qn_encode_quote3 N (qt_quote_config t)) quote_targets)\<rparr>"

definition quote_block :: "u64 option \<Rightarrow> block_id" where
  "quote_block block_number = (case block_number of Some n \<Rightarrow> Block_Number n | None \<Rightarrow> Block_Latest)"

definition quote_chunk_once ::
  "('f, 'w) quote_node \<Rightarrow> read_provider \<Rightarrow> u64 option \<Rightarrow> address \<Rightarrow> quote_target list
   \<Rightarrow> ('f quote_result list, quote_error, 'w) io" where
  "quote_chunk_once N provider block_number counterparty quote_targets w =
     (case quote_targets of
        [] \<Rightarrow> (Err Quote_Panicked, w)
      | first # _ \<Rightarrow>
        (case qn_call N provider rpc_attempt_timeout_ms
                (multicall_tx N quote_targets (qt_raindex first) counterparty)
                (quote_block block_number) w of
           (None, w1) \<Rightarrow>
             (Err (Transport_Error (''quote request timed out after '' @ show_word rpc_attempt_timeout_ms @
                ''ms'')), w1)
         | (Some (Ok response), w1) \<Rightarrow> (read_multicall N quote_targets response, w1)
         | (Some (Err (Error_Resp err_resp revert)), w1) \<Rightarrow>
             (case revert of
                Some data \<Rightarrow>
                  (case qn_decode_revert N data w1 of
                     (Ok abi_err, w2) \<Rightarrow> (Err (Chunk_Reverted (Revert_Error abi_err)), w2)
                   | (Err e, w2) \<Rightarrow> (Err (Chunk_Reverted (Revert_Error_Decode_Failed e)), w2))
              | None \<Rightarrow> (Err (Transport_Error (''RPC error without revert data: '' @ err_resp)), w1))
         | (Some (Err (Rpc_Failure e)), w1) \<Rightarrow> (Err (Transport_Error e), w1)))"

section \<open>Bisection\<close>

definition single_quote_failure :: "quote_error \<Rightarrow> 'f quote_result" where
  "single_quote_failure err =
     Err (Corrupt_Return_Data (''Single quote failed after chunk split: '' @ show_quote_error err))"

definition chunk_err_to_quote_result :: "quote_error \<Rightarrow> 'f quote_result" where
  "chunk_err_to_quote_result err = (case err of
     Chunk_Reverted failed \<Rightarrow>
       (case failed of
          Revert_Error_Decode_Failed _ \<Rightarrow>
            Err (Corrupt_Return_Data ''Revert could not be decoded by the selector registry'')
        | _ \<Rightarrow> Err failed)
   | other \<Rightarrow> single_quote_failure other)"

definition is_revert :: "quote_error \<Rightarrow> bool" where
  "is_revert err \<longleftrightarrow> (case err of Chunk_Reverted _ \<Rightarrow> True | _ \<Rightarrow> False)"

definition is_transport :: "quote_error \<Rightarrow> bool" where
  "is_transport err \<longleftrightarrow> (case err of Transport_Error _ \<Rightarrow> True | _ \<Rightarrow> False)"

lemma quote_chunk_once_Nil [simp]: "quote_chunk_once N p b c [] w = (Err Quote_Panicked, w)"
  by (simp add: quote_chunk_once_def)

lemma vec_slice_Ok: "vec_slice xs a b = Ok ys \<longleftrightarrow> a \<le> b \<and> b \<le> length xs \<and> ys = take (b - a) (drop a xs)"
  by (auto simp: vec_slice_def)

function bisect ::
  "('f, 'w) quote_node \<Rightarrow> read_provider \<Rightarrow> u64 option \<Rightarrow> address \<Rightarrow> quote_target list
   \<Rightarrow> (nat \<times> nat) list \<Rightarrow> 'f quote_result option list \<Rightarrow> ('f quote_result option list, quote_error, 'w) io" where
  \<comment> \<open>the loop over the stack \<open>pending\<close>, whose top is the head of the list\<close>
  "bisect N provider block_number counterparty quote_targets [] resolved w = (Ok resolved, w)"
| "bisect N provider block_number counterparty quote_targets ((start, stop) # pending) resolved w =
     (case vec_slice quote_targets start stop of
        Err e \<Rightarrow> (Err e, w)
      | Ok chunk \<Rightarrow>
        (case quote_chunk_once N provider block_number counterparty chunk w of
           (Ok results, w1) \<Rightarrow>
             (case scatter (enumerate start results) resolved of
                Err e \<Rightarrow> (Err e, w1)
              | Ok resolved1 \<Rightarrow>
                  bisect N provider block_number counterparty quote_targets pending resolved1 w1)
         | (Err err, w1) \<Rightarrow>
             if \<not> is_revert err then (Err err, w1)
             else if length chunk = 1 then
               (case scatter [(start, chunk_err_to_quote_result err)] resolved of
                  Err e \<Rightarrow> (Err e, w1)
                | Ok resolved1 \<Rightarrow>
                    bisect N provider block_number counterparty quote_targets pending resolved1 w1)
             else
               bisect N provider block_number counterparty quote_targets
                 ((start, start + length chunk div 2) # (start + length chunk div 2, stop) # pending) resolved w1))"
  by pat_completeness auto

definition spans :: "(nat \<times> nat) list \<Rightarrow> nat" where
  "spans pending = sum_list (map (\<lambda>(a, b). 2 * (b - a) - 1) pending)"

lemma spans_Cons [simp]: "spans ((a, b) # pending) = 2 * (b - a) - 1 + spans pending" "spans [] = 0"
  by (simp_all add: spans_def)

lemma slice_nonempty:
  assumes "vec_slice xs a b = Ok ys" "(r, w1) = quote_chunk_once N p bl c ys w" "r \<noteq> Err Quote_Panicked"
  shows "a < b \<and> length ys = b - a"
proof -
  have l: "length ys = b - a" using assms(1) by (auto simp: vec_slice_Ok)
  moreover have "ys \<noteq> []" using assms(2,3) by auto
  ultimately show ?thesis by (metis length_greater_0_conv zero_less_diff)
qed

lemma is_revert_panic [simp]: "\<not> is_revert Quote_Panicked"
  by (simp add: is_revert_def)

termination bisect
proof (relation "measure (\<lambda>(N, p, b, c, ts, pending, resolved, w). spans pending)", goal_cases)
  case (2 N p b c ts start stop pending resolved w chunk x y results resolved1)
  then show ?case using slice_nonempty[OF 2(1,2)] by (simp, linarith)
next
  case (3 N p b c ts start stop pending resolved w chunk x y err resolved1)
  then have "err \<noteq> Quote_Panicked" by (metis is_revert_panic)
  then have "start < stop" using slice_nonempty[OF 3(1,2)] 3(3) by simp
  then show ?case by simp
next
  case (4 N p b c ts start stop pending resolved w chunk x y err)
  then have "err \<noteq> Quote_Panicked" by (metis is_revert_panic)
  then have d: "start < stop" "length chunk = stop - start" using slice_nonempty[OF 4(1,2)] 4(3) by simp_all
  define h where "h = length chunk div 2"
  have h: "1 \<le> h" "h < stop - start" using d 4(5) by (auto simp: h_def)
  have "2 * h - 1 + (2 * (stop - (start + h)) - 1) < 2 * (stop - start) - 1" using h by linarith
  then show ?case by (simp add: h_def[symmetric])
qed simp

definition quote_chunk_with_probe_and_split ::
  "('f, 'w) quote_node \<Rightarrow> read_provider \<Rightarrow> u64 option \<Rightarrow> address \<Rightarrow> quote_target list
   \<Rightarrow> ('f quote_result list, quote_error, 'w) io" where
  "quote_chunk_with_probe_and_split N provider block_number counterparty quote_targets w =
     (case quote_chunk_once N provider block_number counterparty quote_targets w of
        (Ok results, w1) \<Rightarrow> (Ok results, w1)
      | (Err initial_err, w1) \<Rightarrow>
          if is_transport initial_err then (Err initial_err, w1)
          else if length quote_targets \<le> 1 then
            (if is_revert initial_err then (Ok [chunk_err_to_quote_result initial_err], w1)
             else (Err initial_err, w1))
          else if \<not> is_revert initial_err then (Err initial_err, w1)
          else
            (case bisect N provider block_number counterparty quote_targets [(0, length quote_targets)]
                    (replicate (length quote_targets) None) w1 of
               (Err e, w2) \<Rightarrow> (Err e, w2)
             | (Ok resolved, w2) \<Rightarrow>
                 (Ok (map (\<lambda>v. case v of Some r \<Rightarrow> r | None \<Rightarrow> single_quote_failure initial_err) resolved),
                  w2)))"

section \<open>Batches\<close>

fun try_providers ::
  "('f, 'w) quote_node \<Rightarrow> u64 option \<Rightarrow> address \<Rightarrow> quote_target list \<Rightarrow> (string \<times> read_provider) list
   \<Rightarrow> string list \<Rightarrow> ('f quote_result list, quote_error, 'w) io" where
  \<comment> \<open>an error of a provider is noted and the next one tried; a panic is no error to go on from\<close>
  "try_providers N block_number counterparty chunk [] failures w =
     (Ok (replicate (length chunk)
        (Err (Corrupt_Return_Data (''all quote RPCs failed: '' @ join ''; '' failures)))), w)"
| "try_providers N block_number counterparty chunk ((rpc, provider) # providers) failures w =
     (case quote_chunk_with_probe_and_split N provider block_number counterparty chunk w of
        (Ok results, w1) \<Rightarrow> (Ok results, w1)
      | (Err error, w1) \<Rightarrow>
          if error = Quote_Panicked then (Err Quote_Panicked, w1)
          else try_providers N block_number counterparty chunk providers
            (failures @ [rpc @ '': '' @ show_quote_error error]) w1)"

fun quote_group ::
  "('f, 'w) quote_node \<Rightarrow> u64 option \<Rightarrow> address \<Rightarrow> (string \<times> read_provider) list \<Rightarrow> string list
   \<Rightarrow> nat \<Rightarrow> nat list \<Rightarrow> quote_target list \<Rightarrow> nat list \<Rightarrow> ((nat \<times> 'f quote_result) list, quote_error, 'w) io" where
  \<comment> \<open>the chunks that begin at the positions of the last argument\<close>
  "quote_group N block_number counterparty providers setup_failures chunk_size indexes targets [] w = (Ok [], w)"
| "quote_group N block_number counterparty providers setup_failures chunk_size indexes targets
     (chunk_start # starts) w =
     (case vec_slice targets chunk_start (min (chunk_start + chunk_size) (length targets)) of
        Err e \<Rightarrow> (Err e, w)
      | Ok chunk \<Rightarrow>
        (case try_providers N block_number counterparty chunk providers setup_failures w of
           (Err e, w1) \<Rightarrow> (Err e, w1)
         | (Ok chunk_results, w1) \<Rightarrow>
             (case vec_slice indexes chunk_start (chunk_start + length chunk_results) of
                Err e \<Rightarrow> (Err e, w1)
              | Ok chunk_indexes \<Rightarrow>
                (case quote_group N block_number counterparty providers setup_failures chunk_size indexes
                        targets starts w1 of
                   (Err e, w2) \<Rightarrow> (Err e, w2)
                 | (Ok out, w2) \<Rightarrow> (Ok (zip chunk_indexes chunk_results @ out), w2)))))"

fun push_target ::
  "nat \<Rightarrow> quote_target \<Rightarrow> (address \<times> (nat \<times> quote_target) list) list
   \<Rightarrow> (address \<times> (nat \<times> quote_target) list) list" where
  "push_target index target [] = [(qt_raindex target, [(index, target)])]"
| "push_target index target ((raindex, members) # groups) =
     (if raindex = qt_raindex target then (raindex, members @ [(index, target)]) # groups
      else (raindex, members) # push_target index target groups)"

definition group_targets :: "quote_target list \<Rightarrow> (address \<times> (nat \<times> quote_target) list) list" where
  "group_targets quote_targets = fold (\<lambda>(index, target). push_target index target) (enumerate 0 quote_targets) []"

definition batch_quote_with_providers ::
  "('f, 'w) quote_node \<Rightarrow> quote_target list \<Rightarrow> (string \<times> read_provider) list \<Rightarrow> string list
   \<Rightarrow> u64 option \<Rightarrow> address \<Rightarrow> nat option \<Rightarrow> ('f quote_result list, quote_error, 'w) io" where
  "batch_quote_with_providers N quote_targets providers provider_setup_failures block_number counterparty
     chunk_size =
     io_bind (io_mapM (\<lambda>(_, indexed_targets).
         quote_group N block_number counterparty providers provider_setup_failures
           (normalize_chunk_size chunk_size) (map fst indexed_targets) (map snd indexed_targets)
           (step_by (length indexed_targets) (normalize_chunk_size chunk_size)))
       (group_targets quote_targets)) (\<lambda>group_results.
     io_bind (io_pure (scatter (concat group_results) (replicate (length quote_targets) None))) (\<lambda>results.
     io_pure (unwrap_slots results)))"

fun connect_providers ::
  "('f, 'w) quote_node \<Rightarrow> string list \<Rightarrow> (string \<times> read_provider) list \<times> string list" where
  "connect_providers N [] = ([], [])"
| "connect_providers N (rpc # rpcs) =
     (case connect_providers N rpcs of (providers, failures) \<Rightarrow>
        (case qn_parse_url N rpc of
           Err error \<Rightarrow> (providers, (rpc @ '': '' @ error) # failures)
         | Ok url \<Rightarrow>
             (case mk_read_provider [url] of
                Err error \<Rightarrow> (providers, (rpc @ '': '' @ error) # failures)
              | Ok provider \<Rightarrow> ((url, provider) # providers, failures))))"

definition batch_quote ::
  "('f, 'w) quote_node \<Rightarrow> quote_target list \<Rightarrow> string list \<Rightarrow> u64 option \<Rightarrow> address \<Rightarrow> nat option
   \<Rightarrow> ('f quote_result list, quote_error, 'w) io" where
  "batch_quote N quote_targets rpcs block_number counterparty chunk_size =
     (if quote_targets = [] then io_return []
      else
        (let (providers, transport_failures) = connect_providers N rpcs in
         if providers = [] then
           io_return (replicate (length quote_targets) (Err (Corrupt_Return_Data
             (''all quote RPCs failed: '' @
              (if rpcs = [] then ''no RPC URLs configured'' else join ''; '' transport_failures)))))
         else
           batch_quote_with_providers N quote_targets providers transport_failures block_number
             counterparty chunk_size))"

section \<open>Slots\<close>

lemma scatter_values:
  assumes "\<forall>(i, x)\<in>set ps. i < length slots \<and> G i x"
  shows "\<exists>s. scatter ps slots = Ok s \<and> length s = length slots \<and>
    (\<forall>i<length slots. if i \<in> fst ` set ps then \<exists>x. s ! i = Some x \<and> G i x else s ! i = slots ! i)"
  using assms
proof (induction ps arbitrary: slots)
  case (Cons q ps)
  obtain i x where q: "q = (i, x)" by (cases q)
  have i: "i < length slots" "G i x" using Cons.prems q by auto
  obtain s where s: "scatter ps (slots[i := Some x]) = Ok s" "length s = length slots"
    "\<forall>j<length slots. if j \<in> fst ` set ps then \<exists>x. s ! j = Some x \<and> G j x else s ! j = slots[i := Some x] ! j"
    using Cons.IH[of "slots[i := Some x]"] Cons.prems by auto
  have "if j \<in> fst ` set (q # ps) then \<exists>x. s ! j = Some x \<and> G j x else s ! j = slots ! j"
    if "j < length slots" for j
    using s(3)[rule_format, OF that] q i by (auto simp: nth_list_update split: if_splits)
  then show ?case using s q i by auto
qed simp

lemma enumerate_mem: "(i, x) \<in> set (enumerate n xs) \<longleftrightarrow> n \<le> i \<and> i < n + length xs \<and> x = xs ! (i - n)"
  by (induction xs arbitrary: n) (auto simp: nth_Cons' le_Suc_eq)

lemma enumerate_range: "n + length xs \<le> m \<Longrightarrow> \<forall>(i, x)\<in>set (enumerate n xs). i < m \<and> True"
  by (auto simp: enumerate_mem)

lemma unwrap_slots_Ok:
  assumes "\<forall>i<length slots. \<exists>x. slots ! i = Some x \<and> G i x"
  shows "\<exists>xs. unwrap_slots slots = Ok xs \<and> length xs = length slots \<and> (\<forall>i<length xs. G i (xs ! i))"
proof -
  have slots: "slots = map Some (map the slots)" using assms by (intro nth_equalityI) auto
  have "unwrap_slots (map Some ys) = Ok ys" for ys :: "'a list"
    by (induction ys) (simp_all add: unwrap_slots_def)
  then have "unwrap_slots slots = Ok (map the slots)" using slots by metis
  moreover have "G i (map the slots ! i)" if "i < length slots" for i using assms that by auto
  ultimately show ?thesis by auto
qed

section \<open>A chunk\<close>

text \<open>
  What a chunk comes to is stated for any predicate \<open>good\<close> that the answers of single calls meet, and any
  predicate \<open>bad\<close> that their errors meet, reverts apart.
\<close>

definition calls_meet ::
  "('f, 'w) quote_node \<Rightarrow> read_provider \<Rightarrow> u64 option \<Rightarrow> address \<Rightarrow> quote_target set
   \<Rightarrow> (quote_target \<Rightarrow> 'f quote_result \<Rightarrow> bool) \<Rightarrow> (quote_error \<Rightarrow> bool) \<Rightarrow> bool" where
  "calls_meet N p b c T good bad \<longleftrightarrow>
     (\<forall>chunk w. chunk \<noteq> [] \<and> set chunk \<subseteq> T \<longrightarrow>
        (case fst (quote_chunk_once N p b c chunk w) of
           Ok results \<Rightarrow> list_all2 good chunk results
         | Err err \<Rightarrow> (if is_revert err
             then (\<forall>t. chunk = [t] \<longrightarrow> good t (chunk_err_to_quote_result err)) else bad err)))"

lemma calls_meetD:
  assumes "calls_meet N p b c T good bad" "chunk \<noteq> []" "set chunk \<subseteq> T" "quote_chunk_once N p b c chunk w = (r, w1)"
  shows "r = Ok results \<Longrightarrow> list_all2 good chunk results"
    "r = Err err \<Longrightarrow> is_revert err \<Longrightarrow> chunk = [t] \<Longrightarrow> good t (chunk_err_to_quote_result err)"
    "r = Err err \<Longrightarrow> \<not> is_revert err \<Longrightarrow> bad err"
proof -
  have "case r of Ok results \<Rightarrow> list_all2 good chunk results
      | Err err \<Rightarrow> (if is_revert err
          then (\<forall>t. chunk = [t] \<longrightarrow> good t (chunk_err_to_quote_result err)) else bad err)"
    using assms(1)[unfolded calls_meet_def, rule_format, of chunk w] assms(2-4) by simp
  then show "r = Ok results \<Longrightarrow> list_all2 good chunk results"
    "r = Err err \<Longrightarrow> is_revert err \<Longrightarrow> chunk = [t] \<Longrightarrow> good t (chunk_err_to_quote_result err)"
    "r = Err err \<Longrightarrow> \<not> is_revert err \<Longrightarrow> bad err"
    by simp_all
qed

definition in_spans :: "(nat \<times> nat) list \<Rightarrow> nat \<Rightarrow> bool" where
  "in_spans pending i \<longleftrightarrow> (\<exists>(a, b)\<in>set pending. a \<le> i \<and> i < b)"

lemma in_spans_simps [simp]:
  "in_spans [] i \<longleftrightarrow> False" "in_spans ((a, b) # pending) i \<longleftrightarrow> a \<le> i \<and> i < b \<or> in_spans pending i"
  by (auto simp: in_spans_def)

definition slots_meet ::
  "quote_target list \<Rightarrow> (quote_target \<Rightarrow> 'r \<Rightarrow> bool) \<Rightarrow> (nat \<times> nat) list \<Rightarrow> 'r option list \<Rightarrow> 'r option list \<Rightarrow> bool"
  where
  "slots_meet ts good pending resolved s \<longleftrightarrow> length s = length ts \<and>
     (\<forall>i<length ts. if in_spans pending i then \<exists>x. s ! i = Some x \<and> good (ts ! i) x else s ! i = resolved ! i)"

lemma slots_meet_step:
  assumes "slots_meet ts good pending resolved1 s" "length resolved = length ts" "a < b" "b \<le> length ts"
    and "scatter ps resolved = Ok resolved1"
    and "\<forall>(i, x)\<in>set ps. i < length ts \<and> good (ts ! i) x" "fst ` set ps = {a..<b}"
  shows "slots_meet ts good ((a, b) # pending) resolved s"
proof -
  have r: "length resolved1 = length resolved"
    "\<forall>i<length resolved. if i \<in> fst ` set ps then \<exists>x. resolved1 ! i = Some x \<and> good (ts ! i) x
       else resolved1 ! i = resolved ! i"
    using scatter_values[of ps resolved "\<lambda>i x. good (ts ! i) x"] assms by auto
  show ?thesis
    unfolding slots_meet_def
  proof (intro conjI allI impI)
    show "length s = length ts" using assms(1) by (simp add: slots_meet_def)
    fix i assume i: "i < length ts"
    have s: "if in_spans pending i then \<exists>x. s ! i = Some x \<and> good (ts ! i) x else s ! i = resolved1 ! i"
      using assms(1) i by (simp add: slots_meet_def)
    have q: "if i \<in> {a..<b} then \<exists>x. resolved1 ! i = Some x \<and> good (ts ! i) x else resolved1 ! i = resolved ! i"
      using r(2)[rule_format, of i] i assms(2,7) by simp
    show "if in_spans ((a, b) # pending) i then \<exists>x. s ! i = Some x \<and> good (ts ! i) x else s ! i = resolved ! i"
      using s q by (auto split: if_splits)
  qed
qed

lemma bisect_slots:
  assumes "calls_meet N p bl c (set ts) good bad" "\<forall>(a, b)\<in>set pending. a < b \<and> b \<le> length ts"
    "length resolved = length ts"
  shows "case fst (bisect N p bl c ts pending resolved w) of
    Ok s \<Rightarrow> slots_meet ts good pending resolved s | Err e \<Rightarrow> bad e"
  using assms
proof (induction N p bl c ts pending resolved w rule: bisect.induct)
  case (1 N p bl c ts resolved w)
  then show ?case by (simp add: slots_meet_def)
next
  case (2 N p bl c ts start stop pending resolved w)
  note meet = 2(4)
  have range: "start < stop" "stop \<le> length ts" "\<forall>(a, b)\<in>set pending. a < b \<and> b \<le> length ts"
    using 2(5) by auto
  let ?chunk = "take (stop - start) (drop start ts)"
  have slice: "vec_slice ts start stop = Ok ?chunk" using range by (simp add: vec_slice_def)
  have chunk: "length ?chunk = stop - start" "?chunk \<noteq> []" "set ?chunk \<subseteq> set ts"
    using range by (auto dest: in_set_takeD in_set_dropD)
  have nth: "?chunk ! (i - start) = ts ! i" if "start \<le> i" "i < stop" for i
    using that range by simp
  obtain r w1 where once: "quote_chunk_once N p bl c ?chunk w = (r, w1)" by fastforce
  note called = calls_meetD[OF meet chunk(2,3) once]
  show ?case
  proof (cases r)
    case (Ok results)
    have all: "list_all2 good ?chunk results" using called(1)[OF Ok] .
    then have len: "length results = stop - start" using chunk(1) by (metis list_all2_lengthD)
    have ps: "\<forall>(i, x)\<in>set (enumerate start results). i < length ts \<and> good (ts ! i) x"
      using all len nth range by (auto simp: enumerate_mem list_all2_conv_all_nth) (metis diff_less_mono le_add_diff_inverse less_imp_le_nat)
    have fs: "fst ` set (enumerate start results) = {start..<stop}" using len range by (simp flip: set_map)
    obtain s1 where s1: "scatter (enumerate start results) resolved = Ok s1" "length s1 = length ts"
      using scatter_values[of "enumerate start results" resolved "\<lambda>i x. good (ts ! i) x"] ps 2(6) by auto
    have ih: "case fst (bisect N p bl c ts pending s1 w1) of
        Ok s \<Rightarrow> slots_meet ts good pending s1 s | Err e \<Rightarrow> bad e"
      using 2(1)[OF slice once[symmetric] Ok s1(1) meet range(3) s1(2)] .
    have "bisect N p bl c ts ((start, stop) # pending) resolved w = bisect N p bl c ts pending s1 w1"
      using slice once Ok s1 by simp
    then show ?thesis
      using ih slots_meet_step[OF _ 2(6) range(1,2) s1(1) ps fs] by (simp split: result.splits)
  next
    case (Err err)
    show ?thesis
    proof (cases "is_revert err")
      case False
      then show ?thesis using slice once Err called(3) by simp
    next
      case True
      show ?thesis
      proof (cases "length ?chunk = 1")
        case single: True
        then obtain t where t: "?chunk = [t]" by (metis One_nat_def length_0_conv length_Suc_conv)
        then have ts: "t = ts ! start" "stop = Suc start" using nth[of start] range chunk(1) single by auto
        let ?ps = "[(start, chunk_err_to_quote_result err)]"
        have ps: "\<forall>(i, x)\<in>set ?ps. i < length ts \<and> good (ts ! i) x"
          using called(2)[OF Err True t] ts range by auto
        have fs: "fst ` set ?ps = {start..<stop}" using ts by auto
        have s1: "scatter ?ps resolved = Ok (resolved[start := Some (chunk_err_to_quote_result err)])"
          using range 2(6) by simp
        have ih: "case fst (bisect N p bl c ts pending (resolved[start := Some (chunk_err_to_quote_result err)]) w1) of
            Ok s \<Rightarrow> slots_meet ts good pending (resolved[start := Some (chunk_err_to_quote_result err)]) s
          | Err e \<Rightarrow> bad e"
          using 2(2)[OF slice once[symmetric] Err _ single s1 meet range(3)] True 2(6) by simp
        have "bisect N p bl c ts ((start, stop) # pending) resolved w =
            bisect N p bl c ts pending (resolved[start := Some (chunk_err_to_quote_result err)]) w1"
          using slice once Err True single s1 by simp
        then show ?thesis
          using ih slots_meet_step[OF _ 2(6) range(1,2) s1 ps fs] by (simp split: result.splits)
      next
        case several: False
        let ?mid = "start + length ?chunk div 2"
        have mid: "start < ?mid" "?mid < stop" using several range chunk by auto
        have "\<forall>(a, b)\<in>set ((start, ?mid) # (?mid, stop) # pending). a < b \<and> b \<le> length ts"
          using mid range by auto
        then have ih: "case fst (bisect N p bl c ts ((start, ?mid) # (?mid, stop) # pending) resolved w1) of
            Ok s \<Rightarrow> slots_meet ts good ((start, ?mid) # (?mid, stop) # pending) resolved s | Err e \<Rightarrow> bad e"
          using 2(3)[OF slice once[symmetric] Err _ several meet _ 2(6)] True by simp
        have "in_spans ((start, ?mid) # (?mid, stop) # pending) i \<longleftrightarrow> in_spans ((start, stop) # pending) i" for i
          using mid by auto
        then have same: "slots_meet ts good ((start, ?mid) # (?mid, stop) # pending) resolved s \<Longrightarrow>
            slots_meet ts good ((start, stop) # pending) resolved s" for s
          unfolding slots_meet_def by simp
        have "bisect N p bl c ts ((start, stop) # pending) resolved w =
            bisect N p bl c ts ((start, ?mid) # (?mid, stop) # pending) resolved w1"
          using slice once Err True several by (simp del: bisect.simps add: bisect.simps(2)[of N p bl c ts start stop])
        then show ?thesis using ih same by (simp split: result.splits)
      qed
    qed
  qed
qed

lemma split_chunk_meets:
  assumes "calls_meet N p b c (set ts) good bad" "ts \<noteq> []"
  shows "case fst (quote_chunk_with_probe_and_split N p b c ts w) of
    Ok rs \<Rightarrow> list_all2 good ts rs | Err e \<Rightarrow> bad e"
proof -
  obtain r w1 where once: "quote_chunk_once N p b c ts w = (r, w1)" by fastforce
  note called = calls_meetD[OF assms(1,2) subset_refl once]
  show ?thesis
  proof (cases r)
    case (Ok results)
    then show ?thesis using once called(1) by (simp add: quote_chunk_with_probe_and_split_def)
  next
    case (Err err)
    have notT: "is_transport err \<Longrightarrow> \<not> is_revert err"
      by (auto simp: is_transport_def is_revert_def split: quote_error.splits)
    show ?thesis
    proof (cases "is_revert err \<and> 1 < length ts")
      case False
      then show ?thesis
        using once Err called(2,3) notT assms(2)
        by (cases ts) (auto simp: quote_chunk_with_probe_and_split_def)
    next
      case True
      have b: "case fst (bisect N p b c ts [(0, length ts)] (replicate (length ts) None) w1) of
          Ok s \<Rightarrow> slots_meet ts good [(0, length ts)] (replicate (length ts) None) s | Err e \<Rightarrow> bad e"
        using True by (intro bisect_slots[OF assms(1)]) auto
      obtain q w2 where q: "bisect N p b c ts [(0, length ts)] (replicate (length ts) None) w1 = (q, w2)"
        by fastforce
      have run: "quote_chunk_with_probe_and_split N p b c ts w =
          (case q of Err e \<Rightarrow> (Err e, w2)
           | Ok resolved \<Rightarrow>
               (Ok (map (\<lambda>v. case v of Some r \<Rightarrow> r | None \<Rightarrow> single_quote_failure err) resolved), w2))"
        using once Err True notT q by (auto simp: quote_chunk_with_probe_and_split_def simp del: bisect.simps)
      show ?thesis
      proof (cases q)
        case (Ok s)
        then have "slots_meet ts good [(0, length ts)] (replicate (length ts) None) s" using b q by simp
        then have s: "length s = length ts" "\<And>i. i < length ts \<Longrightarrow> \<exists>x. s ! i = Some x \<and> good (ts ! i) x"
          by (auto simp: slots_meet_def)
        show ?thesis using run Ok s by (fastforce simp: list_all2_conv_all_nth)
      qed (use run b q in simp)
    qed
  qed
qed

section \<open>The batch\<close>

lemma try_providers_meets:
  assumes "\<And>rpc p w. (rpc, p) \<in> set providers \<Longrightarrow>
      (case fst (quote_chunk_with_probe_and_split N p b c ts w) of
         Ok rs \<Rightarrow> list_all2 good ts rs | Err e \<Rightarrow> e \<noteq> Quote_Panicked)"
    and "(\<forall>t m. good t (Err (Corrupt_Return_Data m))) \<or>
      (\<exists>(rpc, p)\<in>set providers. \<forall>w. is_ok (fst (quote_chunk_with_probe_and_split N p b c ts w)))"
  shows "\<exists>rs. fst (try_providers N b c ts providers failures w) = Ok rs \<and> list_all2 good ts rs"
  using assms
proof (induction N b c ts providers failures w rule: try_providers.induct)
  case (1 N b c ts failures w)
  then show ?case by (simp add: list_all2_conv_all_nth)
next
  case (2 N b c ts rpc p providers failures w)
  obtain r w1 where r: "quote_chunk_with_probe_and_split N p b c ts w = (r, w1)" by fastforce
  show ?case
  proof (cases r)
    case (Ok rs)
    then show ?thesis using 2(2)[of rpc p w] r by simp
  next
    case (Err e)
    have head: "\<not> (\<forall>w. is_ok (fst (quote_chunk_with_probe_and_split N p b c ts w)))"
      using r Err by (metis fst_conv is_ok.simps(2))
    have "(\<forall>t m. good t (Err (Corrupt_Return_Data m))) \<or>
      (\<exists>(rpc, p)\<in>set providers. \<forall>w. is_ok (fst (quote_chunk_with_probe_and_split N p b c ts w)))"
      using 2(3) head by auto
    moreover have e: "e \<noteq> Quote_Panicked" using 2(2)[of rpc p w] r Err by simp
    ultimately have "\<exists>rs. fst (try_providers N b c ts providers
        (failures @ [rpc @ '': '' @ show_quote_error e]) w1) = Ok rs \<and> list_all2 good ts rs"
      using 2(2) by (intro 2(1)[OF r[symmetric] Err]) auto
    then show ?thesis using r Err e by simp
  qed
qed

definition chunks_meet ::
  "('f, 'w) quote_node \<Rightarrow> (string \<times> read_provider) list \<Rightarrow> u64 option \<Rightarrow> address \<Rightarrow> quote_target set
   \<Rightarrow> (quote_target \<Rightarrow> 'f quote_result \<Rightarrow> bool) \<Rightarrow> bool" where
  "chunks_meet N providers b c T good \<longleftrightarrow>
     (\<forall>chunk failures w. chunk \<noteq> [] \<and> set chunk \<subseteq> T \<longrightarrow>
        (\<exists>rs. fst (try_providers N b c chunk providers failures w) = Ok rs \<and> list_all2 good chunk rs))"

definition answers_at ::
  "nat list \<Rightarrow> quote_target list \<Rightarrow> (quote_target \<Rightarrow> 'r \<Rightarrow> bool) \<Rightarrow> nat list \<Rightarrow> nat \<Rightarrow> (nat \<times> 'r) list \<Rightarrow> bool" where
  \<comment> \<open>the pairs answer the targets of the chunks of size \<open>k\<close> that begin at \<open>starts\<close>\<close>
  "answers_at indexes targets good starts k out \<longleftrightarrow>
     (\<forall>(i, x)\<in>set out. \<exists>q<length targets. i = indexes ! q \<and> good (targets ! q) x) \<and>
     (\<forall>q<length targets. (\<exists>a\<in>set starts. a \<le> q \<and> q < a + k) \<longrightarrow> indexes ! q \<in> fst ` set out)"

lemma quote_group_meets:
  assumes "chunks_meet N providers b c (set targets) good" "length indexes = length targets" "0 < k"
    "\<forall>a\<in>set starts. a < length targets"
  shows "\<exists>out w1. quote_group N b c providers failures k indexes targets starts w = (Ok out, w1) \<and>
    answers_at indexes targets good starts k out"
  using assms(4)
proof (induction starts arbitrary: w)
  case (Cons a starts)
  let ?stop = "min (a + k) (length targets)"
  let ?chunk = "take (?stop - a) (drop a targets)"
  have a: "a < length targets" "a < ?stop" using Cons.prems assms(3) by auto
  have slice: "vec_slice targets a ?stop = Ok ?chunk" using a by (simp add: vec_slice_def)
  have chunk: "length ?chunk = ?stop - a" "?chunk \<noteq> []" "set ?chunk \<subseteq> set targets"
    using a by (auto dest: in_set_takeD in_set_dropD)
  have "\<exists>rs. fst (try_providers N b c ?chunk providers failures w) = Ok rs \<and> list_all2 good ?chunk rs"
    using assms(1) chunk(2,3) unfolding chunks_meet_def by blast
  then obtain rs w1 where rs: "try_providers N b c ?chunk providers failures w = (Ok rs, w1)"
    and good: "list_all2 good ?chunk rs"
    by (cases "try_providers N b c ?chunk providers failures w") auto
  then have len: "length rs = ?stop - a" using chunk(1) by (metis list_all2_lengthD)
  have idx: "vec_slice indexes a (a + length rs) = Ok (take (length rs) (drop a indexes))"
    using a len assms(2) by (simp add: vec_slice_def)
  obtain out w2 where out: "quote_group N b c providers failures k indexes targets starts w1 = (Ok out, w2)"
    "answers_at indexes targets good starts k out"
    using Cons.IH[of w1] Cons.prems by auto
  let ?here = "zip (take (length rs) (drop a indexes)) rs"
  have mem: "(i, x) \<in> set ?here \<longleftrightarrow> (\<exists>j<length rs. i = indexes ! (a + j) \<and> x = rs ! j)" for i x
  proof -
    have "(i, x) \<in> set ?here \<longleftrightarrow> (\<exists>j<length rs. (i, x) = (take (length rs) (drop a indexes) ! j, rs ! j))"
      using len assms(2) a by (auto simp: set_zip)
    also have "\<dots> \<longleftrightarrow> (\<exists>j<length rs. i = indexes ! (a + j) \<and> x = rs ! j)"
      using len assms(2) a by (intro ex_cong1 conj_cong refl) auto
    finally show ?thesis .
  qed
  have nth: "good (targets ! (a + j)) (rs ! j)" if "j < length rs" for j
    using good that len a by (auto simp: list_all2_conv_all_nth)
  have "answers_at indexes targets good (a # starts) k (?here @ out)"
    unfolding answers_at_def
  proof (intro conjI ballI allI impI)
    fix e assume e: "e \<in> set (?here @ out)"
    show "case e of (i, x) \<Rightarrow> \<exists>q<length targets. i = indexes ! q \<and> good (targets ! q) x"
    proof (cases e)
      case (Pair i x)
      have "\<exists>q<length targets. i = indexes ! q \<and> good (targets ! q) x" if "j < length rs" "i = indexes ! (a + j)" "x = rs ! j" for j
        using that nth len a by (intro exI[of _ "a + j"]) auto
      then show ?thesis
        using e Pair out(2) mem[of i x] by (auto simp: answers_at_def)
    qed
  next
    fix q assume q: "q < length targets" "\<exists>s\<in>set (a # starts). s \<le> q \<and> q < s + k"
    show "indexes ! q \<in> fst ` set (?here @ out)"
    proof (cases "a \<le> q \<and> q < a + k")
      case True
      then have "(indexes ! q, rs ! (q - a)) \<in> set ?here" using q len unfolding mem by (intro exI[of _ "q - a"]) auto
      then show ?thesis by force
    next
      case False
      then show ?thesis using q out(2) by (auto simp: answers_at_def)
    qed
  qed
  then show ?case using slice rs idx out(1) by simp
qed (simp add: answers_at_def)

lemma step_by_covers:
  assumes "0 < k"
  shows "\<forall>a\<in>set (step_by n k). a < n" "q < n \<Longrightarrow> \<exists>a\<in>set (step_by n k). a \<le> q \<and> q < a + k"
proof -
  show "\<forall>a\<in>set (step_by n k). a < n"
  proof
    fix a assume "a \<in> set (step_by n k)"
    then obtain i where i: "a = i * k" "i < (n + k - 1) div k"
      unfolding step_by_def by (metis (no_types, lifting) atLeastLessThan_iff imageE set_map set_upt)
    then have "Suc i * k \<le> n + k - 1" using assms by (metis Suc_leI less_eq_div_iff_mult_less_eq)
    then show "a < n" using i assms by (cases n) auto
  qed
  assume q: "q < n"
  have "q div k < (n + k - 1) div k"
  proof -
    have "q div k = (q + k) div k - 1" using assms by simp
    moreover have "(q + k) div k \<le> (n + k - 1) div k" using q by (intro div_le_mono) simp
    moreover have "0 < (q + k) div k" using assms by simp
    ultimately show ?thesis by linarith
  qed
  then show "\<exists>a\<in>set (step_by n k). a \<le> q \<and> q < a + k"
    using assms by (intro bexI[of _ "q div k * k"])
      (auto simp: step_by_def dividend_less_div_times add.commute)
qed

lemma push_target_mem:
  "(r, ms) \<in> set (push_target i t groups) \<Longrightarrow> e \<in> set ms \<Longrightarrow>
   e = (i, t) \<and> r = qt_raindex t \<or> (\<exists>ms'. (r, ms') \<in> set groups \<and> e \<in> set ms')"
  by (induction i t groups rule: push_target.induct) (auto split: if_splits)

lemma push_target_keeps:
  "(r, ms) \<in> set groups \<Longrightarrow> e \<in> set ms \<Longrightarrow> \<exists>ms'. (r, ms') \<in> set (push_target i t groups) \<and> e \<in> set ms'"
  by (induction i t groups rule: push_target.induct) auto

lemma push_target_new: "\<exists>ms. (qt_raindex t, ms) \<in> set (push_target i t groups) \<and> (i, t) \<in> set ms"
  by (induction i t groups rule: push_target.induct) auto

lemma fold_push_target:
  "(r, ms) \<in> set (fold (\<lambda>(i, t). push_target i t) its groups) \<Longrightarrow> e \<in> set ms \<Longrightarrow>
   e \<in> set its \<and> r = qt_raindex (snd e) \<or> (\<exists>ms'. (r, ms') \<in> set groups \<and> e \<in> set ms')"
  "e \<in> set its \<or> (\<exists>(r, ms)\<in>set groups. e \<in> set ms) \<Longrightarrow>
   \<exists>(r, ms)\<in>set (fold (\<lambda>(i, t). push_target i t) its groups). e \<in> set ms"
proof (induction its arbitrary: groups)
  case (Cons it its)
  obtain i t where it: "it = (i, t)" by (cases it)
  {
    case 1
    then show ?case using Cons.IH(1)[of "push_target i t groups"] push_target_mem[of r _ i t groups e] it by fastforce
  next
    case 2
    then have "e \<in> set its \<or> (\<exists>(r, ms)\<in>set (push_target i t groups). e \<in> set ms)"
      using push_target_new[of t i groups] push_target_keeps[of _ _ groups e i t] it by fastforce
    then show ?case using Cons.IH(2)[of "push_target i t groups"] it by simp
  }
qed auto

lemma group_targets_mem:
  "(r, ms) \<in> set (group_targets ts) \<Longrightarrow> (i, t) \<in> set ms \<Longrightarrow> i < length ts \<and> t = ts ! i \<and> qt_raindex t = r"
  using fold_push_target(1)[of r ms "enumerate 0 ts" "[]" "(i, t)"] by (auto simp: group_targets_def enumerate_mem)

lemma group_targets_all:
  assumes "i < length ts"
  obtains r ms where "(r, ms) \<in> set (group_targets ts)" "(i, ts ! i) \<in> set ms"
  using fold_push_target(2)[of "(i, ts ! i)" "enumerate 0 ts" "[]"] assms
  by (auto simp: group_targets_def enumerate_mem)

lemma io_mapM_total:
  assumes "\<And>x w. x \<in> set xs \<Longrightarrow> \<exists>y w'. f x w = (Ok y, w') \<and> P x y"
  shows "\<exists>ys w'. io_mapM f xs w = (Ok ys, w') \<and> list_all2 P xs ys"
  using assms
proof (induction xs arbitrary: w)
  case (Cons x xs)
  obtain y w1 where y: "f x w = (Ok y, w1)" "P x y" using Cons.prems[of x w] by auto
  obtain ys w2 where "io_mapM f xs w1 = (Ok ys, w2)" "list_all2 P xs ys" using Cons.IH[of w1] Cons.prems by auto
  then show ?case using y by auto
qed simp

lemma batch_with_providers_meets:
  assumes "\<And>r. chunks_meet N providers b c {t \<in> set ts. qt_raindex t = r} good"
  shows "\<exists>rs w1. batch_quote_with_providers N ts providers failures b c cs w = (Ok rs, w1) \<and> list_all2 good ts rs"
proof -
  let ?k = "normalize_chunk_size cs"
  have k: "0 < ?k" by (simp add: normalize_chunk_size_def)
  let ?quote = "\<lambda>(_, ms). quote_group N b c providers failures ?k (map fst ms) (map snd ms) (step_by (length ms) ?k)"
  let ?P = "\<lambda>(_, ms) out. (\<forall>(i, x)\<in>set out. i < length ts \<and> good (ts ! i) x) \<and> (\<forall>(i, t)\<in>set ms. i \<in> fst ` set out)"
  have one: "\<exists>y w'. ?quote g w = (Ok y, w') \<and> ?P g y" if "g \<in> set (group_targets ts)" for g w
  proof (cases g)
    case (Pair r ms)
    have mem: "i < length ts \<and> t = ts ! i \<and> qt_raindex t = r" if "(i, t) \<in> set ms" for i t
      using group_targets_mem[of r ms ts i t] that \<open>g \<in> _\<close> Pair by metis
    have "set (map snd ms) \<subseteq> {t \<in> set ts. qt_raindex t = r}" using mem by force
    then have "chunks_meet N providers b c (set (map snd ms)) good"
      using assms[of r] unfolding chunks_meet_def by (meson order_trans)
    from quote_group_meets[OF this, of "map fst ms" ?k "step_by (length ms) ?k" failures w]
    obtain out w1 where out: "quote_group N b c providers failures ?k (map fst ms) (map snd ms) (step_by (length ms) ?k) w = (Ok out, w1)"
      "answers_at (map fst ms) (map snd ms) good (step_by (length ms) ?k) ?k out"
      using k step_by_covers(1)[OF k] by auto
    have "i < length ts \<and> good (ts ! i) x" if "(i, x) \<in> set out" for i x
    proof -
      have "\<exists>q<length (map snd ms). i = map fst ms ! q \<and> good (map snd ms ! q) x"
        using out(2) that unfolding answers_at_def by blast
      then obtain q where q: "q < length ms" "i = fst (ms ! q)" "good (snd (ms ! q)) x" by auto
      then show ?thesis using mem[of "fst (ms ! q)" "snd (ms ! q)"] by simp
    qed
    moreover have "i \<in> fst ` set out" if it: "(i, t) \<in> set ms" for i t
    proof -
      obtain q where q: "q < length ms" "ms ! q = (i, t)" using it by (metis in_set_conv_nth)
      have "map fst ms ! q \<in> fst ` set out"
        using out(2) step_by_covers(2)[OF k q(1)] q(1) unfolding answers_at_def by simp
      then show ?thesis using q by simp
    qed
    ultimately show ?thesis using Pair out(1) by auto
  qed
  obtain outs w1 where outs: "io_mapM ?quote (group_targets ts) w = (Ok outs, w1)"
    "list_all2 ?P (group_targets ts) outs"
    using io_mapM_total[of "group_targets ts" ?quote ?P w, OF one] by blast
  have good: "i < length ts \<and> good (ts ! i) x" if ix: "(i, x) \<in> set (concat outs)" for i x
  proof -
    obtain out where "out \<in> set outs" "(i, x) \<in> set out" using ix unfolding set_concat by blast
    then obtain j where j: "j < length outs" "(i, x) \<in> set (outs ! j)" unfolding in_set_conv_nth by blast
    have "?P (group_targets ts ! j) (outs ! j)" using list_all2_nthD2[OF outs(2) j(1)] .
    then show ?thesis using j(2) by (auto split: prod.splits)
  qed
  have all: "i \<in> fst ` set (concat outs)" if il: "i < length ts" for i
  proof -
    obtain r ms where g: "(r, ms) \<in> set (group_targets ts)" "(i, ts ! i) \<in> set ms" using group_targets_all[OF il] .
    obtain j where j: "j < length (group_targets ts)" "group_targets ts ! j = (r, ms)"
      using g(1) unfolding in_set_conv_nth by blast
    have "?P (group_targets ts ! j) (outs ! j)" using list_all2_nthD[OF outs(2) j(1)] .
    then have "i \<in> fst ` set (outs ! j)" using j(2) g(2) by auto
    moreover have "outs ! j \<in> set outs" using j(1) list_all2_lengthD[OF outs(2)] by simp
    ultimately show ?thesis unfolding set_concat by (meson UN_I image_mono subsetD UN_upper)
  qed
  have "\<forall>(i, x)\<in>set (concat outs). i < length (replicate (length ts) None) \<and> good (ts ! i) x"
    using good by (simp only: length_replicate) blast
  from scatter_values[OF this] all
  obtain s where s: "scatter (concat outs) (replicate (length ts) None) = Ok s" "length s = length ts"
    "\<forall>i<length ts. \<exists>x. s ! i = Some x \<and> good (ts ! i) x"
    by (simp del: set_concat) blast
  obtain rs where "unwrap_slots s = Ok rs" "length rs = length ts" "\<forall>i<length rs. good (ts ! i) (rs ! i)"
    using unwrap_slots_Ok[of s "\<lambda>i x. good (ts ! i) x"] s by auto
  then show ?thesis
    using outs(1) s(1)
    by (auto simp: batch_quote_with_providers_def io_bind_def io_pure_def list_all2_conv_all_nth)
qed

section \<open>Every target gets an answer\<close>

lemma chunk_once_length: "quote_chunk_once N p b c ts w = (Ok rs, w1) \<Longrightarrow> length rs = length ts"
proof -
  have "read_multicall N ts response = Ok rs \<Longrightarrow> length rs = length ts" for response
    by (auto simp: read_multicall_def ok_iff split: if_splits)
  then show "quote_chunk_once N p b c ts w = (Ok rs, w1) \<Longrightarrow> length rs = length ts"
    by (auto simp: quote_chunk_once_def split: list.splits prod.splits option.splits result.splits rpc_error.splits)
qed

lemma chunk_once_no_panic: "ts \<noteq> [] \<Longrightarrow> quote_chunk_once N p b c ts w = (Err e, w1) \<Longrightarrow> e \<noteq> Quote_Panicked"
proof -
  have "read_multicall N ts response \<noteq> Err Quote_Panicked" for response
    by (cases "qn_decode_multicall N response") (auto simp: read_multicall_def)
  then show "ts \<noteq> [] \<Longrightarrow> quote_chunk_once N p b c ts w = (Err e, w1) \<Longrightarrow> e \<noteq> Quote_Panicked"
    by (auto simp: quote_chunk_once_def split: list.splits prod.splits option.splits result.splits rpc_error.splits)
qed

lemma calls_meet_always: "calls_meet N p b c T (\<lambda>_ _. True) (\<lambda>e. e \<noteq> Quote_Panicked)"
  unfolding calls_meet_def
proof (intro allI impI)
  fix chunk :: "quote_target list" and w
  assume "chunk \<noteq> [] \<and> set chunk \<subseteq> T"
  moreover obtain r w1 where "quote_chunk_once N p b c chunk w = (r, w1)" by fastforce
  ultimately show "case fst (quote_chunk_once N p b c chunk w) of
      Ok results \<Rightarrow> list_all2 (\<lambda>_ _. True) chunk results
    | Err err \<Rightarrow> (if is_revert err then \<forall>t. chunk = [t] \<longrightarrow> True else err \<noteq> Quote_Panicked)"
    using chunk_once_length[of N p b c chunk w _ w1] chunk_once_no_panic[of chunk N p b c w _ w1]
    by (cases r) (auto simp: list_all2_conv_all_nth)
qed

lemma split_chunk_no_panic:
  "ts \<noteq> [] \<Longrightarrow> fst (quote_chunk_with_probe_and_split N p b c ts w) \<noteq> Err Quote_Panicked"
  using split_chunk_meets[OF calls_meet_always, of ts N p b c w] by (auto split: result.splits)

lemma batch_quote_meets:
  assumes "\<And>r. chunks_meet N (fst (connect_providers N rpcs)) b c {t \<in> set ts. qt_raindex t = r} good"
    and "fst (connect_providers N rpcs) = [] \<Longrightarrow> \<forall>t m. good t (Err (Corrupt_Return_Data m))"
  shows "\<exists>rs w1. batch_quote N ts rpcs b c cs w = (Ok rs, w1) \<and> list_all2 good ts rs"
  using batch_with_providers_meets[OF assms(1), of "snd (connect_providers N rpcs)" cs w] assms(2)
  by (auto simp: batch_quote_def io_return_def split_beta list_all2_conv_all_nth)

lemma every_target_answered:
  "\<exists>rs w1. batch_quote N ts rpcs b c cs w = (Ok rs, w1) \<and> length rs = length ts"
proof -
  have "chunks_meet N providers b c T (\<lambda>_ _. True)" for providers T
    unfolding chunks_meet_def
  proof (intro allI impI)
    fix chunk :: "quote_target list" and failures w
    assume chunk: "chunk \<noteq> [] \<and> set chunk \<subseteq> T"
    have "case fst (quote_chunk_with_probe_and_split N p b c chunk w) of
        Ok rs \<Rightarrow> list_all2 (\<lambda>_ _. True) chunk rs | Err e \<Rightarrow> e \<noteq> Quote_Panicked" for p w
      using split_chunk_meets[OF calls_meet_always[of N p b c "set chunk"], of w] chunk by simp
    then show "\<exists>rs. fst (try_providers N b c chunk providers failures w) = Ok rs \<and>
        list_all2 (\<lambda>_ _. True) chunk rs"
      by (intro try_providers_meets) auto
  qed
  from batch_quote_meets[OF this] show ?thesis by (metis list_all2_lengthD)
qed

text \<open>
  Claim C36: quoting a batch always succeeds, whatever the RPCs answer, and gives one result for each
  target: no index or slice of the grouping, the chunks and the bisection is out of range, and no slot
  is left empty. (A panic anywhere, also inside the bisection of a chunk, would end the batch with
  \<open>Quote_Panicked\<close>.)
\<close>

theorem batch_answers_every_target:
  "\<exists>rs w1. batch_quote N ts rpcs b c cs w = (Ok rs, w1) \<and> length rs = length ts"
  by (rule every_target_answered)

section \<open>Each target as if alone\<close>

text \<open>
  What a call of OpenZeppelin's \<open>multicall\<close> comes to: the return data of the quotes, or the revert data of
  the first quote that reverts. \<open>outcome\<close> is what the raindex does for a target at the block and for the
  counterparty of the call; \<open>decoded\<close> is what the decoder makes of revert data.
\<close>

datatype quote_outcome = Returns bytes | Reverts bytes

fun first_revert :: "(quote_target \<Rightarrow> quote_outcome) \<Rightarrow> quote_target list \<Rightarrow> bytes option" where
  "first_revert outcome [] = None"
| "first_revert outcome (t # ts) =
     (case outcome t of Reverts data \<Rightarrow> Some data | Returns _ \<Rightarrow> first_revert outcome ts)"

definition return_data :: "quote_outcome \<Rightarrow> bytes" where
  "return_data x = (case x of Returns data \<Rightarrow> data | Reverts data \<Rightarrow> data)"

definition runs_multicall ::
  "('f, 'w) quote_node \<Rightarrow> read_provider \<Rightarrow> u64 option \<Rightarrow> address \<Rightarrow> (quote_target \<Rightarrow> quote_outcome)
   \<Rightarrow> (bytes \<Rightarrow> (string, string) result) \<Rightarrow> bool" where
  "runs_multicall N p b c outcome decoded \<longleftrightarrow>
     (\<forall>r ts w. ts \<noteq> [] \<and> (\<forall>t\<in>set ts. qt_raindex t = r) \<longrightarrow>
        (case first_revert outcome ts of
           None \<Rightarrow> (\<exists>response.
             fst (qn_call N p rpc_attempt_timeout_ms (multicall_tx N ts r c) (quote_block b) w) = Some (Ok response) \<and>
             qn_decode_multicall N response = Ok (map (return_data \<circ> outcome) ts))
         | Some data \<Rightarrow> (\<exists>message.
             fst (qn_call N p rpc_attempt_timeout_ms (multicall_tx N ts r c) (quote_block b) w) =
               Some (Err (Error_Resp message (Some data)))))) \<and>
     (\<forall>data w. fst (qn_decode_revert N data w) = decoded data)"

definition unreachable :: "('f, 'w) quote_node \<Rightarrow> read_provider \<Rightarrow> u64 option \<Rightarrow> address \<Rightarrow> bool" where
  "unreachable N p b c \<longleftrightarrow>
     (\<forall>r ts w. case fst (qn_call N p rpc_attempt_timeout_ms (multicall_tx N ts r c) (quote_block b) w) of
        None \<Rightarrow> True | Some (Err (Error_Resp _ revert)) \<Rightarrow> revert = None | Some (Err (Rpc_Failure _)) \<Rightarrow> True
      | Some (Ok _) \<Rightarrow> False)"

definition revert_failure :: "(bytes \<Rightarrow> (string, string) result) \<Rightarrow> bytes \<Rightarrow> failed_quote" where
  "revert_failure decoded data =
     (case decoded data of Ok e \<Rightarrow> Revert_Error e | Err e \<Rightarrow> Revert_Error_Decode_Failed e)"

definition alone ::
  "('f, 'w) quote_node \<Rightarrow> (quote_target \<Rightarrow> quote_outcome) \<Rightarrow> (bytes \<Rightarrow> (string, string) result)
   \<Rightarrow> quote_target \<Rightarrow> 'f quote_result" where
  \<comment> \<open>the answer for a target that is quoted on its own\<close>
  "alone N outcome decoded t = (case outcome t of
     Returns data \<Rightarrow> read_quote N data
   | Reverts data \<Rightarrow> chunk_err_to_quote_result (Chunk_Reverted (revert_failure decoded data)))"

lemma first_revert_None: "first_revert outcome ts = None \<longleftrightarrow> (\<forall>t\<in>set ts. \<exists>data. outcome t = Returns data)"
  by (induction ts) (auto split: quote_outcome.splits)

lemma chunk_once_runs:
  assumes "runs_multicall N p b c outcome decoded" "ts \<noteq> []" "\<forall>t\<in>set ts. qt_raindex t = r"
  shows "fst (quote_chunk_once N p b c ts w) =
    (case first_revert outcome ts of
       None \<Rightarrow> Ok (map (alone N outcome decoded) ts)
     | Some data \<Rightarrow> Err (Chunk_Reverted (revert_failure decoded data)))"
proof -
  obtain first more where ts: "ts = first # more" "qt_raindex first = r" using assms(2,3) by (cases ts) auto
  note run = assms(1)[unfolded runs_multicall_def, THEN conjunct1, rule_format, of ts r w]
  note dec = assms(1)[unfolded runs_multicall_def, THEN conjunct2, rule_format]
  obtain x w1 where x: "qn_call N p rpc_attempt_timeout_ms (multicall_tx N ts r c) (quote_block b) w = (x, w1)"
    by fastforce
  show ?thesis
  proof (cases "first_revert outcome ts")
    case None
    then obtain response where resp: "x = Some (Ok response)"
      "qn_decode_multicall N response = Ok (map (return_data \<circ> outcome) ts)"
      using run assms(2,3) x by auto
    have "map (read_quote N) (map (return_data \<circ> outcome) ts) = map (alone N outcome decoded) ts"
      using None[unfolded first_revert_None] by (force simp: alone_def return_data_def)
    then show ?thesis using None resp x ts by (simp add: quote_chunk_once_def read_multicall_def)
  next
    case (Some data)
    then obtain message where "x = Some (Err (Error_Resp message (Some data)))" using run assms(2,3) x by auto
    then show ?thesis
      using Some x ts dec[of data w1]
      by (auto simp: quote_chunk_once_def revert_failure_def split: prod.splits result.splits)
  qed
qed

lemma calls_meet_alone:
  assumes "runs_multicall N p b c outcome decoded" "\<forall>t\<in>T. qt_raindex t = r"
  shows "calls_meet N p b c T (\<lambda>t x. x = alone N outcome decoded t) (\<lambda>_. False)"
  unfolding calls_meet_def
proof (intro allI impI)
  fix chunk w assume chunk: "chunk \<noteq> [] \<and> set chunk \<subseteq> T"
  then have once: "fst (quote_chunk_once N p b c chunk w) =
    (case first_revert outcome chunk of
       None \<Rightarrow> Ok (map (alone N outcome decoded) chunk)
     | Some data \<Rightarrow> Err (Chunk_Reverted (revert_failure decoded data)))"
    using chunk_once_runs[OF assms(1), of chunk r w] assms(2) by blast
  show "case fst (quote_chunk_once N p b c chunk w) of
      Ok results \<Rightarrow> list_all2 (\<lambda>t x. x = alone N outcome decoded t) chunk results
    | Err err \<Rightarrow> (if is_revert err
        then \<forall>t. chunk = [t] \<longrightarrow> chunk_err_to_quote_result err = alone N outcome decoded t else False)"
  proof (cases "first_revert outcome chunk")
    case None
    then show ?thesis using once by (simp add: list_all2_conv_all_nth)
  next
    case (Some data)
    then show ?thesis using once by (auto simp: is_revert_def alone_def split: quote_outcome.splits)
  qed
qed

lemma split_chunk_alone:
  assumes "runs_multicall N p b c outcome decoded" "ts \<noteq> []" "\<forall>t\<in>set ts. qt_raindex t = r"
  shows "fst (quote_chunk_with_probe_and_split N p b c ts w) = Ok (map (alone N outcome decoded) ts)"
  using split_chunk_meets[OF calls_meet_alone[OF assms(1,3)] assms(2), of w]
  by (auto simp: list_all2_conv_all_nth intro!: nth_equalityI split: result.splits)

lemma split_chunk_unreachable:
  assumes "unreachable N p b c" "ts \<noteq> []"
  shows "\<exists>e. fst (quote_chunk_with_probe_and_split N p b c ts w) = Err e"
proof -
  obtain first more where ts: "ts = first # more" using assms(2) by (cases ts) auto
  have "\<exists>e w1. quote_chunk_once N p b c ts w = (Err (Transport_Error e), w1)"
    using assms(1)[unfolded unreachable_def, rule_format, of ts "qt_raindex first" w] ts
    by (auto simp: quote_chunk_once_def split: prod.splits option.splits result.splits rpc_error.splits)
  then show ?thesis by (auto simp: quote_chunk_with_probe_and_split_def is_transport_def)
qed

lemma batch_answers_alone:
  assumes "connect_providers N rpcs = (providers, failures)"
    and "\<forall>(rpc, p)\<in>set providers. runs_multicall N p b c outcome decoded \<or> unreachable N p b c"
    and "\<exists>(rpc, p)\<in>set providers. runs_multicall N p b c outcome decoded"
  shows "\<exists>rs w1. batch_quote N ts rpcs b c cs w = (Ok rs, w1) \<and>
    list_all2 (\<lambda>t x. x = alone N outcome decoded t) ts rs"
proof -
  let ?good = "\<lambda>t x. x = alone N outcome decoded t"
  have "chunks_meet N providers b c {t \<in> set ts. qt_raindex t = r} ?good" for r
    unfolding chunks_meet_def
  proof (intro allI impI)
    fix chunk fs w assume chunk: "chunk \<noteq> [] \<and> set chunk \<subseteq> {t \<in> set ts. qt_raindex t = r}"
    then have r: "\<forall>t\<in>set chunk. qt_raindex t = r" by auto
    have run: "fst (quote_chunk_with_probe_and_split N p b c chunk w) = Ok (map (alone N outcome decoded) chunk)"
      if "runs_multicall N p b c outcome decoded" for p w
      using split_chunk_alone[OF that _ r] chunk by blast
    show "\<exists>rs. fst (try_providers N b c chunk providers fs w) = Ok rs \<and> list_all2 ?good chunk rs"
    proof (rule try_providers_meets)
      fix rpc p w assume "(rpc, p) \<in> set providers"
      then consider "runs_multicall N p b c outcome decoded" | "unreachable N p b c" using assms(2) by blast
      then show "case fst (quote_chunk_with_probe_and_split N p b c chunk w) of
          Ok rs \<Rightarrow> list_all2 ?good chunk rs | Err e \<Rightarrow> e \<noteq> Quote_Panicked"
      proof cases
        case 1
        then show ?thesis by (simp add: run list_all2_conv_all_nth)
      next
        case 2
        then show ?thesis
          using split_chunk_unreachable[OF 2, of chunk w] split_chunk_no_panic[of chunk N p b c w] chunk
          by auto
      qed
    next
      show "(\<forall>t m. ?good t (Err (Corrupt_Return_Data m))) \<or>
        (\<exists>(rpc, p)\<in>set providers. \<forall>w. is_ok (fst (quote_chunk_with_probe_and_split N p b c chunk w)))"
        using assms(3) run by fastforce
    qed
  qed
  then show ?thesis
    using batch_quote_meets[of N rpcs b c ts ?good cs w] assms(1,3) by (metis (no_types, lifting) empty_iff fst_conv list.set(1))
qed

text \<open>
  Claim C35: batching is transparent. When the RPCs that answer run the multicall of the raindex at the
  block, and at least one does, the results are those of quoting each target on its own, in the order
  of the targets: a target is not affected by others that revert, by the grouping, or by RPCs that are
  out of reach.
\<close>

theorem batch_quotes_as_if_alone:
  assumes "connect_providers N rpcs = (providers, failures)"
    and "\<forall>(rpc, p)\<in>set providers. runs_multicall N p b c outcome decoded \<or> unreachable N p b c"
    and "\<exists>(rpc, p)\<in>set providers. runs_multicall N p b c outcome decoded"
  shows "fst (batch_quote N ts rpcs b c cs w) = Ok (map (alone N outcome decoded) ts)"
proof -
  obtain rs w1 where "batch_quote N ts rpcs b c cs w = (Ok rs, w1)"
    "list_all2 (\<lambda>t x. x = alone N outcome decoded t) ts rs"
    using batch_answers_alone[OF assms] by blast
  then show ?thesis by (auto simp: list_all2_conv_all_nth intro!: nth_equalityI)
qed

section \<open>What the bisection costs\<close>

definition counts_calls :: "('f, 'w) quote_node \<Rightarrow> ('w \<Rightarrow> nat) \<Rightarrow> bool" where
  "counts_calls N calls \<longleftrightarrow>
     (\<forall>p t tx block w. calls (snd (qn_call N p t tx block w)) = Suc (calls w)) \<and>
     (\<forall>data w. calls (snd (qn_decode_revert N data w)) = calls w)"

lemma counts_callsD:
  assumes "counts_calls N calls"
  shows "qn_call N p t tx block w = (r, w1) \<Longrightarrow> calls w1 = Suc (calls w)"
    "qn_decode_revert N data w = (d, w1) \<Longrightarrow> calls w1 = calls w"
  using assms by (metis counts_calls_def snd_conv)+

lemma chunk_once_calls:
  assumes "counts_calls N calls" "quote_chunk_once N p b c ts w = (r, w1)" "ts \<noteq> []"
  shows "calls w1 = Suc (calls w)"
  using assms(2,3) counts_callsD(1)[OF assms(1)] counts_callsD(2)[OF assms(1)]
  by (auto simp: quote_chunk_once_def
      split: list.splits prod.splits option.splits result.splits rpc_error.splits)

lemma bisect_calls:
  assumes "counts_calls N calls" "\<forall>(a, b)\<in>set pending. a < b \<and> b \<le> length ts"
  shows "calls (snd (bisect N p bl c ts pending resolved w)) \<le> calls w + spans pending"
  using assms
proof (induction N p bl c ts pending resolved w rule: bisect.induct)
  case (2 N p bl c ts start stop pending resolved w)
  have range: "start < stop" "stop \<le> length ts" "\<forall>(a, b)\<in>set pending. a < b \<and> b \<le> length ts"
    using 2(5) by auto
  let ?chunk = "take (stop - start) (drop start ts)"
  have slice: "vec_slice ts start stop = Ok ?chunk" using range by (simp add: vec_slice_def)
  have len: "length ?chunk = stop - start" using range by simp
  then have ne: "?chunk \<noteq> []" using range by (metis length_0_conv zero_less_diff less_numeral_extra(3))
  obtain r w1 where once: "quote_chunk_once N p bl c ?chunk w = (r, w1)" by fastforce
  have calls: "calls w1 = Suc (calls w)" using chunk_once_calls[OF 2(4) once ne] .
  have one: "Suc (spans pending) \<le> spans ((start, stop) # pending)" using range by simp
  show ?case
  proof (cases r)
    case (Ok results)
    show ?thesis
    proof (cases "scatter (enumerate start results) resolved")
      case s: (Ok s)
      have "calls (snd (bisect N p bl c ts pending s w1)) \<le> calls w1 + spans pending"
        using 2(1)[OF slice once[symmetric] Ok s 2(4) range(3)] .
      then show ?thesis using slice once Ok s calls one by simp
    next
      case (Err e)
      then show ?thesis using slice once Ok calls one by simp
    qed
  next
    case (Err err)
    show ?thesis
    proof (cases "is_revert err")
      case False
      then show ?thesis using slice once Err calls one by simp
    next
      case True
      show ?thesis
      proof (cases "length ?chunk = 1")
        case single: True
        show ?thesis
        proof (cases "scatter [(start, chunk_err_to_quote_result err)] resolved")
          case s: (Ok s)
          have "calls (snd (bisect N p bl c ts pending s w1)) \<le> calls w1 + spans pending"
            using 2(2)[OF slice once[symmetric] Err _ single s 2(4) range(3)] True by simp
          moreover have "bisect N p bl c ts ((start, stop) # pending) resolved w = bisect N p bl c ts pending s w1"
            using slice once Err True single s by (simp del: scatter.simps)
          ultimately show ?thesis using calls one by simp
        next
          case e: (Err e)
          then have "bisect N p bl c ts ((start, stop) # pending) resolved w = (Err e, w1)"
            using slice once Err True single by (simp del: scatter.simps)
          then show ?thesis using calls one by simp
        qed
      next
        case several: False
        define h where "h = length ?chunk div 2"
        have h: "1 \<le> h" "start + h < stop" using several range len by (auto simp: h_def)
        have "\<forall>(a, b)\<in>set ((start, start + h) # (start + h, stop) # pending). a < b \<and> b \<le> length ts"
          using h range by auto
        then have ih: "calls (snd (bisect N p bl c ts ((start, start + h) # (start + h, stop) # pending) resolved w1)) \<le>
            calls w1 + spans ((start, start + h) # (start + h, stop) # pending)"
          using 2(3)[OF slice once[symmetric] Err _ several 2(4)] True unfolding h_def[symmetric] by blast
        have "bisect N p bl c ts ((start, stop) # pending) resolved w =
            bisect N p bl c ts ((start, start + h) # (start + h, stop) # pending) resolved w1"
          using slice once Err True several unfolding h_def
          by (simp del: bisect.simps add: bisect.simps(2)[of N p bl c ts start stop])
        moreover have "spans ((start, start + h) # (start + h, stop) # pending) < spans ((start, stop) # pending)"
          using h by (simp; linarith)
        moreover have "x \<le> c1 + s1 \<Longrightarrow> c1 = Suc c0 \<Longrightarrow> s1 < s0 \<Longrightarrow> x \<le> c0 + s0" for x c0 c1 s0 s1 :: nat by simp
        ultimately show ?thesis using ih calls by metis
      qed
    qed
  qed
qed simp

text \<open>
  Claim C37: bounds on the calls of a chunk. Whatever the RPC answers, a chunk of \<open>n\<close> targets costs at
  most \<open>2 * n\<close> calls, so that the bisection ends.
\<close>

theorem chunk_calls_bounded:
  assumes "counts_calls N calls" "ts \<noteq> []"
  shows "calls (snd (quote_chunk_with_probe_and_split N p b c ts w)) \<le> calls w + 2 * length ts"
proof -
  obtain r w1 where once: "quote_chunk_once N p b c ts w = (r, w1)" by fastforce
  have calls: "calls w1 = Suc (calls w)" using chunk_once_calls[OF assms(1) once assms(2)] .
  have "calls (snd (bisect N p b c ts [(0, length ts)] (replicate (length ts) None) w1)) \<le>
      calls w1 + spans [(0, length ts)]"
    using assms(2) by (intro bisect_calls[OF assms(1)]) auto
  moreover have "0 < length ts" using assms(2) by simp
  ultimately have b: "calls (snd (bisect N p b c ts [(0, length ts)] (replicate (length ts) None) w1)) \<le>
      calls w + 2 * length ts"
    using calls by simp
  show ?thesis
  proof (cases "\<exists>err. r = Err err \<and> \<not> is_transport err \<and> 1 < length ts \<and> is_revert err")
    case True
    then have "snd (quote_chunk_with_probe_and_split N p b c ts w) =
        snd (bisect N p b c ts [(0, length ts)] (replicate (length ts) None) w1)"
      using once by (auto simp: quote_chunk_with_probe_and_split_def simp del: bisect.simps split: prod.splits result.splits)
    then show ?thesis using b by simp
  next
    case False
    then have "snd (quote_chunk_with_probe_and_split N p b c ts w) = w1"
      using once by (cases r) (auto simp: quote_chunk_with_probe_and_split_def simp del: bisect.simps)
    then show ?thesis using calls assms(2) by (cases ts) simp_all
  qed
qed

text \<open>
  A comment in the code says that isolating a single reverting target costs \<open>log2(chunk_size)\<close> calls. The
  count is \<open>2 * log2(chunk_size) + 2\<close>: both halves are called at every level, and the whole chunk is called
  twice, since the bisection starts with it again.
\<close>

lemma clean_span_calls:
  assumes "runs_multicall N p b c outcome decoded" "counts_calls N calls" "\<forall>t\<in>set ts. qt_raindex t = r"
    and "a < z" "z \<le> length ts" "length resolved = length ts"
    and "\<forall>i. a \<le> i \<and> i < z \<longrightarrow> (\<exists>data. outcome (ts ! i) = Returns data)"
  shows "\<exists>s w1. bisect N p b c ts ((a, z) # pending) resolved w = bisect N p b c ts pending s w1 \<and>
    length s = length ts \<and> calls w1 = calls w + 1"
proof -
  let ?chunk = "take (z - a) (drop a ts)"
  have slice: "vec_slice ts a z = Ok ?chunk" using assms(4,5) by (simp add: vec_slice_def)
  have chunk: "length ?chunk = z - a" "?chunk \<noteq> []" "\<forall>t\<in>set ?chunk. qt_raindex t = r"
    using assms(3,4,5) by (auto dest: in_set_takeD in_set_dropD)
  have "first_revert outcome ?chunk = None"
    unfolding first_revert_None using assms(4,5,7) chunk(1)
    by (auto simp: in_set_conv_nth)
  then obtain w1 where once: "quote_chunk_once N p b c ?chunk w = (Ok (map (alone N outcome decoded) ?chunk), w1)"
    using chunk_once_runs[OF assms(1) chunk(2,3), of w] by (metis (no_types, lifting) option.case(1) prod.collapse)
  let ?ps = "enumerate a (map (alone N outcome decoded) ?chunk)"
  have "\<forall>(i, x)\<in>set ?ps. i < length resolved \<and> True" using chunk(1) assms(4-6) by (intro enumerate_range) simp
  from scatter_values[OF this]
  obtain s where s: "scatter (enumerate a (map (alone N outcome decoded) ?chunk)) resolved = Ok s" "length s = length ts"
    using assms(6) by auto
  show ?thesis using slice once s chunk_once_calls[OF assms(2) once chunk(2)] by auto
qed

lemma lone_revert_span:
  assumes "runs_multicall N p b c outcome decoded" "counts_calls N calls" "\<forall>t\<in>set ts. qt_raindex t = r"
  shows "a + 2 ^ k \<le> length ts \<Longrightarrow> length resolved = length ts \<Longrightarrow> a \<le> j \<Longrightarrow> j < a + 2 ^ k \<Longrightarrow>
    outcome (ts ! j) = Reverts data \<Longrightarrow>
    (\<forall>i. a \<le> i \<and> i < a + 2 ^ k \<and> i \<noteq> j \<longrightarrow> (\<exists>d. outcome (ts ! i) = Returns d)) \<Longrightarrow>
    \<exists>s w1. bisect N p b c ts ((a, a + 2 ^ k) # pending) resolved w = bisect N p b c ts pending s w1 \<and>
      length s = length ts \<and> calls w1 = calls w + 2 * k + 1"
proof (induction k arbitrary: a resolved pending w)
  case (0 a resolved pending w)
  let ?chunk = "[ts ! j]"
  have j: "j = a" using 0 by simp
  have slice: "vec_slice ts a (a + 1) = Ok ?chunk" using 0 j by (simp add: vec_slice_def take_Suc_conv_app_nth Cons_nth_drop_Suc[symmetric])
  have rx: "\<forall>t\<in>set ?chunk. qt_raindex t = r" using 0 assms(3) by auto
  obtain w1 where once: "quote_chunk_once N p b c ?chunk w = (Err (Chunk_Reverted (revert_failure decoded data)), w1)"
    using chunk_once_runs[OF assms(1) _ rx, of w] 0(5) by (metis (no_types, lifting) first_revert.simps(2) list.distinct(1) option.case(2) prod.collapse quote_outcome.case(2))
  show ?case
    using slice once chunk_once_calls[OF assms(2) once] 0
    by (intro exI[of _ "resolved[a := Some (chunk_err_to_quote_result (Chunk_Reverted (revert_failure decoded data)))]"]
        exI[of _ w1]) (simp add: is_revert_def)
next
  case (Suc k a resolved pending w)
  let ?chunk = "take (2 ^ Suc k) (drop a ts)"
  let ?mid = "a + 2 ^ k"
  have slice: "vec_slice ts a (a + 2 ^ Suc k) = Ok ?chunk" using Suc.prems by (simp add: vec_slice_def)
  have chunk: "length ?chunk = 2 ^ Suc k" "?chunk \<noteq> []" "\<forall>t\<in>set ?chunk. qt_raindex t = r"
    using Suc.prems assms(3) by (auto dest: in_set_takeD in_set_dropD)
  have "ts ! j \<in> set ?chunk"
    using Suc.prems by (auto simp: in_set_conv_nth intro!: exI[of _ "j - a"])
  then have "first_revert outcome ?chunk \<noteq> None" unfolding first_revert_None using Suc.prems(5) by force
  then obtain e w1 where once: "quote_chunk_once N p b c ?chunk w = (Err (Chunk_Reverted e), w1)"
    using chunk_once_runs[OF assms(1) chunk(2,3), of w] by (cases "quote_chunk_once N p b c ?chunk w") auto
  have calls: "calls w1 = calls w + 1" using chunk_once_calls[OF assms(2) once chunk(2)] by simp
  have split: "bisect N p b c ts ((a, a + 2 ^ Suc k) # pending) resolved w =
      bisect N p b c ts ((a, ?mid) # (?mid, a + 2 ^ Suc k) # pending) resolved w1"
    using slice once chunk(1) by (subst bisect.simps(2)) (simp add: is_revert_def del: bisect.simps)
  have stop: "a + 2 ^ Suc k = ?mid + 2 ^ k" by simp
  show ?case
  proof (cases "j < ?mid")
    case True
    have "\<exists>s w2. bisect N p b c ts ((a, ?mid) # (?mid, a + 2 ^ Suc k) # pending) resolved w1 =
        bisect N p b c ts ((?mid, a + 2 ^ Suc k) # pending) s w2 \<and> length s = length ts \<and> calls w2 = calls w1 + 2 * k + 1"
      using Suc.prems True by (intro Suc.IH) auto
    then obtain s w2 where left: "bisect N p b c ts ((a, ?mid) # (?mid, a + 2 ^ Suc k) # pending) resolved w1 =
        bisect N p b c ts ((?mid, a + 2 ^ Suc k) # pending) s w2" "length s = length ts" "calls w2 = calls w1 + 2 * k + 1"
      by blast
    have "\<exists>s' w3. bisect N p b c ts ((?mid, a + 2 ^ Suc k) # pending) s w2 = bisect N p b c ts pending s' w3 \<and>
        length s' = length ts \<and> calls w3 = calls w2 + 1"
      using Suc.prems True left(2) by (intro clean_span_calls[OF assms]) auto
    then show ?thesis using split left calls by auto
  next
    case False
    have "\<exists>s w2. bisect N p b c ts ((a, ?mid) # (?mid, a + 2 ^ Suc k) # pending) resolved w1 =
        bisect N p b c ts ((?mid, a + 2 ^ Suc k) # pending) s w2 \<and> length s = length ts \<and> calls w2 = calls w1 + 1"
      using Suc.prems False by (intro clean_span_calls[OF assms]) auto
    then obtain s w2 where left: "bisect N p b c ts ((a, ?mid) # (?mid, a + 2 ^ Suc k) # pending) resolved w1 =
        bisect N p b c ts ((?mid, a + 2 ^ Suc k) # pending) s w2" "length s = length ts" "calls w2 = calls w1 + 1"
      by blast
    have "\<exists>s' w3. bisect N p b c ts ((?mid, ?mid + 2 ^ k) # pending) s w2 = bisect N p b c ts pending s' w3 \<and>
        length s' = length ts \<and> calls w3 = calls w2 + 2 * k + 1"
      using Suc.prems False left(2) by (intro Suc.IH) auto
    then show ?thesis using split left calls unfolding stop by auto
  qed
qed

lemma lone_revert_calls:
  assumes "runs_multicall N p b c outcome decoded" "counts_calls N calls" "\<forall>t\<in>set ts. qt_raindex t = r"
    and "length ts = 2 ^ k" "0 < k" "j < length ts" "outcome (ts ! j) = Reverts data"
    and "\<forall>i<length ts. i \<noteq> j \<longrightarrow> (\<exists>d. outcome (ts ! i) = Returns d)"
  shows "calls (snd (quote_chunk_with_probe_and_split N p b c ts w)) = calls w + 2 * k + 2"
proof -
  have ne: "ts \<noteq> []" using assms(6) by auto
  have "first_revert outcome ts \<noteq> None" unfolding first_revert_None using assms(6,7) by (metis nth_mem quote_outcome.distinct(1))
  then obtain e w1 where once: "quote_chunk_once N p b c ts w = (Err (Chunk_Reverted e), w1)"
    using chunk_once_runs[OF assms(1) ne assms(3), of w] by (cases "quote_chunk_once N p b c ts w") auto
  have calls: "calls w1 = calls w + 1" using chunk_once_calls[OF assms(2) once ne] by simp
  have "\<exists>s w2. bisect N p b c ts ((0, 0 + 2 ^ k) # []) (replicate (length ts) None) w1 = bisect N p b c ts [] s w2 \<and>
      length s = length ts \<and> calls w2 = calls w1 + 2 * k + 1"
    using assms(4,6,7,8) by (intro lone_revert_span[OF assms(1-3)]) auto
  then obtain s w2 where b: "bisect N p b c ts [(0, length ts)] (replicate (length ts) None) w1 = (Ok s, w2)"
    "calls w2 = calls w1 + 2 * k + 1"
    using assms(4) by (auto simp del: bisect.simps(2))
  have "\<not> length ts \<le> 1" using self_le_power[of "2 :: nat" k] assms(4,5) by simp
  then have "snd (quote_chunk_with_probe_and_split N p b c ts w) = w2"
    using once b(1) by (simp add: quote_chunk_with_probe_and_split_def is_transport_def is_revert_def del: bisect.simps)
  then show ?thesis using b(2) calls by simp
qed

section \<open>An example\<close>

text \<open>
  A node that counts its calls. A target is the byte of its input index; the target of byte 0 reverts, the
  others return their byte.
\<close>

definition example_byte :: "quote_v3 \<Rightarrow> 8 word" where
  "example_byte q = ucast (qc_input_io_index q)"

definition example_node :: "(int, nat) quote_node" where
  "example_node = \<lparr>
     qn_encode_quote3 = (\<lambda>q. [example_byte q]), qn_encode_multicall = concat,
     qn_decode_multicall = (\<lambda>response. Ok (map (\<lambda>x. [x]) response)),
     qn_decode_quote3 = (\<lambda>element. case element of
        [x] \<Rightarrow> Ok \<lparr>qr_exists = True, qr_output_max = ucast x, qr_io_ratio = 1\<rparr> | _ \<Rightarrow> Err ''length''),
     qn_from_raw = uint, qn_parse_url = Ok,
     qn_call = (\<lambda>p t tx block n.
        (Some (if 0 \<in> set (tx_input tx) then Err (Error_Resp ''reverted'' (Some [0])) else Ok (tx_input tx)), Suc n)),
     qn_decode_revert = (\<lambda>data n. (Ok ''stale price'', n)),
     qn_block_number = (\<lambda>p t n. (Some (Ok 1), n)) \<rparr>"

definition example_quote_outcome :: "quote_target \<Rightarrow> quote_outcome" where
  "example_quote_outcome t = (let x = example_byte (qt_quote_config t) in if x = 0 then Reverts [0] else Returns [x])"

definition example_quote_order :: order_v4 where
  "example_quote_order = \<lparr>order_owner = 1,
     order_evaluable = \<lparr>ev_interpreter = 1, ev_store = 1, ev_bytecode = []\<rparr>,
     valid_inputs = [], valid_outputs = [], order_nonce = 0\<rparr>"

definition example_target :: "address \<Rightarrow> u256 \<Rightarrow> quote_target" where
  "example_target raindex i = \<lparr>qt_quote_config = \<lparr>qc_order = example_quote_order, qc_input_io_index = i,
     qc_output_io_index = 0, qc_signed_context = []\<rparr>, qt_raindex = raindex\<rparr>"

lemma example_revert: "first_revert example_quote_outcome ts =
    (if 0 \<in> example_byte ` qt_quote_config ` set ts then Some [0] else None)"
  by (induction ts) (auto simp: example_quote_outcome_def Let_def)

lemma example_runs: "runs_multicall example_node p b c example_quote_outcome (\<lambda>_. Ok ''stale price'')"
proof -
  have "example_byte (qt_quote_config t) \<noteq> 0 \<Longrightarrow>
      return_data (example_quote_outcome t) = [example_byte (qt_quote_config t)]" for t
    by (simp add: return_data_def example_quote_outcome_def Let_def)
  then show ?thesis
    by (fastforce simp: runs_multicall_def example_revert example_node_def multicall_tx_def image_iff)
qed

lemma example_counts: "counts_calls example_node (\<lambda>n. n)"
  by (simp add: counts_calls_def example_node_def)

theorem batch_quotes_as_if_alone_witness:
  "fst (batch_quote example_node [example_target 5 3, example_target 5 0, example_target 6 4]
     [''http://rpc''] (Some 9) 7 None 0) =
   Ok [Ok \<lparr>oqv_max_output = 3, oqv_ratio = 1\<rparr>, Err (Revert_Error ''stale price''),
       Ok \<lparr>oqv_max_output = 4, oqv_ratio = 1\<rparr>]"
proof -
  have "connect_providers example_node [''http://rpc''] = ([(''http://rpc'', [''http://rpc''])], [])"
    by (simp add: example_node_def mk_read_provider_def)
  from batch_quotes_as_if_alone[OF this, of "Some 9" 7 example_quote_outcome "\<lambda>_. Ok ''stale price''"
      "[example_target 5 3, example_target 5 0, example_target 6 4]" None 0]
  show ?thesis
    by (simp add: example_runs)
      (simp add: alone_def example_quote_outcome_def example_byte_def example_target_def Let_def
        read_quote_def example_node_def chunk_err_to_quote_result_def revert_failure_def)
qed

theorem chunk_calls_bounded_witness:
  "snd (quote_chunk_with_probe_and_split example_node [''http://rpc''] None 7 [example_target 5 3, example_target 5 0] 0) \<le> 4"
  using chunk_calls_bounded[OF example_counts, of "[example_target 5 3, example_target 5 0]" "[''http://rpc'']" None 7 0]
  by simp

end
