(* ===== verification/Quote_Oracle.thy ===== *)
theory Quote_Oracle
  imports Quote_Rpc
begin

text \<open>
  \<open>quote/src/oracle.rs\<close>: the signed contexts that the oracle of an order supplies over HTTP.

  The requests of a caller run concurrently under two limits. \<open>collect_bounded\<close>, the caller's own, is the
  step relation \<open>collect_step\<close>: any request in flight may finish next. The limit of an origin is a
  semaphore that all clients of the process share while one of them holds it: \<open>semaphore_step\<close>.

  The fields of \<open>oracle_http\<close> are the code outside the repository: URL parsing, the HTTP client with the
  deserialisation of its responses, the ABI and the CBOR coders. A request of several pairs is run by
  \<open>fetch_signed_context_batches\<close> as if one after another; \<open>collected_in_order\<close> shows that the results
  come in the order of the requests whichever finish first.
\<close>

section \<open>Data\<close>

definition oracle_request_concurrency_limit :: nat where
  "oracle_request_concurrency_limit = 8"

datatype oracle_error =
    Request_Failed string ext_error
  | Client_Build_Failed ext_error
  | Invalid_Url string
  | Invalid_Response string

definition show_oracle_error :: "oracle_error \<Rightarrow> string" where
  "show_oracle_error error = (case error of
     Request_Failed endpoint source \<Rightarrow> ''HTTP request to '' @ endpoint @ '' failed: '' @ source
   | Client_Build_Failed e \<Rightarrow> ''Failed to build oracle HTTP client: '' @ e
   | Invalid_Url e \<Rightarrow> ''Invalid oracle URL: '' @ e
   | Invalid_Response e \<Rightarrow> ''Invalid oracle response: '' @ e)"

record oracle_response =
  or_signer :: address
  or_domain_separator :: b256
  or_context :: "b256 list"
  or_signature :: bytes

record oracle_batch_item_error =
  oie_error :: string
  oie_detail :: string

definition show_item_error :: "oracle_batch_item_error \<Rightarrow> string" where
  "show_item_error e = oie_error e @ '': '' @ oie_detail e"

datatype oracle_batch_item_response = Item_Ok oracle_response | Item_Error oracle_batch_item_error

datatype oracle_batch_response =
    Envelope "oracle_batch_item_response list"
  | Legacy "oracle_response list"

definition context_of_response :: "oracle_response \<Rightarrow> signed_context_v2" where
  "context_of_response resp = \<lparr>sc_signer = or_signer resp, sc_domain_separator = or_domain_separator resp,
     sc_context = or_context resp, sc_signature = or_signature resp\<rparr>"

type_synonym oracle_item_result = "(signed_context_v2, oracle_batch_item_error) result"

record oracle_batch_request =
  obr_url :: string
  obr_body :: bytes
  obr_expected_count :: nat

record ('u, 'w) oracle_http =
  oh_parse_url :: "string \<Rightarrow> ('u, ext_error) result"
  oh_scheme :: "'u \<Rightarrow> string"
  oh_origin :: "'u \<Rightarrow> string"
  oh_sanitized_endpoint :: "'u \<Rightarrow> string"
  oh_append_pair :: "'u \<Rightarrow> string \<Rightarrow> string \<Rightarrow> 'u"
  oh_client :: "(unit, ext_error) result"
  oh_post :: "'u \<Rightarrow> bytes \<Rightarrow> (oracle_response list, ext_error, 'w) io"
  oh_post_batch :: "'u \<Rightarrow> bytes \<Rightarrow> (oracle_batch_response, ext_error, 'w) io"
  oh_encode :: "order_v4 \<times> u256 \<times> u256 \<times> address \<Rightarrow> bytes"
  oh_encode_batch :: "(order_v4 \<times> u256 \<times> u256 \<times> address) list \<Rightarrow> bytes"
  oh_hex_decode :: "string \<Rightarrow> (bytes, ext_error) result"
  oh_oracle_of_meta :: "bytes \<Rightarrow> string option"

section \<open>Requests\<close>

definition validate_oracle_url :: "('u, 'w) oracle_http \<Rightarrow> string \<Rightarrow> ('u, oracle_error) result" where
  "validate_oracle_url H url =
     rbind (map_err (\<lambda>e. Invalid_Url (''Cannot parse URL: '' @ e)) (oh_parse_url H url)) (\<lambda>parsed.
     if oh_scheme H parsed = ''http'' \<or> oh_scheme H parsed = ''https'' then Ok parsed
     else Err (Invalid_Url (''Unsupported scheme '' @ [CHR 0x27] @ oh_scheme H parsed @ [CHR 0x27] @
            '', only http and https are allowed'')))"

definition fetch_signed_context ::
  "('u, 'w) oracle_http \<Rightarrow> string \<Rightarrow> bytes \<Rightarrow> (signed_context_v2, oracle_error, 'w) io" where
  "fetch_signed_context H url body =
     io_bind (io_pure (validate_oracle_url H url)) (\<lambda>url.
     io_bind (io_map_err (Request_Failed (oh_sanitized_endpoint H url)) (oh_post H url body)) (\<lambda>response.
     case response of
       [r] \<Rightarrow> io_return (context_of_response r)
     | _ \<Rightarrow> io_fail (Invalid_Response (''Expected 1 response, got '' @ show_nat (length response)))))"

definition fetch_signed_context_batch ::
  "('u, 'w) oracle_http \<Rightarrow> string \<Rightarrow> bytes \<Rightarrow> nat \<Rightarrow> (signed_context_v2 list, oracle_error, 'w) io" where
  "fetch_signed_context_batch H url body expected_count =
     io_bind (io_pure (validate_oracle_url H url)) (\<lambda>url.
     io_bind (io_map_err (Request_Failed (oh_sanitized_endpoint H url)) (oh_post H url body)) (\<lambda>response.
     if length response \<noteq> expected_count then
       io_fail (Invalid_Response (''Expected '' @ show_nat expected_count @ '' oracle responses, got '' @
         show_nat (length response)))
     else io_return (map context_of_response response)))"

definition batch_items :: "oracle_batch_response \<Rightarrow> oracle_item_result list" where
  "batch_items response = (case response of
     Envelope items \<Rightarrow>
       map (\<lambda>item. case item of Item_Ok r \<Rightarrow> Ok (context_of_response r) | Item_Error e \<Rightarrow> Err e) items
   | Legacy items \<Rightarrow> map (\<lambda>item. Ok (context_of_response item)) items)"

definition fetch_signed_context_batch_allow_failure ::
  "('u, 'w) oracle_http \<Rightarrow> string \<Rightarrow> bytes \<Rightarrow> nat \<Rightarrow> (oracle_item_result list, oracle_error, 'w) io" where
  "fetch_signed_context_batch_allow_failure H url body expected_count =
     io_bind (io_pure (validate_oracle_url H url)) (\<lambda>url.
     let url = oh_append_pair H url ''allowFailure'' ''true'' in
     io_bind (io_map_err (Request_Failed (oh_sanitized_endpoint H url)) (oh_post_batch H url body)) (\<lambda>response.
     let items = batch_items response in
     if length items \<noteq> expected_count then
       io_fail (Invalid_Response (''Expected '' @ show_nat expected_count @ '' oracle batch item responses, got '' @
         show_nat (length items)))
     else io_return items))"

definition fetch_signed_context_batches ::
  "('u, 'w) oracle_http \<Rightarrow> oracle_batch_request list
   \<Rightarrow> 'w \<Rightarrow> (oracle_item_result list, oracle_error) result list \<times> 'w" where
  "fetch_signed_context_batches H requests =
     io_map_all (\<lambda>request. fetch_signed_context_batch_allow_failure H (obr_url request) (obr_body request)
       (obr_expected_count request)) requests"

definition encode_oracle_body ::
  "('u, 'w) oracle_http \<Rightarrow> order_v4 \<Rightarrow> u32 \<Rightarrow> u32 \<Rightarrow> address \<Rightarrow> bytes" where
  "encode_oracle_body H order input_io_index output_io_index counterparty =
     oh_encode H (order, ucast input_io_index, ucast output_io_index, counterparty)"

definition encode_oracle_body_batch ::
  "('u, 'w) oracle_http \<Rightarrow> (order_v4 \<times> u32 \<times> u32 \<times> address) list \<Rightarrow> bytes" where
  "encode_oracle_body_batch H requests =
     oh_encode_batch H (map (\<lambda>(order, i, j, counterparty). (order, ucast i, ucast j, counterparty)) requests)"

definition extract_oracle_url :: "('u, 'w) oracle_http \<Rightarrow> string option \<Rightarrow> string option" where
  \<comment> \<open>of the meta bytes of an order; the errors of the decoders are ignored\<close>
  "extract_oracle_url H meta =
     Option.bind meta (\<lambda>m. case oh_hex_decode H m of Ok decoded \<Rightarrow> oh_oracle_of_meta H decoded | Err _ \<Rightarrow> None)"

lemma batch_allow_failure_length:
  "fetch_signed_context_batch_allow_failure H url body n w = (Ok items, w1) \<Longrightarrow> length items = n"
  by (auto simp: fetch_signed_context_batch_allow_failure_def Let_def ok_iff split: if_splits)

section \<open>Requests in flight\<close>

text \<open>
  \<open>collect_bounded(futures, limit)\<close>: the state is what is pending, in flight and finished, each entry with
  the position of its request and what the request comes to.
\<close>

type_synonym 'a collecting = "(nat \<times> 'a) list \<times> (nat \<times> 'a) list \<times> (nat \<times> 'a) list"

definition collect_start :: "nat \<Rightarrow> 'a list \<Rightarrow> 'a collecting" where
  "collect_start limit futures =
     (drop limit (enumerate 0 futures), take limit (enumerate 0 futures), [])"

inductive collect_step :: "'a collecting \<Rightarrow> 'a collecting \<Rightarrow> bool" where
  next_started: "collect_step (p # pending, flight1 @ x # flight2, results)
     (pending, flight1 @ flight2 @ [p], results @ [x])"
| last_started: "collect_step ([], flight1 @ x # flight2, results) ([], flight1 @ flight2, results @ [x])"

inductive_cases collect_step_cases: "collect_step s s'"

definition collect_result :: "'a collecting \<Rightarrow> 'a list" where
  "collect_result s = (case s of (_, _, results) \<Rightarrow> map snd (sort_key fst results))"

fun collecting_inv :: "nat \<Rightarrow> 'a list \<Rightarrow> 'a collecting \<Rightarrow> bool" where
  "collecting_inv limit futures (pending, flight, results) \<longleftrightarrow>
     mset (pending @ flight @ results) = mset (enumerate 0 futures) \<and> length flight \<le> limit \<and>
     (pending \<noteq> [] \<longrightarrow> length flight = limit)"

lemma collecting_inv_start: "collecting_inv limit futures (collect_start limit futures)"
proof -
  let ?xs = "enumerate 0 futures"
  have "mset (drop limit ?xs @ take limit ?xs) = mset ?xs"
    by (metis append_take_drop_id mset_append union_commute)
  then show ?thesis by (auto simp: collect_start_def)
qed

lemma collecting_inv_step: "collect_step s s' \<Longrightarrow> collecting_inv limit futures s \<Longrightarrow> collecting_inv limit futures s'"
  by (induction rule: collect_step.induct) auto

lemma collecting_inv_reachable:
  "collect_step\<^sup>*\<^sup>* (collect_start limit futures) s \<Longrightarrow> collecting_inv limit futures s"
  by (induction rule: rtranclp_induct) (auto intro: collecting_inv_start collecting_inv_step)

lemma sort_key_enumerate: "sort_key fst (enumerate n xs) = enumerate n xs"
  by (rule sort_key_id_if_sorted) (simp add: enumerate_eq_zip)

lemma sort_key_fst_unique:
  fixes xs ys :: "(nat \<times> 'a) list"
  assumes "mset xs = mset ys" "distinct (map fst ys)"
  shows "sort_key fst xs = sort_key fst ys"
proof (rule map_sorted_distinct_set_unique[of fst])
  have "distinct (map fst xs)" using assms by (metis mset_map mset_eq_imp_distinct_iff)
  then show "distinct (map fst (sort_key fst xs))" by (metis distinct_sort distinct_map set_sort)
  show "distinct (map fst (sort_key fst ys))" using assms(2) by (metis distinct_sort distinct_map set_sort)
  show "set (sort_key fst xs) = set (sort_key fst ys)" using assms(1) by (metis set_mset_mset set_sort)
  show "inj_on fst (set (sort_key fst xs) \<union> set (sort_key fst ys))"
    using assms by (metis distinct_map set_mset_mset set_sort sup.idem)
qed simp_all

text \<open>
  Claim C38: concurrent requests are collected in the order they were given, whichever finish first, and
  no more than the limit are in flight at any time; a state with nothing in flight has collected them
  all.
\<close>

theorem collected_in_order:
  assumes "0 < limit" "collect_step\<^sup>*\<^sup>* (collect_start limit futures) (pending, flight, results)"
  shows "length flight \<le> limit \<and>
    (if flight = [] then collect_result (pending, flight, results) = futures
     else \<exists>s. collect_step (pending, flight, results) s)"
proof -
  have inv: "collecting_inv limit futures (pending, flight, results)" using collecting_inv_reachable[OF assms(2)] .
  have "collect_result (pending, flight, results) = futures" if "flight = []"
  proof -
    have "pending = []" using inv assms(1) that by auto
    then have "mset results = mset (enumerate 0 futures)" using inv that by simp
    then have "sort_key fst results = enumerate 0 futures"
      using sort_key_fst_unique[of results "enumerate 0 futures"] sort_key_enumerate[of 0 futures]
      by (simp add: enumerate_eq_zip)
    then show ?thesis by (simp add: collect_result_def enumerate_eq_zip)
  qed
  moreover have "\<exists>s. collect_step (pending, flight, results) s" if ne: "flight \<noteq> []"
  proof -
    obtain x rest where "flight = [] @ x # rest" using ne by (cases flight) auto
    then show ?thesis by (cases pending) (metis collect_step.intros)+
  qed
  ultimately show ?thesis using inv by simp
qed

theorem collected_in_order_witness:
  "collect_result ([], [], [(1, ''b''), (2, ''c''), (0, ''a'')]) = [''a'', ''b'', ''c'']"
proof -
  let ?x = "\<lambda>i. (i, [''a'', ''b'', ''c''] ! i)"
  have "collect_step ([?x 2], [?x 0] @ ?x 1 # [], []) ([], [?x 0] @ [] @ [?x 2], [] @ [?x 1])"
    by (rule next_started)
  moreover have "collect_step ([], [?x 0] @ ?x 2 # [], [?x 1]) ([], [?x 0] @ [], [?x 1] @ [?x 2])"
    by (rule last_started)
  moreover have "collect_step ([], [] @ ?x 0 # [], [?x 1, ?x 2]) ([], [] @ [], [?x 1, ?x 2] @ [?x 0])"
    by (rule last_started)
  moreover have "collect_start 2 [''a'', ''b'', ''c''] = ([?x 2], [?x 0, ?x 1], [])"
    by (simp add: collect_start_def)
  ultimately have "collect_step\<^sup>*\<^sup>* (collect_start 2 [''a'', ''b'', ''c'']) ([], [], [(1, ''b''), (2, ''c''), (0, ''a'')])"
    by (simp add: numeral_2_eq_2)
  from collected_in_order[OF _ this] show ?thesis by simp
qed

section \<open>The semaphore of an origin\<close>

text \<open>
  The map from origins to semaphores holds weak references: a semaphore lives as long as a request
  holds it. A state has the map, the semaphores held, each with its origin, and the next fresh
  semaphore.
\<close>

record semaphores =
  sm_map :: "string \<Rightarrow> nat option"
  sm_held :: "(string \<times> nat) multiset"
  sm_next :: nat

definition semaphores_new :: semaphores where
  "semaphores_new = \<lparr>sm_map = (\<lambda>_. None), sm_held = {#}, sm_next = 0\<rparr>"

definition strong_count :: "semaphores \<Rightarrow> nat \<Rightarrow> nat" where
  "strong_count s i = size (filter_mset (\<lambda>h. snd h = i) (sm_held s))"

definition request_semaphore :: "string \<Rightarrow> semaphores \<Rightarrow> nat \<times> semaphores" where
  "request_semaphore origin s =
     (let kept = (\<lambda>k. case sm_map s k of Some i \<Rightarrow> if 0 < strong_count s i then Some i else None | None \<Rightarrow> None) in
      case kept origin of
        Some i \<Rightarrow> (i, s\<lparr>sm_map := kept, sm_held := add_mset (origin, i) (sm_held s)\<rparr>)
      | None \<Rightarrow> (sm_next s, s\<lparr>sm_map := kept(origin \<mapsto> sm_next s),
          sm_held := add_mset (origin, sm_next s) (sm_held s), sm_next := Suc (sm_next s)\<rparr>))"

inductive semaphore_step :: "semaphores \<Rightarrow> semaphores \<Rightarrow> bool" where
  requested: "semaphore_step s (snd (request_semaphore origin s))"
| dropped: "h \<in># sm_held s \<Longrightarrow> semaphore_step s (s\<lparr>sm_held := sm_held s - {#h#}\<rparr>)"

definition semaphores_inv :: "semaphores \<Rightarrow> bool" where
  "semaphores_inv s \<longleftrightarrow>
     (\<forall>(origin, i)\<in>#sm_held s. sm_map s origin = Some i) \<and>
     (\<forall>origin i. sm_map s origin = Some i \<longrightarrow> i < sm_next s) \<and>
     (\<forall>o1 o2 i. sm_map s o1 = Some i \<longrightarrow> sm_map s o2 = Some i \<longrightarrow> o1 = o2)"

lemma strong_count_held: "(origin, i) \<in># sm_held s \<Longrightarrow> 0 < strong_count s i"
  unfolding strong_count_def by (metis (mono_tags, lifting) filter_mset_eq_conv multi_member_split
    nonempty_has_size set_mset_filter snd_conv mem_Collect_eq empty_iff set_mset_empty)

lemma semaphores_inv_step:
  assumes "semaphore_step s s'" "semaphores_inv s"
  shows "semaphores_inv s'"
  using assms
proof (induction rule: semaphore_step.induct)
  case (requested s origin)
  let ?kept = "\<lambda>k. case sm_map s k of Some i \<Rightarrow> if 0 < strong_count s i then Some i else None | None \<Rightarrow> None"
  have kept: "?kept k = Some i \<Longrightarrow> sm_map s k = Some i" for k i by (auto split: option.splits if_splits)
  have held: "(k, i) \<in># sm_held s \<Longrightarrow> ?kept k = Some i" for k i
    using requested strong_count_held[of k i s] by (fastforce simp: semaphores_inv_def)
  have bound: "sm_map s k = Some i \<Longrightarrow> i < sm_next s" for k i using requested by (simp add: semaphores_inv_def)
  have inj: "sm_map s k = Some i \<Longrightarrow> sm_map s k' = Some i \<Longrightarrow> k = k'" for k k' i
    using requested unfolding semaphores_inv_def by blast
  show ?case
  proof (cases "?kept origin")
    case (Some i)
    then have s': "snd (request_semaphore origin s) =
        s\<lparr>sm_map := ?kept, sm_held := add_mset (origin, i) (sm_held s)\<rparr>"
      by (simp add: request_semaphore_def Let_def)
    show ?thesis
      unfolding s' semaphores_inv_def using Some held kept bound inj
      by (simp del: not_gr_zero) blast
  next
    case None
    then have s': "snd (request_semaphore origin s) = s\<lparr>sm_map := ?kept(origin \<mapsto> sm_next s),
        sm_held := add_mset (origin, sm_next s) (sm_held s), sm_next := Suc (sm_next s)\<rparr>"
      by (simp add: request_semaphore_def Let_def)
    have "(k, i) \<in># sm_held s \<Longrightarrow> k \<noteq> origin" for k i using held None by fastforce
    then show ?thesis
      unfolding s' semaphores_inv_def using held kept bound inj
      by (auto simp del: not_gr_zero) (metis less_irrefl less_SucI)+
  qed
next
  case (dropped h s)
  then show ?case by (auto simp: semaphores_inv_def dest: in_diffD)
qed

text \<open>
  Requests that hold a semaphore at the same time hold the same one exactly when they are for the same
  origin.
\<close>

lemma semaphore_per_origin:
  assumes "semaphore_step\<^sup>*\<^sup>* semaphores_new s" "(o1, i) \<in># sm_held s" "(o2, j) \<in># sm_held s"
  shows "i = j \<longleftrightarrow> o1 = o2"
proof -
  have "semaphores_inv s"
    using assms(1)
  proof (induction rule: rtranclp_induct)
    case base
    then show ?case by (simp add: semaphores_new_def semaphores_inv_def)
  next
    case (step s s')
    then show ?case by (blast intro: semaphores_inv_step)
  qed
  then have "sm_map s o1 = Some i" "sm_map s o2 = Some j" "\<And>k k' i. sm_map s k = Some i \<Longrightarrow> sm_map s k' = Some i \<Longrightarrow> k = k'"
    using assms(2,3) unfolding semaphores_inv_def by blast+
  then show ?thesis by auto
qed

end
