(* ===== verification/Quote_Orders.thy ===== *)
theory Quote_Orders
  imports Quote_Oracle
begin

text \<open>
  \<open>quote/src/order_quotes.rs\<close>: the quotes of all input and output pairs of a list of orders. The pairs
  are prepared in order; the contexts of oracles are fetched in one request for each oracle URL and
  put back at their pairs; the pairs whose context arrived are quoted in one batch (\<open>rpc.rs\<close>); and the
  answers are put back in the order of the pairs. A pair whose oracle failed is answered with that error.

  Of the orders of the subgraph (\<open>SgOrder\<close>) the fields that quoting reads are modelled. The caller's
  injector is an argument. The list of oracle batches stands for the vector and for the hash map from
  URLs to its positions.
\<close>

section \<open>Data\<close>

record sg_erc20 =
  sg_token_address :: string
  sg_token_name :: "string option"
  sg_token_symbol :: "string option"
  sg_token_decimals :: "string option"

record sg_vault =
  sg_vault_id :: string
  sg_vault_owner :: string
  sg_vault_balance :: string
  sg_vault_token :: sg_erc20

record sg_order =
  sg_id :: string
  sg_order_bytes :: string
  sg_order_hash :: string
  sg_owner :: string
  sg_outputs :: "sg_vault list"
  sg_inputs :: "sg_vault list"
  sg_raindex :: string
  sg_active :: bool
  sg_timestamp_added :: string
  sg_meta :: "string option"

record 'f batch_order_quotes_response =
  bq_pair :: pair
  bq_block_number :: u64
  bq_data :: "'f order_quote_value option"
  bq_success :: bool
  bq_error :: "string option"
  bq_signed_context :: "signed_context_v2 list"

record pair_preparation =
  pp_pair :: pair
  pp_target :: quote_target
  pp_oracle_url :: "string option"

type_synonym oracle_batch = "string \<times> nat list"

type_synonym 'w injector = "order_v4 \<Rightarrow> u32 \<Rightarrow> u32 \<Rightarrow> address \<Rightarrow> 'w \<Rightarrow> signed_context_v2 list \<times> 'w"

definition noop_injector :: "'w injector" where
  "noop_injector order input_io_index output_io_index counterparty w = ([], w)"

record ('f, 'u, 'w) quote_env =
  qe_node :: "('f, 'w) quote_node"
  qe_http :: "('u, 'w) oracle_http"
  qe_order_v4 :: "string \<Rightarrow> (order_v4, ext_error) result"
  qe_parse_address :: "string \<Rightarrow> (address, ext_error) result"

section \<open>Pairs\<close>

definition pair_is_selected :: "pair list list option \<Rightarrow> nat \<Rightarrow> u32 \<Rightarrow> u32 \<Rightarrow> bool" where
  "pair_is_selected selected_pairs order_index input_index output_index \<longleftrightarrow>
     (case selected_pairs of
        None \<Rightarrow> True
      | Some pairs \<Rightarrow>
          if order_index < length pairs then
            (\<exists>p\<in>set (pairs ! order_index). pair_input_index p = input_index \<and> pair_output_index p = output_index)
          else True)"

definition token_symbol :: "('f, 'u, 'w) quote_env \<Rightarrow> sg_vault list \<Rightarrow> address \<Rightarrow> string" where
  "token_symbol E vaults token =
     (case find (\<lambda>v. qe_parse_address E (sg_token_address (sg_vault_token v)) = Ok token) vaults of
        Some v \<Rightarrow> (case sg_token_symbol (sg_vault_token v) of Some symbol \<Rightarrow> symbol | None \<Rightarrow> ''UNKNOWN'')
      | None \<Rightarrow> ''UNKNOWN'')"

definition prepare_pair ::
  "('f, 'u, 'w) quote_env \<Rightarrow> sg_order \<Rightarrow> order_v4 \<Rightarrow> address \<Rightarrow> (nat \<times> io_v2) \<times> (nat \<times> io_v2) \<Rightarrow> pair_preparation" where
  "prepare_pair E order order_struct raindex io = (case io of ((input_index, input), (output_index, output)) \<Rightarrow>
     \<lparr>pp_pair = \<lparr>pair_name = token_symbol E (sg_inputs order) (io_token input) @ ''/'' @
          token_symbol E (sg_outputs order) (io_token output),
        pair_input_index = of_nat input_index, pair_output_index = of_nat output_index\<rparr>,
      pp_target = \<lparr>qt_quote_config = \<lparr>qc_order = order_struct, qc_input_io_index = of_nat input_index,
          qc_output_io_index = of_nat output_index, qc_signed_context = []\<rparr>, qt_raindex = raindex\<rparr>,
      pp_oracle_url = extract_oracle_url (qe_http E) (sg_meta order)\<rparr>)"

definition io_pairs :: "order_v4 \<Rightarrow> ((nat \<times> io_v2) \<times> (nat \<times> io_v2)) list" where
  "io_pairs order_struct =
     List.product (enumerate 0 (valid_inputs order_struct)) (enumerate 0 (valid_outputs order_struct))"

definition wanted_pair :: "pair list list option \<Rightarrow> nat \<Rightarrow> (nat \<times> io_v2) \<times> (nat \<times> io_v2) \<Rightarrow> bool" where
  "wanted_pair selected_pairs order_index io = (case io of ((input_index, input), (output_index, output)) \<Rightarrow>
     io_token input \<noteq> io_token output \<and>
     pair_is_selected selected_pairs order_index (of_nat input_index) (of_nat output_index))"

fun push_oracle_item :: "string \<Rightarrow> nat \<Rightarrow> oracle_batch list \<Rightarrow> oracle_batch list" where
  "push_oracle_item url index [] = [(url, [index])]"
| "push_oracle_item url index ((url', items) # batches) =
     (if url' = url then (url', items @ [index]) # batches
      else (url', items) # push_oracle_item url index batches)"

definition add_preparation ::
  "pair_preparation \<Rightarrow> pair_preparation list \<times> oracle_batch list \<Rightarrow> pair_preparation list \<times> oracle_batch list" where
  "add_preparation prep st = (case st of (preps, batches) \<Rightarrow>
     (preps @ [prep],
      case pp_oracle_url prep of Some url \<Rightarrow> push_oracle_item url (length preps) batches | None \<Rightarrow> batches))"

definition try_into_order_v4 :: "('f, 'u, 'w) quote_env \<Rightarrow> sg_order \<Rightarrow> (order_v4, quote_error) result" where
  "try_into_order_v4 E order = map_err Quote_Order_Detail_Error (qe_order_v4 E (sg_order_bytes order))"

fun prepare_orders ::
  "('f, 'u, 'w) quote_env \<Rightarrow> pair list list option \<Rightarrow> nat \<Rightarrow> sg_order list
   \<Rightarrow> pair_preparation list \<times> oracle_batch list \<Rightarrow> (pair_preparation list \<times> oracle_batch list, quote_error) result" where
  "prepare_orders E selected_pairs order_index [] st = Ok st"
| "prepare_orders E selected_pairs order_index (order # orders) st =
     rbind (try_into_order_v4 E order) (\<lambda>order_struct.
     rbind (map_err Quote_From_Hex_Error (qe_parse_address E (sg_raindex order))) (\<lambda>raindex.
     prepare_orders E selected_pairs (Suc order_index) orders
       (fold (\<lambda>io st. if wanted_pair selected_pairs order_index io
                      then add_preparation (prepare_pair E order order_struct raindex io) st else st)
          (io_pairs order_struct) st)))"

section \<open>Oracle contexts\<close>

definition oracle_item :: "address \<Rightarrow> pair_preparation \<Rightarrow> order_v4 \<times> u32 \<times> u32 \<times> address" where
  "oracle_item counterparty prep = (qc_order (qt_quote_config (pp_target prep)),
     pair_input_index (pp_pair prep), pair_output_index (pp_pair prep), counterparty)"

definition batch_request ::
  "('f, 'u, 'w) quote_env \<Rightarrow> address \<Rightarrow> pair_preparation list \<Rightarrow> oracle_batch \<Rightarrow> oracle_batch_request" where
  "batch_request E counterparty preps batch =
     \<lparr>obr_url = fst batch,
      obr_body = encode_oracle_body_batch (qe_http E) (map (\<lambda>i. oracle_item counterparty (preps ! i)) (snd batch)),
      obr_expected_count = length (snd batch)\<rparr>"

type_synonym oracle_result = "(signed_context_v2, string) result"

definition fetch_oracle_batches ::
  "('f, 'u, 'w) quote_env \<Rightarrow> address \<Rightarrow> pair_preparation list \<Rightarrow> oracle_batch list
   \<Rightarrow> 'w \<Rightarrow> (oracle_result list, string) result list \<times> 'w" where
  "fetch_oracle_batches E counterparty preps batches w =
     (if batches = [] then ([], w)
      else (case oh_client (qe_http E) of
        Err e \<Rightarrow> (replicate (length batches) (Err (show_oracle_error (Client_Build_Failed e))), w)
      | Ok _ \<Rightarrow>
          (case fetch_signed_context_batches (qe_http E) (map (batch_request E counterparty preps) batches) w of
             (results, w1) \<Rightarrow>
               (map (\<lambda>r. map_err show_oracle_error (case r of Ok items \<Rightarrow> Ok (map (map_err show_item_error) items)
                  | Err e \<Rightarrow> Err e)) results, w1))))"

definition batch_contexts :: "oracle_batch \<Rightarrow> (oracle_result list, string) result \<Rightarrow> (nat \<times> oracle_result) list" where
  "batch_contexts batch batch_result = (case batch_result of
     Ok contexts \<Rightarrow> zip (snd batch) contexts
   | Err error \<Rightarrow> map (\<lambda>i. (i, Err error)) (snd batch))"

definition scatter_contexts ::
  "nat \<Rightarrow> oracle_batch list \<Rightarrow> (oracle_result list, string) result list \<Rightarrow> (oracle_result option list, quote_error) result" where
  "scatter_contexts n batches results =
     scatter (concat (map (\<lambda>(batch, r). batch_contexts batch r) (zip batches results))) (replicate n None)"

section \<open>Responses\<close>

definition pair_context :: "pair_preparation \<Rightarrow> oracle_result option \<Rightarrow> (signed_context_v2 list, string) result" where
  "pair_context prep oracle_result =
     (if pp_oracle_url prep \<noteq> None then
        (case (case oracle_result of Some r \<Rightarrow> r | None \<Rightarrow> Err ''Missing oracle response slot'') of
           Ok context \<Rightarrow> Ok [context] | Err e \<Rightarrow> Err e)
      else Ok [])"

definition oracle_failure :: "u64 \<Rightarrow> pair \<Rightarrow> string \<Rightarrow> 'f batch_order_quotes_response" where
  "oracle_failure block pair error = \<lparr>bq_pair = pair, bq_block_number = block, bq_data = None, bq_success = False,
     bq_error = Some (''Oracle fetch failed for pair ('' @ show_word (pair_input_index pair) @ '', '' @
       show_word (pair_output_index pair) @ ''): '' @ error), bq_signed_context = []\<rparr>"

definition with_context :: "quote_target \<Rightarrow> signed_context_v2 list \<Rightarrow> quote_target" where
  "with_context target context =
     target\<lparr>qt_quote_config := (qt_quote_config target)\<lparr>qc_signed_context := context\<rparr>\<rparr>"

type_synonym 'f assembly =
  "'f batch_order_quotes_response option list \<times> (nat \<times> pair) list \<times> quote_target list"

fun assemble ::
  "'w injector \<Rightarrow> u64 \<Rightarrow> address \<Rightarrow> (pair_preparation \<times> oracle_result option) list \<Rightarrow> 'f assembly
   \<Rightarrow> 'w \<Rightarrow> 'f assembly \<times> 'w" where
  \<comment> \<open>the slots, the pairs to quote with the slots of their answers, and their targets\<close>
  "assemble injector block counterparty [] st w = (st, w)"
| "assemble injector block counterparty ((prep, oracle_result) # preps) (responses, metadata, targets) w =
     (case pair_context prep oracle_result of
        Ok oracle_context \<Rightarrow>
          (case injector (qc_order (qt_quote_config (pp_target prep))) (pair_input_index (pp_pair prep))
                  (pair_output_index (pp_pair prep)) counterparty w of
             (injected, w1) \<Rightarrow>
               assemble injector block counterparty preps
                 (responses @ [None], metadata @ [(length responses, pp_pair prep)],
                  targets @ [with_context (pp_target prep) (oracle_context @ injected)]) w1)
      | Err error \<Rightarrow>
          assemble injector block counterparty preps
            (responses @ [Some (oracle_failure block (pp_pair prep) error)], metadata, targets) w)"

definition quote_response ::
  "u64 \<Rightarrow> pair \<Rightarrow> signed_context_v2 list \<Rightarrow> ('f order_quote_value, string) result \<Rightarrow> 'f batch_order_quotes_response" where
  "quote_response block pair context quote_result =
     \<lparr>bq_pair = pair, bq_block_number = block,
      bq_data = (case quote_result of Ok data \<Rightarrow> Some data | Err _ \<Rightarrow> None),
      bq_success = is_ok quote_result,
      bq_error = (case quote_result of Ok _ \<Rightarrow> None | Err e \<Rightarrow> Some e), bq_signed_context = context\<rparr>"

definition quote_responses ::
  "u64 \<Rightarrow> (nat \<times> pair) list \<Rightarrow> quote_target list \<Rightarrow> ('f quote_result list, quote_error) result
   \<Rightarrow> (nat \<times> 'f batch_order_quotes_response) list" where
  "quote_responses block metadata targets quote_result =
     (let contexts = map (\<lambda>t. qc_signed_context (qt_quote_config t)) targets in
      case quote_result of
        Ok quote_values \<Rightarrow>
          map (\<lambda>(quote_result, ((slot, pair), context)).
                 (slot, quote_response block pair context (map_err show_failed_quote quote_result)))
            (zip quote_values (zip metadata contexts))
      | Err e \<Rightarrow>
          map (\<lambda>((slot, pair), context). (slot, quote_response block pair context (Err (show_quote_error e))))
            (zip metadata contexts))"

section \<open>The sweep\<close>

fun resolve_latest_block_number :: "('f, 'w) quote_node \<Rightarrow> string list \<Rightarrow> string list \<Rightarrow> (u64, quote_error, 'w) io" where
  \<comment> \<open>the last argument is the list of failures so far\<close>
  "resolve_latest_block_number N [] failures w =
     (Err (Transport_Error (''all quote RPC block reads failed: '' @ join ''; '' failures)), w)"
| "resolve_latest_block_number N (rpc # rpcs) failures w =
     (case rbind (qn_parse_url N rpc) (\<lambda>url. mk_read_provider [url]) of
        Err error \<Rightarrow> resolve_latest_block_number N rpcs (failures @ [rpc @ '': '' @ error]) w
      | Ok provider \<Rightarrow>
          (case qn_block_number N provider rpc_attempt_timeout_ms w of
             (Some (Ok n), w1) \<Rightarrow> (Ok n, w1)
           | (Some (Err error), w1) \<Rightarrow>
               resolve_latest_block_number N rpcs (failures @ [rpc @ '': '' @ error]) w1
           | (None, w1) \<Rightarrow>
               resolve_latest_block_number N rpcs
                 (failures @ [rpc @ '': timed out after '' @ show_word rpc_attempt_timeout_ms @ ''ms'']) w1))"

definition quote_pairs ::
  "('f, 'u, 'w) quote_env \<Rightarrow> string list \<Rightarrow> nat option \<Rightarrow> address \<Rightarrow> 'w injector \<Rightarrow> u64
   \<Rightarrow> pair_preparation list \<times> oracle_batch list \<Rightarrow> ('f batch_order_quotes_response list, quote_error, 'w) io" where
  \<comment> \<open>\<open>get_order_quotes_inner\<close> from the oracle requests on\<close>
  "quote_pairs E rpcs chunk_size counterparty injector block prepared w =
     (case prepared of (preps, batches) \<Rightarrow>
      case fetch_oracle_batches E counterparty preps batches w of (oracle_batch_results, w1) \<Rightarrow>
      (case scatter_contexts (length preps) batches oracle_batch_results of
         Err e \<Rightarrow> (Err e, w1)
       | Ok oracle_results \<Rightarrow>
         (case assemble injector block counterparty (zip preps oracle_results) ([], [], []) w1 of
            ((responses, metadata, targets), w2) \<Rightarrow>
              (case batch_quote (qe_node E) targets rpcs (Some block) counterparty chunk_size w2 of
                 (quote_result, w3) \<Rightarrow>
                   (rbind (scatter (quote_responses block metadata targets quote_result) responses) unwrap_slots,
                    w3)))))"

definition get_order_quotes_inner ::
  "('f, 'u, 'w) quote_env \<Rightarrow> sg_order list \<Rightarrow> pair list list option \<Rightarrow> u64 option \<Rightarrow> string list \<Rightarrow> nat option
   \<Rightarrow> address \<Rightarrow> 'w injector \<Rightarrow> ('f batch_order_quotes_response list, quote_error, 'w) io" where
  "get_order_quotes_inner E orders selected_pairs block_number rpcs chunk_size counterparty injector =
     io_bind (case block_number of Some block \<Rightarrow> io_return block
              | None \<Rightarrow> resolve_latest_block_number (qe_node E) rpcs []) (\<lambda>req_block_number.
     io_bind (io_pure (prepare_orders E selected_pairs 0 orders ([], [])))
       (quote_pairs E rpcs chunk_size counterparty injector req_block_number))"

definition get_order_quotes ::
  "('f, 'u, 'w) quote_env \<Rightarrow> sg_order list \<Rightarrow> u64 option \<Rightarrow> string list \<Rightarrow> nat option
   \<Rightarrow> address \<Rightarrow> 'w injector \<Rightarrow> ('f batch_order_quotes_response list, quote_error, 'w) io" where
  "get_order_quotes E orders = get_order_quotes_inner E orders None"

definition get_order_quotes_for_pairs ::
  "('f, 'u, 'w) quote_env \<Rightarrow> sg_order list \<Rightarrow> pair list list \<Rightarrow> u64 option \<Rightarrow> string list \<Rightarrow> nat option
   \<Rightarrow> address \<Rightarrow> 'w injector \<Rightarrow> ('f batch_order_quotes_response list, quote_error, 'w) io" where
  "get_order_quotes_for_pairs E orders selected_pairs block_number rpcs chunk_size counterparty injector =
     (if length selected_pairs \<noteq> length orders then
        io_fail (Pair_Selection_Length_Mismatch (length orders) (length selected_pairs))
      else get_order_quotes_inner E orders (Some selected_pairs) block_number rpcs chunk_size counterparty injector)"

section \<open>The prepared pairs\<close>

definition order_pairs ::
  "('f, 'u, 'w) quote_env \<Rightarrow> pair list list option \<Rightarrow> nat \<Rightarrow> sg_order \<Rightarrow> (pair_preparation list, quote_error) result" where
  \<comment> \<open>the pairs of one order\<close>
  "order_pairs E selected_pairs order_index order =
     rbind (try_into_order_v4 E order) (\<lambda>order_struct.
     rbind (map_err Quote_From_Hex_Error (qe_parse_address E (sg_raindex order))) (\<lambda>raindex.
     Ok (map (prepare_pair E order order_struct raindex)
           (filter (wanted_pair selected_pairs order_index) (io_pairs order_struct)))))"

definition batches_fit :: "pair_preparation list \<Rightarrow> oracle_batch list \<Rightarrow> bool" where
  "batches_fit preps batches \<longleftrightarrow>
     (\<forall>(url, items)\<in>set batches. \<forall>i\<in>set items. i < length preps \<and> pp_oracle_url (preps ! i) = Some url) \<and>
     (\<forall>i<length preps. \<forall>url. pp_oracle_url (preps ! i) = Some url \<longrightarrow> (\<exists>items. (url, items) \<in> set batches \<and> i \<in> set items))"

lemma push_oracle_item_mem:
  "(u, is) \<in> set (push_oracle_item url index batches) \<Longrightarrow> i \<in> set is \<Longrightarrow>
   u = url \<and> i = index \<or> (\<exists>is'. (u, is') \<in> set batches \<and> i \<in> set is')"
  by (induction url index batches rule: push_oracle_item.induct) (auto split: if_splits)

lemma push_oracle_item_keeps:
  "(u, is) \<in> set batches \<Longrightarrow> i \<in> set is \<Longrightarrow> \<exists>is'. (u, is') \<in> set (push_oracle_item url index batches) \<and> i \<in> set is'"
  by (induction url index batches rule: push_oracle_item.induct) auto

lemma push_oracle_item_new: "\<exists>is. (url, is) \<in> set (push_oracle_item url index batches) \<and> index \<in> set is"
  by (induction url index batches rule: push_oracle_item.induct) auto

lemma batches_fit_add:
  assumes "batches_fit preps batches" "add_preparation prep (preps, batches) = (preps', batches')"
  shows "batches_fit preps' batches'"
proof -
  have preps': "preps' = preps @ [prep]" using assms(2) by (simp add: add_preparation_def)
  have old: "i < length preps \<and> pp_oracle_url (preps ! i) = Some u" if "(u, is) \<in> set batches" "i \<in> set is" for u "is" i
    using assms(1) that by (fastforce simp: batches_fit_def)
  have all: "\<exists>is. (u, is) \<in> set batches \<and> i \<in> set is" if "i < length preps" "pp_oracle_url (preps ! i) = Some u" for i u
    using assms(1) that by (auto simp: batches_fit_def)
  show ?thesis
  proof (cases "pp_oracle_url prep")
    case None
    then have "batches' = batches" using assms(2) by (simp add: add_preparation_def)
    then show ?thesis
      unfolding batches_fit_def preps' using None old all
      by (fastforce simp: nth_append less_Suc_eq)
  next
    case (Some url)
    then have b: "batches' = push_oracle_item url (length preps) batches"
      using assms(2) by (simp add: add_preparation_def)
    have "i < length preps' \<and> pp_oracle_url (preps' ! i) = Some u" if m: "(u, is) \<in> set batches'" "i \<in> set is" for u "is" i
      using push_oracle_item_mem[OF m[unfolded b]] old[of u _ i] Some by (auto simp: preps' nth_append)
    moreover have "\<exists>is. (u, is) \<in> set batches' \<and> i \<in> set is"
      if i: "i < length preps'" "pp_oracle_url (preps' ! i) = Some u" for i u
    proof (cases "i = length preps")
      case True
      then show ?thesis using push_oracle_item_new[of url "length preps" batches] i Some b by (auto simp: preps')
    next
      case False
      then have "i < length preps" "pp_oracle_url (preps ! i) = Some u" using i by (auto simp: preps' nth_append)
      then show ?thesis using all push_oracle_item_keeps[of u _ batches i url "length preps"] b by blast
    qed
    ultimately show ?thesis unfolding batches_fit_def by blast
  qed
qed

lemma fold_add_preparation:
  assumes "batches_fit preps batches"
  shows "\<exists>batches'. fold (\<lambda>io st. if P io then add_preparation (f io) st else st) ios (preps, batches) =
      (preps @ map f (filter P ios), batches') \<and> batches_fit (preps @ map f (filter P ios)) batches'"
  using assms
proof (induction ios arbitrary: preps batches)
  case (Cons io ios)
  obtain preps' batches' where add: "add_preparation (f io) (preps, batches) = (preps', batches')" by fastforce
  then have preps': "preps' = preps @ [f io]" by (simp add: add_preparation_def)
  show ?case
    using Cons.IH[OF batches_fit_add[OF Cons.prems add]] Cons.IH[OF Cons.prems] add
    by (cases "P io") (simp_all add: preps')
qed simp

lemma prepare_orders_Ok:
  assumes "prepare_orders E sel k orders (preps0, batches0) = Ok (preps, batches)" "batches_fit preps0 batches0"
  shows "\<exists>pss. rmap (\<lambda>(k, order). order_pairs E sel k order) (enumerate k orders) = Ok pss \<and>
    preps = preps0 @ concat pss \<and> batches_fit preps batches"
  using assms
proof (induction orders arbitrary: k preps0 batches0)
  case (Cons order orders)
  obtain o4 r where o4: "try_into_order_v4 E order = Ok o4"
    "map_err Quote_From_Hex_Error (qe_parse_address E (sg_raindex order)) = Ok r"
    using Cons.prems(1) by (auto simp: ok_iff)
  let ?ps = "map (prepare_pair E order o4 r) (filter (wanted_pair sel k) (io_pairs o4))"
  obtain batches1 where st: "fold (\<lambda>io st. if wanted_pair sel k io then add_preparation (prepare_pair E order o4 r io) st else st)
      (io_pairs o4) (preps0, batches0) = (preps0 @ ?ps, batches1)" "batches_fit (preps0 @ ?ps) batches1"
    using fold_add_preparation[OF Cons.prems(2), of "wanted_pair sel k" "prepare_pair E order o4 r" "io_pairs o4"] by blast
  have "prepare_orders E sel (Suc k) orders (preps0 @ ?ps, batches1) = Ok (preps, batches)"
    using Cons.prems(1) o4 st(1) by simp
  from Cons.IH[OF this st(2)] o4 show ?case by (auto simp: order_pairs_def)
qed simp

lemma prepare_orders_total:
  assumes "rmap (\<lambda>(k, order). order_pairs E sel k order) (enumerate k orders) = Ok pss"
  shows "\<exists>prepared. prepare_orders E sel k orders st = Ok prepared"
  using assms
proof (induction orders arbitrary: k pss st)
  case (Cons order orders)
  then obtain o4 r pss' where o: "try_into_order_v4 E order = Ok o4"
    "map_err Quote_From_Hex_Error (qe_parse_address E (sg_raindex order)) = Ok r"
    "rmap (\<lambda>(k, order). order_pairs E sel k order) (enumerate (Suc k) orders) = Ok pss'"
    by (auto simp: ok_iff order_pairs_def)
  show ?case using Cons.IH[OF o(3)] o(1,2) by (simp del: split_paired_Ex)
qed simp

section \<open>The answers\<close>

definition slot_met ::
  "(pair_preparation \<Rightarrow> signed_context_v2 list \<Rightarrow> bool) \<Rightarrow> (quote_target \<Rightarrow> 'f quote_result \<Rightarrow> bool) \<Rightarrow> u64
   \<Rightarrow> pair_preparation \<Rightarrow> oracle_result option \<Rightarrow> 'f batch_order_quotes_response \<Rightarrow> bool" where
  "slot_met injects answers block prep slot resp \<longleftrightarrow>
     (case pair_context prep slot of
        Err e \<Rightarrow> resp = oracle_failure block (pp_pair prep) e
      | Ok oc \<Rightarrow> (\<exists>inj r. injects prep inj \<and> answers (with_context (pp_target prep) (oc @ inj)) r \<and>
          resp = quote_response block (pp_pair prep) (oc @ inj) (map_err show_failed_quote r)))"

definition to_quote ::
  "(pair_preparation \<Rightarrow> signed_context_v2 list \<Rightarrow> bool) \<Rightarrow> pair_preparation \<times> oracle_result option
   \<Rightarrow> pair \<Rightarrow> quote_target \<Rightarrow> bool" where
  "to_quote injects po pr t \<longleftrightarrow> (\<exists>oc inj. pair_context (fst po) (snd po) = Ok oc \<and> injects (fst po) inj \<and>
     pr = pp_pair (fst po) \<and> t = with_context (pp_target (fst po)) (oc @ inj))"

definition assembled ::
  "(pair_preparation \<Rightarrow> signed_context_v2 list \<Rightarrow> bool) \<Rightarrow> u64 \<Rightarrow> (pair_preparation \<times> oracle_result option) list \<Rightarrow> nat
   \<Rightarrow> 'f batch_order_quotes_response option list \<Rightarrow> (nat \<times> pair) list \<Rightarrow> quote_target list \<Rightarrow> bool" where
  "assembled injects block pos n resps metadata targets \<longleftrightarrow> length resps = length pos \<and>
     length metadata = length targets \<and>
     (\<forall>j<length pos. case pair_context (fst (pos ! j)) (snd (pos ! j)) of
        Err e \<Rightarrow> resps ! j = Some (oracle_failure block (pp_pair (fst (pos ! j))) e)
      | Ok oc \<Rightarrow> n + j \<in> fst ` set metadata) \<and>
     (\<forall>m<length metadata. \<exists>j<length pos. fst (metadata ! m) = n + j \<and>
        to_quote injects (pos ! j) (snd (metadata ! m)) (targets ! m))"

lemma assembled_failed:
  assumes "assembled injects block pos (Suc n) resps metadata targets" "pair_context prep slot = Err e"
  shows "assembled injects block ((prep, slot) # pos) n (Some (oracle_failure block (pp_pair prep) e) # resps) metadata targets"
  unfolding assembled_def
proof (intro conjI allI impI)
  fix j assume "j < length ((prep, slot) # pos)"
  then show "case pair_context (fst (((prep, slot) # pos) ! j)) (snd (((prep, slot) # pos) ! j)) of
      Ok oc \<Rightarrow> n + j \<in> fst ` set metadata
    | Err e' \<Rightarrow> (Some (oracle_failure block (pp_pair prep) e) # resps) ! j =
        Some (oracle_failure block (pp_pair (fst (((prep, slot) # pos) ! j))) e')"
    using assms by (cases j) (auto simp: assembled_def split: result.splits)
next
  fix m assume "m < length metadata"
  then obtain j where "j < length pos" "fst (metadata ! m) = Suc n + j" "to_quote injects (pos ! j) (snd (metadata ! m)) (targets ! m)"
    using assms(1) by (auto simp: assembled_def)
  then show "\<exists>j<length ((prep, slot) # pos). fst (metadata ! m) = n + j \<and>
      to_quote injects (((prep, slot) # pos) ! j) (snd (metadata ! m)) (targets ! m)"
    by (intro exI[of _ "Suc j"]) simp
qed (use assms(1) in \<open>simp_all add: assembled_def\<close>)

lemma assembled_quoted:
  assumes "assembled injects block pos (Suc n) resps metadata targets" "to_quote injects (prep, slot) (pp_pair prep) t"
  shows "assembled injects block ((prep, slot) # pos) n (None # resps) ((n, pp_pair prep) # metadata) (t # targets)"
  unfolding assembled_def
proof (intro conjI allI impI)
  fix j assume "j < length ((prep, slot) # pos)"
  then show "case pair_context (fst (((prep, slot) # pos) ! j)) (snd (((prep, slot) # pos) ! j)) of
      Ok oc \<Rightarrow> n + j \<in> fst ` set ((n, pp_pair prep) # metadata)
    | Err e' \<Rightarrow> (None # resps) ! j = Some (oracle_failure block (pp_pair (fst (((prep, slot) # pos) ! j))) e')"
    using assms by (cases j) (auto simp: assembled_def to_quote_def split: result.splits)
next
  fix m assume m: "m < length ((n, pp_pair prep) # metadata)"
  show "\<exists>j<length ((prep, slot) # pos). fst (((n, pp_pair prep) # metadata) ! m) = n + j \<and>
      to_quote injects (((prep, slot) # pos) ! j) (snd (((n, pp_pair prep) # metadata) ! m)) ((t # targets) ! m)"
  proof (cases m)
    case 0
    then show ?thesis using assms(2) by (intro exI[of _ 0]) simp
  next
    case (Suc m')
    then obtain j where "j < length pos" "fst (metadata ! m') = Suc n + j"
      "to_quote injects (pos ! j) (snd (metadata ! m')) (targets ! m')"
      using assms(1) m by (auto simp: assembled_def)
    then show ?thesis using Suc by (intro exI[of _ "Suc j"]) simp
  qed
qed (use assms(1) in \<open>simp_all add: assembled_def\<close>)

lemma assemble_assembled:
  assumes "\<And>prep w. injects prep (fst (injector (qc_order (qt_quote_config (pp_target prep)))
      (pair_input_index (pp_pair prep)) (pair_output_index (pp_pair prep)) counterparty w))"
  shows "\<exists>more meta tgts w1. assemble injector block counterparty pos (resps, metadata, targets) w =
      ((resps @ more, metadata @ meta, targets @ tgts), w1) \<and>
    assembled injects block pos (length resps) more meta tgts"
proof (induction pos arbitrary: resps metadata targets w)
  case Nil
  then show ?case by (simp add: assembled_def)
next
  case (Cons po pos)
  obtain prep slot where po: "po = (prep, slot)" by (cases po)
  show ?case
  proof (cases "pair_context prep slot")
    case (Err e)
    let ?r = "Some (oracle_failure block (pp_pair prep) e)"
    obtain more meta tgts w1 where "assemble injector block counterparty pos (resps @ [?r], metadata, targets) w =
        ((resps @ [?r] @ more, metadata @ meta, targets @ tgts), w1)"
      "assembled injects block pos (Suc (length resps)) more meta tgts"
      using Cons.IH[of "resps @ [?r]" metadata targets w] by auto
    then show ?thesis using Err po assembled_failed[OF _ Err] by fastforce
  next
    case (Ok oc)
    obtain inj w0 where inj: "injector (qc_order (qt_quote_config (pp_target prep))) (pair_input_index (pp_pair prep))
        (pair_output_index (pp_pair prep)) counterparty w = (inj, w0)" by fastforce
    let ?t = "with_context (pp_target prep) (oc @ inj)"
    have tq: "to_quote injects (prep, slot) (pp_pair prep) ?t"
      using assms[of prep w] inj Ok by (auto simp: to_quote_def)
    obtain more meta tgts w1 where "assemble injector block counterparty pos
        (resps @ [None], metadata @ [(length resps, pp_pair prep)], targets @ [?t]) w0 =
        ((resps @ [None] @ more, metadata @ [(length resps, pp_pair prep)] @ meta, targets @ [?t] @ tgts), w1)"
      "assembled injects block pos (Suc (length resps)) more meta tgts"
      using Cons.IH[of "resps @ [None]" "metadata @ [(length resps, pp_pair prep)]" "targets @ [?t]" w0] by auto
    then show ?thesis using Ok po inj assembled_quoted[OF _ tq] by fastforce
  qed
qed

lemma responses_meet:
  assumes "assembled injects block pos 0 resps metadata targets" "list_all2 answers targets values"
  shows "\<exists>rs. rbind (scatter (quote_responses block metadata targets (Ok values)) resps) unwrap_slots = Ok rs \<and>
    length rs = length pos \<and> (\<forall>j<length pos. slot_met injects answers block (fst (pos ! j)) (snd (pos ! j)) (rs ! j))"
proof -
  let ?G = "\<lambda>j x. slot_met injects answers block (fst (pos ! j)) (snd (pos ! j)) x"
  let ?r = "\<lambda>m. quote_response block (snd (metadata ! m)) (qc_signed_context (qt_quote_config (targets ! m)))
    (map_err show_failed_quote (values ! m))"
  have len: "length resps = length pos" "length metadata = length targets" "length values = length targets"
    using assms by (auto simp: assembled_def dest: list_all2_lengthD)
  have ps: "quote_responses block metadata targets (Ok values) =
      map (\<lambda>m. (fst (metadata ! m), ?r m)) [0..<length metadata]"
    using len by (intro nth_equalityI) (auto simp: quote_responses_def split_beta)
  have each: "\<forall>(i, x)\<in>set (quote_responses block metadata targets (Ok values)). i < length resps \<and> ?G i x"
    unfolding ps
  proof (clarsimp, goal_cases)
    case (1 m)
    then obtain j where j: "j < length pos" "fst (metadata ! m) = j" "to_quote injects (pos ! j) (snd (metadata ! m)) (targets ! m)"
      using assms(1) by (auto simp: assembled_def)
    then obtain oc inj where q: "pair_context (fst (pos ! j)) (snd (pos ! j)) = Ok oc" "injects (fst (pos ! j)) inj"
      "snd (metadata ! m) = pp_pair (fst (pos ! j))" "targets ! m = with_context (pp_target (fst (pos ! j))) (oc @ inj)"
      by (auto simp: to_quote_def)
    have "answers (targets ! m) (values ! m)" using assms(2) 1 len by (simp add: list_all2_conv_all_nth)
    then have "?G j (?r m)" using q by (auto simp: slot_met_def with_context_def)
    then show ?case using j len by simp
  qed
  obtain s where s: "scatter (quote_responses block metadata targets (Ok values)) resps = Ok s" "length s = length pos"
    "\<forall>j<length pos. if j \<in> fst ` set (quote_responses block metadata targets (Ok values)) then \<exists>x. s ! j = Some x \<and> ?G j x
       else s ! j = resps ! j"
    using scatter_values[OF each] len by auto
  have "\<exists>x. s ! j = Some x \<and> ?G j x" if j: "j < length s" for j
  proof (cases "j \<in> fst ` set (quote_responses block metadata targets (Ok values))")
    case True
    then show ?thesis using s j by auto
  next
    case False
    moreover have "map fst (quote_responses block metadata targets (Ok values)) = map fst metadata"
      unfolding ps by (intro nth_equalityI) auto
    ultimately have "j \<notin> fst ` set metadata" by (metis set_map)
    then have "\<exists>e. pair_context (fst (pos ! j)) (snd (pos ! j)) = Err e \<and>
        resps ! j = Some (oracle_failure block (pp_pair (fst (pos ! j))) e)"
      using assms(1) j s(2) unfolding assembled_def
      by (cases "pair_context (fst (pos ! j)) (snd (pos ! j))") fastforce+
    moreover have "s ! j = resps ! j" using s False j by auto
    ultimately show ?thesis by (auto simp: slot_met_def)
  qed
  then show ?thesis using unwrap_slots_Ok[of s ?G] s by auto
qed

lemma fetched_batches:
  assumes "fetch_oracle_batches E counterparty preps batches w = (results, w1)"
  shows "list_all2 (\<lambda>batch r.
    (\<exists>e. oh_client (qe_http E) = Err e) \<and> (\<exists>m. r = Err m) \<or>
    (\<exists>w. r = (case fst (fetch_signed_context_batch_allow_failure (qe_http E) (fst batch)
           (encode_oracle_body_batch (qe_http E) (map (\<lambda>i. oracle_item counterparty (preps ! i)) (snd batch)))
           (length (snd batch)) w) of
         Ok items \<Rightarrow> Ok (map (map_err show_item_error) items) | Err e \<Rightarrow> Err (show_oracle_error e)))) batches results"
proof (cases "batches = []")
  case True
  then show ?thesis using assms by (simp add: fetch_oracle_batches_def)
next
  case False
  show ?thesis
  proof (cases "oh_client (qe_http E)")
    case (Err e)
    then show ?thesis using assms False by (auto simp: fetch_oracle_batches_def list_all2_conv_all_nth)
  next
    case (Ok u)
    obtain rs w2 where rs: "fetch_signed_context_batches (qe_http E) (map (batch_request E counterparty preps) batches) w = (rs, w2)"
      by fastforce
    have results: "results = map (\<lambda>r. map_err show_oracle_error
        (case r of Ok items \<Rightarrow> Ok (map (map_err show_item_error) items) | Err e \<Rightarrow> Err e)) rs"
      using assms False Ok rs by (simp add: fetch_oracle_batches_def)
    have h: "list_all2 (\<lambda>batch r. \<exists>w1 w2. fetch_signed_context_batch_allow_failure (qe_http E) (fst batch)
        (encode_oracle_body_batch (qe_http E) (map (\<lambda>i. oracle_item counterparty (preps ! i)) (snd batch)))
        (length (snd batch)) w1 = (r, w2)) batches rs"
      using io_map_all_results[OF rs[unfolded fetch_signed_context_batches_def]]
      by (simp add: list_all2_map1 batch_request_def)
    show ?thesis
      unfolding results list_all2_map2
    proof (rule list_all2_mono[OF h], goal_cases)
      case (1 batch r)
      then obtain w1 w2 where "fetch_signed_context_batch_allow_failure (qe_http E) (fst batch)
          (encode_oracle_body_batch (qe_http E) (map (\<lambda>i. oracle_item counterparty (preps ! i)) (snd batch)))
          (length (snd batch)) w1 = (r, w2)" by blast
      then show ?case by (intro disjI2 exI[of _ w1]) (cases r; simp)
    qed
  qed
qed

lemma contexts_meet:
  assumes fit: "batches_fit preps batches"
    and res: "list_all2 (\<lambda>batch r. case r of
        Ok cs \<Rightarrow> list_all2 R (snd batch) cs | Err e \<Rightarrow> (\<forall>i\<in>set (snd batch). R i (Err e))) batches results"
  shows "\<exists>slots. scatter_contexts (length preps) batches results = Ok slots \<and> length slots = length preps \<and>
    (\<forall>i<length preps. pp_oracle_url (preps ! i) \<noteq> None \<longrightarrow> (\<exists>r. slots ! i = Some r \<and> R i r))"
proof -
  let ?ps = "concat (map (\<lambda>(batch, r). batch_contexts batch r) (zip batches results))"
  have len: "length results = length batches" using list_all2_lengthD[OF res] by simp
  have one: "(\<forall>(i, x)\<in>set (batch_contexts (batches ! k) (results ! k)). i \<in> set (snd (batches ! k)) \<and> R i x) \<and>
      fst ` set (batch_contexts (batches ! k) (results ! k)) = set (snd (batches ! k))"
    if "k < length batches" for k
  proof -
    have rel: "case results ! k of Ok cs \<Rightarrow> list_all2 R (snd (batches ! k)) cs
        | Err e \<Rightarrow> (\<forall>i\<in>set (snd (batches ! k)). R i (Err e))"
      using res that by (simp add: list_all2_conv_all_nth)
    show ?thesis
    proof (cases "results ! k")
      case (Ok cs)
      have all: "list_all2 R (snd (batches ! k)) cs" using rel Ok by simp
      then have "fst ` set (zip (snd (batches ! k)) cs) = set (snd (batches ! k))"
        by (metis list_all2_lengthD map_fst_zip set_map)
      moreover have "\<forall>(i, x)\<in>set (zip (snd (batches ! k)) cs). R i x" using all by (simp add: list_all2_iff)
      ultimately show ?thesis using Ok by (auto simp: batch_contexts_def dest: set_zip_leftD)
    next
      case (Err e)
      then show ?thesis
        using rel by (simp add: batch_contexts_def image_image)
    qed
  qed
  have mem: "\<exists>k<length batches. e \<in> set (batch_contexts (batches ! k) (results ! k))" if "e \<in> set ?ps" for e
    using that len by (auto simp: set_zip)
  have each: "\<forall>(i, x)\<in>set ?ps. i < length (replicate (length preps) None) \<and> R i x"
  proof
    fix e assume "e \<in> set ?ps"
    then obtain k where k: "k < length batches" "e \<in> set (batch_contexts (batches ! k) (results ! k))" using mem by blast
    then have "fst e \<in> set (snd (batches ! k))" "R (fst e) (snd e)" using one by fastforce+
    moreover have "i < length preps" if "i \<in> set (snd (batches ! k))" for i
      using fit k(1) that nth_mem[OF k(1)] unfolding batches_fit_def by fastforce
    ultimately show "case e of (i, x) \<Rightarrow> i < length (replicate (length preps) None) \<and> R i x" by (cases e) auto
  qed
  obtain slots where slots: "scatter ?ps (replicate (length preps) None) = Ok slots" "length slots = length preps"
    "\<forall>i<length preps. if i \<in> fst ` set ?ps then \<exists>x. slots ! i = Some x \<and> R i x else slots ! i = None"
    using scatter_values[OF each] by auto
  have "\<exists>r. slots ! i = Some r \<and> R i r" if i: "i < length preps" "pp_oracle_url (preps ! i) \<noteq> None" for i
  proof -
    obtain url where "pp_oracle_url (preps ! i) = Some url" using i(2) by blast
    then obtain items where "(url, items) \<in> set batches" "i \<in> set items"
      using fit i(1) unfolding batches_fit_def by blast
    then obtain k where k: "k < length batches" "i \<in> set (snd (batches ! k))" by (metis in_set_conv_nth snd_conv)
    then have "i \<in> fst ` set (batch_contexts (batches ! k) (results ! k))" using one by simp
    moreover have "set (batch_contexts (batches ! k) (results ! k)) \<subseteq> set ?ps"
    proof -
      have "(batches ! k, results ! k) \<in> set (zip batches results)" using k(1) len by (simp add: set_zip) blast
      then show ?thesis unfolding set_concat set_map by (metis (mono_tags, lifting) UN_upper case_prod_conv image_image)
    qed
    ultimately have "i \<in> fst ` set ?ps" by blast
    then show ?thesis using slots(3) i(1) by auto
  qed
  then show ?thesis using slots by (auto simp: scatter_contexts_def)
qed

lemma quote_pairs_meets:
  fixes E :: "('f, 'u, 'w) quote_env"
  assumes fit: "batches_fit preps batches"
    and inj: "\<And>prep w. injects prep (fst (injector (qc_order (qt_quote_config (pp_target prep)))
      (pair_input_index (pp_pair prep)) (pair_output_index (pp_pair prep)) counterparty w))"
    and quotes: "\<And>ts w. \<exists>values w1. batch_quote (qe_node E) ts rpcs (Some block) counterparty cs w = (Ok values, w1) \<and>
      list_all2 answers ts values"
    and oracles: "\<And>results w1. fetch_oracle_batches E counterparty preps batches w = (results, w1) \<Longrightarrow>
      list_all2 (\<lambda>batch r. case r of
        Ok cs \<Rightarrow> list_all2 R (snd batch) cs | Err e \<Rightarrow> (\<forall>i\<in>set (snd batch). R i (Err e))) batches results"
  shows "\<exists>rs w1. quote_pairs E rpcs cs counterparty injector block (preps, batches) w = (Ok rs, w1) \<and>
    length rs = length preps \<and> (\<forall>i<length preps. \<exists>slot.
      (pp_oracle_url (preps ! i) \<noteq> None \<longrightarrow> (\<exists>r. slot = Some r \<and> R i r)) \<and>
      slot_met injects answers block (preps ! i) slot (rs ! i))"
proof -
  obtain results w1 where fetched: "fetch_oracle_batches E counterparty preps batches w = (results, w1)" by fastforce
  obtain slots where slots: "scatter_contexts (length preps) batches results = Ok slots" "length slots = length preps"
    "\<forall>i<length preps. pp_oracle_url (preps ! i) \<noteq> None \<longrightarrow> (\<exists>r. slots ! i = Some r \<and> R i r)"
    using contexts_meet[OF fit oracles[OF fetched]] by blast
  obtain resps :: "'f batch_order_quotes_response option list" and metadata targets w2 where asm:
    "assemble injector block counterparty (zip preps slots) ([], [], []) w1 = ((resps, metadata, targets), w2)"
    "assembled injects block (zip preps slots) 0 resps metadata targets"
    using assemble_assembled[of injects injector counterparty block "zip preps slots" "[]" "[]" "[]" w1, OF inj] by auto
  obtain vals w3 where vals: "batch_quote (qe_node E) targets rpcs (Some block) counterparty cs w2 = (Ok vals, w3)"
    "list_all2 answers targets vals" using quotes by blast
  obtain rs where rs: "rbind (scatter (quote_responses block metadata targets (Ok vals)) resps) unwrap_slots = Ok rs"
    "length rs = length (zip preps slots)"
    "\<forall>j<length (zip preps slots). slot_met injects answers block (fst (zip preps slots ! j)) (snd (zip preps slots ! j)) (rs ! j)"
    using responses_meet[OF asm(2) vals(2)] by blast
  have "quote_pairs E rpcs cs counterparty injector block (preps, batches) w = (Ok rs, w3)"
    using fetched slots(1) asm(1) vals(1) rs(1) by (simp add: quote_pairs_def)
  moreover have "\<forall>i<length preps. \<exists>slot.
      (pp_oracle_url (preps ! i) \<noteq> None \<longrightarrow> (\<exists>r. slot = Some r \<and> R i r)) \<and>
      slot_met injects answers block (preps ! i) slot (rs ! i)"
  proof (intro allI impI)
    fix i assume i: "i < length preps"
    have "pp_oracle_url (preps ! i) \<noteq> None \<longrightarrow> (\<exists>r. slots ! i = Some r \<and> R i r)"
      using slots(3) i by blast
    moreover have "slot_met injects answers block (preps ! i) (slots ! i) (rs ! i)" using rs(3) slots(2) i by simp
    ultimately show "\<exists>slot. (pp_oracle_url (preps ! i) \<noteq> None \<longrightarrow> (\<exists>r. slot = Some r \<and> R i r)) \<and>
      slot_met injects answers block (preps ! i) slot (rs ! i)" by blast
  qed
  ultimately show ?thesis using rs(2) slots(2) by simp
qed

lemma batches_fit_Nil: "batches_fit [] []"
  by (simp add: batches_fit_def)

text \<open>Whatever the RPCs, the oracles and the injector do, each pair gets a response, in order.\<close>

definition response_of :: "u64 \<Rightarrow> pair_preparation \<Rightarrow> 'f batch_order_quotes_response \<Rightarrow> bool" where
  "response_of block prep resp \<longleftrightarrow> bq_pair resp = pp_pair prep \<and> bq_block_number resp = block \<and>
     (bq_success resp \<longleftrightarrow> bq_data resp \<noteq> None) \<and> (bq_success resp \<longleftrightarrow> bq_error resp = None)"

lemma slot_met_response: "slot_met injects answers block prep slot resp \<Longrightarrow> response_of block prep resp"
  by (auto simp: slot_met_def response_of_def oracle_failure_def quote_response_def split: result.splits)

lemma fetched_lengths:
  "fetch_oracle_batches E counterparty preps batches w = (results, w1) \<Longrightarrow>
   list_all2 (\<lambda>batch r. case r of
     Ok cs \<Rightarrow> list_all2 (\<lambda>_ _. True) (snd batch) cs | Err e \<Rightarrow> (\<forall>i\<in>set (snd batch). True)) batches results"
proof (rule list_all2_mono[OF fetched_batches], assumption, goal_cases)
  case (1 batch r)
  let ?fetch = "fetch_signed_context_batch_allow_failure (qe_http E) (fst batch)
    (encode_oracle_body_batch (qe_http E) (map (\<lambda>i. oracle_item counterparty (preps ! i)) (snd batch))) (length (snd batch))"
  have "length items = length (snd batch)" if "fst (?fetch w) = Ok items" for w items
    using batch_allow_failure_length[of "qe_http E" "fst batch" _ "length (snd batch)" w items "snd (?fetch w)"] that
    by (metis prod.collapse)
  then show ?case using 1(2) by (fastforce simp: list_all2_conv_all_nth split: result.splits)
qed

lemma quote_pairs_total:
  assumes "batches_fit preps batches"
  shows "\<exists>rs w1. quote_pairs E rpcs cs counterparty injector block (preps, batches) w = (Ok rs, w1) \<and>
    list_all2 (response_of block) preps rs"
proof -
  have "\<exists>rs w1. quote_pairs E rpcs cs counterparty injector block (preps, batches) w = (Ok rs, w1) \<and>
      length rs = length preps \<and> (\<forall>i<length preps. \<exists>slot.
        (pp_oracle_url (preps ! i) \<noteq> None \<longrightarrow> (\<exists>r. slot = Some r \<and> True)) \<and>
        slot_met (\<lambda>_ _. True) (\<lambda>_ _. True) block (preps ! i) slot (rs ! i))"
  proof (rule quote_pairs_meets[OF assms, where R = "\<lambda>_ _. True"], goal_cases)
    case (2 ts w)
    then show ?case using every_target_answered[of "qe_node E" ts rpcs "Some block" counterparty cs w]
      by (auto simp: list_all2_conv_all_nth)
  next
    case (3 results w1)
    then show ?case by (rule fetched_lengths)
  qed simp
  then show ?thesis using slot_met_response by (fastforce simp: list_all2_conv_all_nth)
qed

lemma quotes_for_every_pair:
  assumes "get_order_quotes_inner E orders sel block_number rpcs cs counterparty injector w = (Ok rs, w1)"
  shows "\<exists>pss block. rmap (\<lambda>(k, order). order_pairs E sel k order) (enumerate 0 orders) = Ok pss \<and>
    list_all2 (response_of block) (concat pss) rs"
proof -
  obtain block w0 preps batches where run: "prepare_orders E sel 0 orders ([], []) = Ok (preps, batches)"
    "quote_pairs E rpcs cs counterparty injector block (preps, batches) w0 = (Ok rs, w1)"
    using assms by (auto simp: get_order_quotes_inner_def ok_iff)
  obtain pss where pss: "rmap (\<lambda>(k, order). order_pairs E sel k order) (enumerate 0 orders) = Ok pss"
    "preps = concat pss" "batches_fit preps batches"
    using prepare_orders_Ok[OF run(1) batches_fit_Nil] by auto
  obtain rs' w2 where "quote_pairs E rpcs cs counterparty injector block (preps, batches) w0 = (Ok rs', w2)"
    "list_all2 (response_of block) preps rs'" using quote_pairs_total[OF pss(3), of E rpcs cs counterparty injector block w0] by blast
  then show ?thesis using run(2) pss by auto
qed

section \<open>Each pair as if alone\<close>

text \<open>
  \<open>down\<close> is the error of an oracle that cannot be reached or does not answer, by its URL; \<open>item\<close> is what an
  oracle answers for one pair.
\<close>

definition serves_oracles ::
  "('u, 'w) oracle_http \<Rightarrow> (string \<Rightarrow> oracle_error option)
   \<Rightarrow> (string \<Rightarrow> order_v4 \<times> u32 \<times> u32 \<times> address \<Rightarrow> oracle_item_result) \<Rightarrow> bool" where
  "serves_oracles H down item \<longleftrightarrow> is_ok (oh_client H) \<and>
     (\<forall>url items w. case validate_oracle_url H url of
        Err e \<Rightarrow> down url = Some e
      | Ok u \<Rightarrow>
          let u = oh_append_pair H u ''allowFailure'' ''true'' in
          case fst (oh_post_batch H u (encode_oracle_body_batch H items) w) of
            Err e \<Rightarrow> down url = Some (Request_Failed (oh_sanitized_endpoint H u) e)
          | Ok response \<Rightarrow> down url = None \<and> batch_items response = map (item url) items)"

definition oracle_answer ::
  "(string \<Rightarrow> oracle_error option) \<Rightarrow> (string \<Rightarrow> order_v4 \<times> u32 \<times> u32 \<times> address \<Rightarrow> oracle_item_result)
   \<Rightarrow> string \<Rightarrow> order_v4 \<times> u32 \<times> u32 \<times> address \<Rightarrow> oracle_result" where
  "oracle_answer down item url request = (case down url of
     Some e \<Rightarrow> Err (show_oracle_error e) | None \<Rightarrow> map_err show_item_error (item url request))"

lemma served_batch:
  assumes "serves_oracles H down item"
  shows "fst (fetch_signed_context_batch_allow_failure H url (encode_oracle_body_batch H items) (length items) w) =
    (case down url of Some e \<Rightarrow> Err e | None \<Rightarrow> Ok (map (item url) items))"
proof (cases "validate_oracle_url H url")
  case (Err e)
  then show ?thesis
    using assms[unfolded serves_oracles_def, THEN conjunct2, rule_format, of url items w]
    by (simp add: fetch_signed_context_batch_allow_failure_def io_bind_def io_pure_def)
next
  case (Ok u)
  let ?u = "oh_append_pair H u ''allowFailure'' ''true''"
  obtain r w1 where r: "oh_post_batch H ?u (encode_oracle_body_batch H items) w = (r, w1)" by fastforce
  show ?thesis
    using assms[unfolded serves_oracles_def, THEN conjunct2, rule_format, of url items w] Ok r
    by (cases r) (simp_all add: fetch_signed_context_batch_allow_failure_def io_bind_def io_pure_def io_map_err_def
        io_return_def Let_def)
qed

definition pair_answer ::
  "('f, 'u, 'w) quote_env \<Rightarrow> (string \<Rightarrow> oracle_error option)
   \<Rightarrow> (string \<Rightarrow> order_v4 \<times> u32 \<times> u32 \<times> address \<Rightarrow> oracle_item_result)
   \<Rightarrow> (order_v4 \<Rightarrow> u32 \<Rightarrow> u32 \<Rightarrow> signed_context_v2 list) \<Rightarrow> (quote_target \<Rightarrow> quote_outcome)
   \<Rightarrow> (bytes \<Rightarrow> (string, string) result) \<Rightarrow> u64 \<Rightarrow> address \<Rightarrow> pair_preparation \<Rightarrow> 'f batch_order_quotes_response" where
  \<comment> \<open>the response for a pair that is quoted on its own\<close>
  "pair_answer E down item adds outcome decoded block counterparty prep =
     (case (case pp_oracle_url prep of
              None \<Rightarrow> Ok []
            | Some url \<Rightarrow> (case oracle_answer down item url (oracle_item counterparty prep) of
                 Ok c \<Rightarrow> Ok [c] | Err e \<Rightarrow> Err e)) of
        Err e \<Rightarrow> oracle_failure block (pp_pair prep) e
      | Ok oc \<Rightarrow>
          let context = oc @ adds (qc_order (qt_quote_config (pp_target prep))) (pair_input_index (pp_pair prep))
                          (pair_output_index (pp_pair prep)) in
          quote_response block (pp_pair prep) context
            (map_err show_failed_quote (alone (qe_node E) outcome decoded (with_context (pp_target prep) context))))"

text \<open>
  Claim C39: sweeping the pairs of many orders is transparent. When the RPCs that answer run the
  raindex's multicall, the oracles answer each pair on its own merits and the injector is a function of the
  pair, the responses are those of sweeping each pair alone, in the order of the orders and their
  pairs: no pair gets the context or the quote of another, a failing oracle fails its own pairs only,
  and the contexts of the oracle come before the injected ones.
\<close>

theorem quotes_pair_by_pair:
  assumes "rmap (\<lambda>(k, order). order_pairs E sel k order) (enumerate 0 orders) = Ok pss"
    and "serves_oracles (qe_http E) down item"
    and "\<forall>order i j w. fst (injector order i j counterparty w) = adds order i j"
    and "connect_providers (qe_node E) rpcs = (providers, failures)"
    and "\<forall>(rpc, p)\<in>set providers. runs_multicall (qe_node E) p (Some block) counterparty outcome decoded \<or>
      unreachable (qe_node E) p (Some block) counterparty"
    and "\<exists>(rpc, p)\<in>set providers. runs_multicall (qe_node E) p (Some block) counterparty outcome decoded"
  shows "fst (get_order_quotes_inner E orders sel (Some block) rpcs cs counterparty injector w) =
    Ok (map (pair_answer E down item adds outcome decoded block counterparty) (concat pss))"
proof -
  let ?inj = "\<lambda>prep. adds (qc_order (qt_quote_config (pp_target prep))) (pair_input_index (pp_pair prep)) (pair_output_index (pp_pair prep))"
  let ?R = "\<lambda>preps i r. \<forall>url. pp_oracle_url (preps ! i) = Some url \<longrightarrow>
    r = oracle_answer down item url (oracle_item counterparty (preps ! i))"
  obtain preps batches where prep: "prepare_orders E sel 0 orders ([], []) = Ok (preps, batches)"
    using prepare_orders_total[OF assms(1), of "([], [])"] by auto
  then have fit: "preps = concat pss" "batches_fit preps batches"
    using prepare_orders_Ok[OF prep batches_fit_Nil] assms(1) by auto
  have "\<exists>rs w1. quote_pairs E rpcs cs counterparty injector block (preps, batches) w = (Ok rs, w1) \<and>
      length rs = length preps \<and> (\<forall>i<length preps. \<exists>slot.
        (pp_oracle_url (preps ! i) \<noteq> None \<longrightarrow> (\<exists>r. slot = Some r \<and> ?R preps i r)) \<and>
        slot_met (\<lambda>prep c. c = ?inj prep) (\<lambda>t x. x = alone (qe_node E) outcome decoded t) block (preps ! i) slot (rs ! i))"
  proof (rule quote_pairs_meets[OF fit(2), where R = "?R preps"], goal_cases)
    case (1 prep w)
    then show ?case using assms(3) by simp
  next
    case (2 ts w)
    then show ?case by (rule batch_answers_alone[OF assms(4-6)])
  next
    case (3 results w1)
    have client: "is_ok (oh_client (qe_http E))" using assms(2) by (simp add: serves_oracles_def)
    show ?case
    proof (rule list_all2_all_nthI)
      show len: "length batches = length results" using list_all2_lengthD[OF fetched_batches[OF 3]] .
      fix k assume k: "k < length batches"
      obtain url items where b: "batches ! k = (url, items)" by fastforce
      have url: "pp_oracle_url (preps ! i) = Some url" if "i \<in> set items" for i
        using fit(2) nth_mem[OF k] b that by (fastforce simp: batches_fit_def)
      obtain w where "results ! k = (case fst (fetch_signed_context_batch_allow_failure (qe_http E) url
          (encode_oracle_body_batch (qe_http E) (map (\<lambda>i. oracle_item counterparty (preps ! i)) items)) (length items) w) of
         Ok items \<Rightarrow> Ok (map (map_err show_item_error) items) | Err e \<Rightarrow> Err (show_oracle_error e))"
        using list_all2_nthD[OF fetched_batches[OF 3] k] client b by fastforce
      then have "results ! k = (case down url of Some e \<Rightarrow> Err (show_oracle_error e)
          | None \<Rightarrow> Ok (map (\<lambda>i. map_err show_item_error (item url (oracle_item counterparty (preps ! i)))) items))"
        using served_batch[OF assms(2), of url "map (\<lambda>i. oracle_item counterparty (preps ! i)) items" w]
        by (cases "down url") simp_all
      then show "case results ! k of Ok cs \<Rightarrow> list_all2 (?R preps) (snd (batches ! k)) cs
          | Err e \<Rightarrow> (\<forall>i\<in>set (snd (batches ! k)). ?R preps i (Err e))"
        using url b by (cases "down url") (auto simp: oracle_answer_def list_all2_conv_all_nth)
    qed
  qed
  then obtain rs w1 where rs: "quote_pairs E rpcs cs counterparty injector block (preps, batches) w = (Ok rs, w1)"
    "length rs = length preps" "\<forall>i<length preps. \<exists>slot.
        (pp_oracle_url (preps ! i) \<noteq> None \<longrightarrow> (\<exists>r. slot = Some r \<and> ?R preps i r)) \<and>
        slot_met (\<lambda>prep c. c = ?inj prep) (\<lambda>t x. x = alone (qe_node E) outcome decoded t) block (preps ! i) slot (rs ! i)"
    by blast
  have "rs ! i = pair_answer E down item adds outcome decoded block counterparty (preps ! i)" if i: "i < length preps" for i
  proof -
    obtain slot where slot: "pp_oracle_url (preps ! i) \<noteq> None \<Longrightarrow> \<exists>r. slot = Some r \<and> ?R preps i r"
      "slot_met (\<lambda>prep c. c = ?inj prep) (\<lambda>t x. x = alone (qe_node E) outcome decoded t) block (preps ! i) slot (rs ! i)"
      using rs(3) i by blast
    have "pair_context (preps ! i) slot = (case pp_oracle_url (preps ! i) of
              None \<Rightarrow> Ok []
            | Some url \<Rightarrow> (case oracle_answer down item url (oracle_item counterparty (preps ! i)) of
                 Ok c \<Rightarrow> Ok [c] | Err e \<Rightarrow> Err e))"
      using slot(1) by (cases "pp_oracle_url (preps ! i)") (auto simp: pair_context_def)
    then show ?thesis using slot(2) by (auto simp: slot_met_def pair_answer_def Let_def split: result.splits)
  qed
  then have "rs = map (pair_answer E down item adds outcome decoded block counterparty) preps"
    using rs(2) by (intro nth_equalityI) auto
  then show ?thesis
    using rs(1) prep fit(1) by (simp add: get_order_quotes_inner_def io_bind_def io_return_def io_pure_def)
qed

section \<open>An example\<close>

text \<open>Two orders: the first names an oracle that is down, the second none.\<close>

definition example_http :: "(string, nat) oracle_http" where
  "example_http = \<lparr>
     oh_parse_url = Ok, oh_scheme = (\<lambda>u. ''https''), oh_origin = (\<lambda>u. u), oh_sanitized_endpoint = (\<lambda>u. u),
     oh_append_pair = (\<lambda>u k v. ''o''), oh_client = Ok (),
     oh_post = (\<lambda>u body n. (Err ''refused'', n)), oh_post_batch = (\<lambda>u body n. (Err ''refused'', n)),
     oh_encode = (\<lambda>r. []), oh_encode_batch = (\<lambda>rs. []), oh_hex_decode = (\<lambda>s. Ok []),
     oh_oracle_of_meta = (\<lambda>m. Some ''https://oracle'') \<rparr>"

definition example_order_v4 :: order_v4 where
  "example_order_v4 = \<lparr>order_owner = 1,
     order_evaluable = \<lparr>ev_interpreter = 1, ev_store = 1, ev_bytecode = []\<rparr>,
     valid_inputs = [\<lparr>io_token = 10, io_vault_id = 0\<rparr>, \<lparr>io_token = 11, io_vault_id = 0\<rparr>],
     valid_outputs = [\<lparr>io_token = 11, io_vault_id = 0\<rparr>], order_nonce = 0\<rparr>"

definition example_env :: "(int, string, nat) quote_env" where
  "example_env = \<lparr>qe_node = example_node, qe_http = example_http, qe_order_v4 = (\<lambda>s. Ok example_order_v4),
     qe_parse_address = (\<lambda>s. Ok 5)\<rparr>"

definition example_sg_order :: "string option \<Rightarrow> sg_order" where
  "example_sg_order meta = \<lparr>sg_id = ''1'', sg_order_bytes = ''00'', sg_order_hash = ''1'', sg_owner = ''1'',
     sg_outputs = [], sg_inputs = [], sg_raindex = ''5'', sg_active = True, sg_timestamp_added = ''1'',
     sg_meta = meta\<rparr>"

definition oracle_is_down :: "string \<Rightarrow> oracle_error option" where
  "oracle_is_down url = Some (Request_Failed ''o'' ''refused'')"

definition no_item :: "string \<Rightarrow> order_v4 \<times> u32 \<times> u32 \<times> address \<Rightarrow> oracle_item_result" where
  "no_item url request = Err \<lparr>oie_error = ''none'', oie_detail = ''none''\<rparr>"

lemma example_serves: "serves_oracles example_http oracle_is_down no_item"
  by (simp add: serves_oracles_def validate_oracle_url_def example_http_def Let_def oracle_is_down_def)

lemma zero_text: "show_nat 0 = ''0''"
  by code_simp

theorem quotes_pair_by_pair_witness:
  "\<exists>failed quoted. fst (get_order_quotes_inner example_env
      [example_sg_order (Some ''m''), example_sg_order None] None (Some 9) [''http://rpc''] None 7 noop_injector 0) =
      Ok [failed, quoted] \<and>
    bq_error failed = Some ''Oracle fetch failed for pair (0, 0): HTTP request to o failed: refused'' \<and>
    bq_error quoted = Some ''stale price''"
proof -
  have pairs: "io_pairs example_order_v4 =
      [((0, \<lparr>io_token = 10, io_vault_id = 0\<rparr>), (0, \<lparr>io_token = 11, io_vault_id = 0\<rparr>)),
       ((1, \<lparr>io_token = 11, io_vault_id = 0\<rparr>), (0, \<lparr>io_token = 11, io_vault_id = 0\<rparr>))]"
    by (simp add: io_pairs_def example_order_v4_def)
  let ?prep = "\<lambda>meta. prepare_pair example_env (example_sg_order meta) example_order_v4 5
    ((0, \<lparr>io_token = 10, io_vault_id = 0\<rparr>), (0, \<lparr>io_token = 11, io_vault_id = 0\<rparr>))"
  have one: "order_pairs example_env None k (example_sg_order meta) = Ok [?prep meta]" for k meta
    by (simp add: order_pairs_def try_into_order_v4_def pairs wanted_pair_def pair_is_selected_def)
      (simp add: example_env_def pairs wanted_pair_def pair_is_selected_def)
  have "rmap (\<lambda>(k, order). order_pairs example_env None k order)
      (enumerate 0 [example_sg_order (Some ''m''), example_sg_order None]) = Ok [[?prep (Some ''m'')], [?prep None]]"
    by (simp add: one)
  moreover have "serves_oracles (qe_http example_env) oracle_is_down no_item"
    using example_serves by (simp add: example_env_def)
  moreover have "\<forall>order i j w. fst (noop_injector order i j 7 w) = []" by (simp add: noop_injector_def)
  moreover have "connect_providers (qe_node example_env) [''http://rpc''] = ([(''http://rpc'', [''http://rpc''])], [])"
    by (simp add: example_env_def example_node_def mk_read_provider_def)
  moreover have "runs_multicall (qe_node example_env) p (Some 9) 7 example_quote_outcome (\<lambda>_. Ok ''stale price'')" for p
    using example_runs by (simp add: example_env_def)
  ultimately have "fst (get_order_quotes_inner example_env [example_sg_order (Some ''m''), example_sg_order None] None (Some 9)
        [''http://rpc''] None 7 noop_injector 0) =
      Ok (map (pair_answer example_env oracle_is_down no_item (\<lambda>_ _ _. [])
        example_quote_outcome (\<lambda>_. Ok ''stale price'') 9 7) (concat [[?prep (Some ''m'')], [?prep None]]))"
    by (intro quotes_pair_by_pair) auto
  then show ?thesis
    by (simp add: pair_answer_def oracle_answer_def oracle_failure_def prepare_pair_def extract_oracle_url_def
        example_sg_order_def example_env_def example_http_def alone_def with_context_def example_quote_outcome_def
        example_byte_def quote_response_def chunk_err_to_quote_result_def revert_failure_def Let_def
        oracle_is_down_def show_oracle_error_def show_failed_quote_def zero_text)
qed

end
