(* ===== verification/Order_Quotes.thy ===== *)
theory Order_Quotes
  imports Quote_Orders Yaml
begin

text \<open>
  \<open>common/src/raindex_client/order_quotes.rs\<close>: the quotes of the client's orders, by order. The client's
  orders and vaults (\<open>orders.rs\<close>, \<open>vaults.rs\<close>) are turned into the orders of the subgraph, their pairs are
  swept (\<open>quote/src/order_quotes.rs\<close>), and the flat list of answers is cut into the orders' own by
  counting the pairs of each order again; then each answer gets its share of the vault it sells from.

  The fields of the two structs that quoting reads are modelled; of an order's subgraph form those that
  \<open>into_sg_order\<close> fills from them. \<open>sg_printers\<close> has the printers of the Ethereum library and the float
  library and the RPC URLs of a chain, which the client looks up in its settings.
\<close>

section \<open>Orders and vaults of the client\<close>

record raindex_vault_token =
  vt_chain_id :: u32
  vt_id :: string
  vt_address :: address
  vt_name :: "string option"
  vt_symbol :: "string option"
  vt_decimals :: u8

datatype raindex_vault_type = Input_Vault | Output_Vault | Input_Output_Vault

record 'f raindex_vault =
  rv_chain_id :: u32
  rv_vault_type :: "raindex_vault_type option"
  rv_id :: bytes
  rv_owner :: address
  rv_vault_id :: u256
  rv_balance :: 'f
  rv_formatted_balance :: string
  rv_token :: raindex_vault_token
  rv_raindex :: address

record 'f raindex_order =
  ro_chain_id :: u32
  ro_id :: b256
  ro_order_bytes :: bytes
  ro_order_hash :: b256
  ro_owner :: address
  ro_inputs :: "'f raindex_vault list"
  ro_outputs :: "'f raindex_vault list"
  ro_raindex :: address
  ro_active :: bool
  ro_timestamp_added :: u256
  ro_meta :: "bytes option"

record 'f sg_printers =
  sp_text :: text_codec
  sp_show_b256 :: "b256 \<Rightarrow> string"
  sp_as_hex :: "'f \<Rightarrow> string"
  sp_rpc_urls :: "u32 \<Rightarrow> (string list, raindex_error) result"

definition sg_erc20_of_token :: "'f sg_printers \<Rightarrow> raindex_vault_token \<Rightarrow> sg_erc20" where
  "sg_erc20_of_token P token = \<lparr>sg_token_address = tc_show_address (sp_text P) (vt_address token),
     sg_token_name = vt_name token, sg_token_symbol = vt_symbol token,
     sg_token_decimals = Some (show_word (vt_decimals token))\<rparr>"

definition into_sg_vault :: "'f sg_printers \<Rightarrow> 'f raindex_vault \<Rightarrow> sg_vault" where
  "into_sg_vault P v = \<lparr>sg_vault_id = show_word (rv_vault_id v),
     sg_vault_owner = tc_show_address (sp_text P) (rv_owner v), sg_vault_balance = sp_as_hex P (rv_balance v),
     sg_vault_token = sg_erc20_of_token P (rv_token v)\<rparr>"

definition into_sg_order :: "'f sg_printers \<Rightarrow> 'f raindex_order \<Rightarrow> sg_order" where
  \<comment> \<open>the conversion returns \<open>Result\<close>; it fails only on the orders listed with a vault, which are left out\<close>
  "into_sg_order P order = \<lparr>sg_id = sp_show_b256 P (ro_id order),
     sg_order_bytes = tc_show_bytes (sp_text P) (ro_order_bytes order),
     sg_order_hash = sp_show_b256 P (ro_order_hash order), sg_owner = tc_show_address (sp_text P) (ro_owner order),
     sg_outputs = map (into_sg_vault P) (ro_outputs order), sg_inputs = map (into_sg_vault P) (ro_inputs order),
     sg_raindex = tc_show_address (sp_text P) (ro_raindex order), sg_active = ro_active order,
     sg_timestamp_added = show_word (ro_timestamp_added order),
     sg_meta = map_option (tc_show_bytes (sp_text P)) (ro_meta order)\<rparr>"

section \<open>Quotes\<close>

definition quote_err :: "('a, quote_error) result \<Rightarrow> ('a, raindex_error) result" where
  "quote_err r = map_err (\<lambda>e. Raindex_Quote_Error (show_quote_error e)) r"

definition try_from_order_quote_value ::
  "'f float_ops \<Rightarrow> 'f \<Rightarrow> 'f order_quote_value \<Rightarrow> ('f quote_value, raindex_error) result" where
  \<comment> \<open>\<open>one\<close> is the constant \<open>F1\<close>; \<open>F0\<close> is the zero of the float library\<close>
  "try_from_order_quote_value F one value =
     rbind (flt (f_zero F)) (\<lambda>zero.
     rbind (flt (f_eq F zero (oqv_ratio value))) (\<lambda>no_ratio.
     rbind (if no_ratio then Ok zero else flt (f_div F one (oqv_ratio value))) (\<lambda>inverse_ratio.
     rbind (if no_ratio then Ok ''Infinity'' else flt (f_format F inverse_ratio)) (\<lambda>formatted_inverse_ratio.
     rbind (flt (f_mul F (oqv_max_output value) (oqv_ratio value))) (\<lambda>max_input.
     rbind (flt (f_format F (oqv_max_output value))) (\<lambda>formatted_max_output.
     rbind (flt (f_format F max_input)) (\<lambda>formatted_max_input.
     rbind (flt (f_format F (oqv_ratio value))) (\<lambda>formatted_ratio.
     Ok \<lparr>qv_max_output = oqv_max_output value, qv_formatted_max_output = formatted_max_output,
         qv_max_input = max_input, qv_formatted_max_input = formatted_max_input,
         qv_ratio = oqv_ratio value, qv_formatted_ratio = formatted_ratio,
         qv_inverse_ratio = inverse_ratio, qv_formatted_inverse_ratio = formatted_inverse_ratio,
         qv_formatted_max_output_as_percent_of_vault = None\<rparr>))))))))"

definition try_from_batch_order_quotes_response ::
  "'f float_ops \<Rightarrow> 'f \<Rightarrow> 'f batch_order_quotes_response \<Rightarrow> ('f order_quote, raindex_error) result" where
  "try_from_batch_order_quotes_response F one value =
     rbind (case bq_data value of None \<Rightarrow> Ok None
            | Some data \<Rightarrow> rbind (try_from_order_quote_value F one data) (\<lambda>v. Ok (Some v))) (\<lambda>data.
     Ok \<lparr>q_pair = bq_pair value, q_block_number = bq_block_number value, q_data = data,
         q_success = bq_success value, q_error = bq_error value, q_signed_context = bq_signed_context value\<rparr>)"

definition format_amount_as_percent_of_balance ::
  "'f float_ops \<Rightarrow> 'f \<Rightarrow> 'f \<Rightarrow> (string option, raindex_error) result" where
  "format_amount_as_percent_of_balance F amount balance =
     rbind (flt (f_is_zero F balance)) (\<lambda>empty.
     if empty then Ok None
     else
       rbind (flt (f_parse F ''100'')) (\<lambda>hundred.
       rbind (rbind (flt (f_div F amount balance)) (\<lambda>share. flt (f_mul F share hundred))) (\<lambda>percent.
       rbind (flt (f_format F percent)) (\<lambda>text. Ok (Some text)))))"

definition vault_balance_for_io :: "io_v2 \<Rightarrow> 'f raindex_vault list \<Rightarrow> 'f option" where
  "vault_balance_for_io io vaults =
     map_option rv_balance
       (find (\<lambda>v. vt_address (rv_token v) = io_token io \<and> rv_vault_id v = io_vault_id io) vaults)"

definition opt_nth :: "'a list \<Rightarrow> u32 \<Rightarrow> 'a option" where
  \<comment> \<open>\<open>xs.get(i as usize)\<close>\<close>
  "opt_nth xs i = (if unat i < length xs then Some (xs ! unat i) else None)"

definition enrich_quote_with_vault_percentages ::
  "'f float_ops \<Rightarrow> 'f raindex_order \<Rightarrow> order_v4 \<Rightarrow> 'f order_quote \<Rightarrow> ('f order_quote, raindex_error) result" where
  "enrich_quote_with_vault_percentages F order order_v4 quote =
     (case q_data quote of
        None \<Rightarrow> Ok quote
      | Some data \<Rightarrow>
          (case Option.bind (opt_nth (valid_outputs order_v4) (pair_output_index (q_pair quote)))
                  (\<lambda>io. vault_balance_for_io io (ro_outputs order)) of
             None \<Rightarrow> Ok quote
           | Some balance \<Rightarrow>
               rbind (format_amount_as_percent_of_balance F (qv_max_output data) balance) (\<lambda>percent.
               Ok (quote\<lparr>q_data := Some (data\<lparr>qv_formatted_max_output_as_percent_of_vault := percent\<rparr>)\<rparr>))))"

definition order_v4_of ::
  "('f, 'u, 'w) quote_env \<Rightarrow> 'f sg_printers \<Rightarrow> 'f raindex_order \<Rightarrow> (order_v4, raindex_error) result" where
  \<comment> \<open>\<open>into_sg_order()?.try_into()?\<close>\<close>
  "order_v4_of E P order = map_err Order_Detail_Error (qe_order_v4 E (sg_order_bytes (into_sg_order P order)))"

section \<open>The quotes of one order\<close>

definition get_quotes_with_injector ::
  "('f, 'u, 'w) quote_env \<Rightarrow> 'f sg_printers \<Rightarrow> 'f float_ops \<Rightarrow> 'f \<Rightarrow> 'f raindex_order \<Rightarrow> u64 option \<Rightarrow> u32 option
   \<Rightarrow> address \<Rightarrow> 'w injector \<Rightarrow> ('f order_quote list, raindex_error, 'w) io" where
  "get_quotes_with_injector E P F one order block_number chunk_size counterparty injector =
     io_bind (io_pure (sp_rpc_urls P (ro_chain_id order))) (\<lambda>rpcs.
     io_bind (io_pure (order_v4_of E P order)) (\<lambda>order_v4.
     io_bind (\<lambda>w. case get_order_quotes E [into_sg_order P order] block_number rpcs
                (map_option unat chunk_size) counterparty injector w of (r, w1) \<Rightarrow> (quote_err r, w1)) (\<lambda>order_quotes.
     io_bind (io_pure (rmap (try_from_batch_order_quotes_response F one) order_quotes)) (\<lambda>result_order_quotes.
     io_pure (rmap (enrich_quote_with_vault_percentages F order order_v4) result_order_quotes)))))"

definition get_quotes ::
  "('f, 'u, 'w) quote_env \<Rightarrow> 'f sg_printers \<Rightarrow> 'f float_ops \<Rightarrow> 'f \<Rightarrow> 'f raindex_order \<Rightarrow> u64 option \<Rightarrow> u32 option
   \<Rightarrow> ('f order_quote list, raindex_error, 'w) io" where
  "get_quotes E P F one order block_number chunk_size =
     get_quotes_with_injector E P F one order block_number chunk_size 0 noop_injector"

section \<open>The quotes of many orders\<close>

definition pair_selected :: "pair list list option \<Rightarrow> nat \<Rightarrow> nat \<Rightarrow> nat \<Rightarrow> (bool, raindex_error) result" where
  \<comment> \<open>here the index into the selection panics when it is out of range\<close>
  "pair_selected selected_pairs order_index input_index output_index =
     (case selected_pairs of
        None \<Rightarrow> Ok True
      | Some pairs \<Rightarrow>
          if order_index < length pairs then
            Ok (\<exists>p\<in>set (pairs ! order_index).
              pair_input_index p = of_nat input_index \<and> pair_output_index p = of_nat output_index)
          else Err Panicked)"

definition count_pair ::
  "pair list list option \<Rightarrow> nat \<Rightarrow> (nat \<times> io_v2) \<times> (nat \<times> io_v2) \<Rightarrow> nat \<Rightarrow> (nat, raindex_error) result" where
  "count_pair selected_pairs order_index io n = (case io of ((input_index, input), (output_index, output)) \<Rightarrow>
     rbind (pair_selected selected_pairs order_index input_index output_index) (\<lambda>is_selected.
     Ok (if io_token input \<noteq> io_token output \<and> is_selected then n + 1 else n)))"

definition count_pairs ::
  "('f, 'u, 'w) quote_env \<Rightarrow> pair list list option \<Rightarrow> nat \<Rightarrow> sg_order \<Rightarrow> (nat, raindex_error) result" where
  "count_pairs E selected_pairs order_index sg =
     rbind (map_err Order_Detail_Error (qe_order_v4 E (sg_order_bytes sg))) (\<lambda>order_v4.
     rfold (count_pair selected_pairs order_index) (io_pairs order_v4) 0)"

fun cut_quotes :: "'a list \<Rightarrow> nat \<Rightarrow> nat list \<Rightarrow> ('a list list, raindex_error) result" where
  \<comment> \<open>\<open>flat[offset..offset + count]\<close> for the counts in turn\<close>
  "cut_quotes flat offset [] = Ok []"
| "cut_quotes flat offset (n # counts) =
     (if offset + n \<le> length flat then
        rbind (cut_quotes flat (offset + n) counts) (\<lambda>rest. Ok (take n (drop offset flat) # rest))
      else Err Panicked)"

definition same_chain :: "'f raindex_order list \<Rightarrow> (unit, raindex_error) result" where
  "same_chain orders = (case orders of [] \<Rightarrow> Ok ()
     | first # rest \<Rightarrow>
         (case find (\<lambda>other. ro_chain_id other \<noteq> ro_chain_id first) rest of
            None \<Rightarrow> Ok ()
          | Some found \<Rightarrow> Err (Preflight_Error (''All orders must share the same chain ID, expected '' @
              show_word (ro_chain_id first) @ '' but found '' @ show_word (ro_chain_id found)))))"

definition enrich_order ::
  "('f, 'u, 'w) quote_env \<Rightarrow> 'f sg_printers \<Rightarrow> 'f float_ops \<Rightarrow> 'f raindex_order \<times> 'f order_quote list
   \<Rightarrow> ('f order_quote list, raindex_error) result" where
  "enrich_order E P F x = (case x of (order, quotes) \<Rightarrow>
     rbind (order_v4_of E P order) (\<lambda>order_v4.
     rmap (enrich_quote_with_vault_percentages F order order_v4) quotes))"

definition group_quotes ::
  "('f, 'u, 'w) quote_env \<Rightarrow> 'f sg_printers \<Rightarrow> 'f float_ops \<Rightarrow> 'f \<Rightarrow> 'f raindex_order list \<Rightarrow> nat list
   \<Rightarrow> 'f batch_order_quotes_response list \<Rightarrow> ('f order_quote list list, raindex_error) result" where
  \<comment> \<open>from the flat answers on\<close>
  "group_quotes E P F one orders pair_counts flat_results =
     rbind (rmap (try_from_batch_order_quotes_response F one) flat_results) (\<lambda>flat_raindex.
     if length flat_raindex \<noteq> sum_list pair_counts then
       Err (Preflight_Error (''Quote response count mismatch: expected '' @ show_nat (sum_list pair_counts) @
         '', got '' @ show_nat (length flat_raindex)))
     else
       rbind (cut_quotes flat_raindex 0 pair_counts) (\<lambda>result.
       rmap (enrich_order E P F) (zip orders result)))"

definition get_order_quotes_batch_inner ::
  "('f, 'u, 'w) quote_env \<Rightarrow> 'f sg_printers \<Rightarrow> 'f float_ops \<Rightarrow> 'f \<Rightarrow> 'f raindex_order list \<Rightarrow> pair list list option
   \<Rightarrow> u64 option \<Rightarrow> u32 option \<Rightarrow> address \<Rightarrow> 'w injector \<Rightarrow> ('f order_quote list list, raindex_error, 'w) io" where
  "get_order_quotes_batch_inner E P F one orders selected_pairs block_number chunk_size counterparty injector =
     (case orders of
        [] \<Rightarrow> io_return []
      | first # _ \<Rightarrow>
        io_bind (io_pure (same_chain orders)) (\<lambda>_.
        io_bind (io_pure (sp_rpc_urls P (ro_chain_id first))) (\<lambda>rpcs.
        let sg_orders = map (into_sg_order P) orders in
        if (case selected_pairs of Some pairs \<Rightarrow> length pairs \<noteq> length orders | None \<Rightarrow> False) then
          io_fail (Preflight_Error ''Selected quote pairs must align with orders'')
        else
          io_bind (io_pure (rmap (\<lambda>(k, sg). count_pairs E selected_pairs k sg) (enumerate 0 sg_orders))) (\<lambda>pair_counts.
          io_bind (\<lambda>w. case (case selected_pairs of
                 Some pairs \<Rightarrow> get_order_quotes_for_pairs E sg_orders pairs block_number rpcs
                   (map_option unat chunk_size) counterparty injector w
               | None \<Rightarrow> get_order_quotes E sg_orders block_number rpcs (map_option unat chunk_size) counterparty
                   injector w) of (r, w1) \<Rightarrow> (quote_err r, w1)) (\<lambda>flat_results.
          io_pure (group_quotes E P F one orders pair_counts flat_results))))))"

definition get_order_quotes_batch_with_injector ::
  "('f, 'u, 'w) quote_env \<Rightarrow> 'f sg_printers \<Rightarrow> 'f float_ops \<Rightarrow> 'f \<Rightarrow> 'f raindex_order list
   \<Rightarrow> u64 option \<Rightarrow> u32 option \<Rightarrow> address \<Rightarrow> 'w injector \<Rightarrow> ('f order_quote list list, raindex_error, 'w) io" where
  "get_order_quotes_batch_with_injector E P F one orders =
     get_order_quotes_batch_inner E P F one orders None"

definition get_order_quotes_batch ::
  "('f, 'u, 'w) quote_env \<Rightarrow> 'f sg_printers \<Rightarrow> 'f float_ops \<Rightarrow> 'f \<Rightarrow> 'f raindex_order list
   \<Rightarrow> u64 option \<Rightarrow> u32 option \<Rightarrow> ('f order_quote list list, raindex_error, 'w) io" where
  "get_order_quotes_batch E P F one orders block_number chunk_size =
     get_order_quotes_batch_with_injector E P F one orders block_number chunk_size 0 noop_injector"

definition get_order_quotes_batch_for_pairs ::
  "('f, 'u, 'w) quote_env \<Rightarrow> 'f sg_printers \<Rightarrow> 'f float_ops \<Rightarrow> 'f \<Rightarrow> 'f raindex_order list \<Rightarrow> pair list list
   \<Rightarrow> u64 option \<Rightarrow> u32 option \<Rightarrow> ('f order_quote list list, raindex_error, 'w) io" where
  "get_order_quotes_batch_for_pairs E P F one orders selected_pairs block_number chunk_size =
     get_order_quotes_batch_inner E P F one orders (Some selected_pairs) block_number chunk_size 0 noop_injector"

section \<open>The quotes of each order\<close>

lemma count_pairs_length:
  assumes "count_pairs E sel k sg = Ok n" "order_pairs E sel k sg = Ok ps"
    "case sel of Some pairs \<Rightarrow> k < length pairs | None \<Rightarrow> True"
  shows "n = length ps"
proof -
  have selected: "pair_selected sel k i j = Ok (pair_is_selected sel k (of_nat i) (of_nat j))" for i j
    using assms(3) by (auto simp: pair_selected_def pair_is_selected_def split: option.splits)
  have "count_pair sel k io c = Ok (if wanted_pair sel k io then c + 1 else c)" for io c
    by (auto simp: count_pair_def wanted_pair_def selected split: prod.splits)
  then have "rfold (count_pair sel k) ios c = Ok (c + length (filter (wanted_pair sel k) ios))" for ios c
    by (induction ios arbitrary: c) auto
  then show ?thesis
    using assms(1,2) by (auto simp: count_pairs_def order_pairs_def try_into_order_v4_def ok_iff)
qed

lemma count_pairs_error:
  assumes "count_pairs E sel k sg = Err e" "case sel of Some pairs \<Rightarrow> k < length pairs | None \<Rightarrow> True"
  shows "\<exists>m. e = Order_Detail_Error m"
proof -
  have selected: "pair_selected sel k i j = Ok (pair_is_selected sel k (of_nat i) (of_nat j))" for i j
    using assms(2) by (auto simp: pair_selected_def pair_is_selected_def split: option.splits)
  have "\<exists>c'. count_pair sel k io c = Ok c'" for io c
    by (auto simp: count_pair_def selected split: prod.splits)
  then have "\<exists>c'. rfold (count_pair sel k) ios c = Ok c'" for ios c
    by (induction ios arbitrary: c) (auto, metis rbind.simps(1))
  then show ?thesis
    using assms(1) by (cases "qe_order_v4 E (sg_order_bytes sg)") (auto simp: count_pairs_def, metis result.distinct(1))
qed

lemma cut_quotes_concat:
  assumes "offset + sum_list (map length pss) = length flat"
  shows "\<exists>result. cut_quotes flat offset (map length pss) = Ok result \<and> concat result = drop offset flat \<and>
    map length result = map length pss"
  using assms
proof (induction pss arbitrary: offset)
  case (Cons ps pss)
  have "offset + length ps + sum_list (map length pss) = length flat" using Cons.prems by simp
  from Cons.IH[OF this] obtain result where r: "cut_quotes flat (offset + length ps) (map length pss) = Ok result"
    "concat result = drop (offset + length ps) flat" "map length result = map length pss"
    by blast
  have "take (length ps) (drop offset flat) @ drop (offset + length ps) flat = drop offset flat"
    by (metis append_take_drop_id drop_drop add.commute)
  then show ?case using r Cons.prems by simp
qed simp

lemma enrich_keeps_pair:
  "enrich_quote_with_vault_percentages F order o4 quote = Ok quote' \<Longrightarrow> q_pair quote' = q_pair quote"
  by (auto simp: enrich_quote_with_vault_percentages_def ok_iff split: option.splits)

definition float_failure :: "raindex_error \<Rightarrow> bool" where
  "float_failure e \<longleftrightarrow> (\<exists>m. e = Float_Error m)"

lemma enrich_error: "enrich_quote_with_vault_percentages F order o4 quote = Err e \<Longrightarrow> float_failure e"
  by (auto simp: enrich_quote_with_vault_percentages_def format_amount_as_percent_of_balance_def rbind_Err_iff
      map_err_Err_iff float_failure_def split: option.splits if_splits)

lemma convert_error: "try_from_batch_order_quotes_response F one r = Err e \<Longrightarrow> float_failure e"
  by (auto simp: try_from_batch_order_quotes_response_def try_from_order_quote_value_def rbind_Err_iff
      map_err_Err_iff float_failure_def split: option.splits if_splits)

lemma convert_keeps_pair: "try_from_batch_order_quotes_response F one r = Ok q \<Longrightarrow> q_pair q = bq_pair r"
  by (auto simp: try_from_batch_order_quotes_response_def ok_iff)

lemma rmap_Err: "rmap f xs = Err e \<Longrightarrow> \<exists>x\<in>set xs. f x = Err e"
  by (induction xs) (auto simp: rbind_Err_iff)

lemma rmap_pairs:
  "(\<And>x y. x \<in> set xs \<Longrightarrow> f x = Ok y \<Longrightarrow> h y = g x) \<Longrightarrow> rmap f xs = Ok ys \<Longrightarrow> map h ys = map g xs"
  by (induction xs arbitrary: ys) (auto simp: ok_iff)

definition internal_error :: "raindex_error \<Rightarrow> bool" where
  \<comment> \<open>a panic, or the error for answers that do not match the counted pairs\<close>
  "internal_error e \<longleftrightarrow> e = Panicked \<or> (\<exists>m. e = Preflight_Error (''Quote response count mismatch: '' @ m))"

lemma not_internal [simp]:
  "float_failure e \<Longrightarrow> \<not> internal_error e" "\<not> internal_error (Order_Detail_Error m)"
  "\<not> internal_error (Raindex_Quote_Error m)"
  by (auto simp: float_failure_def internal_error_def)

lemma group_quotes_by_order:
  assumes "list_all2 (response_of block) (concat pss) rs" "length pss = length orders"
  shows "case group_quotes E P F one orders (map length pss) rs of
    Ok result \<Rightarrow> map (map q_pair) result = map (map pp_pair) pss
  | Err e \<Rightarrow> \<not> internal_error e"
proof (cases "rmap (try_from_batch_order_quotes_response F one) rs")
  case (Err e)
  then obtain r where "try_from_batch_order_quotes_response F one r = Err e" using rmap_Err[OF Err] by auto
  then have "\<not> internal_error e" by (intro not_internal(1) convert_error)
  then show ?thesis using Err by (simp add: group_quotes_def)
next
  case (Ok flat)
  have flat: "map q_pair flat = map bq_pair rs" using convert_keeps_pair by (rule rmap_pairs[OF _ Ok])
  have "map bq_pair rs = map pp_pair (concat pss)"
    using assms(1) by (intro nth_equalityI) (auto simp: list_all2_conv_all_nth response_of_def)
  then have pairs: "map q_pair flat = map pp_pair (concat pss)" using flat by simp
  then have len: "sum_list (map length pss) = length flat" by (metis length_concat length_map)
  obtain result where cut: "cut_quotes flat 0 (map length pss) = Ok result" "concat result = flat"
    "map length result = map length pss"
    using cut_quotes_concat[of 0 pss flat] len by auto
  have cutp: "map (map q_pair) result = map (map pp_pair) pss"
  proof (rule concat_injective)
    show "concat (map (map q_pair) result) = concat (map (map pp_pair) pss)"
      using pairs cut(2) by (metis map_concat)
    show lenr: "length (map (map q_pair) result) = length (map (map pp_pair) pss)" using cut(3) by (metis length_map)
    show "\<forall>(x, y)\<in>set (zip (map (map q_pair) result) (map (map pp_pair) pss)). length x = length y"
      using cut(3) lenr by (auto simp: set_zip) (metis length_map nth_map)
  qed
  have run: "group_quotes E P F one orders (map length pss) rs = rmap (enrich_order E P F) (zip orders result)"
    using Ok cut(1) len by (simp add: group_quotes_def)
  show ?thesis
  proof (cases "rmap (enrich_order E P F) (zip orders result)")
    case enriched: (Ok final)
    have "map q_pair qs' = map q_pair qs" if en: "enrich_order E P F (order, qs) = Ok qs'" for order qs qs'
    proof -
      obtain o4 where "rmap (enrich_quote_with_vault_percentages F order o4) qs = Ok qs'"
        using en by (auto simp: enrich_order_def ok_iff)
      then show ?thesis by (rule rmap_pairs[rotated]) (rule enrich_keeps_pair)
    qed
    then have "map (map q_pair) final = map (map q_pair \<circ> snd) (zip orders result)"
      by (intro rmap_pairs[OF _ enriched]) auto
    also have "\<dots> = map (map q_pair) result"
      using cut(3) assms(2) by (metis length_map map_map map_snd_zip)
    finally show ?thesis using run enriched cutp by simp
  next
    case (Err e)
    have "\<not> internal_error e" using rmap_Err[OF Err]
      by (auto simp: enrich_order_def rbind_Err_iff order_v4_of_def map_err_Err_iff dest!: rmap_Err dest: enrich_error[THEN not_internal(1)])
    then show ?thesis using run Err by simp
  qed
qed

text \<open>
  Claim C40: the quotes of a batch of orders are cut by order: the result has one list for each order, which
  answers the pairs of that order, in their order, as the sweep prepared them. Counting the pairs
  a second time agrees with the sweep: no slice panics and the count never mismatches.
\<close>

theorem quotes_cut_by_order:
  assumes "sp_rpc_urls P (ro_chain_id (hd orders)) = Ok rpcs"
  shows "case fst (get_order_quotes_batch_inner E P F one orders sel block_number chunk_size counterparty injector w) of
    Ok result \<Rightarrow>
      (\<exists>pss. rmap (\<lambda>(k, order). order_pairs E sel k (into_sg_order P order)) (enumerate 0 orders) = Ok pss \<and>
        map (map q_pair) result = map (map pp_pair) pss)
  | Err e \<Rightarrow> \<not> internal_error e"
proof (cases "orders = []")
  case True
  then show ?thesis by (simp add: get_order_quotes_batch_inner_def io_return_def)
next
  case False
  then obtain first more where orders: "orders = first # more" by (cases orders) auto
  let ?sg = "map (into_sg_order P) orders"
  show ?thesis
  proof (cases "same_chain orders")
    case (Err e)
    then have "\<not> internal_error e"
      by (auto simp: same_chain_def internal_error_def orders split: option.splits)
    then show ?thesis using Err orders by (simp add: get_order_quotes_batch_inner_def io_bind_def io_pure_def)
  next
    case chain: (Ok u)
    show ?thesis
    proof (cases "case sel of Some pairs \<Rightarrow> length pairs \<noteq> length orders | None \<Rightarrow> False")
      case True
      then show ?thesis
        using chain assms unfolding orders
        by (auto simp: get_order_quotes_batch_inner_def io_bind_def io_pure_def io_fail_def internal_error_def Let_def
            split: option.splits)
    next
      case sel: False
      have in_range: "case sel of Some pairs \<Rightarrow> k < length pairs | None \<Rightarrow> True" if "k < length orders" for k
        using sel that by (auto split: option.splits)
      let ?counts = "rmap (\<lambda>(k, sg). count_pairs E sel k sg) (enumerate 0 ?sg)"
      let ?sweep = "get_order_quotes_inner E ?sg sel block_number rpcs (map_option unat chunk_size) counterparty injector"
      have sweep: "(case sel of Some pairs \<Rightarrow> get_order_quotes_for_pairs E ?sg pairs block_number rpcs
                   (map_option unat chunk_size) counterparty injector w
               | None \<Rightarrow> get_order_quotes E ?sg block_number rpcs (map_option unat chunk_size) counterparty
                   injector w) = ?sweep w"
        using sel by (auto simp: get_order_quotes_for_pairs_def get_order_quotes_def split: option.splits)
      show ?thesis
      proof (cases ?counts)
        case (Err e)
        then obtain k sg where "(k, sg) \<in> set (enumerate 0 ?sg)" "count_pairs E sel k sg = Err e" using rmap_Err by fastforce
        then have "\<not> internal_error e" using count_pairs_error in_range by (fastforce simp: enumerate_mem)
        then show ?thesis using Err chain assms sel unfolding orders
          by (simp add: get_order_quotes_batch_inner_def io_bind_def io_pure_def Let_def)
      next
        case (Ok counts)
        obtain r w1 where r: "?sweep w = (r, w1)" by fastforce
        have run: "fst (get_order_quotes_batch_inner E P F one orders sel block_number chunk_size counterparty injector w) =
            rbind (quote_err r) (group_quotes E P F one orders counts)"
          using Ok chain assms sel r sweep unfolding orders
          by (cases r; cases sel) (simp_all add: get_order_quotes_batch_inner_def io_bind_def io_pure_def Let_def quote_err_def)
        show ?thesis
        proof (cases r)
          case (Err e)
          then show ?thesis using run by (simp add: quote_err_def)
        next
          case rs: (Ok rs)
          obtain pss block where pss: "rmap (\<lambda>(k, order). order_pairs E sel k order) (enumerate 0 ?sg) = Ok pss"
            "list_all2 (response_of block) (concat pss) rs"
            using quotes_for_every_pair[of E ?sg sel block_number rpcs "map_option unat chunk_size" counterparty injector w rs w1]
              r rs by blast
          have "counts = map length pss"
          proof (rule nth_equalityI)
            have l: "length counts = length orders" "length pss = length orders"
              using rmap_Ok_length[OF Ok] rmap_Ok_length[OF pss(1)] by simp_all
            then show "length counts = length (map length pss)" by simp
            fix k assume "k < length counts"
            then have k: "k < length (enumerate 0 ?sg)" "k < length orders" using l by simp_all
            have "count_pairs E sel k (?sg ! k) = Ok (counts ! k)" "order_pairs E sel k (?sg ! k) = Ok (pss ! k)"
              using rmap_Ok_nth[OF Ok k(1)] rmap_Ok_nth[OF pss(1) k(1)] k(2) by (simp_all add: nth_enumerate_eq)
            then show "counts ! k = map length pss ! k"
              using count_pairs_length in_range[OF k(2)] k(2) l by fastforce
          qed
          moreover have "length pss = length orders" using rmap_Ok_length[OF pss(1)] by simp
          moreover have "rmap (\<lambda>(k, order). order_pairs E sel k (into_sg_order P order)) (enumerate n os) =
              rmap (\<lambda>(k, order). order_pairs E sel k order) (enumerate n (map (into_sg_order P) os))" for n os
            by (induction os arbitrary: n) auto
          ultimately show ?thesis
            using run rs pss group_quotes_by_order[OF pss(2), of orders E P F one]
            by (auto simp: quote_err_def split: result.splits)
        qed
      qed
    qed
  qed
qed

section \<open>An example\<close>

definition example_printers :: "int sg_printers" where
  "example_printers = \<lparr>sp_text = \<lparr>tc_show_address = (\<lambda>a. ''a''), tc_parse_address = (\<lambda>s. Ok 5), tc_parse_url = Ok,
     tc_show_bytes = (\<lambda>b. ''b''), tc_parse_bytes = (\<lambda>s. Ok [])\<rparr>, sp_show_b256 = (\<lambda>x. ''x''), sp_as_hex = (\<lambda>x. ''h''),
     sp_rpc_urls = (\<lambda>c. Ok [''http://rpc''])\<rparr>"

definition example_order :: "int raindex_order" where
  "example_order = \<lparr>ro_chain_id = 1, ro_id = 1, ro_order_bytes = [], ro_order_hash = 1, ro_owner = 1, ro_inputs = [],
     ro_outputs = [], ro_raindex = 5, ro_active = True, ro_timestamp_added = 1, ro_meta = None\<rparr>"

lemma example_pairs: "order_pairs example_env None k (into_sg_order example_printers example_order) =
  Ok [prepare_pair example_env (into_sg_order example_printers example_order) example_order_v4 5
    ((0, \<lparr>io_token = 10, io_vault_id = 0\<rparr>), (0, \<lparr>io_token = 11, io_vault_id = 0\<rparr>))]"
proof -
  have "io_pairs example_order_v4 =
      [((0, \<lparr>io_token = 10, io_vault_id = 0\<rparr>), (0, \<lparr>io_token = 11, io_vault_id = 0\<rparr>)),
       ((1, \<lparr>io_token = 11, io_vault_id = 0\<rparr>), (0, \<lparr>io_token = 11, io_vault_id = 0\<rparr>))]"
    by (simp add: io_pairs_def example_order_v4_def)
  then show ?thesis
    by (simp add: order_pairs_def try_into_order_v4_def) (simp add: example_env_def wanted_pair_def pair_is_selected_def)
qed

theorem quotes_cut_by_order_witness:
  "case fst (get_order_quotes_batch_inner example_env example_printers int_floats 1 [example_order, example_order]
      None (Some 9) None 7 noop_injector 0) of
    Ok result \<Rightarrow> map (map pair_input_index) (map (map q_pair) result) = [[0], [0]]
  | Err e \<Rightarrow> e \<noteq> Panicked"
proof -
  have "sp_rpc_urls example_printers (ro_chain_id (hd [example_order, example_order])) = Ok [''http://rpc'']"
    by (simp add: example_printers_def)
  from quotes_cut_by_order[OF this, where E = example_env and F = int_floats and one = 1 and sel = None and
      block_number = "Some 9" and chunk_size = None and counterparty = 7 and injector = noop_injector and w = 0]
  show ?thesis
    by (cases "fst (get_order_quotes_batch_inner example_env example_printers int_floats 1 [example_order, example_order]
      None (Some 9) None 7 noop_injector 0)")
      (auto simp: example_pairs internal_error_def prepare_pair_def)
qed

end
