(* ===== verification/Spec2Isabelle.thy ===== *)
theory Spec2Isabelle
  imports Take_Driver Sync_Cycle Scheduler Producer Settings_Emit Settings_Deployments Order_Quotes
begin

text \<open>
  A verification library of the Rust crates of Raindex (\<open>src/crates\<close>). Three subsystems carry the
  program's own logic and are modelled here: \<^bold>\<open>taking orders\<close>, which turns a request to buy or
  spend a token into the calldata of one transaction; \<^bold>\<open>quoting\<close>, which asks the
  chain what the orders offer; and the \<^bold>\<open>local database\<close>, which follows the chain and keeps a queryable
  copy of it in every client, together with the settings and manifests that tell it what to follow.
  File names below are relative to \<open>src/crates/common/src\<close> unless a section names another directory.

  \<^bold>\<open>Shared\<close>

  \<^item> \<open>Prelude\<close>: the \<open>result\<close> type, operations that can fail and change a world (\<open>io\<close>), machine
    words with checked and saturating arithmetic, and the text functions the sources use.
  \<^item> \<open>Rust_Float\<close>: the operations of the decimal floats of \<open>rain_math_float\<close> as a record, and the laws
    the code relies on as the hypotheses \<open>float_order\<close> (comparisons order the numbers) and \<open>float_exact\<close>
    (sums and differences are exact where the result fits a coefficient of 224 bits; nothing is
    assumed of the others), with an integer instance that satisfies them.
  \<^item> \<open>Raindex_Types\<close>, \<open>Local_Db_Types\<close>: the contract types, and the errors of the local database with
    the databases and chain operations as records of functions.

  \<^bold>\<open>Taking orders\<close> (\<open>take_orders/\<close>, \<open>raindex_client/take_orders/\<close>)

  \<^item> \<open>Take_Candidates\<close> (\<open>candidates.rs\<close>): which quotes can be taken. The candidates are exactly the
    eligible quotes, and the statistics account for every quote.
  \<^item> \<open>Take_Simulation\<close>, \<open>Take_Config\<close> (\<open>simulation.rs\<close>, \<open>config.rs\<close>): the greedy fill by price. The
    legs follow the price order, sum up to the totals, and a buy takes the target or all there is
    within the price cap; exact modes are all or nothing.
  \<^item> \<open>Preflight\<close> (\<open>preflight.rs\<close>): balance, allowance, simulation and the diagnosis of a failing batch.
  \<^item> \<open>Take_Result\<close>, \<open>Take_Selection\<close>, \<open>Take_Single\<close> (\<open>request.rs\<close>, \<open>result.rs\<close>, \<open>approval.rs\<close>,
    \<open>selection.rs\<close>, \<open>single.rs\<close>): parsing of requests, the choice of the raindex, which does not
    depend on hash map order, and the take of one order.
  \<^item> \<open>Take_Driver\<close> (\<open>mod.rs\<close>): the loop that simulates on the chain, drops the order it blames and
    selects again. Calldata is returned only when the chain accepted it. The loop has the code's own
    iteration bound as fuel, the number of candidates: every turn that goes on drops an order, and
    \<open>preflight_bound_is_enough\<close> shows that with it the operation returns what the loop without a
    bound (a \<open>partial_function\<close>, which is shown to end) returns.

  \<^bold>\<open>Quoting\<close> (\<open>crates/quote/src\<close>)

  \<^item> \<open>Quote_Rpc\<close> (\<open>rpc.rs\<close>, \<open>quote.rs\<close>, \<open>error.rs\<close>): targets are grouped by raindex, each group is
    quoted in chunks of one multicall, a chunk that reverts is bisected until the reverting target is
    alone, and a chunk whose RPC fails goes to the next one. Every target has an answer, and nothing panics, whatever the
    node says; on a node that runs multicalls as the contract does it is the answer of a call of its
    own; and the calls of a chunk are bounded. The bisection ends because every turn shrinks the spans
    that are pending.
  \<^item> \<open>Quote_Oracle\<close> (\<open>oracle.rs\<close>, \<open>injector.rs\<close>): requests to oracles, one for each endpoint. The
    bounded collection of concurrent requests is a step relation: in whatever order they finish, the
    results are in the order of the requests.
  \<^item> \<open>Quote_Orders\<close> (\<open>order_quotes.rs\<close>): the sweep over the input and output pairs of orders. Answers
    belong to their pairs, and a pair whose oracle failed says so and is not quoted.
  \<^item> \<open>Order_Quotes\<close> (\<open>common/src/raindex_client/order_quotes.rs\<close>, parts of \<open>orders.rs\<close>, \<open>vaults.rs\<close>): the
    quotes of the client's orders, cut by order; counting the pairs a second time agrees with the sweep.

  \<^bold>\<open>Syncing the local database\<close> (\<open>local_db/\<close>)

  \<^item> \<open>Retry\<close> (\<open>retry.rs\<close>), \<open>Fetch\<close> (\<open>fetch.rs\<close>), \<open>Events\<close> (\<open>decode.rs\<close>, \<open>address_collectors.rs\<close>): logs are
    requested in chunks, with retries, completed with timestamps, sorted and decoded. The chunks
    partition the range, an honest node's logs arrive completely and in order, and decoding keeps
    one event per log.
  \<^item> \<open>Sql\<close>, \<open>Sql_Script\<close> (\<open>query/sql_statement.rs\<close>, \<open>sql_statement_batch.rs\<close>, \<open>sql_script.rs\<close>): bound
    statements, transactions, and the splitter of scripts, which returns the statements of any script
    that is well-formed after a grammar of code, texts, names and comments.
  \<^item> \<open>Local_Db\<close>, \<open>Sync_Window\<close>, \<open>Sync_Apply\<close>, \<open>Sync_Engine\<close>, \<open>Sync_Cycle\<close> (\<open>query/executor.rs\<close>,
    \<open>pipeline/adapters/\<close>, \<open>pipeline/engine.rs\<close>, \<open>token_fetch.rs\<close>): one cycle of one raindex. A window
    is sound, successive windows cover the chain without gap or overlap, and the watermark is written
    last and in the same transaction as everything that was read for the window (\<open>window_data\<close>,
    \<open>window_stored\<close>), so that it never runs ahead of what is stored.
  \<^item> \<open>Bootstrap\<close> (\<open>pipeline/adapters/bootstrap.rs\<close>, \<open>raindex_client/local_db/pipeline/bootstrap.rs\<close>):
    schema, integrity, wiping and the import of dumps.

  \<^bold>\<open>Settings and manifests\<close> (\<open>settings/src\<close>)

  \<^item> \<open>Yaml\<close> (\<open>yaml/mod.rs\<close>, \<open>utils.rs\<close>): documents and the typed accessors with their errors.
  \<^item> \<open>Settings_Sections\<close>, \<open>Settings_Networks\<close> (\<open>local_db_sync.rs\<close>, \<open>network.rs\<close>, \<open>local_db_remotes.rs\<close>):
    a section is a locale \<open>yaml_section\<close> of an entry parser that reads only the allowed keys;
    sanitising a document then keeps what it parses to. Updated RPCs are read back.
  \<^item> \<open>Settings_Catalog\<close>, \<open>Settings_Tokens\<close> (\<open>subgraph.rs\<close>, \<open>metaboard.rs\<close>, \<open>rainlang.rs\<close>, \<open>raindex.rs\<close>,
    \<open>token.rs\<close>, \<open>remote_networks.rs\<close>, \<open>remote_tokens.rs\<close>, \<open>remote/\<close>): the sections that say what there
    is, and the entries fetched from remote lists. A token that is added is read back.
  \<^item> \<open>Settings_Sanitize\<close>, \<open>Settings_Emit\<close> (the \<open>sanitize_documents\<close> of the sections, \<open>yaml/emitter.rs\<close>):
    a sanitised section has the same entries, sorted and reduced to their known fields, sanitising is
    idempotent and keeps what the flat sections parse to; printing merges the documents, the last
    one having the last word at every path.
  \<^item> \<open>Settings_Yaml\<close> (\<open>yaml/raindex.rs\<close>): the handler of the settings and its getters.
  \<^item> \<open>Settings_Context\<close> (\<open>yaml/context.rs\<close>): the placeholders of a text and what they stand for.
  \<^item> \<open>Settings_Scenarios\<close> (\<open>scenario.rs\<close>, \<open>blocks.rs\<close>): the tree of scenarios, flattened with the
    bindings of the ancestors.
  \<^item> \<open>Settings_Orders\<close>, \<open>Settings_Deployments\<close> (\<open>order.rs\<close>, \<open>deployment.rs\<close>): all parts of an order share
    one network, the vault ids written to a document are those of the configuration, the order and the
    scenario of a deployment belong together, and reading the settings for one deployment gives the
    same deployment as reading them as a whole.
  \<^item> \<open>Manifest\<close> (\<open>local_db_manifest.rs\<close>): a printed manifest parses back to itself.

  \<^bold>\<open>Running the sync\<close> (\<open>local_db/pipeline/runner/\<close>, \<open>raindex_client/local_db/\<close>)

  \<^item> \<open>Runner_Targets\<close> (\<open>utils.rs\<close>, \<open>remotes.rs\<close>, \<open>config.rs\<close>): from settings to the targets of a network.
  \<^item> \<open>Client_Runner\<close> (\<open>pipeline/runner/mod.rs\<close>): one run of one network. No target is lost from the
    report, a dump is downloaded exactly when it would be imported, and an import that keeps failing
    is given up after three times.
  \<^item> \<open>Sync_Status\<close> (\<open>status.rs\<close>, \<open>state.rs\<close>): the status store refines a pair of maps; the choice between
    the local database and the subgraph.
  \<^item> \<open>Scheduler\<close> (\<open>pipeline/runner/scheduler/\<close>): the loops of the networks, native and in the browser,
    as instances of the locale \<open>scheduler_loop\<close>. They pace themselves as documented, and a chain is
    ready only when every target of it has caught up or another client leads.

  \<^bold>\<open>Publishing dumps\<close> (\<open>local_db/export.rs\<close>, \<open>cli/src/commands/local_db/pipeline/\<close>)

  \<^item> \<open>Export\<close> (\<open>export.rs\<close>): the dump of a raindex as a text of insert statements of bounded size. It
    holds every row that was read, and a native client reads it back statement by statement.
  \<^item> \<open>Producer\<close> (\<open>bootstrap.rs\<close>, \<open>runner/\<close>): the run that syncs every raindex, exports it and publishes a
    manifest. What it publishes for a target is what a client finds when it looks the target up:
    the new dump, or the one published before when the target failed.

  \<^bold>\<open>What is a parameter.\<close> Code that is not in the repository enters as an argument: the float library
  (with its laws), the chain and its RPC client, SQLite, the ABI decoders, HTTP, locks and
  leadership, and the parsers and printers of addresses, URLs and byte strings. The SQL of inserts and
  derived tables (\<open>insert.rs\<close> and the query templates) is a parameter too; the sync of a window assumes
  of it only that its statements write rows and leave the watermark table alone. What a theorem needs of them is a hypothesis of it, and a witness
  gives a concrete instance. Hash maps are association lists in their iteration order, or maps when
  the order cannot be seen. Futures that the code joins are run one after the other; a lock is never
  poisoned; log messages are left out. Loops that the code bounds are recursive functions with a
  termination proof; the loops of the scheduler, which end only when they are told to, are inductive
  relations between states.

  \<^bold>\<open>What is not modelled.\<close> The native retry loop belongs to the \<open>backon\<close> crate. The browser's
  coordinated bootstrap of several networks needs locks shared between tabs, and its quoting uses a
  single provider over all RPCs, which belongs to the \<open>alloy\<close> crate. Of the settings, charts and the
  order builder have their sanitisers only, and accounts are left out. The composition of Rainlang
  documents (\<open>dotrain_order.rs\<close>, \<open>raindex_order_builder/\<close>) is done by third-party crates. The subgraph
  client sends GraphQL requests; of the client's orders and vaults only what quoting reads is
  modelled, not the conversions of rows and records into API objects, nor the trades, volumes and
  markets computed from them. The arguments of the command line and the REST and JavaScript
  interfaces are input and output. Contracts, subgraph mappings and the web application are not Rust.
\<close>

end
